(* ===== verification/Prelude.thy ===== *)
theory Prelude
  imports Main "HOL-Library.Word" "HOL-Library.AList" "HOL-Library.List_Lexorder"
begin

unbundle bit_operations_syntax

section \<open>Shared vocabulary of the model\<close>

text \<open>
  The machine integers, the standard-library containers of the program and the
  interfaces that several components share.

  \<^item> A \<open>HashMap\<close> is an association list with distinct keys (\<open>hm_wf\<close>). Its list order
    stands for the (unspecified) iteration order of the Rust map; \<open>insert\<close>, \<open>remove\<close> and
    lookups do not depend on it.
  \<^item> A \<open>BTreeSet\<close> is a sorted list without duplicates (\<open>bs_wf\<close>).
  \<^item> \<open>kv_store\<close> is the interface of everything that is read by key and written by key;
    loops of writes are reasoned about once, inside it.
  \<^item> \<open>inv_system\<close> is the interface of a state machine with an inductive invariant.
\<close>

type_synonym u8 = "8 word"
type_synonym u16 = "16 word"
type_synonym u32 = "32 word"
type_synonym u64 = "64 word"
type_synonym i64 = "64 word"
type_synonym bytes = "u8 list"

named_theorems hm_simps \<open>equations of the hash-map model\<close>
named_theorems bs_simps \<open>equations of the ordered-set model\<close>

subsection \<open>Hash maps\<close>

type_synonym ('k, 'v) hashmap = "('k \<times> 'v) list"

definition hm_get :: "('k, 'v) hashmap \<Rightarrow> 'k \<Rightarrow> 'v option" where
  "hm_get m k = map_of m k"

definition hm_insert :: "'k \<Rightarrow> 'v \<Rightarrow> ('k, 'v) hashmap \<Rightarrow> ('k, 'v) hashmap" where
  "hm_insert k v m = AList.update k v m"

definition hm_remove :: "'k \<Rightarrow> ('k, 'v) hashmap \<Rightarrow> ('k, 'v) hashmap" where
  "hm_remove k m = AList.delete k m"

definition hm_keys :: "('k, 'v) hashmap \<Rightarrow> 'k list" where
  "hm_keys m = List.map fst m"

definition hm_values :: "('k, 'v) hashmap \<Rightarrow> 'v list" where
  "hm_values m = List.map snd m"

definition hm_retain :: "('k \<Rightarrow> 'v \<Rightarrow> bool) \<Rightarrow> ('k, 'v) hashmap \<Rightarrow> ('k, 'v) hashmap" where
  "hm_retain p m = filter (\<lambda>(k, v). p k v) m"

definition hm_map_values :: "('k \<Rightarrow> 'v \<Rightarrow> 'w) \<Rightarrow> ('k, 'v) hashmap \<Rightarrow> ('k, 'w) hashmap" where
  "hm_map_values f m = List.map (\<lambda>(k, v). (k, f k v)) m"

definition hm_wf :: "('k, 'v) hashmap \<Rightarrow> bool" where
  "hm_wf m \<longleftrightarrow> distinct (List.map fst m)"

lemma hm_get_Nil [simp]: "hm_get [] k = None"
  by (simp add: hm_get_def)

lemma hm_get_insert [hm_simps]:
  "hm_get (hm_insert k v m) k' = (if k' = k then Some v else hm_get m k')"
  by (simp add: hm_get_def hm_insert_def update_conv')

lemma hm_get_remove [hm_simps]:
  "hm_get (hm_remove k m) k' = (if k' = k then None else hm_get m k')"
  by (simp add: hm_get_def hm_remove_def delete_conv')

lemma hm_get_map_values [hm_simps]:
  "hm_get (hm_map_values f m) k = map_option (f k) (hm_get m k)"
  by (induction m) (auto simp: hm_get_def hm_map_values_def)

lemma hm_wf_Nil [simp, intro]: "hm_wf []"
  by (simp add: hm_wf_def)

lemma hm_wf_insert [simp, intro]: "hm_wf m \<Longrightarrow> hm_wf (hm_insert k v m)"
  by (simp add: hm_wf_def hm_insert_def distinct_update)

lemma hm_wf_remove [simp, intro]: "hm_wf m \<Longrightarrow> hm_wf (hm_remove k m)"
  by (simp add: hm_wf_def hm_remove_def distinct_delete)

lemma hm_wf_retain [simp, intro]: "hm_wf m \<Longrightarrow> hm_wf (hm_retain p m)"
  by (simp add: hm_wf_def hm_retain_def distinct_map_filter)

lemma fst_map_values: "List.map fst (hm_map_values f m) = List.map fst m"
  by (induction m) (auto simp: hm_map_values_def)

lemma hm_wf_map_values [simp]: "hm_wf (hm_map_values f m) = hm_wf m"
  by (simp add: hm_wf_def fst_map_values)

lemma hm_keys_map_values [hm_simps]: "hm_keys (hm_map_values f m) = hm_keys m"
  by (simp add: hm_keys_def fst_map_values)

lemma hm_keys_iff: "k \<in> set (hm_keys m) \<longleftrightarrow> (\<exists>v. hm_get m k = Some v)"
  by (induction m) (auto simp: hm_keys_def hm_get_def)

lemma hm_get_None_iff: "hm_get m k = None \<longleftrightarrow> k \<notin> set (hm_keys m)"
  using hm_keys_iff [of k m] by auto

lemma set_keys_insert [hm_simps]:
  "set (hm_keys (hm_insert k v m)) = insert k (set (hm_keys m))"
  by (auto simp: hm_keys_iff hm_get_insert split: if_splits)

lemma set_keys_remove [hm_simps]:
  "set (hm_keys (hm_remove k m)) = set (hm_keys m) - {k}"
  by (auto simp: hm_keys_iff hm_get_remove split: if_splits)

lemma hm_mem_get: "hm_wf m \<Longrightarrow> (k, v) \<in> set m \<longleftrightarrow> hm_get m k = Some v"
  by (simp add: hm_wf_def hm_get_def map_of_eq_Some_iff)

lemma hm_get_mem: "hm_get m k = Some v \<Longrightarrow> (k, v) \<in> set m"
  by (simp add: hm_get_def map_of_SomeD)

lemma hm_get_retain [hm_simps]:
  "hm_wf m \<Longrightarrow> hm_get (hm_retain p m) k =
     (case hm_get m k of None \<Rightarrow> None | Some v \<Rightarrow> if p k v then Some v else None)"
  by (induction m) (auto simp: hm_get_def hm_retain_def hm_wf_def map_of_eq_None_iff rev_image_eqI
      split: option.splits dest: map_of_SomeD)

lemma hm_remove_absent: "hm_get m k = None \<Longrightarrow> hm_remove k m = m"
  by (induction m) (auto simp: hm_get_def hm_remove_def split: if_splits)

lemma hm_insert_absent: "hm_get m k = None \<Longrightarrow> hm_insert k v m = m @ [(k, v)]"
  by (induction m) (auto simp: hm_get_def hm_insert_def split: if_splits)

lemma hm_insert_same: "hm_get m k = Some v \<Longrightarrow> hm_insert k v m = m"
  by (induction m) (auto simp: hm_get_def hm_insert_def split: if_splits)

lemma hm_map_values_insert:
  "hm_map_values f (hm_insert k v m) = hm_insert k (f k v) (hm_map_values f m)"
  by (induction m) (auto simp: hm_map_values_def hm_insert_def)

lemma hm_map_values_remove: "hm_map_values f (hm_remove k m) = hm_remove k (hm_map_values f m)"
  by (induction m) (auto simp: hm_map_values_def hm_remove_def)

lemma hm_insert_remove: "hm_wf m \<Longrightarrow> set (hm_insert k v (hm_remove k m)) = insert (k, v) (set (hm_remove k m))"
  by (subst hm_insert_absent) (simp_all add: hm_get_remove)

lemma hm_values_absent_insert:
  "hm_get m k = None \<Longrightarrow> hm_values (hm_insert k v m) = hm_values m @ [v]"
  by (simp add: hm_insert_absent hm_values_def)

lemma set_hm_values: "hm_wf m \<Longrightarrow> set (hm_values m) = {v. \<exists>k. hm_get m k = Some v}"
  by (force simp: hm_values_def hm_mem_get [symmetric])

subsection \<open>Stores written key by key\<close>

fun put_all :: "('k \<Rightarrow> 'v \<Rightarrow> 's \<Rightarrow> 's) \<Rightarrow> ('k \<times> 'v) list \<Rightarrow> 's \<Rightarrow> 's" where
  "put_all put [] s = s"
| "put_all put ((k, v) # kvs) s = put_all put kvs (put k v s)"

locale kv_store =
  fixes get :: "'s \<Rightarrow> 'k \<Rightarrow> 'w"
    and put :: "'k \<Rightarrow> 'v \<Rightarrow> 's \<Rightarrow> 's"
    and val :: "'v \<Rightarrow> 'w"
    and wf :: "'s \<Rightarrow> bool"
  assumes get_put: "wf s \<Longrightarrow> get (put k v s) k' = (if k' = k then val v else get s k')"
    and wf_put: "wf s \<Longrightarrow> wf (put k v s)"
begin

lemma wf_put_all: "wf s \<Longrightarrow> wf (put_all put kvs s)"
  by (induction kvs arbitrary: s) (auto simp: wf_put)

lemma get_put_all:
  "wf s \<Longrightarrow> get (put_all put kvs s) k =
     (case map_of (rev kvs) k of Some v \<Rightarrow> val v | None \<Rightarrow> get s k)"
  by (induction kvs arbitrary: s)
    (auto simp: get_put wf_put map_add_def split: option.splits)

lemma put_put: "wf s \<Longrightarrow> get (put k v (put k u s)) = get (put k v s)"
  by (rule ext) (simp add: get_put wf_put)

lemma put_commute:
  "wf s \<Longrightarrow> k \<noteq> l \<Longrightarrow> get (put k v (put l u s)) = get (put l u (put k v s))"
  by (rule ext) (simp add: get_put wf_put)

end

interpretation hm: kv_store hm_get hm_insert Some hm_wf
  by unfold_locales (simp_all add: hm_get_insert)

subsection \<open>State machines\<close>

locale inv_system =
  fixes init :: "'s \<Rightarrow> bool"
    and step :: "'s \<Rightarrow> 's \<Rightarrow> bool"
    and inv :: "'s \<Rightarrow> bool"
  assumes inv_init: "init s \<Longrightarrow> inv s"
    and inv_step: "inv s \<Longrightarrow> step s t \<Longrightarrow> inv t"
begin

lemma inv_steps: "step\<^sup>*\<^sup>* s t \<Longrightarrow> inv s \<Longrightarrow> inv t"
  by (induction rule: rtranclp_induct) (auto intro: inv_step)

lemma inv_reachable: "init s \<Longrightarrow> step\<^sup>*\<^sup>* s t \<Longrightarrow> inv t"
  by (rule inv_steps) (auto intro: inv_init)

end

subsection \<open>Little-endian bytes of 32-bit integers\<close>

definition u32_to_le :: "u32 \<Rightarrow> bytes" where
  "u32_to_le x = [ucast x, ucast (drop_bit 8 x), ucast (drop_bit 16 x), ucast (drop_bit 24 x)]"

definition u32_from_le :: "bytes \<Rightarrow> u32" where
  "u32_from_le bs =
     ucast (bs ! 0) OR push_bit 8 (ucast (bs ! 1)) OR push_bit 16 (ucast (bs ! 2))
       OR push_bit 24 (ucast (bs ! 3))"

lemma length_u32_to_le [simp]: "length (u32_to_le x) = 4"
  by (simp add: u32_to_le_def)

lemma u32_from_to_le [simp]: "u32_from_le (u32_to_le x) = x"
proof (rule bit_word_eqI)
  fix n
  assume "n < LENGTH(32)"
  then consider "n < 8" | "8 \<le> n" "n < 16" | "16 \<le> n" "n < 24" | "24 \<le> n" "n < 32"
    by fastforce
  then show "bit (u32_from_le (u32_to_le x)) n = bit x n"
    by cases (auto simp: u32_from_le_def u32_to_le_def bit_simps)
qed

lemma u32_to_from_le:
  assumes "length bs = 4"
  shows "u32_to_le (u32_from_le bs) = bs"
proof -
  obtain a b c d where bs: "bs = [a, b, c, d]"
    using assms by (auto simp: eval_nat_numeral length_Suc_conv)
  have "ucast (u32_from_le bs) = a" "ucast (drop_bit 8 (u32_from_le bs)) = b"
    "ucast (drop_bit 16 (u32_from_le bs)) = c" "ucast (drop_bit 24 (u32_from_le bs)) = d"
    by (rule bit_word_eqI; auto simp: u32_from_le_def bs bit_simps dest: bit_imp_le_length)+
  then show ?thesis by (simp add: u32_to_le_def bs)
qed

definition u32_to_be :: "u32 \<Rightarrow> bytes" where
  "u32_to_be x = rev (u32_to_le x)"

definition u32_from_be :: "bytes \<Rightarrow> u32" where
  "u32_from_be bs = u32_from_le (rev bs)"

lemma length_u32_to_be [simp]: "length (u32_to_be x) = 4"
  by (simp add: u32_to_be_def)

lemma u32_to_from_be: "length bs = 4 \<Longrightarrow> u32_to_be (u32_from_be bs) = bs"
  by (simp add: u32_to_be_def u32_from_be_def u32_to_from_le)

lemma u32_from_to_be [simp]: "u32_from_be (u32_to_be x) = x"
  by (simp add: u32_to_be_def u32_from_be_def)

subsection \<open>Ordered sets\<close>

text \<open>A \<open>BTreeSet\<close>: an ascending list; \<open>pop_first\<close> takes its head.\<close>

definition bs_wf :: "'a :: linorder list \<Rightarrow> bool" where
  "bs_wf xs \<longleftrightarrow> sorted xs \<and> distinct xs"

definition bs_insert :: "'a :: linorder \<Rightarrow> 'a list \<Rightarrow> 'a list" where
  "bs_insert x xs = insort_insert x xs"

definition bs_remove :: "'a :: linorder \<Rightarrow> 'a list \<Rightarrow> 'a list" where
  "bs_remove x xs = remove1 x xs"

fun bs_pop_first :: "'a list \<Rightarrow> 'a option \<times> 'a list" where
  "bs_pop_first [] = (None, [])"
| "bs_pop_first (x # xs) = (Some x, xs)"

lemma bs_wf_Nil [simp]: "bs_wf []"
  by (simp add: bs_wf_def)

lemma bs_wf_insert [simp, intro]: "bs_wf xs \<Longrightarrow> bs_wf (bs_insert x xs)"
  by (simp add: bs_wf_def bs_insert_def sorted_insort_insert distinct_insort_insert)

lemma set_bs_insert [simp, bs_simps]: "set (bs_insert x xs) = insert x (set xs)"
  by (simp add: bs_insert_def set_insort_insert)

lemma bs_wf_remove [simp, intro]: "bs_wf xs \<Longrightarrow> bs_wf (bs_remove x xs)"
  by (simp add: bs_wf_def bs_remove_def sorted_remove1)

lemma set_bs_remove [bs_simps]: "bs_wf xs \<Longrightarrow> set (bs_remove x xs) = set xs - {x}"
  by (simp add: bs_wf_def bs_remove_def set_remove1_eq)

lemma bs_insert_present: "bs_wf xs \<Longrightarrow> x \<in> set xs \<Longrightarrow> bs_insert x xs = xs"
  by (simp add: bs_insert_def insort_insert_key_def)

lemma bs_unique: "bs_wf xs \<Longrightarrow> bs_wf ys \<Longrightarrow> set xs = set ys \<Longrightarrow> xs = ys"
  by (simp add: bs_wf_def sorted_distinct_set_unique)

end
