(* ===== verification/Hash.thy ===== *)
theory Hash
  imports Prelude
begin

section \<open>Identifier mixing: \<^verbatim>\<open>crates/api/src/hash.rs\<close>\<close>

text \<open>
  The 32-bit mixing function behind every generated identifier: three rounds of
  xor-shift and multiplication, and its inverse (which the crate compiles for its tests
  only). The lemmas show that each round is invertible, so that \<open>map_id\<close> (the source's
  \<open>map\<close>) is a bijection that preserves 0.
\<close>

unbundle bit_operations_syntax

fun mod_inverse_loop :: "nat \<Rightarrow> u32 \<Rightarrow> u32 \<Rightarrow> u32" where
  "mod_inverse_loop 0 a x = x"
| "mod_inverse_loop (Suc i) a x = mod_inverse_loop i a (x * (2 - a * x))"

definition mod_inverse :: "u32 \<Rightarrow> u32" where
  "mod_inverse a = mod_inverse_loop 5 a 1"

definition mix :: "u32 \<Rightarrow> u32 \<Rightarrow> u32" where
  "mix x seed =
     (let x = x XOR seed;
          x = x XOR drop_bit 17 x;
          x = x * 0xed5ad4bb;
          x = x XOR drop_bit 11 x;
          x = x * 0xac4c1b51;
          x = x XOR drop_bit 15 x;
          x = x * 0x31848bab;
          x = x XOR drop_bit 14 x
      in x)"

definition unmix :: "u32 \<Rightarrow> u32 \<Rightarrow> u32" where
  "unmix x seed =
     (let x = x XOR drop_bit 14 x;
          x = x XOR drop_bit 28 x;
          x = x * mod_inverse 0x31848bab;
          x = x XOR drop_bit 15 x;
          x = x XOR drop_bit 30 x;
          x = x * mod_inverse 0xac4c1b51;
          x = x XOR drop_bit 11 x;
          x = x XOR drop_bit 22 x;
          x = x * mod_inverse 0xed5ad4bb;
          x = x XOR drop_bit 17 x;
          x = x XOR seed
      in x)"

definition unmap :: "u32 \<Rightarrow> u32 \<Rightarrow> u32" where
  "unmap i seed = unmix (i XOR mix 0 seed) seed"

definition map_id :: "u32 \<Rightarrow> u32 \<Rightarrow> u32" where
  "map_id count seed = mix count seed XOR mix 0 seed"

subsection \<open>Each round is invertible\<close>

lemma xorshift_twice:
  fixes x :: u32
  shows "(x XOR drop_bit k x) XOR drop_bit k (x XOR drop_bit k x) = x XOR drop_bit (2 * k) x"
  by (rule bit_eqI) (auto simp: bit_xor_iff bit_drop_bit_eq ac_simps mult_2 mult_2_right)

lemma drop_bit_all [simp]: "32 \<le> k \<Longrightarrow> drop_bit k (x :: u32) = 0"
  by (rule bit_eqI) (auto simp: bit_drop_bit_eq dest: bit_imp_le_length)

lemma unshift_once: "16 \<le> k \<Longrightarrow>
    (x XOR drop_bit k x) XOR drop_bit k (x XOR drop_bit k x) = (x :: u32)"
  using xorshift_twice [of x k] by simp

lemma unshift_twice:
  fixes x y :: u32
  assumes "8 \<le> k" and "l = 2 * k" and y: "y = x XOR drop_bit k x"
  shows "(y XOR drop_bit k y) XOR drop_bit l (y XOR drop_bit k y) = x"
  using xorshift_twice [of x k] xorshift_twice [of x "2 * k"] assms by simp

lemma newton_step:
  fixes a x :: "'a :: comm_ring_1"
  shows "1 - a * (x * (2 - a * x)) = (1 - a * x) ^ 2"
  by (simp add: power2_eq_square algebra_simps)

lemma mod_inverse_loop_error:
  "1 - a * mod_inverse_loop n a x = (1 - a * x) ^ (2 ^ n)"
proof (induction n arbitrary: x)
  case 0
  then show ?case by simp
next
  case (Suc n)
  have "1 - a * mod_inverse_loop (Suc n) a x = ((1 - a * x) ^ 2) ^ (2 ^ n)"
    by (simp only: mod_inverse_loop.simps Suc newton_step)
  also have "\<dots> = (1 - a * x) ^ (2 ^ Suc n)"
    by (simp only: power_mult [symmetric] power_Suc)
  finally show ?case .
qed

lemma even_power_32: "even (b :: u32) \<Longrightarrow> b ^ 32 = 0"
proof -
  assume "even b"
  then obtain c where "b = 2 * c" by blast
  then have "b ^ 32 = 2 ^ 32 * c ^ 32" by (simp only: power_mult_distrib)
  also have "(2 :: u32) ^ 32 = 0" by simp
  finally show ?thesis by simp
qed

lemma mod_inverse_right: "odd a \<Longrightarrow> a * mod_inverse a = 1"
  using mod_inverse_loop_error [of a 5 1] even_power_32 [of "1 - a"]
  by (simp add: mod_inverse_def)

lemma mult_mod_inverse: "odd a \<Longrightarrow> x * a * mod_inverse a = x"
  using mod_inverse_right [of a] by (simp add: mult.assoc)

lemma odd_round_constants:
  "odd (0xed5ad4bb :: u32)" "odd (0xac4c1b51 :: u32)" "odd (0x31848bab :: u32)"
  by simp_all

lemma unshift_seed: "(x XOR seed) XOR drop_bit 17 (x XOR seed) = y \<Longrightarrow>
    (y XOR drop_bit 17 y) XOR seed = (x :: u32)"
  using unshift_once [of 17 "x XOR seed"] by (auto simp: xor.assoc)

lemma unmix_mix: "unmix (mix x seed) seed = x"
proof -
  define a where "a = (x XOR seed) XOR drop_bit 17 (x XOR seed)"
  define b where "b = a * 0xed5ad4bb"
  define c where "c = b XOR drop_bit 11 b"
  define d where "d = c * 0xac4c1b51"
  define e where "e = d XOR drop_bit 15 d"
  define f where "f = e * 0x31848bab"
  define g where "g = f XOR drop_bit 14 f"
  have mix: "mix x seed = g"
    by (simp only: mix_def Let_def a_def b_def c_def d_def e_def f_def g_def)
  have f: "(g XOR drop_bit 14 g) XOR drop_bit 28 (g XOR drop_bit 14 g) = f"
    by (rule unshift_twice [OF _ _ g_def]) simp_all
  have e: "f * mod_inverse 0x31848bab = e"
    by (simp only: f_def mult_mod_inverse [OF odd_round_constants(3)])
  have d: "(e XOR drop_bit 15 e) XOR drop_bit 30 (e XOR drop_bit 15 e) = d"
    by (rule unshift_twice [OF _ _ e_def]) simp_all
  have c: "d * mod_inverse 0xac4c1b51 = c"
    by (simp only: d_def mult_mod_inverse [OF odd_round_constants(2)])
  have b: "(c XOR drop_bit 11 c) XOR drop_bit 22 (c XOR drop_bit 11 c) = b"
    by (rule unshift_twice [OF _ _ c_def]) simp_all
  have a: "b * mod_inverse 0xed5ad4bb = a"
    by (simp only: b_def mult_mod_inverse [OF odd_round_constants(1)])
  show ?thesis
    by (simp only: unmix_def Let_def mix f e d c b a unshift_seed [OF a_def [symmetric]])
qed

lemma map_id_zero [simp]: "map_id 0 seed = 0"
  by (simp add: map_id_def)

text \<open>
  C38. The identifier mapping is a bijection with \<open>unmap\<close> as its inverse: for every counter
  value and every seed, unmapping a mapped counter gives the counter back (the source's
  tests check this for a few seeds and ranges; here it is for all 2^64 pairs).
\<close>

theorem unmap_map_id: "unmap (map_id c seed) seed = c"
  by (simp add: unmap_def map_id_def xor.assoc unmix_mix)

lemma unmap_cancel: "unmix ((mix c seed XOR mix 0 seed) XOR mix 0 seed) seed = c"
  by (simp add: xor.assoc unmix_mix)

lemma map_id_inject: "map_id a seed = map_id b seed \<longleftrightarrow> a = b"
  by (metis map_id_def unmap_cancel)

lemma map_id_eq_zero_iff [simp]: "map_id c seed = 0 \<longleftrightarrow> c = 0"
  using map_id_inject [of c seed 0] by simp

end
