(* ===== verification/Ids.thy ===== *)
theory Ids
  imports Hash
begin

section \<open>Identifier allocation: \<^verbatim>\<open>crates/api/src/ids.rs\<close>\<close>

text \<open>
  The two allocators: \<open>Ids\<close>, with a queue of freed identifiers, used by the server for
  peer identifiers, and \<open>AtomicIds\<close>, used by the backend for objects and images. A
  \<open>NonZeroU32\<close> is a \<open>u32\<close> that is known to differ from 0; \<open>non_zero\<close> is
  \<open>NonZeroU32::new\<close>. \<open>ids_ok ids L\<close> says that \<open>L\<close> are the identifiers handed out and
  not freed: together with the queue they are exactly the images of the counters used.
\<close>

definition non_zero :: "u32 \<Rightarrow> u32 option" where
  "non_zero x = (if x = 0 then None else Some x)"

record Ids =
  ids_seed :: u32
  ids_last :: u32
  ids_free :: "u32 list"

definition ids_new :: "u32 \<Rightarrow> Ids" where
  "ids_new seed = \<lparr>ids_seed = seed, ids_last = 0, ids_free = []\<rparr>"

definition ids_next :: "Ids \<Rightarrow> u32 option \<times> Ids" where
  "ids_next ids =
     (case ids_free ids of
        i # rest \<Rightarrow> (Some i, ids\<lparr>ids_free := rest\<rparr>)
      | [] \<Rightarrow>
          (case non_zero (ids_last ids + 1) of
             None \<Rightarrow> (None, ids)
           | Some next \<Rightarrow>
               (non_zero (map_id next (ids_seed ids)), ids\<lparr>ids_last := next\<rparr>)))"

definition ids_release :: "u32 \<Rightarrow> Ids \<Rightarrow> Ids" where
  "ids_release i ids =
     (case non_zero i of
        None \<Rightarrow> ids
      | Some i \<Rightarrow> ids\<lparr>ids_free := ids_free ids @ [i]\<rparr>)"

record AtomicIds =
  aids_seed :: u32
  aids_last :: u32

definition aids_new :: "u32 \<Rightarrow> AtomicIds" where
  "aids_new seed = \<lparr>aids_seed = seed, aids_last = 1\<rparr>"

definition aids_next :: "AtomicIds \<Rightarrow> u32 option \<times> AtomicIds" where
  "aids_next ids =
     (let fetched = aids_last ids; ids' = ids\<lparr>aids_last := fetched + 1\<rparr>
      in case non_zero fetched of
           None \<Rightarrow> (None, ids')
         | Some next \<Rightarrow> (non_zero (map_id next (aids_seed ids)), ids'))"

subsection \<open>The interface of an allocator\<close>

fun alloc_many :: "('s \<Rightarrow> 'i option \<times> 's) \<Rightarrow> nat \<Rightarrow> 's \<Rightarrow> ('i list \<times> 's) option" where
  "alloc_many alloc 0 s = Some ([], s)"
| "alloc_many alloc (Suc n) s =
     (case alloc s of
        (None, s') \<Rightarrow> None
      | (Some i, s') \<Rightarrow> map_option (\<lambda>(is, t). (i # is, t)) (alloc_many alloc n s'))"

locale id_allocator =
  fixes alloc :: "'s \<Rightarrow> 'i option \<times> 's"
    and release :: "'i \<Rightarrow> 's \<Rightarrow> 's"
    and ok :: "'s \<Rightarrow> 'i set \<Rightarrow> bool"
  assumes alloc_Some: "ok s L \<Longrightarrow> alloc s = (Some i, s') \<Longrightarrow> i \<notin> L \<and> ok s' (insert i L)"
    and alloc_None: "ok s L \<Longrightarrow> alloc s = (None, s') \<Longrightarrow> ok s' L"
    and release_ok: "ok s L \<Longrightarrow> i \<in> L \<Longrightarrow> ok (release i s) (L - {i})"
begin

lemma alloc_many_fresh:
  "ok s L \<Longrightarrow> alloc_many alloc n s = Some (is, s') \<Longrightarrow>
     length is = n \<and> distinct is \<and> set is \<inter> L = {} \<and> ok s' (L \<union> set is)"
proof (induction n arbitrary: s L "is")
  case 0
  then show ?case by simp
next
  case (Suc n)
  from Suc.prems(2) obtain i t js where
      a: "alloc s = (Some i, t)" and r: "alloc_many alloc n t = Some (js, s')" and "is": "is = i # js"
    by (auto split: prod.splits option.splits)
  from alloc_Some [OF Suc.prems(1) a] have fresh: "i \<notin> L" and ok: "ok t (insert i L)" by auto
  from Suc.IH [OF ok r] fresh show ?case by (auto simp: "is")
qed

lemma realloc_ok:
  "ok s L \<Longrightarrow> i \<in> L \<Longrightarrow> alloc (release i s) = (Some j, s') \<Longrightarrow>
     j \<notin> L - {i} \<and> ok s' (insert j (L - {i}))"
  using alloc_Some release_ok by blast

end

subsection \<open>\<open>Ids\<close> is an allocator\<close>

definition ids_ok :: "Ids \<Rightarrow> u32 set \<Rightarrow> bool" where
  "ids_ok ids L \<longleftrightarrow>
     distinct (ids_free ids) \<and> L \<inter> set (ids_free ids) = {} \<and>
     L \<union> set (ids_free ids) = (\<lambda>c. map_id c (ids_seed ids)) ` {c. c \<noteq> 0 \<and> c \<le> ids_last ids}"

lemma ids_ok_new [simp]: "ids_ok (ids_new seed) {}"
  by (auto simp: ids_ok_def ids_new_def)

lemma ids_ok_nonzero: "ids_ok ids L \<Longrightarrow> 0 \<notin> L \<union> set (ids_free ids)"
  by (auto simp: ids_ok_def)

lemma unat_plus_one: "(l :: u32) + 1 \<noteq> 0 \<Longrightarrow> unat (l + 1) = Suc (unat l)"
  by (metis add.commute unatSuc)

lemma counters_insert:
  fixes l :: u32
  assumes "l + 1 \<noteq> 0"
  shows "{c. c \<noteq> 0 \<and> c \<le> l + 1} = insert (l + 1) {c. c \<noteq> 0 \<and> c \<le> l}"
  using assms by (auto simp: word_le_nat_alt unat_plus_one le_Suc_eq word_unat_eq_iff)

lemma plus_one_not_le: "(l :: u32) + 1 \<noteq> 0 \<Longrightarrow> \<not> l + 1 \<le> l"
  by (simp add: word_le_nat_alt unat_plus_one)

lemma map_id_image_nonzero: "(\<lambda>c. map_id c seed) ` (UNIV - {0}) = UNIV - {0}"
  by (rule endo_inj_surj) (auto simp: inj_on_def map_id_inject)

lemma ids_next_Some:
  assumes ok: "ids_ok ids L" and nx: "ids_next ids = (Some i, ids')"
  shows "i \<notin> L \<and> ids_ok ids' (insert i L)"
proof (cases "ids_free ids")
  case (Cons j rest)
  with nx have i: "i = j" and ids': "ids' = ids\<lparr>ids_free := rest\<rparr>"
    by (auto simp: ids_next_def)
  from ok Cons show ?thesis
    by (simp add: ids_ok_def i ids')
next
  case Nil
  define l where "l = ids_last ids"
  from Nil nx have nz: "l + 1 \<noteq> 0"
    and i: "i = map_id (l + 1) (ids_seed ids)" and ids': "ids' = ids\<lparr>ids_last := l + 1\<rparr>"
    by (auto simp: ids_next_def non_zero_def l_def split: if_splits)
  from ok Nil have L: "L = (\<lambda>c. map_id c (ids_seed ids)) ` {c. c \<noteq> 0 \<and> c \<le> l}"
    by (simp add: ids_ok_def l_def)
  have "i \<notin> L"
    using plus_one_not_le [OF nz] by (auto simp: i L map_id_inject)
  moreover have "ids_ok ids' (insert i L)"
    by (simp add: ids_ok_def ids' Nil i L counters_insert [OF nz])
  ultimately show ?thesis ..
qed

lemma ids_next_None:
  assumes ok: "ids_ok ids L" and nx: "ids_next ids = (None, ids')"
  shows "ids' = ids \<and> L = UNIV - {0}"
proof -
  from nx ids_ok_nonzero [OF ok] have Nil: "ids_free ids = []" and last: "ids_last ids + 1 = 0"
    and ids': "ids' = ids"
    by (auto simp: ids_next_def non_zero_def split: list.splits if_splits)
  from last have "ids_last ids = - 1" by (simp add: eq_neg_iff_add_eq_0)
  then have "{c. c \<noteq> 0 \<and> c \<le> ids_last ids} = UNIV - {0}" by auto
  with ok Nil ids' show ?thesis by (simp add: ids_ok_def map_id_image_nonzero)
qed

lemma ids_release_ok:
  assumes ok: "ids_ok ids L" and "i \<in> L"
  shows "ids_ok (ids_release i ids) (L - {i})"
proof -
  from assms ids_ok_nonzero [OF ok] have "i \<noteq> 0" and "i \<notin> set (ids_free ids)"
    by (auto simp: ids_ok_def)
  with ok \<open>i \<in> L\<close> show ?thesis
    by (auto simp: ids_ok_def ids_release_def non_zero_def)
qed

interpretation ids: id_allocator ids_next ids_release ids_ok
  by unfold_locales (blast dest: ids_next_Some ids_next_None intro: ids_release_ok)+

text \<open>
  The peer-identifier allocator: as long as freed identifiers are live ones, every
  identifier handed out is non-zero and differs from all live ones, and the allocator
  reports exhaustion only when every non-zero 32-bit identifier is live.
\<close>

theorem ids_next_spec:
  assumes "ids_ok ids L"
  shows "case ids_next ids of
           (Some i, ids') \<Rightarrow> i \<notin> L \<and> i \<noteq> 0 \<and> ids_ok ids' (insert i L)
         | (None, ids') \<Rightarrow> ids' = ids \<and> L = UNIV - {0}"
proof (cases "ids_next ids")
  case (Pair r ids')
  show ?thesis
  proof (cases r)
    case None
    with Pair ids_next_None [OF assms] show ?thesis by simp
  next
    case (Some i)
    with Pair ids_next_Some [OF assms] have "i \<notin> L" and ok: "ids_ok ids' (insert i L)" by auto
    with ids_ok_nonzero [OF ok] show ?thesis using Pair Some by auto
  qed
qed

theorem ids_next_spec_witness:
  "case ids_next (ids_new 0xdeadbeef) of
     (Some i, ids') \<Rightarrow> i \<notin> {} \<and> i \<noteq> 0 \<and> ids_ok ids' (insert i {})
   | (None, ids') \<Rightarrow> ids' = ids_new 0xdeadbeef \<and> {} = UNIV - {0 :: u32}"
  by (rule ids_next_spec) simp

subsection \<open>The atomic allocator wraps around\<close>

fun aids_state :: "u32 \<Rightarrow> nat \<Rightarrow> AtomicIds" where
  "aids_state seed 0 = aids_new seed"
| "aids_state seed (Suc n) = snd (aids_next (aids_state seed n))"

definition aids_nth :: "u32 \<Rightarrow> nat \<Rightarrow> u32 option" where
  "aids_nth seed n = fst (aids_next (aids_state seed n))"

lemma aids_state_eq:
  "aids_state seed n = \<lparr>aids_seed = seed, aids_last = of_nat (Suc n)\<rparr>"
proof (induction n)
  case 0
  show ?case by (simp add: aids_new_def)
next
  case (Suc n)
  then show ?case by (simp add: aids_next_def Let_def split: option.splits)
qed

lemma aids_nth_eq:
  "aids_nth seed n =
     (if of_nat (Suc n) = (0 :: u32) then None else Some (map_id (of_nat (Suc n)) seed))"
  by (simp add: aids_nth_def aids_state_eq aids_next_def Let_def non_zero_def)

lemma of_nat_u32_eq_0_iff: "of_nat n = (0 :: u32) \<longleftrightarrow> n mod 2 ^ 32 = 0"
  by (simp add: word_of_nat_eq_0_iff dvd_eq_mod_eq_0)

lemma of_nat_u32_eq_iff: "of_nat m = (of_nat n :: u32) \<longleftrightarrow> m mod 2 ^ 32 = n mod 2 ^ 32"
  by (simp add: word_of_nat_eq_iff take_bit_eq_mod)

text \<open>
  The atomic allocator's first \<open>2^32 - 1\<close> calls return pairwise distinct non-zero
  identifiers, the next call reports exhaustion, and from then on the same identifiers come
  back in the same order: exhaustion is reported once, not for good.
\<close>

theorem atomic_ids_sequence:
  "inj_on (aids_nth seed) {..<2 ^ 32 - 1} \<and>
   None \<notin> aids_nth seed ` {..<2 ^ 32 - 1} \<and> Some 0 \<notin> range (aids_nth seed) \<and>
   aids_nth seed (2 ^ 32 - 1) = None \<and>
   aids_nth seed (n + 2 ^ 32) = aids_nth seed n"
proof (intro conjI)
  show "inj_on (aids_nth seed) {..<2 ^ 32 - 1}"
    by (rule inj_onI)
      (auto simp: aids_nth_eq map_id_inject of_nat_u32_eq_0_iff of_nat_u32_eq_iff
        simp del: of_nat_Suc split: if_splits)
  show "None \<notin> aids_nth seed ` {..<2 ^ 32 - 1}"
    by (auto simp: aids_nth_eq of_nat_u32_eq_0_iff simp del: of_nat_Suc)
  show "Some 0 \<notin> range (aids_nth seed)"
    by (auto simp: aids_nth_eq simp del: of_nat_Suc split: if_splits)
  show "aids_nth seed (2 ^ 32 - 1) = None"
    by (simp add: aids_nth_eq of_nat_u32_eq_0_iff del: of_nat_Suc)
  have "of_nat (Suc (n + 2 ^ 32)) = (of_nat (Suc n) :: u32)"
    by (simp only: of_nat_u32_eq_iff add_Suc [symmetric] mod_add_self2)
  then show "aids_nth seed (n + 2 ^ 32) = aids_nth seed n"
    by (simp only: aids_nth_eq)
qed

end
