(* ===== verification/Sorting.thy ===== *)
theory Sorting
  imports Prelude
begin

section \<open>Sort keys: \<^verbatim>\<open>crates/sorting/src/lib.rs\<close>\<close>

text \<open>
  Byte strings used as sort keys, compared lexicographically (the order of
  \<open>HOL-Library.List_Lexorder\<close>, which is Rust's order on slices), and the functions that
  make a key between two keys, before a key and after a key. The bytes of the upper bound
  come from an iterator, either over a slice or an endless repetition.
\<close>

datatype byte_iter = Slice bytes | Repeat u8

fun iter_next :: "byte_iter \<Rightarrow> u8 option \<times> byte_iter" where
  "iter_next (Slice []) = (None, Slice [])"
| "iter_next (Slice (b # bs)) = (Some b, Slice bs)"
| "iter_next (Repeat b) = (Some b, Repeat b)"

definition slice_get :: "'a list \<Rightarrow> nat \<Rightarrow> 'a option" where
  "slice_get xs i = (if i < length xs then Some (xs ! i) else None)"

definition slice_to :: "'a list \<Rightarrow> nat \<Rightarrow> 'a list option" where
  "slice_to xs i = (if i \<le> length xs then Some (take i xs) else None)"

definition slice_from :: "'a list \<Rightarrow> nat \<Rightarrow> 'a list option" where
  "slice_from xs i = (if i \<le> length xs then Some (drop i xs) else None)"

definition unwrap_or :: "'a \<Rightarrow> 'a option \<Rightarrow> 'a" where
  "unwrap_or d x = (case x of None \<Rightarrow> d | Some y \<Rightarrow> y)"

definition midpoint_at :: "nat \<Rightarrow> bytes \<Rightarrow> u16 \<Rightarrow> u16 \<Rightarrow> bytes" where
  "midpoint_at i lo a b =
     (let extended = i + 1 < length lo;
          mid = (case slice_to lo i of Some p \<Rightarrow> p | None \<Rightarrow> replicate i 0);
          mid = mid @ [ucast ((a + b) div 2)]
      in if extended then mid @ unwrap_or [] (slice_from lo (i + 1)) else mid)"

fun midpoint_loop :: "nat \<Rightarrow> nat \<Rightarrow> bytes \<Rightarrow> byte_iter \<Rightarrow> bytes" where
  "midpoint_loop 0 i lo hi = lo @ [255 div 2]"
| "midpoint_loop (Suc n) i lo hi =
     (let a = ucast (unwrap_or 0 (slice_get lo i)) :: u16;
          (h, hi') = iter_next hi;
          b = ucast (unwrap_or 255 h) :: u16
      in if a + 1 \<ge> b then midpoint_loop n (i + 1) lo hi' else midpoint_at i lo a b)"

definition midpoint_impl :: "nat \<Rightarrow> bytes \<Rightarrow> byte_iter \<Rightarrow> bytes" where
  "midpoint_impl len lo hi = midpoint_loop len 0 lo hi"

definition midpoint :: "bytes \<Rightarrow> bytes \<Rightarrow> bytes" where
  "midpoint lo hi =
     (if lo = hi then lo
      else let (lo, hi) = (if lo < hi then (lo, hi) else (hi, lo))
           in midpoint_impl (max (length lo) (length hi)) lo (Slice hi))"

definition before :: "bytes \<Rightarrow> bytes" where
  "before s = midpoint_impl (length s) [] (Slice s)"

definition after :: "bytes \<Rightarrow> bytes" where
  "after s = midpoint_impl (length s) s (Repeat 255)"

subsection \<open>Lexicographic order on byte strings\<close>

lemma less_at:
  fixes xs ys :: "'a :: linorder list"
  assumes "take i xs = take i ys" "i < length xs" "i < length ys" "xs ! i < ys ! i"
  shows "xs < ys"
  using assms
proof (induction xs arbitrary: ys i)
  case Nil
  then show ?case by simp
next
  case (Cons x xs)
  then show ?case by (cases ys; cases i) auto
qed

lemma less_append: "ys \<noteq> [] \<Longrightarrow> xs < xs @ (ys :: 'a :: linorder list)"
  by (induction xs) (auto simp: neq_Nil_conv)

lemma less_cases:
  fixes xs ys :: "'a :: linorder list"
  assumes "xs < ys"
  obtains (prefix) t where "ys = xs @ t" "t \<noteq> []"
    | (diff) k where "k < length xs" "k < length ys" "take k xs = take k ys" "xs ! k < ys ! k"
proof -
  have "(\<exists>t. ys = xs @ t \<and> t \<noteq> []) \<or>
    (\<exists>k. k < length xs \<and> k < length ys \<and> take k xs = take k ys \<and> xs ! k < ys ! k)"
    using assms
  proof (induction xs arbitrary: ys)
    case Nil
    then show ?case by (cases ys) auto
  next
    case (Cons x xs)
    then obtain y ys' where ys: "ys = y # ys'" by (cases ys) auto
    show ?case
    proof (cases "x < y")
      case True
      then have "0 < length (x # xs) \<and> 0 < length ys \<and> take 0 (x # xs) = take 0 ys
          \<and> (x # xs) ! 0 < ys ! 0"
        by (simp add: ys)
      then show ?thesis by blast
    next
      case False
      with Cons.prems have "x = y" and "xs < ys'" by (auto simp: ys)
      from Cons.IH [OF \<open>xs < ys'\<close>] show ?thesis
      proof (elim disjE exE)
        fix k
        assume "k < length xs \<and> k < length ys' \<and> take k xs = take k ys' \<and> xs ! k < ys' ! k"
        then have "Suc k < length (x # xs) \<and> Suc k < length ys
            \<and> take (Suc k) (x # xs) = take (Suc k) ys \<and> (x # xs) ! Suc k < ys ! Suc k"
          by (simp add: ys \<open>x = y\<close>)
        then show ?thesis by blast
      qed (simp add: ys \<open>x = y\<close>)
    qed
  qed
  then show thesis using that by blast
qed

subsection \<open>What the search finds\<close>

definition lo_at :: "bytes \<Rightarrow> nat \<Rightarrow> nat" where
  "lo_at lo i = (if i < length lo then unat (lo ! i) else 0)"

fun hi_at :: "byte_iter \<Rightarrow> nat \<Rightarrow> nat" where
  "hi_at (Slice hi) i = (if i < length hi then unat (hi ! i) else 255)"
| "hi_at (Repeat b) i = unat b"

definition gap :: "bytes \<Rightarrow> byte_iter \<Rightarrow> nat \<Rightarrow> bool" where
  "gap lo hi i \<longleftrightarrow> lo_at lo i + 1 < hi_at hi i"

definition mid_byte :: "bytes \<Rightarrow> byte_iter \<Rightarrow> nat \<Rightarrow> u8" where
  "mid_byte lo hi i = of_nat ((lo_at lo i + hi_at hi i) div 2)"

definition mid_string :: "bytes \<Rightarrow> byte_iter \<Rightarrow> nat \<Rightarrow> bytes" where
  "mid_string lo hi i =
     (if i \<le> length lo then take i lo else replicate i 0) @ [mid_byte lo hi i] @ drop (i + 1) lo"

lemma unat_ucast_u16 [simp]: "unat (ucast (b :: u8) :: u16) = unat b"
  by transfer (simp add: take_bit_take_bit)

lemma unat_u8_le: "unat (b :: u8) \<le> 255"
  using unsigned_less [of b, where 'a = nat] by simp

lemma byte_gap:
  fixes a b :: u8
  shows "ucast b \<le> (ucast a + 1 :: u16) \<longleftrightarrow> unat b \<le> unat a + 1"
proof -
  have "unat (ucast a + 1 :: u16) = unat a + 1"
    using unat_u8_le [of a] by (simp add: unat_word_ariths)
  then show ?thesis by (simp add: word_le_nat_alt)
qed

lemma byte_mid:
  fixes a b :: u8
  shows "ucast ((ucast a + ucast b :: u16) div 2) = (of_nat ((unat a + unat b) div 2) :: u8)"
proof -
  have "unat ((ucast a + ucast b :: u16) div 2) = (unat a + unat b) div 2"
    using unat_u8_le [of a] unat_u8_le [of b] by (simp add: unat_div unat_word_ariths)
  then show ?thesis by (metis word_of_nat_eq_iff unsigned_of_nat ucast_id unsigned_word_eqI word_unat_eq_iff of_nat_unat)
qed

lemma unat_mid_byte: "unat (mid_byte lo hi i) = (lo_at lo i + hi_at hi i) div 2"
proof -
  have "lo_at lo i \<le> 255" "hi_at hi i \<le> 255"
    using unat_u8_le by (auto simp: lo_at_def) (cases hi; auto simp: unat_u8_le)
  then show ?thesis by (simp add: mid_byte_def unat_of_nat)
qed

lemma mid_byte_between:
  assumes "gap lo hi i"
  shows "lo_at lo i < unat (mid_byte lo hi i)" "unat (mid_byte lo hi i) < hi_at hi i"
  using assms by (simp_all add: unat_mid_byte gap_def)

fun iter_after :: "byte_iter \<Rightarrow> nat \<Rightarrow> byte_iter" where
  "iter_after (Slice hi) n = Slice (drop n hi)"
| "iter_after (Repeat b) n = Repeat b"

lemma iter_after_0 [simp]: "iter_after h 0 = h"
  by (cases h) simp_all

lemma iter_next_after:
  obtains x where "iter_next (iter_after h i) = (x, iter_after h (Suc i))"
    "unat (unwrap_or 255 x) = hi_at h i"
proof (cases h)
  case (Slice hi)
  show thesis
  proof (cases "i < length hi")
    case True
    then have "drop i hi = hi ! i # drop (Suc i) hi" by (simp add: Cons_nth_drop_Suc)
    with Slice True show thesis by (intro that [of "Some (hi ! i)"]) (simp_all add: unwrap_or_def)
  next
    case False
    with Slice show thesis by (intro that [of None]) (simp_all add: unwrap_or_def)
  qed
next
  case (Repeat b)
  then show thesis by (intro that [of "Some b"]) (simp_all add: unwrap_or_def)
qed

lemma unat_lo_at: "unat (unwrap_or 0 (slice_get lo i)) = lo_at lo i"
  by (simp add: unwrap_or_def slice_get_def lo_at_def)

lemma midpoint_at_eq:
  assumes "unat a = lo_at lo i" "unat b = hi_at hi i"
  shows "midpoint_at i lo (ucast (a :: u8)) (ucast (b :: u8)) = mid_string lo hi i"
  using assms by (simp add: midpoint_at_def mid_string_def slice_to_def slice_from_def
      unwrap_or_def byte_mid mid_byte_def Let_def)

lemma midpoint_loop_find:
  "midpoint_loop n i lo (iter_after h i) =
     (case find (gap lo h) [i..<i + n] of None \<Rightarrow> lo @ [127] | Some j \<Rightarrow> mid_string lo h j)"
proof (induction n arbitrary: i)
  case 0
  then show ?case by simp
next
  case (Suc n)
  obtain x where x: "iter_next (iter_after h i) = (x, iter_after h (Suc i))"
    and ux: "unat (unwrap_or 255 x) = hi_at h i"
    by (rule iter_next_after)
  have "[i..<i + Suc n] = i # [Suc i..<Suc i + n]"
    by (simp add: upt_conv_Cons)
  with Suc.IH [of "Suc i"] show ?case
    by (simp add: Let_def x byte_gap unat_lo_at ux gap_def not_le midpoint_at_eq del: upt_Suc)
qed

lemma midpoint_impl_find:
  "midpoint_impl n lo h =
     (case find (gap lo h) [0..<n] of None \<Rightarrow> lo @ [127] | Some j \<Rightarrow> mid_string lo h j)"
  using midpoint_loop_find [of n 0 lo h] by (simp add: midpoint_impl_def)

lemma midpoint_impl_cases:
  obtains (found) i where "i < n" "gap lo h i" "\<forall>j<i. \<not> gap lo h j"
      "midpoint_impl n lo h = mid_string lo h i"
    | (none) "\<forall>j<n. \<not> gap lo h j" "midpoint_impl n lo h = lo @ [127]"
proof (cases "find (gap lo h) [0..<n]")
  case None
  with none show thesis by (auto simp: midpoint_impl_find find_None_iff)
next
  case (Some i)
  with found [of i] show thesis
    by (auto simp: midpoint_impl_find find_Some_iff)
qed

subsection \<open>The new key against its bounds\<close>

lemma mid_string_nth: "i \<le> length lo \<Longrightarrow> mid_string lo h i ! i = mid_byte lo h i"
  by (simp add: mid_string_def nth_append)

lemma mid_string_length: "length (mid_string lo h i) = max (length lo) (i + 1)"
  by (auto simp: mid_string_def)

lemma take_mid_string: "j \<le> i \<Longrightarrow> i \<le> length lo \<Longrightarrow> take j (mid_string lo h i) = take j lo"
  by (simp add: mid_string_def min_def)

lemma mid_string_greater:
  assumes "gap lo h i" "i \<le> length lo"
  shows "lo < mid_string lo h i"
proof (cases "i < length lo")
  case True
  show ?thesis
  proof (rule less_at [where i = i])
    show "lo ! i < mid_string lo h i ! i"
      using True mid_byte_between(1) [OF assms(1)]
      by (simp add: mid_string_nth lo_at_def word_less_nat_alt)
  qed (use True in \<open>simp_all add: take_mid_string mid_string_length\<close>)
next
  case False
  with assms(2) have "mid_string lo h i = lo @ [mid_byte lo h i]"
    by (simp add: mid_string_def)
  then show ?thesis by (simp add: less_append)
qed

lemma mid_string_less:
  assumes "gap lo (Slice hi) i" "i \<le> length lo" "i < length hi" "take i lo = take i hi"
  shows "mid_string lo (Slice hi) i < hi"
proof (rule less_at [where i = i])
  show "mid_string lo (Slice hi) i ! i < hi ! i"
    using mid_byte_between(2) [OF assms(1)] assms(2, 3)
    by (simp add: mid_string_nth word_less_nat_alt)
qed (use assms in \<open>simp_all add: take_mid_string mid_string_length\<close>)

lemma gap_Repeat: "gap s (Repeat 255) i \<longleftrightarrow> lo_at s i < 254"
  by (auto simp: gap_def)

lemma after_spec:
  "s < after s \<and>
   length (after s) = (if \<exists>b\<in>set s. b < 254 then length s else length s + 1)"
proof -
  have bytes: "(\<exists>b\<in>set s. b < 254) \<longleftrightarrow> (\<exists>i<length s. gap s (Repeat 255) i)"
    by (auto simp: set_conv_nth gap_Repeat lo_at_def word_less_nat_alt)
  show ?thesis
  proof (cases rule: midpoint_impl_cases [of "length s" s "Repeat 255"])
    case (found i)
    with bytes have "\<exists>b\<in>set s. b < 254" by blast
    with found show ?thesis
      by (simp add: after_def mid_string_greater mid_string_length)
  next
    case none
    with bytes have "\<not> (\<exists>b\<in>set s. b < 254)" by blast
    with none show ?thesis by (simp add: after_def less_append)
  qed
qed

text \<open>
  \<open>after\<close> always makes a strictly greater key, and grows it by one byte only when
  every byte of it is at least 254; otherwise the length is kept.
\<close>

theorem after_greater:
  "s < after s \<and>
   length (after s) = (if \<exists>b\<in>set s. b < 254 then length s else length s + 1)"
  by (rule after_spec)

lemma gap_Nil: "i < length s \<Longrightarrow> gap [] (Slice s) i \<longleftrightarrow> 2 \<le> s ! i"
  by (auto simp: gap_def lo_at_def word_le_nat_alt)

lemma first_difference_less:
  fixes xs ys :: "'a :: linorder list"
  assumes "\<forall>j<i. xs ! j \<le> ys ! j" "xs ! i < ys ! i" "i < length xs" "i < length ys"
  shows "xs < ys"
proof -
  define k where "k = (LEAST k. xs ! k \<noteq> ys ! k)"
  have ne: "xs ! i \<noteq> ys ! i" using assms(2) by simp
  have k: "xs ! k \<noteq> ys ! k" unfolding k_def by (rule LeastI [where P = "\<lambda>k. xs ! k \<noteq> ys ! k", OF ne])
  have ki: "k \<le> i" unfolding k_def by (rule Least_le [where P = "\<lambda>k. xs ! k \<noteq> ys ! k", OF ne])
  have eq: "\<forall>j<k. xs ! j = ys ! j" unfolding k_def by (blast dest: not_less_Least)
  show ?thesis
  proof (rule less_at [where i = k])
    show "take k xs = take k ys"
      using eq ki assms(3, 4) by (auto intro!: nth_equalityI)
    show "xs ! k < ys ! k" using k ki assms(1, 2) by (cases "k = i") (auto simp: le_less)
  qed (use ki assms(3, 4) in simp_all)
qed

lemma before_spec: "if \<exists>b\<in>set s. 2 \<le> b then before s < s else s < before s"
proof (cases rule: midpoint_impl_cases [of "length s" "[]" "Slice s"])
  case (found i)
  then have "2 \<le> s ! i" by (simp add: gap_Nil)
  have eq: "before s = replicate i 0 @ [mid_byte [] (Slice s) i]"
    using found by (simp add: before_def mid_string_def)
  have "before s < s"
  proof (rule first_difference_less [where i = i])
    show "before s ! i < s ! i"
      using mid_byte_between(2) [OF found(2)] found(1)
      by (simp add: eq nth_append word_less_nat_alt)
  qed (use found in \<open>simp_all add: eq nth_append\<close>)
  with \<open>2 \<le> s ! i\<close> found(1) show ?thesis by auto
next
  case none
  then have small: "\<forall>b\<in>set s. \<not> 2 \<le> b" by (auto simp: in_set_conv_nth gap_Nil)
  have "s < [127]"
  proof (cases s)
    case (Cons b bs)
    with small have "b < 2" by auto
    then have "b < 127" by (simp add: word_less_nat_alt)
    with Cons show ?thesis by simp
  qed simp
  with none small show ?thesis by (auto simp: before_def)
qed

text \<open>
  \<open>before\<close> makes a strictly smaller key exactly when some byte of the key is at least
  2; for every other key (the empty one included) the result is strictly greater, although
  the function is documented to sort before its argument.
\<close>

theorem before_less_iff: "if \<exists>b\<in>set s. 2 \<le> b then before s < s else s < before s"
  by (rule before_spec)

lemma midpoint_less: "lo < hi \<Longrightarrow>
    midpoint lo hi = midpoint_impl (max (length lo) (length hi)) lo (Slice hi) \<and>
    midpoint hi lo = midpoint lo hi"
  by (auto simp: midpoint_def)

lemma mid_string_less_later:
  assumes "k < i" "i \<le> length lo" "k < length hi" "take k lo = take k hi" "lo ! k < hi ! k"
  shows "mid_string lo h i < hi"
proof (rule less_at [where i = k])
  show "mid_string lo h i ! k < hi ! k"
    using assms by (simp add: mid_string_def nth_append)
qed (use assms in \<open>simp_all add: take_mid_string mid_string_length\<close>)

lemma append_less_later:
  fixes lo hi :: bytes
  assumes "k < length lo" "k < length hi" "take k lo = take k hi" "lo ! k < hi ! k"
  shows "lo @ t < hi"
  by (rule less_at [where i = k]) (use assms in \<open>simp_all add: nth_append\<close>)

lemma midpoint_spec:
  assumes "lo < hi" and room: "length hi \<le> length lo \<or> 2 \<le> hi ! length lo"
  shows "lo < midpoint lo hi \<and> midpoint lo hi < hi \<and> midpoint hi lo = midpoint lo hi"
proof -
  let ?n = "max (length lo) (length hi)" and ?h = "Slice hi"
  let ?m = "midpoint_impl ?n lo ?h"
  have later: "gap lo ?h (length lo)" if "length lo < length hi"
    using that room by (auto simp: gap_def lo_at_def word_le_nat_alt)
  have "lo < ?m \<and> ?m < hi"
  proof (cases rule: midpoint_impl_cases [of ?n lo ?h])
    case (found i)
    have i: "i \<le> length lo"
    proof (rule ccontr)
      assume "\<not> i \<le> length lo"
      with found(1) have "length lo < i" "length lo < length hi" by auto
      with later found(3) show False by blast
    qed
    have "mid_string lo ?h i < hi"
      using \<open>lo < hi\<close>
    proof (cases rule: less_cases)
      case (prefix t)
      with i have "i < length hi" "take i lo = take i hi"
        by (cases t; simp)+
      with found i show ?thesis by (simp add: mid_string_less)
    next
      case (diff k)
      show ?thesis
      proof (cases "k < i")
        case True
        with diff i show ?thesis by (simp add: mid_string_less_later)
      next
        case False
        then have "take i (take k lo) = take i lo" "take i (take k hi) = take i hi"
          by (simp_all add: min_def)
        with diff False have "i < length hi" "take i lo = take i hi" by auto
        with found i show ?thesis by (simp add: mid_string_less)
      qed
    qed
    with found i show ?thesis by (simp add: mid_string_greater)
  next
    case none
    have short: "length hi \<le> length lo"
      using none(1) later by (meson less_max_iff_disj not_le)
    have "lo @ [127] < hi"
      using \<open>lo < hi\<close>
    proof (cases rule: less_cases)
      case (diff k)
      then show ?thesis by (rule append_less_later)
    qed (use short in simp)
    with none show ?thesis by (simp add: less_append)
  qed
  then show ?thesis using midpoint_less [OF \<open>lo < hi\<close>] by simp
qed

text \<open>
  C39. The midpoint of two different keys lies strictly between them, in whichever order
  they are given, whenever the smaller key is at least as long as the greater one or the
  greater key's byte at the position where the smaller key ends is at least 2 (so for all
  keys but those where the greater one continues past the smaller one with a byte 0 or 1).
\<close>

theorem midpoint_between:
  assumes "lo < hi" and room: "length hi \<le> length lo \<or> 2 \<le> hi ! length lo"
  shows "lo < midpoint lo hi \<and> midpoint lo hi < hi \<and> midpoint hi lo = midpoint lo hi"
  by (rule midpoint_spec [OF assms])

theorem midpoint_between_witness:
  "[97, 98, 99] < midpoint [97, 98, 99] [97, 99] \<and>
   midpoint [97, 98, 99] [97, 99] < ([97, 99] :: bytes) \<and>
   midpoint [97, 99] [97, 98, 99] = midpoint [97, 98, 99] [97, 99]"
  by (rule midpoint_between) simp_all

text \<open>
  The remaining keys are out of range: the midpoint of a key and the same key extended
  by a zero byte is above both, and where a gap is found beyond the end of the smaller key
  its bytes are replaced by zeros, which puts the result below both.
\<close>

theorem midpoint_out_of_range:
  "s < s @ [0] \<and> s @ [0] < midpoint s (s @ [0]) \<and>
   midpoint [1] [2, 0, 200] < ([1] :: bytes) \<and> [1] < ([2, 0, 200] :: bytes)"
proof -
  have "lo_at s i + 1 \<ge> hi_at (Slice (s @ [0])) i" if "i < Suc (length s)" for i
    using that by (auto simp: lo_at_def nth_append)
  then have "midpoint_impl (Suc (length s)) s (Slice (s @ [0])) = s @ [127]"
    by (cases rule: midpoint_impl_cases [of "Suc (length s)" s "Slice (s @ [0])"])
      (meson gap_def not_less, simp)
  then have "midpoint s (s @ [0]) = s @ [127]"
    using midpoint_less [of s "s @ [0]"] by (simp add: less_append)
  moreover have "s @ [0] < s @ [127 :: u8]"
    by (rule less_at [where i = "length s"]) (simp_all add: nth_append)
  moreover have "midpoint [1] [2, 0, 200] < ([1] :: bytes)"
    by code_simp
  ultimately show ?thesis by (simp add: less_append)
qed

end
