(* ===== verification/ApiTypes.thy ===== *)
theory ApiTypes
  imports Prelude
begin

section \<open>Identifiers, object types and keys: \<^verbatim>\<open>crates/api/src\<close>\<close>

text \<open>
  The identifier types (\<open>id.rs\<close>, \<open>peer_id.rs\<close>, \<open>public_key.rs\<close>, \<open>remote_id.rs\<close>,
  \<open>stable_id.rs\<close>) with their printing, parsing and derived orders, and the tables of object
  types and property keys of \<open>lib.rs\<close>. The base64 engine is a third-party crate: it is the
  parameter \<open>enc\<close> (print a byte string) and \<open>dec\<close> (decode a text into a buffer of the given
  size, giving the bytes written), and \<open>b64_ok\<close> collects what the code relies on. Strings
  are lists of UTF-8 bytes (as \<open>char\<close>). Each constructor is named after the \<open>new\<close> function of its type.
\<close>

datatype Id = Id_new (id_get: u32)
datatype PeerId = PeerId_new (pid_raw: u32)
datatype PublicKey = PublicKey_new (pk_bytes: bytes)
datatype RemoteId = RemoteId_new (rid_peer_id: PeerId) (rid_id: Id)
datatype StableId = StableId_new (sid_public_key: PublicKey) (sid_id: Id)

definition Id_ZERO :: Id where
  "Id_ZERO = Id_new 0"

definition id_is_zero :: "Id \<Rightarrow> bool" where
  "id_is_zero i \<longleftrightarrow> id_get i = 0"

definition id_as_non_zero :: "Id \<Rightarrow> Id option" where
  "id_as_non_zero i = (if id_is_zero i then None else Some i)"

definition id_to_vec :: "Id \<Rightarrow> bytes" where
  "id_to_vec i = u32_to_le (id_get i)"

definition PeerId_ZERO :: PeerId where
  "PeerId_ZERO = PeerId_new 0"

definition pid_is_zero :: "PeerId \<Rightarrow> bool" where
  "pid_is_zero p \<longleftrightarrow> pid_raw p = 0"

definition PublicKey_ZERO :: PublicKey where
  "PublicKey_ZERO = PublicKey_new (replicate 32 0)"

definition pk_is_zero :: "PublicKey \<Rightarrow> bool" where
  "pk_is_zero k \<longleftrightarrow> pk_bytes k = replicate 32 0"

definition RemoteId_ZERO :: RemoteId where
  "RemoteId_ZERO = RemoteId_new PeerId_ZERO Id_ZERO"

definition rid_local :: "Id \<Rightarrow> RemoteId" where
  "rid_local i = RemoteId_new PeerId_ZERO i"

definition rid_is_local :: "RemoteId \<Rightarrow> bool" where
  "rid_is_local r \<longleftrightarrow> pid_is_zero (rid_peer_id r)"

definition rid_is_zero :: "RemoteId \<Rightarrow> bool" where
  "rid_is_zero r \<longleftrightarrow> pid_is_zero (rid_peer_id r) \<and> id_is_zero (rid_id r)"

definition rid_as_non_zero :: "RemoteId \<Rightarrow> RemoteId option" where
  "rid_as_non_zero r = (if rid_is_zero r then None else Some r)"

definition StableId_ZERO :: StableId where
  "StableId_ZERO = StableId_new PublicKey_ZERO Id_ZERO"

definition sid_is_zero :: "StableId \<Rightarrow> bool" where
  "sid_is_zero s \<longleftrightarrow> pk_is_zero (sid_public_key s) \<and> id_is_zero (sid_id s)"

subsection \<open>Derived orders\<close>

instantiation Id :: linorder
begin
definition less_eq_Id :: "Id \<Rightarrow> Id \<Rightarrow> bool" where
  "less_eq_Id a b \<longleftrightarrow> id_get a \<le> id_get b"
definition less_Id :: "Id \<Rightarrow> Id \<Rightarrow> bool" where
  "less_Id a b \<longleftrightarrow> id_get a < id_get b"
instance
  by standard (auto simp: less_eq_Id_def less_Id_def intro: Id.expand)
end

instantiation PeerId :: linorder
begin
definition less_eq_PeerId :: "PeerId \<Rightarrow> PeerId \<Rightarrow> bool" where
  "less_eq_PeerId a b \<longleftrightarrow> pid_raw a \<le> pid_raw b"
definition less_PeerId :: "PeerId \<Rightarrow> PeerId \<Rightarrow> bool" where
  "less_PeerId a b \<longleftrightarrow> pid_raw a < pid_raw b"
instance
  by standard (auto simp: less_eq_PeerId_def less_PeerId_def intro: PeerId.expand)
end

instantiation PublicKey :: linorder
begin
definition less_eq_PublicKey :: "PublicKey \<Rightarrow> PublicKey \<Rightarrow> bool" where
  "less_eq_PublicKey a b \<longleftrightarrow> pk_bytes a \<le> pk_bytes b"
definition less_PublicKey :: "PublicKey \<Rightarrow> PublicKey \<Rightarrow> bool" where
  "less_PublicKey a b \<longleftrightarrow> pk_bytes a < pk_bytes b"
instance
  by standard (auto simp: less_eq_PublicKey_def less_PublicKey_def intro: PublicKey.expand)
end

instantiation RemoteId :: linorder
begin
definition less_eq_RemoteId :: "RemoteId \<Rightarrow> RemoteId \<Rightarrow> bool" where
  "less_eq_RemoteId a b \<longleftrightarrow>
     rid_peer_id a < rid_peer_id b \<or> rid_peer_id a = rid_peer_id b \<and> rid_id a \<le> rid_id b"
definition less_RemoteId :: "RemoteId \<Rightarrow> RemoteId \<Rightarrow> bool" where
  "less_RemoteId a b \<longleftrightarrow>
     rid_peer_id a < rid_peer_id b \<or> rid_peer_id a = rid_peer_id b \<and> rid_id a < rid_id b"
instance
  by standard (auto simp: less_eq_RemoteId_def less_RemoteId_def intro: RemoteId.expand)
end

instantiation StableId :: linorder
begin
definition less_eq_StableId :: "StableId \<Rightarrow> StableId \<Rightarrow> bool" where
  "less_eq_StableId a b \<longleftrightarrow>
     sid_public_key a < sid_public_key b \<or>
     sid_public_key a = sid_public_key b \<and> sid_id a \<le> sid_id b"
definition less_StableId :: "StableId \<Rightarrow> StableId \<Rightarrow> bool" where
  "less_StableId a b \<longleftrightarrow>
     sid_public_key a < sid_public_key b \<or>
     sid_public_key a = sid_public_key b \<and> sid_id a < sid_id b"
instance
  by standard (auto simp: less_eq_StableId_def less_StableId_def intro: StableId.expand)
end

subsection \<open>Printing and parsing\<close>

datatype 'e ParseIdError = DecodeSliceError 'e | InvalidLength nat

datatype 'e ParseRemoteIdError =
    RemoteMissingSeparator
  | RemotePeerId "'e ParseIdError"
  | RemoteId "'e ParseIdError"

datatype 'e ParseStableIdError =
    StableMissingSeparator
  | StablePublicKey "'e ParseIdError"
  | StableId "'e ParseIdError"

definition id_display :: "(bytes \<Rightarrow> string) \<Rightarrow> Id \<Rightarrow> string" where
  "id_display enc i = (if id_is_zero i then ''0'' else enc (u32_to_le (id_get i)))"

definition id_from_str :: "(string \<Rightarrow> nat \<Rightarrow> 'e + bytes) \<Rightarrow> string \<Rightarrow> 'e ParseIdError + Id" where
  "id_from_str dec s =
     (if s = ''0'' then Inr Id_ZERO
      else case dec s 4 of
        Inl e \<Rightarrow> Inl (DecodeSliceError e)
      | Inr dest \<Rightarrow>
          if length dest \<noteq> 4 then Inl (InvalidLength (length dest))
          else Inr (Id_new (u32_from_le dest)))"

definition pid_display :: "(bytes \<Rightarrow> string) \<Rightarrow> PeerId \<Rightarrow> string" where
  "pid_display enc p = (if pid_is_zero p then ''0'' else enc (u32_to_le (pid_raw p)))"

definition pid_from_str ::
    "(string \<Rightarrow> nat \<Rightarrow> 'e + bytes) \<Rightarrow> string \<Rightarrow> 'e ParseIdError + PeerId" where
  "pid_from_str dec s =
     (if s = ''0'' then Inr PeerId_ZERO
      else case dec s 4 of
        Inl e \<Rightarrow> Inl (DecodeSliceError e)
      | Inr dest \<Rightarrow>
          if length dest \<noteq> 4 then Inl (InvalidLength (length dest))
          else Inr (PeerId_new (u32_from_le dest)))"

definition pk_display :: "(bytes \<Rightarrow> string) \<Rightarrow> PublicKey \<Rightarrow> string" where
  "pk_display enc k = (if pk_is_zero k then ''0'' else enc (pk_bytes k))"

definition pk_from_str ::
    "(string \<Rightarrow> nat \<Rightarrow> 'e + bytes) \<Rightarrow> string \<Rightarrow> 'e ParseIdError + PublicKey" where
  "pk_from_str dec s =
     (if s = ''0'' then Inr PublicKey_ZERO
      else case dec s 32 of
        Inl e \<Rightarrow> Inl (DecodeSliceError e)
      | Inr dest \<Rightarrow>
          if length dest \<noteq> 32 then Inl (InvalidLength (length dest))
          else Inr (PublicKey_new dest))"

fun split_once :: "string \<Rightarrow> string \<Rightarrow> (string \<times> string) option" where
  "split_once sep s =
     (if take (length sep) s = sep then Some ([], drop (length sep) s)
      else case s of
        [] \<Rightarrow> None
      | c # cs \<Rightarrow> map_option (\<lambda>(a, b). (c # a, b)) (split_once sep cs))"

declare split_once.simps [simp del]

definition rid_display :: "(bytes \<Rightarrow> string) \<Rightarrow> RemoteId \<Rightarrow> string" where
  "rid_display enc r = pid_display enc (rid_peer_id r) @ ''/'' @ id_display enc (rid_id r)"

definition rid_from_str ::
    "(string \<Rightarrow> nat \<Rightarrow> 'e + bytes) \<Rightarrow> string \<Rightarrow> 'e ParseRemoteIdError + RemoteId" where
  "rid_from_str dec s =
     (case split_once ''::'' s of
        None \<Rightarrow> Inl RemoteMissingSeparator
      | Some (peer_id, i) \<Rightarrow>
          (case pid_from_str dec peer_id of
             Inl e \<Rightarrow> Inl (RemotePeerId e)
           | Inr peer_id \<Rightarrow>
               (case id_from_str dec i of
                  Inl e \<Rightarrow> Inl (RemoteId e)
                | Inr i \<Rightarrow> Inr (RemoteId_new peer_id i))))"

definition sid_display :: "(bytes \<Rightarrow> string) \<Rightarrow> StableId \<Rightarrow> string" where
  "sid_display enc r = pk_display enc (sid_public_key r) @ ''/'' @ id_display enc (sid_id r)"

definition sid_from_str ::
    "(string \<Rightarrow> nat \<Rightarrow> 'e + bytes) \<Rightarrow> string \<Rightarrow> 'e ParseStableIdError + StableId" where
  "sid_from_str dec s =
     (case split_once ''::'' s of
        None \<Rightarrow> Inl StableMissingSeparator
      | Some (public_key, i) \<Rightarrow>
          (case pk_from_str dec public_key of
             Inl e \<Rightarrow> Inl (StablePublicKey e)
           | Inr public_key \<Rightarrow>
               (case id_from_str dec i of
                  Inl e \<Rightarrow> Inl (StableId e)
                | Inr i \<Rightarrow> Inr (StableId_new public_key i))))"

subsection \<open>The base64 engine\<close>

definition b64_alphabet :: string where
  "b64_alphabet = ''ABCDEFGHIJKLMNOPQRSTUVWXYZabcdefghijklmnopqrstuvwxyz0123456789-_''"

definition b64_ok :: "(bytes \<Rightarrow> string) \<Rightarrow> (string \<Rightarrow> nat \<Rightarrow> 'e + bytes) \<Rightarrow> bool" where
  "b64_ok enc dec \<longleftrightarrow>
     (\<forall>bs. dec (enc bs) (length bs) = Inr bs) \<and>
     (\<forall>bs. set (enc bs) \<subseteq> set b64_alphabet) \<and>
     (\<forall>bs. length bs \<le> length (enc bs))"

lemma b64_dec: "b64_ok enc dec \<Longrightarrow> n = length bs \<Longrightarrow> dec (enc bs) n = Inr bs"
  by (simp add: b64_ok_def)

lemma b64_not_zero: "b64_ok enc dec \<Longrightarrow> 1 < length bs \<Longrightarrow> enc bs \<noteq> ''0''"
  using le_less_trans [of 1 "length bs" "length (enc bs)"]
  by (metis One_nat_def b64_ok_def leD length_Cons list.size(3))

lemma b64_no_sep: "b64_ok enc dec \<Longrightarrow> c \<in> set (enc bs) \<Longrightarrow> c \<noteq> CHR '':'' \<and> c \<noteq> CHR ''/''"
  by (auto simp: b64_ok_def b64_alphabet_def)

fun hex_digit :: "nat \<Rightarrow> char" where
  "hex_digit n = ''0123456789abcdef'' ! (n mod 16)"

definition hex_byte :: "u8 \<Rightarrow> string" where
  "hex_byte b = [hex_digit (unat b div 16), hex_digit (unat b)]"

fun digit_val :: "char \<Rightarrow> nat option" where
  "digit_val c =
     (let n = of_char c :: nat
      in if 48 \<le> n \<and> n \<le> 57 then Some (n - 48)
         else if 97 \<le> n \<and> n \<le> 102 then Some (n - 87)
         else if 65 \<le> n \<and> n \<le> 70 then Some (n - 55)
         else None)"

definition hex_bytes :: "bytes \<Rightarrow> string" where
  "hex_bytes bs = concat (map hex_byte bs)"

fun unhex_bytes :: "string \<Rightarrow> bytes option" where
  "unhex_bytes [] = Some []"
| "unhex_bytes [c] = None"
| "unhex_bytes (c # d # s) =
     (case (digit_val c, digit_val d, unhex_bytes s) of
        (Some h, Some l, Some bs) \<Rightarrow> Some (of_nat (16 * h + l) # bs)
      | _ \<Rightarrow> None)"

definition unhex_to :: "string \<Rightarrow> nat \<Rightarrow> string + bytes" where
  "unhex_to s n =
     (case unhex_bytes s of
        None \<Rightarrow> Inl s
      | Some bs \<Rightarrow> if length bs \<le> n then Inr bs else Inl s)"

lemma nibble_cases:
  assumes "(n :: nat) < 16" "P 0" "P 1" "P 2" "P 3" "P 4" "P 5" "P 6" "P 7" "P 8" "P 9" "P 10"
    "P 11" "P 12" "P 13" "P 14" "P 15"
  shows "P n"
proof -
  have "n \<in> {0, 1, 2, 3, 4, 5, 6, 7, 8, 9, 10, 11, 12, 13, 14, 15}"
    using assms(1) by (simp only: insert_iff empty_iff) presburger
  then show ?thesis using assms(2-) by auto
qed

lemma digit_val_hex_digit: "digit_val (hex_digit n) = Some (n mod 16)"
proof -
  have "\<forall>m. m < 16 \<longrightarrow> digit_val (''0123456789abcdef'' ! m) = Some m"
    by (intro allI impI, erule nibble_cases) (simp_all add: Let_def)
  then show ?thesis by simp
qed

lemma hex_digit_alphabet: "hex_digit n \<in> set b64_alphabet"
proof -
  have "\<forall>m. m < 16 \<longrightarrow> ''0123456789abcdef'' ! m \<in> set b64_alphabet"
    by (intro allI impI, erule nibble_cases) (simp_all add: b64_alphabet_def)
  then show ?thesis by simp
qed

lemma hex_value: "of_nat (16 * (unat b div 16 mod 16) + unat b mod 16) = (b :: u8)"
proof -
  have "unat b < 256" using unsigned_less [of b, where 'a = nat] by simp
  then have "unat b div 16 mod 16 = unat b div 16" by simp
  then show ?thesis by simp
qed

lemma unhex_hex: "unhex_bytes (hex_bytes bs) = Some bs"
proof (induction bs)
  case Nil
  then show ?case by (simp add: hex_bytes_def)
next
  case (Cons b bs)
  then show ?case
    by (simp add: hex_bytes_def hex_byte_def digit_val_hex_digit hex_value
        del: hex_digit.simps digit_val.simps of_nat_add of_nat_mult)
qed

lemma length_hex_bytes: "length (hex_bytes bs) = 2 * length bs"
  by (induction bs) (simp_all add: hex_bytes_def hex_byte_def)

lemma b64_ok_hex: "b64_ok hex_bytes unhex_to"
  unfolding b64_ok_def
proof (intro conjI allI)
  fix bs
  show "unhex_to (hex_bytes bs) (length bs) = Inr bs"
    by (simp add: unhex_to_def unhex_hex)
  show "set (hex_bytes bs) \<subseteq> set b64_alphabet"
    by (induction bs)
      (use hex_digit_alphabet in \<open>auto simp: hex_bytes_def hex_byte_def simp del: hex_digit.simps\<close>)
  show "length bs \<le> length (hex_bytes bs)"
    by (simp add: length_hex_bytes)
qed

subsection \<open>Round trips\<close>

lemma id_from_display:
  "b64_ok enc dec \<Longrightarrow> id_from_str dec (id_display enc i) = Inr i"
  by (cases i) (auto simp: id_display_def id_from_str_def id_is_zero_def Id_ZERO_def
      b64_dec b64_not_zero)

lemma pid_from_display:
  "b64_ok enc dec \<Longrightarrow> pid_from_str dec (pid_display enc p) = Inr p"
  by (cases p) (auto simp: pid_display_def pid_from_str_def pid_is_zero_def PeerId_ZERO_def
      b64_dec b64_not_zero)

lemma pk_from_display:
  "b64_ok enc dec \<Longrightarrow> length (pk_bytes k) = 32 \<Longrightarrow> pk_from_str dec (pk_display enc k) = Inr k"
  by (cases k) (auto simp: pk_display_def pk_from_str_def pk_is_zero_def PublicKey_ZERO_def
      b64_dec b64_not_zero)

text \<open>
  Printed identifiers, peer identifiers and public keys parse back to themselves, for
  every base64 engine that decodes what it encodes, uses the URL-safe alphabet and never
  shortens its input.
\<close>

theorem identifiers_parse_print:
  assumes "b64_ok enc dec" "length (pk_bytes k) = 32"
  shows "id_from_str dec (id_display enc i) = Inr i \<and>
    pid_from_str dec (pid_display enc p) = Inr p \<and>
    pk_from_str dec (pk_display enc k) = Inr k"
  using assms by (simp add: id_from_display pid_from_display pk_from_display)

theorem identifiers_parse_print_witness:
  "id_from_str unhex_to (id_display hex_bytes (Id_new 77)) = Inr (Id_new 77) \<and>
   pid_from_str unhex_to (pid_display hex_bytes (PeerId_new 0)) = Inr (PeerId_new 0) \<and>
   pk_from_str unhex_to (pk_display hex_bytes (PublicKey_new (replicate 32 7))) =
     Inr (PublicKey_new (replicate 32 7))"
  by (rule identifiers_parse_print [OF b64_ok_hex]) simp

lemma split_once_none:
  "c \<notin> set s \<Longrightarrow> split_once (c # sep) s = None"
  by (induction s) (auto simp: split_once.simps)

lemma split_once_found:
  "c \<notin> set a \<Longrightarrow> split_once (c # sep) (a @ (c # sep) @ b) = Some (a, b)"
  by (induction a) (auto simp: split_once.simps)

lemma display_no_sep:
  assumes "b64_ok enc dec"
  shows "CHR '':'' \<notin> set (id_display enc i)" "CHR '':'' \<notin> set (pid_display enc p)"
    "CHR '':'' \<notin> set (pk_display enc k)"
  using b64_no_sep [OF assms]
  by (auto simp: id_display_def pid_display_def pk_display_def)

text \<open>
  Remote and stable identifiers are printed with \<open>/\<close> between their parts and parsed
  with \<open>::\<close> between them: parsing what is printed always fails with the missing-separator
  error, while the same text with \<open>::\<close> in the place of \<open>/\<close> parses back to the identifier.
\<close>

theorem remote_ids_print_not_parsed:
  assumes "b64_ok enc dec" "length (pk_bytes (sid_public_key s)) = 32"
  shows "rid_from_str dec (rid_display enc r) = Inl RemoteMissingSeparator \<and>
    sid_from_str dec (sid_display enc s) = Inl StableMissingSeparator \<and>
    rid_from_str dec (pid_display enc (rid_peer_id r) @ ''::'' @ id_display enc (rid_id r)) = Inr r \<and>
    sid_from_str dec (pk_display enc (sid_public_key s) @ ''::'' @ id_display enc (sid_id s)) = Inr s"
proof (intro conjI)
  note none = display_no_sep [OF assms(1)]
  show "rid_from_str dec (rid_display enc r) = Inl RemoteMissingSeparator"
    using none by (simp add: rid_from_str_def rid_display_def split_once_none)
  show "sid_from_str dec (sid_display enc s) = Inl StableMissingSeparator"
    using none by (simp add: sid_from_str_def sid_display_def split_once_none)
  show "rid_from_str dec (pid_display enc (rid_peer_id r) @ ''::'' @ id_display enc (rid_id r)) = Inr r"
    using none(2) [THEN split_once_found, where sep = "'':''"] assms(1)
    by (simp add: rid_from_str_def pid_from_display id_from_display)
  show "sid_from_str dec (pk_display enc (sid_public_key s) @ ''::'' @ id_display enc (sid_id s)) = Inr s"
    using none(3) [THEN split_once_found, where sep = "'':''"] assms
    by (simp add: sid_from_str_def pk_from_display id_from_display)
qed

theorem remote_ids_print_not_parsed_witness:
  "rid_from_str unhex_to (rid_display hex_bytes RemoteId_ZERO) = Inl RemoteMissingSeparator \<and>
   sid_from_str unhex_to (sid_display hex_bytes StableId_ZERO) = Inl StableMissingSeparator \<and>
   rid_from_str unhex_to (pid_display hex_bytes (rid_peer_id RemoteId_ZERO) @ ''::'' @
     id_display hex_bytes (rid_id RemoteId_ZERO)) = Inr RemoteId_ZERO \<and>
   sid_from_str unhex_to (pk_display hex_bytes (sid_public_key StableId_ZERO) @ ''::'' @
     id_display hex_bytes (sid_id StableId_ZERO)) = Inr StableId_ZERO"
  by (rule remote_ids_print_not_parsed [OF b64_ok_hex])
    (simp add: StableId_ZERO_def PublicKey_ZERO_def)

end
