(* ===== verification/Values.thy ===== *)
theory Values
  imports ApiTypes "HOL-Library.Monad_Syntax"
begin

section \<open>Keys, values and property sets: \<^verbatim>\<open>crates/api/src\<close>\<close>

text \<open>
  The tables of object types, roles and property keys and the plain data of \<open>lib.rs\<close>, the
  values of \<open>value.rs\<close> and the property sets of \<open>properties.rs\<close>. Floating-point numbers are
  their IEEE-754 bit patterns; comparisons read the pattern as an integer multiple of the
  smallest subnormal. The property set is the first instance of \<open>kv_store\<close>.
\<close>

subsection \<open>Floating-point comparisons\<close>

type_synonym f32 = "32 word"
type_synonym f64 = "64 word"

definition f64_exp :: "f64 \<Rightarrow> nat" where
  "f64_exp w = unat (take_bit 11 (drop_bit 52 w))"

definition f64_frac :: "f64 \<Rightarrow> nat" where
  "f64_frac w = unat (take_bit 52 w)"

definition f64_nan :: "f64 \<Rightarrow> bool" where
  "f64_nan w \<longleftrightarrow> f64_exp w = 2047 \<and> f64_frac w \<noteq> 0"

definition f64_finite :: "f64 \<Rightarrow> bool" where
  "f64_finite w \<longleftrightarrow> f64_exp w \<noteq> 2047"

definition f64_int :: "f64 \<Rightarrow> int" where
  "f64_int w =
     (let m = (if f64_exp w = 0 then int (f64_frac w)
               else (2 ^ 52 + int (f64_frac w)) * 2 ^ (f64_exp w - 1))
      in if bit w 63 then - m else m)"

definition f64_eq :: "f64 \<Rightarrow> f64 \<Rightarrow> bool" where
  "f64_eq a b \<longleftrightarrow> \<not> f64_nan a \<and> \<not> f64_nan b \<and> f64_int a = f64_int b"

text \<open>
  \<open>(a - b).abs() < f64::EPSILON\<close>: the units are \<open>2 ^ -1074\<close>, so \<open>EPSILON\<close> is \<open>2 ^ 1022\<close>; the
  rounded difference is below it exactly when the real one is below the midpoint between
  \<open>EPSILON\<close> and its predecessor. With a NaN or infinite operand the comparison is false.
\<close>

definition f64_close :: "f64 \<Rightarrow> f64 \<Rightarrow> bool" where
  "f64_close a b \<longleftrightarrow>
     f64_finite a \<and> f64_finite b \<and> \<bar>f64_int a - f64_int b\<bar> < 2 ^ 1022 - 2 ^ 968"

definition f32_exp :: "f32 \<Rightarrow> nat" where
  "f32_exp w = unat (take_bit 8 (drop_bit 23 w))"

definition f32_frac :: "f32 \<Rightarrow> nat" where
  "f32_frac w = unat (take_bit 23 w)"

definition f32_nan :: "f32 \<Rightarrow> bool" where
  "f32_nan w \<longleftrightarrow> f32_exp w = 255 \<and> f32_frac w \<noteq> 0"

definition f32_int :: "f32 \<Rightarrow> int" where
  "f32_int w =
     (let m = (if f32_exp w = 0 then int (f32_frac w)
               else (2 ^ 23 + int (f32_frac w)) * 2 ^ (f32_exp w - 1))
      in if bit w 31 then - m else m)"

definition f32_eq :: "f32 \<Rightarrow> f32 \<Rightarrow> bool" where
  "f32_eq a b \<longleftrightarrow> \<not> f32_nan a \<and> \<not> f32_nan b \<and> f32_int a = f32_int b"

definition f32_le :: "f32 \<Rightarrow> f32 \<Rightarrow> bool" where
  "f32_le a b \<longleftrightarrow> \<not> f32_nan a \<and> \<not> f32_nan b \<and> f32_int a \<le> f32_int b"

subsection \<open>Plain data\<close>

record Vec3 =
  vec_x :: f32
  vec_y :: f32
  vec_z :: f32

record Span =
  span_start :: f32
  span_end :: f32

record Extent =
  ext_x :: Span
  ext_z :: Span

record Canvas2 =
  cv_x :: f64
  cv_y :: f64

record Transform =
  tr_position :: Vec3
  tr_front :: Vec3

record Color =
  col_r :: u8
  col_g :: u8
  col_b :: u8
  col_a :: u8

record CropRegion =
  crop_x1 :: u32
  crop_y1 :: u32
  crop_x2 :: u32
  crop_y2 :: u32

definition Vec3_ZERO :: Vec3 where
  "Vec3_ZERO = \<lparr>vec_x = 0, vec_y = 0, vec_z = 0\<rparr>"

definition Vec3_FORWARD :: Vec3 where
  "Vec3_FORWARD = \<lparr>vec_x = 0, vec_y = 0, vec_z = 0xbf800000\<rparr>"

definition span_contains :: "Span \<Rightarrow> f32 \<Rightarrow> bool" where
  "span_contains s v \<longleftrightarrow> f32_le (span_start s) v \<and> f32_le v (span_end s)"

definition extent_contains :: "Extent \<Rightarrow> f32 \<Rightarrow> f32 \<Rightarrow> bool" where
  "extent_contains e x z \<longleftrightarrow> span_contains (ext_x e) x \<and> span_contains (ext_z e) z"

definition extent_arena :: Extent where
  "extent_arena =
     \<lparr>ext_x = \<lparr>span_start = 0xc0a00000, span_end = 0x40a00000\<rparr>,
      ext_z = \<lparr>span_start = 0xc0a00000, span_end = 0x40a00000\<rparr>\<rparr>"

definition transform_origin :: Transform where
  "transform_origin = \<lparr>tr_position = Vec3_ZERO, tr_front = Vec3_FORWARD\<rparr>"

definition is_whole_image :: "CropRegion \<Rightarrow> u32 \<Rightarrow> u32 \<Rightarrow> bool" where
  "is_whole_image c width height \<longleftrightarrow>
     crop_x1 c = 0 \<and> crop_y1 c = 0 \<and> crop_x2 c = width \<and> crop_y2 c = height"

definition color_factor :: "Color \<Rightarrow> u32" where
  "color_factor c = (ucast (col_r c) + ucast (col_g c) + ucast (col_b c)) div 3"

definition color_is_light :: "Color \<Rightarrow> bool" where
  "color_is_light c \<longleftrightarrow> color_factor c \<ge> 0x80"

definition vec3_eq :: "Vec3 \<Rightarrow> Vec3 \<Rightarrow> bool" where
  "vec3_eq a b \<longleftrightarrow>
     f32_eq (vec_x a) (vec_x b) \<and> f32_eq (vec_y a) (vec_y b) \<and> f32_eq (vec_z a) (vec_z b)"

definition span_eq :: "Span \<Rightarrow> Span \<Rightarrow> bool" where
  "span_eq a b \<longleftrightarrow> f32_eq (span_start a) (span_start b) \<and> f32_eq (span_end a) (span_end b)"

definition extent_eq :: "Extent \<Rightarrow> Extent \<Rightarrow> bool" where
  "extent_eq a b \<longleftrightarrow> span_eq (ext_x a) (ext_x b) \<and> span_eq (ext_z a) (ext_z b)"

definition canvas2_eq :: "Canvas2 \<Rightarrow> Canvas2 \<Rightarrow> bool" where
  "canvas2_eq a b \<longleftrightarrow> f64_eq (cv_x a) (cv_x b) \<and> f64_eq (cv_y a) (cv_y b)"

definition transform_eq :: "Transform \<Rightarrow> Transform \<Rightarrow> bool" where
  "transform_eq a b \<longleftrightarrow>
     vec3_eq (tr_position a) (tr_position b) \<and> vec3_eq (tr_front a) (tr_front b)"

subsection \<open>Object types and keys\<close>

datatype Role = Role_new (role_raw: u32)
datatype ContentType = ContentType_new (content_type_raw: u32)
datatype Type = Type_new (type_raw: u32)
datatype Key = Key_new (key_raw: u32)

datatype ValueType =
    Ty_Boolean | Ty_Bytes | Ty_Color | Ty_Extent | Ty_Float | Ty_Id | Ty_Integer | Ty_Canvas2
  | Ty_PeerId | Ty_StableId | Ty_String | Ty_Transform | Ty_Vec3

abbreviation ROLE_TOKEN :: Role where "ROLE_TOKEN \<equiv> Role_new 1"
abbreviation ROLE_STATIC :: Role where "ROLE_STATIC \<equiv> Role_new 2"
abbreviation ROLE_BACKGROUND :: Role where "ROLE_BACKGROUND \<equiv> Role_new 3"
abbreviation CONTENT_PNG :: ContentType where "CONTENT_PNG \<equiv> ContentType_new 0"
abbreviation TYPE_TOKEN :: Type where "TYPE_TOKEN \<equiv> Type_new 0x10000000"
abbreviation TYPE_STATIC :: Type where "TYPE_STATIC \<equiv> Type_new 0x10000002"
abbreviation TYPE_GROUP :: Type where "TYPE_GROUP \<equiv> Type_new 0x10000003"
abbreviation TYPE_ROOM :: Type where "TYPE_ROOM \<equiv> Type_new 0x80000001"

definition is_global :: "Type \<Rightarrow> bool" where
  "is_global ty \<longleftrightarrow> type_raw ty AND 0x80000000 \<noteq> 0"

definition type_title :: "Type \<Rightarrow> string" where
  "type_title ty =
     (if ty = TYPE_TOKEN then ''Token'' else if ty = TYPE_STATIC then ''Static''
      else if ty = TYPE_GROUP then ''Group'' else if ty = TYPE_ROOM then ''Room''
      else ''Object'')"

definition type_display :: "Type \<Rightarrow> string" where
  "type_display ty =
     (if ty = TYPE_TOKEN then ''token'' else if ty = TYPE_STATIC then ''static''
      else if ty = TYPE_GROUP then ''group'' else if ty = TYPE_ROOM then ''room''
      else ''object'')"

abbreviation KEY_IMAGE_ID :: Key where "KEY_IMAGE_ID \<equiv> Key_new 0"
abbreviation KEY_COLOR :: Key where "KEY_COLOR \<equiv> Key_new 1"
abbreviation KEY_TRANSFORM :: Key where "KEY_TRANSFORM \<equiv> Key_new 2"
abbreviation KEY_LOOK_AT :: Key where "KEY_LOOK_AT \<equiv> Key_new 3"
abbreviation KEY_NAME :: Key where "KEY_NAME \<equiv> Key_new 4"
abbreviation KEY_MUMBLE_ENABLED :: Key where "KEY_MUMBLE_ENABLED \<equiv> Key_new 5"
abbreviation KEY_REMOTE_SERVER :: Key where "KEY_REMOTE_SERVER \<equiv> Key_new 6"
abbreviation KEY_REMOTE_ENABLED :: Key where "KEY_REMOTE_ENABLED \<equiv> Key_new 7"
abbreviation KEY_REMOTE_TLS :: Key where "KEY_REMOTE_TLS \<equiv> Key_new 11"
abbreviation KEY_ZOOM :: Key where "KEY_ZOOM \<equiv> Key_new 9"
abbreviation KEY_PAN :: Key where "KEY_PAN \<equiv> Key_new 10"
abbreviation KEY_ROOM_EXTENT :: Key where "KEY_ROOM_EXTENT \<equiv> Key_new 12"
abbreviation KEY_MUMBLE_OBJECT :: Key where "KEY_MUMBLE_OBJECT \<equiv> Key_new 14"
abbreviation KEY_HIDDEN :: Key where "KEY_HIDDEN \<equiv> Key_new 15"
abbreviation KEY_LOCAL_HIDDEN :: Key where "KEY_LOCAL_HIDDEN \<equiv> Key_new 27"
abbreviation KEY_MUMBLE_FOLLOW :: Key where "KEY_MUMBLE_FOLLOW \<equiv> Key_new 16"
abbreviation KEY_RADIUS :: Key where "KEY_RADIUS \<equiv> Key_new 17"
abbreviation KEY_SPEED :: Key where "KEY_SPEED \<equiv> Key_new 18"
abbreviation KEY_WIDTH :: Key where "KEY_WIDTH \<equiv> Key_new 19"
abbreviation KEY_HEIGHT :: Key where "KEY_HEIGHT \<equiv> Key_new 20"
abbreviation KEY_RATIO :: Key where "KEY_RATIO \<equiv> Key_new 23"
abbreviation KEY_LOCKED :: Key where "KEY_LOCKED \<equiv> Key_new 22"
abbreviation KEY_SORT :: Key where "KEY_SORT \<equiv> Key_new 24"
abbreviation KEY_GROUP :: Key where "KEY_GROUP \<equiv> Key_new 25"
abbreviation KEY_EXPANDED :: Key where "KEY_EXPANDED \<equiv> Key_new 26"
abbreviation KEY_PEER_NAME :: Key where "KEY_PEER_NAME \<equiv> Key_new 28"
abbreviation KEY_PEER_SECRET :: Key where "KEY_PEER_SECRET \<equiv> Key_new 29"
abbreviation KEY_ROOM :: Key where "KEY_ROOM \<equiv> Key_new 30"
abbreviation KEY_ROOM_BACKGROUND :: Key where "KEY_ROOM_BACKGROUND \<equiv> Key_new 31"
abbreviation KEY_SHOW_GRID :: Key where "KEY_SHOW_GRID \<equiv> Key_new 32"
abbreviation KEY_MOVE_TARGET :: Key where "KEY_MOVE_TARGET \<equiv> Key_new 33"
abbreviation KEY_SELECTED :: Key where "KEY_SELECTED \<equiv> Key_new 34"

definition key_types :: "(u32 \<times> ValueType) list" where
  "key_types = [
     (0, Ty_Id), (1, Ty_Color), (2, Ty_Transform), (3, Ty_Vec3), (4, Ty_String),
     (5, Ty_Boolean), (6, Ty_String), (7, Ty_Boolean), (11, Ty_Boolean), (9, Ty_Float),
     (10, Ty_Vec3), (12, Ty_Extent), (14, Ty_Id), (15, Ty_Boolean), (27, Ty_Boolean),
     (16, Ty_Boolean), (17, Ty_Float), (18, Ty_Float), (19, Ty_Float), (20, Ty_Float),
     (23, Ty_Float), (22, Ty_Boolean), (24, Ty_Bytes), (25, Ty_Id), (26, Ty_Boolean),
     (28, Ty_String), (29, Ty_String), (30, Ty_StableId), (31, Ty_Id), (32, Ty_Boolean),
     (33, Ty_Vec3), (34, Ty_StableId)]"

definition key_names :: "(u32 \<times> string) list" where
  "key_names = [
     (0, ''IMAGE_ID''), (1, ''COLOR''), (2, ''TRANSFORM''), (3, ''LOOK_AT''), (4, ''NAME''),
     (5, ''MUMBLE_ENABLED''), (6, ''REMOTE_SERVER''), (7, ''REMOTE_ENABLED''),
     (11, ''REMOTE_TLS''), (9, ''ZOOM''), (10, ''PAN''), (12, ''ROOM_EXTENT''),
     (14, ''MUMBLE_OBJECT''), (15, ''HIDDEN''), (27, ''LOCAL_HIDDEN''), (16, ''MUMBLE_FOLLOW''),
     (17, ''RADIUS''), (18, ''SPEED''), (19, ''WIDTH''), (20, ''HEIGHT''), (23, ''RATIO''),
     (22, ''LOCKED''), (24, ''SORT''), (25, ''GROUP''), (26, ''EXPANDED''), (28, ''PEER_NAME''),
     (29, ''PEER_SECRET''), (30, ''ROOM''), (31, ''ROOM_BACKGROUND''), (32, ''SHOW_GRID''),
     (33, ''MOVE_TARGET''), (34, ''SELECTED'')]"

definition key_id_table :: "(Key \<times> string) list" where
  "key_id_table = [
     (KEY_IMAGE_ID, ''image-id''), (KEY_COLOR, ''color''), (KEY_TRANSFORM, ''transform''),
     (KEY_LOOK_AT, ''look-at''), (KEY_NAME, ''name''), (KEY_MUMBLE_ENABLED, ''mumble-enabled''),
     (KEY_REMOTE_SERVER, ''remote-server''), (KEY_REMOTE_ENABLED, ''remote-enabled''),
     (KEY_REMOTE_TLS, ''remote-tls''), (KEY_ZOOM, ''zoom''), (KEY_PAN, ''pan''),
     (KEY_ROOM_EXTENT, ''room-extent''), (KEY_MUMBLE_OBJECT, ''mumble-object''),
     (KEY_HIDDEN, ''hidden''), (KEY_LOCAL_HIDDEN, ''local-hidden''),
     (KEY_MUMBLE_FOLLOW, ''mumble-follow''), (KEY_RADIUS, ''radius''), (KEY_SPEED, ''speed''),
     (KEY_WIDTH, ''static-width''), (KEY_HEIGHT, ''static-height''), (KEY_RATIO, ''ratio''),
     (KEY_LOCKED, ''locked''), (KEY_SORT, ''sort''), (KEY_GROUP, ''group''),
     (KEY_EXPANDED, ''expanded''), (KEY_PEER_NAME, ''peer-name''),
     (KEY_PEER_SECRET, ''peer-secret''), (KEY_ROOM, ''room''),
     (KEY_ROOM_BACKGROUND, ''room-background''), (KEY_SHOW_GRID, ''show-grid'')]"

definition key_label_table :: "(Key \<times> string) list" where
  "key_label_table = [
     (KEY_IMAGE_ID, ''Image Id''), (KEY_COLOR, ''Color''), (KEY_TRANSFORM, ''Transform''),
     (KEY_LOOK_AT, ''Look At''), (KEY_NAME, ''Name''), (KEY_MUMBLE_ENABLED, ''Mumble Enabled''),
     (KEY_REMOTE_SERVER, ''Remote Server''), (KEY_REMOTE_ENABLED, ''Remote Enabled''),
     (KEY_REMOTE_TLS, ''Remote TLS''), (KEY_ZOOM, ''Zoom''), (KEY_PAN, ''Pan''),
     (KEY_ROOM_EXTENT, ''Room Extent''), (KEY_MUMBLE_OBJECT, ''Mumble Object''),
     (KEY_HIDDEN, ''Hidden''), (KEY_LOCAL_HIDDEN, ''Local Hidden''),
     (KEY_MUMBLE_FOLLOW, ''Mumble Follow''), (KEY_RADIUS, ''Radius''), (KEY_SPEED, ''Speed''),
     (KEY_WIDTH, ''Static Width''), (KEY_HEIGHT, ''Static Height''), (KEY_RATIO, ''Ratio''),
     (KEY_LOCKED, ''Locked''), (KEY_SORT, ''Sort''), (KEY_GROUP, ''Group''),
     (KEY_EXPANDED, ''Expanded''), (KEY_PEER_NAME, ''Peer Name''),
     (KEY_PEER_SECRET, ''Peer Secret''), (KEY_ROOM, ''Room''),
     (KEY_ROOM_BACKGROUND, ''Room Background''), (KEY_SHOW_GRID, ''Show Grid'')]"

definition key_placeholder_table :: "(Key \<times> string) list" where
  "key_placeholder_table = [
     (KEY_IMAGE_ID, ''Enter Image Id''), (KEY_COLOR, ''Enter Color''),
     (KEY_TRANSFORM, ''Enter Transform''), (KEY_LOOK_AT, ''Enter Look At''),
     (KEY_NAME, ''Enter Name''), (KEY_MUMBLE_ENABLED, ''Enter Mumble Enabled''),
     (KEY_REMOTE_SERVER, ''Enter Remote Server''),
     (KEY_REMOTE_ENABLED, ''Enter Remote Enabled''), (KEY_REMOTE_TLS, ''Enter Remote TLS''),
     (KEY_ZOOM, ''Enter Zoom''), (KEY_PAN, ''Enter Pan''),
     (KEY_ROOM_EXTENT, ''Enter Room Extent''), (KEY_MUMBLE_OBJECT, ''Enter Mumble Object''),
     (KEY_HIDDEN, ''Enter Hidden''), (KEY_LOCAL_HIDDEN, ''Enter Local Hidden''),
     (KEY_MUMBLE_FOLLOW, ''Enter Mumble Follow''), (KEY_RADIUS, ''Enter Radius''),
     (KEY_SPEED, ''Enter Speed''), (KEY_WIDTH, ''Enter Static Width''),
     (KEY_HEIGHT, ''Enter Static Height''), (KEY_RATIO, ''Enter Ratio''),
     (KEY_LOCKED, ''Enter Locked''), (KEY_SORT, ''Enter Sort''), (KEY_GROUP, ''Enter Group''),
     (KEY_EXPANDED, ''Enter Expanded''), (KEY_PEER_NAME, ''Enter Peer Name''),
     (KEY_PEER_SECRET, ''Enter Peer Secret''), (KEY_ROOM, ''Set Room''),
     (KEY_ROOM_BACKGROUND, ''Set Room Background''), (KEY_SHOW_GRID, ''Toggle Show Grid'')]"

definition key_ty :: "Key \<Rightarrow> ValueType option" where
  "key_ty k = map_of key_types (key_raw k)"

definition key_is_remote :: "Key \<Rightarrow> bool" where
  "key_is_remote k \<longleftrightarrow> k = KEY_PEER_NAME \<or> k = KEY_ROOM"

fun nat_to_dec :: "nat \<Rightarrow> string" where
  "nat_to_dec n =
     (if n < 10 then [''0123456789'' ! n]
      else nat_to_dec (n div 10) @ [''0123456789'' ! (n mod 10)])"

declare nat_to_dec.simps [simp del]

definition ids_display :: "(u32 \<times> string) list \<Rightarrow> u32 \<Rightarrow> string" where
  "ids_display names raw =
     (case map_of names raw of
        Some name \<Rightarrow> name
      | None \<Rightarrow>
          if raw = 0 then ''NONE''
          else ''UNKNOWN('' @ nat_to_dec (unat raw) @ '')'')"

definition key_id :: "Key \<Rightarrow> string" where
  "key_id k = (case map_of key_id_table k of Some s \<Rightarrow> s | None \<Rightarrow> ''unknown'')"

definition key_label :: "Key \<Rightarrow> string" where
  "key_label k = (case map_of key_label_table k of Some s \<Rightarrow> s | None \<Rightarrow> ''Unknown'')"

definition key_placeholder :: "Key \<Rightarrow> string" where
  "key_placeholder k =
     (case map_of key_placeholder_table k of Some s \<Rightarrow> s | None \<Rightarrow> ''Set Unknown'')"

subsection \<open>Values\<close>

text \<open>
  \<open>Value\<close> is a transparent wrapper around \<open>ValueKind\<close>; the model has the one type.
\<close>

datatype Value =
    VBoolean bool
  | VBytes bytes
  | VColor Color
  | VEmpty
  | VExtent Extent
  | VFloat f64
  | VId Id
  | VInteger i64
  | VCanvas2 Canvas2
  | VPeerId PeerId
  | VStableId StableId
  | VString string
  | VTransform Transform
  | VVec3 Vec3

fun value_is_empty :: "Value \<Rightarrow> bool" where
  "value_is_empty VEmpty = True"
| "value_is_empty (VId i) = id_is_zero i"
| "value_is_empty (VPeerId p) = pid_is_zero p"
| "value_is_empty (VStableId s) = sid_is_zero s"
| "value_is_empty (VBytes b) = (b = [])"
| "value_is_empty (VString s) = (s = [])"
| "value_is_empty _ = False"

definition value_eq :: "Value \<Rightarrow> Value \<Rightarrow> bool" where
  "value_eq a b =
     (case a of
        VExtent x \<Rightarrow> (case b of VExtent y \<Rightarrow> extent_eq x y | _ \<Rightarrow> False)
      | VFloat x \<Rightarrow> (case b of VFloat y \<Rightarrow> f64_eq x y | _ \<Rightarrow> False)
      | VCanvas2 x \<Rightarrow> (case b of VCanvas2 y \<Rightarrow> canvas2_eq x y | _ \<Rightarrow> False)
      | VTransform x \<Rightarrow> (case b of VTransform y \<Rightarrow> transform_eq x y | _ \<Rightarrow> False)
      | VVec3 x \<Rightarrow> (case b of VVec3 y \<Rightarrow> vec3_eq x y | _ \<Rightarrow> False)
      | _ \<Rightarrow> a = b)"

fun as_id :: "Value \<Rightarrow> Id" where
  "as_id (VId i) = i"
| "as_id _ = Id_ZERO"

fun as_peer_id :: "Value \<Rightarrow> PeerId" where
  "as_peer_id (VPeerId p) = p"
| "as_peer_id _ = PeerId_ZERO"

fun as_stable_id :: "Value \<Rightarrow> StableId" where
  "as_stable_id (VStableId s) = s"
| "as_stable_id _ = StableId_ZERO"

fun as_bool :: "Value \<Rightarrow> bool" where
  "as_bool (VBoolean b) = b"
| "as_bool _ = False"

fun as_str :: "Value \<Rightarrow> string" where
  "as_str (VString s) = s"
| "as_str _ = []"

fun as_f64 :: "Value \<Rightarrow> f64 option" where
  "as_f64 (VFloat f) = Some f"
| "as_f64 _ = None"

fun as_u32 :: "Value \<Rightarrow> u32 option" where
  "as_u32 (VInteger i) =
     (if 0 \<le> sint i \<and> sint i < 2 ^ 32 then Some (word_of_int (sint i)) else None)"
| "as_u32 _ = None"

fun as_i64 :: "Value \<Rightarrow> i64 option" where
  "as_i64 (VInteger i) = Some i"
| "as_i64 _ = None"

fun as_canvas2 :: "Value \<Rightarrow> Canvas2 option" where
  "as_canvas2 (VCanvas2 c) = Some c"
| "as_canvas2 _ = None"

fun as_extent :: "Value \<Rightarrow> Extent option" where
  "as_extent (VExtent e) = Some e"
| "as_extent _ = None"

fun as_bytes :: "Value \<Rightarrow> bytes" where
  "as_bytes (VBytes b) = b"
| "as_bytes _ = []"

fun as_transform :: "Value \<Rightarrow> Transform option" where
  "as_transform (VTransform t) = Some t"
| "as_transform _ = None"

fun as_color :: "Value \<Rightarrow> Color option" where
  "as_color (VColor c) = Some c"
| "as_color _ = None"

fun as_vec3 :: "Value \<Rightarrow> Vec3 option" where
  "as_vec3 (VVec3 v) = Some v"
| "as_vec3 _ = None"

text \<open>
  The \<open>into_*_mut\<close> accessors return a mutable reference into the value; the model takes the
  update made through the reference.
\<close>

definition modify_extent :: "(Extent \<Rightarrow> Extent) \<Rightarrow> Value \<Rightarrow> Value" where
  "modify_extent f v =
     VExtent (f (case v of VExtent e \<Rightarrow> e | _ \<Rightarrow> extent_arena))"

definition modify_transform :: "(Transform \<Rightarrow> Transform) \<Rightarrow> Value \<Rightarrow> Value" where
  "modify_transform f v =
     VTransform (f (case v of VTransform t \<Rightarrow> t | _ \<Rightarrow> transform_origin))"

definition modify_vec3 :: "(Vec3 \<Rightarrow> Vec3) \<Rightarrow> Value \<Rightarrow> Value" where
  "modify_vec3 f v = VVec3 (f (case v of VVec3 x \<Rightarrow> x | _ \<Rightarrow> Vec3_ZERO))"

definition value_from_id :: "Id \<Rightarrow> Value" where
  "value_from_id i = (if id_is_zero i then VEmpty else VId i)"

definition value_from_i32 :: "u32 \<Rightarrow> Value" where
  "value_from_i32 i = VInteger (scast i)"

definition value_from_option :: "('a \<Rightarrow> Value) \<Rightarrow> 'a option \<Rightarrow> Value" where
  "value_from_option from x = (case x of Some v \<Rightarrow> from v | None \<Rightarrow> VEmpty)"

subsection \<open>Property sets\<close>

type_synonym Properties = "(Key, Value) hashmap"

definition props_new :: Properties where
  "props_new = []"

definition props_get :: "Properties \<Rightarrow> Key \<Rightarrow> Value" where
  "props_get p k = (case hm_get p k of Some v \<Rightarrow> v | None \<Rightarrow> VEmpty)"

text \<open>\<open>into_mut\<close>: a missing key gets an empty value, which the caller then modifies.\<close>

definition props_modify :: "Key \<Rightarrow> (Value \<Rightarrow> Value) \<Rightarrow> Properties \<Rightarrow> Properties" where
  "props_modify k f p =
     hm_insert k (f (case hm_get p k of Some v \<Rightarrow> v | None \<Rightarrow> VEmpty)) p"

definition props_contains :: "Properties \<Rightarrow> Key \<Rightarrow> bool" where
  "props_contains p k \<longleftrightarrow> hm_get p k \<noteq> None"

definition props_remove :: "Key \<Rightarrow> Properties \<Rightarrow> Value \<times> Properties" where
  "props_remove k p =
     (case hm_get p k of
        None \<Rightarrow> (VEmpty, p)
      | Some v \<Rightarrow> (v, hm_remove k p))"

definition props_insert :: "Key \<Rightarrow> Value \<Rightarrow> Properties \<Rightarrow> Value \<times> Properties" where
  "props_insert k v p =
     (if value_is_empty v then props_remove k p
      else case hm_get p k of
        None \<Rightarrow> (VEmpty, hm_insert k v p)
      | Some old \<Rightarrow> (old, hm_insert k v p))"

definition float_pair :: "Value \<Rightarrow> Value \<Rightarrow> (f64 \<times> f64) option" where
  "float_pair a b = (case (a, b) of (VFloat x, VFloat y) \<Rightarrow> Some (x, y) | _ \<Rightarrow> None)"

definition props_update :: "Key \<Rightarrow> Value \<Rightarrow> Properties \<Rightarrow> bool \<times> Properties" where
  "props_update k other p =
     (case hm_get p k of
        None \<Rightarrow> if value_is_empty other then (False, p) else (True, hm_insert k other p)
      | Some this \<Rightarrow>
          (case float_pair this other of
             Some (a, b) \<Rightarrow>
               if f64_close a b then (False, p) else (True, hm_insert k other p)
           | None \<Rightarrow>
               if value_is_empty other then (True, hm_remove k p)
               else if value_eq this other then (False, p)
               else (True, hm_insert k other p)))"

definition props_put :: "Key \<Rightarrow> Value \<Rightarrow> Properties \<Rightarrow> Properties" where
  "props_put k v p = snd (props_insert k v p)"

definition props_from_iter :: "(Key \<times> Value) list \<Rightarrow> Properties" where
  "props_from_iter kvs = put_all props_put kvs props_new"

definition props_ok :: "Properties \<Rightarrow> bool" where
  "props_ok p \<longleftrightarrow> hm_wf p \<and> (\<forall>k v. hm_get p k = Some v \<longrightarrow> \<not> value_is_empty v)"

definition value_norm :: "Value \<Rightarrow> Value" where
  "value_norm v = (if value_is_empty v then VEmpty else v)"

lemma value_norm_idem [simp]: "value_norm (value_norm v) = value_norm v"
  by (simp add: value_norm_def)

lemma props_put_eq: "props_put k v p = (if value_is_empty v then hm_remove k p else hm_insert k v p)"
  by (simp add: props_put_def props_insert_def props_remove_def hm_remove_absent
      split: option.split)

lemma props_insert_old: "fst (props_insert k v p) = props_get p k"
  by (simp add: props_insert_def props_remove_def props_get_def split: option.split)

lemma props_get_put:
  "props_get (props_put k v p) k' = (if k' = k then value_norm v else props_get p k')"
  by (simp add: props_put_eq props_get_def value_norm_def hm_simps)

lemma hm_wf_props_put: "hm_wf p \<Longrightarrow> hm_wf (props_put k v p)"
  by (simp add: props_put_eq)

lemma props_ok_put: "props_ok p \<Longrightarrow> props_ok (props_put k v p)"
  by (auto simp: props_ok_def props_put_eq hm_simps split: if_splits)

lemma props_ok_new [simp]: "props_ok props_new"
  by (simp add: props_ok_def props_new_def)

interpretation props: kv_store props_get props_put value_norm props_ok
  by unfold_locales (simp_all add: props_get_put props_ok_put)

lemma props_get_new [simp]: "props_get props_new k = VEmpty"
  by (simp add: props_get_def props_new_def)

text \<open>
  Property sets: building a set from pairs leaves, for every key, the last value given
  for it (a value that counts as empty leaves none), no empty value is stored, and inserting
  gives back the value that was there.
\<close>

theorem props_from_iter_spec:
  "props_get (props_from_iter kvs) k =
     (case map_of (rev kvs) k of Some v \<Rightarrow> value_norm v | None \<Rightarrow> VEmpty) \<and>
   props_ok (props_from_iter kvs) \<and>
   fst (props_insert k v (props_from_iter kvs)) = props_get (props_from_iter kvs) k"
  using props.get_put_all [of props_new kvs k] props.wf_put_all [of props_new kvs]
  by (simp add: props_from_iter_def props_insert_old cong: option.case_cong)

definition value_same :: "Value \<Rightarrow> Value \<Rightarrow> bool" where
  "value_same a b =
     (case float_pair a b of Some (x, y) \<Rightarrow> f64_close x y | None \<Rightarrow> value_eq a b)"

lemma float_pair_Some: "float_pair a b = Some (x, y) \<longleftrightarrow> a = VFloat x \<and> b = VFloat y"
  by (cases a; cases b) (auto simp: float_pair_def)

lemma float_pair_norm: "float_pair a (value_norm b) = float_pair a b"
  by (cases a; cases b) (auto simp: float_pair_def value_norm_def)

lemma float_pair_VEmpty [simp]: "float_pair a VEmpty = None"
  by (cases a) (simp_all add: float_pair_def)

lemma value_eq_empty: "\<not> value_is_empty a \<Longrightarrow> \<not> value_eq a VEmpty"
  by (cases a) (simp_all add: value_eq_def)

lemma value_eq_VEmpty [simp]: "value_eq VEmpty b \<longleftrightarrow> b = VEmpty"
  by (auto simp: value_eq_def)

text \<open>
  \<open>update\<close> reports a change exactly when the new value differs from the stored one
  (floats differing by less than \<open>f64::EPSILON\<close> count as equal), keeps the set free of empty
  values, and after a reported change the key reads as the new value while all other keys
  keep theirs; without a change the set is untouched.
\<close>

theorem props_update_spec:
  assumes "props_ok p"
  shows "case props_update k v p of (changed, p') \<Rightarrow>
     (changed \<longleftrightarrow> \<not> value_same (props_get p k) (value_norm v)) \<and> props_ok p' \<and>
     props_get p' k' = (if changed \<and> k' = k then value_norm v else props_get p k') \<and>
     (\<not> changed \<longrightarrow> p' = p)"
proof (cases "hm_get p k")
  case None
  with assms show ?thesis
    by (auto simp: props_update_def props_get_def value_norm_def value_same_def float_pair_def
        props_ok_def hm_simps)
next
  case (Some this)
  then have "\<not> value_is_empty this" using assms by (simp add: props_ok_def)
  with Some assms show ?thesis
    by (cases "float_pair this v")
      (auto simp: props_update_def props_get_def value_norm_def value_same_def props_ok_def
        float_pair_Some value_eq_empty hm_simps float_pair_norm split: if_splits)
qed

theorem props_update_spec_witness:
  "case props_update KEY_HIDDEN (VBoolean True) props_new of (changed, p') \<Rightarrow>
     (changed \<longleftrightarrow> \<not> value_same (props_get props_new KEY_HIDDEN) (value_norm (VBoolean True))) \<and>
     props_ok p' \<and>
     props_get p' KEY_HIDDEN =
       (if changed \<and> KEY_HIDDEN = KEY_HIDDEN then value_norm (VBoolean True)
        else props_get props_new KEY_HIDDEN) \<and>
     (\<not> changed \<longrightarrow> p' = props_new)"
  by (rule props_update_spec) simp

subsection \<open>Colors as text\<close>

definition css_string :: "Color \<Rightarrow> string" where
  "css_string c =
     (if col_a c = 255
      then ''#'' @ hex_byte (col_r c) @ hex_byte (col_g c) @ hex_byte (col_b c)
      else ''#'' @ hex_byte (col_r c) @ hex_byte (col_g c) @ hex_byte (col_b c)
        @ hex_byte (col_a c))"

definition char_boundary :: "string \<Rightarrow> nat \<Rightarrow> bool" where
  "char_boundary s i \<longleftrightarrow>
     i = 0 \<or> i = length s \<or>
     i < length s \<and> \<not> (128 \<le> (of_char (s ! i) :: nat) \<and> (of_char (s ! i) :: nat) < 192)"

definition str_get :: "string \<Rightarrow> nat \<Rightarrow> nat \<Rightarrow> string option" where
  "str_get s a b =
     (if a \<le> b \<and> char_boundary s a \<and> char_boundary s b then Some (take (b - a) (drop a s))
      else None)"

fun radix16_loop :: "string \<Rightarrow> nat \<Rightarrow> nat option" where
  "radix16_loop [] acc = Some acc"
| "radix16_loop (c # cs) acc =
     (case digit_val c of
        None \<Rightarrow> None
      | Some d \<Rightarrow> if acc * 16 + d > 255 then None else radix16_loop cs (acc * 16 + d))"

definition u8_from_radix16 :: "string \<Rightarrow> u8 option" where
  "u8_from_radix16 s =
     (if s = [] \<or> s = ''+'' \<or> s = ''-'' then None
      else map_option of_nat (radix16_loop (if hd s = CHR ''+'' then tl s else s) 0))"

definition color_from_hex :: "string \<Rightarrow> Color option" where
  "color_from_hex hex =
     (case hex of
        [] \<Rightarrow> None
      | h # hex \<Rightarrow>
          if h \<noteq> CHR ''#'' then None
          else if length hex = 6 then
            do {
              r \<leftarrow> Option.bind (str_get hex 0 2) u8_from_radix16;
              g \<leftarrow> Option.bind (str_get hex 2 4) u8_from_radix16;
              b \<leftarrow> Option.bind (str_get hex 4 6) u8_from_radix16;
              Some \<lparr>col_r = r, col_g = g, col_b = b, col_a = 255\<rparr>
            }
          else if length hex = 8 then
            do {
              r \<leftarrow> Option.bind (str_get hex 0 2) u8_from_radix16;
              g \<leftarrow> Option.bind (str_get hex 2 4) u8_from_radix16;
              b \<leftarrow> Option.bind (str_get hex 4 6) u8_from_radix16;
              a \<leftarrow> Option.bind (str_get hex 6 8) u8_from_radix16;
              Some \<lparr>col_r = r, col_g = g, col_b = b, col_a = a\<rparr>
            }
          else None)"

lemma hex_digit_ascii: "of_char (hex_digit n) < (128 :: nat)" "hex_digit n \<noteq> CHR ''+''"
proof -
  have "\<forall>m. m < 16 \<longrightarrow>
      of_char (''0123456789abcdef'' ! m) < (128 :: nat) \<and> ''0123456789abcdef'' ! m \<noteq> CHR ''+''"
    by (intro allI impI, erule nibble_cases) simp_all
  then show "of_char (hex_digit n) < (128 :: nat)" "hex_digit n \<noteq> CHR ''+''" by simp_all
qed

lemma radix16_hex_byte: "u8_from_radix16 (hex_byte b) = Some b"
proof -
  have "16 * (unat b div 16 mod 16) + unat b mod 16 = unat b"
    using unsigned_less [of b, where 'a = nat] by simp
  moreover have "unat b \<le> 255" using unsigned_less [of b, where 'a = nat] by simp
  ultimately show ?thesis
    by (simp add: u8_from_radix16_def hex_byte_def digit_val_hex_digit hex_digit_ascii
        mult.commute del: hex_digit.simps digit_val.simps)
qed

lemma hex_byte_pair:
  obtains c d where "hex_byte b = [c, d]" "of_char c < (128 :: nat)" "of_char d < (128 :: nat)"
    "u8_from_radix16 [c, d] = Some b"
  using that [of "hex_digit (unat b div 16)" "hex_digit (unat b)"] radix16_hex_byte [of b]
  by (simp add: hex_byte_def hex_digit_ascii del: hex_digit.simps)

text \<open>
  A color printed as a CSS hex string parses back to the same color, with and without
  an alpha component.
\<close>

theorem color_from_css: "color_from_hex (css_string c) = Some c"
proof -
  obtain r r' where r: "hex_byte (col_r c) = [r, r']" "of_char r < (128 :: nat)"
      "of_char r' < (128 :: nat)" "u8_from_radix16 [r, r'] = Some (col_r c)"
    by (rule hex_byte_pair)
  obtain g g' where g: "hex_byte (col_g c) = [g, g']" "of_char g < (128 :: nat)"
      "of_char g' < (128 :: nat)" "u8_from_radix16 [g, g'] = Some (col_g c)"
    by (rule hex_byte_pair)
  obtain b b' where b: "hex_byte (col_b c) = [b, b']" "of_char b < (128 :: nat)"
      "of_char b' < (128 :: nat)" "u8_from_radix16 [b, b'] = Some (col_b c)"
    by (rule hex_byte_pair)
  obtain a a' where a: "hex_byte (col_a c) = [a, a']" "of_char a < (128 :: nat)"
      "of_char a' < (128 :: nat)" "u8_from_radix16 [a, a'] = Some (col_a c)"
    by (rule hex_byte_pair)
  have "color_from_hex (''#'' @ [r, r'] @ [g, g'] @ [b, b']) =
      Some \<lparr>col_r = col_r c, col_g = col_g c, col_b = col_b c, col_a = 255\<rparr>"
    using r g b
    by (simp add: color_from_hex_def str_get_def char_boundary_def eval_nat_numeral)
  moreover have "color_from_hex (''#'' @ [r, r'] @ [g, g'] @ [b, b'] @ [a, a']) = Some c"
    using r g b a
    by (simp add: color_from_hex_def str_get_def char_boundary_def eval_nat_numeral)
  ultimately show ?thesis
    using r(1) g(1) b(1) a(1) by (simp add: css_string_def)
qed

end
