(* ===== verification/Floats.thy ===== *)
theory Floats
  imports Values
begin

section \<open>Conversions between \<open>f32\<close> and \<open>f64\<close>\<close>

text \<open>
  The two \<open>as\<close> casts that \<^verbatim>\<open>crates/api/src/value.rs\<close> makes, on bit patterns: widening is exact,
  narrowing rounds to the nearest value, to the even one of two, and to infinity beyond the
  range. A NaN narrows to one NaN of its sign.
\<close>

fun nbits :: "nat \<Rightarrow> nat" where
  "nbits n = (if n = 0 then 0 else Suc (nbits (n div 2)))"

declare nbits.simps [simp del]

definition round_half_even :: "nat \<Rightarrow> nat \<Rightarrow> nat" where
  "round_half_even m r =
     (let d = m div 2 ^ r; rest = m mod 2 ^ r
      in if 2 * rest > 2 ^ r \<or> 2 * rest = 2 ^ r \<and> odd d then d + 1 else d)"

definition widen_bits :: "nat \<Rightarrow> nat \<Rightarrow> nat" where
  "widen_bits e f =
     (if e = 255 then
        (if f = 0 then 2047 * 2 ^ 52 else 2047 * 2 ^ 52 + 2 ^ 51 + f mod 2 ^ 22 * 2 ^ 29)
      else if e = 0 then
        (if f = 0 then 0
         else (873 + nbits f) * 2 ^ 52 + (f - 2 ^ (nbits f - 1)) * 2 ^ (53 - nbits f))
      else (e + 896) * 2 ^ 52 + f * 2 ^ 29)"

definition narrow_bits :: "nat \<Rightarrow> nat \<Rightarrow> nat" where
  "narrow_bits e f =
     (if e = 2047 then (if f = 0 then 255 * 2 ^ 23 else 255 * 2 ^ 23 + 2 ^ 22)
      else
        let m = (if e = 0 then f else 2 ^ 52 + f);
            e = max e 1;
            r = max (nbits m - 24) (926 - e)
        in min ((r + e - 926) * 2 ^ 23 + round_half_even m r) (255 * 2 ^ 23))"

definition f64_of_f32 :: "f32 \<Rightarrow> f64" where
  "f64_of_f32 w =
     of_nat ((if bit w 31 then 2 ^ 63 else 0) + widen_bits (f32_exp w) (f32_frac w))"

definition f32_of_f64 :: "f64 \<Rightarrow> f32" where
  "f32_of_f64 w =
     of_nat ((if bit w 63 then 2 ^ 31 else 0) + narrow_bits (f64_exp w) (f64_frac w))"

definition value_from_f32 :: "f32 \<Rightarrow> Value" where
  "value_from_f32 x = VFloat (f64_of_f32 x)"

definition as_f32 :: "Value \<Rightarrow> f32 option" where
  "as_f32 v = (case v of VFloat f \<Rightarrow> Some (f32_of_f64 f) | _ \<Rightarrow> None)"

subsection \<open>Narrowing undoes widening\<close>

lemma nbits_0: "nbits 0 = 0"
  by (simp add: nbits.simps)

lemma nbits_bounds: "0 < n \<Longrightarrow> 2 ^ (nbits n - 1) \<le> n \<and> n < 2 ^ nbits n \<and> 0 < nbits n"
proof (induction n rule: nbits.induct)
  case (1 n)
  show ?case
  proof (cases "n div 2 = 0")
    case True
    with 1(2) have "n = 1" by simp
    then show ?thesis by (simp add: nbits.simps)
  next
    case False
    with 1 have IH: "2 ^ (nbits (n div 2) - 1) \<le> n div 2" "n div 2 < 2 ^ nbits (n div 2)"
      "0 < nbits (n div 2)" by simp_all
    obtain k where k: "nbits (n div 2) = Suc k" using IH(3) by (cases "nbits (n div 2)") auto
    have "nbits n = Suc (Suc k)" using 1(2) k by (subst nbits.simps) simp
    then show ?thesis using IH k by auto
  qed
qed

lemma nbits_unique:
  assumes "2 ^ k \<le> n" "n < 2 ^ Suc k"
  shows "nbits n = Suc k"
proof -
  have "0 < n" using assms(1) by (metis gr0I le_zero_eq power_not_zero zero_neq_numeral)
  note b = nbits_bounds [OF this]
  have "k < nbits n" using assms(1) b by (meson le_less_trans power_less_imp_less_exp one_less_numeral_iff semiring_norm(76))
  moreover have "nbits n - 1 < Suc k"
    using assms(2) b by (meson le_less_trans power_less_imp_less_exp one_less_numeral_iff semiring_norm(76))
  ultimately show ?thesis using b by simp
qed

lemma round_exact: "round_half_even (d * 2 ^ r) r = d"
  by (simp add: round_half_even_def)

lemma f64_parts:
  assumes "e < 2048" "f < 2 ^ 52" "w = of_nat ((if s then 2 ^ 63 else 0) + e * 2 ^ 52 + f)"
  shows "f64_exp w = e" "f64_frac w = f" "bit w 63 = s"
proof -
  let ?n = "(if s then 2 ^ 63 else 0) + e * 2 ^ 52 + f"
  have "?n < 2 ^ 64" using assms(1, 2) by auto
  then have n: "unat w = ?n"
    unfolding assms(3) unat_of_nat by (simp del: of_nat_add of_nat_mult)
  have "f64_exp w = unat w div 2 ^ 52 mod 2 ^ 11"
    by (simp only: f64_exp_def unsigned_take_bit_eq unat_drop_bit_eq) (simp only: take_bit_eq_mod drop_bit_eq_div)
  also have "\<dots> = ?n div 2 ^ 52 mod 2 ^ 11" by (simp only: n)
  also have "\<dots> = (((if s then 2048 else 0) + e) * 2 ^ 52 + f) div 2 ^ 52 mod 2 ^ 11" by simp
  also have "\<dots> = e" using assms(1, 2) by (simp add: div_add1_eq)
  finally show "f64_exp w = e" .
  have "f64_frac w = unat w mod 2 ^ 52"
    by (simp only: f64_frac_def unsigned_take_bit_eq) (simp only: take_bit_eq_mod)
  also have "\<dots> = ?n mod 2 ^ 52" by (simp only: n)
  also have "\<dots> = (((if s then 2048 else 0) + e) * 2 ^ 52 + f) mod 2 ^ 52" by simp
  also have "\<dots> = f" using assms(2) by (simp only: mod_mult_self3 mod_less)
  finally show "f64_frac w = f" .
  have "bit w 63 = odd (?n div 2 ^ 63)"
    unfolding n [symmetric] bit_iff_odd [symmetric] by (simp add: bit_unsigned_iff)
  also have "?n div 2 ^ 63 = (if s then 1 else 0)"
  proof -
    have "e * 2 ^ 52 + f < 2 ^ 63" using assms(1, 2) by simp
    then show ?thesis by (simp add: add.assoc div_add_self1)
  qed
  finally show "bit w 63 = s" by simp
qed

lemma f32_parts: "unat w = (if bit w 31 then 2 ^ 31 else 0) + f32_exp w * 2 ^ 23 + f32_frac w"
  "f32_exp w < 256" "f32_frac w < 2 ^ 23"
proof -
  have e: "f32_exp w = unat w div 2 ^ 23 mod 2 ^ 8" and f: "f32_frac w = unat w mod 2 ^ 23"
    by (simp_all only: f32_exp_def f32_frac_def unsigned_take_bit_eq unat_drop_bit_eq)
      (simp_all only: take_bit_eq_mod drop_bit_eq_div)
  have lt: "unat w < 2 ^ 32" using unsigned_less [of w, where 'a = nat] by simp
  have s: "bit w 31 = odd (unat w div 2 ^ 31)"
    unfolding bit_iff_odd [symmetric] by (simp add: bit_unsigned_iff)
  have top: "unat w div 2 ^ 31 = (if bit w 31 then 1 else 0)"
    using lt s by (auto simp: div_less_iff_less_mult elim!: oddE)
  have "unat w div 2 ^ 31 = unat w div 2 ^ 23 div 2 ^ 8" by (simp flip: div_mult2_eq)
  moreover have "q * 8388608 + r = n \<Longrightarrow> a * 256 + b = q \<Longrightarrow>
      n = a * 2147483648 + b * 8388608 + r" for n q r a b :: nat by linarith
  from this [OF div_mult_mod_eq [of "unat w" 8388608] div_mult_mod_eq [of "unat w div 8388608" 256]]
  have "unat w = unat w div 8388608 div 256 * 2147483648 + unat w div 8388608 mod 256 * 8388608 +
      unat w mod 8388608" .
  ultimately have "unat w = unat w div 2 ^ 31 * 2 ^ 31 + unat w div 2 ^ 23 mod 2 ^ 8 * 2 ^ 23 + unat w mod 2 ^ 23"
    by simp
  then show "unat w = (if bit w 31 then 2 ^ 31 else 0) + f32_exp w * 2 ^ 23 + f32_frac w"
    unfolding e f top by (cases "bit w 31") (simp_all only: if_True if_False mult_1 mult_zero_left)
  show "f32_exp w < 256" "f32_frac w < 2 ^ 23" by (simp_all add: e f)
qed

text \<open>The widened pattern, in its parts, and what narrowing makes of them.\<close>

lemma widen_parts:
  assumes "e < 256" "f < 2 ^ 23" "e = 255 \<longrightarrow> f = 0"
  obtains e' f' where "widen_bits e f = e' * 2 ^ 52 + f'" "e' < 2048" "f' < 2 ^ 52"
    "narrow_bits e' f' = e * 2 ^ 23 + f"
proof -
  consider "e = 255" "f = 0" | "e = 0" "f = 0" | "e = 0" "0 < f" | "0 < e" "e < 255"
    using assms by linarith
  then show thesis
  proof cases
    case 1
    show thesis by (rule that [of 2047 0]) (simp_all add: 1 widen_bits_def narrow_bits_def)
  next
    case 2
    show thesis
      by (rule that [of 0 0])
        (simp_all add: 2 widen_bits_def narrow_bits_def nbits_0 round_half_even_def Let_def)
  next
    case 3
    define k where "k = nbits f"
    note b = nbits_bounds [OF 3(2), folded k_def]
    have "2 ^ (k - 1) < (2 :: nat) ^ 23" using b assms(2) by linarith
    from power_less_imp_less_exp [OF _ this] have k: "k \<le> 23" by simp
    let ?f = "(f - 2 ^ (k - 1)) * 2 ^ (53 - k)"
    have split: "(2 :: nat) ^ 52 = 2 ^ (k - 1) * 2 ^ (53 - k)" using b k by (simp flip: power_add)
    have "f - 2 ^ (k - 1) < 2 ^ (k - 1)" using b by (cases k) auto
    then have lt: "?f < 2 ^ 52" unfolding split by simp
    have m: "2 ^ 52 + ?f = f * 2 ^ (53 - k)"
      using b unfolding split by (simp flip: add_mult_distrib)
    have nb: "nbits (2 ^ 52 + ?f) = Suc 52" using lt by (intro nbits_unique) simp_all
    have r: "max (Suc 52 - 24) (926 - max (873 + k) 1) = 53 - k" using k by simp
    have "narrow_bits (873 + k) ?f = f"
    proof -
      have "narrow_bits (873 + k) ?f =
          min ((53 - k + (873 + k) - 926) * 2 ^ 23 + round_half_even (f * 2 ^ (53 - k)) (53 - k)) (255 * 2 ^ 23)"
        using k m nb r unfolding narrow_bits_def Let_def by simp
      then show ?thesis using k assms(2) by (simp add: round_exact)
    qed
    then show thesis
      using 3 k lt by (intro that [of "873 + k" ?f]) (simp_all add: widen_bits_def k_def)
  next
    case 4
    let ?f = "f * 2 ^ 29"
    have lt: "?f < 2 ^ 52" using assms(2) by simp
    have nb: "nbits (2 ^ 52 + ?f) = Suc 52" using lt by (intro nbits_unique) simp_all
    have m: "2 ^ 52 + ?f = (2 ^ 23 + f) * 2 ^ 29" by simp
    have r: "max (Suc 52 - 24) (926 - max (e + 896) 1) = 29" using 4 by simp
    have "narrow_bits (e + 896) ?f =
        min ((29 + (e + 896) - 926) * 2 ^ 23 + round_half_even ((2 ^ 23 + f) * 2 ^ 29) 29) (255 * 2 ^ 23)"
      using 4 m nb r unfolding narrow_bits_def Let_def by simp
    also have "\<dots> = e * 2 ^ 23 + f"
      using 4 assms(2) unfolding round_exact by (cases e) simp_all
    finally show thesis
      using 4 lt by (intro that [of "e + 896" ?f]) (simp_all add: widen_bits_def)
  qed
qed

lemma f32_of_f64_of_f32:
  assumes "\<not> f32_nan x"
  shows "f32_of_f64 (f64_of_f32 x) = x"
proof -
  have "f32_exp x = 255 \<longrightarrow> f32_frac x = 0" using assms by (simp add: f32_nan_def)
  from widen_parts [OF f32_parts(2,3) this] obtain e' f' where
    w: "widen_bits (f32_exp x) (f32_frac x) = e' * 2 ^ 52 + f'" "e' < 2048" "f' < 2 ^ 52"
      "narrow_bits e' f' = f32_exp x * 2 ^ 23 + f32_frac x" .
  have "f64_of_f32 x = of_nat ((if bit x 31 then 2 ^ 63 else 0) + e' * 2 ^ 52 + f')"
    by (simp add: f64_of_f32_def w(1) add.assoc)
  note p = f64_parts [OF w(2,3) this]
  have "f32_of_f64 (f64_of_f32 x) =
      of_nat ((if bit x 31 then 2 ^ 31 else 0) + (f32_exp x * 2 ^ 23 + f32_frac x))"
    by (simp only: f32_of_f64_def p w(4))
  also have "\<dots> = of_nat (unat x)" by (simp only: f32_parts(1) [of x] add.assoc)
  finally show ?thesis by simp
qed

text \<open>
  A single-precision number stored in a value is read back bit for bit: the narrowing of
  \<open>as_f32\<close> undoes the widening of \<open>Value::from\<close> for zeros of both signs, subnormals, normal
  numbers and infinities. Only NaN payloads are not preserved.
\<close>

theorem f32_values_survive:
  assumes "\<not> f32_nan x"
  shows "as_f32 (value_from_f32 x) = Some x"
  using f32_of_f64_of_f32 [OF assms] by (simp add: as_f32_def value_from_f32_def)

theorem f32_values_survive_witness:
  "as_f32 (value_from_f32 0x3dcccccd) = Some 0x3dcccccd \<and>
   as_f32 (value_from_f32 0x80000001) = Some 0x80000001"
  by (intro conjI f32_values_survive) (simp_all add: f32_nan_def f32_exp_def f32_frac_def)

end
