(* ===== verification/Messages.thy ===== *)
theory Messages
  imports Values
begin

section \<open>Protocol messages: \<^verbatim>\<open>crates/mumbler/src/remote/api.rs\<close>\<close>

text \<open>
  The objects and images peers share (\<open>api/src/lib.rs\<close>) and the bodies of the messages
  between a client and the server. Owned and borrowed bodies (\<open>ConnectBody\<close> and
  \<open>ConnectBodyRef\<close>) have the same fields and are one type here. \<open>Event\<close> is a message with
  its body, \<open>Kind\<close> the kind of a message, which the wire format carries as a number that the
  \<open>define!\<close> macro of a third-party crate assigns.
\<close>

record RemoteObject =
  ro_ty :: Type
  ro_id :: Id
  ro_props :: Properties

record RemotePeer =
  rp_id :: PeerId
  rp_public_key :: PublicKey
  rp_props :: Properties

record Image =
  img_id :: RemoteId
  img_content_type :: ContentType
  img_role :: Role
  img_width :: u32
  img_height :: u32

record ImageWithData =
  imgd_id :: RemoteId
  imgd_content_type :: ContentType
  imgd_role :: Role
  imgd_width :: u32
  imgd_height :: u32
  imgd_bytes :: bytes

record RemoteImage =
  ri_id :: Id
  ri_content_type :: ContentType
  ri_role :: Role
  ri_width :: u32
  ri_height :: u32
  ri_bytes :: bytes

datatype Signature = Signature_new (signature_bytes: bytes)

datatype Header = Header (header_request: u16) (header_error: u16)

record ConnectBody =
  cb_public_key :: PublicKey
  cb_signature :: Signature
  cb_objects :: "RemoteObject list"
  cb_images :: "RemoteImage list"
  cb_props :: Properties

datatype ChallengeBody = ChallengeBody (chb_nonce: bytes)
datatype HelloBody = HelloBody (hb_version: u32)
datatype PingBody = PingBody (pib_payload: u64)
datatype PongBody = PongBody (pob_payload: u64)
datatype PeerConnectedBody =
  PeerConnectedBody (pcb_public_key: PublicKey) (pcb_peer_id: PeerId) (pcb_props: Properties)
datatype PeerJoinBody = PeerJoinBody (pjb_peer_id: PeerId) (pjb_objects: "RemoteObject list")
datatype PeerUpdateBody = PeerUpdateBody (pub_key: Key) (pub_value: Value)
datatype PeerUpdatedBody =
  PeerUpdatedBody (pudb_peer_id: PeerId) (pudb_key: Key) (pudb_value: Value)
datatype PeerDisconnectBody = PeerDisconnectBody (pdb_id: PeerId)
datatype PeerLeaveBody = PeerLeaveBody (plb_id: PeerId)
datatype ObjectUpdateBody =
  ObjectUpdateBody (oub_object_id: Id) (oub_key: Key) (oub_value: Value)
datatype ObjectUpdatedBody =
  ObjectUpdatedBody (oudb_peer_id: PeerId) (oudb_object_id: Id) (oudb_key: Key) (oudb_value: Value)
datatype ObjectCreateBody = ObjectCreateBody (ocb_object: RemoteObject)
datatype ImageCreateBody = ImageCreateBody (icb_image: RemoteImage)
datatype ObjectCreatedBody =
  ObjectCreatedBody (ocdb_peer_id: PeerId) (ocdb_object: RemoteObject)
datatype ImageCreatedBody =
  ImageCreatedBody (icdb_peer_id: PeerId) (icdb_image: RemoteImage)
datatype ObjectRemoveBody = ObjectRemoveBody (orb_object_id: Id)
datatype ImageRemoveBody = ImageRemoveBody (irb_image_id: Id)
datatype ObjectRemovedBody = ObjectRemovedBody (ordb_peer_id: PeerId) (ordb_object_id: Id)
datatype ImageRemovedBody = ImageRemovedBody (irdb_peer_id: PeerId) (irdb_image_id: Id)

datatype Kind =
    K_Challenge | K_Hello | K_Connect | K_Ping | K_Pong | K_PeerConnected | K_PeerJoin
  | K_PeerDisconnect | K_PeerLeave | K_PeerUpdate | K_PeerUpdated | K_ObjectUpdate
  | K_ObjectUpdated | K_ObjectCreate | K_ObjectCreated | K_ImageCreate | K_ImageCreated
  | K_ObjectRemove | K_ObjectRemoved | K_ImageRemove | K_ImageRemoved

datatype Event =
    Challenge ChallengeBody
  | Hello HelloBody
  | Connect ConnectBody
  | Ping PingBody
  | Pong PongBody
  | PeerConnected PeerConnectedBody
  | PeerJoin PeerJoinBody
  | PeerDisconnect PeerDisconnectBody
  | PeerLeave PeerLeaveBody
  | PeerUpdate PeerUpdateBody
  | PeerUpdated PeerUpdatedBody
  | ObjectUpdate ObjectUpdateBody
  | ObjectUpdated ObjectUpdatedBody
  | ObjectCreate ObjectCreateBody
  | ObjectCreated ObjectCreatedBody
  | ImageCreate ImageCreateBody
  | ImageCreated ImageCreatedBody
  | ObjectRemove ObjectRemoveBody
  | ObjectRemoved ObjectRemovedBody
  | ImageRemove ImageRemoveBody
  | ImageRemoved ImageRemovedBody

fun event_kind :: "Event \<Rightarrow> Kind" where
  "event_kind (Challenge _) = K_Challenge"
| "event_kind (Hello _) = K_Hello"
| "event_kind (Connect _) = K_Connect"
| "event_kind (Ping _) = K_Ping"
| "event_kind (Pong _) = K_Pong"
| "event_kind (PeerConnected _) = K_PeerConnected"
| "event_kind (PeerJoin _) = K_PeerJoin"
| "event_kind (PeerDisconnect _) = K_PeerDisconnect"
| "event_kind (PeerLeave _) = K_PeerLeave"
| "event_kind (PeerUpdate _) = K_PeerUpdate"
| "event_kind (PeerUpdated _) = K_PeerUpdated"
| "event_kind (ObjectUpdate _) = K_ObjectUpdate"
| "event_kind (ObjectUpdated _) = K_ObjectUpdated"
| "event_kind (ObjectCreate _) = K_ObjectCreate"
| "event_kind (ObjectCreated _) = K_ObjectCreated"
| "event_kind (ImageCreate _) = K_ImageCreate"
| "event_kind (ImageCreated _) = K_ImageCreated"
| "event_kind (ObjectRemove _) = K_ObjectRemove"
| "event_kind (ObjectRemoved _) = K_ObjectRemoved"
| "event_kind (ImageRemove _) = K_ImageRemove"
| "event_kind (ImageRemoved _) = K_ImageRemoved"

end
