(* ===== verification/Wire.thy ===== *)
theory Wire
  imports Messages
begin

section \<open>Buffers, framing and peers: \<^verbatim>\<open>crates/mumbler/src/remote\<close>\<close>

text \<open>
  \<open>client.rs\<close>: the byte buffer \<open>Buf\<close>, the scratch buffer and the write and flush loop of a
  stream. \<open>peer.rs\<close>: length-prefixed framing, reading and sending messages. The codec of the
  messages is a third-party crate and is the parameter \<open>c\<close>: what encoding appends to a
  vector and whether it succeeded, and what decoding a slice gives. The socket is a list
  of answers, one for every time the loop asks it.
\<close>

subsection \<open>\<open>Buf\<close>\<close>

record Buf =
  buf_data :: bytes
  buf_read :: nat
  buf_write :: nat

definition READ_CAP :: nat where
  "READ_CAP = 4096"

definition MAX_CAPACITY :: nat where
  "MAX_CAPACITY = 10 * 1024 * 1024"

definition buf_new :: Buf where
  "buf_new = \<lparr>buf_data = [], buf_read = 0, buf_write = 0\<rparr>"

definition resize :: "nat \<Rightarrow> bytes \<Rightarrow> bytes" where
  "resize n xs = take n xs @ replicate (n - length xs) 0"

definition overwrite :: "nat \<Rightarrow> bytes \<Rightarrow> bytes \<Rightarrow> bytes" where
  "overwrite i bs xs = take i xs @ bs @ drop (i + length bs) xs"

definition slice :: "nat \<Rightarrow> nat \<Rightarrow> 'a list \<Rightarrow> 'a list option" where
  "slice i j xs = (if i \<le> j \<and> j \<le> length xs then Some (take (j - i) (drop i xs)) else None)"

definition write_bytes :: "bytes \<Rightarrow> Buf \<Rightarrow> Buf" where
  "write_bytes bs b =
     (let end = buf_write b + length bs;
          data = (if end > length (buf_data b) then resize end (buf_data b) else buf_data b)
      in case slice (buf_write b) end data of
           None \<Rightarrow> b\<lparr>buf_data := data\<rparr>
         | Some _ \<Rightarrow> b\<lparr>buf_data := overwrite (buf_write b) bs data, buf_write := end\<rparr>)"

definition advance_read :: "nat \<Rightarrow> Buf \<Rightarrow> Buf" where
  "advance_read n b =
     (let r = buf_read b + n
      in if r \<ge> buf_write b then b\<lparr>buf_read := 0, buf_write := 0\<rparr> else b\<lparr>buf_read := r\<rparr>)"

definition read_array :: "nat \<Rightarrow> Buf \<Rightarrow> bytes option \<times> Buf" where
  "read_array n b =
     (if buf_read b + n > buf_write b then (None, b)
      else case slice (buf_read b) (buf_read b + n) (buf_data b) of
             None \<Rightarrow> (None, b)
           | Some bs \<Rightarrow> (Some bs, advance_read n b))"

definition read_slice :: "nat \<Rightarrow> Buf \<Rightarrow> bytes option \<times> Buf" where
  "read_slice n b =
     (if buf_read b + n > buf_write b then (None, b)
      else let b' = advance_read n b
           in (slice (buf_read b) (buf_read b + n) (buf_data b'), b'))"

definition read_buf :: "Buf \<Rightarrow> bytes" where
  "read_buf b =
     (case slice (buf_read b) (buf_write b) (buf_data b) of Some bs \<Rightarrow> bs | None \<Rightarrow> [])"

definition write_buf :: "Buf \<Rightarrow> Buf option" where
  "write_buf b =
     (let needed = buf_write b + READ_CAP
      in if needed > MAX_CAPACITY then None
         else Some (if needed > length (buf_data b)
                    then b\<lparr>buf_data := resize needed (buf_data b)\<rparr> else b))"

definition remaining :: "Buf \<Rightarrow> nat" where
  "remaining b = buf_write b - buf_read b"

definition has_remaining :: "Buf \<Rightarrow> bool" where
  "has_remaining b \<longleftrightarrow> buf_write b > buf_read b"

definition advance :: "nat \<Rightarrow> Buf \<Rightarrow> Buf" where
  "advance n b = b\<lparr>buf_write := buf_write b + n\<rparr>"

text \<open>A buffer with a frame written from the scratch buffer, which is then cleared.\<close>

definition write_message :: "bytes \<Rightarrow> Buf \<Rightarrow> bytes \<times> Buf" where
  "write_message body b =
     (if length body < 2 ^ 32
      then ([], write_bytes body (write_bytes (u32_to_be (of_nat (length body))) b))
      else (body, b))"

subsection \<open>The buffer is a queue of bytes\<close>

definition buf_ok :: "Buf \<Rightarrow> bool" where
  "buf_ok b \<longleftrightarrow> buf_read b \<le> buf_write b \<and> buf_write b \<le> length (buf_data b)"

locale byte_queue =
  fixes content :: "'q \<Rightarrow> bytes"
    and put :: "bytes \<Rightarrow> 'q \<Rightarrow> 'q"
    and pop :: "nat \<Rightarrow> 'q \<Rightarrow> bytes option \<times> 'q"
    and ok :: "'q \<Rightarrow> bool"
  assumes content_put: "ok q \<Longrightarrow> content (put bs q) = content q @ bs"
    and ok_put: "ok q \<Longrightarrow> ok (put bs q)"
    and pop_enough: "ok q \<Longrightarrow> n \<le> length (content q) \<Longrightarrow> pop n q = (r, q') \<Longrightarrow>
          r = Some (take n (content q)) \<and> content q' = drop n (content q) \<and> ok q'"
    and pop_short: "ok q \<Longrightarrow> length (content q) < n \<Longrightarrow> pop n q = (None, q)"
begin

lemma content_puts: "ok q \<Longrightarrow> content (fold put bss q) = content q @ concat bss \<and> ok (fold put bss q)"
  by (induction bss arbitrary: q) (simp_all add: content_put ok_put)

lemma pop_cases:
  assumes "ok q"
  obtains (short) "length (content q) < n" "pop n q = (None, q)"
    | (enough) q' where "n \<le> length (content q)" "pop n q = (Some (take n (content q)), q')"
        "content q' = drop n (content q)" "ok q'"
proof (cases "length (content q) < n")
  case True
  with short pop_short [OF assms] show ?thesis by blast
next
  case False
  obtain r q' where "pop n q = (r, q')" by (cases "pop n q")
  with False enough pop_enough [OF assms] show ?thesis by (metis not_less)
qed

lemma pop_ok: "ok q \<Longrightarrow> ok (snd (pop n q))"
  by (cases rule: pop_cases [of q n]) auto

end

lemma read_buf_eq: "buf_ok b \<Longrightarrow>
    read_buf b = take (buf_write b - buf_read b) (drop (buf_read b) (buf_data b))"
  by (simp add: buf_ok_def read_buf_def slice_def)

lemma length_read_buf [simp]: "buf_ok b \<Longrightarrow> length (read_buf b) = remaining b"
  by (auto simp: read_buf_eq buf_ok_def remaining_def)

lemma buf_ok_new [simp]: "buf_ok buf_new"
  by (simp add: buf_ok_def buf_new_def)

lemma read_buf_new [simp]: "read_buf buf_new = []"
  by (simp add: read_buf_def buf_new_def slice_def)

lemma has_remaining_iff: "buf_ok b \<Longrightarrow> has_remaining b \<longleftrightarrow> read_buf b \<noteq> []"
  by (simp add: has_remaining_def remaining_def flip: length_greater_0_conv)

lemma write_bytes_eq:
  assumes "buf_ok b"
  shows "write_bytes bs b =
    b\<lparr>buf_data := take (buf_write b) (buf_data b) @ bs @
        drop (buf_write b + length bs) (buf_data b),
      buf_write := buf_write b + length bs\<rparr>"
  using assms
  by (auto simp: write_bytes_def Let_def slice_def resize_def overwrite_def buf_ok_def)

lemma buf_ok_write_bytes: "buf_ok b \<Longrightarrow> buf_ok (write_bytes bs b)"
  by (simp add: write_bytes_eq) (auto simp: buf_ok_def)

lemma read_buf_write_bytes:
  assumes "buf_ok b"
  shows "read_buf (write_bytes bs b) = read_buf b @ bs"
proof -
  from assms have "min (length (buf_data b) - buf_read b) (buf_write b - buf_read b) =
      buf_write b - buf_read b" "buf_read b \<le> buf_write b"
    by (auto simp: buf_ok_def)
  with assms show ?thesis
    by (simp add: read_buf_eq buf_ok_write_bytes)
      (simp add: write_bytes_eq buf_ok_def drop_take)
qed

lemma buf_ok_advance_read: "buf_ok b \<Longrightarrow> buf_ok (advance_read n b)"
  by (auto simp: advance_read_def buf_ok_def Let_def)

lemma read_buf_advance_read: "buf_ok b \<Longrightarrow> read_buf (advance_read n b) = drop n (read_buf b)"
  by (simp add: read_buf_eq buf_ok_advance_read)
    (auto simp: advance_read_def buf_ok_def Let_def drop_take add.commute)

lemma buf_data_advance_read [simp]: "buf_data (advance_read n b) = buf_data b"
  by (simp add: advance_read_def Let_def)

lemma read_slice_short: "buf_ok b \<Longrightarrow> length (read_buf b) < n \<Longrightarrow> read_slice n b = (None, b)"
  by (auto simp: read_slice_def remaining_def)

lemma read_slice_enough:
  assumes "buf_ok b" "n \<le> length (read_buf b)"
  shows "read_slice n b = (Some (take n (read_buf b)), advance_read n b)"
proof -
  from assms have n: "buf_read b + n \<le> buf_write b"
    by (simp add: remaining_def buf_ok_def le_diff_conv2 add.commute)
  with assms(1) show ?thesis
    by (auto simp: read_slice_def Let_def slice_def read_buf_eq buf_ok_def)
qed

lemma read_array_slice: "buf_ok b \<Longrightarrow> read_array n b = read_slice n b"
  by (auto simp: read_array_def read_slice_def Let_def slice_def buf_ok_def)

interpretation bufq: byte_queue read_buf write_bytes read_slice buf_ok
  by unfold_locales
    (auto simp: read_buf_write_bytes buf_ok_write_bytes read_slice_enough read_buf_advance_read
      buf_ok_advance_read read_slice_short simp del: length_read_buf)

subsection \<open>Streams\<close>

datatype StreamState = Idle | Flush

text \<open>
  What the socket answers when it is asked to write, flush or read: ready with a number of
  bytes taken (ignored by a flush), not ready, or an error.
\<close>

datatype 'a Answer = Ready 'a | NotReady | Failed

datatype Poll = PollOk | PollPending | PollErr

fun poll_write ::
    "nat Answer list \<Rightarrow> Buf \<Rightarrow> StreamState \<Rightarrow> Poll \<times> Buf \<times> StreamState \<times> bytes" where
  "poll_write [] b st =
     (if has_remaining b \<or> st = Flush then (PollPending, b, st, []) else (PollOk, b, st, []))"
| "poll_write (a # as) b st =
     (if has_remaining b \<or> st = Flush then
        (case st of
           Idle \<Rightarrow>
             (case a of
                Ready n \<Rightarrow>
                  (case poll_write as (advance_read n b) Flush of
                     (r, b', st', sent) \<Rightarrow> (r, b', st', take n (read_buf b) @ sent))
              | NotReady \<Rightarrow> (PollPending, b, st, [])
              | Failed \<Rightarrow> (PollErr, b, st, []))
         | Flush \<Rightarrow>
             (case a of
                Ready _ \<Rightarrow> poll_write as b Idle
              | NotReady \<Rightarrow> (PollPending, b, st, [])
              | Failed \<Rightarrow> (PollErr, b, st, [])))
      else (PollOk, b, st, []))"

text \<open>
  The stream fills at most the slice it is given; a filled length of zero is the end of the
  stream.
\<close>

definition poll_read :: "bytes Answer \<Rightarrow> Buf \<Rightarrow> Poll \<times> Buf" where
  "poll_read a b =
     (case write_buf b of
        None \<Rightarrow> (PollErr, b)
      | Some b \<Rightarrow>
          (case a of
             NotReady \<Rightarrow> (PollPending, b)
           | Failed \<Rightarrow> (PollErr, b)
           | Ready bs \<Rightarrow>
               let bs = take READ_CAP bs
               in if length bs = 0 then (PollErr, b)
                  else (PollOk, advance (length bs)
                          (b\<lparr>buf_data := overwrite (buf_write b) bs (buf_data b)\<rparr>))))"

lemma poll_write_queue:
  assumes "buf_ok b"
  shows "case poll_write as b st of (r, b', st', sent) \<Rightarrow>
     sent @ read_buf b' = read_buf b \<and> buf_ok b' \<and>
     (r = PollOk \<longrightarrow> read_buf b' = [] \<and> st' = Idle)"
  using assms
proof (induction as b st rule: poll_write.induct)
  case (1 b st)
  then show ?case by (auto simp: has_remaining_iff intro: StreamState.exhaust)
next
  case (2 a as b st)
  show ?case
  proof (cases "has_remaining b \<or> st = Flush")
    case False
    with 2 show ?thesis by (auto simp: has_remaining_iff intro: StreamState.exhaust)
  next
    case True
    show ?thesis
    proof (cases st)
      case Idle
      show ?thesis
      proof (cases a)
        case (Ready n)
        then show ?thesis
          using True Idle 2(1) [OF True Idle Ready] 2(3)
          by (auto simp: buf_ok_advance_read read_buf_advance_read split: prod.splits)
      qed (use True Idle 2(3) in auto)
    next
      case Flush
      then show ?thesis using True 2(2) 2(3) by (cases a) auto
    qed
  qed
qed

text \<open>
  Writing to a socket loses, repeats and reorders nothing: whatever the socket answers,
  the bytes it took followed by the bytes left in the buffer are the bytes that were in the
  buffer; success means that nothing is left and that the last write was flushed.
\<close>

theorem poll_write_conserves:
  assumes "buf_ok b"
  shows "case poll_write as b st of (r, b', st', sent) \<Rightarrow>
     sent @ read_buf b' = read_buf b \<and> buf_ok b' \<and>
     (r = PollOk \<longrightarrow> read_buf b' = [] \<and> st' = Idle)"
  by (rule poll_write_queue [OF assms])

theorem poll_write_conserves_witness:
  "case poll_write [Ready 2, NotReady] (write_bytes [1, 2, 3] buf_new) Idle of (r, b', st', sent) \<Rightarrow>
     sent @ read_buf b' = read_buf (write_bytes [1, 2, 3] buf_new) \<and> buf_ok b' \<and>
     (r = PollOk \<longrightarrow> read_buf b' = [] \<and> st' = Idle)"
  by (rule poll_write_conserves) (simp add: buf_ok_write_bytes)

lemma poll_read_ok:
  assumes "buf_ok b" "poll_read a b = (r, b')"
  shows "buf_ok b' \<and> (length (buf_data b) \<le> MAX_CAPACITY \<longrightarrow> length (buf_data b') \<le> MAX_CAPACITY) \<and>
    (case a of
       Ready bs \<Rightarrow> (r = PollOk \<longrightarrow> bs \<noteq> [] \<and> read_buf b' = read_buf b @ take READ_CAP bs) \<and>
         (r \<noteq> PollOk \<longrightarrow> r = PollErr \<and> read_buf b' = read_buf b \<and>
            (bs = [] \<or> MAX_CAPACITY < buf_write b + READ_CAP))
     | _ \<Rightarrow> r \<noteq> PollOk \<and> read_buf b' = read_buf b)"
proof -
  have space: "buf_ok c \<and> read_buf c = read_buf b \<and> buf_write c = buf_write b \<and>
      buf_write b + READ_CAP \<le> length (buf_data c) \<and>
      (length (buf_data b) \<le> MAX_CAPACITY \<longrightarrow> length (buf_data c) \<le> MAX_CAPACITY)"
    if "write_buf b = Some c" for c
    using that assms(1)
    by (auto simp: write_buf_def Let_def resize_def buf_ok_def read_buf_def slice_def
        split: if_splits)
  have fill: "advance (length bs) (c\<lparr>buf_data := overwrite (buf_write c) bs (buf_data c)\<rparr>) =
      write_bytes bs c" if "buf_ok c" for c bs
    using that by (simp add: write_bytes_eq advance_def overwrite_def)
  show ?thesis
  proof (cases "write_buf b")
    case None
    then have "MAX_CAPACITY < buf_write b + READ_CAP"
      by (simp add: write_buf_def Let_def split: if_splits)
    with None assms show ?thesis by (cases a) (auto simp: poll_read_def)
  next
    case (Some c)
    note c = space [OF Some]
    show ?thesis
    proof (cases a)
      case (Ready bs)
      have len: "buf_write c + length (take READ_CAP bs) \<le> length (buf_data c)"
        using c by (simp add: le_trans [OF add_left_mono [OF min.cobounded2]])
      have len': "length (buf_data (write_bytes (take READ_CAP bs) c)) = length (buf_data c)"
        using c len by (simp add: write_bytes_eq)
      have "poll_read (Ready bs) b =
          (if bs = [] then (PollErr, c) else (PollOk, write_bytes (take READ_CAP bs) c))"
        using Some c fill [of c "take READ_CAP bs"]
        by (auto simp: poll_read_def Let_def READ_CAP_def)
      with c Ready assms(2) len' show ?thesis
        by (auto simp: buf_ok_write_bytes read_buf_write_bytes split: if_splits)
    qed (use assms(2) Some c in \<open>auto simp: poll_read_def\<close>)
  qed
qed

subsection \<open>Peers\<close>

record Codec =
  c_header :: "Header \<Rightarrow> bytes \<times> bool"
  c_event :: "Event \<Rightarrow> bytes \<times> bool"
  c_dec_header :: "bytes \<Rightarrow> (Header \<times> bytes) option"
  c_dec_event :: "Kind \<Rightarrow> bytes \<Rightarrow> Event option"
  c_dec_error :: "bytes \<Rightarrow> string option"
  c_error_id :: u16
  c_id :: "Kind \<Rightarrow> u16"
  c_from_id :: "u16 \<Rightarrow> Kind option"

record Client =
  cl_tls :: bool
  cl_state :: StreamState

datatype ReadState = RIdle | Recv nat

record Peer =
  p_client :: Client
  p_read :: Buf
  p_write :: Buf
  p_scratch :: bytes
  p_state :: ReadState

definition client_plain :: Client where
  "client_plain = \<lparr>cl_tls = False, cl_state = Idle\<rparr>"

definition client_tls :: Client where
  "client_tls = \<lparr>cl_tls = True, cl_state = Idle\<rparr>"

definition peer_new :: "Client \<Rightarrow> Peer" where
  "peer_new client =
     \<lparr>p_client = client, p_read = buf_new, p_write = buf_new, p_scratch = [], p_state = RIdle\<rparr>"

definition MAX_MESSAGE :: nat where
  "MAX_MESSAGE = 1024 * 1024 * 10"

definition VERSION :: u32 where
  "VERSION = 1"

definition scratch_send :: "Codec \<Rightarrow> Event \<Rightarrow> bytes \<Rightarrow> bool \<times> bytes" where
  "scratch_send c e scratch =
     (case c_header c (Header (c_id c (event_kind e)) 0) of
        (h, False) \<Rightarrow> (False, scratch @ h)
      | (h, True) \<Rightarrow>
          (case c_event c e of (b, done) \<Rightarrow> (done, scratch @ h @ b)))"

definition peer_send :: "Codec \<Rightarrow> Event \<Rightarrow> Peer \<Rightarrow> bool \<times> Peer" where
  "peer_send c e p =
     (case scratch_send c e (p_scratch p) of
        (False, scratch) \<Rightarrow> (False, p\<lparr>p_scratch := scratch\<rparr>)
      | (True, scratch) \<Rightarrow>
          (case write_message scratch (p_write p) of
             (scratch, w) \<Rightarrow> (True, p\<lparr>p_scratch := scratch, p_write := w\<rparr>)))"

datatype ReadError =
    TooLarge nat
  | BadHeader
  | BadErrorMessage
  | RemoteError string
  | InvalidRequest u16

definition read_body ::
    "Codec \<Rightarrow> bytes \<Rightarrow> ReadError + (Kind option \<times> bytes)" where
  "read_body c body =
     (case c_dec_header c body of
        None \<Rightarrow> Inl BadHeader
      | Some (header, rest) \<Rightarrow>
          if header_error header \<noteq> 0 then
            (if header_error header = c_error_id c then
               (case c_dec_error c rest of
                  None \<Rightarrow> Inl BadErrorMessage
                | Some message \<Rightarrow> Inl (RemoteError message))
             else Inl (RemoteError ''Unknown error''))
          else if header_request header = 0 then Inl (InvalidRequest (header_request header))
          else Inr (c_from_id c (header_request header), rest))"

definition peer_recv ::
    "Codec \<Rightarrow> nat \<Rightarrow> Peer \<Rightarrow> (ReadError + (Kind option \<times> bytes) option) \<times> Peer" where
  "peer_recv c len p =
     (case read_slice len (p_read p) of
        (None, b) \<Rightarrow> (Inr None, p\<lparr>p_read := b\<rparr>)
      | (Some body, b) \<Rightarrow>
          (case read_body c body of
             Inl e \<Rightarrow> (Inl e, p\<lparr>p_read := b\<rparr>)
           | Inr m \<Rightarrow> (Inr (Some m), p\<lparr>p_read := b, p_state := RIdle\<rparr>)))"

text \<open>
  \<open>read\<close>: its loop runs at most twice, once from \<open>Idle\<close> to \<open>Recv\<close> and once to the result.
\<close>

definition peer_read ::
    "Codec \<Rightarrow> Peer \<Rightarrow> (ReadError + (Kind option \<times> bytes) option) \<times> Peer" where
  "peer_read c p =
     (case p_state p of
        RIdle \<Rightarrow>
          (case read_array 4 (p_read p) of
             (None, b) \<Rightarrow> (Inr None, p\<lparr>p_read := b\<rparr>)
           | (Some hdr, b) \<Rightarrow>
               let len = unat (u32_from_be hdr)
               in if len > MAX_MESSAGE then (Inl (TooLarge len), p\<lparr>p_read := b\<rparr>)
                  else peer_recv c len (p\<lparr>p_read := b, p_state := Recv len\<rparr>))
      | Recv len \<Rightarrow> peer_recv c len p)"

definition peer_poll ::
    "nat Answer list \<Rightarrow> bytes Answer \<Rightarrow> Peer \<Rightarrow> Poll \<times> Peer \<times> bytes" where
  "peer_poll writes reads p =
     (case poll_write writes (p_write p) (cl_state (p_client p)) of
        (wr, w, st, sent) \<Rightarrow>
          (case poll_read reads (p_read p) of
             (rr, r) \<Rightarrow>
               let p' = p\<lparr>p_write := w, p_read := r,
                          p_client := (p_client p)\<lparr>cl_state := st\<rparr>\<rparr>
               in if wr = PollErr then (PollErr, p', sent)
                  else if rr \<noteq> PollPending then (rr, p', sent)
                  else (PollPending, p', sent)))"

subsection \<open>The messages a peer sends\<close>

definition peer_challenge :: "Codec \<Rightarrow> bytes \<Rightarrow> Peer \<Rightarrow> bool \<times> Peer" where
  "peer_challenge c nonce = peer_send c (Challenge (ChallengeBody nonce))"

definition peer_hello :: "Codec \<Rightarrow> Peer \<Rightarrow> bool \<times> Peer" where
  "peer_hello c = peer_send c (Hello (HelloBody VERSION))"

definition peer_connect ::
    "Codec \<Rightarrow> PublicKey \<Rightarrow> Signature \<Rightarrow> RemoteObject list \<Rightarrow> RemoteImage list \<Rightarrow> Properties \<Rightarrow>
     Peer \<Rightarrow> bool \<times> Peer" where
  "peer_connect c public_key signature objects images props =
     peer_send c (Connect \<lparr>cb_public_key = public_key, cb_signature = signature,
       cb_objects = objects, cb_images = images, cb_props = props\<rparr>)"

definition peer_ping :: "Codec \<Rightarrow> u64 \<Rightarrow> Peer \<Rightarrow> bool \<times> Peer" where
  "peer_ping c payload = peer_send c (Ping (PingBody payload))"

definition peer_pong :: "Codec \<Rightarrow> u64 \<Rightarrow> Peer \<Rightarrow> bool \<times> Peer" where
  "peer_pong c payload = peer_send c (Pong (PongBody payload))"

definition peer_connected ::
    "Codec \<Rightarrow> PublicKey \<Rightarrow> PeerId \<Rightarrow> Properties \<Rightarrow> Peer \<Rightarrow> bool \<times> Peer" where
  "peer_connected c public_key peer_id props =
     peer_send c (PeerConnected (PeerConnectedBody public_key peer_id props))"

definition peer_join :: "Codec \<Rightarrow> PeerId \<Rightarrow> RemoteObject list \<Rightarrow> Peer \<Rightarrow> bool \<times> Peer" where
  "peer_join c peer_id objects = peer_send c (PeerJoin (PeerJoinBody peer_id objects))"

definition peer_update :: "Codec \<Rightarrow> Key \<Rightarrow> Value \<Rightarrow> Peer \<Rightarrow> bool \<times> Peer" where
  "peer_update c key v = peer_send c (PeerUpdate (PeerUpdateBody key v))"

definition peer_updated :: "Codec \<Rightarrow> PeerId \<Rightarrow> Key \<Rightarrow> Value \<Rightarrow> Peer \<Rightarrow> bool \<times> Peer" where
  "peer_updated c peer_id key v = peer_send c (PeerUpdated (PeerUpdatedBody peer_id key v))"

definition peer_disconnected :: "Codec \<Rightarrow> PeerId \<Rightarrow> Peer \<Rightarrow> bool \<times> Peer" where
  "peer_disconnected c i = peer_send c (PeerDisconnect (PeerDisconnectBody i))"

definition peer_leave :: "Codec \<Rightarrow> PeerId \<Rightarrow> Peer \<Rightarrow> bool \<times> Peer" where
  "peer_leave c i = peer_send c (PeerLeave (PeerLeaveBody i))"

definition peer_object_update :: "Codec \<Rightarrow> Id \<Rightarrow> Key \<Rightarrow> Value \<Rightarrow> Peer \<Rightarrow> bool \<times> Peer" where
  "peer_object_update c i key v = peer_send c (ObjectUpdate (ObjectUpdateBody i key v))"

definition peer_object_updated ::
    "Codec \<Rightarrow> PeerId \<Rightarrow> Id \<Rightarrow> Key \<Rightarrow> Value \<Rightarrow> Peer \<Rightarrow> bool \<times> Peer" where
  "peer_object_updated c peer_id object_id key v =
     peer_send c (ObjectUpdated (ObjectUpdatedBody peer_id object_id key v))"

definition peer_object_create :: "Codec \<Rightarrow> RemoteObject \<Rightarrow> Peer \<Rightarrow> bool \<times> Peer" where
  "peer_object_create c object = peer_send c (ObjectCreate (ObjectCreateBody object))"

definition peer_object_remove :: "Codec \<Rightarrow> Id \<Rightarrow> Peer \<Rightarrow> bool \<times> Peer" where
  "peer_object_remove c object_id = peer_send c (ObjectRemove (ObjectRemoveBody object_id))"

definition peer_object_removed :: "Codec \<Rightarrow> PeerId \<Rightarrow> Id \<Rightarrow> Peer \<Rightarrow> bool \<times> Peer" where
  "peer_object_removed c peer_id object_id =
     peer_send c (ObjectRemoved (ObjectRemovedBody peer_id object_id))"

definition peer_object_created :: "Codec \<Rightarrow> PeerId \<Rightarrow> RemoteObject \<Rightarrow> Peer \<Rightarrow> bool \<times> Peer" where
  "peer_object_created c peer_id object =
     peer_send c (ObjectCreated (ObjectCreatedBody peer_id object))"

definition peer_image_create :: "Codec \<Rightarrow> RemoteImage \<Rightarrow> Peer \<Rightarrow> bool \<times> Peer" where
  "peer_image_create c img = peer_send c (ImageCreate (ImageCreateBody img))"

definition peer_image_created :: "Codec \<Rightarrow> PeerId \<Rightarrow> RemoteImage \<Rightarrow> Peer \<Rightarrow> bool \<times> Peer" where
  "peer_image_created c peer_id img =
     peer_send c (ImageCreated (ImageCreatedBody peer_id img))"

definition peer_image_remove :: "Codec \<Rightarrow> Id \<Rightarrow> Peer \<Rightarrow> bool \<times> Peer" where
  "peer_image_remove c image_id = peer_send c (ImageRemove (ImageRemoveBody image_id))"

definition peer_image_removed :: "Codec \<Rightarrow> PeerId \<Rightarrow> Id \<Rightarrow> Peer \<Rightarrow> bool \<times> Peer" where
  "peer_image_removed c peer_id image_id =
     peer_send c (ImageRemoved (ImageRemovedBody peer_id image_id))"

lemmas peer_senders =
  peer_challenge_def peer_hello_def peer_connect_def peer_ping_def peer_pong_def
  peer_connected_def peer_join_def peer_update_def peer_updated_def peer_disconnected_def
  peer_leave_def peer_object_update_def peer_object_updated_def peer_object_create_def
  peer_object_remove_def peer_object_removed_def peer_object_created_def
  peer_image_create_def peer_image_created_def peer_image_remove_def peer_image_removed_def

text \<open>A loop that returns at the first failure.\<close>

fun try_each :: "('a \<Rightarrow> Peer \<Rightarrow> bool \<times> Peer) \<Rightarrow> 'a list \<Rightarrow> Peer \<Rightarrow> bool \<times> Peer" where
  "try_each f [] p = (True, p)"
| "try_each f (x # xs) p =
     (case f x p of
        (False, p') \<Rightarrow> (False, p')
      | (True, p') \<Rightarrow> try_each f xs p')"

subsection \<open>The peer refines a parser of byte strings\<close>

definition pending :: "Peer \<Rightarrow> bytes" where
  "pending p =
     (case p_state p of RIdle \<Rightarrow> [] | Recv n \<Rightarrow> u32_to_be (of_nat n)) @ read_buf (p_read p)"

definition peer_ok :: "Peer \<Rightarrow> bool" where
  "peer_ok p \<longleftrightarrow>
     buf_ok (p_read p) \<and> buf_ok (p_write p) \<and>
     (case p_state p of RIdle \<Rightarrow> True | Recv n \<Rightarrow> n \<le> MAX_MESSAGE)"

definition read_spec ::
    "Codec \<Rightarrow> bytes \<Rightarrow> (ReadError + (Kind option \<times> bytes) option) \<times> bytes" where
  "read_spec c bs =
     (if length bs < 4 then (Inr None, bs)
      else let n = unat (u32_from_be (take 4 bs))
           in if n > MAX_MESSAGE then (Inl (TooLarge n), drop 4 bs)
              else if length bs < 4 + n then (Inr None, bs)
              else case read_body c (take n (drop 4 bs)) of
                     Inl e \<Rightarrow> (Inl e, take 4 bs @ drop (4 + n) bs)
                   | Inr m \<Rightarrow> (Inr (Some m), drop (4 + n) bs))"

lemma peer_ok_new [simp]: "peer_ok (peer_new cl)"
  by (simp add: peer_ok_def peer_new_def)

lemma peer_new_parts [simp]:
  "p_scratch (peer_new cl) = []" "read_buf (p_write (peer_new cl)) = []"
  "buf_write (p_read (peer_new cl)) = 0"
  by (simp_all add: peer_new_def) (simp add: buf_new_def)

lemma pending_new [simp]: "pending (peer_new cl) = []"
  by (simp add: pending_def peer_new_def)

lemma unat_of_nat_message: "n \<le> MAX_MESSAGE \<Longrightarrow> unat (of_nat n :: u32) = n"
  by (simp add: MAX_MESSAGE_def unat_of_nat)

lemma read_spec_header:
  assumes "n \<le> MAX_MESSAGE"
  shows "read_spec c (u32_to_be (of_nat n) @ bs) =
    (if length bs < n then (Inr None, u32_to_be (of_nat n) @ bs)
     else case read_body c (take n bs) of
            Inl e \<Rightarrow> (Inl e, u32_to_be (of_nat n) @ drop n bs)
          | Inr m \<Rightarrow> (Inr (Some m), drop n bs))"
  using assms by (simp add: read_spec_def Let_def unat_of_nat_message split: sum.split)

lemma buf_write_read_slice: "buf_write (snd (read_slice n b)) \<le> buf_write b"
  by (simp add: read_slice_def advance_read_def Let_def)

lemma peer_recv_refines:
  assumes "peer_ok p" "p_state p = Recv n" "peer_recv c n p = (r, p')"
  shows "read_spec c (pending p) = (r, pending p') \<and> peer_ok p' \<and>
    p' = p\<lparr>p_read := p_read p', p_state := p_state p'\<rparr> \<and>
    buf_write (p_read p') \<le> buf_write (p_read p)"
proof -
  let ?h = "u32_to_be (of_nat n)"
  have ok: "buf_ok (p_read p)" and n: "n \<le> MAX_MESSAGE" "unat (of_nat n :: u32) = n"
    using assms(1, 2) by (simp_all add: peer_ok_def unat_of_nat_message)
  have pend: "pending p = ?h @ read_buf (p_read p)" using assms(2) by (simp add: pending_def)
  have wr: "buf_write (p_read p') \<le> buf_write (p_read p)"
    using assms(3) buf_write_read_slice [of n "p_read p"]
    by (auto simp: peer_recv_def split: prod.splits option.splits sum.splits)
  show ?thesis
    using ok
  proof (cases rule: bufq.pop_cases [of "p_read p" n])
    case short
    then have "r = Inr None" "p' = p"
      using assms(3) by (simp_all add: peer_recv_def)
    with short assms(1) n show ?thesis
      by (simp add: read_spec_header pend del: length_read_buf)
  next
    case (enough b)
    show ?thesis
    proof (cases "read_body c (take n (read_buf (p_read p)))")
      case (Inl e)
      with enough assms(2, 3) have "r = Inl e" "p' = p\<lparr>p_read := b\<rparr>"
        by (simp_all add: peer_recv_def)
      with enough assms(1, 2) n wr Inl show ?thesis
        by (simp add: read_spec_header pend pending_def peer_ok_def not_less del: length_read_buf)
    next
      case (Inr m)
      with enough assms(2, 3) have "r = Inr (Some m)" "p' = p\<lparr>p_read := b, p_state := RIdle\<rparr>"
        by (simp_all add: peer_recv_def)
      with enough assms(1, 2) n wr Inr show ?thesis
        by (simp add: read_spec_header pend pending_def peer_ok_def not_less del: length_read_buf)
    qed
  qed
qed

lemma peer_read_parses:
  assumes "peer_ok p"
  shows "case peer_read c p of (r, p') \<Rightarrow>
     read_spec c (pending p) = (r, pending p') \<and> peer_ok p' \<and>
     p' = p\<lparr>p_read := p_read p', p_state := p_state p'\<rparr> \<and>
     buf_write (p_read p') \<le> buf_write (p_read p)"
proof (cases "p_state p")
  case (Recv n)
  with peer_recv_refines [OF assms Recv] show ?thesis by (auto simp: peer_read_def)
next
  case RIdle
  have ok: "buf_ok (p_read p)" and pend: "pending p = read_buf (p_read p)"
    using assms RIdle by (simp_all add: peer_ok_def pending_def)
  show ?thesis
    using ok
  proof (cases rule: bufq.pop_cases [of "p_read p" 4])
    case short
    with ok assms RIdle pend show ?thesis
      by (simp add: peer_read_def read_array_slice read_spec_def del: length_read_buf)
  next
    case (enough b)
    define hdr where "hdr = take 4 (read_buf (p_read p))"
    define len where "len = unat (u32_from_be hdr)"
    let ?q = "p\<lparr>p_read := b, p_state := Recv len\<rparr>"
    have hdr: "length hdr = 4" using enough(1) by (simp add: hdr_def)
    have wr: "buf_write b \<le> buf_write (p_read p)"
      using buf_write_read_slice [of 4 "p_read p"] enough(2) by simp
    have read: "peer_read c p =
        (if len > MAX_MESSAGE then (Inl (TooLarge len), p\<lparr>p_read := b\<rparr>)
         else peer_recv c len ?q)"
      using enough(2) ok RIdle
      by (simp add: peer_read_def read_array_slice Let_def len_def hdr_def)
    show ?thesis
    proof (cases "len > MAX_MESSAGE")
      case True
      with enough read assms RIdle pend wr show ?thesis
        by (simp add: read_spec_def Let_def len_def hdr_def pending_def peer_ok_def
            del: length_read_buf)
    next
      case False
      have "pending ?q = pending p"
        using hdr enough(1, 3) by (simp add: pending_def RIdle len_def u32_to_from_be hdr_def)
      moreover have "peer_ok ?q" using assms enough(4) False by (simp add: peer_ok_def)
      ultimately show ?thesis
        using peer_recv_refines [of ?q len c] wr
        by (auto simp: read False not_less split: prod.split)
    qed
  qed
qed

text \<open>A codec for ping messages with a one-byte payload, used by the witnesses.\<close>

definition ping_codec :: Codec where
  "ping_codec =
     \<lparr>c_header = (\<lambda>h. ([ucast (header_request h), ucast (header_error h)], True)),
      c_event = (\<lambda>e. (case e of Ping b \<Rightarrow> [ucast (pib_payload b)] | _ \<Rightarrow> [], True)),
      c_dec_header = (\<lambda>bs. case bs of
          r # e # rest \<Rightarrow> Some (Header (ucast r) (ucast e), rest) | _ \<Rightarrow> None),
      c_dec_event = (\<lambda>k bs. case bs of
          [b] \<Rightarrow> if k = K_Ping then Some (Ping (PingBody (ucast b))) else None | _ \<Rightarrow> None),
      c_dec_error = (\<lambda>bs. None),
      c_error_id = 1,
      c_id = (\<lambda>k. if k = K_Ping then 2 else 3),
      c_from_id = (\<lambda>i. if i = 2 then Some K_Ping else None)\<rparr>"

text \<open>
  C23. Reading a message from a peer refines a parser that works on the whole byte string
  received so far and not yet consumed: in every state (between messages or in the middle
  of one) the result, error or message is the parser's, and the bytes left are the parser's.
\<close>

theorem peer_read_refines:
  assumes "peer_ok p"
  shows "case peer_read c p of (r, p') \<Rightarrow>
     read_spec c (pending p) = (r, pending p') \<and> peer_ok p' \<and>
     p' = p\<lparr>p_read := p_read p', p_state := p_state p'\<rparr> \<and>
     buf_write (p_read p') \<le> buf_write (p_read p)"
  by (rule peer_read_parses [OF assms])

theorem peer_read_refines_witness:
  "case peer_read ping_codec (peer_new client_plain) of (r, p') \<Rightarrow>
     read_spec ping_codec (pending (peer_new client_plain)) = (r, pending p') \<and> peer_ok p' \<and>
     p' = (peer_new client_plain)\<lparr>p_read := p_read p', p_state := p_state p'\<rparr> \<and>
     buf_write (p_read p') \<le> buf_write (p_read (peer_new client_plain))"
  by (rule peer_read_refines) simp

subsection \<open>Sending\<close>

definition body_of :: "Codec \<Rightarrow> Event \<Rightarrow> bytes" where
  "body_of c e = fst (c_header c (Header (c_id c (event_kind e)) 0)) @ fst (c_event c e)"

definition frame :: "Codec \<Rightarrow> Event \<Rightarrow> bytes" where
  "frame c e = u32_to_be (of_nat (length (body_of c e))) @ body_of c e"

definition encodable :: "Codec \<Rightarrow> Event \<Rightarrow> bool" where
  "encodable c e \<longleftrightarrow>
     snd (c_header c (Header (c_id c (event_kind e)) 0)) \<and> snd (c_event c e) \<and>
     length (body_of c e) < 2 ^ 32"

lemma peer_send_encodable:
  assumes "peer_ok p" "p_scratch p = []" "encodable c e" "peer_send c e p = (ok, p')"
  shows "ok \<and> peer_ok p' \<and> p_scratch p' = [] \<and>
    read_buf (p_write p') = read_buf (p_write p) @ frame c e \<and>
    p' = p\<lparr>p_write := p_write p'\<rparr>"
proof -
  obtain h b where h: "c_header c (Header (c_id c (event_kind e)) 0) = (h, True)"
    and b: "c_event c e = (b, True)"
    using assms(3) by (auto simp: encodable_def prod_eq_iff)
  then have "body_of c e = h @ b" by (simp add: body_of_def)
  with assms h b show ?thesis
    by (auto simp: peer_send_def scratch_send_def write_message_def encodable_def frame_def
        peer_ok_def read_buf_write_bytes buf_ok_write_bytes)
qed

lemma peer_send_keeps_read:
  "peer_send c e p = (ok, p') \<Longrightarrow>
     p_read p' = p_read p \<and> p_state p' = p_state p \<and> p_client p' = p_client p"
  by (auto simp: peer_send_def split: prod.splits bool.splits)

lemma peer_ok_send: "peer_ok p \<Longrightarrow> peer_ok (snd (peer_send c e p))"
  by (auto simp: peer_send_def peer_ok_def write_message_def buf_ok_write_bytes
      split: prod.splits bool.splits)

fun send_all :: "Codec \<Rightarrow> Event list \<Rightarrow> Peer \<Rightarrow> bool \<times> Peer" where
  "send_all c [] p = (True, p)"
| "send_all c (e # es) p =
     (case peer_send c e p of
        (False, p') \<Rightarrow> (False, p')
      | (True, p') \<Rightarrow> send_all c es p')"

lemma send_all_frames:
  "peer_ok p \<Longrightarrow> p_scratch p = [] \<Longrightarrow> \<forall>e\<in>set es. encodable c e \<Longrightarrow>
     (case send_all c es p of (ok, p') \<Rightarrow>
        ok \<and> read_buf (p_write p') = read_buf (p_write p) @ concat (map (frame c) es))"
proof (induction es arbitrary: p)
  case Nil
  then show ?case by simp
next
  case (Cons e es)
  obtain ok p' where p': "peer_send c e p = (ok, p')" by (cases "peer_send c e p")
  with peer_send_encodable [OF Cons.prems(1, 2) _ p'] Cons.prems(3) Cons.IH [of p']
  show ?case by (auto split: prod.splits)
qed

subsection \<open>The round trip\<close>

text \<open>
  A reader is fed chunks of bytes by its socket and tries to read messages, in any order.
\<close>

datatype Action = Feed bytes | TryRead

fun fed :: "Action list \<Rightarrow> bytes" where
  "fed [] = []"
| "fed (Feed bs # as) = bs @ fed as"
| "fed (TryRead # as) = fed as"

fun reader :: "Codec \<Rightarrow> Action list \<Rightarrow> Peer \<Rightarrow> ((Kind option \<times> bytes) list \<times> Peer) option" where
  "reader c [] p = Some ([], p)"
| "reader c (Feed bs # as) p =
     (case poll_read (Ready bs) (p_read p) of
        (PollOk, b) \<Rightarrow> reader c as (p\<lparr>p_read := b\<rparr>)
      | _ \<Rightarrow> None)"
| "reader c (TryRead # as) p =
     (case peer_read c p of
        (Inl e, p') \<Rightarrow> None
      | (Inr None, p') \<Rightarrow> reader c as p'
      | (Inr (Some m), p') \<Rightarrow> map_option (\<lambda>(ms, q). (m # ms, q)) (reader c as p'))"

definition chunks_ok :: "Action list \<Rightarrow> bool" where
  "chunks_ok as \<longleftrightarrow> (\<forall>bs. Feed bs \<in> set as \<longrightarrow> bs \<noteq> [] \<and> length bs \<le> READ_CAP)"

definition codec_for :: "Codec \<Rightarrow> Event \<Rightarrow> bool" where
  "codec_for c e \<longleftrightarrow>
     snd (c_header c (Header (c_id c (event_kind e)) 0)) \<and> snd (c_event c e) \<and>
     length (body_of c e) \<le> MAX_MESSAGE \<and>
     (\<forall>rest. c_dec_header c (fst (c_header c (Header (c_id c (event_kind e)) 0)) @ rest) =
        Some (Header (c_id c (event_kind e)) 0, rest)) \<and>
     c_id c (event_kind e) \<noteq> 0 \<and> c_from_id c (c_id c (event_kind e)) = Some (event_kind e) \<and>
     c_dec_event c (event_kind e) (fst (c_event c e)) = Some e"

definition message_of :: "Codec \<Rightarrow> Event \<Rightarrow> Kind option \<times> bytes" where
  "message_of c e = (Some (event_kind e), fst (c_event c e))"

fun decode_message :: "Codec \<Rightarrow> Kind option \<times> bytes \<Rightarrow> Event option" where
  "decode_message c (None, body) = None"
| "decode_message c (Some k, body) = c_dec_event c k body"

lemma codec_for_encodable: "codec_for c e \<Longrightarrow> encodable c e"
  by (auto simp: codec_for_def encodable_def MAX_MESSAGE_def)

lemma read_body_of: "codec_for c e \<Longrightarrow> read_body c (body_of c e) = Inr (message_of c e)"
  by (simp add: codec_for_def read_body_def body_of_def message_of_def)

lemma read_spec_frame:
  assumes "codec_for c e" "bs @ rem = frame c e @ rest"
  shows "read_spec c bs =
    (if length bs < length (frame c e) then (Inr None, bs)
     else (Inr (Some (message_of c e)), drop (length (frame c e)) bs))"
proof (cases "length bs < 4")
  case True
  then show ?thesis by (simp add: read_spec_def frame_def)
next
  case False
  let ?n = "length (body_of c e)"
  have n: "?n \<le> MAX_MESSAGE" using assms(1) by (simp add: codec_for_def)
  have "take 4 (bs @ rem) = u32_to_be (of_nat ?n)"
    by (simp add: assms(2) frame_def)
  with False have "take 4 bs = u32_to_be (of_nat ?n)" by simp
  then have bs: "bs = u32_to_be (of_nat ?n) @ drop 4 bs"
    by (metis append_take_drop_id)
  then obtain tl where tl: "bs = u32_to_be (of_nat ?n) @ tl" by blast
  from assms(2) have "tl @ rem = body_of c e @ rest" by (simp add: tl frame_def)
  then have "take ?n (tl @ rem) = body_of c e" by simp
  then have "\<not> length tl < ?n \<Longrightarrow> take ?n tl = body_of c e" by simp
  then show ?thesis
    using n by (simp add: tl read_spec_header frame_def read_body_of [OF assms(1)])
qed

lemma reader_append:
  "reader c (as @ bs) p =
     (case reader c as p of
        None \<Rightarrow> None
      | Some (ms, q) \<Rightarrow> map_option (\<lambda>(ns, r). (ms @ ns, r)) (reader c bs q))"
proof (induction as arbitrary: p)
  case Nil
  then show ?case by (cases "reader c bs p") auto
next
  case (Cons a as)
  show ?case
  proof (cases a)
    case (Feed xs)
    with Cons.IH show ?thesis by (auto split: prod.split Poll.split)
  next
    case TryRead
    obtain r p' where "peer_read c p = (r, p')" by (cases "peer_read c p")
    with TryRead Cons.IH [of p'] show ?thesis
      by (auto simp: option.map_comp o_def split_def split: sum.split option.split)
  qed
qed

lemma feed_step:
  assumes "peer_ok p" "bs \<noteq> []" "length bs \<le> READ_CAP"
    and room: "buf_write (p_read p) + length bs + READ_CAP \<le> MAX_CAPACITY"
  obtains b where "poll_read (Ready bs) (p_read p) = (PollOk, b)"
    "peer_ok (p\<lparr>p_read := b\<rparr>)" "pending (p\<lparr>p_read := b\<rparr>) = pending p @ bs"
    "buf_write b = buf_write (p_read p) + length bs"
proof -
  obtain r b where rb: "poll_read (Ready bs) (p_read p) = (r, b)"
    by (cases "poll_read (Ready bs) (p_read p)")
  have ok: "buf_ok (p_read p)" using assms(1) by (simp add: peer_ok_def)
  note res = poll_read_ok [OF ok rb]
  have r: "r = PollOk" using res assms(2) room by (cases "r = PollOk") auto
  with rb have "buf_write b = buf_write (p_read p) + length bs"
    using assms(2, 3)
    by (auto simp: poll_read_def write_buf_def Let_def advance_def split: if_splits)
  with res r rb assms show thesis
    by (intro that [of b]) (auto simp: peer_ok_def pending_def)
qed

lemma read_step:
  assumes "peer_ok p" "\<forall>e\<in>set es. codec_for c e"
    and "pending p @ rem = concat (map (frame c) es)"
  obtains (none) p' where "peer_read c p = (Inr None, p')" "peer_ok p'" "pending p' = pending p"
      "buf_write (p_read p') \<le> buf_write (p_read p)" "rem = [] \<Longrightarrow> es = []"
    | (some) p' e es' where "peer_read c p = (Inr (Some (message_of c e)), p')" "peer_ok p'"
      "es = e # es'" "pending p' @ rem = concat (map (frame c) es')"
      "buf_write (p_read p') \<le> buf_write (p_read p)"
proof -
  obtain r p' where rp: "peer_read c p = (r, p')" by (cases "peer_read c p")
  have ref: "read_spec c (pending p) = (r, pending p')" "peer_ok p'"
      "buf_write (p_read p') \<le> buf_write (p_read p)"
    using peer_read_parses [OF assms(1), of c] rp by auto
  show thesis
  proof (cases es)
    case Nil
    with assms(3) have "read_spec c (pending p) = (Inr None, pending p)"
      by (simp add: read_spec_def)
    with ref rp Nil none show thesis by simp
  next
    case (Cons e es')
    have spec: "read_spec c (pending p) =
        (if length (pending p) < length (frame c e) then (Inr None, pending p)
         else (Inr (Some (message_of c e)), drop (length (frame c e)) (pending p)))"
      using assms(2, 3) Cons by (intro read_spec_frame [of c e _ rem "concat (map (frame c) es')"]) auto
    show thesis
    proof (cases "length (pending p) < length (frame c e)")
      case True
      have "rem \<noteq> []" using True assms(3) Cons by auto
      with True spec ref rp none show thesis by simp
    next
      case False
      have "drop (length (frame c e)) (pending p @ rem) = concat (map (frame c) es')"
        using assms(3) Cons by simp
      with False spec ref rp some Cons show thesis by simp
    qed
  qed
qed

lemma reader_progress:
  assumes "\<forall>e\<in>set es. codec_for c e" "chunks_ok as" "peer_ok p"
    and "pending p @ fed as @ rem = concat (map (frame c) es)"
    and "buf_write (p_read p) + length (fed as) + READ_CAP \<le> MAX_CAPACITY"
  shows "\<exists>k p'. reader c as p = Some (map (message_of c) (take k es), p') \<and> peer_ok p' \<and>
    pending p' @ rem = concat (map (frame c) (drop k es))"
  using assms
proof (induction as arbitrary: p es)
  case Nil
  then show ?case by (intro exI [of _ 0] exI [of _ p]) simp
next
  case (Cons a as)
  show ?case
  proof (cases a)
    case (Feed bs)
    with Cons.prems have bs: "bs \<noteq> []" "length bs \<le> READ_CAP"
      "buf_write (p_read p) + length bs + READ_CAP \<le> MAX_CAPACITY"
      by (auto simp: chunks_ok_def)
    obtain b where b: "poll_read (Ready bs) (p_read p) = (PollOk, b)"
      "peer_ok (p\<lparr>p_read := b\<rparr>)" "pending (p\<lparr>p_read := b\<rparr>) = pending p @ bs"
      "buf_write b = buf_write (p_read p) + length bs"
      using feed_step [OF Cons.prems(3) bs] .
    with Cons.prems Feed Cons.IH [of es "p\<lparr>p_read := b\<rparr>"] show ?thesis
      by (simp add: chunks_ok_def)
  next
    case TryRead
    have "pending p @ (fed as @ rem) = concat (map (frame c) es)"
      using Cons.prems(4) TryRead by simp
    with Cons.prems(3, 1) show ?thesis
    proof (cases rule: read_step)
      case (none p')
      with Cons.prems TryRead Cons.IH [of es p'] show ?thesis
        by (simp add: chunks_ok_def)
    next
      case (some p' e es')
      with Cons.prems TryRead
      obtain k q where "reader c as p' = Some (map (message_of c) (take k es'), q)" "peer_ok q"
        "pending q @ rem = concat (map (frame c) (drop k es'))"
        using Cons.IH [of es' p'] by (auto simp: chunks_ok_def)
      with some TryRead show ?thesis
        by (intro exI [of _ "Suc k"] exI [of _ q]) simp
    qed
  qed
qed

lemma reader_drain:
  assumes "\<forall>e\<in>set es. codec_for c e" "peer_ok p" "pending p = concat (map (frame c) es)"
    and "length es \<le> n"
  shows "\<exists>p'. reader c (replicate n TryRead) p = Some (map (message_of c) es, p') \<and>
    pending p' = []"
  using assms
proof (induction n arbitrary: p es)
  case 0
  then show ?case by simp
next
  case (Suc n)
  have "pending p @ [] = concat (map (frame c) es)" using Suc.prems(3) by simp
  with Suc.prems(2, 1) show ?case
  proof (cases rule: read_step)
    case (none p')
    then show ?thesis using Suc.IH [of "[]" p'] Suc.prems by simp
  next
    case (some p' e es')
    then show ?thesis using Suc.IH [of es' p'] Suc.prems by auto
  qed
qed

text \<open>
  The receive buffer starts over only when it has been read to its end. A buffer is tidy when an
  empty one stands at its start.
\<close>

definition buf_tidy :: "Buf \<Rightarrow> bool" where
  "buf_tidy b \<longleftrightarrow> (buf_read b = buf_write b \<longrightarrow> buf_write b = 0)"

lemma buf_tidy_advance_read: "buf_tidy b \<Longrightarrow> buf_tidy (advance_read n b)"
  by (auto simp: buf_tidy_def advance_read_def Let_def)

lemma buf_tidy_read_slice: "buf_tidy b \<Longrightarrow> buf_tidy (snd (read_slice n b))"
  by (simp add: read_slice_def Let_def buf_tidy_advance_read)

lemma peer_recv_buffer: "p_read (snd (peer_recv c n p)) = snd (read_slice n (p_read p))"
  by (auto simp: peer_recv_def split: prod.split option.split sum.split)

lemma peer_read_buffers:
  assumes "peer_ok p" "peer_read c p = (r, q)"
  obtains n where "p_read q = snd (read_slice n (p_read p))"
  | n where "p_read q = snd (read_slice n (snd (read_slice 4 (p_read p))))"
proof (cases "p_state p")
  case (Recv n)
  with assms(2) peer_recv_buffer [of c n p] that(1) [of n] show thesis by (simp add: peer_read_def)
next
  case RIdle
  have ok: "buf_ok (p_read p)" using assms(1) by (simp add: peer_ok_def)
  obtain h b where hb: "read_slice 4 (p_read p) = (h, b)" by fastforce
  show thesis
  proof (cases "\<exists>n. peer_read c p = peer_recv c n (p\<lparr>p_read := b, p_state := Recv n\<rparr>)")
    case True
    then obtain n where "peer_read c p = peer_recv c n (p\<lparr>p_read := b, p_state := Recv n\<rparr>)" by blast
    with assms(2) have "q = snd (peer_recv c n (p\<lparr>p_read := b, p_state := Recv n\<rparr>))" by simp
    then have "p_read q = snd (read_slice n b)" by (simp add: peer_recv_buffer)
    with hb that(2) [of n] show thesis by simp
  next
    case False
    have "False" if "(r, q) = peer_recv c n (p\<lparr>p_read := b, p_state := Recv n\<rparr>)" for n
      using False that assms(2) by metis
    then have "p_read q = b"
      using assms(2) RIdle hb by (auto simp: peer_read_def read_array_slice [OF ok] Let_def split: option.splits if_splits; metis)
    with hb that(1) [of 4] show thesis by simp
  qed
qed

lemma buf_tidy_peer_read:
  assumes "peer_ok p" "buf_tidy (p_read p)" "peer_read c p = (r, q)"
  shows "buf_tidy (p_read q)"
  using assms(1,3) by (cases rule: peer_read_buffers) (simp_all add: buf_tidy_read_slice assms(2))

lemma buf_tidy_reader:
  "peer_ok p \<Longrightarrow> buf_tidy (p_read p) \<Longrightarrow> reader c as p = Some (ms, q) \<Longrightarrow> peer_ok q \<and> buf_tidy (p_read q)"
proof (induction as arbitrary: p ms)
  case (Cons a as)
  show ?case
  proof (cases a)
    case (Feed bs)
    obtain r b where rb: "poll_read (Ready bs) (p_read p) = (r, b)" by fastforce
    with Cons.prems(3) Feed have r: "r = PollOk" "reader c as (p\<lparr>p_read := b\<rparr>) = Some (ms, q)"
      by (auto split: Poll.splits)
    have "buf_ok (p_read p)" using Cons.prems(1) by (simp add: peer_ok_def)
    note res = poll_read_ok [OF this rb]
    have "buf_ok b" "read_buf b \<noteq> []" using res r(1) by (auto simp: READ_CAP_def)
    then have "remaining b \<noteq> 0" by (simp flip: length_read_buf)
    then have "buf_tidy b" by (auto simp: buf_tidy_def remaining_def)
    moreover have "peer_ok (p\<lparr>p_read := b\<rparr>)" using res Cons.prems(1) by (simp add: peer_ok_def)
    ultimately show ?thesis using Cons.IH [OF _ _ r(2)] by simp
  next
    case TryRead
    obtain r p' where r: "peer_read c p = (r, p')" by fastforce
    have "peer_ok p'" using peer_read_parses [OF Cons.prems(1), of c] r by simp
    then show ?thesis
      using Cons.IH [OF _ buf_tidy_peer_read [OF Cons.prems(1,2) r]] Cons.prems(3) TryRead r
      by (auto split: sum.splits option.splits)
  qed
qed simp

text \<open>
  A burst is a list of messages with the chunks and attempts to read in which they arrive; at the
  end of it the reader reads as many messages as there are.
\<close>

definition burst_ok :: "Codec \<Rightarrow> Client \<Rightarrow> Action list \<times> Event list \<Rightarrow> bool" where
  "burst_ok c cl = (\<lambda>(as, es).
     (\<forall>e\<in>set es. codec_for c e) \<and> chunks_ok as \<and>
     fed as = read_buf (p_write (snd (send_all c es (peer_new cl)))) \<and>
     length (fed as) + READ_CAP \<le> MAX_CAPACITY)"

definition bursts_actions :: "(Action list \<times> Event list) list \<Rightarrow> Action list" where
  "bursts_actions bursts = concat (map (\<lambda>(as, es). as @ replicate (length es) TryRead) bursts)"

lemma burst_frames: "burst_ok c cl (as, es) \<Longrightarrow> fed as = concat (map (frame c) es)"
  using send_all_frames [of "peer_new cl" es c]
  by (auto simp: burst_ok_def codec_for_encodable split: prod.splits)

lemma reader_burst:
  assumes "burst_ok c cl (as, es)" "peer_ok p" "buf_tidy (p_read p)" "pending p = []"
  shows "\<exists>q. reader c (as @ replicate (length es) TryRead) p = Some (map (message_of c) es, q) \<and>
    peer_ok q \<and> buf_tidy (p_read q) \<and> pending q = []"
proof -
  have b: "\<forall>e\<in>set es. codec_for c e" "chunks_ok as" "length (fed as) + READ_CAP \<le> MAX_CAPACITY"
    using assms(1) unfolding burst_ok_def prod.case by blast+
  have "read_buf (p_read p) = []" using assms(4) by (simp add: pending_def)
  then have "buf_read (p_read p) = buf_write (p_read p)"
    using assms(2) length_read_buf [of "p_read p"] by (auto simp: peer_ok_def remaining_def buf_ok_def)
  then have zero: "buf_write (p_read p) = 0" using assms(3) by (simp add: buf_tidy_def)
  obtain k p' where
      k: "reader c as p = Some (map (message_of c) (take k es), p')"
      "peer_ok p'" "pending p' = concat (map (frame c) (drop k es))"
    using reader_progress [OF b(1,2) assms(2), of "[]"] b(3) zero assms(4) burst_frames [OF assms(1)] by auto
  obtain q where q: "reader c (replicate (length es) TryRead) p' =
      Some (map (message_of c) (drop k es), q)" "pending q = []"
    using reader_drain [of "drop k es" c p' "length es"] k b(1) by (auto dest: in_set_dropD)
  have "reader c (as @ replicate (length es) TryRead) p = Some (map (message_of c) es, q)"
    using k q by (simp add: reader_append flip: map_append)
  with buf_tidy_reader [OF assms(2,3) this] q(2) show ?thesis by blast
qed

lemma reader_bursts:
  "\<forall>b\<in>set bursts. burst_ok c cl b \<Longrightarrow> peer_ok p \<Longrightarrow> buf_tidy (p_read p) \<Longrightarrow> pending p = [] \<Longrightarrow>
   \<exists>q. reader c (bursts_actions bursts) p = Some (map (message_of c) (concat (map snd bursts)), q) \<and>
     pending q = []"
proof (induction bursts arbitrary: p)
  case (Cons b bursts)
  obtain as es where b: "b = (as, es)" by (cases b)
  have "burst_ok c cl (as, es)" using Cons.prems(1) by (simp add: b)
  from reader_burst [OF this Cons.prems(2-4)] obtain q where
    q: "reader c (as @ replicate (length es) TryRead) p = Some (map (message_of c) es, q)"
    "peer_ok q" "buf_tidy (p_read q)" "pending q = []" by blast
  from Cons.IH [OF _ q(2-4)] Cons.prems(1) obtain q' where
    "reader c (bursts_actions bursts) q = Some (map (message_of c) (concat (map snd bursts)), q')"
    "pending q' = []" by auto
  moreover have "bursts_actions (b # bursts) =
      (as @ replicate (length es) TryRead) @ bursts_actions bursts"
    by (simp add: bursts_actions_def b)
  ultimately show ?case
    unfolding b using reader_append [of c "as @ replicate (length es) TryRead" "bursts_actions bursts" p]
    by (simp add: q(1) del: append_assoc)
qed (simp add: bursts_actions_def)

lemma fed_append: "fed (as @ bs) = fed as @ fed bs"
  by (induction as rule: fed.induct) simp_all

lemma fed_bursts:
  assumes "\<forall>b\<in>set bursts. burst_ok c cl b"
  shows "fed (bursts_actions bursts) = concat (map (frame c) (concat (map snd bursts)))"
  using assms
proof (induction bursts)
  case (Cons b bursts)
  obtain as es where b: "b = (as, es)" by (cases b)
  have "fed (replicate n TryRead) = []" for n by (induction n) simp_all
  with Cons burst_frames [of c cl as es] show ?case
    by (simp add: bursts_actions_def b fed_append)
qed (simp add: bursts_actions_def)

text \<open>
  C8. Messages survive the wire: the bytes one peer queues for a list of messages make the other
  peer read exactly these messages, in order, and leave nothing behind, for every way of cutting
  them into chunks of at most the read size and attempts to read at any moment between the
  chunks. The messages come in bursts, any number of them, after each of which the reader reads
  all there is; no burst is larger than what the receive buffer takes, which is less than its
  capacity by the read size. Within a burst the bound is that of the code, which starts the
  buffer over only when it has been read to its end (\<open>stream_must_run_dry\<close>); a single message of
  the size that is admitted may be too large for it (\<open>largest_message_stuck\<close>). The codec is one
  that decodes what it encodes.
\<close>

theorem wire_round_trip:
  assumes "\<forall>b\<in>set bursts. burst_ok c cl b"
  shows "fed (bursts_actions bursts) =
      read_buf (p_write (snd (send_all c (concat (map snd bursts)) (peer_new cl)))) \<and>
    (\<exists>ms p'. reader c (bursts_actions bursts) (peer_new cl') = Some (ms, p') \<and>
      map (decode_message c) ms = map Some (concat (map snd bursts)) \<and> pending p' = [])"
proof -
  let ?es = "concat (map snd bursts)"
  have es: "\<forall>e\<in>set ?es. codec_for c e" using assms by (fastforce simp: burst_ok_def)
  have "fed (bursts_actions bursts) = read_buf (p_write (snd (send_all c ?es (peer_new cl))))"
    using send_all_frames [of "peer_new cl" ?es c] es fed_bursts [OF assms]
    by (auto simp: codec_for_encodable split: prod.splits)
  moreover have "buf_tidy (p_read (peer_new cl'))"
    by (simp add: buf_tidy_def peer_new_def buf_new_def)
  then obtain q where "reader c (bursts_actions bursts) (peer_new cl') = Some (map (message_of c) ?es, q)"
    "pending q = []" using reader_bursts [OF assms peer_ok_new _ pending_new] by blast
  moreover have "map (decode_message c) (map (message_of c) ?es) = map Some ?es"
    using es by (simp add: message_of_def codec_for_def)
  ultimately show ?thesis by blast
qed

definition ping_bursts :: "(Action list \<times> Event list) list" where
  "ping_bursts =
     [([Feed [0, 0], TryRead, Feed [0, 3, 2, 0], TryRead, Feed [7, 0, 0, 0, 3, 2, 0, 9]],
       [Ping (PingBody 7), Ping (PingBody 9)]),
      ([Feed [0, 0, 0], TryRead, Feed [3, 2, 0, 8]], [Ping (PingBody 8)])]"

theorem wire_round_trip_witness:
  "\<exists>ms p'. reader ping_codec (bursts_actions ping_bursts) (peer_new client_plain) = Some (ms, p') \<and>
    map (decode_message ping_codec) ms =
      [Some (Ping (PingBody 7)), Some (Ping (PingBody 9)), Some (Ping (PingBody 8))] \<and> pending p' = []"
proof -
  have frames: "read_buf (p_write (snd (send_all ping_codec es (peer_new client_plain)))) =
      concat (map (frame ping_codec) es)" if "\<forall>e\<in>set es. encodable ping_codec e" for es
    using send_all_frames [of "peer_new client_plain" es ping_codec] that by (auto split: prod.splits)
  have ping: "codec_for ping_codec (Ping (PingBody n))" "encodable ping_codec (Ping (PingBody n))"
    "frame ping_codec (Ping (PingBody n)) = [0, 0, 0, 3, 2, 0, ucast n]" if "n \<in> {7, 8, 9}" for n
    using that
    by (elim insertE emptyE; simp add: codec_for_def encodable_def frame_def body_of_def ping_codec_def MAX_MESSAGE_def
        u32_to_be_def u32_to_le_def)+
  have "\<forall>b\<in>set ping_bursts. burst_ok ping_codec client_plain b"
    by (auto simp: ping_bursts_def burst_ok_def ping frames chunks_ok_def READ_CAP_def MAX_CAPACITY_def
        simp del: send_all.simps)
  from wire_round_trip [OF this, of client_plain] show ?thesis by (simp add: ping_bursts_def)
qed

subsection \<open>A stream that never runs dry\<close>

text \<open>The buffer still holds a byte after each of the actions.\<close>

fun never_dry :: "Codec \<Rightarrow> Action list \<Rightarrow> Peer \<Rightarrow> bool" where
  "never_dry c [] p = True"
| "never_dry c (a # as) p =
     (case reader c [a] p of
        None \<Rightarrow> True
      | Some (ms, q) \<Rightarrow> read_buf (p_read q) \<noteq> [] \<and> never_dry c as q)"

lemma advance_read_write:
  "buf_ok b \<Longrightarrow> read_buf (advance_read n b) \<noteq> [] \<Longrightarrow> buf_write (advance_read n b) = buf_write b"
  by (auto simp: advance_read_def Let_def read_buf_def slice_def)

lemma read_slice_write:
  "buf_ok b \<Longrightarrow> read_buf (snd (read_slice n b)) \<noteq> [] \<Longrightarrow> buf_write (snd (read_slice n b)) = buf_write b"
  by (auto simp: read_slice_def Let_def advance_read_write)

lemma read_slice_rest:
  assumes "buf_ok b" "read_buf (snd (read_slice n b)) \<noteq> []"
  shows "read_buf b \<noteq> []"
proof
  assume none: "read_buf b = []"
  then have "read_buf (advance_read n b) = []" using assms(1) by (simp only: read_buf_advance_read drop_Nil)
  with none assms(2) show False by (auto simp: read_slice_def Let_def split: if_splits)
qed

lemma peer_read_write:
  assumes "peer_ok p" "peer_read c p = (r, q)" "read_buf (p_read q) \<noteq> []"
  shows "buf_write (p_read q) = buf_write (p_read p)"
proof -
  have ok: "buf_ok (p_read p)" "buf_ok (snd (read_slice 4 (p_read p)))"
    using assms(1) bufq.pop_ok [of "p_read p" 4] by (simp_all add: peer_ok_def)
  from assms(1,2) show ?thesis
  proof (cases rule: peer_read_buffers)
    case (1 n)
    with read_slice_write [OF ok(1)] assms(3) show ?thesis by simp
  next
    case (2 n)
    with read_slice_rest [OF ok(2)] assms(3) have "read_buf (snd (read_slice 4 (p_read p))) \<noteq> []" by simp
    with 2 read_slice_write [OF ok(1)] read_slice_write [OF ok(2)] assms(3) show ?thesis by simp
  qed
qed

lemma never_dry_write:
  "peer_ok p \<Longrightarrow> chunks_ok as \<Longrightarrow> never_dry c as p \<Longrightarrow> reader c as p = Some (ms, q) \<Longrightarrow>
     buf_write (p_read q) = buf_write (p_read p) + length (fed as)"
proof (induction as arbitrary: p ms)
  case (Cons a as)
  show ?case
  proof (cases a)
    case (Feed bs)
    obtain r b where rb: "poll_read (Ready bs) (p_read p) = (r, b)" by fastforce
    with Cons.prems(4) Feed have r: "r = PollOk" "reader c as (p\<lparr>p_read := b\<rparr>) = Some (ms, q)"
      by (auto split: Poll.splits)
    have "buf_ok (p_read p)" using Cons.prems(1) by (simp add: peer_ok_def)
    note res = poll_read_ok [OF this rb]
    have "buf_write b = buf_write (p_read p) + length bs"
      using rb r(1) Cons.prems(2) Feed
      by (auto simp: poll_read_def write_buf_def Let_def advance_def chunks_ok_def split: if_splits)
    moreover have "peer_ok (p\<lparr>p_read := b\<rparr>)" using res Cons.prems(1) by (simp add: peer_ok_def)
    ultimately show ?thesis
      using Cons.IH [OF _ _ _ r(2)] Cons.prems(2,3) Feed rb r(1) by (simp add: chunks_ok_def)
  next
    case TryRead
    obtain r p' where r: "peer_read c p = (r, p')" by fastforce
    have "peer_ok p'" using peer_read_parses [OF Cons.prems(1), of c] r by simp
    moreover have "read_buf (p_read p') \<noteq> []" "never_dry c as p'" "\<exists>ms. reader c as p' = Some (ms, q)"
      using Cons.prems(3,4) TryRead r by (auto split: sum.splits option.splits)
    ultimately show ?thesis
      using Cons.IH [of p'] Cons.prems(2) TryRead peer_read_write [OF Cons.prems(1) r]
      by (auto simp: chunks_ok_def)
  qed
qed simp

text \<open>
  A connection on which the buffer always holds the beginning of a next message breaks off after
  as many bytes as the buffer's capacity less the read size, however small and well-formed the
  messages are and although all complete ones have been read: nothing moves what is left to the
  front of the buffer.
\<close>

theorem stream_must_run_dry:
  assumes "chunks_ok as" "never_dry c as (peer_new cl)"
    and "MAX_CAPACITY < length (fed as) + READ_CAP"
  shows "reader c (as @ [Feed bs]) (peer_new cl) = None"
proof (cases "reader c as (peer_new cl)")
  case None
  then show ?thesis by (simp add: reader_append)
next
  case (Some x)
  obtain ms q where q: "reader c as (peer_new cl) = Some (ms, q)" using Some by (cases x) simp
  have "buf_write (p_read q) = length (fed as)"
    using never_dry_write [OF peer_ok_new assms(1,2) q] by simp
  with assms(3) have "poll_read (Ready bs) (p_read q) = (PollErr, p_read q)"
    by (simp add: poll_read_def write_buf_def Let_def)
  then show ?thesis by (simp add: reader_append q)
qed

subsection \<open>The largest message\<close>

definition stuck :: "Peer \<Rightarrow> bool" where
  "stuck p \<longleftrightarrow> peer_ok p \<and> p_state p = Recv MAX_MESSAGE \<and> 0 < buf_read (p_read p) \<and>
     length (buf_data (p_read p)) \<le> MAX_CAPACITY"

lemma poll_read_buf_read: "buf_read (snd (poll_read a b)) = buf_read b"
  by (auto simp: poll_read_def write_buf_def Let_def advance_def split: Answer.split if_splits)

lemma stuck_feed:
  assumes "stuck p" "poll_read a (p_read p) = (r, b)"
  shows "stuck (p\<lparr>p_read := b\<rparr>)"
  using assms poll_read_ok [OF _ assms(2)] poll_read_buf_read [of a "p_read p"]
  by (simp add: stuck_def peer_ok_def)

lemma stuck_read:
  assumes "stuck p"
  shows "peer_read c p = (Inr None, p)"
proof -
  have "buf_write (p_read p) < buf_read (p_read p) + MAX_MESSAGE"
    using assms by (auto simp: stuck_def peer_ok_def buf_ok_def MAX_MESSAGE_def MAX_CAPACITY_def)
  with assms show ?thesis
    by (simp add: peer_read_def stuck_def peer_recv_def read_slice_def)
qed

lemma stuck_reader: "stuck p \<Longrightarrow> reader c as p = Some (ms, q) \<Longrightarrow> ms = []"
proof (induction as arbitrary: p ms)
  case Nil
  then show ?case by simp
next
  case (Cons a as)
  show ?case
  proof (cases a)
    case (Feed bs)
    with Cons.prems obtain b where "poll_read (Ready bs) (p_read p) = (PollOk, b)"
      "reader c as (p\<lparr>p_read := b\<rparr>) = Some (ms, q)"
      by (auto split: prod.splits Poll.splits)
    with Cons.IH stuck_feed [OF Cons.prems(1)] show ?thesis by blast
  next
    case TryRead
    with Cons.prems stuck_read [OF Cons.prems(1)] Cons.IH show ?thesis by simp
  qed
qed

text \<open>
  A message of the largest size that the header check admits is never delivered when
  the first byte of its body arrives together with its header: whatever is fed afterwards,
  either the buffer's capacity is exceeded or no message comes out, because the consumed
  header is never moved out of the buffer.
\<close>

theorem largest_message_stuck:
  assumes "length bs + 5 \<le> READ_CAP"
  shows "case reader c (Feed (u32_to_be (of_nat MAX_MESSAGE) @ b # bs) # TryRead # as)
        (peer_new cl) of
      None \<Rightarrow> True
    | Some (ms, p) \<Rightarrow> ms = []"
proof -
  let ?chunk = "u32_to_be (of_nat MAX_MESSAGE) @ b # bs" and ?p = "peer_new cl"
  obtain d where d: "poll_read (Ready ?chunk) (p_read ?p) = (PollOk, d)"
    "peer_ok (?p\<lparr>p_read := d\<rparr>)" "pending (?p\<lparr>p_read := d\<rparr>) = pending ?p @ ?chunk"
    "buf_write d = buf_write (p_read ?p) + length ?chunk"
    by (rule feed_step [of ?p ?chunk])
      (use assms in \<open>simp_all add: READ_CAP_def MAX_CAPACITY_def\<close>)
  have dd: "buf_ok d" "buf_read d = 0" "read_buf d = ?chunk" "length (buf_data d) \<le> MAX_CAPACITY"
    using d poll_read_buf_read [of "Ready ?chunk" "p_read ?p"] poll_read_ok [OF _ d(1)]
    by (auto simp: peer_ok_def peer_new_def buf_new_def buf_ok_def pending_def read_buf_def
        slice_def)
  let ?q = "?p\<lparr>p_read := advance_read 4 d, p_state := Recv MAX_MESSAGE\<rparr>"
  have "read_array 4 d = (Some (u32_to_be (of_nat MAX_MESSAGE)), advance_read 4 d)"
    using dd by (simp add: read_array_slice read_slice_enough del: length_read_buf)
  then have read: "peer_read c (?p\<lparr>p_read := d\<rparr>) = peer_recv c MAX_MESSAGE ?q"
    by (simp add: peer_read_def peer_new_def unat_of_nat_message)
  have "stuck ?q"
    using dd d(2,4) buf_ok_advance_read [OF dd(1), of 4]
    by (auto simp: stuck_def peer_ok_def advance_read_def Let_def)
  then have "peer_read c (?p\<lparr>p_read := d\<rparr>) = (Inr None, ?q)"
    using read stuck_read [of ?q c] by (simp add: peer_read_def)
  then show ?thesis
    using d(1) \<open>stuck ?q\<close> stuck_reader [of ?q c as] by (auto split: option.split)
qed

theorem largest_message_stuck_witness:
  "case reader ping_codec (Feed (u32_to_be (of_nat MAX_MESSAGE) @ 1 # [2, 3]) # TryRead # [TryRead])
        (peer_new client_plain) of
      None \<Rightarrow> True
    | Some (ms, p) \<Rightarrow> ms = []"
  by (rule largest_message_stuck) (simp add: READ_CAP_def)

end
