(* ===== verification/Server.thy ===== *)
theory Server
  imports Wire Ids
begin

section \<open>The server: \<^verbatim>\<open>crates/mumbler/src/remote/server.rs\<close>\<close>

text \<open>
  The state of the server (connected peers, rooms, peers scheduled to be polled), every
  operation on it and the steps of its main loop. The environment \<open>env\<close> holds what is not
  in the repository: the codec of the messages, signature verification and the random
  generator, a stream of nonces of which \<open>st_draws\<close> have been drawn. Time is in
  milliseconds. While a peer's messages are handled, the peer (\<open>this\<close>) is out of the map of
  peers and is passed and returned separately, as in the code. An operation that can fail
  returns its error beside the state it leaves.
\<close>

record Env =
  e_codec :: Codec
  e_verify :: "PublicKey \<Rightarrow> bytes \<Rightarrow> Signature \<Rightarrow> bool"
  e_rand :: "nat \<Rightarrow> bytes"

record ServerPeerState =
  sps_addr :: nat
  sps_peer :: Peer
  sps_peer_id :: PeerId
  sps_public_key :: PublicKey
  sps_challenge :: "bytes option"
  sps_objects :: "(Id, RemoteObject) hashmap"
  sps_images :: "(Id, RemoteImage) hashmap"
  sps_props :: Properties

record ServerPeer =
  sp_timeout :: nat
  sp_state :: ServerPeerState

record ServerRoom =
  room_members :: "PeerId list"

record Peers =
  pe_ids :: Ids
  pe_peers :: "(PeerId, ServerPeer) hashmap"

record State =
  st_poll :: "PeerId list"
  st_rooms :: "(StableId, ServerRoom) hashmap"
  st_peers :: Peers
  st_draws :: nat

datatype ServerError =
    ReadFailed ReadError
  | DecodeFailed Kind
  | SendFailed
  | DuplicateHello
  | NoHello
  | BadSignature
  | KeyInUse
  | Unsupported "Kind option"
  | OutOfFuel

definition sps_room :: "ServerPeerState \<Rightarrow> StableId" where
  "sps_room this = as_stable_id (props_get (sps_props this) KEY_ROOM)"

definition server_peer_new :: "nat \<Rightarrow> nat \<Rightarrow> Peer \<Rightarrow> PeerId \<Rightarrow> ServerPeer" where
  "server_peer_new now addr peer peer_id =
     \<lparr>sp_timeout = now + 5000,
      sp_state = \<lparr>sps_addr = addr, sps_peer = peer, sps_peer_id = peer_id,
        sps_public_key = PublicKey_ZERO, sps_challenge = None, sps_objects = [],
        sps_images = [], sps_props = props_new\<rparr>\<rparr>"

definition peer_mut :: "(Peer \<Rightarrow> bool \<times> Peer) \<Rightarrow> ServerPeer \<Rightarrow> bool \<times> ServerPeer" where
  "peer_mut f sp =
     (case f (sps_peer (sp_state sp)) of
        (ok, p) \<Rightarrow> (ok, sp\<lparr>sp_state := (sp_state sp)\<lparr>sps_peer := p\<rparr>\<rparr>))"

definition server_peer_poll ::
    "nat \<Rightarrow> nat Answer list \<Rightarrow> bytes Answer \<Rightarrow> ServerPeer \<Rightarrow> Poll \<times> ServerPeer" where
  "server_peer_poll now writes reads sp =
     (if now \<ge> sp_timeout sp then (PollErr, sp)
      else case peer_poll writes reads (sps_peer (sp_state sp)) of
             (r, p, sent) \<Rightarrow> (r, sp\<lparr>sp_state := (sp_state sp)\<lparr>sps_peer := p\<rparr>\<rparr>))"

subsection \<open>Peers and state\<close>

definition peers_new :: "u32 \<Rightarrow> Peers" where
  "peers_new seed = \<lparr>pe_ids = ids_new seed, pe_peers = []\<rparr>"

definition next_peer_id :: "Peers \<Rightarrow> PeerId option \<times> Peers" where
  "next_peer_id ps =
     (case ids_next (pe_ids ps) of
        (r, ids) \<Rightarrow> (map_option PeerId_new r, ps\<lparr>pe_ids := ids\<rparr>))"

definition peers_ids :: "Peers \<Rightarrow> PeerId list" where
  "peers_ids ps = hm_keys (pe_peers ps)"

definition peers_insert :: "PeerId \<Rightarrow> ServerPeer \<Rightarrow> Peers \<Rightarrow> Peers" where
  "peers_insert i sp ps = ps\<lparr>pe_peers := hm_insert i sp (pe_peers ps)\<rparr>"

definition peers_remove :: "PeerId \<Rightarrow> Peers \<Rightarrow> ServerPeer option \<times> Peers" where
  "peers_remove i ps = (hm_get (pe_peers ps) i, ps\<lparr>pe_peers := hm_remove i (pe_peers ps)\<rparr>)"

definition peers_free :: "PeerId \<Rightarrow> Peers \<Rightarrow> Peers" where
  "peers_free i ps = ps\<lparr>pe_ids := ids_release (pid_raw i) (pe_ids ps)\<rparr>"

definition state_new :: "u32 \<Rightarrow> State" where
  "state_new seed =
     \<lparr>st_poll = [], st_rooms = [(StableId_ZERO, \<lparr>room_members = []\<rparr>)],
      st_peers = peers_new seed, st_draws = 0\<rparr>"

abbreviation st_map :: "State \<Rightarrow> (PeerId, ServerPeer) hashmap" where
  "st_map st \<equiv> pe_peers (st_peers st)"

definition schedule :: "bool \<Rightarrow> PeerId \<Rightarrow> PeerId list \<Rightarrow> PeerId list" where
  "schedule ok i poll = (if ok then bs_insert i poll else poll)"

definition set_map :: "(PeerId, ServerPeer) hashmap \<Rightarrow> PeerId list \<Rightarrow> State \<Rightarrow> State" where
  "set_map ps poll st = st\<lparr>st_poll := poll, st_peers := (st_peers st)\<lparr>pe_peers := ps\<rparr>\<rparr>"

subsection \<open>Sending to several peers\<close>

fun send_each ::
    "PeerId \<Rightarrow> (Peer \<Rightarrow> bool \<times> Peer) \<Rightarrow> (PeerId, ServerPeer) hashmap \<Rightarrow> PeerId list \<Rightarrow>
     (PeerId, ServerPeer) hashmap \<times> PeerId list" where
  "send_each me f [] poll = ([], poll)"
| "send_each me f ((i, sp) # ps) poll =
     (if me = i then (case send_each me f ps poll of (ps', poll') \<Rightarrow> ((i, sp) # ps', poll'))
      else case peer_mut f sp of
        (ok, sp') \<Rightarrow>
          (case send_each me f ps (schedule ok i poll) of
             (ps', poll') \<Rightarrow> ((i, sp') # ps', poll')))"

definition send_to_all ::
    "ServerPeerState \<Rightarrow> (ServerPeerState \<Rightarrow> Peer \<Rightarrow> bool \<times> Peer) \<Rightarrow> State \<Rightarrow> State" where
  "send_to_all this f st =
     (case send_each (sps_peer_id this) (f this) (st_map st) (st_poll st) of
        (ps, poll) \<Rightarrow> set_map ps poll st)"

fun send_members ::
    "PeerId \<Rightarrow> (Peer \<Rightarrow> bool \<times> Peer) \<Rightarrow> PeerId list \<Rightarrow> (PeerId, ServerPeer) hashmap \<Rightarrow>
     PeerId list \<Rightarrow> (PeerId, ServerPeer) hashmap \<times> PeerId list" where
  "send_members me f [] ps poll = (ps, poll)"
| "send_members me f (i # is) ps poll =
     (if me = i then send_members me f is ps poll
      else case hm_get ps i of
        None \<Rightarrow> send_members me f is ps poll
      | Some sp \<Rightarrow>
          (case peer_mut f sp of
             (ok, sp') \<Rightarrow> send_members me f is (hm_insert i sp' ps) (schedule ok i poll)))"

definition send_to_room ::
    "ServerPeerState \<Rightarrow> (ServerPeerState \<Rightarrow> Peer \<Rightarrow> bool \<times> Peer) \<Rightarrow> State \<Rightarrow> State" where
  "send_to_room this f st =
     (case hm_get (st_rooms st) (sps_room this) of
        None \<Rightarrow> st
      | Some room \<Rightarrow>
          (case send_members (sps_peer_id this) (f this) (room_members room) (st_map st)
                  (st_poll st) of
             (ps, poll) \<Rightarrow> set_map ps poll st))"

text \<open>A loop that goes on after a failure and notes any success.\<close>

fun each_any :: "('a \<Rightarrow> Peer \<Rightarrow> bool \<times> Peer) \<Rightarrow> 'a list \<Rightarrow> bool \<Rightarrow> Peer \<Rightarrow> bool \<times> Peer" where
  "each_any f [] any p = (any, p)"
| "each_any f (x # xs) any p =
     (case f x p of (ok, p') \<Rightarrow> each_any f xs (if ok then True else any) p')"

subsection \<open>Rooms\<close>

definition create_room :: "ServerPeerState \<Rightarrow> Id \<Rightarrow> State \<Rightarrow> State" where
  "create_room this object_id st =
     (let room = StableId_new (sps_public_key this) object_id;
          members = map fst (filter (\<lambda>(i, sp). sps_room (sp_state sp) = room) (st_map st));
          members = (if sps_room this = room then members @ [sps_peer_id this] else members)
      in st\<lparr>st_rooms := hm_insert room \<lparr>room_members = members\<rparr> (st_rooms st)\<rparr>)"

definition local_objects :: "ServerPeerState \<Rightarrow> RemoteObject list" where
  "local_objects this = filter (\<lambda>ob. \<not> is_global (ro_ty ob)) (hm_values (sps_objects this))"

definition global_objects :: "ServerPeerState \<Rightarrow> RemoteObject list" where
  "global_objects this = filter (\<lambda>ob. is_global (ro_ty ob)) (hm_values (sps_objects this))"

fun join_members ::
    "Codec \<Rightarrow> PeerId list \<Rightarrow> ServerPeerState \<Rightarrow> (PeerId, ServerPeer) hashmap \<Rightarrow> PeerId list \<Rightarrow>
     ServerPeerState \<times> (PeerId, ServerPeer) hashmap \<times> PeerId list" where
  "join_members c [] this ps poll = (this, ps, poll)"
| "join_members c (i # is) this ps poll =
     (case hm_get ps i of
        None \<Rightarrow> join_members c is this ps poll
      | Some sp \<Rightarrow>
          (case peer_mut (peer_join c (sps_peer_id this) (local_objects this)) sp of
             (ok, sp') \<Rightarrow>
               (case peer_join c (sps_peer_id (sp_state sp')) (local_objects (sp_state sp'))
                       (sps_peer this) of
                  (ok', p) \<Rightarrow>
                    join_members c is (this\<lparr>sps_peer := p\<rparr>) (hm_insert i sp' ps)
                      (schedule ok' (sps_peer_id this)
                        (schedule ok (sps_peer_id (sp_state sp')) poll)))))"

definition join_room ::
    "Codec \<Rightarrow> StableId \<Rightarrow> ServerPeerState \<Rightarrow> State \<Rightarrow> ServerPeerState \<times> State" where
  "join_room c room this st =
     (case hm_get (st_rooms st) room of
        None \<Rightarrow> (this, st)
      | Some r \<Rightarrow>
          (case join_members c (room_members r) this (st_map st) (st_poll st) of
             (this, ps, poll) \<Rightarrow>
               let r = (if sps_peer_id this \<in> set (room_members r) then r
                        else r\<lparr>room_members := room_members r @ [sps_peer_id this]\<rparr>)
               in (this, (set_map ps poll st)\<lparr>st_rooms := hm_insert room r (st_rooms st)\<rparr>)))"

fun leave_members ::
    "Codec \<Rightarrow> PeerId \<Rightarrow> PeerId list \<Rightarrow> ServerPeerState \<Rightarrow> (PeerId, ServerPeer) hashmap \<Rightarrow>
     PeerId list \<Rightarrow> ServerPeerState \<times> (PeerId, ServerPeer) hashmap \<times> PeerId list" where
  "leave_members c leaving [] this ps poll = (this, ps, poll)"
| "leave_members c leaving (i # is) this ps poll =
     (case hm_get ps i of
        None \<Rightarrow> leave_members c leaving is this ps poll
      | Some sp \<Rightarrow>
          (case peer_mut (peer_leave c leaving) sp of
             (ok, sp') \<Rightarrow>
               (case peer_leave c i (sps_peer this) of
                  (ok', p) \<Rightarrow>
                    leave_members c leaving is (this\<lparr>sps_peer := p\<rparr>) (hm_insert i sp' ps)
                      (schedule ok' (sps_peer_id this) (schedule ok leaving poll)))))"

definition leave_room ::
    "Codec \<Rightarrow> StableId \<Rightarrow> PeerId \<Rightarrow> ServerPeerState \<Rightarrow> State \<Rightarrow> ServerPeerState \<times> State" where
  "leave_room c room leaving this st =
     (case hm_get (st_rooms st) room of
        None \<Rightarrow> (this, st)
      | Some r \<Rightarrow>
          let r = r\<lparr>room_members := filter (\<lambda>i. i \<noteq> leaving) (room_members r)\<rparr>
          in case leave_members c leaving (room_members r) this (st_map st) (st_poll st) of
               (this, ps, poll) \<Rightarrow>
                 (this, (set_map ps poll st)\<lparr>st_rooms := hm_insert room r (st_rooms st)\<rparr>))"

subsection \<open>Connecting and disconnecting\<close>

fun send_each_of ::
    "('a \<Rightarrow> ServerPeerState \<Rightarrow> Peer \<Rightarrow> bool \<times> Peer) \<Rightarrow> 'a list \<Rightarrow> ServerPeerState \<Rightarrow> State \<Rightarrow> State"
where
  "send_each_of f [] this st = st"
| "send_each_of f (x # xs) this st = send_each_of f xs this (send_to_all this (f x) st)"

fun greet_each ::
    "Codec \<Rightarrow> PeerId \<Rightarrow> (PeerId, ServerPeer) hashmap \<Rightarrow> Peer \<Rightarrow> PeerId list \<Rightarrow> Peer \<times> PeerId list"
where
  "greet_each c me [] p poll = (p, poll)"
| "greet_each c me ((i, sp) # ps) p poll =
     (case peer_connected c (sps_public_key (sp_state sp)) i (sps_props (sp_state sp)) p of
        (ok, p) \<Rightarrow>
          (case each_any (\<lambda>ob. peer_object_created c i ob) (global_objects (sp_state sp)) ok p of
             (ok, p) \<Rightarrow>
               (case each_any (\<lambda>img. peer_image_created c i img)
                       (hm_values (sps_images (sp_state sp))) ok p of
                  (ok, p) \<Rightarrow> greet_each c me ps p (schedule ok me poll))))"

definition server_connected ::
    "Codec \<Rightarrow> ServerPeerState \<Rightarrow> State \<Rightarrow> ServerPeerState \<times> State" where
  "server_connected c this st =
     (let st = send_to_all this
            (\<lambda>me. peer_connected c (sps_public_key me) (sps_peer_id me) (sps_props me)) st;
          st = send_each_of (\<lambda>ob me. peer_object_created c (sps_peer_id me) ob)
            (global_objects this) this st;
          st = send_each_of (\<lambda>img me. peer_image_created c (sps_peer_id me) img)
            (hm_values (sps_images this)) this st
      in case greet_each c (sps_peer_id this) (st_map st) (sps_peer this) (st_poll st) of
           (p, poll) \<Rightarrow> (this\<lparr>sps_peer := p\<rparr>, st\<lparr>st_poll := poll\<rparr>))"

definition server_disconnected :: "Codec \<Rightarrow> ServerPeerState \<Rightarrow> State \<Rightarrow> State" where
  "server_disconnected c this st =
     send_to_all this (\<lambda>me. peer_disconnected c (sps_peer_id me)) st"

definition remove_peer :: "Codec \<Rightarrow> ServerPeer \<Rightarrow> State \<Rightarrow> State" where
  "remove_peer c sp st =
     (let st = server_disconnected c (sp_state sp) st
      in st\<lparr>st_poll := bs_remove (sps_peer_id (sp_state sp)) (st_poll st)\<rparr>)"

subsection \<open>Handling messages\<close>

type_synonym Handled = "ServerError option \<times> ServerPeerState \<times> State"

definition reply :: "(Peer \<Rightarrow> bool \<times> Peer) \<Rightarrow> ServerPeerState \<Rightarrow> bool \<times> ServerPeerState" where
  "reply f this = (case f (sps_peer this) of (ok, p) \<Rightarrow> (ok, this\<lparr>sps_peer := p\<rparr>))"

definition on_ping :: "Codec \<Rightarrow> nat \<Rightarrow> PingBody \<Rightarrow> ServerPeer \<Rightarrow> ServerError option \<times> ServerPeer" where
  "on_ping c now body sp =
     (case reply (peer_pong c (pib_payload body)) (sp_state sp) of
        (ok, this) \<Rightarrow>
          (if ok then None else Some SendFailed,
           sp\<lparr>sp_timeout := now + 5000, sp_state := this\<rparr>))"

definition on_hello :: "Env \<Rightarrow> HelloBody \<Rightarrow> ServerPeerState \<Rightarrow> State \<Rightarrow> Handled" where
  "on_hello env body this st =
     (if sps_challenge this \<noteq> None then (Some DuplicateHello, this, st)
      else
        let nonce = e_rand env (st_draws st);
            st = st\<lparr>st_draws := st_draws st + 1\<rparr>
        in case reply (peer_challenge (e_codec env) nonce) this of
             (False, this) \<Rightarrow> (Some SendFailed, this, st)
           | (True, this) \<Rightarrow> (None, this\<lparr>sps_challenge := Some nonce\<rparr>, st))"

fun add_objects :: "RemoteObject list \<Rightarrow> ServerPeerState \<Rightarrow> State \<Rightarrow> ServerPeerState \<times> State" where
  "add_objects [] this st = (this, st)"
| "add_objects (ob # obs) this st =
     (let st = (if ro_ty ob = TYPE_ROOM then create_room this (ro_id ob) st else st);
          this = this\<lparr>sps_objects := hm_insert (ro_id ob) ob (sps_objects this)\<rparr>
      in add_objects obs this st)"

fun add_images :: "RemoteImage list \<Rightarrow> ServerPeerState \<Rightarrow> ServerPeerState" where
  "add_images [] this = this"
| "add_images (img # imgs) this =
     add_images imgs (this\<lparr>sps_images := hm_insert (ri_id img) img (sps_images this)\<rparr>)"

definition send_others ::
    "Codec \<Rightarrow> PeerId \<Rightarrow> (PeerId, ServerPeer) hashmap \<Rightarrow> Peer \<Rightarrow> bool \<times> Peer" where
  "send_others c me ps p =
     try_each (\<lambda>(i, sp) p.
       if me = i then (True, p)
       else case try_each (\<lambda>ob. peer_object_created c (sps_peer_id (sp_state sp)) ob)
                   (global_objects (sp_state sp)) p of
              (False, p) \<Rightarrow> (False, p)
            | (True, p) \<Rightarrow>
                try_each (\<lambda>img. peer_image_created c (sps_peer_id (sp_state sp)) img)
                  (hm_values (sps_images (sp_state sp))) p) ps p"

definition on_connect :: "Env \<Rightarrow> ConnectBody \<Rightarrow> ServerPeerState \<Rightarrow> State \<Rightarrow> Handled" where
  "on_connect env body this st =
     (case sps_challenge this of
        None \<Rightarrow> (Some NoHello, this, st)
      | Some challenge \<Rightarrow>
          let this = this\<lparr>sps_challenge := None\<rparr>
          in if \<not> e_verify env (cb_public_key body) challenge (cb_signature body)
             then (Some BadSignature, this, st)
             else if \<exists>(i, sp)\<in>set (st_map st).
                 sps_public_key (sp_state sp) = cb_public_key body
             then (Some KeyInUse, this, st)
             else
               let this = this\<lparr>sps_public_key := cb_public_key body, sps_props := cb_props body\<rparr>
               in case add_objects (cb_objects body) this st of
                    (this, st) \<Rightarrow>
                      let this = add_images (cb_images body) this
                      in case reply (send_others (e_codec env) (sps_peer_id this) (st_map st))
                               this of
                           (False, this) \<Rightarrow> (Some SendFailed, this, st)
                         | (True, this) \<Rightarrow>
                             (case server_connected (e_codec env) this st of
                                (this, st) \<Rightarrow>
                                  (case join_room (e_codec env) (sps_room this) this st of
                                     (this, st) \<Rightarrow> (None, this, st))))"

definition on_peer_update :: "Env \<Rightarrow> PeerUpdateBody \<Rightarrow> ServerPeerState \<Rightarrow> State \<Rightarrow> Handled" where
  "on_peer_update env body this st =
     (case props_insert (pub_key body) (pub_value body) (sps_props this) of
        (old, props) \<Rightarrow>
          let this = this\<lparr>sps_props := props\<rparr>;
              st = send_to_all this
                (\<lambda>me. peer_updated (e_codec env) (sps_peer_id me) (pub_key body) (pub_value body)) st
          in if pub_key body = KEY_ROOM then
               (case leave_room (e_codec env) (as_stable_id old) (sps_peer_id this) this st of
                  (this, st) \<Rightarrow>
                    (case join_room (e_codec env) (as_stable_id (pub_value body)) this st of
                       (this, st) \<Rightarrow> (None, this, st)))
             else (None, this, st))"

definition on_object_create ::
    "Env \<Rightarrow> ObjectCreateBody \<Rightarrow> ServerPeerState \<Rightarrow> State \<Rightarrow> Handled" where
  "on_object_create env body this st =
     (let ob = ocb_object body;
          this = this\<lparr>sps_objects := hm_insert (ro_id ob) ob (sps_objects this)\<rparr>;
          action = (\<lambda>me. peer_object_created (e_codec env) (sps_peer_id me) ob)
      in if ro_ty ob = TYPE_ROOM then
           (None, this, send_to_all this action (create_room this (ro_id ob) st))
         else if is_global (ro_ty ob) then (None, this, send_to_all this action st)
         else (None, this, send_to_room this action st))"

definition on_object_update ::
    "Env \<Rightarrow> ObjectUpdateBody \<Rightarrow> ServerPeerState \<Rightarrow> State \<Rightarrow> Handled" where
  "on_object_update env body this st =
     (case hm_get (sps_objects this) (oub_object_id body) of
        None \<Rightarrow> (None, this, st)
      | Some ob \<Rightarrow>
          let ob = ob\<lparr>ro_props := props_put (oub_key body) (oub_value body) (ro_props ob)\<rparr>;
              this = this\<lparr>sps_objects := hm_insert (oub_object_id body) ob (sps_objects this)\<rparr>;
              action = (\<lambda>me. peer_object_updated (e_codec env) (sps_peer_id me)
                (oub_object_id body) (oub_key body) (oub_value body))
          in if is_global (ro_ty ob) then (None, this, send_to_all this action st)
             else (None, this, send_to_room this action st))"

definition on_object_remove ::
    "Env \<Rightarrow> ObjectRemoveBody \<Rightarrow> ServerPeerState \<Rightarrow> State \<Rightarrow> Handled" where
  "on_object_remove env body this st =
     (case hm_get (sps_objects this) (orb_object_id body) of
        None \<Rightarrow> (None, this, st)
      | Some ob \<Rightarrow>
          let this = this\<lparr>sps_objects := hm_remove (orb_object_id body) (sps_objects this)\<rparr>;
              action = (\<lambda>me. peer_object_removed (e_codec env) (sps_peer_id me) (orb_object_id body))
          in if ro_ty ob = TYPE_ROOM then
               let room = StableId_new (sps_public_key this) (orb_object_id body)
               in (None, this,
                   send_to_all this action (st\<lparr>st_rooms := hm_remove room (st_rooms st)\<rparr>))
             else if is_global (ro_ty ob) then (None, this, send_to_all this action st)
             else (None, this, send_to_room this action st))"

definition on_image_create ::
    "Env \<Rightarrow> ImageCreateBody \<Rightarrow> ServerPeerState \<Rightarrow> State \<Rightarrow> Handled" where
  "on_image_create env body this st =
     (let img = icb_image body;
          this = this\<lparr>sps_images := hm_insert (ri_id img) img (sps_images this)\<rparr>
      in (None, this,
          send_to_room this (\<lambda>me. peer_image_created (e_codec env) (sps_peer_id me) img) st))"

definition on_image_remove ::
    "Env \<Rightarrow> ImageRemoveBody \<Rightarrow> ServerPeerState \<Rightarrow> State \<Rightarrow> Handled" where
  "on_image_remove env body this st =
     (let this = this\<lparr>sps_images := hm_remove (irb_image_id body) (sps_images this)\<rparr>
      in (None, this,
          send_to_room this
            (\<lambda>me. peer_image_removed (e_codec env) (sps_peer_id me) (irb_image_id body)) st))"

text \<open>
  Dispatch on the kind of a message: the guard \<open>!this.public_key.is_zero()\<close> of an arm sends
  the message to the last arm, which rejects it.
\<close>

definition with_state ::
    "(ServerPeerState \<Rightarrow> State \<Rightarrow> Handled) \<Rightarrow> ServerPeer \<Rightarrow> State \<Rightarrow>
     ServerError option \<times> ServerPeer \<times> State" where
  "with_state h sp st =
     (case h (sp_state sp) st of (e, this, st) \<Rightarrow> (e, sp\<lparr>sp_state := this\<rparr>, st))"

definition handle_event ::
    "Env \<Rightarrow> nat \<Rightarrow> Event \<Rightarrow> ServerPeer \<Rightarrow> State \<Rightarrow> ServerError option \<times> ServerPeer \<times> State" where
  "handle_event env now e sp st =
     (case e of
        Ping b \<Rightarrow>
          (case on_ping (e_codec env) now b sp of (err, sp) \<Rightarrow> (err, sp, st))
      | Hello b \<Rightarrow> with_state (on_hello env b) sp st
      | Connect b \<Rightarrow> with_state (on_connect env b) sp st
      | PeerUpdate b \<Rightarrow> with_state (on_peer_update env b) sp st
      | ObjectCreate b \<Rightarrow> with_state (on_object_create env b) sp st
      | ObjectUpdate b \<Rightarrow> with_state (on_object_update env b) sp st
      | ObjectRemove b \<Rightarrow> with_state (on_object_remove env b) sp st
      | ImageCreate b \<Rightarrow> with_state (on_image_create env b) sp st
      | ImageRemove b \<Rightarrow> with_state (on_image_remove env b) sp st
      | _ \<Rightarrow> (Some (Unsupported (Some (event_kind e))), sp, st))"

definition guarded_kinds :: "Kind list" where
  "guarded_kinds =
     [K_PeerUpdate, K_ObjectCreate, K_ObjectUpdate, K_ObjectRemove, K_ImageCreate, K_ImageRemove]"

definition handled_kinds :: "Kind list" where
  "handled_kinds = [K_Ping, K_Hello, K_Connect] @ guarded_kinds"

definition handle_message ::
    "Env \<Rightarrow> nat \<Rightarrow> Kind option \<Rightarrow> bytes \<Rightarrow> ServerPeer \<Rightarrow> State \<Rightarrow>
     ServerError option \<times> ServerPeer \<times> State" where
  "handle_message env now k body sp st =
     (case k of
        None \<Rightarrow> (Some (Unsupported None), sp, st)
      | Some kind \<Rightarrow>
          if kind \<notin> set handled_kinds \<or>
             kind \<in> set guarded_kinds \<and> pk_is_zero (sps_public_key (sp_state sp))
          then (Some (Unsupported (Some kind)), sp, st)
          else case c_dec_event (e_codec env) kind body of
                 None \<Rightarrow> (Some (DecodeFailed kind), sp, st)
               | Some e \<Rightarrow>
                   if event_kind e = kind then handle_event env now e sp st
                   else (Some (DecodeFailed kind), sp, st))"

fun handle_loop ::
    "Env \<Rightarrow> nat \<Rightarrow> nat \<Rightarrow> ServerPeer \<Rightarrow> State \<Rightarrow> ServerError option \<times> ServerPeer \<times> State" where
  "handle_loop env now 0 sp st = (Some OutOfFuel, sp, st)"
| "handle_loop env now (Suc n) sp st =
     (case peer_read (e_codec env) (sps_peer (sp_state sp)) of
        (r, p) \<Rightarrow>
          let sp = sp\<lparr>sp_state := (sp_state sp)\<lparr>sps_peer := p\<rparr>\<rparr>
          in case r of
               Inl e \<Rightarrow> (Some (ReadFailed e), sp, st)
             | Inr None \<Rightarrow> (None, sp, st)
             | Inr (Some (k, body)) \<Rightarrow>
                 (case handle_message env now k body sp st of
                    (Some e, sp, st) \<Rightarrow> (Some e, sp, st)
                  | (None, sp, st) \<Rightarrow> handle_loop env now n sp st))"

definition handle ::
    "Env \<Rightarrow> nat \<Rightarrow> ServerPeer \<Rightarrow> State \<Rightarrow> ServerError option \<times> ServerPeer \<times> State" where
  "handle env now sp st =
     handle_loop env now (remaining (p_read (sps_peer (sp_state sp))) + 2) sp st"

subsection \<open>The main loop\<close>

definition accept_client :: "nat \<Rightarrow> nat \<Rightarrow> Client \<Rightarrow> State \<Rightarrow> State" where
  "accept_client now addr client st =
     (let peer = peer_new client
      in case next_peer_id (st_peers st) of
           (None, ps) \<Rightarrow> st\<lparr>st_peers := ps\<rparr>
         | (Some peer_id, ps) \<Rightarrow>
             st\<lparr>st_peers := peers_insert peer_id (server_peer_new now addr peer peer_id) ps,
                st_poll := bs_insert peer_id (st_poll st)\<rparr>)"

definition serve_ready :: "Env \<Rightarrow> nat \<Rightarrow> PeerId \<Rightarrow> Poll \<Rightarrow> State \<Rightarrow> State" where
  "serve_ready env now i result st =
     (case peers_remove i (st_peers st) of
        (None, ps) \<Rightarrow> st\<lparr>st_peers := ps\<rparr>
      | (Some sp, ps) \<Rightarrow>
          let st = st\<lparr>st_peers := ps\<rparr>;
              (err, sp, st) = (if result = PollErr then (True, sp, st)
                else case handle env now sp st of (e, sp, st) \<Rightarrow> (e \<noteq> None, sp, st))
          in if err then
               remove_peer (e_codec env) sp (st\<lparr>st_peers := peers_free i (st_peers st)\<rparr>)
             else
               (let st = st\<lparr>st_poll := bs_insert (sps_peer_id (sp_state sp)) (st_poll st)\<rparr>
                in st\<lparr>st_peers := peers_insert (sps_peer_id (sp_state sp)) sp (st_peers st)\<rparr>))"

text \<open>
  One turn of \<open>PollPeers\<close> for the peer \<open>i\<close>: poll it with the answers of its socket; if it is
  ready, the main loop takes it from there.
\<close>

definition poll_one ::
    "Env \<Rightarrow> nat \<Rightarrow> PeerId \<Rightarrow> nat Answer list \<Rightarrow> bytes Answer \<Rightarrow> State \<Rightarrow> State" where
  "poll_one env now i writes reads st =
     (case hm_get (st_map st) i of
        None \<Rightarrow> st
      | Some sp \<Rightarrow>
          (case server_peer_poll now writes reads sp of
             (r, sp) \<Rightarrow>
               let st = st\<lparr>st_peers := peers_insert i sp (st_peers st)\<rparr>
               in if r = PollPending then st else serve_ready env now i r st))"

definition refresh_parent :: "State \<Rightarrow> State" where
  "refresh_parent st = st\<lparr>st_poll := fold bs_insert (peers_ids (st_peers st)) (st_poll st)\<rparr>"

text \<open>
  The steps of the main loop. A peer is polled because it is the first of the scheduled ones
  or because its waker fired, which may happen at any time; \<open>reorder\<close> accounts for the
  unspecified iteration order of the map of peers.
\<close>

inductive server_step :: "Env \<Rightarrow> State \<Rightarrow> State \<Rightarrow> bool" for env where
  accept: "server_step env st (accept_client now addr client st)"
| scheduled: "bs_pop_first (st_poll st) = (Some i, rest) \<Longrightarrow>
    server_step env st (poll_one env now i writes reads (st\<lparr>st_poll := rest\<rparr>))"
| woken: "server_step env st (poll_one env now i writes reads st)"
| refresh: "server_step env st (refresh_parent st)"
| reorder: "distinct (map fst ps) \<Longrightarrow> set ps = set (st_map st) \<Longrightarrow>
    server_step env st (set_map ps (st_poll st) st)"

end
