(* ===== verification/ServerInv.thy ===== *)
theory ServerInv
  imports Server
begin

section \<open>The invariant of the server\<close>

text \<open>
  What the identity and membership of peers depend on is the \<open>core\<close> of a peer: its
  identifier, its public key and its room. Sending changes buffers only, so every sending
  operation leaves the cores as they are. \<open>cinv\<close> is the invariant over identifiers, cores
  and rooms; its first argument is the set of peers whose membership is being changed and
  may not hold yet. While a peer is handled it is outside the map; \<open>hinv\<close> states the
  invariant with it put back.
\<close>

datatype Core = Core (cpeer: PeerId) (ckey: PublicKey) (croom: StableId)

definition pcore :: "ServerPeerState \<Rightarrow> Core" where
  "pcore this = Core (sps_peer_id this) (sps_public_key this) (sps_room this)"

definition cores :: "(PeerId, ServerPeer) hashmap \<Rightarrow> (PeerId, Core) hashmap" where
  "cores ps = hm_map_values (\<lambda>_ sp. pcore (sp_state sp)) ps"

definition same_core :: "State \<Rightarrow> State \<Rightarrow> bool" where
  "same_core st st' \<longleftrightarrow>
     pe_ids (st_peers st') = pe_ids (st_peers st) \<and> cores (st_map st') = cores (st_map st) \<and>
     st_rooms st' = st_rooms st \<and> (bs_wf (st_poll st) \<longrightarrow> bs_wf (st_poll st'))"

named_theorems core_intros \<open>operations that leave the cores as they are\<close>

lemma same_core_refl [simp]: "same_core st st"
  by (simp add: same_core_def)

lemma same_core_trans: "same_core st st' \<Longrightarrow> same_core st' st'' \<Longrightarrow> same_core st st''"
  by (simp add: same_core_def)

lemma pcore_peer [simp]: "pcore (this\<lparr>sps_peer := p\<rparr>) = pcore this"
  by (simp add: pcore_def sps_room_def)

lemma pcore_data [simp]:
  "pcore (this\<lparr>sps_challenge := ch\<rparr>) = pcore this"
  "pcore (this\<lparr>sps_objects := obs\<rparr>) = pcore this"
  "pcore (this\<lparr>sps_images := imgs\<rparr>) = pcore this"
  by (simp_all add: pcore_def sps_room_def)

lemma core_peer_mut: "peer_mut f sp = (ok, sp') \<Longrightarrow> pcore (sp_state sp') = pcore (sp_state sp)"
  by (auto simp: peer_mut_def split: prod.splits)

lemma bs_wf_schedule [simp]: "bs_wf poll \<Longrightarrow> bs_wf (schedule ok i poll)"
  by (simp add: schedule_def)

lemma cores_insert: "cores (hm_insert i sp ps) = hm_insert i (pcore (sp_state sp)) (cores ps)"
  by (simp add: cores_def hm_map_values_insert)

lemma cores_remove: "cores (hm_remove i ps) = hm_remove i (cores ps)"
  by (simp add: cores_def hm_map_values_remove)

lemma hm_get_cores: "hm_get (cores ps) i = map_option (\<lambda>sp. pcore (sp_state sp)) (hm_get ps i)"
  by (simp add: cores_def hm_get_map_values)

lemma cores_update_same:
  "hm_get ps i = Some sp \<Longrightarrow> pcore (sp_state sp') = pcore (sp_state sp) \<Longrightarrow>
     cores (hm_insert i sp' ps) = cores ps"
  by (simp add: cores_insert hm_insert_same hm_get_cores)

lemma cores_send_each:
  "send_each me f ps poll = (ps', poll') \<Longrightarrow>
     cores ps' = cores ps \<and> (bs_wf poll \<longrightarrow> bs_wf poll')"
proof (induction me f ps poll arbitrary: ps' poll' rule: send_each.induct)
  case (1 me f poll)
  then show ?case by simp
next
  case (2 me f i sp ps poll)
  then show ?case
    by (auto simp: cores_def hm_map_values_def core_peer_mut split: if_splits prod.splits)
qed

lemma cores_send_members:
  "send_members me f is ps poll = (ps', poll') \<Longrightarrow>
     cores ps' = cores ps \<and> (bs_wf poll \<longrightarrow> bs_wf poll')"
proof (induction me f "is" ps poll rule: send_members.induct)
  case (1 me f ps poll)
  then show ?case by simp
next
  case (2 me f i "is" ps poll)
  then show ?case
    by (auto simp: cores_update_same [OF _ core_peer_mut] split: if_splits prod.splits option.splits)
qed

lemma same_core_send_to_all [core_intros]: "same_core st (send_to_all this f st)"
  by (auto simp: send_to_all_def same_core_def set_map_def dest: cores_send_each split: prod.split)

lemma same_core_send_to_room [core_intros]: "same_core st (send_to_room this f st)"
  by (auto simp: send_to_room_def same_core_def set_map_def dest: cores_send_members
      split: prod.split option.split)

lemma same_core_send_each_of [core_intros]: "same_core st (send_each_of f xs this st)"
  by (induction xs arbitrary: st) (auto intro: same_core_trans core_intros)

lemma join_members_core:
  "join_members c is this ps poll = (this', ps', poll') \<Longrightarrow>
     pcore this' = pcore this \<and> cores ps' = cores ps \<and> (bs_wf poll \<longrightarrow> bs_wf poll')"
proof (induction c "is" this ps poll rule: join_members.induct)
  case (1 c this ps poll)
  then show ?case by simp
next
  case (2 c i "is" this ps poll)
  then show ?case
    by (auto simp: cores_update_same [OF _ core_peer_mut] split: prod.splits option.splits)
qed

lemma leave_members_core:
  "leave_members c l is this ps poll = (this', ps', poll') \<Longrightarrow>
     pcore this' = pcore this \<and> cores ps' = cores ps \<and> (bs_wf poll \<longrightarrow> bs_wf poll')"
proof (induction c l "is" this ps poll rule: leave_members.induct)
  case (1 c l this ps poll)
  then show ?case by simp
next
  case (2 c l i "is" this ps poll)
  then show ?case
    by (auto simp: cores_update_same [OF _ core_peer_mut] split: prod.splits option.splits)
qed

lemma bs_wf_greet_each: "greet_each c me ps p poll = (p', poll') \<Longrightarrow> bs_wf poll \<Longrightarrow> bs_wf poll'"
proof (induction ps arbitrary: p poll)
  case Nil
  then show ?case by simp
next
  case (Cons x ps)
  obtain i sp where x: "x = (i, sp)" by (cases x)
  show ?case
    using Cons.prems by (auto simp: x split: prod.splits intro: Cons.IH bs_wf_schedule)
qed

lemma same_core_connected:
  assumes "server_connected c this st = (this', st')"
  shows "same_core st st' \<and> pcore this' = pcore this"
proof -
  define s1 where "s1 = send_to_all this
      (\<lambda>me. peer_connected c (sps_public_key me) (sps_peer_id me) (sps_props me)) st"
  define s2 where "s2 = send_each_of (\<lambda>ob me. peer_object_created c (sps_peer_id me) ob)
      (global_objects this) this s1"
  define s3 where "s3 = send_each_of (\<lambda>img me. peer_image_created c (sps_peer_id me) img)
      (hm_values (sps_images this)) this s2"
  have "same_core st s3"
    unfolding s3_def s2_def s1_def by (blast intro: same_core_trans core_intros)
  moreover obtain p poll where g:
      "greet_each c (sps_peer_id this) (st_map s3) (sps_peer this) (st_poll s3) = (p, poll)"
    by (cases "greet_each c (sps_peer_id this) (st_map s3) (sps_peer this) (st_poll s3)")
  moreover have "this' = this\<lparr>sps_peer := p\<rparr>" "st' = s3\<lparr>st_poll := poll\<rparr>"
    using assms g by (simp_all add: server_connected_def Let_def flip: s1_def s2_def s3_def)
  ultimately show ?thesis
    by (auto simp: same_core_def dest: bs_wf_greet_each)
qed

subsection \<open>The invariant\<close>

definition ids_inv :: "Ids \<Rightarrow> (PeerId, Core) hashmap \<Rightarrow> bool" where
  "ids_inv ids cs \<longleftrightarrow>
     hm_wf cs \<and> ids_ok ids (pid_raw ` set (hm_keys cs)) \<and>
     (\<forall>i x. hm_get cs i = Some x \<longrightarrow> cpeer x = i)"

definition keys_inv :: "(PeerId, Core) hashmap \<Rightarrow> bool" where
  "keys_inv cs \<longleftrightarrow>
     (\<forall>i j x y. hm_get cs i = Some x \<longrightarrow> hm_get cs j = Some y \<longrightarrow> ckey x = ckey y \<longrightarrow>
        \<not> pk_is_zero (ckey x) \<longrightarrow> i = j)"

definition rooms_wf :: "(StableId, ServerRoom) hashmap \<Rightarrow> bool" where
  "rooms_wf rooms \<longleftrightarrow>
     hm_wf rooms \<and> (\<forall>r m. hm_get rooms r = Some m \<longrightarrow> distinct (room_members m))"

definition member_ok :: "(StableId, ServerRoom) hashmap \<Rightarrow> PeerId \<Rightarrow> Core \<Rightarrow> bool" where
  "member_ok rooms i x \<longleftrightarrow>
     pk_is_zero (ckey x) \<or>
     (\<forall>m. hm_get rooms (croom x) = Some m \<longrightarrow> i \<in> set (room_members m))"

definition rooms_inv ::
    "PeerId set \<Rightarrow> (PeerId, Core) hashmap \<Rightarrow> (StableId, ServerRoom) hashmap \<Rightarrow> bool" where
  "rooms_inv X cs rooms \<longleftrightarrow>
     rooms_wf rooms \<and> (\<forall>i x. hm_get cs i = Some x \<longrightarrow> i \<notin> X \<longrightarrow> member_ok rooms i x)"

definition cinv ::
    "PeerId set \<Rightarrow> Ids \<Rightarrow> (PeerId, Core) hashmap \<Rightarrow> (StableId, ServerRoom) hashmap \<Rightarrow> bool" where
  "cinv X ids cs rooms \<longleftrightarrow> ids_inv ids cs \<and> keys_inv cs \<and> rooms_inv X cs rooms"

definition server_inv :: "State \<Rightarrow> bool" where
  "server_inv st \<longleftrightarrow>
     bs_wf (st_poll st) \<and> cinv {} (pe_ids (st_peers st)) (cores (st_map st)) (st_rooms st)"

definition hinv :: "PeerId set \<Rightarrow> ServerPeerState \<Rightarrow> State \<Rightarrow> bool" where
  "hinv X this st \<longleftrightarrow>
     bs_wf (st_poll st) \<and> hm_get (cores (st_map st)) (sps_peer_id this) = None \<and>
     cinv X (pe_ids (st_peers st))
       (hm_insert (sps_peer_id this) (pcore this) (cores (st_map st))) (st_rooms st)"

lemma pcore_simps [simp]:
  "cpeer (pcore this) = sps_peer_id this" "ckey (pcore this) = sps_public_key this"
  "croom (pcore this) = sps_room this"
  by (simp_all add: pcore_def)

lemma ids_inv_insert:
  "hm_get cs i = None \<Longrightarrow> ids_inv ids (hm_insert i x cs) \<longleftrightarrow>
     hm_wf cs \<and> ids_ok ids (insert (pid_raw i) (pid_raw ` set (hm_keys cs))) \<and> cpeer x = i \<and>
     (\<forall>j y. hm_get cs j = Some y \<longrightarrow> cpeer y = j)"
proof -
  assume absent: "hm_get cs i = None"
  then have "i \<notin> set (map fst cs)" by (simp add: hm_get_None_iff hm_keys_def)
  then have "hm_wf (hm_insert i x cs) = hm_wf cs"
    by (simp add: hm_insert_absent [OF absent] hm_wf_def)
  moreover have "(\<forall>j y. hm_get (hm_insert i x cs) j = Some y \<longrightarrow> cpeer y = j) \<longleftrightarrow>
      cpeer x = i \<and> (\<forall>j y. hm_get cs j = Some y \<longrightarrow> cpeer y = j)"
    using absent unfolding hm_get_insert by (metis option.distinct(1) option.inject)
  ultimately show ?thesis by (auto simp: ids_inv_def set_keys_insert)
qed

lemma keys_inv_insert:
  assumes absent: "hm_get cs i = None"
  shows "keys_inv (hm_insert i x cs) \<longleftrightarrow>
     keys_inv cs \<and>
     (pk_is_zero (ckey x) \<or> (\<forall>j y. hm_get cs j = Some y \<longrightarrow> ckey y \<noteq> ckey x))"
    (is "?L \<longleftrightarrow> ?R")
proof
  assume L: ?L
  have "j = k" if "hm_get cs j = Some y" "hm_get cs k = Some z" "ckey y = ckey z"
      "\<not> pk_is_zero (ckey y)" for j k y z
    using L that absent unfolding keys_inv_def hm_get_insert by (metis option.distinct(1))
  moreover have "ckey y \<noteq> ckey x" if "hm_get cs j = Some y" "\<not> pk_is_zero (ckey x)" for j y
    using L that absent unfolding keys_inv_def hm_get_insert by (metis option.distinct(1))
  ultimately show ?R unfolding keys_inv_def by blast
next
  assume R: ?R
  show ?L
    unfolding keys_inv_def hm_get_insert
  proof (intro allI impI)
    fix j k y z
    assume *: "(if j = i then Some x else hm_get cs j) = Some y"
      "(if k = i then Some x else hm_get cs k) = Some z"
      "ckey y = ckey z" "\<not> pk_is_zero (ckey y)"
    from R have "keys_inv cs" and
      "pk_is_zero (ckey x) \<or> (\<forall>j y. hm_get cs j = Some y \<longrightarrow> ckey y \<noteq> ckey x)" by auto
    with * show "j = k"
      unfolding keys_inv_def by (cases "j = i"; cases "k = i") auto
  qed
qed

lemma rooms_inv_insert:
  "hm_get cs i = None \<Longrightarrow> rooms_inv X (hm_insert i x cs) rooms \<longleftrightarrow>
     rooms_inv X cs rooms \<and> (i \<notin> X \<longrightarrow> member_ok rooms i x)"
  unfolding rooms_inv_def hm_get_insert by (metis option.distinct(1) option.inject)

lemma rooms_inv_absent:
  "hm_get cs i = None \<Longrightarrow> rooms_inv (insert i X) cs rooms \<longleftrightarrow> rooms_inv X cs rooms"
  unfolding rooms_inv_def by (metis insert_iff option.distinct(1))

lemma hinv_iff:
  "hinv X this st \<longleftrightarrow>
     bs_wf (st_poll st) \<and> hm_get (cores (st_map st)) (sps_peer_id this) = None \<and>
     hm_wf (cores (st_map st)) \<and>
     ids_ok (pe_ids (st_peers st))
       (insert (pid_raw (sps_peer_id this)) (pid_raw ` set (hm_keys (cores (st_map st))))) \<and>
     (\<forall>j y. hm_get (cores (st_map st)) j = Some y \<longrightarrow> cpeer y = j) \<and>
     keys_inv (cores (st_map st)) \<and>
     (pk_is_zero (sps_public_key this) \<or>
       (\<forall>j y. hm_get (cores (st_map st)) j = Some y \<longrightarrow> ckey y \<noteq> sps_public_key this)) \<and>
     rooms_inv X (cores (st_map st)) (st_rooms st) \<and>
     (sps_peer_id this \<notin> X \<longrightarrow> member_ok (st_rooms st) (sps_peer_id this) (pcore this))"
  unfolding hinv_def cinv_def
  by (cases "hm_get (cores (st_map st)) (sps_peer_id this)")
    (simp_all add: ids_inv_insert keys_inv_insert rooms_inv_insert conj_ac)

lemma rooms_inv_mono: "rooms_inv X cs rooms \<Longrightarrow> X \<subseteq> Y \<Longrightarrow> rooms_inv Y cs rooms"
  by (auto simp: rooms_inv_def)

lemma hinv_mono: "hinv X this st \<Longrightarrow> X \<subseteq> Y \<Longrightarrow> hinv Y this st"
  by (auto simp: hinv_def cinv_def intro: rooms_inv_mono)

lemma hinv_cong:
  assumes "hinv X this st" "same_core st st'" "pcore this' = pcore this"
  shows "hinv X this' st'"
  using assms by (auto simp: hinv_def same_core_def pcore_def)

lemma pcore_id: "pcore this' = pcore this \<Longrightarrow> sps_peer_id this' = sps_peer_id this"
  by (simp add: pcore_def)

text \<open>A change of the key or the room of the peer being handled.\<close>

lemma hinv_change:
  assumes "hinv X this st" "sps_peer_id this' = sps_peer_id this"
    and "sps_public_key this' = sps_public_key this \<or>
      (\<forall>j y. hm_get (cores (st_map st)) j = Some y \<longrightarrow> ckey y \<noteq> sps_public_key this')"
  shows "hinv (insert (sps_peer_id this) X) this' st"
  using assms by (auto simp: hinv_iff intro: rooms_inv_mono)

lemma rooms_inv_new_room:
  assumes "rooms_inv X cs rooms" "distinct ms"
    and "\<And>i x. hm_get cs i = Some x \<Longrightarrow> croom x = room \<Longrightarrow> i \<in> set ms"
  shows "rooms_inv X cs (hm_insert room \<lparr>room_members = ms\<rparr> rooms)"
  using assms unfolding rooms_inv_def rooms_wf_def member_ok_def hm_get_insert
  by (auto split: if_splits)

lemma create_room_hinv:
  assumes "hinv X this st"
  shows "hinv X this (create_room this oid st)"
proof -
  let ?me = "sps_peer_id this"
  define room where "room = StableId_new (sps_public_key this) oid"
  define ms where "ms = map fst (filter (\<lambda>(i, sp). sps_room (sp_state sp) = room) (st_map st)) @
      (if sps_room this = room then [?me] else [])"
  have out: "create_room this oid st =
      st\<lparr>st_rooms := hm_insert room \<lparr>room_members = ms\<rparr> (st_rooms st)\<rparr>"
    by (simp add: create_room_def Let_def ms_def room_def)
  have wf: "hm_wf (st_map st)" and absent: "hm_get (st_map st) ?me = None"
    using assms by (auto simp: hinv_iff cores_def hm_get_map_values)
  have "?me \<notin> fst ` set (st_map st)"
    using absent by (simp add: hm_get_None_iff hm_keys_def)
  then have dist: "distinct ms"
    using wf by (auto simp: ms_def hm_wf_def distinct_map_filter)
  have mem: "i \<in> set ms"
    if "hm_get (hm_insert ?me (pcore this) (cores (st_map st))) i = Some x" "croom x = room" for i x
  proof (cases "i = ?me")
    case False
    with that obtain sp where "hm_get (st_map st) i = Some sp" "sps_room (sp_state sp) = room"
      by (auto simp: hm_get_cores hm_get_insert)
    then have "(i, sp) \<in> set (filter (\<lambda>(i, sp). sps_room (sp_state sp) = room) (st_map st))"
      by (simp add: hm_get_mem)
    then show ?thesis by (force simp: ms_def)
  qed (use that in \<open>auto simp: hm_get_insert ms_def\<close>)
  show ?thesis
    using assms rooms_inv_new_room [OF _ dist mem] by (simp add: hinv_def cinv_def out)
qed

lemma join_room_hinv:
  assumes "hinv (insert (sps_peer_id this) X) this st" "join_room c (sps_room this) this st = (this', st')"
  shows "hinv X this' st' \<and> pcore this' = pcore this"
proof (cases "hm_get (st_rooms st) (sps_room this)")
  case None
  with assms have "this' = this" "st' = st" by (simp_all add: join_room_def)
  moreover have "member_ok (st_rooms st) (sps_peer_id this) (pcore this)"
    using None by (simp add: member_ok_def)
  moreover have "rooms_inv X (cores (st_map st)) (st_rooms st)"
    using assms(1) rooms_inv_absent unfolding hinv_iff by blast
  ultimately show ?thesis
    using assms(1) by (simp add: hinv_iff)
next
  case (Some r)
  let ?i = "sps_peer_id this"
  obtain this1 ps poll where j:
      "join_members c (room_members r) this (st_map st) (st_poll st) = (this1, ps, poll)"
    by (cases "join_members c (room_members r) this (st_map st) (st_poll st)")
  note core = join_members_core [OF j]
  then have i: "sps_peer_id this1 = ?i" by (simp add: pcore_def)
  let ?r = "if ?i \<in> set (room_members r) then r
      else r\<lparr>room_members := room_members r @ [?i]\<rparr>"
  from assms(2) Some j i have out: "this' = this1"
    "st' = (set_map ps poll st)\<lparr>st_rooms := hm_insert (sps_room this) ?r (st_rooms st)\<rparr>"
    by (auto simp: join_room_def Let_def)
  have "distinct (room_members r)"
    using assms(1) Some by (auto simp: hinv_def cinv_def rooms_inv_def rooms_wf_def)
  then have "distinct (room_members ?r)" by simp
  moreover have mem: "set (room_members ?r) = insert ?i (set (room_members r))" by auto
  moreover have "member_ok (hm_insert (sps_room this) ?r (st_rooms st)) i x"
    if "member_ok (st_rooms st) i x" for i x
    using that Some mem unfolding member_ok_def hm_get_insert by auto
  moreover have "member_ok (hm_insert (sps_room this) ?r (st_rooms st)) ?i (pcore this)"
    using mem unfolding member_ok_def hm_get_insert by auto
  ultimately have "rooms_inv X (hm_insert ?i (pcore this) (cores (st_map st)))
      (hm_insert (sps_room this) ?r (st_rooms st))"
    using assms(1)
    by (auto simp: hinv_def cinv_def rooms_inv_def rooms_wf_def hm_get_insert simp del: set_append
        split: if_splits)
  with assms(1) core i show ?thesis
    by (auto simp: hinv_def cinv_def out set_map_def)
qed

lemma leave_room_hinv:
  assumes "hinv X this st" "leave_room c room l this st = (this', st')"
  shows "hinv (insert l X) this' st' \<and> pcore this' = pcore this"
proof (cases "hm_get (st_rooms st) room")
  case None
  with assms show ?thesis by (auto simp: leave_room_def intro: hinv_mono)
next
  case (Some r)
  let ?r = "r\<lparr>room_members := filter (\<lambda>i. i \<noteq> l) (room_members r)\<rparr>"
  obtain this1 ps poll where j:
      "leave_members c l (room_members ?r) this (st_map st) (st_poll st) = (this1, ps, poll)"
    by (cases "leave_members c l (room_members ?r) this (st_map st) (st_poll st)")
  note core = leave_members_core [OF j]
  then have i: "sps_peer_id this1 = sps_peer_id this" by (simp add: pcore_def)
  from assms(2) Some j have out: "this' = this1"
    "st' = (set_map ps poll st)\<lparr>st_rooms := hm_insert room ?r (st_rooms st)\<rparr>"
    by (simp_all add: leave_room_def Let_def)
  have "member_ok (hm_insert room ?r (st_rooms st)) i x"
    if "member_ok (st_rooms st) i x" "i \<noteq> l" for i x
    using that Some unfolding member_ok_def hm_get_insert by auto
  then have "rooms_inv (insert l X) (hm_insert (sps_peer_id this) (pcore this) (cores (st_map st)))
      (hm_insert room ?r (st_rooms st))"
    using assms(1) Some
    by (auto simp: hinv_def cinv_def rooms_inv_def rooms_wf_def hm_get_insert split: if_splits)
  with assms(1) core i show ?thesis
    by (auto simp: hinv_def cinv_def out set_map_def)
qed

subsection \<open>The handlers keep the invariant\<close>

text \<open>
  What every handler guarantees: the identifier of the peer stays, and the invariant holds
  for all peers after a success, and for all but this one (which is then removed) after an
  error.
\<close>

definition handled_ok :: "ServerPeerState \<Rightarrow> ServerError option \<Rightarrow> ServerPeerState \<Rightarrow> State \<Rightarrow> bool"
where
  "handled_ok this e this' st' \<longleftrightarrow>
     sps_peer_id this' = sps_peer_id this \<and>
     hinv (if e = None then {} else {sps_peer_id this}) this' st'"

lemma handled_same:
  assumes "hinv {} this st" "same_core st st'" "pcore this' = pcore this"
  shows "handled_ok this e this' st'"
  using hinv_cong [OF assms] pcore_id [OF assms(3)]
  by (auto simp: handled_ok_def intro: hinv_mono)

lemma pcore_reply: "reply f this = (ok, this') \<Longrightarrow> pcore this' = pcore this"
  by (auto simp: reply_def split: prod.splits)

lemma on_hello_ok:
  "hinv {} this st \<Longrightarrow> on_hello env b this st = (e, this', st') \<Longrightarrow> handled_ok this e this' st'"
  by (rule handled_same)
    (auto simp: on_hello_def Let_def same_core_def dest: pcore_reply
      split: if_splits prod.splits bool.splits)

lemma add_objects_hinv:
  "hinv X this st \<Longrightarrow> add_objects obs this st = (this', st') \<Longrightarrow>
     hinv X this' st' \<and> pcore this' = pcore this \<and> st_peers st' = st_peers st"
proof (induction obs this st rule: add_objects.induct)
  case (1 this st)
  then show ?case by simp
next
  case (2 ob obs this st)
  define st1 where "st1 = (if ro_ty ob = TYPE_ROOM then create_room this (ro_id ob) st else st)"
  define this1 where "this1 = this\<lparr>sps_objects := hm_insert (ro_id ob) ob (sps_objects this)\<rparr>"
  have "hinv X this st1" using 2(2) by (simp add: st1_def create_room_hinv)
  then have "hinv X this1 st1" by (rule hinv_cong) (simp_all add: this1_def)
  moreover have "st_peers st1 = st_peers st" by (simp add: st1_def create_room_def Let_def)
  moreover have "add_objects obs this1 st1 = (this', st')"
    using 2(3) by (simp add: st1_def this1_def)
  moreover have "pcore this1 = pcore this" by (simp add: this1_def)
  ultimately show ?case
    using 2(1) [OF st1_def this1_def] by simp
qed

lemma pcore_add_images: "pcore (add_images imgs this) = pcore this"
  by (induction imgs arbitrary: this) simp_all

lemma on_connect_ok:
  assumes "hinv {} this st" "on_connect env b this st = (e, this', st')"
  shows "handled_ok this e this' st'"
proof (cases "sps_challenge this")
  case None
  with assms show ?thesis by (auto simp: on_connect_def intro: handled_same)
next
  case (Some ch)
  let ?c = "e_codec env"
  let ?t0 = "this\<lparr>sps_challenge := None\<rparr>"
  let ?t1 = "?t0\<lparr>sps_public_key := cb_public_key b, sps_props := cb_props b\<rparr>"
  show ?thesis
  proof (cases "e_verify env (cb_public_key b) ch (cb_signature b) \<and>
      \<not> (\<exists>(i, sp)\<in>set (st_map st). sps_public_key (sp_state sp) = cb_public_key b)")
    case False
    with assms Some have "this' = ?t0" "st' = st"
      by (auto simp: on_connect_def Let_def split: if_splits)
    with assms(1) show ?thesis by (auto intro: handled_same)
  next
    case True
    obtain t2 s2 where a: "add_objects (cb_objects b) ?t1 st = (t2, s2)"
      by (cases "add_objects (cb_objects b) ?t1 st")
    define t3 where "t3 = add_images (cb_images b) t2"
    obtain ok t4 where r: "reply (send_others ?c (sps_peer_id t3) (st_map s2)) t3 = (ok, t4)"
      by (cases "reply (send_others ?c (sps_peer_id t3) (st_map s2)) t3")
    have "ckey y \<noteq> cb_public_key b" if "hm_get (cores (st_map st)) j = Some y" for j y
      using that True by (auto simp: hm_get_cores dest!: hm_get_mem)
    then have "hinv {sps_peer_id this} ?t1 st"
      using hinv_change [OF assms(1), of ?t1] by simp
    with add_objects_hinv [OF _ a] have h2: "hinv {sps_peer_id this} t2 s2"
      and "pcore t2 = pcore ?t1" by auto
    moreover have "pcore t4 = pcore t2"
      using pcore_reply [OF r] by (simp add: t3_def pcore_add_images)
    ultimately have h4: "hinv {sps_peer_id this} t4 s2" and i4: "sps_peer_id t4 = sps_peer_id this"
      by (auto intro: hinv_cong dest: pcore_id)
    show ?thesis
    proof (cases ok)
      case False
      with assms(2) Some True a r t3_def have "e = Some SendFailed" "this' = t4" "st' = s2"
        by (auto simp: on_connect_def Let_def split: if_splits)
      with h4 i4 show ?thesis by (simp add: handled_ok_def)
    next
      case ok: True
      obtain t5 s5 where c: "server_connected ?c t4 s2 = (t5, s5)"
        by (cases "server_connected ?c t4 s2")
      note core = same_core_connected [OF c]
      obtain t6 s6 where j: "join_room ?c (sps_room t5) t5 s5 = (t6, s6)"
        by (cases "join_room ?c (sps_room t5) t5 s5")
      have h5: "hinv (insert (sps_peer_id t5) {}) t5 s5"
        using hinv_cong [OF h4] core i4 by (simp add: pcore_def)
      have "e = None" "this' = t6" "st' = s6"
        using assms(2) Some True a r t3_def ok c j
        by (auto simp: on_connect_def Let_def split: if_splits)
      with join_room_hinv [OF h5 j] core i4 show ?thesis
        by (simp add: handled_ok_def pcore_def)
    qed
  qed
qed

lemma as_stable_id_norm: "as_stable_id (value_norm v) = as_stable_id v"
  by (cases v)
    (auto simp: value_norm_def sid_is_zero_def pk_is_zero_def id_is_zero_def StableId_ZERO_def
      PublicKey_ZERO_def Id_ZERO_def intro!: StableId.expand PublicKey.expand Id.expand)

lemma on_peer_update_ok:
  assumes "hinv {} this st" "on_peer_update env b this st = (e, this', st')"
  shows "handled_ok this e this' st'"
proof -
  let ?c = "e_codec env"
  obtain old props where pr: "props_insert (pub_key b) (pub_value b) (sps_props this) = (old, props)"
    by (cases "props_insert (pub_key b) (pub_value b) (sps_props this)")
  define t1 where "t1 = this\<lparr>sps_props := props\<rparr>"
  define s1 where "s1 = send_to_all t1
      (\<lambda>me. peer_updated ?c (sps_peer_id me) (pub_key b) (pub_value b)) st"
  have core: "same_core st s1" by (simp add: s1_def same_core_send_to_all)
  have get: "props_get props k = (if k = pub_key b then value_norm (pub_value b)
      else props_get (sps_props this) k)" for k
    using props_get_put [of "pub_key b" "pub_value b" "sps_props this" k] pr
    by (simp add: props_put_def)
  show ?thesis
  proof (cases "pub_key b = KEY_ROOM")
    case False
    then have "pcore t1 = pcore this"
      by (simp add: t1_def pcore_def sps_room_def get)
    moreover have "e = None" "this' = t1" "st' = s1"
      using assms(2) False pr by (auto simp: on_peer_update_def Let_def t1_def s1_def)
    ultimately show ?thesis using handled_same [OF assms(1) core] by simp
  next
    case True
    have room: "sps_room t1 = as_stable_id (pub_value b)"
      by (simp add: sps_room_def t1_def get True as_stable_id_norm)
    have i1: "sps_peer_id t1 = sps_peer_id this" by (simp add: t1_def)
    have "hinv {sps_peer_id this} t1 st"
      using hinv_change [OF assms(1), of t1] by (simp add: t1_def)
    then have h1: "hinv {sps_peer_id t1} t1 s1"
      using hinv_cong [OF _ core] i1 by simp
    obtain t2 s2 where l: "leave_room ?c (as_stable_id old) (sps_peer_id t1) t1 s1 = (t2, s2)"
      by (cases "leave_room ?c (as_stable_id old) (sps_peer_id t1) t1 s1")
    from leave_room_hinv [OF h1 l] have h2: "hinv {sps_peer_id t1} t2 s2"
      and p2: "pcore t2 = pcore t1" by simp_all
    then have r2: "sps_room t2 = as_stable_id (pub_value b)" "sps_peer_id t2 = sps_peer_id t1"
      using room by (simp_all add: pcore_def)
    obtain t3 s3 where j: "join_room ?c (sps_room t2) t2 s2 = (t3, s3)"
      by (cases "join_room ?c (sps_room t2) t2 s2")
    have "e = None" "this' = t3" "st' = s3"
      using assms(2) True pr l j r2
      by (simp_all add: on_peer_update_def Let_def t1_def s1_def)
    moreover have "hinv (insert (sps_peer_id t2) {}) t2 s2" using h2 r2 by simp
    ultimately show ?thesis
      using join_room_hinv [OF _ j] p2 i1 by (simp add: handled_ok_def pcore_def)
  qed
qed

lemma on_object_create_ok:
  assumes "hinv {} this st" "on_object_create env b this st = (e, this', st')"
  shows "handled_ok this e this' st'"
proof -
  define st1 where "st1 = (if ro_ty (ocb_object b) = TYPE_ROOM
      then create_room (this\<lparr>sps_objects := hm_insert (ro_id (ocb_object b)) (ocb_object b)
        (sps_objects this)\<rparr>) (ro_id (ocb_object b)) st else st)"
  let ?t = "this\<lparr>sps_objects := hm_insert (ro_id (ocb_object b)) (ocb_object b) (sps_objects this)\<rparr>"
  have t: "hinv {} ?t st" by (rule hinv_cong [OF assms(1)]) simp_all
  then have "hinv {} ?t st1" by (simp add: st1_def create_room_hinv)
  moreover have "this' = ?t" "same_core st1 st'"
    using assms(2)
    by (auto simp: on_object_create_def Let_def st1_def same_core_send_to_all same_core_send_to_room
        split: if_splits)
  ultimately have "handled_ok ?t e this' st'" by (auto intro: handled_same)
  then show ?thesis by (auto simp: handled_ok_def split: if_splits)
qed

lemma on_object_update_ok:
  "hinv {} this st \<Longrightarrow> on_object_update env b this st = (e, this', st') \<Longrightarrow> handled_ok this e this' st'"
  by (rule handled_same)
    (auto simp: on_object_update_def Let_def same_core_send_to_all same_core_send_to_room
      split: option.splits if_splits)

lemma hinv_remove_room:
  assumes "hinv X this st"
  shows "hinv X this (st\<lparr>st_rooms := hm_remove r (st_rooms st)\<rparr>)"
  using assms
  by (auto simp: hinv_def cinv_def rooms_inv_def rooms_wf_def member_ok_def hm_get_remove
      split: if_splits)

lemma on_object_remove_ok:
  assumes "hinv {} this st" "on_object_remove env b this st = (e, this', st')"
  shows "handled_ok this e this' st'"
proof (cases "hm_get (sps_objects this) (orb_object_id b)")
  case None
  with assms show ?thesis by (auto simp: on_object_remove_def intro: handled_same)
next
  case (Some ob)
  define st1 where "st1 = (if ro_ty ob = TYPE_ROOM
      then st\<lparr>st_rooms := hm_remove (StableId_new (sps_public_key this) (orb_object_id b))
        (st_rooms st)\<rparr> else st)"
  have "hinv {} this st1" using assms(1) by (simp add: st1_def hinv_remove_room)
  moreover have "same_core st1 st'" "pcore this' = pcore this"
    using assms(2) Some
    by (auto simp: on_object_remove_def Let_def st1_def same_core_send_to_all
        same_core_send_to_room split: if_splits)
  ultimately show ?thesis by (rule handled_same)
qed

lemma on_image_create_ok:
  "hinv {} this st \<Longrightarrow> on_image_create env b this st = (e, this', st') \<Longrightarrow> handled_ok this e this' st'"
  by (rule handled_same) (auto simp: on_image_create_def Let_def same_core_send_to_room)

lemma on_image_remove_ok:
  "hinv {} this st \<Longrightarrow> on_image_remove env b this st = (e, this', st') \<Longrightarrow> handled_ok this e this' st'"
  by (rule handled_same) (auto simp: on_image_remove_def Let_def same_core_send_to_room)

lemma with_state_ok:
  assumes "\<And>e this' st'. h (sp_state sp) st = (e, this', st') \<Longrightarrow> handled_ok (sp_state sp) e this' st'"
    and "with_state h sp st = (e, sp', st')"
  shows "handled_ok (sp_state sp) e (sp_state sp') st'"
  using assms by (auto simp: with_state_def split: prod.splits)

lemma handle_event_ok:
  assumes "hinv {} (sp_state sp) st" "handle_event env now ev sp st = (e, sp', st')"
  shows "handled_ok (sp_state sp) e (sp_state sp') st'"
proof (cases ev)
  case (Ping b)
  with assms(2) have "st' = st" "pcore (sp_state sp') = pcore (sp_state sp)"
    by (auto simp: handle_event_def on_ping_def dest: pcore_reply split: prod.splits)
  with assms(1) show ?thesis by (auto intro: handled_same)
next
  case (Hello b)
  with assms show ?thesis
    by (auto simp: handle_event_def intro: with_state_ok on_hello_ok)
next
  case (Connect b)
  with assms show ?thesis
    by (auto simp: handle_event_def intro: with_state_ok on_connect_ok)
next
  case (PeerUpdate b)
  with assms show ?thesis
    by (auto simp: handle_event_def intro: with_state_ok on_peer_update_ok)
next
  case (ObjectCreate b)
  with assms show ?thesis
    by (auto simp: handle_event_def intro: with_state_ok on_object_create_ok)
next
  case (ObjectUpdate b)
  with assms show ?thesis
    by (auto simp: handle_event_def intro: with_state_ok on_object_update_ok)
next
  case (ObjectRemove b)
  with assms show ?thesis
    by (auto simp: handle_event_def intro: with_state_ok on_object_remove_ok)
next
  case (ImageCreate b)
  with assms show ?thesis
    by (auto simp: handle_event_def intro: with_state_ok on_image_create_ok)
next
  case (ImageRemove b)
  with assms show ?thesis
    by (auto simp: handle_event_def intro: with_state_ok on_image_remove_ok)
qed (use assms in \<open>auto simp: handle_event_def intro: handled_same\<close>)

lemma handle_message_ok:
  assumes "hinv {} (sp_state sp) st" "handle_message env now k body sp st = (e, sp', st')"
  shows "handled_ok (sp_state sp) e (sp_state sp') st'"
  using assms
  by (auto simp: handle_message_def intro: handled_same handle_event_ok
      split: option.splits if_splits)

lemma handle_loop_ok:
  "hinv {} (sp_state sp) st \<Longrightarrow> handle_loop env now n sp st = (e, sp', st') \<Longrightarrow>
     handled_ok (sp_state sp) e (sp_state sp') st'"
proof (induction n arbitrary: sp st)
  case 0
  then show ?case by (auto intro: handled_same)
next
  case (Suc n)
  obtain r p where rp: "peer_read (e_codec env) (sps_peer (sp_state sp)) = (r, p)"
    by (cases "peer_read (e_codec env) (sps_peer (sp_state sp))")
  let ?sp = "sp\<lparr>sp_state := (sp_state sp)\<lparr>sps_peer := p\<rparr>\<rparr>"
  have h: "hinv {} (sp_state ?sp) st"
    by (rule hinv_cong [OF Suc.prems(1)]) simp_all
  show ?case
  proof (cases "\<exists>k body. r = Inr (Some (k, body))")
    case False
    with Suc.prems(2) rp have "sp' = ?sp" "st' = st"
      by (auto simp: Let_def split: sum.splits option.splits)
    then show ?thesis using handled_same [OF Suc.prems(1)] by simp
  next
    case True
    then obtain k body where r: "r = Inr (Some (k, body))" by blast
    obtain e1 sp1 st1 where m: "handle_message env now k body ?sp st = (e1, sp1, st1)"
      by (cases "handle_message env now k body ?sp st")
    note ok = handle_message_ok [OF h m]
    show ?thesis
    proof (cases e1)
      case None
      with ok have "hinv {} (sp_state sp1) st1" "sps_peer_id (sp_state sp1) = sps_peer_id (sp_state sp)"
        by (simp_all add: handled_ok_def)
      with Suc.IH [of sp1 st1] Suc.prems(2) rp r m None show ?thesis
        by (auto simp: handled_ok_def split: if_splits)
    next
      case (Some err)
      with ok Suc.prems(2) rp r m show ?thesis by (auto simp: handled_ok_def)
    qed
  qed
qed

subsection \<open>The steps keep the invariant\<close>

lemma server_inv_new: "server_inv (state_new seed)"
  by (auto simp: server_inv_def state_new_def peers_new_def cores_def hm_map_values_def cinv_def
      ids_inv_def hm_keys_def keys_inv_def rooms_inv_def rooms_wf_def hm_wf_def hm_get_def)

lemma server_inv_same: "server_inv st \<Longrightarrow> same_core st st' \<Longrightarrow> server_inv st'"
  by (simp add: server_inv_def same_core_def)

lemma cinv_split:
  "cinv X ids cs rooms \<longleftrightarrow> ids_inv ids cs \<and> keys_inv cs \<and> rooms_inv X cs rooms"
  by (simp add: cinv_def)

lemma server_inv_absent:
  assumes "server_inv st" "pid_raw i \<notin> pid_raw ` set (hm_keys (cores (st_map st)))"
  shows "hm_get (st_map st) i = None"
  using assms(2) by (auto simp: hm_get_None_iff cores_def hm_keys_map_values)

lemma accept_client_inv:
  assumes "server_inv st"
  shows "server_inv (accept_client now addr cl st)"
proof -
  let ?cs = "cores (st_map st)" and ?ids = "pe_ids (st_peers st)"
  have ok: "ids_ok ?ids (pid_raw ` set (hm_keys ?cs))"
    using assms by (simp add: server_inv_def cinv_def ids_inv_def)
  obtain r ids' where nx: "ids_next ?ids = (r, ids')" by (cases "ids_next ?ids")
  show ?thesis
  proof (cases r)
    case None
    with ids_next_None [OF ok] nx have "ids' = ?ids" by simp
    with nx None have "accept_client now addr cl st = st"
      by (simp add: accept_client_def next_peer_id_def Let_def)
    with assms show ?thesis by simp
  next
    case (Some i)
    let ?sp = "server_peer_new now addr (peer_new cl) (PeerId_new i)"
    from ids_next_Some [OF ok] nx Some
    have fresh: "i \<notin> pid_raw ` set (hm_keys ?cs)"
      and ok': "ids_ok ids' (insert i (pid_raw ` set (hm_keys ?cs)))" by simp_all
    have out: "accept_client now addr cl st =
        st\<lparr>st_peers := \<lparr>pe_ids = ids', pe_peers = hm_insert (PeerId_new i) ?sp (st_map st)\<rparr>,
           st_poll := bs_insert (PeerId_new i) (st_poll st)\<rparr>"
      using nx Some
      by (simp add: accept_client_def next_peer_id_def peers_insert_def Let_def)
    have absent: "hm_get ?cs (PeerId_new i) = None"
      using fresh by (force simp: hm_get_None_iff)
    have zero: "pk_is_zero (sps_public_key (sp_state ?sp))" "sps_peer_id (sp_state ?sp) = PeerId_new i"
      by (simp_all add: server_peer_new_def pk_is_zero_def PublicKey_ZERO_def)
    then have "cinv {} ids' (hm_insert (PeerId_new i) (pcore (sp_state ?sp)) ?cs) (st_rooms st)"
      using assms absent ok'
      by (simp add: server_inv_def cinv_def ids_inv_insert keys_inv_insert rooms_inv_insert
          member_ok_def) (simp add: ids_inv_def)
    with assms show ?thesis by (simp add: server_inv_def out cores_insert)
  qed
qed

lemma hinv_of_server_inv:
  assumes inv: "server_inv st" and sp: "hm_get (st_map st) i = Some sp"
  shows "hinv {} (sp_state sp) (st\<lparr>st_peers := (st_peers st)\<lparr>pe_peers := hm_remove i (st_map st)\<rparr>\<rparr>)
    \<and> sps_peer_id (sp_state sp) = i"
proof -
  let ?cs = "cores (st_map st)" and ?x = "pcore (sp_state sp)"
  have x: "hm_get ?cs i = Some ?x" by (simp add: hm_get_cores sp)
  then have i: "sps_peer_id (sp_state sp) = i" and wf: "hm_wf ?cs"
    using inv by (auto simp: server_inv_def cinv_def ids_inv_def dest!: spec)
  have get: "hm_get (hm_insert i ?x (hm_remove i ?cs)) = hm_get ?cs"
    using x by (auto simp: hm_get_insert hm_get_remove)
  then have "cinv {} (pe_ids (st_peers st)) (hm_insert i ?x (hm_remove i ?cs)) (st_rooms st)"
    using inv x wf
    by (auto simp: server_inv_def cinv_def ids_inv_def keys_inv_def rooms_inv_def
        set_keys_insert set_keys_remove hm_keys_iff insert_absorb)
  with i inv show ?thesis
    by (simp add: hinv_def cores_remove server_inv_def hm_get_remove)
qed

lemma server_inv_of_hinv:
  assumes "hinv {} (sp_state sp) st"
  shows "server_inv (st\<lparr>st_peers := peers_insert (sps_peer_id (sp_state sp)) sp (st_peers st)\<rparr>)"
  using assms by (simp add: hinv_def server_inv_def peers_insert_def cores_insert)

lemma pe_peers_free [simp]: "pe_peers (peers_free i ps) = pe_peers ps"
  by (simp add: peers_free_def)

lemma remove_peer_inv:
  assumes h: "hinv {sps_peer_id (sp_state sp)} (sp_state sp) st"
  shows "server_inv (remove_peer c sp
    (st\<lparr>st_peers := peers_free (sps_peer_id (sp_state sp)) (st_peers st)\<rparr>))"
proof -
  let ?i = "sps_peer_id (sp_state sp)"
  let ?st = "st\<lparr>st_peers := peers_free ?i (st_peers st)\<rparr>"
  have absent: "hm_get (cores (st_map st)) ?i = None" and
    ok: "ids_ok (pe_ids (st_peers st)) (insert (pid_raw ?i) (pid_raw ` set (hm_keys (cores (st_map st)))))"
    using h by (simp_all add: hinv_iff)
  have "pid_raw ?i \<notin> pid_raw ` set (hm_keys (cores (st_map st)))"
    using absent PeerId.expand by (auto simp: hm_get_None_iff)
  with ids_release_ok [OF ok, of "pid_raw ?i"]
  have "ids_ok (pe_ids (st_peers ?st)) (pid_raw ` set (hm_keys (cores (st_map st))))"
    by (simp add: peers_free_def)
  with h have "server_inv ?st"
    using rooms_inv_absent [OF absent]
    by (simp add: hinv_iff server_inv_def cinv_def ids_inv_def)
  then have "server_inv (server_disconnected c (sp_state sp) ?st)"
    by (rule server_inv_same) (simp add: server_disconnected_def same_core_send_to_all)
  then show ?thesis
    by (simp add: remove_peer_def Let_def server_inv_def)
qed

lemma serve_ready_inv:
  assumes "server_inv st"
  shows "server_inv (serve_ready env now i r st)"
proof (cases "hm_get (st_map st) i")
  case None
  then have "serve_ready env now i r st = st"
    by (simp add: serve_ready_def peers_remove_def hm_remove_absent)
  with assms show ?thesis by simp
next
  case (Some sp)
  let ?st = "st\<lparr>st_peers := (st_peers st)\<lparr>pe_peers := hm_remove i (st_map st)\<rparr>\<rparr>"
  from hinv_of_server_inv [OF assms Some]
  have h: "hinv {} (sp_state sp) ?st" and i: "sps_peer_id (sp_state sp) = i" by simp_all
  obtain e sp1 st1 where hd: "handle env now sp ?st = (e, sp1, st1)"
    by (cases "handle env now sp ?st")
  note ok = handle_loop_ok [OF h hd [unfolded handle_def]]
  show ?thesis
  proof (cases "r = PollErr")
    case True
    with Some i have "serve_ready env now i r st = remove_peer (e_codec env) sp
        (?st\<lparr>st_peers := peers_free (sps_peer_id (sp_state sp)) (st_peers ?st)\<rparr>)"
      by (simp add: serve_ready_def peers_remove_def Let_def)
    with remove_peer_inv [of sp ?st] hinv_mono [OF h] show ?thesis by simp
  next
    case False
    show ?thesis
    proof (cases e)
      case None
      with ok have h1: "hinv {} (sp_state sp1) st1" by (simp add: handled_ok_def)
      then have "hinv {} (sp_state sp1)
          (st1\<lparr>st_poll := bs_insert (sps_peer_id (sp_state sp1)) (st_poll st1)\<rparr>)"
        by (simp add: hinv_def)
      with False Some None hd show ?thesis
        by (auto simp: serve_ready_def peers_remove_def Let_def dest: server_inv_of_hinv)
    next
      case (Some err)
      with ok i have h1: "hinv {sps_peer_id (sp_state sp1)} (sp_state sp1) st1"
        and i1: "sps_peer_id (sp_state sp1) = i"
        by (simp_all add: handled_ok_def)
      have "serve_ready env now i r st = remove_peer (e_codec env) sp1
          (st1\<lparr>st_peers := peers_free (sps_peer_id (sp_state sp1)) (st_peers st1)\<rparr>)"
        using False \<open>hm_get (st_map st) i = Some sp\<close> Some hd i1
        by (simp add: serve_ready_def peers_remove_def Let_def)
      with remove_peer_inv [OF h1] show ?thesis by simp
    qed
  qed
qed

lemma poll_one_inv:
  assumes "server_inv st"
  shows "server_inv (poll_one env now i ws rs st)"
proof (cases "hm_get (st_map st) i")
  case None
  with assms show ?thesis by (simp add: poll_one_def)
next
  case (Some sp)
  obtain r sp' where p: "server_peer_poll now ws rs sp = (r, sp')"
    by (cases "server_peer_poll now ws rs sp")
  then have "pcore (sp_state sp') = pcore (sp_state sp)"
    by (auto simp: server_peer_poll_def split: if_splits prod.splits)
  then have "same_core st (st\<lparr>st_peers := peers_insert i sp' (st_peers st)\<rparr>)"
    using Some by (simp add: same_core_def peers_insert_def cores_update_same)
  with assms have "server_inv (st\<lparr>st_peers := peers_insert i sp' (st_peers st)\<rparr>)"
    by (rule server_inv_same)
  with Some p show ?thesis by (simp add: poll_one_def Let_def serve_ready_inv)
qed

lemma bs_wf_fold_insert: "bs_wf xs \<Longrightarrow> bs_wf (fold bs_insert ys xs)"
  by (induction ys arbitrary: xs) simp_all

lemma bs_wf_pop_first: "bs_wf xs \<Longrightarrow> bs_pop_first xs = (r, rest) \<Longrightarrow> bs_wf rest"
  by (cases xs) (auto simp: bs_wf_def)

lemma set_map_inv:
  assumes "server_inv st" "distinct (map fst ps)" "set ps = set (st_map st)"
  shows "server_inv (set_map ps (st_poll st) st)"
proof -
  have "hm_wf (cores (st_map st))"
    using assms(1) by (simp add: server_inv_def cinv_def ids_inv_def)
  then have "distinct (map fst (st_map st))" by (simp add: hm_wf_def cores_def fst_map_values)
  then have "map_of ps = map_of (st_map st)"
    using assms(2, 3) by (intro map_of_inject_set [THEN iffD2])
  then have get: "hm_get (cores ps) = hm_get (cores (st_map st))"
    by (simp add: hm_get_cores fun_eq_iff) (simp add: hm_get_def)
  moreover have "hm_wf (cores ps)" using assms(2) by (simp add: hm_wf_def cores_def fst_map_values)
  moreover have "set (hm_keys (cores ps)) = set (hm_keys (cores (st_map st)))"
    using get by (auto simp: hm_keys_iff)
  ultimately show ?thesis
    using assms(1)
    by (simp add: server_inv_def set_map_def cinv_def ids_inv_def keys_inv_def rooms_inv_def)
qed

lemma server_step_inv:
  assumes inv: "server_inv st" and "server_step env st st'"
  shows "server_inv st'"
  using assms(2)
proof cases
  case (scheduled i rest now ws rs)
  with inv have "server_inv (st\<lparr>st_poll := rest\<rparr>)"
    by (auto simp: server_inv_def intro: bs_wf_pop_first)
  with scheduled show ?thesis by (simp add: poll_one_inv)
next
  case refresh
  with inv show ?thesis by (simp add: server_inv_def refresh_parent_def bs_wf_fold_insert)
qed (use inv in \<open>simp_all add: accept_client_inv poll_one_inv set_map_inv\<close>)

interpretation server: inv_system "\<lambda>st. \<exists>seed. st = state_new seed" "server_step env" server_inv
  for env
  by unfold_locales (auto intro: server_inv_new server_step_inv)

subsection \<open>Operations that only queue messages for the peer\<close>

lemma challenge_peer_only:
  "join_members c is this ps poll = (this', ps', poll') \<Longrightarrow> this' = this\<lparr>sps_peer := sps_peer this'\<rparr>"
  by (induction c "is" this ps poll arbitrary: this' ps' poll' rule: join_members.induct)
    (auto split: option.splits prod.splits)

lemma join_room_peer_only:
  "join_room c room this st = (this', st') \<Longrightarrow> this' = this\<lparr>sps_peer := sps_peer this'\<rparr>"
  by (auto simp: join_room_def Let_def dest: challenge_peer_only split: option.splits prod.splits)

lemma connected_peer_only:
  "server_connected c this st = (this', st') \<Longrightarrow> this' = this\<lparr>sps_peer := sps_peer this'\<rparr>"
  by (auto simp: server_connected_def Let_def split: prod.splits)

lemma reply_peer_only: "reply f this = (ok, this') \<Longrightarrow> this' = this\<lparr>sps_peer := sps_peer this'\<rparr>"
  by (auto simp: reply_def split: prod.splits)

lemma add_objects_keep:
  "add_objects obs this st = (this', st') \<Longrightarrow>
     sps_public_key this' = sps_public_key this \<and> sps_challenge this' = sps_challenge this"
  by (induction obs this st rule: add_objects.induct) (auto simp: Let_def split: if_splits)

lemma add_images_keep:
  "sps_public_key (add_images imgs this) = sps_public_key this \<and>
   sps_challenge (add_images imgs this) = sps_challenge this"
  by (induction imgs arbitrary: this) simp_all

end
