(* ===== verification/ServerBufs.thy ===== *)
theory ServerBufs
  imports ServerInv
begin

section \<open>What sending keeps, and the termination of the message loop\<close>

text \<open>
  While a message is handled, the buffers of peers change only by sending. The locale
  \<open>sending\<close> is the interface between the connection of a peer and the handlers of the server:
  any property of a peer that sending keeps holds of the peer being handled (\<open>Q\<close>) and of all
  other peers (\<open>R\<close>) after any message. Its interpretations give the well-formedness of all
  buffers in reachable states, that handling never touches the reading side of a
  connection, and that the message loop ends.
\<close>

definition keeps :: "(Peer \<Rightarrow> bool) \<Rightarrow> (Peer \<Rightarrow> bool \<times> Peer) \<Rightarrow> bool" where
  "keeps P f \<longleftrightarrow> (\<forall>p. P p \<longrightarrow> P (snd (f p)))"

definition all_peers :: "(Peer \<Rightarrow> bool) \<Rightarrow> (PeerId, ServerPeer) hashmap \<Rightarrow> bool" where
  "all_peers P ps \<longleftrightarrow> (\<forall>x\<in>set ps. P (sps_peer (sp_state (snd x))))"

lemma keepsD: "keeps P f \<Longrightarrow> f p = (ok, p') \<Longrightarrow> P p \<Longrightarrow> P p'"
  unfolding keeps_def by (metis snd_conv)

lemma all_peers_simps [simp]:
  "all_peers P []"
  "all_peers P ((i, sp) # ps) \<longleftrightarrow> P (sps_peer (sp_state sp)) \<and> all_peers P ps"
  by (simp_all add: all_peers_def)

lemma all_peers_insert:
  "all_peers P ps \<Longrightarrow> P (sps_peer (sp_state sp)) \<Longrightarrow> all_peers P (hm_insert i sp ps)"
  by (induction ps) (auto simp: hm_insert_def)

lemma all_peers_remove: "all_peers P ps \<Longrightarrow> all_peers P (hm_remove i ps)"
  by (induction ps) (auto simp: hm_remove_def)

lemma all_peers_get: "all_peers P ps \<Longrightarrow> hm_get ps i = Some sp \<Longrightarrow> P (sps_peer (sp_state sp))"
  unfolding all_peers_def by (metis hm_get_mem snd_conv)

lemma keeps_mut:
  "keeps P f \<Longrightarrow> peer_mut f sp = (ok, sp') \<Longrightarrow> P (sps_peer (sp_state sp)) \<Longrightarrow>
     P (sps_peer (sp_state sp'))"
  by (auto simp: peer_mut_def dest: keepsD split: prod.splits)

lemma keeps_reply:
  "keeps P f \<Longrightarrow> reply f this = (ok, this') \<Longrightarrow> P (sps_peer this) \<Longrightarrow> P (sps_peer this')"
  by (auto simp: reply_def dest: keepsD split: prod.splits)

lemma keeps_try_each:
  assumes "\<And>x. keeps P (f x)"
  shows "keeps P (try_each f xs)"
proof -
  have "P p \<Longrightarrow> P (snd (try_each f xs p))" for p
    by (induction xs arbitrary: p) (auto dest: keepsD [OF assms] split: prod.split bool.split)
  then show ?thesis by (simp add: keeps_def)
qed

lemma each_any_keeps:
  assumes "each_any f xs any p = (ok, p')" "\<And>x. keeps P (f x)" "P p"
  shows "P p'"
  using assms(1, 3)
  by (induction xs arbitrary: any p) (auto dest: keepsD [OF assms(2)] split: prod.splits)

lemma keeps_send_each:
  "keeps P f \<Longrightarrow> send_each me f ps poll = (ps', poll') \<Longrightarrow> all_peers P ps \<Longrightarrow> all_peers P ps'"
proof (induction me f ps poll arbitrary: ps' poll' rule: send_each.induct)
  case (1 me f poll)
  then show ?case by simp
next
  case (2 me f i sp ps poll)
  then show ?case by (auto dest: keeps_mut split: if_splits prod.splits)
qed

lemma keeps_send_members:
  "keeps P f \<Longrightarrow> send_members me f is ps poll = (ps', poll') \<Longrightarrow> all_peers P ps \<Longrightarrow>
     all_peers P ps'"
proof (induction me f "is" ps poll rule: send_members.induct)
  case (1 me f ps poll)
  then show ?case by simp
next
  case (2 me f i "is" ps poll)
  show ?case
  proof (cases "me = i \<or> hm_get ps i = None")
    case True
    with 2 show ?thesis by (auto split: if_splits)
  next
    case False
    then obtain sp where sp: "hm_get ps i = Some sp" by auto
    obtain ok sp' where m: "peer_mut f sp = (ok, sp')" by fastforce
    with 2(4, 6) sp have "all_peers P (hm_insert i sp' ps)"
      by (auto intro!: all_peers_insert dest: keeps_mut all_peers_get)
    with 2(3) [of sp ok sp'] 2(4, 5) False sp m show ?thesis by simp
  qed
qed

lemma keeps_send_to_all:
  "keeps P (f this) \<Longrightarrow> all_peers P (st_map st) \<Longrightarrow> all_peers P (st_map (send_to_all this f st))"
  by (auto simp: send_to_all_def set_map_def dest: keeps_send_each split: prod.split)

lemma keeps_send_to_room:
  "keeps P (f this) \<Longrightarrow> all_peers P (st_map st) \<Longrightarrow> all_peers P (st_map (send_to_room this f st))"
  by (auto simp: send_to_room_def set_map_def dest: keeps_send_members
      split: prod.split option.split)

lemma keeps_send_each_of:
  "(\<And>x. keeps P (f x this)) \<Longrightarrow> all_peers P (st_map st) \<Longrightarrow>
     all_peers P (st_map (send_each_of f xs this st))"
  by (induction xs arbitrary: st) (auto intro: keeps_send_to_all)

subsection \<open>The interface\<close>

locale sending =
  fixes env :: Env and Q R :: "Peer \<Rightarrow> bool"
  assumes Q_send: "Q p \<Longrightarrow> Q (snd (peer_send (e_codec env) e p))"
    and R_send: "R p \<Longrightarrow> R (snd (peer_send (e_codec env) e p))"
begin

lemma keeps_Q: "keeps Q (peer_send (e_codec env) e)"
  by (simp add: keeps_def Q_send)

lemma keeps_R: "keeps R (peer_send (e_codec env) e)"
  by (simp add: keeps_def R_send)

lemma join_members_keeps:
  "join_members (e_codec env) is this ps poll = (this', ps', poll') \<Longrightarrow> Q (sps_peer this) \<Longrightarrow>
     all_peers R ps \<Longrightarrow> Q (sps_peer this') \<and> all_peers R ps'"
proof (induction "is" arbitrary: this ps poll)
  case Nil
  then show ?case by simp
next
  case (Cons i "is")
  show ?case
  proof (cases "hm_get ps i")
    case None
    with Cons show ?thesis by simp
  next
    case (Some sp)
    obtain ok sp' where m: "peer_mut (peer_join (e_codec env) (sps_peer_id this) (local_objects this)) sp = (ok, sp')"
      by fastforce
    obtain ok' p where j: "peer_join (e_codec env) (sps_peer_id (sp_state sp'))
        (local_objects (sp_state sp')) (sps_peer this) = (ok', p)"
      by fastforce
    have "R (sps_peer (sp_state sp'))"
      by (rule keeps_mut [OF keeps_R m [unfolded peer_senders] all_peers_get [OF Cons.prems(3) Some]])
    moreover have "Q p"
      by (rule keepsD [OF keeps_Q j [unfolded peer_senders] Cons.prems(2)])
    moreover have "join_members (e_codec env) is (this\<lparr>sps_peer := p\<rparr>) (hm_insert i sp' ps)
        (schedule ok' (sps_peer_id this) (schedule ok (sps_peer_id (sp_state sp')) poll)) =
        (this', ps', poll')"
      using Cons.prems(1) Some m j by simp
    ultimately show ?thesis
      using Cons.IH Cons.prems(3) by (simp add: all_peers_insert)
  qed
qed

lemma leave_members_keeps:
  "leave_members (e_codec env) l is this ps poll = (this', ps', poll') \<Longrightarrow> Q (sps_peer this) \<Longrightarrow>
     all_peers R ps \<Longrightarrow> Q (sps_peer this') \<and> all_peers R ps'"
proof (induction "is" arbitrary: this ps poll)
  case Nil
  then show ?case by simp
next
  case (Cons i "is")
  show ?case
  proof (cases "hm_get ps i")
    case None
    with Cons show ?thesis by simp
  next
    case (Some sp)
    obtain ok sp' where m: "peer_mut (peer_leave (e_codec env) l) sp = (ok, sp')"
      by fastforce
    obtain ok' p where j: "peer_leave (e_codec env) i (sps_peer this) = (ok', p)"
      by fastforce
    have "R (sps_peer (sp_state sp'))"
      by (rule keeps_mut [OF keeps_R m [unfolded peer_senders] all_peers_get [OF Cons.prems(3) Some]])
    moreover have "Q p"
      by (rule keepsD [OF keeps_Q j [unfolded peer_senders] Cons.prems(2)])
    moreover have "leave_members (e_codec env) l is (this\<lparr>sps_peer := p\<rparr>) (hm_insert i sp' ps)
        (schedule ok' (sps_peer_id this) (schedule ok l poll)) = (this', ps', poll')"
      using Cons.prems(1) Some m j by simp
    ultimately show ?thesis
      using Cons.IH Cons.prems(3) by (simp add: all_peers_insert)
  qed
qed

lemma join_room_keeps:
  "join_room (e_codec env) room this st = (this', st') \<Longrightarrow> Q (sps_peer this) \<Longrightarrow>
     all_peers R (st_map st) \<Longrightarrow> Q (sps_peer this') \<and> all_peers R (st_map st')"
  by (auto simp: join_room_def Let_def set_map_def dest: join_members_keeps
      split: option.splits prod.splits)

lemma leave_room_keeps:
  "leave_room (e_codec env) room l this st = (this', st') \<Longrightarrow> Q (sps_peer this) \<Longrightarrow>
     all_peers R (st_map st) \<Longrightarrow> Q (sps_peer this') \<and> all_peers R (st_map st')"
  by (auto simp: leave_room_def Let_def set_map_def dest: leave_members_keeps
      split: option.splits prod.splits)

lemma greet_each_keeps:
  "greet_each (e_codec env) me ps p poll = (p', poll') \<Longrightarrow> Q p \<Longrightarrow> Q p'"
proof (induction ps arbitrary: p poll)
  case Nil
  then show ?case by simp
next
  case (Cons x ps)
  obtain i sp where x: "x = (i, sp)" by (cases x)
  let ?c = "e_codec env" and ?me = "sp_state sp"
  obtain ok p1 where 1: "peer_connected ?c (sps_public_key ?me) i (sps_props ?me) p = (ok, p1)"
    by fastforce
  obtain ok2 p2 where 2: "each_any (\<lambda>ob. peer_object_created ?c i ob) (global_objects ?me) ok p1
      = (ok2, p2)" by fastforce
  obtain ok3 p3 where 3: "each_any (\<lambda>img. peer_image_created ?c i img) (hm_values (sps_images ?me))
      ok2 p2 = (ok3, p3)" by fastforce
  have "Q p1" by (rule keepsD [OF keeps_Q 1 [unfolded peer_senders] Cons.prems(2)])
  then have "Q p2" by (rule each_any_keeps [OF 2, rotated]) (simp add: peer_senders keeps_Q)
  then have "Q p3" by (rule each_any_keeps [OF 3, rotated]) (simp add: peer_senders keeps_Q)
  then show ?case
    using Cons.prems(1) 1 2 3 by (auto simp: x intro: Cons.IH)
qed

lemma connected_keeps:
  assumes "server_connected (e_codec env) this st = (this', st')"
    and "Q (sps_peer this)" "all_peers R (st_map st)"
  shows "Q (sps_peer this') \<and> all_peers R (st_map st')"
proof -
  let ?c = "e_codec env"
  define s1 where "s1 = send_to_all this
      (\<lambda>me. peer_connected ?c (sps_public_key me) (sps_peer_id me) (sps_props me)) st"
  define s2 where "s2 = send_each_of (\<lambda>ob me. peer_object_created ?c (sps_peer_id me) ob)
      (global_objects this) this s1"
  define s3 where "s3 = send_each_of (\<lambda>img me. peer_image_created ?c (sps_peer_id me) img)
      (hm_values (sps_images this)) this s2"
  obtain p poll where g: "greet_each ?c (sps_peer_id this) (st_map s3) (sps_peer this) (st_poll s3)
      = (p, poll)" by fastforce
  have "all_peers R (st_map s1)"
    unfolding s1_def by (rule keeps_send_to_all) (simp_all add: peer_senders keeps_R assms(3))
  then have "all_peers R (st_map s2)"
    unfolding s2_def by (rule keeps_send_each_of [rotated]) (simp add: peer_senders keeps_R)
  then have "all_peers R (st_map s3)"
    unfolding s3_def by (rule keeps_send_each_of [rotated]) (simp add: peer_senders keeps_R)
  moreover have "this' = this\<lparr>sps_peer := p\<rparr>" "st' = s3\<lparr>st_poll := poll\<rparr>"
    using assms(1) g by (simp_all add: server_connected_def Let_def flip: s1_def s2_def s3_def)
  ultimately show ?thesis
    using greet_each_keeps [OF g assms(2)] by simp
qed

lemma add_objects_keeps:
  "add_objects obs this st = (this', st') \<Longrightarrow>
     sps_peer this' = sps_peer this \<and> st_map st' = st_map st"
  by (induction obs this st rule: add_objects.induct)
    (auto simp: Let_def create_room_def split: if_splits)

lemma add_images_keeps: "sps_peer (add_images imgs this) = sps_peer this"
  by (induction imgs arbitrary: this) simp_all

lemma send_others_keeps: "keeps Q (send_others (e_codec env) me ps)"
proof -
  have step: "keeps Q (\<lambda>p. if me = i then (True, p)
       else case try_each (\<lambda>ob. peer_object_created (e_codec env) (sps_peer_id (sp_state sp)) ob)
                   (global_objects (sp_state sp)) p of
              (False, p) \<Rightarrow> (False, p)
            | (True, p) \<Rightarrow>
                try_each (\<lambda>img. peer_image_created (e_codec env) (sps_peer_id (sp_state sp)) img)
                  (hm_values (sps_images (sp_state sp))) p)" for i sp
  proof -
    have "keeps Q (try_each (\<lambda>ob. peer_object_created (e_codec env) j ob) obs)"
      "keeps Q (try_each (\<lambda>img. peer_image_created (e_codec env) j img) imgs)" for j obs imgs
      by (auto intro!: keeps_try_each simp: peer_senders keeps_Q)
    then show ?thesis
      unfolding keeps_def by (auto split: prod.split bool.split) (metis snd_conv)+
  qed
  show ?thesis
    unfolding send_others_def by (rule keeps_try_each) (auto intro: step split: prod.split)
qed

lemma on_connect_keeps:
  assumes out: "on_connect env b this st = (e, this', st')"
    and q: "Q (sps_peer this)" and r: "all_peers R (st_map st)"
  shows "Q (sps_peer this') \<and> all_peers R (st_map st')"
proof -
  let ?c = "e_codec env"
  let ?t1 = "this\<lparr>sps_challenge := None, sps_public_key := cb_public_key b, sps_props := cb_props b\<rparr>"
  obtain t2 s2 where a: "add_objects (cb_objects b) ?t1 st = (t2, s2)" by fastforce
  define t3 where "t3 = add_images (cb_images b) t2"
  obtain ok t4 where rep: "reply (send_others ?c (sps_peer_id t3) (st_map s2)) t3 = (ok, t4)"
    by fastforce
  obtain t5 s5 where c: "server_connected ?c t4 s2 = (t5, s5)" by fastforce
  obtain t6 s6 where j: "join_room ?c (sps_room t5) t5 s5 = (t6, s6)" by fastforce
  have "Q (sps_peer t3)" and r2: "all_peers R (st_map s2)"
    using add_objects_keeps [OF a] q r by (simp_all add: t3_def add_images_keeps)
  then have q4: "Q (sps_peer t4)"
    using keeps_reply [OF send_others_keeps rep] by simp
  have c5: "Q (sps_peer t5)" "all_peers R (st_map s5)"
    using connected_keeps [OF c q4 r2] by simp_all
  have "(this', st') \<in> {(this, st), (this\<lparr>sps_challenge := None\<rparr>, st), (t4, s2), (t6, s6)}"
    using out a rep c j t3_def
    by (auto simp: on_connect_def Let_def split: option.splits if_splits bool.splits)
  then show ?thesis
    using q r q4 r2 join_room_keeps [OF j c5] by auto
qed

lemma on_hello_keeps:
  "on_hello env b this st = (e, this', st') \<Longrightarrow> Q (sps_peer this) \<Longrightarrow>
     Q (sps_peer this') \<and> st_map st' = st_map st"
  by (auto simp: on_hello_def Let_def peer_senders dest: keeps_reply [OF keeps_Q]
      split: prod.splits bool.splits if_splits)

lemma on_ping_keeps:
  "on_ping (e_codec env) now b sp = (e, sp') \<Longrightarrow> Q (sps_peer (sp_state sp)) \<Longrightarrow>
     Q (sps_peer (sp_state sp'))"
  by (auto simp: on_ping_def peer_senders dest: keeps_reply [OF keeps_Q] split: prod.splits)

lemma on_peer_update_keeps:
  "on_peer_update env b this st = (e, this', st') \<Longrightarrow> Q (sps_peer this) \<Longrightarrow>
     all_peers R (st_map st) \<Longrightarrow> Q (sps_peer this') \<and> all_peers R (st_map st')"
  by (auto simp: on_peer_update_def Let_def split: prod.splits if_splits
      dest!: leave_room_keeps join_room_keeps intro!: keeps_send_to_all)
    (simp_all add: peer_senders keeps_R)

lemma on_object_create_keeps:
  "on_object_create env b this st = (e, this', st') \<Longrightarrow> all_peers R (st_map st) \<Longrightarrow>
     sps_peer this' = sps_peer this \<and> all_peers R (st_map st')"
  by (auto simp: on_object_create_def create_room_def Let_def peer_senders keeps_R
      split: if_splits intro!: keeps_send_to_all keeps_send_to_room)

lemma on_object_update_keeps:
  "on_object_update env b this st = (e, this', st') \<Longrightarrow> all_peers R (st_map st) \<Longrightarrow>
     sps_peer this' = sps_peer this \<and> all_peers R (st_map st')"
  by (auto simp: on_object_update_def Let_def peer_senders keeps_R
      split: if_splits option.splits intro!: keeps_send_to_all keeps_send_to_room)

lemma on_object_remove_keeps:
  "on_object_remove env b this st = (e, this', st') \<Longrightarrow> all_peers R (st_map st) \<Longrightarrow>
     sps_peer this' = sps_peer this \<and> all_peers R (st_map st')"
  by (auto simp: on_object_remove_def Let_def peer_senders keeps_R
      split: if_splits option.splits intro!: keeps_send_to_all keeps_send_to_room)

lemma on_image_keeps:
  "on_image_create env b this st = (e, this', st') \<Longrightarrow> all_peers R (st_map st) \<Longrightarrow>
     sps_peer this' = sps_peer this \<and> all_peers R (st_map st')"
  "on_image_remove env b' this st = (e, this', st') \<Longrightarrow> all_peers R (st_map st) \<Longrightarrow>
     sps_peer this' = sps_peer this \<and> all_peers R (st_map st')"
  by (auto simp: on_image_create_def on_image_remove_def Let_def peer_senders keeps_R
      intro!: keeps_send_to_room)

lemma handle_message_keeps:
  assumes h: "handle_message env now k body sp st = (e, sp', st')"
    and q: "Q (sps_peer (sp_state sp))" and r: "all_peers R (st_map st)"
  shows "Q (sps_peer (sp_state sp')) \<and> all_peers R (st_map st')"
proof -
  have "Q (sps_peer (sp_state sp')) \<and> all_peers R (st_map st')"
    if "handle_event env now ev sp st = (e, sp', st')" for ev
    using that q r
    by (cases ev)
      (auto simp: handle_event_def with_state_def split: prod.splits
        dest!: on_ping_keeps on_hello_keeps on_connect_keeps on_peer_update_keeps
          on_object_create_keeps on_object_update_keeps on_object_remove_keeps on_image_keeps)
  with h q r show ?thesis
    by (auto simp: handle_message_def split: option.splits if_splits)
qed

end

subsection \<open>Its interpretations\<close>

definition clean :: "Env \<Rightarrow> Peer \<Rightarrow> bool" where
  "clean env p \<longleftrightarrow>
     peer_ok p \<and> ((\<forall>e. encodable (e_codec env) e) \<longrightarrow> p_scratch p = [])"

interpretation bufs: sending env "clean env" "clean env" for env
proof unfold_locales
  fix p e
  assume "clean env p"
  then show "clean env (snd (peer_send (e_codec env) e p))"
    using peer_send_encodable [of p "e_codec env" e] peer_ok_send [of p "e_codec env" e]
    by (auto simp: clean_def prod_eq_iff)
qed

interpretation quiet: sending env "\<lambda>p. p_read p = b \<and> p_state p = s" "\<lambda>p. True" for env b s
  by unfold_locales (metis peer_send_keeps_read prod.collapse, simp)

lemma all_peers_True [simp]: "all_peers (\<lambda>p. True) ps"
  by (simp add: all_peers_def)

interpretation oks: sending env peer_ok "\<lambda>p. True" for env
  by unfold_locales (simp_all add: peer_ok_send)

lemma handle_message_peer_ok:
  assumes "handle_message env now k body sp st = (e, sp', st')"
    and "peer_ok (sps_peer (sp_state sp))"
  shows "peer_ok (sps_peer (sp_state sp'))"
  using oks.handle_message_keeps [OF assms] by simp

lemma handle_message_quiet:
  assumes "handle_message env now k body sp st = (e, sp', st')"
  shows "p_read (sps_peer (sp_state sp')) = p_read (sps_peer (sp_state sp)) \<and>
    p_state (sps_peer (sp_state sp')) = p_state (sps_peer (sp_state sp))"
  using quiet.handle_message_keeps [OF assms, of "p_read (sps_peer (sp_state sp))"
      "p_state (sps_peer (sp_state sp))"] by simp

lemma handle_message_clean:
  assumes "handle_message env now k body sp st = (e, sp', st')"
    and "clean env (sps_peer (sp_state sp))" "all_peers (clean env) (st_map st)"
  shows "clean env (sps_peer (sp_state sp')) \<and> all_peers (clean env) (st_map st')"
  by (rule bufs.handle_message_keeps [OF assms])

lemma peer_read_clean:
  assumes "peer_read c p = (r, p')" "clean env p"
  shows "clean env p'"
proof -
  have ok: "peer_ok p'" and p': "p' = p\<lparr>p_read := p_read p', p_state := p_state p'\<rparr>"
    using peer_read_parses [of p c] assms by (auto simp: clean_def)
  have "p_scratch p' = p_scratch p" by (subst p') simp
  with ok assms(2) show ?thesis by (simp add: clean_def)
qed

lemma handle_loop_clean:
  "handle_loop env now n sp st = (e, sp', st') \<Longrightarrow> clean env (sps_peer (sp_state sp)) \<Longrightarrow>
     all_peers (clean env) (st_map st) \<Longrightarrow>
     clean env (sps_peer (sp_state sp')) \<and> all_peers (clean env) (st_map st')"
proof (induction n arbitrary: sp st)
  case 0
  then show ?case by simp
next
  case (Suc n)
  obtain r p where r: "peer_read (e_codec env) (sps_peer (sp_state sp)) = (r, p)" by fastforce
  let ?sp = "sp\<lparr>sp_state := (sp_state sp)\<lparr>sps_peer := p\<rparr>\<rparr>"
  have c: "clean env p" by (rule peer_read_clean [OF r Suc.prems(2)])
  show ?case
  proof (cases "\<exists>k body. r = Inr (Some (k, body))")
    case False
    with Suc.prems(1) r have "sp' = ?sp" "st' = st"
      by (auto simp: Let_def split: sum.splits option.splits)
    with c Suc.prems(3) show ?thesis by simp
  next
    case True
    then obtain k body where rk: "r = Inr (Some (k, body))" by blast
    obtain e1 sp1 st1 where m: "handle_message env now k body ?sp st = (e1, sp1, st1)"
      by (cases "handle_message env now k body ?sp st")
    have "clean env (sps_peer (sp_state sp1)) \<and> all_peers (clean env) (st_map st1)"
      by (rule handle_message_clean [OF m]) (use c Suc.prems(3) in simp_all)
    then show ?thesis
      using Suc.prems(1) Suc.IH [of sp1 st1] r rk m by (cases e1) simp_all
  qed
qed

subsection \<open>The message loop ends\<close>

lemma read_spec_consumes:
  "read_spec c bs = (Inr (Some m), rest) \<Longrightarrow> length rest + 4 \<le> length bs"
  by (auto simp: read_spec_def Let_def split: if_splits sum.splits)

lemma handle_message_fuel: "fst (handle_message env now k body sp st) \<noteq> Some OutOfFuel"
proof -
  have "fst (handle_event env now ev sp st) \<noteq> Some OutOfFuel" for ev
    by (cases ev)
      (auto simp: handle_event_def with_state_def on_ping_def on_hello_def on_connect_def
        on_peer_update_def on_object_create_def on_object_update_def on_object_remove_def
        on_image_create_def on_image_remove_def Let_def
        split: prod.split bool.split option.split)
  then show ?thesis
    by (auto simp: handle_message_def split: option.split)
qed

lemma handle_loop_fuel:
  "peer_ok (sps_peer (sp_state sp)) \<Longrightarrow> length (pending (sps_peer (sp_state sp))) + 4 \<le> 4 * n \<Longrightarrow>
     fst (handle_loop env now n sp st) \<noteq> Some OutOfFuel"
proof (induction n arbitrary: sp st)
  case 0
  then show ?case by simp
next
  case (Suc n)
  obtain r p where r: "peer_read (e_codec env) (sps_peer (sp_state sp)) = (r, p)" by fastforce
  let ?sp = "sp\<lparr>sp_state := (sp_state sp)\<lparr>sps_peer := p\<rparr>\<rparr>"
  have spec: "read_spec (e_codec env) (pending (sps_peer (sp_state sp))) = (r, pending p)" "peer_ok p"
    using peer_read_parses [OF Suc.prems(1), of "e_codec env"] r by auto
  show ?case
  proof (cases "\<exists>k body. r = Inr (Some (k, body))")
    case False
    with r show ?thesis by (auto simp: Let_def split: sum.split option.split)
  next
    case True
    then obtain k body where rk: "r = Inr (Some (k, body))" by blast
    obtain e1 sp1 st1 where m: "handle_message env now k body ?sp st = (e1, sp1, st1)"
      by (cases "handle_message env now k body ?sp st")
    have q: "p_read (sps_peer (sp_state sp1)) = p_read p" "p_state (sps_peer (sp_state sp1)) = p_state p"
      using handle_message_quiet [OF m] by simp_all
    show ?thesis
    proof (cases e1)
      case None
      have "peer_ok (sps_peer (sp_state sp1))"
        using handle_message_peer_ok [OF m] spec(2) by simp
      moreover have "pending (sps_peer (sp_state sp1)) = pending p" using q by (simp add: pending_def)
      moreover have "length (pending p) + 4 \<le> length (pending (sps_peer (sp_state sp)))"
        using spec(1) rk by (intro read_spec_consumes) simp
      ultimately show ?thesis
        using Suc.IH [of sp1 st1] Suc.prems(2) r rk m None by simp
    next
      case (Some err)
      with handle_message_fuel [of env now k body ?sp st] m have "err \<noteq> OutOfFuel" by simp
      with r rk m Some show ?thesis by simp
    qed
  qed
qed

lemma length_pending: "peer_ok p \<Longrightarrow> length (pending p) \<le> remaining (p_read p) + 4"
  by (auto simp: pending_def peer_ok_def split: ReadState.split)

lemma handle_fuel:
  assumes "peer_ok (sps_peer (sp_state sp))"
  shows "fst (handle env now sp st) \<noteq> Some OutOfFuel"
  unfolding handle_def
  by (rule handle_loop_fuel) (use assms length_pending [OF assms] in simp_all)

subsection \<open>Buffers in reachable states\<close>

lemma peer_poll_clean:
  assumes "peer_poll ws rs p = (r, p', sent)" "clean env p"
  shows "clean env p'"
proof -
  have ok: "buf_ok (p_write p)" "buf_ok (p_read p)" using assms(2) by (simp_all add: clean_def peer_ok_def)
  obtain wr w st sent' where w: "poll_write ws (p_write p) (cl_state (p_client p)) = (wr, w, st, sent')"
    by (cases "poll_write ws (p_write p) (cl_state (p_client p))") auto
  obtain rr b where b: "poll_read rs (p_read p) = (rr, b)" by fastforce
  have "p' = p\<lparr>p_write := w, p_read := b, p_client := (p_client p)\<lparr>cl_state := st\<rparr>\<rparr>"
    using assms(1) w b by (auto simp: peer_poll_def Let_def split: if_splits)
  moreover have "buf_ok w" using poll_write_queue [OF ok(1), of ws "cl_state (p_client p)"] w by simp
  moreover have "buf_ok b" using poll_read_ok [OF ok(2) b] by simp
  ultimately show ?thesis using assms(2) by (simp add: clean_def peer_ok_def)
qed

lemma server_peer_poll_clean:
  "server_peer_poll now ws rs sp = (r, sp') \<Longrightarrow> clean env (sps_peer (sp_state sp)) \<Longrightarrow>
     clean env (sps_peer (sp_state sp'))"
  by (auto simp: server_peer_poll_def dest: peer_poll_clean split: if_splits prod.splits)

lemma remove_peer_clean:
  "all_peers (clean env) (st_map st) \<Longrightarrow>
     all_peers (clean env) (st_map (remove_peer (e_codec env) sp st))"
  by (simp add: remove_peer_def server_disconnected_def Let_def)
    (rule keeps_send_to_all, simp_all add: peer_senders bufs.keeps_R)

lemma serve_ready_clean:
  assumes "all_peers (clean env) (st_map st)"
  shows "all_peers (clean env) (st_map (serve_ready env now i r st))"
proof (cases "hm_get (st_map st) i")
  case None
  with assms show ?thesis by (simp add: serve_ready_def peers_remove_def all_peers_remove)
next
  case (Some sp)
  let ?st = "st\<lparr>st_peers := (st_peers st)\<lparr>pe_peers := hm_remove i (st_map st)\<rparr>\<rparr>"
  have sp: "clean env (sps_peer (sp_state sp))" by (rule all_peers_get [OF assms Some])
  have r: "all_peers (clean env) (st_map ?st)" using assms by (simp add: all_peers_remove)
  obtain e sp1 st1 where h: "handle env now sp ?st = (e, sp1, st1)"
    by (cases "handle env now sp ?st")
  have "clean env (sps_peer (sp_state sp1)) \<and> all_peers (clean env) (st_map st1)"
    by (rule handle_loop_clean [OF h [unfolded handle_def] sp r])
  with Some r h show ?thesis
    by (cases "r = PollErr"; cases e)
      (auto simp: serve_ready_def peers_remove_def peers_insert_def Let_def
        intro!: remove_peer_clean all_peers_insert)
qed

lemma poll_one_clean:
  assumes "all_peers (clean env) (st_map st)"
  shows "all_peers (clean env) (st_map (poll_one env now i ws rs st))"
proof (cases "hm_get (st_map st) i")
  case None
  with assms show ?thesis by (simp add: poll_one_def)
next
  case (Some sp)
  obtain r sp' where p: "server_peer_poll now ws rs sp = (r, sp')" by fastforce
  have "clean env (sps_peer (sp_state sp'))"
    by (rule server_peer_poll_clean [OF p all_peers_get [OF assms Some]])
  with assms have "all_peers (clean env) (hm_insert i sp' (st_map st))" by (simp add: all_peers_insert)
  with Some p show ?thesis
    by (simp add: poll_one_def peers_insert_def Let_def serve_ready_clean)
qed

lemma clean_new [simp]: "clean env (peer_new cl)"
  by (simp add: clean_def)

lemma server_step_clean:
  assumes inv: "all_peers (clean env) (st_map st)" and "server_step env st st'"
  shows "all_peers (clean env) (st_map st')"
  using assms(2)
proof cases
  case (accept now addr cl)
  with inv show ?thesis
    by (auto simp: accept_client_def next_peer_id_def peers_insert_def server_peer_new_def Let_def
        intro!: all_peers_insert split: prod.split option.split)
next
  case (reorder ps)
  with inv show ?thesis by (simp add: set_map_def all_peers_def)
qed (use inv in \<open>simp_all add: poll_one_clean refresh_parent_def\<close>)

interpretation server_bufs: inv_system "\<lambda>st. \<exists>seed. st = state_new seed" "server_step env"
  "\<lambda>st. all_peers (clean env) (st_map st)" for env
  by unfold_locales (auto simp: state_new_def peers_new_def intro: server_step_clean)

lemma reachable_clean:
  assumes "(server_step env)\<^sup>*\<^sup>* (state_new seed) st" "hm_get (st_map st) i = Some sp"
  shows "clean env (sps_peer (sp_state sp))"
  using server_bufs.inv_reachable [OF _ assms(1)] all_peers_get [OF _ assms(2)] by blast

end
