(* ===== verification/ServerRun.thy ===== *)
theory ServerRun
  imports ServerBufs
begin

section \<open>A run of the server\<close>

text \<open>
  A concrete run used by the witnesses of the server's properties: one client connects, says
  \<open>Hello\<close>, receives its challenge and answers it with a valid \<open>Connect\<close>, all in one chunk
  of bytes. \<open>running\<close> is the state reached.
\<close>

definition ping_env :: Env where
  "ping_env = \<lparr>e_codec = ping_codec, e_verify = (\<lambda>k m s. signature_bytes s = m),
     e_rand = (\<lambda>n. replicate 32 (of_nat n))\<rparr>"

definition demo_key :: PublicKey where
  "demo_key = PublicKey_new (replicate 32 9)"

definition demo_connect :: ConnectBody where
  "demo_connect = \<lparr>cb_public_key = demo_key, cb_signature = Signature_new (replicate 32 0),
     cb_objects = [], cb_images = [], cb_props = props_new\<rparr>"

definition demo_env :: Env where
  "demo_env = ping_env\<lparr>e_codec := ping_codec\<lparr>c_dec_event := (\<lambda>k bs.
       if k = K_Connect then Some (Connect demo_connect)
       else if k = K_Hello then Some (Hello (HelloBody 1)) else None),
     c_from_id := (\<lambda>i. if i = 3 then Some K_Hello else if i = 4 then Some K_Connect else None)\<rparr>\<rparr>"

lemma demo_encodable: "encodable (e_codec demo_env) e"
  by (simp add: encodable_def demo_env_def ping_env_def ping_codec_def body_of_def split: Event.split)

definition demo_chunk :: bytes where
  "demo_chunk = [0, 0, 0, 2, 3, 0, 0, 0, 0, 2, 4, 0]"

lemma demo_first: "read_spec (e_codec demo_env) demo_chunk =
    (Inr (Some (Some K_Hello, [])), [0, 0, 0, 2, 4, 0])"
  by (simp add: read_spec_def demo_chunk_def u32_from_be_def u32_from_le_def Let_def MAX_MESSAGE_def
      read_body_def demo_env_def ping_env_def ping_codec_def)

lemma demo_second: "read_spec (e_codec demo_env) [0, 0, 0, 2, 4, 0] =
    (Inr (Some (Some K_Connect, [])), [])"
  by (simp add: read_spec_def demo_chunk_def u32_from_be_def u32_from_le_def Let_def MAX_MESSAGE_def
      read_body_def demo_env_def ping_env_def ping_codec_def)

lemma handle_loop_msg:
  assumes "peer_ok (sps_peer (sp_state sp))"
    and "read_spec (e_codec env) (pending (sps_peer (sp_state sp))) = (r, rest)"
  obtains p where "peer_ok p" "pending p = rest" "p_scratch p = p_scratch (sps_peer (sp_state sp))"
    "peer_read (e_codec env) (sps_peer (sp_state sp)) = (r, p)"
proof -
  obtain r' p where r: "peer_read (e_codec env) (sps_peer (sp_state sp)) = (r', p)" by fastforce
  note parse = peer_read_parses [OF assms(1), of "e_codec env", unfolded r prod.case assms(2)]
  then have p: "p = (sps_peer (sp_state sp))\<lparr>p_read := p_read p, p_state := p_state p\<rparr>" by simp
  have "p_scratch p = p_scratch (sps_peer (sp_state sp))" by (subst p) simp
  then show thesis using parse r by (intro that [of p]) simp_all
qed

lemma demo_hello:
  assumes "peer_ok (sps_peer (sp_state sp))" "p_scratch (sps_peer (sp_state sp)) = []"
    and "sps_challenge (sp_state sp) = None" "st_draws st = 0"
  obtains p where "peer_ok p" "p_scratch p = []" "pending p = pending (sps_peer (sp_state sp))"
    "handle_message demo_env now (Some K_Hello) [] sp st =
      (None, sp\<lparr>sp_state := (sp_state sp)\<lparr>sps_peer := p, sps_challenge := Some (replicate 32 0)\<rparr>\<rparr>,
       st\<lparr>st_draws := 1\<rparr>)"
proof -
  let ?p = "sps_peer (sp_state sp)"
  obtain ok p where p: "peer_challenge (e_codec demo_env) (replicate 32 0) ?p = (ok, p)" by fastforce
  note sent = peer_send_encodable [OF assms(1, 2) demo_encodable p [unfolded peer_senders]]
  have "p_read p = p_read ?p" "p_state p = p_state ?p"
    using peer_send_keeps_read [OF p [unfolded peer_senders]] by simp_all
  then have "pending p = pending ?p" by (simp add: pending_def)
  moreover have "handle_message demo_env now (Some K_Hello) [] sp st =
      (None, sp\<lparr>sp_state := (sp_state sp)\<lparr>sps_peer := p, sps_challenge := Some (replicate 32 0)\<rparr>\<rparr>,
       st\<lparr>st_draws := 1\<rparr>)"
    using sent assms(3, 4) p
    by (simp add: handle_message_def handled_kinds_def guarded_kinds_def handle_event_def
        with_state_def on_hello_def reply_def Let_def demo_env_def ping_env_def)
  ultimately show thesis using sent that by blast
qed

lemma demo_connects:
  assumes "sps_challenge (sp_state sp) = Some (replicate 32 0)" "sps_objects (sp_state sp) = []"
    and "sps_images (sp_state sp) = []" "st_map st = []"
    and "st_rooms st = [(StableId_ZERO, \<lparr>room_members = []\<rparr>)]"
  shows "handle_message demo_env now (Some K_Connect) [] sp st =
    (None, sp\<lparr>sp_state := (sp_state sp)\<lparr>sps_challenge := None, sps_public_key := demo_key,
       sps_props := props_new\<rparr>\<rparr>,
     st\<lparr>st_rooms := [(StableId_ZERO, \<lparr>room_members = [sps_peer_id (sp_state sp)]\<rparr>)]\<rparr>)"
  using assms
  by (simp add: handle_message_def handled_kinds_def guarded_kinds_def demo_env_def ping_env_def
      handle_event_def with_state_def on_connect_def Let_def hm_insert_def
      demo_connect_def reply_def send_others_def server_connected_def
      global_objects_def hm_values_def send_to_all_def set_map_def join_room_def hm_get_def
      sps_room_def props_get_def props_new_def StableId_ZERO_def)

text \<open>The message loop on the chunk: the client ends up authenticated and in its room.\<close>

definition authenticated :: "PeerId \<Rightarrow> ServerPeer \<Rightarrow> bool" where
  "authenticated i sp \<longleftrightarrow>
     sps_peer_id (sp_state sp) = i \<and> sps_public_key (sp_state sp) = demo_key \<and>
     sps_props (sp_state sp) = props_new \<and> sps_challenge (sp_state sp) = None \<and>
     peer_ok (sps_peer (sp_state sp)) \<and> p_scratch (sps_peer (sp_state sp)) = []"

lemma demo_handle:
  assumes sp: "sp_state sp = (sp_state (server_peer_new now addr p i))"
    and p: "peer_ok p" "p_scratch p = []" "pending p = demo_chunk" "p_state p = RIdle"
    and st: "st_map st = []" "st_rooms st = [(StableId_ZERO, \<lparr>room_members = []\<rparr>)]" "st_draws st = 0"
  obtains sp' where "authenticated i sp'"
    "handle demo_env now sp st =
      (None, sp', st\<lparr>st_draws := 1, st_rooms := [(StableId_ZERO, \<lparr>room_members = [i]\<rparr>)]\<rparr>)"
proof -
  let ?c = "e_codec demo_env"
  have sp0: "sps_peer (sp_state sp) = p" "sps_challenge (sp_state sp) = None" "sps_peer_id (sp_state sp) = i"
    "sps_objects (sp_state sp) = []" "sps_images (sp_state sp) = []"
    by (simp_all add: sp server_peer_new_def)
  obtain p1 where p1: "peer_ok p1" "pending p1 = [0, 0, 0, 2, 4, 0]" "p_scratch p1 = []"
    "peer_read ?c p = (Inr (Some (Some K_Hello, [])), p1)"
    using handle_loop_msg [of sp demo_env "Inr (Some (Some K_Hello, []))"] demo_first p sp0(1) by auto
  let ?sp1 = "sp\<lparr>sp_state := (sp_state sp)\<lparr>sps_peer := p1\<rparr>\<rparr>"
  obtain q1 where q1: "peer_ok q1" "p_scratch q1 = []" "pending q1 = pending p1"
    "handle_message demo_env now (Some K_Hello) [] ?sp1 st =
      (None, sp\<lparr>sp_state := (sp_state sp)\<lparr>sps_peer := q1, sps_challenge := Some (replicate 32 0)\<rparr>\<rparr>,
       st\<lparr>st_draws := 1\<rparr>)"
    using demo_hello [of ?sp1 st now] p1 sp0 st(3) by auto
  let ?sp2 = "sp\<lparr>sp_state := (sp_state sp)\<lparr>sps_peer := q1, sps_challenge := Some (replicate 32 0)\<rparr>\<rparr>"
  obtain p2 where p2: "peer_ok p2" "pending p2 = []" "p_scratch p2 = []"
    "peer_read ?c q1 = (Inr (Some (Some K_Connect, [])), p2)"
    using handle_loop_msg [of ?sp2 demo_env "Inr (Some (Some K_Connect, []))"] demo_second p1 q1 by auto
  let ?sp3 = "sp\<lparr>sp_state := (sp_state sp)\<lparr>sps_peer := p2, sps_challenge := None,
      sps_public_key := demo_key, sps_props := props_new\<rparr>\<rparr>"
  let ?st3 = "st\<lparr>st_draws := 1, st_rooms := [(StableId_ZERO, \<lparr>room_members = [i]\<rparr>)]\<rparr>"
  have m2: "handle_message demo_env now (Some K_Connect) []
      (?sp2\<lparr>sp_state := (sp_state ?sp2)\<lparr>sps_peer := p2\<rparr>\<rparr>) (st\<lparr>st_draws := 1\<rparr>) = (None, ?sp3, ?st3)"
    by (subst demo_connects) (simp_all add: sp0 st)
  obtain p3 where p3: "peer_ok p3" "p_scratch p3 = []" "peer_read ?c p2 = (Inr None, p3)"
    using handle_loop_msg [of ?sp3 demo_env "Inr None"] p2 by (auto simp: read_spec_def)
  let ?sp4 = "?sp3\<lparr>sp_state := (sp_state ?sp3)\<lparr>sps_peer := p3\<rparr>\<rparr>"
  have "length (pending p) = remaining (p_read p)"
    using p(1, 4) by (simp add: pending_def peer_ok_def)
  then have "remaining (p_read p) = 12" using p(3) by (simp add: demo_chunk_def)
  then obtain n where "remaining (p_read p) + 2 = Suc (Suc (Suc n))"
    by (metis add_2_eq_Suc' numeral_eq_Suc)
  then have "handle demo_env now sp st = (None, ?sp4, ?st3)"
    using p1(4) q1(4) p2(4) m2 p3(3) sp0(1) by (simp add: handle_def Let_def)
  moreover have "authenticated i ?sp4" using p3 sp0 by (simp add: authenticated_def)
  ultimately show thesis by (rule that [rotated])
qed

lemma first_peer_id:
  "next_peer_id (peers_new seed) =
     (Some (PeerId_new (map_id 1 seed)), (peers_new seed)\<lparr>pe_ids := (ids_new seed)\<lparr>ids_last := 1\<rparr>\<rparr>)"
  by (simp add: next_peer_id_def peers_new_def ids_new_def ids_next_def non_zero_def)

lemma running:
  obtains st i sp where "(server_step demo_env)\<^sup>*\<^sup>* (state_new 7) st" "st_map st = [(i, sp)]"
    "authenticated i sp" "st_rooms st = [(StableId_ZERO, \<lparr>room_members = [i]\<rparr>)]"
    "ids_free (pe_ids (st_peers st)) = []" "st_poll st = [i]" "pid_raw i \<noteq> 0"
proof -
  obtain i where n: "next_peer_id (peers_new 7) =
      (Some i, (peers_new 7)\<lparr>pe_ids := (ids_new 7)\<lparr>ids_last := 1\<rparr>\<rparr>)" and i: "pid_raw i \<noteq> 0"
    using first_peer_id [of 7] by auto
  let ?new = "server_peer_new 0 1 (peer_new client_plain) i"
  define st1 where "st1 = accept_client 0 1 client_plain (state_new 7)"
  have "st1 = (state_new 7)\<lparr>st_peers := peers_insert i ?new
      ((peers_new 7)\<lparr>pe_ids := (ids_new 7)\<lparr>ids_last := 1\<rparr>\<rparr>), st_poll := bs_insert i []\<rparr>"
    using n by (simp add: st1_def accept_client_def Let_def state_new_def)
  then have st1: "st_map st1 = [(i, ?new)]" "st_draws st1 = 0" "st_poll st1 = [i]"
    "st_rooms st1 = [(StableId_ZERO, \<lparr>room_members = []\<rparr>)]" "ids_free (pe_ids (st_peers st1)) = []"
    by (simp_all add: state_new_def peers_insert_def hm_insert_def peers_new_def bs_insert_def
        insort_insert_key_def ids_new_def)
  obtain b where b: "poll_read (Ready demo_chunk) (p_read (peer_new client_plain)) = (PollOk, b)"
    "peer_ok ((peer_new client_plain)\<lparr>p_read := b\<rparr>)"
    "pending ((peer_new client_plain)\<lparr>p_read := b\<rparr>) = demo_chunk"
    by (rule feed_step [of "peer_new client_plain" demo_chunk])
      (simp_all add: demo_chunk_def READ_CAP_def MAX_CAPACITY_def)
  let ?p = "(peer_new client_plain)\<lparr>p_read := b\<rparr>"
  have poll: "server_peer_poll 0 [] (Ready demo_chunk) ?new =
      (PollOk, ?new\<lparr>sp_state := (sp_state ?new)\<lparr>sps_peer := ?p\<rparr>\<rparr>)"
    using b(1)
    by (simp add: server_peer_poll_def server_peer_new_def peer_poll_def peer_new_def client_plain_def
        has_remaining_def buf_new_def Let_def)
  let ?polled = "?new\<lparr>sp_state := (sp_state ?new)\<lparr>sps_peer := ?p\<rparr>\<rparr>"
  let ?st2 = "st1\<lparr>st_peers := (st_peers st1)\<lparr>pe_peers := []\<rparr>\<rparr>"
  obtain sp' where h: "authenticated i sp'" "handle demo_env 0 ?polled ?st2 =
      (None, sp', ?st2\<lparr>st_draws := 1, st_rooms := [(StableId_ZERO, \<lparr>room_members = [i]\<rparr>)]\<rparr>)"
    by (rule demo_handle [where sp = ?polled and st = ?st2 and now = 0 and addr = 1 and p = ?p and i = i])
      (use b st1 in \<open>simp_all add: server_peer_new_def\<close>, simp add: peer_new_def)
  define st where "st = poll_one demo_env 0 i [] (Ready demo_chunk) st1"
  have "st = st1\<lparr>st_peers := (st_peers st1)\<lparr>pe_peers := [(i, sp')]\<rparr>, st_draws := 1, st_poll := [i],
      st_rooms := [(StableId_ZERO, \<lparr>room_members = [i]\<rparr>)]\<rparr>"
    using h st1 poll
    by (simp add: st_def poll_one_def hm_get_def peers_insert_def hm_insert_def serve_ready_def
        peers_remove_def hm_remove_def Let_def authenticated_def bs_insert_def
        insort_insert_key_def)
  moreover have "(server_step demo_env)\<^sup>*\<^sup>* (state_new 7) st"
  proof (rule rtranclp.rtrancl_into_rtrancl)
    show "(server_step demo_env)\<^sup>*\<^sup>* (state_new 7) st1"
      unfolding st1_def by (rule r_into_rtranclp, rule server_step.accept)
    show "server_step demo_env st1 st"
      unfolding st_def by (rule server_step.woken)
  qed
  ultimately show thesis
    using h(1) st1(5) i by (intro that [of st i sp']) simp_all
qed

end
