(* ===== verification/ServerProps.thy ===== *)
theory ServerProps
  imports ServerRun
begin

section \<open>Properties of the server\<close>

text \<open>
  The invariant read off for reachable states, authentication, who receives which messages,
  what a connecting peer is told, disconnection and the termination of the message loop.
  \<open>queued\<close> is what a peer's socket has not taken yet.
\<close>

subsection \<open>Reachable states\<close>

text \<open>
  C16. In every reachable state of the server each connected peer is filed under its own
  identifier, which is not zero, and the allocator considers exactly the identifiers of the
  connected peers as handed out, so that it never gives one of them to a new peer.
\<close>

theorem server_identities:
  assumes "(server_step env)\<^sup>*\<^sup>* (state_new seed) st"
  shows "(\<forall>i sp. hm_get (st_map st) i = Some sp \<longrightarrow> sps_peer_id (sp_state sp) = i \<and> pid_raw i \<noteq> 0) \<and>
    ids_ok (pe_ids (st_peers st)) (pid_raw ` set (peers_ids (st_peers st)))"
proof -
  have inv: "ids_inv (pe_ids (st_peers st)) (cores (st_map st))"
    using server.inv_reachable [OF _ assms] by (auto simp: server_inv_def cinv_def)
  then have ok: "ids_ok (pe_ids (st_peers st)) (pid_raw ` set (hm_keys (st_map st)))"
    by (simp add: ids_inv_def cores_def hm_keys_map_values)
  have "sps_peer_id (sp_state sp) = i" if "hm_get (st_map st) i = Some sp" for i sp
  proof -
    have "hm_get (cores (st_map st)) i = Some (pcore (sp_state sp))"
      using that by (simp add: hm_get_cores)
    with inv have "cpeer (pcore (sp_state sp)) = i" unfolding ids_inv_def by blast
    then show ?thesis by simp
  qed
  moreover have "pid_raw i \<noteq> 0" if "hm_get (st_map st) i = Some sp" for i sp
    using ids_ok_nonzero [OF ok] that by (force simp: hm_keys_iff)
  ultimately show ?thesis using ok by (simp add: peers_ids_def)
qed

theorem server_identities_witness:
  "\<exists>st i sp. (server_step demo_env)\<^sup>*\<^sup>* (state_new 7) st \<and> hm_get (st_map st) i = Some sp \<and>
     sps_peer_id (sp_state sp) = i \<and> pid_raw i \<noteq> 0 \<and>
     ids_ok (pe_ids (st_peers st)) (pid_raw ` set (peers_ids (st_peers st)))"
proof -
  obtain st i sp where st: "(server_step demo_env)\<^sup>*\<^sup>* (state_new 7) st" "st_map st = [(i, sp)]"
    by (rule running)
  then have i: "hm_get (st_map st) i = Some sp" by (simp add: hm_get_def)
  from server_identities [OF st(1)] i st(1) show ?thesis by blast
qed

text \<open>
  C9. In every reachable state no two connected peers are authenticated with the same
  public key.
\<close>

theorem server_unique_keys:
  assumes "(server_step env)\<^sup>*\<^sup>* (state_new seed) st"
    and "hm_get (st_map st) i = Some sp" "hm_get (st_map st) j = Some sq"
    and "sps_public_key (sp_state sp) = sps_public_key (sp_state sq)"
    and "\<not> pk_is_zero (sps_public_key (sp_state sp))"
  shows "i = j"
proof -
  have "keys_inv (cores (st_map st))"
    using server.inv_reachable [OF _ assms(1)] by (auto simp: server_inv_def cinv_def)
  then show ?thesis
    using assms(2-) unfolding keys_inv_def hm_get_cores by fastforce
qed

theorem server_unique_keys_witness:
  "\<exists>st i sp. (server_step demo_env)\<^sup>*\<^sup>* (state_new 7) st \<and> hm_get (st_map st) i = Some sp \<and>
     \<not> pk_is_zero (sps_public_key (sp_state sp)) \<and>
     {j. \<exists>sq. hm_get (st_map st) j = Some sq \<and>
        sps_public_key (sp_state sp) = sps_public_key (sp_state sq)} = {i}"
proof -
  obtain st i sp where st: "(server_step demo_env)\<^sup>*\<^sup>* (state_new 7) st"
    "st_map st = [(i, sp)]" "authenticated i sp" by (rule running)
  then have i: "hm_get (st_map st) i = Some sp" "\<not> pk_is_zero (sps_public_key (sp_state sp))"
    by (simp_all add: hm_get_def authenticated_def demo_key_def pk_is_zero_def PublicKey_ZERO_def
        replicate_eq_replicate)
  then have "{j. \<exists>sq. hm_get (st_map st) j = Some sq \<and>
      sps_public_key (sp_state sp) = sps_public_key (sp_state sq)} = {i}"
    using server_unique_keys [OF st(1) i(1) _ _ i(2)] by blast
  with st(1) i show ?thesis by blast
qed

text \<open>
  C17. In every reachable state an authenticated peer whose room exists is one of the
  members of this room, so that what is sent to the room reaches it, and no room lists a
  member twice.
\<close>

theorem server_membership:
  assumes "(server_step env)\<^sup>*\<^sup>* (state_new seed) st"
    and "hm_get (st_map st) i = Some sp" "\<not> pk_is_zero (sps_public_key (sp_state sp))"
    and "hm_get (st_rooms st) (sps_room (sp_state sp)) = Some room"
  shows "i \<in> set (room_members room) \<and> distinct (room_members room)"
proof -
  have "rooms_inv {} (cores (st_map st)) (st_rooms st)"
    using server.inv_reachable [OF _ assms(1)] by (auto simp: server_inv_def cinv_def)
  moreover have "hm_get (cores (st_map st)) i = Some (pcore (sp_state sp))"
    using assms(2) by (simp add: hm_get_cores)
  ultimately have "member_ok (st_rooms st) i (pcore (sp_state sp))" "rooms_wf (st_rooms st)"
    unfolding rooms_inv_def by blast+
  then show ?thesis
    using assms(3, 4) by (simp add: member_ok_def rooms_wf_def)
qed

theorem server_membership_witness:
  "\<exists>st i sp room. (server_step demo_env)\<^sup>*\<^sup>* (state_new 7) st \<and> hm_get (st_map st) i = Some sp \<and>
     \<not> pk_is_zero (sps_public_key (sp_state sp)) \<and>
     hm_get (st_rooms st) (sps_room (sp_state sp)) = Some room \<and>
     i \<in> set (room_members room) \<and> distinct (room_members room)"
proof -
  obtain st i sp where st: "(server_step demo_env)\<^sup>*\<^sup>* (state_new 7) st"
    "st_map st = [(i, sp)]" "authenticated i sp"
    "st_rooms st = [(StableId_ZERO, \<lparr>room_members = [i]\<rparr>)]" by (rule running)
  then have i: "hm_get (st_map st) i = Some sp" "\<not> pk_is_zero (sps_public_key (sp_state sp))"
    "hm_get (st_rooms st) (sps_room (sp_state sp)) = Some \<lparr>room_members = [i]\<rparr>"
    by (simp_all add: hm_get_def authenticated_def demo_key_def pk_is_zero_def PublicKey_ZERO_def
        replicate_eq_replicate sps_room_def)
  from st(1) i server_membership [OF st(1) i(1, 2, 3)] show ?thesis by blast
qed

subsection \<open>Authentication\<close>

lemma sps_public_key_of_pcore:
  "pcore this' = pcore this \<Longrightarrow> sps_public_key this' = sps_public_key this"
  by (simp add: pcore_def)

lemma key_join_room:
  "join_room c room this st = (this', st') \<Longrightarrow> pcore this' = pcore this"
  by (auto simp: join_room_def Let_def dest: join_members_core split: option.splits prod.splits)

lemma key_leave_room:
  "leave_room c room l this st = (this', st') \<Longrightarrow> pcore this' = pcore this"
  by (auto simp: leave_room_def Let_def dest: leave_members_core split: option.splits prod.splits)

lemma on_connect_key:
  assumes "on_connect env b this st = (e, this', st')"
    and "sps_public_key this' \<noteq> sps_public_key this"
  shows "\<exists>challenge. sps_challenge this = Some challenge \<and>
    e_verify env (cb_public_key b) challenge (cb_signature b) \<and>
    sps_public_key this' = cb_public_key b \<and> sps_challenge this' = None \<and>
    (\<forall>i q. hm_get (st_map st) i = Some q \<longrightarrow> sps_public_key (sp_state q) \<noteq> cb_public_key b)"
proof (cases "sps_challenge this")
  case None
  with assms show ?thesis by (simp add: on_connect_def)
next
  case (Some ch)
  let ?c = "e_codec env"
  let ?t0 = "this\<lparr>sps_challenge := None\<rparr>"
  let ?t1 = "?t0\<lparr>sps_public_key := cb_public_key b, sps_props := cb_props b\<rparr>"
  have v: "e_verify env (cb_public_key b) ch (cb_signature b) \<and>
      \<not> (\<exists>(i, sp)\<in>set (st_map st). sps_public_key (sp_state sp) = cb_public_key b)"
    using assms Some by (auto simp: on_connect_def Let_def split: if_splits)
  obtain t2 s2 where a: "add_objects (cb_objects b) ?t1 st = (t2, s2)"
    by (cases "add_objects (cb_objects b) ?t1 st")
  define t3 where "t3 = add_images (cb_images b) t2"
  obtain ok t4 where r: "reply (send_others ?c (sps_peer_id t3) (st_map s2)) t3 = (ok, t4)"
    by (cases "reply (send_others ?c (sps_peer_id t3) (st_map s2)) t3")
  obtain t5 s5 where c: "server_connected ?c t4 s2 = (t5, s5)"
    by (cases "server_connected ?c t4 s2")
  obtain t6 s6 where j: "join_room ?c (sps_room t5) t5 s5 = (t6, s6)"
    by (cases "join_room ?c (sps_room t5) t5 s5")
  have keep: "sps_public_key t3 = cb_public_key b" "sps_challenge t3 = None"
    using add_objects_keep [OF a] by (simp_all add: t3_def add_images_keep)
  have t4: "t4 = t3\<lparr>sps_peer := sps_peer t4\<rparr>" by (rule reply_peer_only [OF r])
  have t5: "t5 = t4\<lparr>sps_peer := sps_peer t5\<rparr>" by (rule connected_peer_only [OF c])
  have t6: "t6 = t5\<lparr>sps_peer := sps_peer t6\<rparr>" by (rule join_room_peer_only [OF j])
  have "sps_public_key t4 = cb_public_key b \<and> sps_challenge t4 = None"
    using keep by (subst (1 2) t4) simp
  moreover have "sps_public_key t6 = sps_public_key t4 \<and> sps_challenge t6 = sps_challenge t4"
    by (subst (1 2) t6, subst (1 2) t5) simp
  moreover have "this' = t4 \<or> this' = t6"
    using assms(1) Some v a r c j t3_def by (cases ok) (auto simp: on_connect_def Let_def)
  ultimately show ?thesis
    using Some v by (auto dest: hm_get_mem)
qed

text \<open>
  C11. A connection is authenticated only by a \<open>Connect\<close> message whose signature is valid
  for the challenge that was issued to this connection and under the announced key, and only
  if no other connected peer uses the key; the challenge is consumed by it.
\<close>

theorem authenticated_by_challenge:
  assumes "handle_message env now k body sp st = (e, sp', st')"
    and "sps_public_key (sp_state sp') \<noteq> sps_public_key (sp_state sp)"
  shows "\<exists>b challenge. k = Some K_Connect \<and>
    c_dec_event (e_codec env) K_Connect body = Some (Connect b) \<and>
    sps_challenge (sp_state sp) = Some challenge \<and>
    e_verify env (cb_public_key b) challenge (cb_signature b) \<and>
    sps_public_key (sp_state sp') = cb_public_key b \<and>
    sps_challenge (sp_state sp') = None \<and>
    (\<forall>i q. hm_get (st_map st) i = Some q \<longrightarrow> sps_public_key (sp_state q) \<noteq> cb_public_key b)"
proof -
  have connect: "event_kind ev = K_Connect \<longleftrightarrow> (\<exists>b. ev = Connect b)" for ev
    by (cases ev) simp_all
  have other: "sps_public_key (sp_state sp') = sps_public_key (sp_state sp)"
    if "handle_event env now ev sp st = (e, sp', st')" "\<not> (\<exists>b. ev = Connect b)" for ev
    using that
    by (cases ev)
      (auto simp: handle_event_def with_state_def on_ping_def on_hello_def on_peer_update_def
        on_object_create_def on_object_update_def on_object_remove_def on_image_create_def
        on_image_remove_def Let_def
        dest!: pcore_reply key_join_room key_leave_room sps_public_key_of_pcore
        split: prod.splits if_splits bool.splits option.splits)
  from assms obtain kind ev where k: "k = Some kind"
    and dec: "c_dec_event (e_codec env) kind body = Some ev" "event_kind ev = kind"
    and h: "handle_event env now ev sp st = (e, sp', st')"
    by (auto simp: handle_message_def split: option.splits if_splits)
  with other [OF h] assms(2) obtain b where ev: "ev = Connect b" by blast
  with h obtain this' where "on_connect env b (sp_state sp) st = (e, this', st')"
    "sp' = sp\<lparr>sp_state := this'\<rparr>"
    by (auto simp: handle_event_def with_state_def split: prod.splits)
  with on_connect_key assms(2) k dec ev show ?thesis by fastforce
qed

definition demo_peer :: ServerPeer where
  "demo_peer =
     (let sp = server_peer_new 0 1 (peer_new client_plain) (PeerId_new 5)
      in sp\<lparr>sp_state := (sp_state sp)\<lparr>sps_challenge := Some (replicate 32 0)\<rparr>\<rparr>)"

lemma demo_authenticates:
  "\<exists>sp' st'. handle_message demo_env 0 (Some K_Connect) [] demo_peer (state_new 7) = (None, sp', st')
     \<and> sps_public_key (sp_state sp') = demo_key"
  by (simp add: handle_message_def handled_kinds_def guarded_kinds_def demo_env_def ping_env_def
      handle_event_def with_state_def on_connect_def demo_peer_def server_peer_new_def Let_def
      demo_connect_def state_new_def peers_new_def reply_def send_others_def server_connected_def
      global_objects_def hm_values_def send_to_all_def set_map_def join_room_def hm_get_def
      sps_room_def props_get_def props_new_def StableId_ZERO_def)

theorem authenticated_by_challenge_witness:
  "\<exists>b challenge. Some K_Connect = Some K_Connect \<and>
    c_dec_event (e_codec demo_env) K_Connect [] = Some (Connect b) \<and>
    sps_challenge (sp_state demo_peer) = Some challenge \<and>
    e_verify demo_env (cb_public_key b) challenge (cb_signature b)"
proof -
  obtain sp' st' where h:
      "handle_message demo_env 0 (Some K_Connect) [] demo_peer (state_new 7) = (None, sp', st')"
      "sps_public_key (sp_state sp') = demo_key"
    using demo_authenticates by blast
  have "sps_public_key (sp_state sp') \<noteq> sps_public_key (sp_state demo_peer)"
    unfolding h(2)
    by (simp add: demo_key_def demo_peer_def Let_def server_peer_new_def PublicKey_ZERO_def
        replicate_eq_replicate)
  from authenticated_by_challenge [OF h(1) this] show ?thesis by blast
qed

text \<open>
  C10. Before it is authenticated a connection can change nothing but itself: whatever
  message it sends, the other peers, their buffers, the rooms and the schedule stay as they
  are and its own objects, images and properties stay as they are, unless the message is a
  \<open>Connect\<close> that answers the issued challenge with a valid signature.
\<close>

theorem unauthenticated_is_confined:
  assumes "pk_is_zero (sps_public_key (sp_state sp))"
  shows "case handle_message env now k body sp st of (e, sp', st') \<Rightarrow>
    (st' = st\<lparr>st_draws := st_draws st'\<rparr> \<and>
      sp_state sp' = (sp_state sp)\<lparr>sps_peer := sps_peer (sp_state sp'),
        sps_challenge := sps_challenge (sp_state sp')\<rparr>) \<or>
    (\<exists>b challenge. k = Some K_Connect \<and>
      c_dec_event (e_codec env) K_Connect body = Some (Connect b) \<and>
      sps_challenge (sp_state sp) = Some challenge \<and>
      e_verify env (cb_public_key b) challenge (cb_signature b))"
proof -
  obtain e sp' st' where hm: "handle_message env now k body sp st = (e, sp', st')"
    by (cases "handle_message env now k body sp st")
  let ?confined = "st' = st\<lparr>st_draws := st_draws st'\<rparr> \<and>
      sp_state sp' = (sp_state sp)\<lparr>sps_peer := sps_peer (sp_state sp'),
        sps_challenge := sps_challenge (sp_state sp')\<rparr>"
  have ping: ?confined if "handle_event env now (Ping b) sp st = (e, sp', st')" for b
    using that by (auto simp: handle_event_def on_ping_def reply_def split: prod.splits)
  have hello: ?confined if "handle_event env now (Hello b) sp st = (e, sp', st')" for b
    using that
    by (auto simp: handle_event_def with_state_def on_hello_def Let_def reply_def
        split: prod.splits if_splits bool.splits)
  have connect: "?confined \<or> (\<exists>ch. sps_challenge (sp_state sp) = Some ch \<and>
        e_verify env (cb_public_key b) ch (cb_signature b))"
    if "handle_event env now (Connect b) sp st = (e, sp', st')" for b
    using that
    by (cases "sps_challenge (sp_state sp)")
      (auto simp: handle_event_def with_state_def on_connect_def Let_def split: if_splits)
  show ?thesis
  proof (cases "\<exists>kind ev. k = Some kind \<and> kind \<in> {K_Ping, K_Hello, K_Connect} \<and>
      c_dec_event (e_codec env) kind body = Some ev \<and> event_kind ev = kind")
    case False
    with assms hm have "st' = st" "sp' = sp"
      by (auto simp: handle_message_def handled_kinds_def split: option.splits if_splits)
    with hm show ?thesis by simp
  next
    case True
    then obtain kind ev where k: "k = Some kind" "kind \<in> {K_Ping, K_Hello, K_Connect}"
      and dec: "c_dec_event (e_codec env) kind body = Some ev" "event_kind ev = kind" by blast
    then have h: "handle_event env now ev sp st = (e, sp', st')"
      using hm by (auto simp: handle_message_def handled_kinds_def guarded_kinds_def)
    have "?confined \<or> (\<exists>b ch. ev = Connect b \<and> sps_challenge (sp_state sp) = Some ch \<and>
        e_verify env (cb_public_key b) ch (cb_signature b))"
      using k dec h ping hello connect by (cases ev) auto
    with hm k dec show ?thesis by auto
  qed
qed

theorem unauthenticated_is_confined_witness:
  "case handle_message ping_env 3 (Some K_PeerUpdate) [1, 2] demo_peer (state_new 7) of (e, sp', st') \<Rightarrow>
    (st' = (state_new 7)\<lparr>st_draws := st_draws st'\<rparr> \<and>
      sp_state sp' = (sp_state demo_peer)\<lparr>sps_peer := sps_peer (sp_state sp'),
        sps_challenge := sps_challenge (sp_state sp')\<rparr>) \<or>
    (\<exists>b challenge. Some K_PeerUpdate = Some K_Connect \<and>
      c_dec_event (e_codec ping_env) K_Connect [1, 2] = Some (Connect b) \<and>
      sps_challenge (sp_state demo_peer) = Some challenge \<and>
      e_verify ping_env (cb_public_key b) challenge (cb_signature b))"
  by (rule unauthenticated_is_confined)
    (simp add: demo_peer_def Let_def server_peer_new_def pk_is_zero_def PublicKey_ZERO_def)

subsection \<open>The message loop ends\<close>

text \<open>
  C19. In every reachable state the buffers of every peer are well formed, and whatever a
  socket delivers, the loop that handles the messages of a peer ends: each message it takes
  consumes at least the four bytes of its length, so the fuel given to the loop is enough.
\<close>

theorem server_never_stalls:
  assumes "(server_step env)\<^sup>*\<^sup>* (state_new seed) st" "hm_get (st_map st) i = Some sp"
    and "server_peer_poll now writes reads sp = (r, sp')"
  shows "peer_ok (sps_peer (sp_state sp)) \<and> peer_ok (sps_peer (sp_state sp')) \<and>
    fst (handle env now sp' st') \<noteq> Some OutOfFuel"
proof -
  have c: "clean env (sps_peer (sp_state sp))" by (rule reachable_clean [OF assms(1, 2)])
  have "clean env (sps_peer (sp_state sp'))" by (rule server_peer_poll_clean [OF assms(3) c])
  with c show ?thesis using handle_fuel by (simp add: clean_def)
qed

theorem server_never_stalls_witness:
  "\<exists>st i sp r sp'. (server_step demo_env)\<^sup>*\<^sup>* (state_new 7) st \<and>
     hm_get (st_map st) i = Some sp \<and>
     server_peer_poll 1 [NotReady] (Ready [0, 0, 0, 1, 2]) sp = (r, sp') \<and>
     peer_ok (sps_peer (sp_state sp')) \<and> fst (handle demo_env 1 sp' st) \<noteq> Some OutOfFuel"
proof -
  obtain st i sp where st: "(server_step demo_env)\<^sup>*\<^sup>* (state_new 7) st"
    "st_map st = [(i, sp)]" by (rule running)
  then have i: "hm_get (st_map st) i = Some sp" by (simp add: hm_get_def)
  obtain r sp' where p: "server_peer_poll 1 [NotReady] (Ready [0, 0, 0, 1, 2]) sp = (r, sp')"
    by fastforce
  from st(1) i p server_never_stalls [OF st(1) i p] show ?thesis by blast
qed

subsection \<open>Who receives what\<close>

definition ready :: "Peer \<Rightarrow> bool" where
  "ready p \<longleftrightarrow> peer_ok p \<and> p_scratch p = []"

definition queued :: "ServerPeer \<Rightarrow> bytes" where
  "queued sp = read_buf (p_write (sps_peer (sp_state sp)))"

definition all_ready :: "(PeerId, ServerPeer) hashmap \<Rightarrow> bool" where
  "all_ready ps \<longleftrightarrow> (\<forall>i sp. hm_get ps i = Some sp \<longrightarrow> ready (sps_peer (sp_state sp)))"

text \<open>\<open>ps'\<close> is \<open>ps\<close> with the frame of an event queued at the peers of a set.\<close>

definition delivered ::
    "bytes \<Rightarrow> PeerId set \<Rightarrow> (PeerId, ServerPeer) hashmap \<Rightarrow> (PeerId, ServerPeer) hashmap \<Rightarrow> bool"
where
  "delivered f R ps ps' \<longleftrightarrow>
     set (hm_keys ps') = set (hm_keys ps) \<and>
     (\<forall>j sp. hm_get ps j = Some sp \<longrightarrow>
        (\<exists>sp'. hm_get ps' j = Some sp' \<and> ready (sps_peer (sp_state sp')) \<and>
           queued sp' = queued sp @ (if j \<in> R then f else [])))"

lemma peer_mut_send:
  assumes "ready (sps_peer (sp_state sp))" "encodable c e"
  obtains sp' where "peer_mut (peer_send c e) sp = (True, sp')"
    "ready (sps_peer (sp_state sp'))" "queued sp' = queued sp @ frame c e"
proof -
  obtain ok p where p: "peer_send c e (sps_peer (sp_state sp)) = (ok, p)"
    by (cases "peer_send c e (sps_peer (sp_state sp))")
  with peer_send_encodable [OF _ _ assms(2) p] assms(1)
  show thesis
    by (intro that [of "sp\<lparr>sp_state := (sp_state sp)\<lparr>sps_peer := p\<rparr>\<rparr>"])
      (auto simp: peer_mut_def ready_def queued_def)
qed

lemma send_each_delivers:
  "all_ready ps \<Longrightarrow> hm_wf ps \<Longrightarrow> encodable c e \<Longrightarrow>
     send_each me (peer_send c e) ps poll = (ps', poll') \<Longrightarrow>
     delivered (frame c e) (- {me}) ps ps' \<and> set poll' = set poll \<union> (set (hm_keys ps) - {me})"
proof (induction ps arbitrary: poll ps' poll')
  case Nil
  then show ?case by (simp add: delivered_def hm_keys_def)
next
  case (Cons x ps)
  obtain i sp where x: "x = (i, sp)" by (cases x)
  have rd: "ready (sps_peer (sp_state sp))"
    using Cons.prems(1) unfolding x all_ready_def hm_get_def by (metis map_of_Cons_code(2))
  have tl: "hm_wf ps" "i \<notin> set (hm_keys ps)"
    using Cons.prems(2) by (simp_all add: x hm_wf_def hm_keys_def)
  have "all_ready ps"
    unfolding all_ready_def
  proof (intro allI impI)
    fix j sq
    assume j: "hm_get ps j = Some sq"
    then have "j \<noteq> i" using tl(2) by (auto simp: hm_keys_iff)
    with j have "hm_get (x # ps) j = Some sq" by (simp add: x hm_get_def)
    with Cons.prems(1) show "ready (sps_peer (sp_state sq))" unfolding all_ready_def by blast
  qed
  note IH = Cons.IH [OF this tl(1) Cons.prems(3)]
  have cons: "delivered (frame c e) (- {me}) ((i, sp) # ps) ((i, sp1) # ps1)"
    if "delivered (frame c e) (- {me}) ps ps1" "ready (sps_peer (sp_state sp1))"
      "queued sp1 = queued sp @ (if i \<in> - {me} then frame c e else [])" for sp1 ps1
    using that by (simp add: delivered_def hm_keys_def hm_get_def)
  show ?case
  proof (cases "me = i")
    case True
    obtain ps1 poll1 where s: "send_each me (peer_send c e) ps poll = (ps1, poll1)"
      by (cases "send_each me (peer_send c e) ps poll")
    with Cons.prems(4) True have "ps' = (i, sp) # ps1" "poll' = poll1" by (simp_all add: x)
    with IH [OF s] cons [of ps1 sp] True tl(2) rd show ?thesis
      by (simp add: x hm_keys_def)
  next
    case False
    obtain sp1 where m: "peer_mut (peer_send c e) sp = (True, sp1)"
      "ready (sps_peer (sp_state sp1))" "queued sp1 = queued sp @ frame c e"
      using peer_mut_send [OF rd Cons.prems(3)] .
    obtain ps1 poll1 where s: "send_each me (peer_send c e) ps (bs_insert i poll) = (ps1, poll1)"
      by (cases "send_each me (peer_send c e) ps (bs_insert i poll)")
    with Cons.prems(4) False m(1) have "ps' = (i, sp1) # ps1" "poll' = poll1"
      by (simp_all add: x schedule_def)
    with IH [OF s] cons [of ps1 sp1] False m show ?thesis
      by (auto simp: x hm_keys_def)
  qed
qed

lemma send_members_delivers:
  "all_ready ps \<Longrightarrow> distinct is \<Longrightarrow> encodable c e \<Longrightarrow>
     send_members me (peer_send c e) is ps poll = (ps', poll') \<Longrightarrow>
     delivered (frame c e) (set is - {me}) ps ps' \<and>
     set poll' = set poll \<union> (set is \<inter> set (hm_keys ps) - {me})"
proof (induction "is" arbitrary: ps poll)
  case Nil
  then show ?case by (auto simp: delivered_def all_ready_def)
next
  case (Cons i "is")
  show ?case
  proof (cases "me = i \<or> hm_get ps i = None")
    case True
    with Cons.prems(4) have "send_members me (peer_send c e) is ps poll = (ps', poll')"
      by (auto split: if_splits)
    with Cons.IH [of ps poll] Cons.prems
    have IH: "delivered (frame c e) (set is - {me}) ps ps'"
      "set poll' = set poll \<union> (set is \<inter> set (hm_keys ps) - {me})" by simp_all
    have "delivered (frame c e) (set (i # is) - {me}) ps ps'"
      using IH(1) True unfolding delivered_def by fastforce
    with IH(2) True show ?thesis by (auto simp: hm_get_None_iff)
  next
    case False
    then obtain sp where sp: "hm_get ps i = Some sp" by auto
    then have rd: "ready (sps_peer (sp_state sp))" using Cons.prems(1) by (simp add: all_ready_def)
    obtain sp1 where m: "peer_mut (peer_send c e) sp = (True, sp1)"
      "ready (sps_peer (sp_state sp1))" "queued sp1 = queued sp @ frame c e"
      using peer_mut_send [OF rd Cons.prems(3)] .
    let ?ps = "hm_insert i sp1 ps"
    have "send_members me (peer_send c e) is ?ps (bs_insert i poll) = (ps', poll')"
      using Cons.prems(4) False sp m(1) by (simp add: schedule_def)
    moreover have "all_ready ?ps"
      using Cons.prems(1) m(2) by (auto simp: all_ready_def hm_get_insert)
    moreover have keys: "set (hm_keys ?ps) = set (hm_keys ps)"
      using sp by (auto simp: set_keys_insert hm_keys_iff)
    ultimately have IH: "delivered (frame c e) (set is - {me}) ?ps ps'"
      "set poll' = set (bs_insert i poll) \<union> (set is \<inter> set (hm_keys ps) - {me})"
      using Cons.IH [of ?ps "bs_insert i poll"] Cons.prems(2, 3) by simp_all
    have "i \<notin> set is" "i \<noteq> me" using Cons.prems(2) False by auto
    then have "delivered (frame c e) (set (i # is) - {me}) ps ps'"
      using IH(1) keys sp m(3) unfolding delivered_def hm_get_insert
      by (auto split: if_splits)
    with IH(2) \<open>i \<noteq> me\<close> sp show ?thesis by (auto simp: hm_keys_iff)
  qed
qed

lemma delivered_cong:
  assumes "delivered f R ps ps'" "\<And>j. j \<in> set (hm_keys ps) \<Longrightarrow> j \<in> R \<longleftrightarrow> j \<in> R'"
  shows "delivered f R' ps ps'"
  unfolding delivered_def
proof (intro conjI allI impI)
  fix j sp
  assume j: "hm_get ps j = Some sp"
  then have same: "(if j \<in> R' then f else []) = (if j \<in> R then f else [])"
    using assms(2) by (simp add: hm_keys_iff)
  have "\<forall>j sp. hm_get ps j = Some sp \<longrightarrow>
      (\<exists>sp'. hm_get ps' j = Some sp' \<and> ready (sps_peer (sp_state sp')) \<and>
        queued sp' = queued sp @ (if j \<in> R then f else []))"
    using assms(1) by (simp add: delivered_def)
  with j show "\<exists>sp'. hm_get ps' j = Some sp' \<and> ready (sps_peer (sp_state sp')) \<and>
      queued sp' = queued sp @ (if j \<in> R' then f else [])"
    unfolding same by blast
qed (use assms(1) in \<open>simp add: delivered_def\<close>)

lemma delivered_keys: "delivered f R ps ps' \<Longrightarrow> set (hm_keys ps') = set (hm_keys ps)"
  by (simp add: delivered_def)

lemma send_to_all_delivers:
  assumes "all_ready (st_map st)" "hm_wf (st_map st)" "encodable c e"
    and "f this = peer_send c e"
  shows "delivered (frame c e) (- {sps_peer_id this}) (st_map st) (st_map (send_to_all this f st)) \<and>
    set (st_poll (send_to_all this f st)) =
      set (st_poll st) \<union> (set (hm_keys (st_map st)) - {sps_peer_id this}) \<and>
    st_rooms (send_to_all this f st) = st_rooms st \<and>
    pe_ids (st_peers (send_to_all this f st)) = pe_ids (st_peers st)"
  using assms send_each_delivers [OF assms(1-3), of "sps_peer_id this" "st_poll st"]
  by (auto simp: send_to_all_def set_map_def split: prod.split)

definition room_set :: "ServerPeerState \<Rightarrow> State \<Rightarrow> PeerId set" where
  "room_set this st =
     (case hm_get (st_rooms st) (sps_room this) of
        None \<Rightarrow> {} | Some room \<Rightarrow> set (room_members room))"

lemma send_to_room_delivers:
  assumes "all_ready (st_map st)" "rooms_wf (st_rooms st)" "encodable c e"
    and "f this = peer_send c e"
  shows "delivered (frame c e) (room_set this st - {sps_peer_id this}) (st_map st)
      (st_map (send_to_room this f st)) \<and>
    set (st_poll (send_to_room this f st)) =
      set (st_poll st) \<union> (room_set this st \<inter> set (hm_keys (st_map st)) - {sps_peer_id this})"
proof (cases "hm_get (st_rooms st) (sps_room this)")
  case None
  with assms(1) show ?thesis
    by (auto simp: send_to_room_def room_set_def delivered_def all_ready_def)
next
  case (Some room)
  then have "distinct (room_members room)" using assms(2) by (simp add: rooms_wf_def)
  with send_members_delivers [OF assms(1) this assms(3), of "sps_peer_id this" "st_poll st"]
    assms(4) Some show ?thesis
    by (auto simp: send_to_room_def room_set_def set_map_def split: prod.split)
qed

text \<open>
  C25. An update of an object reaches exactly the peers it should: all other peers when the
  object is global, else the other members of the sender's room; each of them gets the
  message appended to its queue and is scheduled, nobody else gets anything, and the object
  stored by the server has the new value.
\<close>

theorem object_update_reaches:
  assumes "hm_get (sps_objects this) (oub_object_id b) = Some ob"
    and "encodable (e_codec env) (ObjectUpdated (ObjectUpdatedBody (sps_peer_id this)
      (oub_object_id b) (oub_key b) (oub_value b)))"
    and "all_ready (st_map st)" "hm_wf (st_map st)" "rooms_wf (st_rooms st)"
  shows "case on_object_update env b this st of (e, this', st') \<Rightarrow>
    let R = (if is_global (ro_ty ob) then UNIV else room_set this st) - {sps_peer_id this} in
    e = None \<and>
    delivered (frame (e_codec env) (ObjectUpdated (ObjectUpdatedBody (sps_peer_id this)
      (oub_object_id b) (oub_key b) (oub_value b)))) R (st_map st) (st_map st') \<and>
    set (st_poll st') = set (st_poll st) \<union> (R \<inter> set (hm_keys (st_map st))) \<and>
    (\<exists>ob'. hm_get (sps_objects this') (oub_object_id b) = Some ob' \<and>
      props_get (ro_props ob') (oub_key b) = value_norm (oub_value b))"
proof -
  let ?c = "e_codec env"
  let ?ev = "ObjectUpdated (ObjectUpdatedBody (sps_peer_id this) (oub_object_id b) (oub_key b)
      (oub_value b))"
  let ?ob = "ob\<lparr>ro_props := props_put (oub_key b) (oub_value b) (ro_props ob)\<rparr>"
  let ?me = "this\<lparr>sps_objects := hm_insert (oub_object_id b) ?ob (sps_objects this)\<rparr>"
  let ?f = "\<lambda>me. peer_object_updated ?c (sps_peer_id me) (oub_object_id b) (oub_key b) (oub_value b)"
  have f: "?f ?me = peer_send ?c ?ev"
    by (simp add: peer_object_updated_def fun_eq_iff)
  have room: "room_set ?me st = room_set this st"
    by (simp add: room_set_def sps_room_def)
  have stored: "props_get (ro_props ?ob) (oub_key b) = value_norm (oub_value b)"
    by (simp add: props_get_put)
  show ?thesis
  proof (cases "is_global (ro_ty ob)")
    case True
    have "on_object_update env b this st = (None, ?me, send_to_all ?me ?f st)"
      using assms(1) True by (simp add: on_object_update_def Let_def)
    with send_to_all_delivers [OF assms(3, 4, 2), of ?f ?me] f stored True show ?thesis
      by (auto simp: hm_get_insert Compl_eq_Diff_UNIV)
  next
    case False
    have "on_object_update env b this st = (None, ?me, send_to_room ?me ?f st)"
      using assms(1) False by (simp add: on_object_update_def Let_def)
    with send_to_room_delivers [OF assms(3, 5, 2), of ?f ?me] f stored False room show ?thesis
      by (auto simp: hm_get_insert)
  qed
qed

text \<open>Two peers that share the default room; the second one owns a token.\<close>

definition demo_object :: RemoteObject where
  "demo_object = \<lparr>ro_ty = TYPE_TOKEN, ro_id = Id_new 3, ro_props = props_new\<rparr>"

definition demo_owner :: ServerPeerState where
  "demo_owner =
     (sp_state (server_peer_new 0 2 (peer_new client_plain) (PeerId_new 2)))\<lparr>
        sps_objects := [(Id_new 3, demo_object)]\<rparr>"

definition demo_two :: State where
  "demo_two = (state_new 7)\<lparr>
     st_rooms := [(StableId_ZERO, \<lparr>room_members = [PeerId_new 1, PeerId_new 2]\<rparr>)],
     st_peers := (peers_new 7)\<lparr>pe_peers :=
       [(PeerId_new 1, server_peer_new 0 1 (peer_new client_plain) (PeerId_new 1))]\<rparr>\<rparr>"

lemma demo_two_ready:
  "all_ready (st_map demo_two)" "hm_wf (st_map demo_two)" "rooms_wf (st_rooms demo_two)"
  "bs_wf (st_poll demo_two)"
  by (auto simp: demo_two_def all_ready_def hm_get_def ready_def server_peer_new_def hm_wf_def
      rooms_wf_def state_new_def split: if_splits)

theorem object_update_reaches_witness:
  "set (st_poll (snd (snd (on_object_update demo_env
     (ObjectUpdateBody (Id_new 3) KEY_HIDDEN (VBoolean True)) demo_owner demo_two)))) = {PeerId_new 1}"
proof -
  have "hm_get (sps_objects demo_owner) (oub_object_id (ObjectUpdateBody (Id_new 3) KEY_HIDDEN
      (VBoolean True))) = Some demo_object"
    by (simp add: demo_owner_def hm_get_def)
  from object_update_reaches [OF this demo_encodable demo_two_ready(1, 2, 3)]
  have "set (st_poll (snd (snd (on_object_update demo_env
      (ObjectUpdateBody (Id_new 3) KEY_HIDDEN (VBoolean True)) demo_owner demo_two)))) =
      set (st_poll demo_two) \<union>
      ((if is_global TYPE_TOKEN then UNIV else room_set demo_owner demo_two) - {PeerId_new 2}) \<inter>
        set (hm_keys (st_map demo_two))"
    by (simp add: split_beta Let_def demo_object_def demo_owner_def server_peer_new_def)
  then show ?thesis
    by (auto simp: demo_two_def demo_owner_def state_new_def peers_new_def hm_keys_def room_set_def
        hm_get_def sps_room_def server_peer_new_def)
qed

subsection \<open>Disconnecting\<close>

text \<open>
  C26. When a peer's connection fails, the peer is removed, every other peer is told (the
  message is queued and the peer scheduled), nothing else is sent to anyone, and the
  identifier is given back to the allocator. The rooms are left as they are.
\<close>

theorem disconnect_reaches_all:
  assumes "hm_get (st_map st) i = Some sp" "sps_peer_id (sp_state sp) = i"
    and "encodable (e_codec env) (PeerDisconnect (PeerDisconnectBody i))"
    and "all_ready (st_map st)" "hm_wf (st_map st)" "bs_wf (st_poll st)"
  shows "let st' = serve_ready env now i PollErr st in
    hm_get (st_map st') i = None \<and>
    delivered (frame (e_codec env) (PeerDisconnect (PeerDisconnectBody i))) UNIV
      (hm_remove i (st_map st)) (st_map st') \<and>
    set (st_poll st') = (set (st_poll st) \<union> set (hm_keys (st_map st))) - {i} \<and>
    pe_ids (st_peers st') = ids_release (pid_raw i) (pe_ids (st_peers st)) \<and>
    st_rooms st' = st_rooms st"
proof -
  let ?c = "e_codec env" and ?ps = "hm_remove i (st_map st)"
  let ?ev = "PeerDisconnect (PeerDisconnectBody i)"
  let ?f = "\<lambda>me. peer_disconnected ?c (sps_peer_id me)"
  let ?st1 = "st\<lparr>st_peers := (st_peers st)\<lparr>pe_peers := ?ps,
      pe_ids := ids_release (pid_raw i) (pe_ids (st_peers st))\<rparr>\<rparr>"
  let ?st2 = "send_to_all (sp_state sp) ?f ?st1"
  have out: "serve_ready env now i PollErr st = ?st2\<lparr>st_poll := bs_remove i (st_poll ?st2)\<rparr>"
    using assms(1, 2)
    by (simp add: serve_ready_def peers_remove_def peers_free_def remove_peer_def
        server_disconnected_def Let_def)
  have "all_ready ?ps" using assms(4) by (auto simp: all_ready_def hm_get_remove split: if_splits)
  moreover have "hm_wf ?ps" using assms(5) by simp
  moreover have "?f (sp_state sp) = peer_send ?c ?ev"
    using assms(2) by (simp add: peer_disconnected_def)
  ultimately have d: "delivered (frame ?c ?ev) (- {i}) ?ps (st_map ?st2)"
    "set (st_poll ?st2) = set (st_poll st) \<union> (set (hm_keys ?ps) - {i})"
    "st_rooms ?st2 = st_rooms st"
    "pe_ids (st_peers ?st2) = ids_release (pid_raw i) (pe_ids (st_peers st))"
    using send_to_all_delivers [of ?st1 ?c ?ev ?f "sp_state sp"] assms(2, 3) by simp_all
  have gone: "i \<notin> set (hm_keys ?ps)" by (simp add: set_keys_remove)
  then have "hm_get (st_map ?st2) i = None"
    using delivered_keys [OF d(1)] by (simp add: hm_get_None_iff)
  moreover have "delivered (frame ?c ?ev) UNIV ?ps (st_map ?st2)"
    by (rule delivered_cong [OF d(1)]) (use gone in auto)
  moreover have "bs_wf (st_poll ?st2)"
    using assms(6) same_core_send_to_all [of ?st1 "sp_state sp" ?f] by (simp add: same_core_def)
  then have "set (bs_remove i (st_poll ?st2)) = (set (st_poll st) \<union> set (hm_keys (st_map st))) - {i}"
    unfolding set_bs_remove [OF \<open>bs_wf (st_poll ?st2)\<close>] d(2) set_keys_remove by blast
  ultimately show ?thesis
    unfolding out Let_def using d(3, 4) by simp
qed

theorem disconnect_reaches_all_witness:
  "hm_get (st_map (serve_ready demo_env 9 (PeerId_new 1) PollErr demo_two)) (PeerId_new 1) = None \<and>
   st_rooms (serve_ready demo_env 9 (PeerId_new 1) PollErr demo_two) = st_rooms demo_two"
proof -
  let ?sp = "server_peer_new 0 1 (peer_new client_plain) (PeerId_new 1)"
  have "hm_get (st_map demo_two) (PeerId_new 1) = Some ?sp" by (simp add: demo_two_def hm_get_def)
  moreover have "sps_peer_id (sp_state ?sp) = PeerId_new 1" by (simp add: server_peer_new_def)
  ultimately show ?thesis
    using disconnect_reaches_all [OF _ _ demo_encodable demo_two_ready(1, 2, 4), of "PeerId_new 1" ?sp 9]
    by (simp add: Let_def)
qed

text \<open>
  C40. Since a disconnected peer stays a member of its room and identifiers are reused, a new
  connection can be a member of a room before it has said anything: if no freed identifier
  is waiting, the next connection gets the identifier of the peer that disconnected, and
  with it the membership.
\<close>

theorem membership_is_inherited:
  assumes "hm_get (st_map st) i = Some sp" "sps_peer_id (sp_state sp) = i" "pid_raw i \<noteq> 0"
    and "ids_free (pe_ids (st_peers st)) = []"
    and "hm_get (st_rooms st) r = Some room" "i \<in> set (room_members room)"
  shows "let st' = accept_client now' addr cl (serve_ready env now i PollErr st) in
    \<exists>sq. hm_get (st_map st') i = Some sq \<and> pk_is_zero (sps_public_key (sp_state sq)) \<and>
      sp_state sq = sp_state (server_peer_new now' addr (peer_new cl) i) \<and>
      hm_get (st_rooms st') r = Some room \<and> i \<in> set (room_members room)"
proof -
  let ?f = "\<lambda>me. peer_disconnected (e_codec env) (sps_peer_id me)"
  let ?st1 = "st\<lparr>st_peers := (st_peers st)\<lparr>pe_peers := hm_remove i (st_map st),
      pe_ids := ids_release (pid_raw i) (pe_ids (st_peers st))\<rparr>\<rparr>"
  let ?st2 = "send_to_all (sp_state sp) ?f ?st1"
  have out: "serve_ready env now i PollErr st = ?st2\<lparr>st_poll := bs_remove i (st_poll ?st2)\<rparr>"
    using assms(1, 2)
    by (simp add: serve_ready_def peers_remove_def peers_free_def remove_peer_def
        server_disconnected_def Let_def)
  have core: "same_core ?st1 ?st2" by (rule same_core_send_to_all)
  then have "ids_free (pe_ids (st_peers ?st2)) = [pid_raw i]" "st_rooms ?st2 = st_rooms st"
    using assms(3, 4) by (simp_all add: same_core_def ids_release_def non_zero_def)
  moreover from this have "ids_next (pe_ids (st_peers ?st2)) =
      (Some (pid_raw i), (pe_ids (st_peers ?st2))\<lparr>ids_free := []\<rparr>)"
    by (simp add: ids_next_def)
  ultimately show ?thesis
    using assms(5, 6)
    by (simp add: out accept_client_def next_peer_id_def peers_insert_def hm_get_insert Let_def)
      (simp add: server_peer_new_def pk_is_zero_def PublicKey_ZERO_def)
qed

theorem membership_is_inherited_witness:
  "\<exists>st i sq. (server_step demo_env)\<^sup>*\<^sup>* (state_new 7) st \<and>
     hm_get (st_map (accept_client 2 8 client_tls (serve_ready demo_env 1 i PollErr st))) i = Some sq \<and>
     pk_is_zero (sps_public_key (sp_state sq)) \<and>
     hm_get (st_rooms (accept_client 2 8 client_tls (serve_ready demo_env 1 i PollErr st)))
       StableId_ZERO = Some \<lparr>room_members = [i]\<rparr>"
proof -
  obtain st i sp where st: "(server_step demo_env)\<^sup>*\<^sup>* (state_new 7) st"
    "st_map st = [(i, sp)]" "authenticated i sp" "pid_raw i \<noteq> 0"
    "st_rooms st = [(StableId_ZERO, \<lparr>room_members = [i]\<rparr>)]"
    "ids_free (pe_ids (st_peers st)) = []" by (rule running)
  then have h: "hm_get (st_map st) i = Some sp" "sps_peer_id (sp_state sp) = i"
    "hm_get (st_rooms st) StableId_ZERO = Some \<lparr>room_members = [i]\<rparr>"
    by (simp_all add: hm_get_def authenticated_def)
  from membership_is_inherited [OF h(1, 2) st(4, 6) h(3), of 2 8 client_tls demo_env 1] st(1)
  show ?thesis by (simp add: Let_def) blast
qed

end
