(* ===== verification/ServerGreet.thy ===== *)
theory ServerGreet
  imports ServerRun
begin

section \<open>What a connecting peer is told\<close>

text \<open>
  The messages that a connecting peer receives, as a list of events computed from the state
  before it connected. The loops of the server are reduced to \<open>send_all\<close> of such lists;
  \<open>view\<close> is what a peer is apart from its connection, which sending does not change.
\<close>

definition view :: "ServerPeerState \<Rightarrow> ServerPeerState" where
  "view this = this\<lparr>sps_peer := peer_new client_plain\<rparr>"

definition views :: "(PeerId, ServerPeer) hashmap \<Rightarrow> (PeerId, ServerPeerState) hashmap" where
  "views ps = hm_map_values (\<lambda>_ sp. view (sp_state sp)) ps"

definition announce :: "PeerId \<Rightarrow> ServerPeerState \<Rightarrow> Event list" where
  "announce i this =
     map (\<lambda>ob. ObjectCreated (ObjectCreatedBody i ob)) (global_objects this) @
     map (\<lambda>img. ImageCreated (ImageCreatedBody i img)) (hm_values (sps_images this))"

definition told_others :: "PeerId \<Rightarrow> (PeerId, ServerPeerState) hashmap \<Rightarrow> Event list" where
  "told_others me vs =
     concat (map (\<lambda>(i, v). if me = i then [] else announce (sps_peer_id v) v) vs)"

definition told_greet :: "(PeerId, ServerPeerState) hashmap \<Rightarrow> Event list" where
  "told_greet vs =
     concat (map (\<lambda>(i, v).
       PeerConnected (PeerConnectedBody (sps_public_key v) i (sps_props v)) # announce i v) vs)"

definition told_join :: "PeerId list \<Rightarrow> (PeerId, ServerPeerState) hashmap \<Rightarrow> Event list" where
  "told_join is vs =
     concat (map (\<lambda>i. case hm_get vs i of
         None \<Rightarrow> []
       | Some v \<Rightarrow> [PeerJoin (PeerJoinBody (sps_peer_id v) (local_objects v))]) is)"

lemma view_simps [simp]:
  "sps_peer_id (view t) = sps_peer_id t" "sps_public_key (view t) = sps_public_key t"
  "sps_props (view t) = sps_props t" "sps_objects (view t) = sps_objects t"
  "sps_images (view t) = sps_images t" "global_objects (view t) = global_objects t"
  "local_objects (view t) = local_objects t" "announce i (view t) = announce i t"
  "view (t\<lparr>sps_peer := p\<rparr>) = view t"
  by (simp_all add: view_def global_objects_def local_objects_def announce_def)

lemma views_simps [simp]:
  "views [] = []" "views ((i, sp) # ps) = (i, view (sp_state sp)) # views ps"
  by (simp_all add: views_def hm_map_values_def)

lemma hm_get_views: "hm_get (views ps) i = map_option (\<lambda>sp. view (sp_state sp)) (hm_get ps i)"
  by (simp add: views_def hm_get_map_values)

lemma view_peer_mut: "peer_mut f sp = (ok, sp') \<Longrightarrow> view (sp_state sp') = view (sp_state sp)"
  by (auto simp: peer_mut_def split: prod.splits)

lemma views_update_same:
  "hm_get ps i = Some sp \<Longrightarrow> view (sp_state sp') = view (sp_state sp) \<Longrightarrow>
     views (hm_insert i sp' ps) = views ps"
  by (simp add: views_def hm_map_values_insert hm_insert_same hm_get_map_values)

lemma views_send_each: "send_each me f ps poll = (ps', poll') \<Longrightarrow> views ps' = views ps"
proof (induction me f ps poll arbitrary: ps' poll' rule: send_each.induct)
  case (1 me f poll)
  then show ?case by simp
next
  case (2 me f i sp ps poll)
  then show ?case by (auto simp: view_peer_mut split: if_splits prod.splits)
qed

lemma views_send_to_all [simp]: "views (st_map (send_to_all this f st)) = views (st_map st)"
  by (auto simp: send_to_all_def set_map_def dest: views_send_each split: prod.split)

lemma views_send_each_of [simp]: "views (st_map (send_each_of f xs this st)) = views (st_map st)"
  by (induction xs arbitrary: st) simp_all

subsection \<open>The loops as lists of events\<close>

lemma send_all_append:
  "send_all c (es @ fs) p =
     (case send_all c es p of (False, p') \<Rightarrow> (False, p') | (True, p') \<Rightarrow> send_all c fs p')"
  by (induction es arbitrary: p) (auto split: prod.split bool.split)

lemma send_all_ready:
  "peer_ok p \<Longrightarrow> p_scratch p = [] \<Longrightarrow> \<forall>e\<in>set es. encodable c e \<Longrightarrow>
     send_all c es p = (ok, p') \<Longrightarrow> ok \<and> peer_ok p' \<and> p_scratch p' = []"
proof (induction es arbitrary: p)
  case Nil
  then show ?case by simp
next
  case (Cons e es)
  obtain ok1 p1 where p1: "peer_send c e p = (ok1, p1)" by fastforce
  with peer_send_encodable [OF Cons.prems(1, 2) _ p1] Cons.prems(3, 4) Cons.IH [of p1]
  show ?case by auto
qed

lemma try_objects:
  "try_each (peer_object_created c i) obs p =
     send_all c (map (\<lambda>ob. ObjectCreated (ObjectCreatedBody i ob)) obs) p"
  by (induction obs arbitrary: p) (simp_all add: peer_senders split: prod.split bool.split)

lemma try_images:
  "try_each (peer_image_created c i) imgs p =
     send_all c (map (\<lambda>img. ImageCreated (ImageCreatedBody i img)) imgs) p"
  by (induction imgs arbitrary: p) (simp_all add: peer_senders split: prod.split bool.split)

lemma send_others_told: "send_others c me ps p = send_all c (told_others me (views ps)) p"
proof (induction ps arbitrary: p)
  case Nil
  then show ?case by (simp add: send_others_def told_others_def)
next
  case (Cons x ps)
  obtain i sp where x: "x = (i, sp)" by (cases x)
  have "send_others c me ((i, sp) # ps) p =
      (case (if me = i then (True, p)
             else send_all c (announce (sps_peer_id (sp_state sp)) (sp_state sp)) p) of
         (False, p) \<Rightarrow> (False, p) | (True, p) \<Rightarrow> send_others c me ps p)"
    by (auto simp: send_others_def announce_def send_all_append try_objects try_images split: prod.split bool.split)
  then show ?case
    using Cons.IH
    by (cases "me = i") (simp_all add: x told_others_def send_all_append split: prod.split bool.split)
qed

lemma each_any_send:
  "peer_ok p \<Longrightarrow> p_scratch p = [] \<Longrightarrow> \<forall>x\<in>set xs. encodable c (ev x) \<Longrightarrow>
     each_any (\<lambda>x. peer_send c (ev x)) xs any p =
       (any \<or> xs \<noteq> [], snd (send_all c (map ev xs) p))"
proof (induction xs arbitrary: any p)
  case Nil
  then show ?case by simp
next
  case (Cons x xs)
  obtain ok1 p1 where p1: "peer_send c (ev x) p = (ok1, p1)" by fastforce
  with peer_send_encodable [OF Cons.prems(1, 2) _ p1] Cons.prems(3) Cons.IH [of p1]
  show ?case by simp
qed

lemma snd_send_all_append:
  assumes "peer_ok p" "p_scratch p = []" "\<forall>e\<in>set es. encodable c e"
  shows "snd (send_all c (es @ fs) p) = snd (send_all c fs (snd (send_all c es p)))"
proof -
  obtain ok p1 where s: "send_all c es p = (ok, p1)" by fastforce
  with send_all_ready [OF assms s] show ?thesis by (simp add: send_all_append)
qed

lemma greet_each_told:
  "peer_ok p \<Longrightarrow> p_scratch p = [] \<Longrightarrow> \<forall>e\<in>set (told_greet (views ps)). encodable c e \<Longrightarrow>
     fst (greet_each c me ps p poll) = snd (send_all c (told_greet (views ps)) p)"
proof (induction ps arbitrary: p poll)
  case Nil
  then show ?case by (simp add: told_greet_def)
next
  case (Cons x ps)
  obtain i sp where x: "x = (i, sp)" by (cases x)
  let ?t = "sp_state sp"
  let ?es = "PeerConnected (PeerConnectedBody (sps_public_key ?t) i (sps_props ?t)) # announce i ?t"
  have es: "told_greet (views (x # ps)) = ?es @ told_greet (views ps)"
    by (simp add: told_greet_def x)
  have enc: "\<forall>e\<in>set ?es. encodable c e" "\<forall>e\<in>set (told_greet (views ps)). encodable c e"
    using Cons.prems(3) unfolding es by auto
  obtain ok1 p1 where p1: "peer_connected c (sps_public_key ?t) i (sps_props ?t) p = (ok1, p1)"
    by fastforce
  then have s1: "peer_send c (hd ?es) p = (ok1, p1)" by (simp add: peer_senders)
  then have r1: "ok1" "peer_ok p1" "p_scratch p1 = []"
    using peer_send_encodable [OF Cons.prems(1, 2) _ s1] enc(1) by auto
  define p2 where "p2 = snd (send_all c (map (\<lambda>ob. ObjectCreated (ObjectCreatedBody i ob)) (global_objects ?t)) p1)"
  define p3 where "p3 = snd (send_all c (map (\<lambda>img. ImageCreated (ImageCreatedBody i img)) (hm_values (sps_images ?t))) p2)"
  have o: "each_any (\<lambda>ob. peer_object_created c i ob) (global_objects ?t) True p1 = (True, p2)"
    using each_any_send [OF r1(2, 3), of "global_objects ?t" c "\<lambda>ob. ObjectCreated (ObjectCreatedBody i ob)"]
      enc(1) by (auto simp: peer_senders p2_def announce_def)
  have r2: "peer_ok p2" "p_scratch p2 = []"
    using send_all_ready [OF r1(2, 3), of "map (\<lambda>ob. ObjectCreated (ObjectCreatedBody i ob)) (global_objects ?t)" c _ p2] enc(1)
    by (cases "send_all c (map (\<lambda>ob. ObjectCreated (ObjectCreatedBody i ob)) (global_objects ?t)) p1";
        force simp: p2_def announce_def)+
  have im: "each_any (\<lambda>img. peer_image_created c i img) (hm_values (sps_images ?t)) True p2 = (True, p3)"
    using each_any_send [OF r2, of "hm_values (sps_images ?t)" c "\<lambda>img. ImageCreated (ImageCreatedBody i img)"]
      enc(1) by (auto simp: peer_senders p3_def announce_def)
  have r3: "peer_ok p3" "p_scratch p3 = []"
    using send_all_ready [OF r2, of "map (\<lambda>img. ImageCreated (ImageCreatedBody i img)) (hm_values (sps_images ?t))" c _ p3] enc(1)
    by (cases "send_all c (map (\<lambda>img. ImageCreated (ImageCreatedBody i img)) (hm_values (sps_images ?t))) p2";
        force simp: p3_def announce_def)+
  have "p3 = snd (send_all c ?es p)"
    using s1 r1 enc(1) unfolding p3_def p2_def
    by (simp add: announce_def) (subst snd_send_all_append; auto)
  then show ?case
    using p1 r1 o im r3 Cons.IH [OF r3 enc(2)] snd_send_all_append [OF Cons.prems(1, 2) enc(1)]
    unfolding es by (simp add: x)
qed

lemma join_members_told:
  "join_members c is this ps poll = (this', ps', poll') \<Longrightarrow> peer_ok (sps_peer this) \<Longrightarrow>
     p_scratch (sps_peer this) = [] \<Longrightarrow> \<forall>e\<in>set (told_join is (views ps)). encodable c e \<Longrightarrow>
     sps_peer this' = snd (send_all c (told_join is (views ps)) (sps_peer this))"
proof (induction "is" arbitrary: this ps poll)
  case Nil
  then show ?case by (simp add: told_join_def)
next
  case (Cons i "is")
  show ?case
  proof (cases "hm_get ps i")
    case None
    with Cons.prems(1) have "join_members c is this ps poll = (this', ps', poll')" by simp
    moreover have "told_join (i # is) (views ps) = told_join is (views ps)"
      by (simp add: told_join_def hm_get_views None)
    ultimately show ?thesis using Cons.IH [of this ps poll] Cons.prems by simp
  next
    case (Some sp)
    obtain ok sp' where m: "peer_mut (peer_join c (sps_peer_id this) (local_objects this)) sp = (ok, sp')"
      by fastforce
    have v: "view (sp_state sp') = view (sp_state sp)" by (rule view_peer_mut [OF m])
    then have same: "sps_peer_id (sp_state sp') = sps_peer_id (sp_state sp)"
      "local_objects (sp_state sp') = local_objects (sp_state sp)"
      by (metis view_simps(1), metis view_simps(7))
    let ?e = "PeerJoin (PeerJoinBody (sps_peer_id (sp_state sp)) (local_objects (sp_state sp)))"
    obtain ok' p where j: "peer_send c ?e (sps_peer this) = (ok', p)" by fastforce
    have es: "told_join (i # is) (views ps) = ?e # told_join is (views ps)"
      by (simp add: told_join_def hm_get_views Some)
    have r: "ok'" "peer_ok p" "p_scratch p = []"
      using peer_send_encodable [OF Cons.prems(2, 3) _ j] Cons.prems(4) es by auto
    have vs: "views (hm_insert i sp' ps) = views ps" by (rule views_update_same [OF Some v])
    have "join_members c is (this\<lparr>sps_peer := p\<rparr>) (hm_insert i sp' ps)
        (schedule ok' (sps_peer_id this) (schedule ok (sps_peer_id (sp_state sp')) poll)) =
        (this', ps', poll')"
      using Cons.prems(1) Some m j same by (simp add: peer_senders)
    then have "sps_peer this' = snd (send_all c (told_join is (views ps)) p)"
      using Cons.IH [of "this\<lparr>sps_peer := p\<rparr>"] r Cons.prems(4) es vs by simp
    with j r es show ?thesis by simp
  qed
qed

definition new_peer :: "ConnectBody \<Rightarrow> ServerPeerState \<Rightarrow> ServerPeerState" where
  "new_peer b this =
     this\<lparr>sps_challenge := None, sps_public_key := cb_public_key b, sps_props := cb_props b\<rparr>"

definition joined_members :: "ConnectBody \<Rightarrow> ServerPeerState \<Rightarrow> State \<Rightarrow> PeerId list" where
  "joined_members b this st =
     (case add_objects (cb_objects b) (new_peer b this) st of
        (_, st) \<Rightarrow>
          (case hm_get (st_rooms st) (as_stable_id (props_get (cb_props b) KEY_ROOM)) of
             None \<Rightarrow> [] | Some room \<Rightarrow> room_members room))"

definition greeting :: "ConnectBody \<Rightarrow> ServerPeerState \<Rightarrow> State \<Rightarrow> Event list" where
  "greeting b this st =
     told_others (sps_peer_id this) (views (st_map st)) @ told_greet (views (st_map st)) @
     told_join (joined_members b this st) (views (st_map st))"

lemma add_objects_fields:
  "add_objects obs this st = (this', st') \<Longrightarrow> sps_peer_id this' = sps_peer_id this \<and>
     sps_props this' = sps_props this \<and> sps_images this' = sps_images this"
  by (induction obs this st rule: add_objects.induct) (auto simp: Let_def split: if_splits)

lemma add_images_fields:
  "sps_peer_id (add_images imgs this) = sps_peer_id this \<and>
   sps_props (add_images imgs this) = sps_props this \<and>
   sps_objects (add_images imgs this) = sps_objects this"
  by (induction imgs arbitrary: this) simp_all

lemma rooms_send_to_all [simp]: "st_rooms (send_to_all this f st) = st_rooms st"
  by (auto simp: send_to_all_def set_map_def split: prod.split)

lemma rooms_send_each_of [simp]: "st_rooms (send_each_of f xs this st) = st_rooms st"
  by (induction xs arbitrary: st) simp_all

lemma server_connected_told:
  assumes "server_connected c this st = (this', st')"
    and "peer_ok (sps_peer this)" "p_scratch (sps_peer this) = []"
    and "\<forall>e\<in>set (told_greet (views (st_map st))). encodable c e"
  shows "this' = this\<lparr>sps_peer := snd (send_all c (told_greet (views (st_map st))) (sps_peer this))\<rparr> \<and>
    views (st_map st') = views (st_map st) \<and> st_rooms st' = st_rooms st"
proof -
  define s1 where "s1 = send_to_all this
      (\<lambda>me. peer_connected c (sps_public_key me) (sps_peer_id me) (sps_props me)) st"
  define s2 where "s2 = send_each_of (\<lambda>ob me. peer_object_created c (sps_peer_id me) ob)
      (global_objects this) this s1"
  define s3 where "s3 = send_each_of (\<lambda>img me. peer_image_created c (sps_peer_id me) img)
      (hm_values (sps_images this)) this s2"
  obtain p poll where g:
      "greet_each c (sps_peer_id this) (st_map s3) (sps_peer this) (st_poll s3) = (p, poll)"
    by fastforce
  have out: "this' = this\<lparr>sps_peer := p\<rparr>" "st' = s3\<lparr>st_poll := poll\<rparr>"
    using assms(1) g by (simp_all add: server_connected_def Let_def flip: s1_def s2_def s3_def)
  have s3: "views (st_map s3) = views (st_map st)" "st_rooms s3 = st_rooms st"
    by (simp_all add: s3_def s2_def s1_def)
  with g greet_each_told [OF assms(2, 3), where ps = "st_map s3" and c = c and me = "sps_peer_id this" and poll = "st_poll s3"] assms(4)
  show ?thesis by (simp add: out)
qed

text \<open>What the connection is once the objects and images of its \<open>Connect\<close> are filed.\<close>

definition filed :: "ConnectBody \<Rightarrow> ServerPeerState \<Rightarrow> State \<Rightarrow> ServerPeerState" where
  "filed b this st =
     view (add_images (cb_images b) (fst (add_objects (cb_objects b) (new_peer b this) st)))"

lemma on_connect_runs:
  assumes "sps_challenge this = Some ch" "e_verify env (cb_public_key b) ch (cb_signature b)"
    and "\<forall>v\<in>set (hm_values (views (st_map st))). sps_public_key v \<noteq> cb_public_key b"
    and "peer_ok (sps_peer this)" "p_scratch (sps_peer this) = []"
    and "\<forall>e\<in>set (greeting b this st). encodable (e_codec env) e"
  shows "\<exists>this' st'. on_connect env b this st = (None, this', st') \<and> view this' = filed b this st \<and>
    read_buf (p_write (sps_peer this')) =
      read_buf (p_write (sps_peer this)) @ concat (map (frame (e_codec env)) (greeting b this st))"
proof -
  let ?c = "e_codec env" and ?vs = "views (st_map st)"
  obtain t2 s2 where a: "add_objects (cb_objects b) (new_peer b this) st = (t2, s2)" by fastforce
  define t3 where "t3 = add_images (cb_images b) t2"
  obtain ok t4 where r: "reply (send_others ?c (sps_peer_id t3) (st_map s2)) t3 = (ok, t4)"
    by fastforce
  obtain t5 s5 where c: "server_connected ?c t4 s2 = (t5, s5)" by fastforce
  obtain t6 s6 where j: "join_room ?c (sps_room t5) t5 s5 = (t6, s6)" by fastforce
  have t3: "sps_peer t3 = sps_peer this" "sps_peer_id t3 = sps_peer_id this"
    "sps_props t3 = cb_props b" and s2: "st_map s2 = st_map st"
    using bufs.add_objects_keeps [OF a] add_objects_fields [OF a]
      add_images_fields [of "cb_images b" t2] bufs.add_images_keeps [of "cb_images b" t2]
    by (simp_all add: t3_def new_peer_def)
  let ?o = "told_others (sps_peer_id this) ?vs" and ?g = "told_greet ?vs"
    and ?j = "told_join (joined_members b this st) ?vs"
  have enc: "\<forall>e\<in>set ?o. encodable ?c e" "\<forall>e\<in>set ?g. encodable ?c e" "\<forall>e\<in>set ?j. encodable ?c e"
    using assms(6) by (auto simp: greeting_def)
  have s: "send_all ?c ?o (sps_peer this) = (ok, sps_peer t4)" and t4: "t4 = t3\<lparr>sps_peer := sps_peer t4\<rparr>"
    using r t3 s2 by (auto simp: reply_def send_others_told split: prod.splits)
  have ok: "ok" using send_all_ready [OF assms(4, 5) enc(1) s] by simp
  have "\<not> (\<exists>(i, sp)\<in>set (st_map st). sps_public_key (sp_state sp) = cb_public_key b)"
    using assms(3) by (force simp: hm_values_def views_def hm_map_values_def)
  then have out: "on_connect env b this st = (None, t6, s6)"
    using assms(1, 2) a r c j ok by (simp add: on_connect_def Let_def new_peer_def flip: t3_def)
  have r4: "peer_ok (sps_peer t4)" "p_scratch (sps_peer t4) = []"
    using send_all_ready [OF assms(4, 5) enc(1) s] by simp_all
  have t5: "t5 = t4\<lparr>sps_peer := snd (send_all ?c ?g (sps_peer t4))\<rparr>"
    "views (st_map s5) = ?vs" "st_rooms s5 = st_rooms s2"
    using server_connected_told [OF c r4] enc(2) s2 by simp_all
  have r5: "peer_ok (sps_peer t5)" "p_scratch (sps_peer t5) = []"
    using send_all_ready [OF r4 enc(2)] t5(1) by (auto simp: prod_eq_iff)
  have room: "sps_room t5 = as_stable_id (props_get (cb_props b) KEY_ROOM)"
    unfolding t5(1) by (subst t4) (simp add: sps_room_def t3)
  have p6: "sps_peer t6 = snd (send_all ?c ?j (sps_peer t5))"
  proof (cases "hm_get (st_rooms s2) (sps_room t5)")
    case None
    then have "?j = []" by (simp add: joined_members_def a room told_join_def)
    with None j t5(3) show ?thesis by (simp add: join_room_def)
  next
    case (Some rm)
    then have jm: "joined_members b this st = room_members rm"
      by (simp add: joined_members_def a room)
    obtain t ps poll where m: "join_members ?c (room_members rm) t5 (st_map s5) (st_poll s5) = (t, ps, poll)"
      by (metis prod_cases3)
    with Some j t5(3) have "t6 = t" by (simp add: join_room_def Let_def)
    with join_members_told [OF m r5] t5(2) enc(3) jm show ?thesis by simp
  qed
  have "snd (send_all ?c (?o @ ?g @ ?j) (sps_peer this)) = sps_peer t6"
    using snd_send_all_append [OF assms(4, 5) enc(1)] snd_send_all_append [OF r4 enc(2)] s t5(1) p6
    by simp
  moreover have "read_buf (p_write (snd (send_all ?c (?o @ ?g @ ?j) (sps_peer this)))) =
      read_buf (p_write (sps_peer this)) @ concat (map (frame ?c) (?o @ ?g @ ?j))"
    using send_all_frames [OF assms(4, 5), of "?o @ ?g @ ?j" ?c] assms(6)
    by (auto simp: greeting_def split: prod.splits)
  moreover have "view t6 = view t3"
    using reply_peer_only [OF r] connected_peer_only [OF c] join_room_peer_only [OF j]
    by (metis view_simps(9))
  then have "view t6 = filed b this st" by (simp add: filed_def a t3_def)
  ultimately show ?thesis using out by (simp add: greeting_def)
qed

text \<open>
  C24. A \<open>Connect\<close> that answers the challenge with a valid signature under a key that is not
  in use succeeds, and the queue of the peer is extended by exactly the following messages, in
  this order: the global objects and the images of every other peer; then, for
  every other peer, that it is connected and its global objects and images again; then, for
  every member of the room it enters, the member's local objects.
\<close>

theorem connect_greets:
  assumes "sps_challenge this = Some ch" "e_verify env (cb_public_key b) ch (cb_signature b)"
    and "\<forall>v\<in>set (hm_values (views (st_map st))). sps_public_key v \<noteq> cb_public_key b"
    and "peer_ok (sps_peer this)" "p_scratch (sps_peer this) = []"
    and "\<forall>e\<in>set (greeting b this st). encodable (e_codec env) e"
  shows "\<exists>this' st'. on_connect env b this st = (None, this', st') \<and>
    read_buf (p_write (sps_peer this')) =
      read_buf (p_write (sps_peer this)) @ concat (map (frame (e_codec env)) (greeting b this st))"
  using on_connect_runs [OF assms] by blast

text \<open>A server with one peer that hosts a room, and a second one that has been challenged.\<close>

definition demo_room :: RemoteObject where
  "demo_room = \<lparr>ro_ty = TYPE_ROOM, ro_id = Id_new 3, ro_props = props_new\<rparr>"

definition demo_host :: ServerPeerState where
  "demo_host = (sp_state (server_peer_new 0 1 (peer_new client_plain) (PeerId_new 1)))\<lparr>
     sps_public_key := PublicKey_new (replicate 32 7), sps_objects := [(Id_new 3, demo_room)]\<rparr>"

definition demo_hosted :: State where
  "demo_hosted = (state_new 7)\<lparr>
     st_rooms := [(StableId_ZERO, \<lparr>room_members = [PeerId_new 1]\<rparr>)],
     st_peers := (peers_new 7)\<lparr>pe_peers :=
       [(PeerId_new 1, \<lparr>sp_timeout = 9, sp_state = demo_host\<rparr>)]\<rparr>\<rparr>"

definition demo_guest :: ServerPeerState where
  "demo_guest = (sp_state (server_peer_new 0 2 (peer_new client_plain) (PeerId_new 2)))\<lparr>
     sps_challenge := Some (replicate 32 0)\<rparr>"

lemma demo_greeting:
  "greeting demo_connect demo_guest demo_hosted =
     [ObjectCreated (ObjectCreatedBody (PeerId_new 1) demo_room),
      PeerConnected (PeerConnectedBody (PublicKey_new (replicate 32 7)) (PeerId_new 1) props_new),
      ObjectCreated (ObjectCreatedBody (PeerId_new 1) demo_room),
      PeerJoin (PeerJoinBody (PeerId_new 1) [])]"
  by (simp add: greeting_def demo_hosted_def demo_host_def demo_guest_def demo_connect_def
      told_others_def told_greet_def told_join_def joined_members_def announce_def
      server_peer_new_def global_objects_def local_objects_def hm_values_def hm_get_views
      hm_get_def demo_room_def is_global_def)

theorem connect_greets_witness:
  "\<exists>this' st'. on_connect demo_env demo_connect demo_guest demo_hosted = (None, this', st') \<and>
     read_buf (p_write (sps_peer this')) =
       concat (map (frame (e_codec demo_env))
         [ObjectCreated (ObjectCreatedBody (PeerId_new 1) demo_room),
          PeerConnected (PeerConnectedBody (PublicKey_new (replicate 32 7)) (PeerId_new 1) props_new),
          ObjectCreated (ObjectCreatedBody (PeerId_new 1) demo_room),
          PeerJoin (PeerJoinBody (PeerId_new 1) [])])"
proof -
  have ch: "sps_challenge demo_guest = Some (replicate 32 0)"
    by (simp add: demo_guest_def)
  have v: "e_verify demo_env (cb_public_key demo_connect) (replicate 32 0) (cb_signature demo_connect)"
    by (simp add: demo_env_def ping_env_def demo_connect_def)
  have k: "\<forall>v\<in>set (hm_values (views (st_map demo_hosted))). sps_public_key v \<noteq> cb_public_key demo_connect"
    by (simp add: demo_hosted_def demo_host_def hm_values_def demo_connect_def demo_key_def
        replicate_eq_replicate)
  have p: "peer_ok (sps_peer demo_guest)" "p_scratch (sps_peer demo_guest) = []"
    "read_buf (p_write (sps_peer demo_guest)) = []"
    by (simp_all add: demo_guest_def server_peer_new_def)
  have e: "\<forall>e\<in>set (greeting demo_connect demo_guest demo_hosted). encodable (e_codec demo_env) e"
    by (simp add: demo_encodable)
  show ?thesis
    using connect_greets [OF ch v k p(1, 2) e] unfolding demo_greeting p(3) append_Nil .
qed

end
