(* ===== verification/Database.thy ===== *)
theory Database
  imports Messages
begin

section \<open>The database: \<^verbatim>\<open>crates/mumbler/src/database.rs\<close>\<close>

text \<open>
  The tables of \<open>migrations/\<close> and the operations on them. SQLite and the \<open>descriptive\<close> encoding
  are third-party code: a statement's execution may fail (\<open>db_faults\<close> tells for the next ones
  whether they do; afterwards all succeed), a \<open>NaN\<close> is bound as \<open>NULL\<close>, which the \<open>NOT NULL\<close>
  columns reject, and the encoder and decoder are the parameter \<open>Descriptive\<close>. Foreign keys
  are not enforced, so that removing an object leaves its properties. The scratch buffer that
  the encodings are written to is part of the state, because only a successful insertion
  clears it.
\<close>

record Descriptive =
  d_enc :: "Value \<Rightarrow> bytes \<times> bool"
  d_dec :: "ValueType \<Rightarrow> bytes \<Rightarrow> Value option"

datatype Column = CInteger i64 | CFloat f64 | CText string | CBlob bytes | CNull

record ImageRow =
  ir_id :: Id
  ir_content_type :: ContentType
  ir_role :: Role
  ir_width :: u32
  ir_height :: u32
  ir_bytes :: bytes

record Database =
  db_scratch :: bytes
  db_objects :: "(Id \<times> Type) list"
  db_props :: "(Id \<times> Key, Column) hashmap"
  db_images :: "(Id, ImageRow) hashmap"
  db_faults :: "bool list"

datatype DbError = KindMismatch Value ValueType | EncodeFailed | ExecFailed

definition db_exec :: "Database \<Rightarrow> bool \<times> Database" where
  "db_exec db =
     (case db_faults db of
        [] \<Rightarrow> (True, db)
      | fault # rest \<Rightarrow> (\<not> fault, db\<lparr>db_faults := rest\<rparr>))"

subsection \<open>Values as columns\<close>

datatype Insert =
    I_String string
  | I_Float f64
  | I_Integer i64
  | I_Boolean bool
  | I_Bytes bytes
  | I_Id Id
  | I_PeerId PeerId
  | I_Encoded bytes

datatype Outcome = O_Remove | O_Insert Insert

fun bind_insert :: "Insert \<Rightarrow> Column" where
  "bind_insert (I_String s) = CText s"
| "bind_insert (I_Float f) = (if f64_nan f then CNull else CFloat f)"
| "bind_insert (I_Integer i) = CInteger i"
| "bind_insert (I_Boolean b) = CInteger (if b then 1 else 0)"
| "bind_insert (I_Bytes b) = CBlob b"
| "bind_insert (I_Id i) = CInteger (ucast (id_get i))"
| "bind_insert (I_PeerId p) = CInteger (ucast (pid_raw p))"
| "bind_insert (I_Encoded b) = CBlob b"

definition encode_into ::
    "Descriptive \<Rightarrow> Value \<Rightarrow> bytes \<Rightarrow> (DbError + Outcome) \<times> bytes" where
  "encode_into d v scratch =
     (case d_enc d v of
        (bs, False) \<Rightarrow> (Inl EncodeFailed, scratch @ bs)
      | (bs, True) \<Rightarrow> (Inr (O_Insert (I_Encoded (scratch @ bs))), scratch @ bs))"

definition to_outcome ::
    "Descriptive \<Rightarrow> Key \<Rightarrow> Value \<Rightarrow> bytes \<Rightarrow> (DbError + Outcome) \<times> bytes" where
  "to_outcome d key v scratch =
     (case key_ty key of
        None \<Rightarrow> (Inr O_Remove, scratch)
      | Some ty \<Rightarrow>
          (let mismatch = (Inl (KindMismatch v ty), scratch);
               encoded = (\<lambda>t. if ty = t then encode_into d v scratch else mismatch);
               plain = (\<lambda>t remove ins.
                 if ty = t then (Inr (if remove then O_Remove else O_Insert ins), scratch)
                 else mismatch)
           in case v of
                VString s \<Rightarrow> plain Ty_String (s = []) (I_String s)
              | VFloat f \<Rightarrow> plain Ty_Float False (I_Float f)
              | VInteger i \<Rightarrow> plain Ty_Integer False (I_Integer i)
              | VBoolean b \<Rightarrow> plain Ty_Boolean False (I_Boolean b)
              | VBytes b \<Rightarrow> plain Ty_Bytes (b = []) (I_Bytes b)
              | VId i \<Rightarrow> plain Ty_Id (id_is_zero i) (I_Id i)
              | VStableId s \<Rightarrow>
                  if ty = Ty_StableId \<and> id_is_zero (sid_id s) then (Inr O_Remove, scratch)
                  else encoded Ty_StableId
              | VTransform _ \<Rightarrow> encoded Ty_Transform
              | VColor _ \<Rightarrow> encoded Ty_Color
              | VVec3 _ \<Rightarrow> encoded Ty_Vec3
              | VExtent _ \<Rightarrow> encoded Ty_Extent
              | VCanvas2 _ \<Rightarrow> encoded Ty_Canvas2
              | VPeerId p \<Rightarrow> plain Ty_PeerId (pid_is_zero p) (I_PeerId p)
              | VEmpty \<Rightarrow> (Inr O_Remove, scratch)))"

definition u32_column :: "i64 \<Rightarrow> u32 option" where
  "u32_column i = (if 0 \<le> sint i \<and> sint i < 2 ^ 32 then Some (word_of_int (sint i)) else None)"

fun value_from_blob :: "Descriptive \<Rightarrow> ValueType \<Rightarrow> Column \<Rightarrow> Value option" where
  "value_from_blob d Ty_Boolean (CInteger i) = Some (VBoolean (i \<noteq> 0))"
| "value_from_blob d Ty_Bytes (CBlob b) = Some (VBytes b)"
| "value_from_blob d Ty_Color (CBlob b) = d_dec d Ty_Color b"
| "value_from_blob d Ty_Extent (CBlob b) = d_dec d Ty_Extent b"
| "value_from_blob d Ty_Float (CFloat f) = Some (VFloat f)"
| "value_from_blob d Ty_Id (CInteger i) =
     map_option (\<lambda>i. value_from_id (Id_new i)) (u32_column i)"
| "value_from_blob d Ty_Integer (CInteger i) = Some (VInteger i)"
| "value_from_blob d Ty_Canvas2 (CBlob b) = d_dec d Ty_Canvas2 b"
| "value_from_blob d Ty_PeerId (CInteger i) =
     map_option (\<lambda>i. VPeerId (PeerId_new i)) (u32_column i)"
| "value_from_blob d Ty_StableId (CBlob b) = d_dec d Ty_StableId b"
| "value_from_blob d Ty_String (CText s) = Some (VString s)"
| "value_from_blob d Ty_Transform (CBlob b) = d_dec d Ty_Transform b"
| "value_from_blob d Ty_Vec3 (CBlob b) = d_dec d Ty_Vec3 b"
| "value_from_blob d _ _ = None"

subsection \<open>Operations\<close>

definition db_set_property ::
    "Descriptive \<Rightarrow> Id \<Rightarrow> Key \<Rightarrow> Value \<Rightarrow> Database \<Rightarrow> DbError option \<times> Database" where
  "db_set_property d i key v db =
     (case to_outcome d key v (db_scratch db) of
        (Inl e, scratch) \<Rightarrow> (Some e, db\<lparr>db_scratch := scratch\<rparr>)
      | (Inr O_Remove, scratch) \<Rightarrow>
          (case db_exec (db\<lparr>db_scratch := scratch\<rparr>) of
             (False, db) \<Rightarrow> (Some ExecFailed, db)
           | (True, db) \<Rightarrow> (None, db\<lparr>db_props := hm_remove (i, key) (db_props db)\<rparr>))
      | (Inr (O_Insert ins), scratch) \<Rightarrow>
          (case db_exec (db\<lparr>db_scratch := scratch\<rparr>) of
             (False, db) \<Rightarrow> (Some ExecFailed, db)
           | (True, db) \<Rightarrow>
               if bind_insert ins = CNull then (Some ExecFailed, db)
               else (None, db\<lparr>db_props := hm_insert (i, key) (bind_insert ins) (db_props db),
                             db_scratch := []\<rparr>)))"

text \<open>The loop of \<open>set_properties\<close> does the same for every entry and stops at an error.\<close>

fun db_set_properties ::
    "Descriptive \<Rightarrow> (Id \<times> Key \<times> Value) list \<Rightarrow> Database \<Rightarrow> DbError option \<times> Database" where
  "db_set_properties d [] db = (None, db)"
| "db_set_properties d ((i, key, v) # values) db =
     (case db_set_property d i key v db of
        (Some e, db) \<Rightarrow> (Some e, db)
      | (None, db) \<Rightarrow> db_set_properties d values db)"

definition db_remove_property :: "Id \<Rightarrow> Key \<Rightarrow> Database \<Rightarrow> DbError option \<times> Database" where
  "db_remove_property i key db =
     (case db_exec db of
        (False, db) \<Rightarrow> (Some ExecFailed, db)
      | (True, db) \<Rightarrow> (None, db\<lparr>db_props := hm_remove (i, key) (db_props db)\<rparr>))"

definition db_insert_object :: "Id \<Rightarrow> Type \<Rightarrow> Database \<Rightarrow> DbError option \<times> Database" where
  "db_insert_object i ty db =
     (case db_exec db of
        (False, db) \<Rightarrow> (Some ExecFailed, db)
      | (True, db) \<Rightarrow>
          if (i, ty) \<in> set (db_objects db) then (Some ExecFailed, db)
          else (None, db\<lparr>db_objects := db_objects db @ [(i, ty)]\<rparr>))"

definition db_remove_object :: "Id \<Rightarrow> Database \<Rightarrow> DbError option \<times> Database" where
  "db_remove_object i db =
     (case db_exec db of
        (False, db) \<Rightarrow> (Some ExecFailed, db)
      | (True, db) \<Rightarrow> (None, db\<lparr>db_objects := filter (\<lambda>(j, ty). j \<noteq> i) (db_objects db)\<rparr>))"

definition db_save_image ::
    "Id \<Rightarrow> ContentType \<Rightarrow> Role \<Rightarrow> u32 \<Rightarrow> u32 \<Rightarrow> bytes \<Rightarrow> Database \<Rightarrow> DbError option \<times> Database"
where
  "db_save_image i content_type role width height data db =
     (case db_exec db of
        (False, db) \<Rightarrow> (Some ExecFailed, db)
      | (True, db) \<Rightarrow>
          if hm_get (db_images db) i \<noteq> None then (Some ExecFailed, db)
          else (None, db\<lparr>db_images := hm_insert i
             \<lparr>ir_id = i, ir_content_type = content_type, ir_role = role, ir_width = width,
              ir_height = height, ir_bytes = data\<rparr> (db_images db)\<rparr>))"

definition db_remove_image :: "Id \<Rightarrow> Database \<Rightarrow> DbError option \<times> Database" where
  "db_remove_image i db =
     (case db_exec db of
        (False, db) \<Rightarrow> (Some ExecFailed, db)
      | (True, db) \<Rightarrow> (None, db\<lparr>db_images := hm_remove i (db_images db)\<rparr>))"

definition db_images_with_data :: "Database \<Rightarrow> ImageRow list" where
  "db_images_with_data db = hm_values (db_images db)"

fun property_of_row :: "Descriptive \<Rightarrow> Id \<Rightarrow> (Id \<times> Key) \<times> Column \<Rightarrow> (Key \<times> Value) option" where
  "property_of_row d i ((j, key), col) =
     (if j \<noteq> i then None
      else case key_ty key of
             None \<Rightarrow> None
           | Some ty \<Rightarrow> map_option (Pair key) (value_from_blob d ty col))"

definition db_properties :: "Descriptive \<Rightarrow> Id \<Rightarrow> Database \<Rightarrow> (Key \<times> Value) list" where
  "db_properties d i db = List.map_filter (property_of_row d i) (db_props db)"

subsection \<open>What is stored is what is read\<close>

definition value_type :: "Value \<Rightarrow> ValueType option" where
  "value_type v =
     (case v of
        VBoolean _ \<Rightarrow> Some Ty_Boolean | VBytes _ \<Rightarrow> Some Ty_Bytes | VColor _ \<Rightarrow> Some Ty_Color
      | VEmpty \<Rightarrow> None | VExtent _ \<Rightarrow> Some Ty_Extent | VFloat _ \<Rightarrow> Some Ty_Float
      | VId _ \<Rightarrow> Some Ty_Id | VInteger _ \<Rightarrow> Some Ty_Integer | VCanvas2 _ \<Rightarrow> Some Ty_Canvas2
      | VPeerId _ \<Rightarrow> Some Ty_PeerId | VStableId _ \<Rightarrow> Some Ty_StableId | VString _ \<Rightarrow> Some Ty_String
      | VTransform _ \<Rightarrow> Some Ty_Transform | VVec3 _ \<Rightarrow> Some Ty_Vec3)"

definition encoded_types :: "ValueType list" where
  "encoded_types = [Ty_StableId, Ty_Transform, Ty_Color, Ty_Vec3, Ty_Extent, Ty_Canvas2]"

text \<open>What is relied on of the encoding: it succeeds and is decoded to the same value.\<close>

definition descriptive_ok :: "Descriptive \<Rightarrow> bool" where
  "descriptive_ok d \<longleftrightarrow>
     (\<forall>v ty. value_type v = Some ty \<longrightarrow> ty \<in> set encoded_types \<longrightarrow>
        snd (d_enc d v) \<and> d_dec d ty (fst (d_enc d v)) = Some v)"

text \<open>Values that can be stored under a key, and what is read back for them.\<close>

definition storable :: "Key \<Rightarrow> Value \<Rightarrow> bool" where
  "storable key v \<longleftrightarrow> (v = VEmpty \<or> value_type v = key_ty key) \<and> (\<forall>f. v = VFloat f \<longrightarrow> \<not> f64_nan f)"

definition stored :: "Value \<Rightarrow> Value" where
  "stored v =
     (case v of
        VStableId s \<Rightarrow> if id_is_zero (sid_id s) then VEmpty else v
      | _ \<Rightarrow> value_norm v)"

definition db_read :: "Descriptive \<Rightarrow> Database \<Rightarrow> Id \<times> Key \<Rightarrow> Value" where
  "db_read d db ik = props_get (props_from_iter (db_properties d (fst ik) db)) (snd ik)"

definition read_column :: "Descriptive \<Rightarrow> Key \<Rightarrow> Column option \<Rightarrow> Value" where
  "read_column d key col =
     (case Option.bind col (\<lambda>col. Option.bind (key_ty key) (\<lambda>ty. value_from_blob d ty col)) of
        None \<Rightarrow> VEmpty | Some v \<Rightarrow> value_norm v)"

lemma map_of_rev_distinct: "distinct (map fst xs) \<Longrightarrow> map_of (rev xs) = map_of xs"
  by (intro map_of_inject_set [THEN iffD2]) (simp_all add: rev_map [symmetric])

lemma map_of_properties:
  assumes "hm_wf m"
  shows "map_of (List.map_filter (property_of_row d i) m) key =
     Option.bind (hm_get m (i, key)) (\<lambda>col. Option.bind (key_ty key) (\<lambda>ty. value_from_blob d ty col)) \<and>
   distinct (map fst (List.map_filter (property_of_row d i) m)) \<and>
   set (map fst (List.map_filter (property_of_row d i) m)) \<subseteq> {key. (i, key) \<in> set (map fst m)}"
  using assms
proof (induction m)
  case Nil
  then show ?case by (simp add: List.map_filter_def)
next
  case (Cons x m)
  obtain j k col where x: "x = ((j, k), col)" by (metis surj_pair)
  have IH: "map_of (List.map_filter (property_of_row d i) m) key =
     Option.bind (hm_get m (i, key)) (\<lambda>col. Option.bind (key_ty key) (\<lambda>ty. value_from_blob d ty col))"
   "distinct (map fst (List.map_filter (property_of_row d i) m))"
   "set (map fst (List.map_filter (property_of_row d i) m)) \<subseteq> {key. (i, key) \<in> set (map fst m)}"
    using Cons by (simp_all add: hm_wf_def)
  have "(j, k) \<notin> set (map fst m)" using Cons.prems by (simp add: x hm_wf_def)
  then show ?case
    using IH
    by (cases "key_ty k"; cases "value_from_blob d (the (key_ty k)) col")
      (auto simp: x List.map_filter_simps hm_get_def map_of_eq_None_iff)
qed

lemma db_read_column:
  assumes "hm_wf (db_props db)"
  shows "db_read d db (i, key) = read_column d key (hm_get (db_props db) (i, key))"
  using map_of_properties [OF assms, of d i key] props.get_put_all [of props_new "db_properties d i db" key]
  by (simp add: db_read_def read_column_def props_from_iter_def db_properties_def map_of_rev_distinct
      split: option.split)

lemma u32_column_ucast [simp]: "u32_column (ucast (x :: u32)) = Some x"
proof -
  have x: "0 \<le> uint x" "uint x < 2 ^ 32" using uint_bounded [of x] by simp_all
  then have "signed_take_bit 63 (uint x) = uint x"
    by (intro signed_take_bit_int_eq_self) (simp, rule order_trans [of _ 0], simp_all)
  then have "sint (ucast x :: 64 word) = uint x"
    by (simp add: sint_uint uint_up_ucast is_up)
  with x show ?thesis by (simp add: u32_column_def)
qed

lemma encode_ok:
  assumes "descriptive_ok d" "value_type v = Some ty" "ty \<in> set encoded_types"
  obtains bs where "encode_into d v [] = (Inr (O_Insert (I_Encoded bs)), bs)" "d_dec d ty bs = Some v"
proof -
  have "snd (d_enc d v)" "d_dec d ty (fst (d_enc d v)) = Some v"
    using assms unfolding descriptive_ok_def by blast+
  then show thesis by (intro that [of "fst (d_enc d v)"]) (simp_all add: encode_into_def prod.case_eq_if)
qed

lemma to_outcome_reads:
  assumes "descriptive_ok d" "storable key v"
  obtains (remove) "to_outcome d key v [] = (Inr O_Remove, [])" "stored v = VEmpty"
    | (insert) ins bs where "to_outcome d key v [] = (Inr (O_Insert ins), bs)" "bind_insert ins \<noteq> CNull"
        "read_column d key (Some (bind_insert ins)) = stored v"
proof (cases "v = VEmpty")
  case True
  then show thesis
    by (intro remove) (auto simp: to_outcome_def stored_def value_norm_def Let_def split: option.split)
next
  case False
  then obtain ty where ty: "key_ty key = Some ty" "value_type v = Some ty"
    using assms(2) by (cases v) (auto simp: storable_def value_type_def)
  show thesis
  proof (cases "ty \<in> set encoded_types \<and> stored v \<noteq> VEmpty")
    case True
    then obtain bs where bs: "encode_into d v [] = (Inr (O_Insert (I_Encoded bs)), bs)"
      "d_dec d ty bs = Some v" using encode_ok [OF assms(1) ty(2)] by blast
    then have "to_outcome d key v [] = (Inr (O_Insert (I_Encoded bs)), bs)"
      using ty True by (cases v) (auto simp: to_outcome_def value_type_def encoded_types_def Let_def stored_def)
    moreover have "read_column d key (Some (CBlob bs)) = stored v"
      using bs ty True
      by (cases v) (auto simp: read_column_def value_type_def encoded_types_def stored_def value_norm_def
          sid_is_zero_def)
    ultimately show thesis by (intro insert [of "I_Encoded bs" bs]) simp_all
  next
    case False
    show thesis
    proof (cases "stored v = VEmpty")
      case True
      with ty False show thesis
        by (intro remove)
          (cases v; auto simp: to_outcome_def value_type_def stored_def value_norm_def Let_def
            encoded_types_def split: if_splits)+
    next
      case nonempty: False
      then have plain: "ty \<notin> set encoded_types" using False by blast
      define ins where "ins =
        (case v of VString s \<Rightarrow> I_String s | VFloat f \<Rightarrow> I_Float f | VInteger i \<Rightarrow> I_Integer i
         | VBoolean b \<Rightarrow> I_Boolean b | VBytes b \<Rightarrow> I_Bytes b | VId i \<Rightarrow> I_Id i
         | VPeerId p \<Rightarrow> I_PeerId p | _ \<Rightarrow> I_Bytes [])"
      have "to_outcome d key v [] = (Inr (O_Insert ins), [])"
        using ty nonempty plain
        by (cases v) (auto simp: ins_def to_outcome_def value_type_def stored_def value_norm_def
            Let_def encoded_types_def split: if_splits)
      moreover have "bind_insert ins \<noteq> CNull"
        using ty plain assms(2)
        by (cases v) (auto simp: ins_def value_type_def encoded_types_def storable_def)
      moreover have "read_column d key (Some (bind_insert ins)) = stored v"
        using ty nonempty plain assms(2)
        by (cases v) (auto simp: ins_def value_type_def stored_def value_norm_def encoded_types_def
            storable_def read_column_def value_from_id_def split: if_splits)
      ultimately show thesis by (rule insert)
    qed
  qed
qed

definition db_ok :: "Database \<Rightarrow> bool" where
  "db_ok db \<longleftrightarrow> hm_wf (db_props db) \<and> db_scratch db = [] \<and> db_faults db = []"

definition entry_ok :: "Id \<times> Key \<times> Value \<Rightarrow> bool" where
  "entry_ok = (\<lambda>(i, key, v). storable key v)"

definition last_written :: "(Id \<times> Key \<times> Value) list \<Rightarrow> Id \<times> Key \<Rightarrow> Value option" where
  "last_written values ik = map_of (rev (map (\<lambda>(i, key, v). ((i, key), v)) values)) ik"

lemma set_property_reads:
  assumes "descriptive_ok d" "storable key v" "db_ok db"
  obtains db' where "db_set_property d i key v db = (None, db')" "db_ok db'"
    "\<And>ik. db_read d db' ik = (if ik = (i, key) then stored v else db_read d db ik)"
  using assms(1, 2)
proof (cases rule: to_outcome_reads)
  case remove
  have db: "hm_wf (db_props db)" "db_scratch db = []" "db_faults db = []"
    using assms(3) by (simp_all add: db_ok_def)
  let ?db = "db\<lparr>db_props := hm_remove (i, key) (db_props db)\<rparr>"
  have "db_set_property d i key v db = (None, ?db)" "db_ok ?db"
    using remove db by (simp_all add: db_set_property_def db_exec_def db_ok_def)
  moreover have "db_read d ?db ik = (if ik = (i, key) then stored v else db_read d db ik)" for ik
    using db(1) remove(2) by (cases ik) (simp add: db_read_column hm_get_remove read_column_def)
  ultimately show thesis by (rule that)
next
  case (insert ins bs)
  have db: "hm_wf (db_props db)" "db_scratch db = []" "db_faults db = []"
    using assms(3) by (simp_all add: db_ok_def)
  let ?db = "db\<lparr>db_props := hm_insert (i, key) (bind_insert ins) (db_props db), db_scratch := []\<rparr>"
  have "db_set_property d i key v db = (None, ?db)" "db_ok ?db"
    using insert(1, 2) db by (simp_all add: db_set_property_def db_exec_def db_ok_def)
  moreover have "db_read d ?db ik = (if ik = (i, key) then stored v else db_read d db ik)" for ik
    using db(1) insert(3) by (cases ik) (simp add: db_read_column hm_get_insert)
  ultimately show thesis by (rule that)
qed

lemma set_properties_reads:
  assumes "descriptive_ok d" "list_all entry_ok kvs" "db_ok db"
  shows "\<exists>db'. db_ok db' \<and>
    (\<forall>rest. db_set_properties d (kvs @ rest) db = db_set_properties d rest db') \<and>
    (\<forall>ik. db_read d db' ik =
       (case last_written kvs ik of Some v \<Rightarrow> stored v | None \<Rightarrow> db_read d db ik))"
  using assms(2, 3)
proof (induction kvs arbitrary: db)
  case Nil
  then show ?case by (auto simp: last_written_def)
next
  case (Cons x kvs)
  obtain i key v where x: "x = (i, key, v)" by (metis surj_pair)
  with Cons.prems obtain db1 where db1: "db_set_property d i key v db = (None, db1)" "db_ok db1"
    "\<And>ik. db_read d db1 ik = (if ik = (i, key) then stored v else db_read d db ik)"
    using set_property_reads [OF assms(1), of key v db i] by (auto simp: entry_ok_def)
  have "list_all entry_ok kvs" using Cons.prems(1) by simp
  from Cons.IH [OF this db1(2)] obtain db' where db': "db_ok db'"
    "\<forall>rest. db_set_properties d (kvs @ rest) db1 = db_set_properties d rest db'"
    "\<forall>ik. db_read d db' ik = (case last_written kvs ik of Some v \<Rightarrow> stored v | None \<Rightarrow> db_read d db1 ik)"
    by blast
  have "last_written (x # kvs) ik =
      (case last_written kvs ik of Some w \<Rightarrow> Some w | None \<Rightarrow> if ik = (i, key) then Some v else None)" for ik
    by (simp add: last_written_def x map_add_def split: option.split)
  with db' db1 show ?case by (intro exI [of _ db']) (auto simp: x split: option.split)
qed

text \<open>
  C29. Saving a batch of properties: when every value fits its key, all of them are saved and
  loading gives, for every entry, the last value given for it (an empty value, and a room
  identifier without an object, read as unset) and the previous value for all others.
\<close>

theorem saved_is_loaded:
  assumes "descriptive_ok d" "list_all entry_ok kvs" "db_ok db"
  shows "case db_set_properties d kvs db of (e, db') \<Rightarrow>
    e = None \<and> db_ok db' \<and>
    db_read d db' ik = (case last_written kvs ik of Some v \<Rightarrow> stored v | None \<Rightarrow> db_read d db ik)"
proof -
  obtain db' where db': "db_ok db'"
    "\<forall>rest. db_set_properties d (kvs @ rest) db = db_set_properties d rest db'"
    "\<forall>ik. db_read d db' ik = (case last_written kvs ik of Some v \<Rightarrow> stored v | None \<Rightarrow> db_read d db ik)"
    using set_properties_reads [OF assms] by blast
  from db'(2) have "db_set_properties d kvs db = (None, db')"
    by (metis append_Nil2 db_set_properties.simps(1))
  with db' show ?thesis by (simp del: split_paired_All)
qed

text \<open>
  A value of the wrong type stops the saving of a batch: the entries before it are saved,
  those after it are not, and the error names the value.
\<close>

theorem mistyped_stops_saving:
  assumes "descriptive_ok d" "list_all entry_ok before" "db_ok db"
    and "key_ty key = Some ty" "v \<noteq> VEmpty" "value_type v \<noteq> Some ty"
  shows "case db_set_properties d (before @ (i, key, v) # after) db of (e, db') \<Rightarrow>
    e = Some (KindMismatch v ty) \<and> db_ok db' \<and>
    db_read d db' ik = (case last_written before ik of Some v \<Rightarrow> stored v | None \<Rightarrow> db_read d db ik)"
proof -
  obtain db' where db': "db_ok db'"
    "\<forall>rest. db_set_properties d (before @ rest) db = db_set_properties d rest db'"
    "\<forall>ik. db_read d db' ik = (case last_written before ik of Some v \<Rightarrow> stored v | None \<Rightarrow> db_read d db ik)"
    using set_properties_reads [OF assms(1-3)] by blast
  have "to_outcome d key v [] = (Inl (KindMismatch v ty), [])"
    using assms(4-6) by (cases v) (auto simp: to_outcome_def value_type_def Let_def)
  with db'(1) have "db_set_property d i key v db' = (Some (KindMismatch v ty), db')"
    by (simp add: db_set_property_def db_ok_def)
  with db' show ?thesis by (simp del: split_paired_All)
qed

text \<open>
  After a failed insertion of an encoded value its encoding stays in the scratch buffer,
  and the next encoded value is stored behind it.
\<close>

theorem failed_insert_corrupts_next:
  assumes "hm_wf (db_props db)" "db_scratch db = []" "db_faults db = [True]"
    and "d_enc d (VColor c) = (bs, True)" "d_enc d (VVec3 x) = (cs, True)"
  shows "case db_set_property d i KEY_COLOR (VColor c) db of (e, db1) \<Rightarrow>
    e = Some ExecFailed \<and>
    (case db_set_property d j KEY_PAN (VVec3 x) db1 of (e', db2) \<Rightarrow>
       e' = None \<and> hm_get (db_props db2) (j, KEY_PAN) = Some (CBlob (bs @ cs)))"
  using assms
  by (simp add: db_set_property_def to_outcome_def key_ty_def key_types_def encode_into_def
      db_exec_def hm_get_insert)

subsection \<open>An encoding\<close>

text \<open>A concrete little-endian encoding, for the witnesses.\<close>

definition f64_to_le :: "f64 \<Rightarrow> bytes" where
  "f64_to_le f = u32_to_le (ucast f) @ u32_to_le (ucast (drop_bit 32 f))"

definition f64_from_le :: "bytes \<Rightarrow> f64" where
  "f64_from_le bs = ucast (u32_from_le (take 4 bs)) OR push_bit 32 (ucast (u32_from_le (drop 4 bs)))"

lemma f64_from_to_le [simp]: "f64_from_le (f64_to_le f) = f"
proof (rule bit_word_eqI)
  fix n
  assume "n < LENGTH(64)"
  then show "bit (f64_from_le (f64_to_le f)) n = bit f n"
    by (cases "n < 32") (auto simp: f64_from_le_def f64_to_le_def bit_simps)
qed

lemma length_f64_to_le [simp]: "length (f64_to_le f) = 8"
  by (simp add: f64_to_le_def)

definition vec3_to_le :: "Vec3 \<Rightarrow> bytes" where
  "vec3_to_le v = u32_to_le (vec_x v) @ u32_to_le (vec_y v) @ u32_to_le (vec_z v)"

definition vec3_from_le :: "bytes \<Rightarrow> Vec3" where
  "vec3_from_le bs =
     \<lparr>vec_x = u32_from_le (take 4 bs), vec_y = u32_from_le (take 4 (drop 4 bs)),
      vec_z = u32_from_le (take 4 (drop 8 bs))\<rparr>"

lemma vec3_from_to_le [simp]: "vec3_from_le (vec3_to_le v) = v" "length (vec3_to_le v) = 12"
  by (simp_all add: vec3_from_le_def vec3_to_le_def)

definition span_to_le :: "Span \<Rightarrow> bytes" where
  "span_to_le s = u32_to_le (span_start s) @ u32_to_le (span_end s)"

definition span_from_le :: "bytes \<Rightarrow> Span" where
  "span_from_le bs =
     \<lparr>span_start = u32_from_le (take 4 bs), span_end = u32_from_le (take 4 (drop 4 bs))\<rparr>"

lemma span_from_to_le [simp]: "span_from_le (span_to_le s) = s" "length (span_to_le s) = 8"
  by (simp_all add: span_from_le_def span_to_le_def)

fun demo_enc :: "Value \<Rightarrow> bytes" where
  "demo_enc (VColor c) = [col_r c, col_g c, col_b c, col_a c]"
| "demo_enc (VVec3 v) = vec3_to_le v"
| "demo_enc (VTransform t) = vec3_to_le (tr_position t) @ vec3_to_le (tr_front t)"
| "demo_enc (VExtent e) = span_to_le (ext_x e) @ span_to_le (ext_z e)"
| "demo_enc (VCanvas2 c) = f64_to_le (cv_x c) @ f64_to_le (cv_y c)"
| "demo_enc (VStableId s) = u32_to_le (id_get (sid_id s)) @ pk_bytes (sid_public_key s)"
| "demo_enc _ = []"

fun demo_dec :: "ValueType \<Rightarrow> bytes \<Rightarrow> Value option" where
  "demo_dec Ty_Color [r, g, b, a] = Some (VColor \<lparr>col_r = r, col_g = g, col_b = b, col_a = a\<rparr>)"
| "demo_dec Ty_Vec3 bs = Some (VVec3 (vec3_from_le bs))"
| "demo_dec Ty_Transform bs =
     Some (VTransform \<lparr>tr_position = vec3_from_le (take 12 bs), tr_front = vec3_from_le (drop 12 bs)\<rparr>)"
| "demo_dec Ty_Extent bs =
     Some (VExtent \<lparr>ext_x = span_from_le (take 8 bs), ext_z = span_from_le (drop 8 bs)\<rparr>)"
| "demo_dec Ty_Canvas2 bs =
     Some (VCanvas2 \<lparr>cv_x = f64_from_le (take 8 bs), cv_y = f64_from_le (drop 8 bs)\<rparr>)"
| "demo_dec Ty_StableId bs =
     Some (VStableId (StableId_new (PublicKey_new (drop 4 bs)) (Id_new (u32_from_le (take 4 bs)))))"
| "demo_dec _ _ = None"

definition demo_descriptive :: Descriptive where
  "demo_descriptive = \<lparr>d_enc = (\<lambda>v. (demo_enc v, True)), d_dec = demo_dec\<rparr>"

lemma demo_descriptive_ok: "descriptive_ok demo_descriptive"
  unfolding descriptive_ok_def
proof (intro allI impI)
  fix v ty
  assume "value_type v = Some ty" "ty \<in> set encoded_types"
  then show "snd (d_enc demo_descriptive v) \<and>
      d_dec demo_descriptive ty (fst (d_enc demo_descriptive v)) = Some v"
    by (cases v) (auto simp: demo_descriptive_def value_type_def encoded_types_def)
qed

definition empty_db :: Database where
  "empty_db = \<lparr>db_scratch = [], db_objects = [], db_props = [], db_images = [], db_faults = []\<rparr>"

lemma empty_db_ok [simp]: "db_ok empty_db"
  by (simp add: db_ok_def empty_db_def)

theorem saved_is_loaded_witness:
  "case db_set_properties demo_descriptive
      [(Id_new 3, KEY_NAME, VString ''a''), (Id_new 3, KEY_HIDDEN, VBoolean True),
       (Id_new 3, KEY_NAME, VString ''b'')] empty_db of (e, db') \<Rightarrow>
    e = None \<and> db_ok db' \<and> db_read demo_descriptive db' (Id_new 3, KEY_NAME) = VString ''b''"
  using saved_is_loaded [OF demo_descriptive_ok _ empty_db_ok, where ik = "(Id_new 3, KEY_NAME)" and
      kvs = "[(Id_new 3, KEY_NAME, VString ''a''), (Id_new 3, KEY_HIDDEN, VBoolean True),
       (Id_new 3, KEY_NAME, VString ''b'')]"]
  by (simp add: entry_ok_def storable_def value_type_def key_ty_def key_types_def last_written_def
      stored_def value_norm_def)

theorem mistyped_stops_saving_witness:
  "case db_set_properties demo_descriptive
      ([(Id_new 3, KEY_NAME, VString ''a'')] @ (Id_new 3, KEY_HIDDEN, VString ''no'') #
       [(Id_new 3, KEY_COLOR, VEmpty)]) empty_db of (e, db') \<Rightarrow>
    e = Some (KindMismatch (VString ''no'') Ty_Boolean) \<and> db_ok db' \<and>
    db_read demo_descriptive db' (Id_new 3, KEY_NAME) = VString ''a''"
  using mistyped_stops_saving [OF demo_descriptive_ok _ empty_db_ok, where ik = "(Id_new 3, KEY_NAME)" and
      before = "[(Id_new 3, KEY_NAME, VString ''a'')]" and i = "Id_new 3" and key = KEY_HIDDEN and
      v = "VString ''no''" and ty = Ty_Boolean and after = "[(Id_new 3, KEY_COLOR, VEmpty)]"]
  by (simp add: entry_ok_def storable_def value_type_def key_ty_def key_types_def last_written_def
      stored_def value_norm_def)

theorem failed_insert_corrupts_next_witness:
  "case db_set_property demo_descriptive (Id_new 1) KEY_COLOR
      (VColor \<lparr>col_r = 1, col_g = 2, col_b = 3, col_a = 4\<rparr>) (empty_db\<lparr>db_faults := [True]\<rparr>) of
    (e, db1) \<Rightarrow> e = Some ExecFailed \<and>
    (case db_set_property demo_descriptive (Id_new 2) KEY_PAN (VVec3 Vec3_ZERO) db1 of (e', db2) \<Rightarrow>
       e' = None \<and> hm_get (db_props db2) (Id_new 2, KEY_PAN) =
         Some (CBlob ([1, 2, 3, 4] @ vec3_to_le Vec3_ZERO)))"
  by (rule failed_insert_corrupts_next) (simp_all add: empty_db_def demo_descriptive_def)

end
