(* ===== verification/Backend.thy ===== *)
theory Backend
  imports Database Ids Sorting
begin

section \<open>The backend: \<^verbatim>\<open>crates/mumbler/src/backend.rs\<close>\<close>

text \<open>
  The state shared by the web interface, the client of the server and the Mumble link, and
  every operation on it. Locks are held for whole operations, so that each operation is one
  state transformer; a \<open>Notify\<close> is its permit, broadcasts are appended to a log. A \<open>HashSet\<close>
  is a list without duplicates. The hash function and the signature scheme of \<open>crypto.rs\<close> are
  the parameter \<open>Crypto\<close>.
\<close>

subsection \<open>Keys: \<open>crypto.rs\<close>\<close>

record Crypto =
  cr_sha512 :: "bytes \<Rightarrow> bytes"
  cr_public :: "bytes \<Rightarrow> bytes"
  cr_sign :: "bytes \<Rightarrow> bytes \<Rightarrow> bytes"
  cr_valid_key :: "bytes \<Rightarrow> bool"
  cr_verify :: "bytes \<Rightarrow> bytes \<Rightarrow> bytes \<Rightarrow> bool"

datatype Keypair = Keypair (kp_seed: bytes)

definition keypair_public_key :: "Crypto \<Rightarrow> Keypair \<Rightarrow> PublicKey" where
  "keypair_public_key cr kp = PublicKey_new (cr_public cr (kp_seed kp))"

definition keypair_sign :: "Crypto \<Rightarrow> Keypair \<Rightarrow> bytes \<Rightarrow> Signature" where
  "keypair_sign cr kp message = Signature_new (cr_sign cr (kp_seed kp) message)"

definition crypto_verify :: "Crypto \<Rightarrow> PublicKey \<Rightarrow> bytes \<Rightarrow> Signature \<Rightarrow> bool" where
  "crypto_verify cr public_key message signature \<longleftrightarrow>
     cr_valid_key cr (pk_bytes public_key) \<and>
     cr_verify cr (pk_bytes public_key) message (signature_bytes signature)"

definition derive_keypair :: "Crypto \<Rightarrow> bytes \<Rightarrow> Keypair" where
  "derive_keypair cr secret = Keypair (take 32 (cr_sha512 cr secret))"

definition str_bytes :: "string \<Rightarrow> bytes" where
  "str_bytes s = map of_char s"

definition random_string :: "string list \<Rightarrow> nat list \<Rightarrow> string" where
  "random_string words indices =
     fold (\<lambda>i s. (if s = [] then s else s @ '' '') @ words ! i) indices []"

subsection \<open>Sets\<close>

definition hs_insert :: "'a \<Rightarrow> 'a list \<Rightarrow> 'a list" where
  "hs_insert x xs = (if x \<in> set xs then xs else xs @ [x])"

definition hs_remove :: "'a \<Rightarrow> 'a list \<Rightarrow> 'a list" where
  "hs_remove x xs = filter (\<lambda>y. y \<noteq> x) xs"

lemma set_hs_insert [simp]: "set (hs_insert x xs) = insert x (set xs)"
  by (auto simp: hs_insert_def)

lemma set_hs_remove [simp]: "set (hs_remove x xs) = set xs - {x}"
  by (auto simp: hs_remove_def)

lemma distinct_hs [simp]:
  "distinct xs \<Longrightarrow> distinct (hs_insert x xs)" "distinct xs \<Longrightarrow> distinct (hs_remove x xs)"
  by (auto simp: hs_insert_def hs_remove_def)

subsection \<open>State\<close>

type_synonym ChannelId = u32

abbreviation CHANNEL_NONE :: ChannelId where "CHANNEL_NONE \<equiv> 0"

datatype UpdateBody = UConfig ChannelId Key Value | UPublicKey PublicKey

datatype NotificationBody = NInfo string string | NError string string

datatype RemoteUpdateBody =
    RRemoteLost
  | RPeerConnected RemotePeer
  | RPeerJoin PeerId "RemoteObject list"
  | RPeerUpdate PeerId Key Value
  | RPeerDisconnect PeerId
  | RPeerLeave PeerId
  | RObjectUpdated ChannelId RemoteId Key Value
  | RObjectCreated ChannelId RemoteId RemoteObject
  | RObjectRemoved ChannelId RemoteId
  | RImageCreated Image
  | RImageRemoved RemoteId

datatype Broadcast =
    BUpdate UpdateBody | BRemoteUpdate RemoteUpdateBody | BNotification NotificationBody

record LocalObject =
  lo_ty :: Type
  lo_id :: Id
  lo_props :: Properties
  lo_changed :: "Key list"

record LocalImage =
  li_id :: Id
  li_content_type :: ContentType
  li_role :: Role
  li_width :: u32
  li_height :: u32
  li_bytes :: bytes

record PeerInfo =
  pi_public_key :: PublicKey
  pi_objects :: "(Id, RemoteObject) hashmap"
  pi_images :: "Id list"
  pi_props :: Properties

record Backend =
  bk_ids :: AtomicIds
  bk_database :: Database
  bk_used_ids :: "u32 list"
  bk_keypair :: Keypair
  bk_peers :: "(PeerId, PeerInfo) hashmap"
  bk_objects :: "(Id, LocalObject) hashmap"
  bk_objects_changed :: "Id list"
  bk_objects_added :: "Id list"
  bk_objects_removed :: "Id list"
  bk_images :: "(Id, LocalImage) hashmap"
  bk_images_added :: "Id list"
  bk_images_removed :: "Id list"
  bk_props :: Properties
  bk_props_changed :: "Key list"
  bk_transform :: "Transform option"
  bk_image_cache :: "(RemoteId, bytes) hashmap"
  bk_mumble_object :: Id
  bk_hidden :: "Id list"
  bk_client_notify :: bool
  bk_client_restart :: bool
  bk_mumblelink_notify :: bool
  bk_mumblelink_restart :: bool
  bk_broadcasts :: "Broadcast list"

datatype BackendError = DbFailed DbError | IdsExhausted | ObjectNotFound

definition to_stable_id :: "PeerId \<Rightarrow> Id \<Rightarrow> Backend \<Rightarrow> StableId" where
  "to_stable_id p i b =
     (case hm_get (bk_peers b) p of
        None \<Rightarrow> StableId_ZERO
      | Some peer \<Rightarrow> StableId_new (pi_public_key peer) i)"

definition cache_store :: "RemoteId \<Rightarrow> bytes \<Rightarrow> Backend \<Rightarrow> Backend" where
  "cache_store r bytes b = b\<lparr>bk_image_cache := hm_insert r bytes (bk_image_cache b)\<rparr>"

definition cache_remove :: "RemoteId \<Rightarrow> Backend \<Rightarrow> Backend" where
  "cache_remove r b = b\<lparr>bk_image_cache := hm_remove r (bk_image_cache b)\<rparr>"

definition cache_get :: "RemoteId \<Rightarrow> Backend \<Rightarrow> bytes option" where
  "cache_get r b = hm_get (bk_image_cache b) r"

definition is_hidden :: "Id \<Rightarrow> Backend \<Rightarrow> bool" where
  "is_hidden i b \<longleftrightarrow> i \<in> set (bk_hidden b)"

definition set_hidden :: "Id \<Rightarrow> bool \<Rightarrow> Backend \<Rightarrow> Backend" where
  "set_hidden i hidden b =
     b\<lparr>bk_hidden := if hidden then hs_insert i (bk_hidden b) else hs_remove i (bk_hidden b)\<rparr>"

definition store_mumble_object :: "Id \<Rightarrow> Backend \<Rightarrow> Backend" where
  "store_mumble_object i b = b\<lparr>bk_mumble_object := i\<rparr>"

definition broadcast :: "Broadcast \<Rightarrow> Backend \<Rightarrow> Backend" where
  "broadcast e b = b\<lparr>bk_broadcasts := bk_broadcasts b @ [e]\<rparr>"

definition notify_info :: "string \<Rightarrow> string \<Rightarrow> Backend \<Rightarrow> Backend" where
  "notify_info component message b = broadcast (BNotification (NInfo component message)) b"

definition notify_error :: "string \<Rightarrow> string \<Rightarrow> Backend \<Rightarrow> Backend" where
  "notify_error component message b = broadcast (BNotification (NError component message)) b"

definition notify_client :: "Backend \<Rightarrow> Backend" where
  "notify_client b = b\<lparr>bk_client_notify := True\<rparr>"

definition set_mumblelink_transform :: "Transform option \<Rightarrow> Backend \<Rightarrow> Backend" where
  "set_mumblelink_transform t b = b\<lparr>bk_transform := t, bk_mumblelink_notify := True\<rparr>"

definition restart_mumblelink :: "Backend \<Rightarrow> Backend" where
  "restart_mumblelink b = b\<lparr>bk_mumblelink_restart := True\<rparr>"

definition restart_client :: "Backend \<Rightarrow> Backend" where
  "restart_client b = b\<lparr>bk_client_restart := True\<rparr>"

subsection \<open>Fresh identifiers\<close>

function new_id_loop :: "u32 list \<Rightarrow> AtomicIds \<Rightarrow> u32 option \<times> AtomicIds" where
  "new_id_loop used ids =
     (case aids_next ids of
        (None, ids) \<Rightarrow> (None, ids)
      | (Some i, ids) \<Rightarrow> if i \<in> set used then new_id_loop used ids else (Some i, ids))"
  by pat_completeness auto

definition counts_left :: "AtomicIds \<Rightarrow> nat" where
  "counts_left ids = (if aids_last ids = 0 then 0 else 2 ^ 32 - unat (aids_last ids))"

lemma aids_next_counts: "aids_next ids = (Some i, ids') \<Longrightarrow> counts_left ids' < counts_left ids"
proof -
  assume step: "aids_next ids = (Some i, ids')"
  then have l: "aids_last ids \<noteq> 0" "aids_last ids' = aids_last ids + 1"
    by (auto simp: aids_next_def Let_def non_zero_def split: if_splits)
  have lt: "unat (aids_last ids) < 2 ^ 32" using unsigned_less [of "aids_last ids", where 'a = nat] by simp
  show ?thesis
  proof (cases "aids_last ids + 1 = 0")
    case True
    with l lt show ?thesis by (simp add: counts_left_def)
  next
    case False
    then have "unat (aids_last ids + 1) = Suc (unat (aids_last ids))" by (rule unat_plus_one)
    with l lt False show ?thesis by (simp add: counts_left_def)
  qed
qed

termination new_id_loop
  by (relation "measure (\<lambda>(used, ids). counts_left ids)") (auto dest: aids_next_counts [OF sym])

declare new_id_loop.simps [simp del]

definition new_id :: "Backend \<Rightarrow> Id option \<times> Backend" where
  "new_id b =
     (case new_id_loop (bk_used_ids b) (bk_ids b) of
        (None, ids) \<Rightarrow> (None, b\<lparr>bk_ids := ids\<rparr>)
      | (Some i, ids) \<Rightarrow>
          (Some (Id_new i), b\<lparr>bk_ids := ids, bk_used_ids := hs_insert i (bk_used_ids b)\<rparr>))"

subsection \<open>Updates\<close>

fun object_update_link :: "Id \<Rightarrow> (Key \<times> Value) list \<Rightarrow> Backend \<Rightarrow> Backend" where
  "object_update_link i [] b = b"
| "object_update_link i ((key, v) # kvs) b =
     object_update_link i kvs
       (if key = KEY_TRANSFORM then
          (case as_transform v of
             None \<Rightarrow> b
           | Some t \<Rightarrow>
               if bk_mumble_object b \<noteq> i then b
               else set_mumblelink_transform (if is_hidden i b then None else Some t) b)
        else if key = KEY_HIDDEN then
          (let hidden = as_bool v;
               b = set_hidden i hidden b
           in if bk_mumble_object b \<noteq> i then b
              else case hm_get (bk_objects b) i of
                None \<Rightarrow> b
              | Some object \<Rightarrow>
                  set_mumblelink_transform
                    (if hidden then None else as_transform (props_get (lo_props object) KEY_TRANSFORM)) b)
        else b)"

fun set_object_props :: "(Key \<times> Value) list \<Rightarrow> LocalObject \<Rightarrow> LocalObject" where
  "set_object_props [] object = object"
| "set_object_props ((key, v) # kvs) object =
     set_object_props kvs
       (object\<lparr>lo_props := props_put key v (lo_props object),
               lo_changed := hs_insert key (lo_changed object)\<rparr>)"

definition object_update :: "Id \<Rightarrow> (Key \<times> Value) list \<Rightarrow> Backend \<Rightarrow> Backend" where
  "object_update i kvs b =
     (let b = object_update_link i kvs b
      in case hm_get (bk_objects b) i of
           None \<Rightarrow> b
         | Some object \<Rightarrow>
             let b = b\<lparr>bk_objects := hm_insert i (set_object_props kvs object) (bk_objects b)\<rparr>
             in if kvs = [] then b
                else notify_client (b\<lparr>bk_objects_changed := hs_insert i (bk_objects_changed b)\<rparr>))"

text \<open>What the loop of \<open>updates\<close> collects beside the state.\<close>

record UpdatesFlags =
  uf_mumblelink :: bool
  uf_client :: bool
  uf_public_key :: "PublicKey option"

definition updates_transform :: "Id \<Rightarrow> Backend \<Rightarrow> Transform option" where
  "updates_transform mumble_object b =
     (if id_is_zero mumble_object then None
      else case hm_get (bk_objects b) mumble_object of
        None \<Rightarrow> None
      | Some object \<Rightarrow>
          if as_bool (props_get (lo_props object) KEY_HIDDEN) then None
          else as_transform (props_get (lo_props object) KEY_TRANSFORM))"

definition update_prop :: "Key \<Rightarrow> Value \<Rightarrow> Backend \<Rightarrow> Backend" where
  "update_prop key v b =
     (let b = b\<lparr>bk_props := props_put key v (bk_props b)\<rparr>
      in if key_is_remote key
         then notify_client (b\<lparr>bk_props_changed := hs_insert key (bk_props_changed b)\<rparr>) else b)"

fun updates_loop ::
    "Crypto \<Rightarrow> (Key \<times> Value) list \<Rightarrow> UpdatesFlags \<Rightarrow> Backend \<Rightarrow> UpdatesFlags \<times> Backend" where
  "updates_loop cr [] fl b = (fl, b)"
| "updates_loop cr ((key, v) # kvs) fl b =
     (if key = KEY_MUMBLE_ENABLED then
        updates_loop cr kvs (fl\<lparr>uf_mumblelink := True\<rparr>) (update_prop key v b)
      else if key = KEY_REMOTE_ENABLED \<or> key = KEY_REMOTE_SERVER \<or> key = KEY_REMOTE_TLS then
        updates_loop cr kvs (fl\<lparr>uf_client := True\<rparr>) (update_prop key v b)
      else if key = KEY_MUMBLE_OBJECT then
        (let b = store_mumble_object (as_id v) b;
             b = set_mumblelink_transform (updates_transform (as_id v) b) b
         in updates_loop cr kvs fl (update_prop key v b))
      else if key = KEY_PEER_SECRET then
        (if as_str v = [] then updates_loop cr kvs fl b
         else
           let keypair = derive_keypair cr (str_bytes (as_str v));
               b = b\<lparr>bk_keypair := keypair\<rparr>
           in updates_loop cr kvs
                (fl\<lparr>uf_client := True, uf_public_key := Some (keypair_public_key cr keypair)\<rparr>)
                (update_prop key v b))
      else updates_loop cr kvs fl (update_prop key v b))"

definition updates :: "Crypto \<Rightarrow> ChannelId \<Rightarrow> (Key \<times> Value) list \<Rightarrow> Backend \<Rightarrow> Backend" where
  "updates cr channel kvs b =
     (case updates_loop cr kvs
             \<lparr>uf_mumblelink = False, uf_client = False, uf_public_key = None\<rparr> b of
        (fl, b) \<Rightarrow>
          let b = fold (\<lambda>(key, v). broadcast (BUpdate (UConfig channel key v))) kvs b;
              b = (case uf_public_key fl of
                     None \<Rightarrow> b | Some k \<Rightarrow> broadcast (BUpdate (UPublicKey k)) b);
              b = (if uf_mumblelink fl then restart_mumblelink b else b)
          in if uf_client fl then restart_client b else b)"

subsection \<open>Objects\<close>

definition with_db ::
    "(Database \<Rightarrow> DbError option \<times> Database) \<Rightarrow> Backend \<Rightarrow> BackendError option \<times> Backend" where
  "with_db f b =
     (case f (bk_database b) of
        (e, db) \<Rightarrow> (map_option DbFailed e, b\<lparr>bk_database := db\<rparr>))"

definition last_sort :: "(Id, LocalObject) hashmap \<Rightarrow> bytes option" where
  "last_sort objects =
     (case map (\<lambda>ob. as_bytes (props_get (lo_props ob) KEY_SORT)) (hm_values objects) of
        [] \<Rightarrow> None
      | x # xs \<Rightarrow> Some (fold max xs x))"

fun save_props ::
    "Descriptive \<Rightarrow> Id \<Rightarrow> (Key \<times> Value) list \<Rightarrow> Backend \<Rightarrow> BackendError option \<times> Backend" where
  "save_props d i [] b = (None, b)"
| "save_props d i ((key, v) # kvs) b =
     (case with_db (db_set_property d i key v) b of
        (Some e, b) \<Rightarrow> (Some e, b)
      | (None, b) \<Rightarrow> save_props d i kvs b)"

definition create_object ::
    "Descriptive \<Rightarrow> Type \<Rightarrow> Properties \<Rightarrow> Backend \<Rightarrow> (BackendError + RemoteObject) \<times> Backend" where
  "create_object d ty props b =
     (case new_id b of
        (None, b) \<Rightarrow> (Inl IdsExhausted, b)
      | (Some i, b) \<Rightarrow>
          (case with_db (db_insert_object i ty) b of
             (Some e, b) \<Rightarrow> (Inl e, b)
           | (None, b) \<Rightarrow>
               let props =
                     (if is_global ty then props
                      else props_put KEY_SORT (VBytes
                        (case last_sort (bk_objects b) of
                           Some s \<Rightarrow> after s | None \<Rightarrow> id_to_vec i)) props);
                   object = \<lparr>lo_ty = ty, lo_id = i, lo_props = props, lo_changed = []\<rparr>;
                   b = b\<lparr>bk_objects := hm_insert i object (bk_objects b),
                         bk_objects_added := hs_insert i (bk_objects_added b)\<rparr>
               in case save_props d i props b of
                    (Some e, b) \<Rightarrow> (Inl e, b)
                  | (None, b) \<Rightarrow>
                      (Inr \<lparr>ro_ty = ty, ro_id = i, ro_props = props\<rparr>, notify_client b)))"

definition remove_object :: "Crypto \<Rightarrow> Id \<Rightarrow> Backend \<Rightarrow> BackendError option \<times> Backend" where
  "remove_object cr i b =
     (let b = (if bk_mumble_object b = i
               then set_mumblelink_transform None (store_mumble_object Id_ZERO b) else b)
      in case with_db (db_remove_object i) b of
           (Some e, b) \<Rightarrow> (Some e, b)
         | (None, b) \<Rightarrow>
             let is_room = as_stable_id (props_get (bk_props b) KEY_ROOM) =
                   StableId_new (keypair_public_key cr (bk_keypair b)) i
             in case (if is_room then with_db (db_remove_property Id_ZERO KEY_ROOM) b else (None, b)) of
                  (Some e, b) \<Rightarrow> (Some e, b)
                | (None, b) \<Rightarrow>
                    let b = (if is_room
                             then b\<lparr>bk_props := snd (props_remove KEY_ROOM (bk_props b)),
                                    bk_props_changed := hs_insert KEY_ROOM (bk_props_changed b)\<rparr>
                             else b)
                    in (None, notify_client
                         (b\<lparr>bk_objects := hm_remove i (bk_objects b),
                            bk_objects_changed := hs_remove i (bk_objects_changed b),
                            bk_objects_added := hs_remove i (bk_objects_added b),
                            bk_objects_removed := hs_insert i (bk_objects_removed b)\<rparr>)))"

subsection \<open>Images\<close>

definition insert_image ::
    "ContentType \<Rightarrow> Role \<Rightarrow> u32 \<Rightarrow> u32 \<Rightarrow> bytes \<Rightarrow> Backend \<Rightarrow> (BackendError + Id) \<times> Backend" where
  "insert_image content_type role width height bytes b =
     (case new_id b of
        (None, b) \<Rightarrow> (Inl IdsExhausted, b)
      | (Some i, b) \<Rightarrow>
          (case with_db (db_save_image i content_type role width height bytes) b of
             (Some e, b) \<Rightarrow> (Inl e, b)
           | (None, b) \<Rightarrow>
               let img = \<lparr>li_id = i, li_content_type = content_type, li_role = role,
                          li_width = width, li_height = height, li_bytes = bytes\<rparr>;
                   b = notify_client (b\<lparr>bk_images := hm_insert i img (bk_images b),
                         bk_images_added := hs_insert i (bk_images_added b)\<rparr>)
               in (Inr i, cache_store (rid_local i) bytes b)))"

text \<open>Clearing the references of one object to a removed image, then of all objects.\<close>

fun clear_image_keys ::
    "Id \<Rightarrow> Id \<Rightarrow> Key list \<Rightarrow> bool \<Rightarrow> Backend \<Rightarrow> (BackendError + bool) \<times> Backend" where
  "clear_image_keys img i [] any b = (Inr any, b)"
| "clear_image_keys img i (key # ks) any b =
     (case hm_get (bk_objects b) i of
        None \<Rightarrow> (Inr any, b)
      | Some object \<Rightarrow>
          if as_id (props_get (lo_props object) key) \<noteq> img then clear_image_keys img i ks any b
          else
            let object = object\<lparr>lo_props := snd (props_remove key (lo_props object)),
                                lo_changed := hs_insert key (lo_changed object)\<rparr>;
                b = b\<lparr>bk_objects := hm_insert i object (bk_objects b),
                      bk_objects_changed := hs_insert (lo_id object) (bk_objects_changed b)\<rparr>
            in case with_db (db_remove_property (lo_id object) key) b of
                 (Some e, b) \<Rightarrow> (Inl e, b)
               | (None, b) \<Rightarrow>
                   clear_image_keys img i ks True
                     (broadcast (BRemoteUpdate
                       (RObjectUpdated CHANNEL_NONE (rid_local (lo_id object)) key VEmpty)) b))"

fun clear_image_refs :: "Id \<Rightarrow> Id list \<Rightarrow> bool \<Rightarrow> Backend \<Rightarrow> (BackendError + bool) \<times> Backend" where
  "clear_image_refs img [] any b = (Inr any, b)"
| "clear_image_refs img (i # is) any b =
     (case clear_image_keys img i [KEY_IMAGE_ID, KEY_ROOM_BACKGROUND] any b of
        (Inl e, b) \<Rightarrow> (Inl e, b)
      | (Inr any, b) \<Rightarrow> clear_image_refs img is any b)"

definition remove_image :: "Id \<Rightarrow> Backend \<Rightarrow> BackendError option \<times> Backend" where
  "remove_image i b =
     (case with_db (db_remove_image i) b of
        (Some e, b) \<Rightarrow> (Some e, b)
      | (None, b) \<Rightarrow>
          let b = notify_client (b\<lparr>bk_images := hm_remove i (bk_images b),
                bk_images_added := hs_remove i (bk_images_added b),
                bk_images_removed := hs_insert i (bk_images_removed b)\<rparr>)
          in case clear_image_refs i (hm_keys (bk_objects b)) False b of
               (Inl e, b) \<Rightarrow> (Some e, b)
             | (Inr any, b) \<Rightarrow> (None, if any then notify_client b else b))"

subsection \<open>Loading\<close>

text \<open>
  \<open>Backend::new\<close>: the state made of a database. \<open>secret\<close> is the random secret that is stored
  when there is none, \<open>seed\<close> that of the identifiers. Queries are taken to succeed.
\<close>

definition load_object :: "Descriptive \<Rightarrow> Database \<Rightarrow> Id \<Rightarrow> Type \<Rightarrow> LocalObject" where
  "load_object d db i ty =
     (let props = props_from_iter (db_properties d i db)
      in \<lparr>lo_ty = ty, lo_id = i,
          lo_props = (if props_contains props KEY_SORT then props
                      else props_put KEY_SORT (VBytes (id_to_vec i)) props),
          lo_changed = []\<rparr>)"

definition load_hidden :: "Descriptive \<Rightarrow> Database \<Rightarrow> Id \<Rightarrow> Id list \<Rightarrow> Id list" where
  "load_hidden d db i hidden =
     (if list_ex (\<lambda>(key, v). key = KEY_HIDDEN \<and> as_bool v) (db_properties d i db)
      then hs_insert i hidden else hidden)"

definition use_id :: "Id \<Rightarrow> u32 list \<Rightarrow> u32 list" where
  "use_id i used = (case non_zero (id_get i) of None \<Rightarrow> used | Some n \<Rightarrow> hs_insert n used)"

definition load_image :: "ImageRow \<Rightarrow> LocalImage" where
  "load_image row =
     \<lparr>li_id = ir_id row, li_content_type = ir_content_type row, li_role = ir_role row,
      li_width = ir_width row, li_height = ir_height row, li_bytes = ir_bytes row\<rparr>"

definition backend_new ::
    "Crypto \<Rightarrow> Descriptive \<Rightarrow> string \<Rightarrow> u32 \<Rightarrow> Database \<Rightarrow> BackendError + Backend" where
  "backend_new cr d secret seed db =
     (let rows = db_objects db;
          objects = fold (\<lambda>(i, ty). hm_insert i (load_object d db i ty)) rows [];
          hidden = fold (\<lambda>(i, ty). load_hidden d db i) rows [];
          used = fold (\<lambda>(i, ty). use_id i) rows [];
          props = props_from_iter (db_properties d Id_ZERO db);
          stored = as_str (props_get props KEY_PEER_SECRET);
          (e, db) = (if stored = [] then db_set_property d Id_ZERO KEY_PEER_SECRET (VString secret) db
                     else (None, db))
      in case e of
           Some e \<Rightarrow> Inl (DbFailed e)
         | None \<Rightarrow>
             let props = (if stored = [] then props_put KEY_PEER_SECRET (VString secret) props
                          else props);
                 images = db_images_with_data db
             in Inr
              \<lparr>bk_ids = aids_new seed, bk_database = db,
               bk_used_ids = fold (\<lambda>row. use_id (ir_id row)) images used,
               bk_keypair = derive_keypair cr (str_bytes (if stored = [] then secret else stored)),
               bk_peers = [], bk_objects = objects, bk_objects_changed = [], bk_objects_added = [],
               bk_objects_removed = [],
               bk_images = fold (\<lambda>row. hm_insert (ir_id row) (load_image row)) images [],
               bk_images_added = [], bk_images_removed = [], bk_props = props,
               bk_props_changed = [], bk_transform = None,
               bk_image_cache =
                 fold (\<lambda>row. hm_insert (rid_local (ir_id row)) (ir_bytes row)) images [],
               bk_mumble_object = as_id (props_get props KEY_MUMBLE_OBJECT),
               bk_hidden = hidden, bk_client_notify = False, bk_client_restart = False,
               bk_mumblelink_notify = False, bk_mumblelink_restart = False, bk_broadcasts = []\<rparr>)"

text \<open>A concrete backend, made of the empty database, for the witnesses.\<close>

definition demo_crypto :: Crypto where
  "demo_crypto = \<lparr>cr_sha512 = (\<lambda>s. take 64 (s @ replicate 64 5)),
     cr_public = (\<lambda>seed. take 32 (seed @ replicate 32 0)),
     cr_sign = (\<lambda>seed m. take 64 (take 32 (seed @ replicate 32 0) @ m @ replicate 64 0)),
     cr_valid_key = (\<lambda>k. length k = 32),
     cr_verify = (\<lambda>k m s. s = take 64 (k @ m @ replicate 64 0))\<rparr>"

definition demo_backend :: Backend where
  "demo_backend = projr (backend_new demo_crypto demo_descriptive ''words'' 7 empty_db)"

lemma demo_backend_new:
  "backend_new demo_crypto demo_descriptive ''words'' 7 empty_db = Inr demo_backend"
  by (simp add: demo_backend_def backend_new_def db_set_property_def to_outcome_def key_ty_def
      key_types_def db_exec_def empty_db_def db_properties_def List.map_filter_def
      props_from_iter_def Let_def)

lemma demo_backend_fields [simp]:
  "bk_peers demo_backend = []" "bk_objects demo_backend = []" "bk_images demo_backend = []"
  "bk_used_ids demo_backend = []" "bk_ids demo_backend = aids_new 7"
  "bk_keypair demo_backend = derive_keypair demo_crypto (str_bytes ''words'')"
  "bk_props demo_backend = [(KEY_PEER_SECRET, VString ''words'')]"
  by (simp_all add: demo_backend_def backend_new_def db_set_property_def to_outcome_def key_ty_def
      key_types_def db_exec_def empty_db_def db_properties_def db_images_with_data_def
      List.map_filter_def props_from_iter_def hm_values_def Let_def props_put_eq props_new_def
      hm_insert_def props_get_def)

end
