(* ===== verification/RemoteClient.thy ===== *)
theory RemoteClient
  imports Backend Wire
begin

section \<open>The client of the server: \<^verbatim>\<open>crates/mumbler/src/client.rs\<close>\<close>

text \<open>
  The connection of a backend to the server: the messages it handles, which keep the table of
  peers up to date, and the flush of pending local changes. A session is the connection
  with its timers. What \<open>authenticated\<close> guards and what a failing send does to the sets being
  drained is as in the code: the set is empty afterwards.
\<close>

record Session =
  cs_peer :: Peer
  cs_last_ping :: "u64 option"
  cs_ping_timeout :: nat
  cs_pong_timeout :: nat
  cs_authenticated :: bool

datatype ClientError =
    CReadFailed ReadError
  | CDecodeFailed Kind
  | CSendFailed
  | CBackend BackendError
  | PongTimeout
  | COutOfFuel

subsection \<open>Handling messages\<close>

definition local_object_wire :: "LocalObject \<Rightarrow> RemoteObject" where
  "local_object_wire ob = \<lparr>ro_ty = lo_ty ob, ro_id = lo_id ob, ro_props = lo_props ob\<rparr>"

definition local_image_wire :: "LocalImage \<Rightarrow> RemoteImage" where
  "local_image_wire img =
     \<lparr>ri_id = li_id img, ri_content_type = li_content_type img, ri_role = li_role img,
      ri_width = li_width img, ri_height = li_height img, ri_bytes = li_bytes img\<rparr>"

definition connect_props :: "Backend \<Rightarrow> Properties" where
  "connect_props b = props_from_iter (filter (\<lambda>(key, v). key_is_remote key) (bk_props b))"

definition on_challenge ::
    "Crypto \<Rightarrow> Codec \<Rightarrow> ChallengeBody \<Rightarrow> Session \<Rightarrow> Backend \<Rightarrow> ClientError option \<times> Session" where
  "on_challenge cr c body s b =
     (case peer_connect c (keypair_public_key cr (bk_keypair b))
             (keypair_sign cr (bk_keypair b) (chb_nonce body))
             (map local_object_wire (hm_values (bk_objects b)))
             (map local_image_wire (hm_values (bk_images b))) (connect_props b) (cs_peer s) of
        (False, p) \<Rightarrow> (Some CSendFailed, s\<lparr>cs_peer := p\<rparr>)
      | (True, p) \<Rightarrow> (None, s\<lparr>cs_peer := p, cs_authenticated := True\<rparr>))"

definition on_pong :: "nat \<Rightarrow> PongBody \<Rightarrow> Session \<Rightarrow> Session" where
  "on_pong now body s =
     (if Some (pob_payload body) = cs_last_ping s
      then s\<lparr>cs_last_ping := None, cs_ping_timeout := now + 1000\<rparr> else s)"

definition set_peer :: "PeerId \<Rightarrow> PeerInfo \<Rightarrow> Backend \<Rightarrow> Backend" where
  "set_peer i peer b = b\<lparr>bk_peers := hm_insert i peer (bk_peers b)\<rparr>"

definition on_peer_connected :: "PeerConnectedBody \<Rightarrow> Backend \<Rightarrow> Backend" where
  "on_peer_connected body b =
     broadcast (BRemoteUpdate (RPeerConnected
         \<lparr>rp_id = pcb_peer_id body, rp_public_key = pcb_public_key body, rp_props = pcb_props body\<rparr>))
       (set_peer (pcb_peer_id body)
         \<lparr>pi_public_key = pcb_public_key body, pi_objects = [], pi_images = [],
          pi_props = pcb_props body\<rparr> b)"

fun insert_objects ::
    "RemoteObject list \<Rightarrow> (Id, RemoteObject) hashmap \<Rightarrow> (Id, RemoteObject) hashmap" where
  "insert_objects [] objects = objects"
| "insert_objects (ob # obs) objects = insert_objects obs (hm_insert (ro_id ob) ob objects)"

definition on_peer_join :: "PeerJoinBody \<Rightarrow> Backend \<Rightarrow> Backend" where
  "on_peer_join body b =
     (case hm_get (bk_peers b) (pjb_peer_id body) of
        None \<Rightarrow> b
      | Some peer \<Rightarrow>
          let peer = peer\<lparr>pi_objects := insert_objects (pjb_objects body) (pi_objects peer)\<rparr>
          in broadcast (BRemoteUpdate (RPeerJoin (pjb_peer_id body) (hm_values (pi_objects peer))))
               (set_peer (pjb_peer_id body) peer b))"

definition on_peer_disconnect :: "PeerDisconnectBody \<Rightarrow> Backend \<Rightarrow> Backend" where
  "on_peer_disconnect body b =
     broadcast (BRemoteUpdate (RPeerDisconnect (pdb_id body)))
       (b\<lparr>bk_peers := hm_remove (pdb_id body) (bk_peers b)\<rparr>)"

definition on_peer_leave :: "PeerLeaveBody \<Rightarrow> Backend \<Rightarrow> Backend" where
  "on_peer_leave body b =
     (case hm_get (bk_peers b) (plb_id body) of
        None \<Rightarrow> b
      | Some peer \<Rightarrow>
          broadcast (BRemoteUpdate (RPeerLeave (plb_id body)))
            (set_peer (plb_id body)
              (peer\<lparr>pi_images := [],
                    pi_objects := hm_retain (\<lambda>_ ob. is_global (ro_ty ob)) (pi_objects peer)\<rparr>) b))"

definition on_peer_updated :: "PeerUpdatedBody \<Rightarrow> Backend \<Rightarrow> Backend" where
  "on_peer_updated body b =
     (case hm_get (bk_peers b) (pudb_peer_id body) of
        None \<Rightarrow> b
      | Some peer \<Rightarrow>
          broadcast (BRemoteUpdate
              (RPeerUpdate (pudb_peer_id body) (pudb_key body) (pudb_value body)))
            (set_peer (pudb_peer_id body)
              (peer\<lparr>pi_props := props_put (pudb_key body) (pudb_value body) (pi_props peer)\<rparr>) b))"

definition on_object_updated :: "ObjectUpdatedBody \<Rightarrow> Backend \<Rightarrow> Backend" where
  "on_object_updated body b =
     (case hm_get (bk_peers b) (oudb_peer_id body) of
        None \<Rightarrow> b
      | Some peer \<Rightarrow>
          (case hm_get (pi_objects peer) (oudb_object_id body) of
             None \<Rightarrow> b
           | Some ob \<Rightarrow>
               let ob = ob\<lparr>ro_props := props_put (oudb_key body) (oudb_value body) (ro_props ob)\<rparr>
               in broadcast (BRemoteUpdate (RObjectUpdated CHANNEL_NONE
                      (RemoteId_new (oudb_peer_id body) (oudb_object_id body)) (oudb_key body)
                      (oudb_value body)))
                    (set_peer (oudb_peer_id body)
                      (peer\<lparr>pi_objects := hm_insert (oudb_object_id body) ob (pi_objects peer)\<rparr>) b)))"

definition on_object_created :: "ObjectCreatedBody \<Rightarrow> Backend \<Rightarrow> Backend" where
  "on_object_created body b =
     (case hm_get (bk_peers b) (ocdb_peer_id body) of
        None \<Rightarrow> b
      | Some peer \<Rightarrow>
          broadcast (BRemoteUpdate (RObjectCreated CHANNEL_NONE
              (RemoteId_new (ocdb_peer_id body) (ro_id (ocdb_object body))) (ocdb_object body)))
            (set_peer (ocdb_peer_id body)
              (peer\<lparr>pi_objects := hm_insert (ro_id (ocdb_object body)) (ocdb_object body)
                (pi_objects peer)\<rparr>) b))"

definition on_image_created :: "ImageCreatedBody \<Rightarrow> Backend \<Rightarrow> Backend" where
  "on_image_created body b =
     (case hm_get (bk_peers b) (icdb_peer_id body) of
        None \<Rightarrow> b
      | Some peer \<Rightarrow>
          let img = icdb_image body;
              i = RemoteId_new (icdb_peer_id body) (ri_id img);
              b = set_peer (icdb_peer_id body)
                (peer\<lparr>pi_images := hs_insert (ri_id img) (pi_images peer)\<rparr>) b;
              b = cache_store i (ri_bytes img) b
          in broadcast (BRemoteUpdate (RImageCreated
               \<lparr>img_id = i, img_content_type = ri_content_type img, img_role = ri_role img,
                img_width = ri_width img, img_height = ri_height img\<rparr>)) b)"

definition on_object_removed ::
    "Crypto \<Rightarrow> Descriptive \<Rightarrow> ObjectRemovedBody \<Rightarrow> Backend \<Rightarrow> ClientError option \<times> Backend" where
  "on_object_removed cr d body b =
     (let remove_room = (as_stable_id (props_get (bk_props b) KEY_ROOM) =
            to_stable_id (ordb_peer_id body) (ordb_object_id body) b);
          (removed, b) =
            (case hm_get (bk_peers b) (ordb_peer_id body) of
               None \<Rightarrow> (False, b)
             | Some peer \<Rightarrow>
                 (hm_get (pi_objects peer) (ordb_object_id body) \<noteq> None,
                  set_peer (ordb_peer_id body)
                    (peer\<lparr>pi_objects := hm_remove (ordb_object_id body) (pi_objects peer)\<rparr>) b));
          b = (if removed
               then broadcast (BRemoteUpdate (RObjectRemoved CHANNEL_NONE
                      (RemoteId_new (ordb_peer_id body) (ordb_object_id body)))) b
               else b)
      in if remove_room then
           (case with_db (db_set_property d Id_ZERO KEY_ROOM VEmpty)
                   (updates cr CHANNEL_NONE [(KEY_ROOM, VEmpty)] b) of
              (e, b) \<Rightarrow> (map_option CBackend e, b))
         else (None, b))"

definition on_image_removed :: "ImageRemovedBody \<Rightarrow> Backend \<Rightarrow> Backend" where
  "on_image_removed body b =
     (let i = RemoteId_new (irdb_peer_id body) (irdb_image_id body)
      in broadcast (BRemoteUpdate (RImageRemoved i)) (cache_remove i b))"

definition client_event ::
    "Crypto \<Rightarrow> Descriptive \<Rightarrow> Codec \<Rightarrow> nat \<Rightarrow> Event \<Rightarrow> Session \<Rightarrow> Backend \<Rightarrow>
     ClientError option \<times> Session \<times> Backend" where
  "client_event cr d c now e s b =
     (case e of
        Challenge body \<Rightarrow> (case on_challenge cr c body s b of (err, s) \<Rightarrow> (err, s, b))
      | Pong body \<Rightarrow> (None, on_pong now body s, b)
      | PeerConnected body \<Rightarrow> (None, s, on_peer_connected body b)
      | PeerJoin body \<Rightarrow> (None, s, on_peer_join body b)
      | PeerDisconnect body \<Rightarrow> (None, s, on_peer_disconnect body b)
      | PeerLeave body \<Rightarrow> (None, s, on_peer_leave body b)
      | PeerUpdated body \<Rightarrow> (None, s, on_peer_updated body b)
      | ObjectUpdated body \<Rightarrow> (None, s, on_object_updated body b)
      | ObjectCreated body \<Rightarrow> (None, s, on_object_created body b)
      | ImageCreated body \<Rightarrow> (None, s, on_image_created body b)
      | ObjectRemoved body \<Rightarrow>
          (case on_object_removed cr d body b of (err, b) \<Rightarrow> (err, s, b))
      | ImageRemoved body \<Rightarrow> (None, s, on_image_removed body b)
      | _ \<Rightarrow> (None, s, b))"

definition client_kinds :: "Kind list" where
  "client_kinds =
     [K_Challenge, K_Pong, K_PeerConnected, K_PeerJoin, K_PeerDisconnect, K_PeerLeave,
      K_PeerUpdated, K_ObjectUpdated, K_ObjectCreated, K_ImageCreated, K_ObjectRemoved,
      K_ImageRemoved]"

definition client_message ::
    "Crypto \<Rightarrow> Descriptive \<Rightarrow> Codec \<Rightarrow> nat \<Rightarrow> Kind option \<Rightarrow> bytes \<Rightarrow> Session \<Rightarrow> Backend \<Rightarrow>
     ClientError option \<times> Session \<times> Backend" where
  "client_message cr d c now k body s b =
     (case k of
        None \<Rightarrow> (None, s, b)
      | Some kind \<Rightarrow>
          if kind \<notin> set client_kinds then (None, s, b)
          else case c_dec_event c kind body of
                 None \<Rightarrow> (Some (CDecodeFailed kind), s, b)
               | Some e \<Rightarrow>
                   if event_kind e = kind then client_event cr d c now e s b
                   else (Some (CDecodeFailed kind), s, b))"

fun client_loop ::
    "Crypto \<Rightarrow> Descriptive \<Rightarrow> Codec \<Rightarrow> nat \<Rightarrow> nat \<Rightarrow> Session \<Rightarrow> Backend \<Rightarrow>
     ClientError option \<times> Session \<times> Backend" where
  "client_loop cr d c now 0 s b = (Some COutOfFuel, s, b)"
| "client_loop cr d c now (Suc n) s b =
     (case peer_read c (cs_peer s) of
        (r, p) \<Rightarrow>
          let s = s\<lparr>cs_peer := p\<rparr>
          in case r of
               Inl e \<Rightarrow> (Some (CReadFailed e), s, b)
             | Inr None \<Rightarrow> (None, s, b)
             | Inr (Some (k, body)) \<Rightarrow>
                 (case client_message cr d c now k body s b of
                    (Some e, s, b) \<Rightarrow> (Some e, s, b)
                  | (None, s, b) \<Rightarrow> client_loop cr d c now n s b))"

definition handle_peer ::
    "Crypto \<Rightarrow> Descriptive \<Rightarrow> Codec \<Rightarrow> nat \<Rightarrow> Session \<Rightarrow> Backend \<Rightarrow>
     ClientError option \<times> Session \<times> Backend" where
  "handle_peer cr d c now s b =
     client_loop cr d c now (remaining (p_read (cs_peer s)) + 2) s b"

subsection \<open>Flushing local changes\<close>

fun flush_changed ::
    "Codec \<Rightarrow> Id list \<Rightarrow> (Id, LocalObject) hashmap \<Rightarrow> Peer \<Rightarrow> bool \<times> (Id, LocalObject) hashmap \<times> Peer"
where
  "flush_changed c [] objects p = (True, objects, p)"
| "flush_changed c (i # is) objects p =
     (case hm_get objects i of
        None \<Rightarrow> flush_changed c is objects p
      | Some ob \<Rightarrow>
          (case try_each (\<lambda>key. peer_object_update c i key (props_get (lo_props ob) key))
                  (lo_changed ob) p of
             (False, p) \<Rightarrow> (False, hm_insert i (ob\<lparr>lo_changed := []\<rparr>) objects, p)
           | (True, p) \<Rightarrow> flush_changed c is (hm_insert i (ob\<lparr>lo_changed := []\<rparr>) objects) p))"

definition flush_added ::
    "Codec \<Rightarrow> Id list \<Rightarrow> (Id, LocalObject) hashmap \<Rightarrow> Peer \<Rightarrow> bool \<times> Peer" where
  "flush_added c is objects =
     try_each (\<lambda>i p. case hm_get objects i of
         None \<Rightarrow> (True, p)
       | Some ob \<Rightarrow>
           peer_object_create c \<lparr>ro_ty = lo_ty ob, ro_id = i, ro_props = lo_props ob\<rparr> p) is"

definition flush_images ::
    "Codec \<Rightarrow> Id list \<Rightarrow> (Id, LocalImage) hashmap \<Rightarrow> Peer \<Rightarrow> bool \<times> Peer" where
  "flush_images c is images =
     try_each (\<lambda>i p. case hm_get images i of
         None \<Rightarrow> (True, p)
       | Some img \<Rightarrow> peer_image_create c (local_image_wire img) p) is"

definition client_flush :: "Codec \<Rightarrow> Peer \<Rightarrow> Backend \<Rightarrow> bool \<times> Peer \<times> Backend" where
  "client_flush c p b =
     (case try_each (\<lambda>key. peer_update c key (props_get (bk_props b) key)) (bk_props_changed b) p of
        (False, p) \<Rightarrow> (False, p, b\<lparr>bk_props_changed := []\<rparr>)
      | (True, p) \<Rightarrow>
          let b = b\<lparr>bk_props_changed := []\<rparr>
          in case flush_changed c (bk_objects_changed b) (bk_objects b) p of
               (False, objects, p) \<Rightarrow>
                 (False, p, b\<lparr>bk_objects_changed := [], bk_objects := objects\<rparr>)
             | (True, objects, p) \<Rightarrow>
                 let b = b\<lparr>bk_objects_changed := [], bk_objects := objects\<rparr>
                 in case flush_added c (bk_objects_added b) (bk_objects b) p of
                      (False, p) \<Rightarrow> (False, p, b\<lparr>bk_objects_added := []\<rparr>)
                    | (True, p) \<Rightarrow>
                        let b = b\<lparr>bk_objects_added := []\<rparr>
                        in case try_each (peer_object_remove c) (bk_objects_removed b) p of
                             (False, p) \<Rightarrow> (False, p, b\<lparr>bk_objects_removed := []\<rparr>)
                           | (True, p) \<Rightarrow>
                               let b = b\<lparr>bk_objects_removed := []\<rparr>
                               in case flush_images c (bk_images_added b) (bk_images b) p of
                                    (False, p) \<Rightarrow> (False, p, b\<lparr>bk_images_added := []\<rparr>)
                                  | (True, p) \<Rightarrow>
                                      let b = b\<lparr>bk_images_added := []\<rparr>
                                      in case try_each (peer_image_remove c) (bk_images_removed b) p of
                                           (ok, p) \<Rightarrow> (ok, p, b\<lparr>bk_images_removed := []\<rparr>))"

subsection \<open>The session\<close>

definition session_start :: "Codec \<Rightarrow> nat \<Rightarrow> Client \<Rightarrow> bool \<times> Session" where
  "session_start c now client =
     (case peer_hello c (peer_new client) of
        (ok, p) \<Rightarrow>
          (ok, \<lparr>cs_peer = p, cs_last_ping = None, cs_ping_timeout = now + 1000,
               cs_pong_timeout = now, cs_authenticated = False\<rparr>))"

definition session_ready ::
    "Crypto \<Rightarrow> Descriptive \<Rightarrow> Codec \<Rightarrow> nat \<Rightarrow> nat Answer list \<Rightarrow> bytes Answer \<Rightarrow> Session \<Rightarrow> Backend \<Rightarrow>
     bool \<times> Session \<times> Backend" where
  "session_ready cr d c now writes reads s b =
     (case peer_poll writes reads (cs_peer s) of
        (r, p, sent) \<Rightarrow>
          let s = s\<lparr>cs_peer := p\<rparr>
          in if r = PollErr then (False, s, b)
             else if r = PollPending then (True, s, b)
             else case handle_peer cr d c now s b of (e, s, b) \<Rightarrow> (e = None, s, b))"

definition session_flush :: "Codec \<Rightarrow> Session \<Rightarrow> Backend \<Rightarrow> bool \<times> Session \<times> Backend" where
  "session_flush c s b =
     (if \<not> cs_authenticated s \<or> \<not> bk_client_notify b then (True, s, b)
      else case client_flush c (cs_peer s) (b\<lparr>bk_client_notify := False\<rparr>) of
             (ok, p, b) \<Rightarrow> (ok, s\<lparr>cs_peer := p\<rparr>, b))"

definition session_timer :: "Codec \<Rightarrow> nat \<Rightarrow> u64 \<Rightarrow> Session \<Rightarrow> ClientError option \<times> Session" where
  "session_timer c now payload s =
     (case cs_last_ping s of
        None \<Rightarrow>
          if now < cs_ping_timeout s then (None, s)
          else
            (case peer_ping c payload (cs_peer s) of
               (False, p) \<Rightarrow> (Some CSendFailed, s\<lparr>cs_last_ping := Some payload, cs_peer := p\<rparr>)
             | (True, p) \<Rightarrow>
                 (None, s\<lparr>cs_last_ping := Some payload, cs_peer := p,
                          cs_pong_timeout := now + 5000\<rparr>))
      | Some _ \<Rightarrow> if now < cs_pong_timeout s then (None, s) else (Some PongTimeout, s))"

text \<open>\<open>managed\<close>: the settings read when a connection is (re)built, and what building does.\<close>

definition client_settings :: "string option \<Rightarrow> Backend \<Rightarrow> string option \<times> bool \<times> bool" where
  "client_settings default_connect b =
     (let connect = as_str (props_get (bk_props b) KEY_REMOTE_SERVER)
      in (if connect \<noteq> [] then Some connect else default_connect,
          as_bool (props_get (bk_props b) KEY_REMOTE_ENABLED),
          as_bool (props_get (bk_props b) KEY_REMOTE_TLS)))"

definition build_client :: "string option \<Rightarrow> bool \<Rightarrow> Backend \<Rightarrow> bool \<times> Backend" where
  "build_client connect enabled b =
     (let b = broadcast (BRemoteUpdate RRemoteLost) (b\<lparr>bk_peers := []\<rparr>)
      in if enabled then
           (case connect of
              Some _ \<Rightarrow> (True, notify_info ''remote-client'' ''restarting'' b)
            | None \<Rightarrow>
                (False, notify_info ''remote-client'' ''enabled, but no server configured'' b))
         else (False, notify_info ''remote-client'' ''disabling'' b))"

end
