(* ===== verification/Handshake.thy ===== *)
theory Handshake
  imports ServerGreet RemoteClient
begin

section \<open>Client and server together\<close>

text \<open>
  What the messages of the server do to the tables of a client: a client that handles the
  greeting of \<open>ServerGreet\<close> holds what it may see of every other peer. \<open>client_events\<close> is the
  loop of \<open>handle_peer\<close> on decoded messages.
\<close>

fun client_events ::
    "Crypto \<Rightarrow> Descriptive \<Rightarrow> Codec \<Rightarrow> nat \<Rightarrow> Event list \<Rightarrow> Session \<Rightarrow> Backend \<Rightarrow>
     ClientError option \<times> Session \<times> Backend" where
  "client_events cr d c now [] s b = (None, s, b)"
| "client_events cr d c now (e # es) s b =
     (case client_event cr d c now e s b of
        (Some err, s, b) \<Rightarrow> (Some err, s, b)
      | (None, s, b) \<Rightarrow> client_events cr d c now es s b)"

text \<open>The messages of a greeting only change the backend.\<close>

fun greets :: "Event \<Rightarrow> bool" where
  "greets (ObjectCreated _) = True"
| "greets (ImageCreated _) = True"
| "greets (PeerConnected _) = True"
| "greets (PeerJoin _) = True"
| "greets _ = False"

fun greet_effect :: "Event \<Rightarrow> Backend \<Rightarrow> Backend" where
  "greet_effect (ObjectCreated body) b = on_object_created body b"
| "greet_effect (ImageCreated body) b = on_image_created body b"
| "greet_effect (PeerConnected body) b = on_peer_connected body b"
| "greet_effect (PeerJoin body) b = on_peer_join body b"
| "greet_effect _ b = b"

lemma client_events_greets:
  "list_all greets es \<Longrightarrow> client_events cr d c now es s b = (None, s, fold greet_effect es b)"
proof (induction es arbitrary: b)
  case (Cons e es)
  then show ?case by (cases e) (simp_all add: client_event_def)
qed simp

subsection \<open>The table of peers\<close>

lemma peers_broadcast [simp]: "bk_peers (broadcast x b) = bk_peers b"
  by (simp add: broadcast_def)

lemma peers_cache_store [simp]: "bk_peers (cache_store i bs b) = bk_peers b"
  by (simp add: cache_store_def)

lemma peers_set_peer [simp]: "bk_peers (set_peer i p b) = hm_insert i p (bk_peers b)"
  by (simp add: set_peer_def)

text \<open>A message of a greeting changes the entry of its sender only.\<close>

fun greet_sender :: "Event \<Rightarrow> PeerId" where
  "greet_sender (ObjectCreated body) = ocdb_peer_id body"
| "greet_sender (ImageCreated body) = icdb_peer_id body"
| "greet_sender (PeerConnected body) = pcb_peer_id body"
| "greet_sender (PeerJoin body) = pjb_peer_id body"
| "greet_sender _ = PeerId_ZERO"

lemma greet_effect_other:
  "greet_sender e \<noteq> i \<Longrightarrow> hm_get (bk_peers (greet_effect e b)) i = hm_get (bk_peers b) i"
  by (cases e) (auto simp: on_object_created_def on_image_created_def on_peer_connected_def
      on_peer_join_def hm_get_insert Let_def split: option.split)

lemma greet_effects_other:
  "\<forall>e\<in>set es. greet_sender e \<noteq> i \<Longrightarrow>
     hm_get (bk_peers (fold greet_effect es b)) i = hm_get (bk_peers b) i"
  by (induction es arbitrary: b) (simp_all add: greet_effect_other)

lemma announce_sender: "e \<in> set (announce i t) \<Longrightarrow> greet_sender e = i"
  by (auto simp: announce_def)

lemma greets_told:
  "list_all greets (announce i t)" "list_all greets (told_others me vs)"
  "list_all greets (told_greet vs)" "list_all greets (told_join is vs)"
  by (auto simp: announce_def told_others_def told_greet_def told_join_def list_all_iff split: option.splits)

text \<open>Until its peer is known, an announcement is ignored.\<close>

lemma announce_unknown:
  assumes "hm_get (bk_peers b) i = None"
  shows "bk_peers (fold greet_effect (announce i t) b) = bk_peers b"
proof -
  have "\<forall>e\<in>set es. (\<exists>ob. e = ObjectCreated (ObjectCreatedBody i ob)) \<or>
      (\<exists>img. e = ImageCreated (ImageCreatedBody i img)) \<Longrightarrow> fold greet_effect es b = b" for es
    using assms by (induction es) (auto simp: on_object_created_def on_image_created_def)
  then show ?thesis by (auto simp: announce_def)
qed

lemma told_others_ignored:
  "\<forall>(i, v)\<in>set vs. sps_peer_id v = i \<Longrightarrow> bk_peers b = [] \<Longrightarrow>
     bk_peers (fold greet_effect (told_others me vs) b) = []"
proof (induction vs arbitrary: b)
  case Nil
  then show ?case by (simp add: told_others_def)
next
  case (Cons x vs)
  obtain i v where x: "x = (i, v)" by (cases x)
  have e: "told_others me (x # vs) = (if me = i then [] else announce i v) @ told_others me vs"
    using Cons.prems(1) by (simp add: told_others_def x)
  have "bk_peers (fold greet_effect (if me = i then [] else announce i v) b) = []"
    using Cons.prems(2) announce_unknown [of b i v] by simp
  then show ?case using Cons by (simp add: e)
qed

text \<open>What a client holds of a peer after its announcement, after its joining.\<close>

definition announced :: "ServerPeerState \<Rightarrow> PeerInfo \<Rightarrow> PeerInfo" where
  "announced t peer =
     peer\<lparr>pi_objects := insert_objects (global_objects t) (pi_objects peer),
          pi_images := fold hs_insert (map ri_id (hm_values (sps_images t))) (pi_images peer)\<rparr>"

definition joined :: "ServerPeerState \<Rightarrow> PeerInfo \<Rightarrow> PeerInfo" where
  "joined t peer = peer\<lparr>pi_objects := insert_objects (local_objects t) (pi_objects peer)\<rparr>"

lemma fold_objects_created:
  "hm_get (bk_peers b) i = Some peer \<Longrightarrow>
     hm_get (bk_peers (fold greet_effect (map (\<lambda>ob. ObjectCreated (ObjectCreatedBody i ob)) obs) b)) i =
       Some (peer\<lparr>pi_objects := insert_objects obs (pi_objects peer)\<rparr>)"
proof (induction obs arbitrary: b peer)
  case (Cons ob obs)
  let ?peer = "peer\<lparr>pi_objects := hm_insert (ro_id ob) ob (pi_objects peer)\<rparr>"
  let ?b = "on_object_created (ObjectCreatedBody i ob) b"
  have "hm_get (bk_peers ?b) i = Some ?peer"
    using Cons.prems by (simp add: on_object_created_def hm_get_insert)
  from Cons.IH [OF this] show ?case by simp
qed simp

lemma fold_images_created:
  "hm_get (bk_peers b) i = Some peer \<Longrightarrow>
     hm_get (bk_peers (fold greet_effect (map (\<lambda>img. ImageCreated (ImageCreatedBody i img)) imgs) b)) i =
       Some (peer\<lparr>pi_images := fold hs_insert (map ri_id imgs) (pi_images peer)\<rparr>)"
proof (induction imgs arbitrary: b peer)
  case (Cons img imgs)
  let ?peer = "peer\<lparr>pi_images := hs_insert (ri_id img) (pi_images peer)\<rparr>"
  let ?b = "on_image_created (ImageCreatedBody i img) b"
  have "hm_get (bk_peers ?b) i = Some ?peer"
    using Cons.prems by (simp add: on_image_created_def Let_def hm_get_insert)
  from Cons.IH [OF this] show ?case by simp
qed simp

lemma announce_known:
  assumes "hm_get (bk_peers b) i = Some peer"
  shows "hm_get (bk_peers (fold greet_effect (announce i t) b)) i = Some (announced t peer)"
  using fold_images_created [OF fold_objects_created [OF assms, of "global_objects t"],
      of "hm_values (sps_images t)"]
  by (simp add: announce_def announced_def)

lemma hm_get_Cons: "hm_get ((k, v) # m) k' = (if k' = k then Some v else hm_get m k')"
  by (simp add: hm_get_def)

text \<open>The entries made by the greeting and by the members of the room.\<close>

definition connected_info :: "ServerPeerState \<Rightarrow> PeerInfo" where
  "connected_info t =
     \<lparr>pi_public_key = sps_public_key t, pi_objects = [], pi_images = [], pi_props = sps_props t\<rparr>"

lemma told_greet_known:
  "hm_wf vs \<Longrightarrow> hm_get (bk_peers (fold greet_effect (told_greet vs) b)) i =
     (case hm_get vs i of None \<Rightarrow> hm_get (bk_peers b) i
      | Some v \<Rightarrow> Some (announced v (connected_info v)))"
proof (induction vs arbitrary: b)
  case Nil
  then show ?case by (simp add: told_greet_def)
next
  case (Cons x vs)
  obtain j v where x: "x = (j, v)" by (cases x)
  let ?e = "PeerConnected (PeerConnectedBody (sps_public_key v) j (sps_props v))"
  let ?b = "fold greet_effect (?e # announce j v) b"
  have e: "told_greet (x # vs) = (?e # announce j v) @ told_greet vs"
    by (simp add: told_greet_def x)
  have j: "hm_get (bk_peers ?b) j = Some (announced v (connected_info v))"
    using announce_known [of "greet_effect ?e b" j "connected_info v" v]
    by (simp add: on_peer_connected_def hm_get_insert connected_info_def)
  have other: "i \<noteq> j \<Longrightarrow> hm_get (bk_peers ?b) i = hm_get (bk_peers b) i"
    by (rule greet_effects_other) (auto dest: announce_sender)
  have absent: "hm_get vs j = None"
    using Cons.prems by (simp add: x hm_wf_def hm_get_def map_of_eq_None_iff)
  have "hm_get (bk_peers (fold greet_effect (told_greet vs) ?b)) i =
      (case hm_get vs i of None \<Rightarrow> hm_get (bk_peers ?b) i
       | Some v \<Rightarrow> Some (announced v (connected_info v)))"
    using Cons.prems by (intro Cons.IH) (simp add: hm_wf_def)
  then show ?case
    using j other absent by (cases "i = j") (auto simp: e [unfolded x] x hm_get_Cons split: option.split)
qed

lemma told_join_known:
  "distinct is \<Longrightarrow> \<forall>i\<in>set is. \<forall>v. hm_get vs i = Some v \<longrightarrow> sps_peer_id v = i \<Longrightarrow>
     hm_get (bk_peers (fold greet_effect (told_join is vs) b)) i =
       (case hm_get vs i of None \<Rightarrow> hm_get (bk_peers b) i
        | Some v \<Rightarrow> if i \<in> set is then map_option (joined v) (hm_get (bk_peers b) i)
                    else hm_get (bk_peers b) i)"
proof (induction "is" arbitrary: b)
  case Nil
  then show ?case by (simp add: told_join_def split: option.split)
next
  case (Cons j "is")
  show ?case
  proof (cases "hm_get vs j")
    case None
    then have "told_join (j # is) vs = told_join is vs" by (simp add: told_join_def)
    with None Cons show ?thesis by (auto split: option.split)
  next
    case (Some v)
    then have v: "sps_peer_id v = j" using Cons.prems by simp
    let ?b = "on_peer_join (PeerJoinBody j (local_objects v)) b"
    have e: "fold greet_effect (told_join (j # is) vs) b = fold greet_effect (told_join is vs) ?b"
      using Some v by (simp add: told_join_def)
    have b: "hm_get (bk_peers ?b) i =
        (if i = j then map_option (joined v) (hm_get (bk_peers b) j) else hm_get (bk_peers b) i)"
      by (auto simp: on_peer_join_def joined_def Let_def hm_get_insert split: option.split)
    show ?thesis
      using Cons b Some unfolding e by (auto split: option.split)
  qed
qed

subsection \<open>The client mirrors the server\<close>

text \<open>Objects and images are filed under their own identifiers.\<close>

definition keyed :: "ServerPeerState \<Rightarrow> bool" where
  "keyed t \<longleftrightarrow> hm_wf (sps_objects t) \<and> (\<forall>(i, ob)\<in>set (sps_objects t). ro_id ob = i) \<and>
     (\<forall>(i, img)\<in>set (sps_images t). ri_id img = i)"

text \<open>The entry a client should have for a peer, which may be a member of its room.\<close>

definition mirrors :: "ServerPeerState \<Rightarrow> bool \<Rightarrow> PeerInfo \<Rightarrow> bool" where
  "mirrors t member peer \<longleftrightarrow>
     pi_public_key peer = sps_public_key t \<and> pi_props peer = sps_props t \<and>
     hm_get (pi_objects peer) =
       hm_get (hm_retain (\<lambda>_ ob. is_global (ro_ty ob) \<or> member) (sps_objects t)) \<and>
     set (pi_images peer) = set (hm_keys (sps_images t))"

lemma insert_objects_filter:
  "hm_wf objects \<Longrightarrow> \<forall>(i, ob)\<in>set objects. ro_id ob = i \<Longrightarrow>
     hm_get (insert_objects (filter P (hm_values objects)) m) i =
       (case hm_get objects i of None \<Rightarrow> hm_get m i
        | Some ob \<Rightarrow> if P ob then Some ob else hm_get m i)"
proof (induction objects arbitrary: m)
  case Nil
  then show ?case by (simp add: hm_values_def)
next
  case (Cons x objects)
  obtain j ob where x: "x = (j, ob)" by (cases x)
  have j: "ro_id ob = j" "hm_get objects j = None" "hm_wf objects"
    using Cons.prems by (auto simp: x hm_wf_def hm_get_def map_of_eq_None_iff)
  let ?m = "if P ob then hm_insert j ob m else m"
  have "insert_objects (filter P (hm_values (x # objects))) m =
      insert_objects (filter P (hm_values objects)) ?m"
    by (simp add: x hm_values_def j)
  with Cons.IH [of ?m] Cons.prems j show ?case
    by (auto simp: x hm_get_Cons hm_get_insert split: option.split)
qed

lemma set_fold_hs_insert: "set (fold hs_insert xs ys) = set xs \<union> set ys"
  by (induction xs arbitrary: ys) auto

lemma announced_mirrors:
  assumes "keyed t"
  shows "mirrors t False (announced t (connected_info t))"
    and "mirrors t True (joined t (announced t (connected_info t)))"
proof -
  have k: "hm_wf (sps_objects t)" "\<forall>(i, ob)\<in>set (sps_objects t). ro_id ob = i"
    using assms by (simp_all add: keyed_def)
  have "map ri_id (hm_values (sps_images t)) = hm_keys (sps_images t)"
    using assms by (auto simp: keyed_def hm_values_def hm_keys_def)
  then have i: "set (fold hs_insert (map ri_id (hm_values (sps_images t))) []) =
      set (hm_keys (sps_images t))" by (simp add: set_fold_hs_insert)
  show "mirrors t False (announced t (connected_info t))"
    using i insert_objects_filter [OF k, of "\<lambda>ob. is_global (ro_ty ob)"]
    by (auto simp: mirrors_def announced_def connected_info_def global_objects_def
        hm_get_retain [OF k(1)] fun_eq_iff split: option.split)
  show "mirrors t True (joined t (announced t (connected_info t)))"
    using i insert_objects_filter [OF k, of "\<lambda>ob. is_global (ro_ty ob)"]
      insert_objects_filter [OF k, of "\<lambda>ob. \<not> is_global (ro_ty ob)"]
    by (auto simp: mirrors_def announced_def joined_def connected_info_def global_objects_def
        local_objects_def hm_get_retain [OF k(1)] fun_eq_iff split: option.split)
qed

lemma keyed_view [simp]: "keyed (view t) = keyed t"
  by (simp add: keyed_def)

lemma mirrors_view [simp]: "mirrors (view t) member peer = mirrors t member peer"
  by (simp add: mirrors_def)

text \<open>
  C7. A client that knows no peers and handles the greeting that the server queued for it
  holds of every other peer exactly what it may see: key, properties, images, and the global
  objects, with all objects for the members of the room it entered; it holds nothing else.
\<close>

theorem client_mirrors_server:
  assumes "hm_wf (st_map st)" "bk_peers bk = []"
    and "\<forall>(i, sp)\<in>set (st_map st). sps_peer_id (sp_state sp) = i \<and> keyed (sp_state sp)"
    and "distinct (joined_members body this st)"
  shows "\<exists>bk'. client_events cr d c now (greeting body this st) s bk = (None, s, bk') \<and>
    (\<forall>i. case hm_get (st_map st) i of
           None \<Rightarrow> hm_get (bk_peers bk') i = None
         | Some sp \<Rightarrow> (\<exists>peer. hm_get (bk_peers bk') i = Some peer \<and>
             mirrors (sp_state sp) (i \<in> set (joined_members body this st)) peer))"
proof -
  let ?vs = "views (st_map st)" and ?js = "joined_members body this st"
  define b1 where "b1 = fold greet_effect (told_others (sps_peer_id this) ?vs) bk"
  define b2 where "b2 = fold greet_effect (told_greet ?vs) b1"
  define b3 where "b3 = fold greet_effect (told_join ?js ?vs) b2"
  have wf: "hm_wf ?vs" using assms(1) by (simp add: views_def)
  have v: "sps_peer_id v = i" "keyed v" if "hm_get ?vs i = Some v" for i v
    using that assms(3) by (auto simp: hm_get_views dest!: hm_get_mem)
  have "\<forall>(i, v)\<in>set ?vs. sps_peer_id v = i"
    using v(1) wf by (auto simp: hm_mem_get)
  then have b1: "bk_peers b1 = []"
    unfolding b1_def using assms(2) by (rule told_others_ignored)
  have run: "client_events cr d c now (greeting body this st) s bk = (None, s, b3)"
    by (subst client_events_greets) (simp_all add: greeting_def greets_told b1_def b2_def b3_def)
  have "case hm_get (st_map st) i of None \<Rightarrow> hm_get (bk_peers b3) i = None
      | Some sp \<Rightarrow> \<exists>peer. hm_get (bk_peers b3) i = Some peer \<and> mirrors (sp_state sp) (i \<in> set ?js) peer"
    for i
  proof -
    have b2: "hm_get (bk_peers b2) i = map_option (\<lambda>v. announced v (connected_info v)) (hm_get ?vs i)"
      using told_greet_known [OF wf, of b1 i] b1 by (simp add: b2_def split: option.split)
    have b3: "hm_get (bk_peers b3) i =
        (case hm_get ?vs i of None \<Rightarrow> hm_get (bk_peers b2) i
         | Some v \<Rightarrow> if i \<in> set ?js then map_option (joined v) (hm_get (bk_peers b2) i)
                     else hm_get (bk_peers b2) i)"
      unfolding b3_def using assms(4) v(1) by (intro told_join_known) auto
    show ?thesis
      using b2 b3 v(2) [of i] announced_mirrors [of "view (sp_state (the (hm_get (st_map st) i)))"]
      by (cases "hm_get (st_map st) i") (auto simp: hm_get_views)
  qed
  with run show ?thesis by blast
qed

definition demo_session :: Session where
  "demo_session = snd (session_start (e_codec demo_env) 0 client_plain)"

text \<open>The peer of \<open>ServerGreet\<close> that hosts a room, as the client sees it.\<close>

theorem client_mirrors_server_witness:
  "\<exists>bk'. client_events demo_crypto demo_descriptive (e_codec demo_env) 0
      (greeting demo_connect demo_guest demo_hosted) demo_session demo_backend = (None, demo_session, bk') \<and>
    (\<exists>peer. hm_get (bk_peers bk') (PeerId_new 1) = Some peer \<and> mirrors demo_host True peer) \<and>
    hm_get (bk_peers bk') (PeerId_new 2) = None"
proof -
  have m: "joined_members demo_connect demo_guest demo_hosted = [PeerId_new 1]"
    by (simp add: joined_members_def demo_connect_def demo_hosted_def new_peer_def hm_get_def)
  have k: "\<forall>(i, sp)\<in>set (st_map demo_hosted). sps_peer_id (sp_state sp) = i \<and> keyed (sp_state sp)"
    by (simp add: demo_hosted_def demo_host_def demo_room_def server_peer_new_def keyed_def hm_wf_def)
  have w: "hm_wf (st_map demo_hosted)" "distinct (joined_members demo_connect demo_guest demo_hosted)"
    unfolding m by (simp_all add: demo_hosted_def hm_wf_def)
  have g: "hm_get (st_map demo_hosted) (PeerId_new 1) = Some \<lparr>sp_timeout = 9, sp_state = demo_host\<rparr>"
    "hm_get (st_map demo_hosted) (PeerId_new 2) = None"
    by (simp_all add: demo_hosted_def hm_get_def)
  obtain bk' where run: "client_events demo_crypto demo_descriptive (e_codec demo_env) 0
      (greeting demo_connect demo_guest demo_hosted) demo_session demo_backend = (None, demo_session, bk')"
    and all: "\<forall>i. case hm_get (st_map demo_hosted) i of
           None \<Rightarrow> hm_get (bk_peers bk') i = None
         | Some sp \<Rightarrow> \<exists>peer. hm_get (bk_peers bk') i = Some peer \<and>
             mirrors (sp_state sp) (i \<in> set (joined_members demo_connect demo_guest demo_hosted)) peer"
    using client_mirrors_server [OF w(1) demo_backend_fields(1) k w(2)] by blast
  from all [THEN spec, of "PeerId_new 1"] all [THEN spec, of "PeerId_new 2"] run m g
  show ?thesis by auto
qed

subsection \<open>The server accepts the client\<close>

text \<open>What signatures are relied on for: those made with a key verify under its public key.\<close>

definition scheme_ok :: "Crypto \<Rightarrow> bool" where
  "scheme_ok cr \<longleftrightarrow> (\<forall>seed m. cr_valid_key cr (cr_public cr seed) \<and>
     cr_verify cr (cr_public cr seed) m (cr_sign cr seed m))"

definition connect_body :: "Crypto \<Rightarrow> Backend \<Rightarrow> bytes \<Rightarrow> ConnectBody" where
  "connect_body cr b nonce =
     \<lparr>cb_public_key = keypair_public_key cr (bk_keypair b),
      cb_signature = keypair_sign cr (bk_keypair b) nonce,
      cb_objects = map local_object_wire (hm_values (bk_objects b)),
      cb_images = map local_image_wire (hm_values (bk_images b)), cb_props = connect_props b\<rparr>"

lemma connect_body_simps [simp]:
  "cb_public_key (connect_body cr b nonce) = keypair_public_key cr (bk_keypair b)"
  "cb_signature (connect_body cr b nonce) = keypair_sign cr (bk_keypair b) nonce"
  "cb_objects (connect_body cr b nonce) = map local_object_wire (hm_values (bk_objects b))"
  "cb_images (connect_body cr b nonce) = map local_image_wire (hm_values (bk_images b))"
  "cb_props (connect_body cr b nonce) = connect_props b"
  by (simp_all add: connect_body_def)

lemma on_challenge_sends:
  "on_challenge cr c (ChallengeBody nonce) s b =
     (case peer_send c (Connect (connect_body cr b nonce)) (cs_peer s) of
        (False, p) \<Rightarrow> (Some CSendFailed, s\<lparr>cs_peer := p\<rparr>)
      | (True, p) \<Rightarrow> (None, s\<lparr>cs_peer := p, cs_authenticated := True\<rparr>))"
  by (simp add: on_challenge_def peer_connect_def connect_body_def)

lemma signed_challenge: "scheme_ok cr \<Longrightarrow>
    crypto_verify cr (cb_public_key (connect_body cr b nonce)) nonce (cb_signature (connect_body cr b nonce))"
  by (simp add: crypto_verify_def keypair_public_key_def keypair_sign_def scheme_ok_def)

text \<open>Local objects and images are filed under their own identifiers.\<close>

definition locals_keyed :: "Backend \<Rightarrow> bool" where
  "locals_keyed b \<longleftrightarrow>
     hm_wf (bk_objects b) \<and> (\<forall>(i, ob)\<in>set (bk_objects b). lo_id ob = i) \<and>
     hm_wf (bk_images b) \<and> (\<forall>(i, img)\<in>set (bk_images b). li_id img = i)"

text \<open>The server's copy of what a client shares.\<close>

definition copies :: "Backend \<Rightarrow> ServerPeerState \<Rightarrow> bool" where
  "copies b t \<longleftrightarrow>
     hm_get (sps_objects t) = map_option local_object_wire \<circ> hm_get (bk_objects b) \<and>
     hm_get (sps_images t) = map_option local_image_wire \<circ> hm_get (bk_images b) \<and>
     props_get (sps_props t) = (\<lambda>key. if key_is_remote key then props_get (bk_props b) key else VEmpty)"

lemma add_objects_objects:
  "sps_objects (fst (add_objects obs this st)) =
     fold (\<lambda>ob. hm_insert (ro_id ob) ob) obs (sps_objects this)"
  by (induction obs this st rule: add_objects.induct) (simp_all add: Let_def)

lemma add_images_images:
  "sps_images (add_images imgs this) = fold (\<lambda>img. hm_insert (ri_id img) img) imgs (sps_images this)"
  by (induction imgs arbitrary: this) simp_all

lemma hm_get_fold_insert:
  "hm_wf m \<Longrightarrow> \<forall>(i, x)\<in>set m. key (f x) = i \<Longrightarrow>
     hm_get (fold (\<lambda>y. hm_insert (key y) y) (map f (hm_values m)) m') i =
       (case hm_get m i of None \<Rightarrow> hm_get m' i | Some x \<Rightarrow> Some (f x))"
proof (induction m arbitrary: m')
  case Nil
  then show ?case by (simp add: hm_values_def)
next
  case (Cons a m)
  obtain j x where a: "a = (j, x)" by (cases a)
  then have j: "key (f x) = j" "hm_get m j = None" "hm_wf m"
    using Cons.prems by (auto simp: hm_wf_def hm_get_def map_of_eq_None_iff)
  with Cons.IH [of "hm_insert j (f x) m'"] Cons.prems show ?case
    by (auto simp: a hm_values_def hm_get_Cons hm_get_insert split: option.split)
qed

lemma map_of_filter_key: "map_of (filter (\<lambda>(k, v). P k) m) k = (if P k then map_of m k else None)"
  by (induction m) auto

lemma get_connect_props:
  assumes "props_ok (bk_props b)"
  shows "props_get (connect_props b) key =
    (if key_is_remote key then props_get (bk_props b) key else VEmpty)"
proof -
  let ?xs = "filter (\<lambda>(key, v). key_is_remote key) (bk_props b)"
  have d: "distinct (map fst ?xs)"
    using assms by (simp add: props_ok_def hm_wf_def distinct_map_filter)
  have "map_of ?xs key = (if key_is_remote key then hm_get (bk_props b) key else None)"
    by (simp add: hm_get_def map_of_filter_key)
  moreover have "props_get (connect_props b) key =
      (case map_of ?xs key of None \<Rightarrow> VEmpty | Some v \<Rightarrow> value_norm v)"
    using props.get_put_all [of props_new ?xs key]
    by (simp add: connect_props_def props_from_iter_def map_of_rev_distinct [OF d]
        cong: option.case_cong)
  ultimately show ?thesis
    using assms by (auto simp: props_get_def props_ok_def value_norm_def split: option.split)
qed

lemma filed_copies:
  assumes "locals_keyed b" "props_ok (bk_props b)" "sps_objects this = []" "sps_images this = []"
  shows "copies b (filed (connect_body cr b nonce) this st)"
proof -
  have o: "hm_wf (bk_objects b)" "\<forall>(i, ob)\<in>set (bk_objects b). ro_id (local_object_wire ob) = i"
    and im: "hm_wf (bk_images b)" "\<forall>(i, img)\<in>set (bk_images b). ri_id (local_image_wire img) = i"
    using assms(1) by (auto simp: locals_keyed_def local_object_wire_def local_image_wire_def)
  obtain t2 s2 where a: "add_objects (map local_object_wire (hm_values (bk_objects b)))
      (new_peer (connect_body cr b nonce) this) st = (t2, s2)" by fastforce
  have f: "sps_props t2 = connect_props b" "sps_images t2 = []"
    using add_objects_fields [OF a] assms(4) by (simp_all add: new_peer_def)
  have t2: "sps_objects t2 = fold (\<lambda>ob. hm_insert (ro_id ob) ob)
      (map local_object_wire (hm_values (bk_objects b))) []"
    using add_objects_objects [of "map local_object_wire (hm_values (bk_objects b))"
        "new_peer (connect_body cr b nonce) this" st] a assms(3)
    by (simp add: new_peer_def)
  show ?thesis
    using hm_get_fold_insert [where key = ro_id and f = local_object_wire, OF o]
      hm_get_fold_insert [where key = ri_id and f = local_image_wire, OF im] get_connect_props [OF assms(2)]
      add_images_fields [of "cb_images (connect_body cr b nonce)" t2]
    by (auto simp: copies_def filed_def a f t2 add_images_images fun_eq_iff
        split: option.split)
qed

text \<open>
  C15. A client that answers the challenge of the server is accepted, unless its key is in
  use: the server then has its key, its objects, its images, and its properties that are
  shared with other peers.
\<close>

theorem server_accepts_client:
  assumes "scheme_ok cr" "e_verify env = crypto_verify cr" "sps_challenge this = Some nonce"
    and "\<forall>v\<in>set (hm_values (views (st_map st))).
      sps_public_key v \<noteq> keypair_public_key cr (bk_keypair bk)"
    and "peer_ok (sps_peer this)" "p_scratch (sps_peer this) = []"
    and "\<forall>e\<in>set (greeting (connect_body cr bk nonce) this st). encodable (e_codec env) e"
    and "locals_keyed bk" "props_ok (bk_props bk)" "sps_objects this = []" "sps_images this = []"
  shows "on_challenge cr c (ChallengeBody nonce) s bk =
      (case peer_send c (Connect (connect_body cr bk nonce)) (cs_peer s) of
         (False, p) \<Rightarrow> (Some CSendFailed, s\<lparr>cs_peer := p\<rparr>)
       | (True, p) \<Rightarrow> (None, s\<lparr>cs_peer := p, cs_authenticated := True\<rparr>)) \<and>
    (\<exists>this' st'. on_connect env (connect_body cr bk nonce) this st = (None, this', st') \<and>
       copies bk this' \<and> sps_public_key this' = keypair_public_key cr (bk_keypair bk))"
proof -
  let ?b = "connect_body cr bk nonce"
  have v: "e_verify env (cb_public_key ?b) nonce (cb_signature ?b)"
    using signed_challenge [OF assms(1)] assms(2) by simp
  have k: "\<forall>v\<in>set (hm_values (views (st_map st))). sps_public_key v \<noteq> cb_public_key ?b"
    using assms(4) by simp
  obtain this' st' where out: "on_connect env ?b this st = (None, this', st')"
    and f: "view this' = filed ?b this st"
    using on_connect_runs [OF assms(3) v k assms(5-7)] by blast
  have "copies bk (view this')"
    unfolding f by (rule filed_copies [OF assms(8-11)])
  then have "copies bk this'" by (simp add: copies_def)
  moreover have "sps_public_key this' = keypair_public_key cr (bk_keypair bk)"
    using f [THEN arg_cong [where f = sps_public_key]]
    by (cases "add_objects (cb_objects ?b) (new_peer ?b this) st")
      (auto simp: filed_def new_peer_def add_images_keep dest: add_objects_keep)
  ultimately show ?thesis using out by (simp add: on_challenge_sends)
qed

lemma demo_scheme: "scheme_ok demo_crypto"
  by (auto simp: scheme_ok_def demo_crypto_def min_def)

definition demo_server_env :: Env where
  "demo_server_env = demo_env\<lparr>e_verify := crypto_verify demo_crypto\<rparr>"

lemma demo_session_ready: "peer_ok (cs_peer demo_session) \<and> p_scratch (cs_peer demo_session) = []"
proof -
  let ?hello = "Hello (HelloBody VERSION)"
  obtain ok p where h: "peer_send (e_codec demo_env) ?hello (peer_new client_plain) = (ok, p)"
    by fastforce
  then have "cs_peer demo_session = p"
    by (simp add: demo_session_def session_start_def peer_hello_def)
  with peer_send_encodable [OF _ _ demo_encodable h] show ?thesis by simp
qed

lemma demo_session_sends: "\<exists>p. peer_send (e_codec demo_env) e (cs_peer demo_session) = (True, p)"
proof -
  obtain ok p where s: "peer_send (e_codec demo_env) e (cs_peer demo_session) = (ok, p)" by fastforce
  have "ok"
    using peer_send_encodable [OF conjunct1 [OF demo_session_ready] conjunct2 [OF demo_session_ready]
        demo_encodable s] by simp
  with s show ?thesis by simp
qed

theorem server_accepts_client_witness:
  "(\<exists>p. on_challenge demo_crypto (e_codec demo_env) (ChallengeBody (replicate 32 0)) demo_session
        demo_backend = (None, demo_session\<lparr>cs_peer := p, cs_authenticated := True\<rparr>)) \<and>
   (\<exists>this' st'. on_connect demo_server_env
        (connect_body demo_crypto demo_backend (replicate 32 0)) demo_guest demo_hosted =
        (None, this', st') \<and> copies demo_backend this' \<and>
        sps_public_key this' = keypair_public_key demo_crypto (bk_keypair demo_backend))"
proof -
  have v: "e_verify demo_server_env = crypto_verify demo_crypto"
    by (simp add: demo_server_env_def)
  have ch: "sps_challenge demo_guest = Some (replicate 32 0)"
    by (simp add: demo_guest_def)
  have k: "\<forall>v\<in>set (hm_values (views (st_map demo_hosted))).
      sps_public_key v \<noteq> keypair_public_key demo_crypto (bk_keypair demo_backend)"
    by (simp add: demo_hosted_def demo_host_def hm_values_def keypair_public_key_def demo_crypto_def
        derive_keypair_def str_bytes_def numeral_eq_Suc)
  have p: "peer_ok (sps_peer demo_guest)" "p_scratch (sps_peer demo_guest) = []"
    "sps_objects demo_guest = []" "sps_images demo_guest = []"
    by (simp_all add: demo_guest_def server_peer_new_def)
  have e: "\<forall>e\<in>set (greeting (connect_body demo_crypto demo_backend (replicate 32 0)) demo_guest
      demo_hosted). encodable (e_codec demo_server_env) e"
    by (simp add: demo_server_env_def demo_encodable)
  have l: "locals_keyed demo_backend" "props_ok (bk_props demo_backend)"
    by (auto simp: locals_keyed_def props_ok_def hm_get_def hm_wf_def split: if_splits)
  obtain p where send: "peer_send (e_codec demo_env) (Connect (connect_body demo_crypto demo_backend
      (replicate 32 0))) (cs_peer demo_session) = (True, p)"
    using demo_session_sends by blast
  have "on_challenge demo_crypto (e_codec demo_env) (ChallengeBody (replicate 32 0)) demo_session
      demo_backend = (None, demo_session\<lparr>cs_peer := p, cs_authenticated := True\<rparr>)"
    using server_accepts_client [OF demo_scheme v ch k p(1, 2) e l p(3, 4),
        where c = "e_codec demo_env" and s = demo_session] send by simp
  with server_accepts_client [OF demo_scheme v ch k p(1, 2) e l p(3, 4)] show ?thesis by blast
qed

end
