(* ===== verification/BackendInv.thy ===== *)
theory BackendInv
  imports Backend
begin

section \<open>What every operation of the backend keeps\<close>

text \<open>
  \<open>backend_ok\<close> is the invariant of the state of a backend: objects and images are filed under
  their own identifiers, which are marked as used; what is pending is consistent
  with what there is. Each operation keeps it, whether or not its database statements fail.
  \<open>allocated\<close> are the identifiers that \<open>new_id\<close> will not hand out.
\<close>

definition allocated :: "Backend \<Rightarrow> Id \<Rightarrow> bool" where
  "allocated b i \<longleftrightarrow> id_is_zero i \<or> id_get i \<in> set (bk_used_ids b)"

definition objects_ok :: "Backend \<Rightarrow> bool" where
  "objects_ok b \<longleftrightarrow>
     hm_wf (bk_objects b) \<and>
     (\<forall>i ob. hm_get (bk_objects b) i = Some ob \<longrightarrow> lo_id ob = i \<and> props_ok (lo_props ob)) \<and>
     distinct (bk_objects_changed b) \<and>
     (\<forall>i\<in>set (bk_objects_added b). hm_get (bk_objects b) i \<noteq> None) \<and>
     (\<forall>i\<in>set (bk_objects_removed b). hm_get (bk_objects b) i = None) \<and>
     (\<forall>i\<in>set (hm_keys (bk_objects b)) \<union> set (bk_objects_removed b). allocated b i)"

definition images_ok :: "Backend \<Rightarrow> bool" where
  "images_ok b \<longleftrightarrow>
     hm_wf (bk_images b) \<and>
     (\<forall>i img. hm_get (bk_images b) i = Some img \<longrightarrow> li_id img = i) \<and>
     (\<forall>i\<in>set (bk_images_added b). hm_get (bk_images b) i \<noteq> None) \<and>
     (\<forall>i\<in>set (bk_images_removed b). hm_get (bk_images b) i = None) \<and>
     (\<forall>i\<in>set (hm_keys (bk_images b)) \<union> set (bk_images_removed b). allocated b i)"

definition own_props_ok :: "Backend \<Rightarrow> bool" where
  "own_props_ok b \<longleftrightarrow> props_ok (bk_props b) \<and> (\<forall>key\<in>set (bk_props_changed b). key_is_remote key)"

definition backend_ok :: "Backend \<Rightarrow> bool" where
  "backend_ok b \<longleftrightarrow> objects_ok b \<and> images_ok b \<and> own_props_ok b"

subsection \<open>Operations that do not touch what is shared\<close>

definition shared :: "Backend \<Rightarrow> _" where
  "shared b =
     (bk_objects b, bk_objects_changed b, bk_objects_added b, bk_objects_removed b, bk_images b,
      bk_images_added b, bk_images_removed b, bk_props b, bk_props_changed b, bk_used_ids b)"

named_theorems sharing \<open>operations that leave what is shared as it is\<close>

lemma shared_simps [sharing]:
  "shared (broadcast e b) = shared b" "shared (notify_client b) = shared b"
  "shared (set_mumblelink_transform tr b) = shared b" "shared (restart_mumblelink b) = shared b"
  "shared (restart_client b) = shared b" "shared (set_hidden i hidden b) = shared b"
  "shared (store_mumble_object i b) = shared b" "shared (cache_store r bs b) = shared b"
  "shared (cache_remove r b) = shared b" "shared (b\<lparr>bk_database := db\<rparr>) = shared b"
  "shared (b\<lparr>bk_ids := ids\<rparr>) = shared b" "shared (b\<lparr>bk_keypair := kp\<rparr>) = shared b"
  "shared (b\<lparr>bk_peers := ps\<rparr>) = shared b" "shared (b\<lparr>bk_client_notify := n\<rparr>) = shared b"
  by (simp_all add: shared_def broadcast_def notify_client_def set_mumblelink_transform_def
      restart_mumblelink_def restart_client_def set_hidden_def store_mumble_object_def
      cache_store_def cache_remove_def)

lemma notify_simps [simp]:
  "bk_client_notify (broadcast e b) = bk_client_notify b" "bk_client_notify (notify_client b)"
  "bk_client_notify (set_mumblelink_transform tr b) = bk_client_notify b"
  "bk_client_notify (set_hidden i hidden b) = bk_client_notify b"
  "bk_client_notify (store_mumble_object i b) = bk_client_notify b"
  "bk_client_notify (restart_client b) = bk_client_notify b"
  "bk_client_notify (restart_mumblelink b) = bk_client_notify b"
  "bk_client_notify (cache_store r bs b) = bk_client_notify b"
  by (simp_all add: broadcast_def notify_client_def set_mumblelink_transform_def set_hidden_def
      store_mumble_object_def restart_client_def restart_mumblelink_def cache_store_def)

lemma sharedD:
  assumes "shared b = shared b'"
  shows "bk_objects b = bk_objects b'" "bk_objects_changed b = bk_objects_changed b'"
    "bk_objects_added b = bk_objects_added b'" "bk_objects_removed b = bk_objects_removed b'"
    "bk_images b = bk_images b'" "bk_images_added b = bk_images_added b'"
    "bk_images_removed b = bk_images_removed b'" "bk_props b = bk_props b'"
    "bk_props_changed b = bk_props_changed b'" "bk_used_ids b = bk_used_ids b'"
  using assms by (simp_all add: shared_def)

lemma backend_ok_shared: "shared b = shared b' \<Longrightarrow> backend_ok b = backend_ok b'"
  by (simp add: backend_ok_def objects_ok_def images_ok_def own_props_ok_def allocated_def
      sharedD [of b b'])

lemma shared_with_db: "with_db f b = (e, b') \<Longrightarrow> shared b' = shared b"
  by (auto simp: with_db_def sharing split: prod.splits)

lemma shared_fold_broadcast: "shared (fold (\<lambda>(key, v). broadcast (ev key v)) kvs b) = shared b"
  by (induction kvs arbitrary: b) (auto simp: sharing)

lemma shared_save_props: "save_props d i kvs b = (e, b') \<Longrightarrow> shared b' = shared b"
proof (induction d i kvs b rule: save_props.induct)
  case (2 d i key v kvs b)
  then show ?case by (auto dest!: shared_with_db split: prod.splits option.splits)
qed simp

lemma shared_object_update_link: "shared (object_update_link i kvs b) = shared b"
proof (induction i kvs b rule: object_update_link.induct)
  case (2 i key v kvs b)
  then show ?case by (simp add: sharing Let_def split: option.split)
qed simp

lemma shared_update_prop [sharing]:
  "shared (update_prop key v b) = shared (b\<lparr>bk_props := props_put key v (bk_props b),
     bk_props_changed := if key_is_remote key then hs_insert key (bk_props_changed b)
       else bk_props_changed b\<rparr>)"
  by (simp add: update_prop_def notify_client_def shared_def)

subsection \<open>Primitive steps\<close>

text \<open>Every operation is a sequence of the following steps on what is shared.\<close>

inductive local_step :: "Backend \<Rightarrow> Backend \<Rightarrow> bool" where
  quiet: "shared b' = shared b \<Longrightarrow> local_step b b'"
| touch: "hm_get (bk_objects b) i = Some ob \<Longrightarrow>
    shared b' = shared (b\<lparr>bk_objects := hm_insert i (ob\<lparr>lo_props := props_put key v (lo_props ob),
        lo_changed := hs_insert key (lo_changed ob)\<rparr>) (bk_objects b),
      bk_objects_changed := hs_insert i (bk_objects_changed b)\<rparr>) \<Longrightarrow> local_step b b'"
| own: "shared b' = shared (update_prop key v b) \<Longrightarrow> local_step b b'"
| reserve: "shared b' = shared (b\<lparr>bk_used_ids := hs_insert n (bk_used_ids b)\<rparr>) \<Longrightarrow> local_step b b'"
| add: "hm_get (bk_objects b) (lo_id ob) = None \<Longrightarrow> lo_id ob \<notin> set (bk_objects_removed b) \<Longrightarrow>
    allocated b (lo_id ob) \<Longrightarrow> props_ok (lo_props ob) \<Longrightarrow>
    shared b' = shared (b\<lparr>bk_objects := hm_insert (lo_id ob) ob (bk_objects b),
      bk_objects_added := hs_insert (lo_id ob) (bk_objects_added b)\<rparr>) \<Longrightarrow> local_step b b'"
| remove: "allocated b i \<Longrightarrow>
    shared b' = shared (b\<lparr>bk_objects := hm_remove i (bk_objects b),
      bk_objects_changed := hs_remove i (bk_objects_changed b),
      bk_objects_added := hs_remove i (bk_objects_added b),
      bk_objects_removed := hs_insert i (bk_objects_removed b)\<rparr>) \<Longrightarrow> local_step b b'"
| add_image: "hm_get (bk_images b) (li_id img) = None \<Longrightarrow> li_id img \<notin> set (bk_images_removed b) \<Longrightarrow>
    allocated b (li_id img) \<Longrightarrow>
    shared b' = shared (b\<lparr>bk_images := hm_insert (li_id img) img (bk_images b),
      bk_images_added := hs_insert (li_id img) (bk_images_added b)\<rparr>) \<Longrightarrow> local_step b b'"
| remove_image: "allocated b i \<Longrightarrow>
    shared b' = shared (b\<lparr>bk_images := hm_remove i (bk_images b),
      bk_images_added := hs_remove i (bk_images_added b),
      bk_images_removed := hs_insert i (bk_images_removed b)\<rparr>) \<Longrightarrow> local_step b b'"

lemma backend_ok_touch:
  assumes "hm_get (bk_objects b) i = Some ob" "backend_ok b"
  shows "backend_ok (b\<lparr>bk_objects := hm_insert i (ob\<lparr>lo_props := props_put key v (lo_props ob),
        lo_changed := hs_insert key (lo_changed ob)\<rparr>) (bk_objects b),
      bk_objects_changed := hs_insert i (bk_objects_changed b)\<rparr>)"
proof -
  have "i \<notin> set (bk_objects_removed b)" "allocated b i"
    using assms by (auto simp: backend_ok_def objects_ok_def hm_keys_iff)
  with assms show ?thesis
    by (auto simp: backend_ok_def objects_ok_def images_ok_def own_props_ok_def allocated_def
        hm_simps props.wf_put split: if_splits)
qed

lemma local_step_ok: "local_step b b' \<Longrightarrow> backend_ok b \<Longrightarrow> backend_ok b'"
proof (induction rule: local_step.induct)
  case (touch b i ob b' key v)
  then show ?case using backend_ok_touch backend_ok_shared by blast
next
  case (own b' key v b)
  have "backend_ok (b\<lparr>bk_props := props_put key v (bk_props b), bk_props_changed :=
      if key_is_remote key then hs_insert key (bk_props_changed b) else bk_props_changed b\<rparr>)"
    using own.prems
    by (auto simp: backend_ok_def objects_ok_def images_ok_def own_props_ok_def allocated_def props.wf_put)
  with own show ?case using backend_ok_shared shared_update_prop by metis
next
  case (reserve b' n b)
  then have "backend_ok (b\<lparr>bk_used_ids := hs_insert n (bk_used_ids b)\<rparr>)"
    by (auto simp: backend_ok_def objects_ok_def images_ok_def own_props_ok_def allocated_def)
  with reserve show ?case using backend_ok_shared by blast
next
  case (add b ob b')
  then have "backend_ok (b\<lparr>bk_objects := hm_insert (lo_id ob) ob (bk_objects b),
      bk_objects_added := hs_insert (lo_id ob) (bk_objects_added b)\<rparr>)"
    by (auto simp: backend_ok_def objects_ok_def images_ok_def own_props_ok_def allocated_def hm_simps
        split: if_splits)
  with add show ?case using backend_ok_shared by blast
next
  case (remove b i b')
  then have "backend_ok (b\<lparr>bk_objects := hm_remove i (bk_objects b),
      bk_objects_changed := hs_remove i (bk_objects_changed b),
      bk_objects_added := hs_remove i (bk_objects_added b),
      bk_objects_removed := hs_insert i (bk_objects_removed b)\<rparr>)"
    by (auto simp: backend_ok_def objects_ok_def images_ok_def own_props_ok_def allocated_def hm_simps
        split: if_splits)
  with remove show ?case using backend_ok_shared by blast
next
  case (add_image b img b')
  then have "backend_ok (b\<lparr>bk_images := hm_insert (li_id img) img (bk_images b),
      bk_images_added := hs_insert (li_id img) (bk_images_added b)\<rparr>)"
    by (auto simp: backend_ok_def objects_ok_def images_ok_def own_props_ok_def allocated_def hm_simps
        split: if_splits)
  with add_image show ?case using backend_ok_shared by blast
next
  case (remove_image b i b')
  then have "backend_ok (b\<lparr>bk_images := hm_remove i (bk_images b),
      bk_images_added := hs_remove i (bk_images_added b),
      bk_images_removed := hs_insert i (bk_images_removed b)\<rparr>)"
    by (auto simp: backend_ok_def objects_ok_def images_ok_def own_props_ok_def allocated_def hm_simps
        split: if_splits)
  with remove_image show ?case using backend_ok_shared by blast
qed (use backend_ok_shared in blast)

subsection \<open>The operations as sequences of steps\<close>

lemmas step1 = r_into_rtranclp [where r = local_step]

lemma steps_quiet: "shared b' = shared b \<Longrightarrow> local_step\<^sup>*\<^sup>* b b'"
  by (intro step1 quiet)

lemma steps_ok: "local_step\<^sup>*\<^sup>* b b' \<Longrightarrow> backend_ok b \<Longrightarrow> backend_ok b'"
  by (induction rule: rtranclp_induct) (auto intro: local_step_ok)

lemma hm_insert_insert: "hm_insert k v (hm_insert k u m) = hm_insert k v m"
  by (induction m) (auto simp: hm_insert_def)

lemma hs_insert_insert [simp]: "hs_insert x (hs_insert x xs) = hs_insert x xs"
  by (simp add: hs_insert_def)

lemma touch_all:
  "hm_get (bk_objects b) i = Some ob \<Longrightarrow> kvs \<noteq> [] \<Longrightarrow>
     shared b' = shared (b\<lparr>bk_objects := hm_insert i (set_object_props kvs ob) (bk_objects b),
       bk_objects_changed := hs_insert i (bk_objects_changed b)\<rparr>) \<Longrightarrow> local_step\<^sup>*\<^sup>* b b'"
proof (induction kvs arbitrary: b ob)
  case (Cons x kvs)
  obtain key v where x: "x = (key, v)" by (cases x)
  let ?ob = "ob\<lparr>lo_props := props_put key v (lo_props ob), lo_changed := hs_insert key (lo_changed ob)\<rparr>"
  let ?b = "b\<lparr>bk_objects := hm_insert i ?ob (bk_objects b),
    bk_objects_changed := hs_insert i (bk_objects_changed b)\<rparr>"
  have t: "local_step\<^sup>*\<^sup>* b ?b" by (intro step1 touch [OF Cons.prems(1)]) simp
  have "local_step\<^sup>*\<^sup>* ?b b'"
  proof (cases "kvs = []")
    case True
    with Cons.prems(3) x show ?thesis by (intro steps_quiet) simp
  next
    case False
    show ?thesis
      using Cons.prems(3) x
      by (intro Cons.IH [OF _ False, of ?b ?ob]) (simp_all add: hm_get_insert hm_insert_insert)
  qed
  with t show ?case by (rule rtranclp_trans)
qed simp

lemma object_update_steps: "local_step\<^sup>*\<^sup>* b (object_update i kvs b)"
proof -
  let ?b = "object_update_link i kvs b"
  have "local_step\<^sup>*\<^sup>* ?b (object_update i kvs b)"
  proof (cases "hm_get (bk_objects ?b) i")
    case None
    then show ?thesis by (simp add: object_update_def)
  next
    case (Some ob)
    show ?thesis
    proof (cases "kvs = []")
      case True
      with Some show ?thesis by (simp add: object_update_def hm_insert_same)
    next
      case False
      with Some show ?thesis
        by (intro touch_all [OF Some False]) (simp add: object_update_def sharing Let_def)
    qed
  qed
  moreover have "local_step\<^sup>*\<^sup>* b ?b" by (intro steps_quiet shared_object_update_link)
  ultimately show ?thesis by (metis rtranclp_trans)
qed

lemma own_then:
  "local_step\<^sup>*\<^sup>* (update_prop key v b1) b' \<Longrightarrow> shared b1 = shared b \<Longrightarrow> local_step\<^sup>*\<^sup>* b b'"
  by (metis converse_rtranclp_into_rtranclp own quiet)

lemma updates_loop_Cons:
  "\<exists>fl1 b1. shared b1 = shared b \<and> bk_client_notify b1 = bk_client_notify b \<and>
     (updates_loop cr ((key, v) # kvs) fl b = updates_loop cr kvs fl1 b1 \<or>
      updates_loop cr ((key, v) # kvs) fl b = updates_loop cr kvs fl1 (update_prop key v b1))"
proof -
  consider "key = KEY_MUMBLE_OBJECT" | "key = KEY_PEER_SECRET"
    | "key \<noteq> KEY_MUMBLE_OBJECT" "key \<noteq> KEY_PEER_SECRET" by blast
  then show ?thesis
  proof cases
    case 1
    let ?b = "store_mumble_object (as_id v) b"
    have "shared (set_mumblelink_transform (updates_transform (as_id v) ?b) ?b) = shared b \<and>
        bk_client_notify (set_mumblelink_transform (updates_transform (as_id v) ?b) ?b) = bk_client_notify b"
      by (simp add: sharing)
    moreover have "updates_loop cr ((key, v) # kvs) fl b = updates_loop cr kvs fl
        (update_prop key v (set_mumblelink_transform (updates_transform (as_id v) ?b) ?b))"
      using 1 by (simp add: Let_def)
    ultimately show ?thesis by blast
  next
    case 2
    have "shared (b\<lparr>bk_keypair := derive_keypair cr (str_bytes (as_str v))\<rparr>) = shared b"
      by (simp add: sharing)
    with 2 show ?thesis by (fastforce simp: Let_def)
  qed (force simp: Let_def)
qed

lemma updates_loop_steps:
  "updates_loop cr kvs fl b = (fl', b') \<Longrightarrow> local_step\<^sup>*\<^sup>* b b'"
proof (induction kvs arbitrary: fl b)
  case (Cons x kvs)
  obtain key v where x: "x = (key, v)" by (cases x)
  from updates_loop_Cons [of b cr key v kvs fl] Cons.prems x
  obtain fl1 b1 where b1: "shared b1 = shared b" and
    "updates_loop cr kvs fl1 b1 = (fl', b') \<or> updates_loop cr kvs fl1 (update_prop key v b1) = (fl', b')"
    by metis
  then have "local_step\<^sup>*\<^sup>* b1 b' \<or> local_step\<^sup>*\<^sup>* (update_prop key v b1) b'"
    using Cons.IH by blast
  with own_then [OF _ b1] steps_quiet [OF b1] show ?case by (meson rtranclp_trans)
qed simp

lemma updates_steps: "local_step\<^sup>*\<^sup>* b (updates cr channel kvs b)"
proof -
  obtain fl b1 where l: "updates_loop cr kvs
      \<lparr>uf_mumblelink = False, uf_client = False, uf_public_key = None\<rparr> b = (fl, b1)" by fastforce
  have "shared (updates cr channel kvs b) = shared b1"
    by (simp add: updates_def l Let_def sharing shared_fold_broadcast split: option.split)
  then show ?thesis
    using updates_loop_steps [OF l] by (metis rtranclp.rtrancl_into_rtrancl quiet)
qed

lemma new_id_loop_fresh:
  "new_id_loop used ids = (Some n, ids') \<Longrightarrow> n \<notin> set used \<and> n \<noteq> 0"
proof (induction used ids rule: new_id_loop.induct)
  case (1 used ids)
  obtain r ids1 where n: "aids_next ids = (r, ids1)" by fastforce
  show ?case
  proof (cases r)
    case None
    with 1 n show ?thesis by (simp add: new_id_loop.simps [of used ids])
  next
    case (Some m)
    with n have "m \<noteq> 0"
      by (auto simp: aids_next_def Let_def non_zero_def split: if_splits)
    with 1 n Some show ?thesis
      by (cases "m \<in> set used") (auto simp: new_id_loop.simps [of used ids])
  qed
qed

lemma new_id_shared:
  assumes "new_id b = (r, b1)"
  shows "case r of None \<Rightarrow> shared b1 = shared b
    | Some i \<Rightarrow> \<not> allocated b i \<and> allocated b1 i \<and>
        shared b1 = shared (b\<lparr>bk_used_ids := hs_insert (id_get i) (bk_used_ids b)\<rparr>)"
proof -
  obtain r1 ids where l: "new_id_loop (bk_used_ids b) (bk_ids b) = (r1, ids)" by fastforce
  show ?thesis
  proof (cases r1)
    case None
    with assms l show ?thesis by (auto simp: new_id_def sharing)
  next
    case (Some n)
    with assms l new_id_loop_fresh [OF l [unfolded Some]] show ?thesis
      by (auto simp: new_id_def allocated_def id_is_zero_def shared_def)
  qed
qed

lemma reserved_steps:
  assumes "new_id b = (r, b1)"
  shows "local_step\<^sup>*\<^sup>* b b1"
  using new_id_shared [OF assms] by (cases r) (auto intro: r_into_rtranclp quiet reserve)

lemma reserved_ok: "new_id b = (r, b1) \<Longrightarrow> backend_ok b \<Longrightarrow> backend_ok b1"
  by (auto dest!: reserved_steps steps_ok)

lemma steps_then_quiet: "local_step\<^sup>*\<^sup>* b b1 \<Longrightarrow> shared b' = shared b1 \<Longrightarrow> local_step\<^sup>*\<^sup>* b b'"
  by (metis rtranclp.rtrancl_into_rtrancl quiet)

lemma unallocated:
  assumes "backend_ok b" "\<not> allocated b i"
  shows "hm_get (bk_objects b) i = None" "i \<notin> set (bk_objects_removed b)"
    "hm_get (bk_images b) i = None" "i \<notin> set (bk_images_removed b)"
  using assms by (auto simp: backend_ok_def objects_ok_def images_ok_def hm_get_None_iff)

lemma create_object_steps:
  assumes "backend_ok b" "props_ok props"
  shows "local_step\<^sup>*\<^sup>* b (snd (create_object d ty props b))"
proof -
  obtain r b1 where n: "new_id b = (r, b1)" by fastforce
  note s1 = reserved_steps [OF n]
  show ?thesis
  proof (cases r)
    case None
    with n s1 show ?thesis by (simp add: create_object_def)
  next
    case (Some i)
    obtain e b2 where w: "with_db (db_insert_object i ty) b1 = (e, b2)" by fastforce
    have i: "\<not> allocated b i" "allocated b1 i"
      and b1: "shared b1 = shared (b\<lparr>bk_used_ids := hs_insert (id_get i) (bk_used_ids b)\<rparr>)"
      using new_id_shared [OF n] Some by auto
    have b2: "shared b2 = shared b1" by (rule shared_with_db [OF w])
    show ?thesis
    proof (cases e)
      case (Some err)
      then show ?thesis
        using n w \<open>r = Some i\<close> steps_then_quiet [OF s1 b2] by (simp add: create_object_def)
    next
      case None
      define ps where "ps = (if is_global ty then props else props_put KEY_SORT (VBytes
          (case last_sort (bk_objects b2) of Some s \<Rightarrow> after s | None \<Rightarrow> id_to_vec i)) props)"
      define ob where "ob = \<lparr>lo_ty = ty, lo_id = i, lo_props = ps, lo_changed = []\<rparr>"
      define b3 where "b3 = b2\<lparr>bk_objects := hm_insert i ob (bk_objects b2),
          bk_objects_added := hs_insert i (bk_objects_added b2)\<rparr>"
      obtain e' b4 where sp: "save_props d i ps b3 = (e', b4)" by fastforce
      have "snd (create_object d ty props b) = (if e' = None then notify_client b4 else b4)"
        using n w \<open>r = Some i\<close> None sp
        by (simp add: create_object_def Let_def split: option.split flip: ps_def ob_def b3_def)
      then have out: "shared (snd (create_object d ty props b)) = shared b3"
        using shared_save_props [OF sp] by (simp add: sharing)
      have "props_ok ps" using assms(2) by (simp add: ps_def props.wf_put)
      moreover have "shared b2 = shared (b\<lparr>bk_used_ids := hs_insert (id_get i) (bk_used_ids b)\<rparr>)"
        using b1 b2 by simp
      note f = sharedD [OF this]
      ultimately have "local_step b2 b3"
        using unallocated [OF assms(1) i(1)]
        by (intro add [where ob = ob]) (simp_all add: ob_def b3_def allocated_def f)
      with s1 b2 out show ?thesis
        by (meson quiet rtranclp.rtrancl_into_rtrancl)
    qed
  qed
qed

lemma insert_image_steps:
  assumes "backend_ok b"
  shows "local_step\<^sup>*\<^sup>* b (snd (insert_image content_type role width height bytes b))"
proof -
  obtain r b1 where n: "new_id b = (r, b1)" by fastforce
  note s1 = reserved_steps [OF n]
  show ?thesis
  proof (cases r)
    case None
    with n s1 show ?thesis by (simp add: insert_image_def)
  next
    case (Some i)
    obtain e b2 where w: "with_db (db_save_image i content_type role width height bytes) b1 = (e, b2)"
      by fastforce
    have i: "\<not> allocated b i"
      and b1: "shared b1 = shared (b\<lparr>bk_used_ids := hs_insert (id_get i) (bk_used_ids b)\<rparr>)"
      using new_id_shared [OF n] Some by auto
    have b2: "shared b2 = shared b1" by (rule shared_with_db [OF w])
    show ?thesis
    proof (cases e)
      case (Some err)
      then show ?thesis
        using n w \<open>r = Some i\<close> steps_then_quiet [OF s1 b2] by (simp add: insert_image_def)
    next
      case None
      define img where "img = \<lparr>li_id = i, li_content_type = content_type, li_role = role,
          li_width = width, li_height = height, li_bytes = bytes\<rparr>"
      let ?b3 = "b2\<lparr>bk_images := hm_insert i img (bk_images b2),
          bk_images_added := hs_insert i (bk_images_added b2)\<rparr>"
      have out: "shared (snd (insert_image content_type role width height bytes b)) = shared ?b3"
        using n w \<open>r = Some i\<close> None by (simp add: insert_image_def Let_def sharing flip: img_def)
      have "shared b2 = shared (b\<lparr>bk_used_ids := hs_insert (id_get i) (bk_used_ids b)\<rparr>)"
        using b1 b2 by simp
      note f = sharedD [OF this]
      have "local_step b2 (snd (insert_image content_type role width height bytes b))"
        using unallocated [OF assms(1) i(1)] out
        by (intro add_image [where img = img]) (simp_all add: img_def allocated_def f)
      with s1 b2 show ?thesis by (meson quiet rtranclp.rtrancl_into_rtrancl)
    qed
  qed
qed

lemma props_remove_put: "snd (props_remove key p) = props_put key VEmpty p"
  by (simp add: props_remove_def props_put_eq hm_remove_absent split: option.split)

lemma local_allocated: "local_step b b' \<Longrightarrow> allocated b i \<Longrightarrow> allocated b' i"
  by (induction rule: local_step.induct)
    (auto simp: allocated_def shared_def sharedD(10) [OF shared_update_prop])

lemma remove_object_steps:
  assumes "allocated b i"
  shows "local_step\<^sup>*\<^sup>* b (snd (remove_object cr i b))"
proof -
  define b1 where "b1 = (if bk_mumble_object b = i
      then set_mumblelink_transform None (store_mumble_object Id_ZERO b) else b)"
  have b1: "shared b1 = shared b" by (simp add: b1_def sharing)
  obtain e b2 where w: "with_db (db_remove_object i) b1 = (e, b2)" by fastforce
  have b2: "shared b2 = shared b" using shared_with_db [OF w] b1 by simp
  define is_room where "is_room \<longleftrightarrow> as_stable_id (props_get (bk_props b2) KEY_ROOM) =
      StableId_new (keypair_public_key cr (bk_keypair b2)) i"
  obtain e' b3 where d: "(if is_room then with_db (db_remove_property Id_ZERO KEY_ROOM) b2
      else (None, b2)) = (e', b3)" by fastforce
  have b3: "shared b3 = shared b"
    using d b2 by (auto dest: shared_with_db split: if_splits)
  define b4 where "b4 = (if is_room then update_prop KEY_ROOM VEmpty b3 else b3)"
  have s4: "local_step\<^sup>*\<^sup>* b b4"
    using own_then [OF rtranclp.rtrancl_refl b3] steps_quiet [OF b3] by (simp add: b4_def)
  let ?b5 = "b4\<lparr>bk_objects := hm_remove i (bk_objects b4),
      bk_objects_changed := hs_remove i (bk_objects_changed b4),
      bk_objects_added := hs_remove i (bk_objects_added b4),
      bk_objects_removed := hs_insert i (bk_objects_removed b4)\<rparr>"
  have a4: "allocated b4 i"
    using s4 assms by (induction rule: rtranclp_induct) (auto intro: local_allocated)
  show ?thesis
  proof (cases "e = None \<and> e' = None")
    case True
    have "shared (snd (remove_object cr i b)) = shared ?b5"
    proof (cases is_room)
      case False
      with True w d False [unfolded is_room_def] show ?thesis
        by (simp add: remove_object_def Let_def sharing b4_def flip: b1_def)
    next
      case room: True
      have "key_is_remote KEY_ROOM" by (simp add: key_is_remote_def)
      with True w d room show ?thesis
        by (simp add: remove_object_def Let_def b4_def update_prop_def notify_client_def shared_def
            props_remove_put flip: b1_def is_room_def)
    qed
    then have "local_step b4 (snd (remove_object cr i b))" by (rule remove [OF a4])
    with s4 show ?thesis by (rule rtranclp.rtrancl_into_rtrancl)
  next
    case False
    then have "snd (remove_object cr i b) = (if e = None then b3 else b2)"
      using w d by (auto simp: remove_object_def Let_def split: option.split simp flip: b1_def is_room_def)
    then show ?thesis using b2 b3 by (intro steps_quiet) simp
  qed
qed

lemma clear_image_keys_steps:
  "clear_image_keys img i keys any b = (r, b') \<Longrightarrow> backend_ok b \<Longrightarrow> local_step\<^sup>*\<^sup>* b b'"
proof (induction keys arbitrary: any b)
  case (Cons key ks)
  show ?case
  proof (cases "hm_get (bk_objects b) i")
    case None
    with Cons show ?thesis by simp
  next
    case (Some ob)
    show ?thesis
    proof (cases "as_id (props_get (lo_props ob) key) = img")
      case False
      with Cons Some show ?thesis by simp
    next
      case True
      have i: "lo_id ob = i" using Some Cons.prems(2) by (simp add: backend_ok_def objects_ok_def)
      let ?ob = "ob\<lparr>lo_props := snd (props_remove key (lo_props ob)),
        lo_changed := hs_insert key (lo_changed ob)\<rparr>"
      let ?b1 = "b\<lparr>bk_objects := hm_insert i ?ob (bk_objects b),
        bk_objects_changed := hs_insert i (bk_objects_changed b)\<rparr>"
      have s1: "local_step b ?b1" by (rule touch [OF Some]) (simp add: props_remove_put)
      obtain e b2 where w: "with_db (db_remove_property i key) ?b1 = (e, b2)" by fastforce
      have s2: "local_step ?b1 b2" using shared_with_db [OF w] by (rule quiet)
      let ?b3 = "broadcast (BRemoteUpdate (RObjectUpdated CHANNEL_NONE (rid_local i) key VEmpty)) b2"
      have s3: "local_step b2 ?b3" by (intro quiet) (simp add: sharing)
      have steps3: "local_step\<^sup>*\<^sup>* b ?b3"
        using s1 s2 s3 by (meson r_into_rtranclp rtranclp.rtrancl_into_rtrancl)
      show ?thesis
      proof (cases e)
        case None
        have run: "clear_image_keys img i ks True ?b3 = (r, b')"
          using Cons.prems(1) Some True i w None by (simp add: Let_def)
        have "local_step\<^sup>*\<^sup>* ?b3 b'"
          by (rule Cons.IH [OF run steps_ok [OF steps3 Cons.prems(2)]])
        with steps3 show ?thesis by (rule rtranclp_trans)
      next
        case (Some err)
        then have "b' = b2" using Cons.prems(1) \<open>hm_get (bk_objects b) i = Some ob\<close> True i w
          by (simp add: Let_def)
        with s1 s2 show ?thesis by (meson r_into_rtranclp rtranclp.rtrancl_into_rtrancl)
      qed
    qed
  qed
qed simp

lemma clear_image_refs_steps:
  "clear_image_refs img is any b = (r, b') \<Longrightarrow> backend_ok b \<Longrightarrow> local_step\<^sup>*\<^sup>* b b'"
proof (induction "is" arbitrary: any b)
  case (Cons i "is")
  obtain r1 b1 where k: "clear_image_keys img i [KEY_IMAGE_ID, KEY_ROOM_BACKGROUND] any b = (r1, b1)"
    by fastforce
  have s1: "local_step\<^sup>*\<^sup>* b b1" by (rule clear_image_keys_steps [OF k Cons.prems(2)])
  show ?case
  proof (cases r1)
    case (Inl e)
    with Cons.prems(1) k s1 show ?thesis by simp
  next
    case (Inr any')
    with Cons.prems(1) k have "clear_image_refs img is any' b1 = (r, b')" by simp
    then have "local_step\<^sup>*\<^sup>* b1 b'" using Cons.IH steps_ok [OF s1 Cons.prems(2)] by blast
    with s1 show ?thesis by (rule rtranclp_trans)
  qed
qed simp

lemma remove_image_steps:
  assumes "backend_ok b" "allocated b i"
  shows "local_step\<^sup>*\<^sup>* b (snd (remove_image i b))"
proof -
  obtain e b1 where w: "with_db (db_remove_image i) b = (e, b1)" by fastforce
  have b1: "shared b1 = shared b" by (rule shared_with_db [OF w])
  show ?thesis
  proof (cases e)
    case (Some err)
    then show ?thesis using w b1 by (simp add: remove_image_def steps_quiet)
  next
    case None
    let ?b2 = "b1\<lparr>bk_images := hm_remove i (bk_images b1),
        bk_images_added := hs_remove i (bk_images_added b1),
        bk_images_removed := hs_insert i (bk_images_removed b1)\<rparr>"
    have "allocated b1 i" using assms(2) b1 by (simp add: allocated_def sharedD(10) [of b1 b])
    then have "local_step b1 (notify_client ?b2)" by (rule remove_image) (simp add: sharing)
    with b1 have s2: "local_step\<^sup>*\<^sup>* b (notify_client ?b2)"
      by (meson quiet r_into_rtranclp rtranclp.rtrancl_into_rtrancl)
    obtain r b3 where c: "clear_image_refs i (hm_keys (bk_objects (notify_client ?b2))) False
        (notify_client ?b2) = (r, b3)" by fastforce
    have s3: "local_step\<^sup>*\<^sup>* b b3"
      using s2 clear_image_refs_steps [OF c steps_ok [OF s2 assms(1)]] by (rule rtranclp_trans)
    have "snd (remove_image i b) = b3 \<or> snd (remove_image i b) = notify_client b3"
      using w None c by (cases r) (auto simp: remove_image_def Let_def)
    then show ?thesis using s3 steps_then_quiet [OF s3, of "notify_client b3"] by (auto simp: sharing)
  qed
qed

subsection \<open>The operations together\<close>

text \<open>
  What the web interface and the client may do to a backend. Only identifiers that have been
  handed out are removed: a removal of any other one would be sent to the server after a later
  creation under the same identifier.
\<close>

inductive backend_op :: "Crypto \<Rightarrow> Descriptive \<Rightarrow> Backend \<Rightarrow> Backend \<Rightarrow> bool" for cr d where
  op_object_update: "backend_op cr d b (object_update i kvs b)"
| op_updates: "backend_op cr d b (updates cr channel kvs b)"
| op_create_object: "props_ok props \<Longrightarrow> backend_op cr d b (snd (create_object d ty props b))"
| op_remove_object: "allocated b i \<Longrightarrow> backend_op cr d b (snd (remove_object cr i b))"
| op_insert_image: "backend_op cr d b (snd (insert_image content_type role width height bytes b))"
| op_remove_image: "allocated b i \<Longrightarrow> backend_op cr d b (snd (remove_image i b))"

lemma backend_op_steps: "backend_op cr d b b' \<Longrightarrow> backend_ok b \<Longrightarrow> local_step\<^sup>*\<^sup>* b b'"
  by (induction rule: backend_op.induct)
    (auto intro: object_update_steps updates_steps create_object_steps remove_object_steps
      insert_image_steps remove_image_steps)

text \<open>A backend made of a database satisfies the invariant.\<close>

lemma fold_insert_wf: "hm_wf m \<Longrightarrow> hm_wf (fold (\<lambda>x. hm_insert (k x) (f x)) xs m)"
  by (induction xs arbitrary: m) auto

lemma fold_insert_get:
  "hm_get (fold (\<lambda>x. hm_insert (k x) (f x)) xs m) i = Some v \<Longrightarrow>
     (\<exists>x\<in>set xs. k x = i \<and> f x = v) \<or> hm_get m i = Some v"
proof (induction xs arbitrary: m)
  case (Cons x xs)
  from Cons.IH [of "hm_insert (k x) (f x) m"] Cons.prems show ?case
    by (auto simp: hm_get_insert split: if_splits)
qed simp

lemma set_use_id: "set (use_id i used) = (if id_is_zero i then set used else insert (id_get i) (set used))"
  by (cases i) (auto simp: use_id_def non_zero_def id_is_zero_def)

lemma fold_use_id:
  "set used \<subseteq> set (fold (\<lambda>x. use_id (k x)) xs used) \<and>
   (\<forall>x\<in>set xs. id_is_zero (k x) \<or> id_get (k x) \<in> set (fold (\<lambda>x. use_id (k x)) xs used))"
proof (induction xs arbitrary: used)
  case (Cons x xs)
  from Cons.IH [of "use_id (k x) used"] show ?case by (auto simp: set_use_id split: if_splits)
qed simp

lemma load_object_ok: "lo_id (load_object d db i ty) = i \<and> props_ok (lo_props (load_object d db i ty))"
  by (simp add: load_object_def Let_def props_from_iter_def props.wf_put_all props.wf_put)

lemma backend_new_ok:
  assumes "backend_new cr d secret seed db = Inr b"
  shows "backend_ok b"
proof -
  let ?rows = "db_objects db"
  let ?used = "fold (\<lambda>row. use_id (fst row)) ?rows []"
  obtain db' where b: "bk_objects b = fold (\<lambda>row. hm_insert (fst row) (load_object d db (fst row) (snd row))) ?rows []"
    "bk_used_ids b = fold (\<lambda>row. use_id (ir_id row)) (db_images_with_data db') ?used"
    "bk_images b = fold (\<lambda>row. hm_insert (ir_id row) (load_image row)) (db_images_with_data db') []"
    "bk_objects_changed b = []" "bk_objects_added b = []" "bk_objects_removed b = []"
    "bk_images_added b = []" "bk_images_removed b = []" "bk_props_changed b = []"
    "props_ok (bk_props b)"
    using assms
    by (auto simp: backend_new_def Let_def case_prod_unfold props_from_iter_def props.wf_put_all
        props.wf_put split: option.splits if_splits)
  have a: "allocated b (fst row)" if "row \<in> set ?rows" for row
    using that fold_use_id [of "[]" fst ?rows] fold_use_id [of ?used ir_id "db_images_with_data db'"]
    unfolding allocated_def b(2) by fastforce
  have ai: "allocated b (ir_id row)" if "row \<in> set (db_images_with_data db')" for row
    using that fold_use_id [of ?used ir_id "db_images_with_data db'"]
    unfolding allocated_def b(2) by fastforce
  show ?thesis
    unfolding backend_ok_def objects_ok_def images_ok_def own_props_ok_def
    using a ai load_object_ok
    by (auto simp: b fold_insert_wf hm_keys_iff load_image_def dest!: fold_insert_get)
qed

interpretation backend_inv: inv_system
    "\<lambda>b. \<exists>secret seed db. backend_new cr d secret seed db = Inr b" "backend_op cr d" backend_ok
    for cr d
  by unfold_locales (auto intro: steps_ok backend_new_ok dest: backend_op_steps)

end
