(* ===== verification/Sync.thy ===== *)
theory Sync
  imports Handshake BackendInv
begin

section \<open>The server's copy of a client\<close>

text \<open>
  What a client shares and the copy of it at the server: \<open>tracks\<close> says that they agree except
  for what is pending at the client. Every operation of the backend keeps it, and a flush,
  handled by the server, makes the copy equal (\<open>same_shared\<close>).
\<close>

definition same_object :: "LocalObject \<Rightarrow> RemoteObject \<Rightarrow> bool" where
  "same_object ob sob \<longleftrightarrow> ro_ty sob = lo_ty ob \<and> ro_id sob = lo_id ob \<and>
     props_get (ro_props sob) = props_get (lo_props ob)"

definition same_shared :: "Backend \<Rightarrow> ServerPeerState \<Rightarrow> bool" where
  "same_shared b t \<longleftrightarrow>
     (\<forall>i. rel_option same_object (hm_get (bk_objects b) i) (hm_get (sps_objects t) i)) \<and>
     (\<forall>i. hm_get (sps_images t) i = map_option local_image_wire (hm_get (bk_images b) i)) \<and>
     (\<forall>key. props_get (sps_props t) key =
        (if key_is_remote key then props_get (bk_props b) key else VEmpty))"

text \<open>An object at the server whose pending properties may be behind.\<close>

definition behind :: "Key list \<Rightarrow> LocalObject \<Rightarrow> RemoteObject \<Rightarrow> bool" where
  "behind keys ob sob \<longleftrightarrow> ro_ty sob = lo_ty ob \<and> ro_id sob = lo_id ob \<and>
     (\<forall>key. key \<notin> set keys \<longrightarrow> props_get (ro_props sob) key = props_get (lo_props ob) key)"

definition object_rel :: "Id list \<Rightarrow> Id \<Rightarrow> LocalObject \<Rightarrow> RemoteObject \<Rightarrow> bool" where
  "object_rel changed i ob sob \<longleftrightarrow> behind (if i \<in> set changed then lo_changed ob else []) ob sob"

lemma object_rel_hs [simp]:
  "i \<noteq> j \<Longrightarrow> object_rel (hs_insert j changed) i = object_rel changed i"
  "i \<noteq> j \<Longrightarrow> object_rel (hs_remove j changed) i = object_rel changed i"
  by (auto simp: object_rel_def fun_eq_iff)

definition tracks_objects where
  "tracks_objects objects changed added removed copy \<longleftrightarrow>
     (\<forall>i. i \<in> set added \<or> i \<in> set removed \<or>
        rel_option (object_rel changed i) (hm_get objects i) (hm_get copy i))"

definition tracks_images where
  "tracks_images images added removed copy \<longleftrightarrow>
     (\<forall>i. i \<in> set added \<or> i \<in> set removed \<or>
        hm_get copy i = map_option local_image_wire (hm_get images i))"

definition tracks_props where
  "tracks_props ps changed copy \<longleftrightarrow>
     (\<forall>key. key \<in> set changed \<or>
        props_get copy key = (if key_is_remote key then props_get ps key else VEmpty))"

definition tracks :: "Backend \<Rightarrow> ServerPeerState \<Rightarrow> bool" where
  "tracks b t \<longleftrightarrow>
     tracks_objects (bk_objects b) (bk_objects_changed b) (bk_objects_added b)
       (bk_objects_removed b) (sps_objects t) \<and>
     tracks_images (bk_images b) (bk_images_added b) (bk_images_removed b) (sps_images t) \<and>
     tracks_props (bk_props b) (bk_props_changed b) (sps_props t)"

lemmas tracks_parts = tracks_objects_def tracks_images_def tracks_props_def

lemma tracks_shared: "shared b = shared b' \<Longrightarrow> tracks b t = tracks b' t"
  by (simp add: tracks_def sharedD [of b b'])

lemma tracks_step: "local_step b b' \<Longrightarrow> backend_ok b \<Longrightarrow> tracks b t \<Longrightarrow> tracks b' t"
proof (induction rule: local_step.induct)
  case (touch b i ob b' key v)
  let ?ob = "ob\<lparr>lo_props := props_put key v (lo_props ob), lo_changed := hs_insert key (lo_changed ob)\<rparr>"
  let ?b = "b\<lparr>bk_objects := hm_insert i ?ob (bk_objects b),
      bk_objects_changed := hs_insert i (bk_objects_changed b)\<rparr>"
  have r: "i \<notin> set (bk_objects_removed b)"
    using touch by (auto simp: backend_ok_def objects_ok_def)
  let ?rel = "\<lambda>b i. rel_option (object_rel (bk_objects_changed b) i)
      (hm_get (bk_objects b) i) (hm_get (sps_objects t) i)"
  have old: "j \<in> set (bk_objects_added b) \<or> j \<in> set (bk_objects_removed b) \<or> ?rel b j" for j
    using touch.prems(2) by (simp add: tracks_def tracks_parts)
  have "j \<in> set (bk_objects_added b) \<or> j \<in> set (bk_objects_removed b) \<or> ?rel ?b j" for j
  proof (cases "j = i")
    case True
    then show ?thesis
      using old [of i] touch(1) r
      by (auto simp: hm_get_insert object_rel_def behind_def option_rel_Some1 props_get_put
          split: if_splits)
  next
    case False
    then show ?thesis using old [of j] by (simp add: hm_get_insert)
  qed
  then have "tracks ?b t" using touch.prems(2) by (simp add: tracks_def tracks_objects_def)
  then show ?case using touch(2) tracks_shared by blast
next
  case (own b' key v b)
  have "tracks (b\<lparr>bk_props := props_put key v (bk_props b), bk_props_changed :=
      if key_is_remote key then hs_insert key (bk_props_changed b) else bk_props_changed b\<rparr>) t"
    using own.prems by (auto simp: tracks_def tracks_parts props_get_put)
  with own show ?case using tracks_shared shared_update_prop by metis
next
  case (reserve b' n b)
  then have "tracks (b\<lparr>bk_used_ids := hs_insert n (bk_used_ids b)\<rparr>) t" by (simp add: tracks_def)
  with reserve show ?case using tracks_shared by blast
next
  case (add b ob b')
  then have "tracks (b\<lparr>bk_objects := hm_insert (lo_id ob) ob (bk_objects b),
      bk_objects_added := hs_insert (lo_id ob) (bk_objects_added b)\<rparr>) t"
    by (auto simp: tracks_def tracks_parts hm_get_insert)
  with add show ?case using tracks_shared by blast
next
  case (remove b i b')
  then have "tracks (b\<lparr>bk_objects := hm_remove i (bk_objects b),
      bk_objects_changed := hs_remove i (bk_objects_changed b),
      bk_objects_added := hs_remove i (bk_objects_added b),
      bk_objects_removed := hs_insert i (bk_objects_removed b)\<rparr>) t"
    by (auto simp: tracks_def tracks_parts hm_get_remove)
  with remove show ?case using tracks_shared by blast
next
  case (add_image b img b')
  then have "tracks (b\<lparr>bk_images := hm_insert (li_id img) img (bk_images b),
      bk_images_added := hs_insert (li_id img) (bk_images_added b)\<rparr>) t"
    by (auto simp: tracks_def tracks_parts hm_get_insert)
  with add_image show ?case using tracks_shared by blast
next
  case (remove_image b i b')
  then have "tracks (b\<lparr>bk_images := hm_remove i (bk_images b),
      bk_images_added := hs_remove i (bk_images_added b),
      bk_images_removed := hs_insert i (bk_images_removed b)\<rparr>) t"
    by (auto simp: tracks_def tracks_parts hm_get_remove)
  with remove_image show ?case using tracks_shared by blast
qed (use tracks_shared in blast)

subsection \<open>The messages of a flush\<close>

definition update_events :: "Id \<Rightarrow> LocalObject \<Rightarrow> Event list" where
  "update_events i ob =
     map (\<lambda>key. ObjectUpdate (ObjectUpdateBody i key (props_get (lo_props ob) key))) (lo_changed ob)"

definition changed_events :: "Id list \<Rightarrow> (Id, LocalObject) hashmap \<Rightarrow> Event list" where
  "changed_events is objects =
     concat (map (\<lambda>i. case hm_get objects i of None \<Rightarrow> [] | Some ob \<Rightarrow> update_events i ob) is)"

definition create_event :: "(Id, LocalObject) hashmap \<Rightarrow> Id \<Rightarrow> Event option" where
  "create_event objects i = map_option (\<lambda>ob. ObjectCreate (ObjectCreateBody
     \<lparr>ro_ty = lo_ty ob, ro_id = i, ro_props = lo_props ob\<rparr>)) (hm_get objects i)"

definition image_event :: "(Id, LocalImage) hashmap \<Rightarrow> Id \<Rightarrow> Event option" where
  "image_event images i =
     map_option (\<lambda>img. ImageCreate (ImageCreateBody (local_image_wire img))) (hm_get images i)"

fun clean :: "Id list \<Rightarrow> (Id, LocalObject) hashmap \<Rightarrow> (Id, LocalObject) hashmap" where
  "clean [] objects = objects"
| "clean (i # is) objects =
     clean is (case hm_get objects i of None \<Rightarrow> objects
       | Some ob \<Rightarrow> hm_insert i (ob\<lparr>lo_changed := []\<rparr>) objects)"

definition flush_events :: "Backend \<Rightarrow> Event list" where
  "flush_events b =
     map (\<lambda>key. PeerUpdate (PeerUpdateBody key (props_get (bk_props b) key))) (bk_props_changed b) @
     changed_events (bk_objects_changed b) (bk_objects b) @
     List.map_filter (create_event (bk_objects b)) (bk_objects_added b) @
     map (\<lambda>i. ObjectRemove (ObjectRemoveBody i)) (bk_objects_removed b) @
     List.map_filter (image_event (bk_images b)) (bk_images_added b) @
     map (\<lambda>i. ImageRemove (ImageRemoveBody i)) (bk_images_removed b)"

definition flushed :: "Backend \<Rightarrow> Backend" where
  "flushed b =
     b\<lparr>bk_props_changed := [], bk_objects := clean (bk_objects_changed b) (bk_objects b),
       bk_objects_changed := [], bk_objects_added := [], bk_objects_removed := [],
       bk_images_added := [], bk_images_removed := []\<rparr>"

lemma try_each_sends:
  assumes "\<And>x p. f x p = (case ev x of None \<Rightarrow> (True, p) | Some e \<Rightarrow> peer_send c e p)"
  shows "try_each f xs p = send_all c (List.map_filter ev xs) p"
  by (induction xs arbitrary: p)
    (auto simp: assms map_filter_simps split: option.split prod.split bool.split)

lemma try_each_sends_map:
  assumes "\<And>x p. f x p = peer_send c (ev x) p"
  shows "try_each f xs p = send_all c (map ev xs) p"
  by (induction xs arbitrary: p) (auto simp: assms split: prod.split bool.split)

lemma changed_events_other:
  "i \<notin> set is \<Longrightarrow> changed_events is (hm_insert i ob objects) = changed_events is objects"
  by (induction "is") (auto simp: changed_events_def hm_get_insert)

lemma flush_changed_sends:
  "distinct is \<Longrightarrow> send_all c (changed_events is objects) p = (True, p') \<Longrightarrow>
     flush_changed c is objects p = (True, clean is objects, p')"
proof (induction "is" arbitrary: objects p)
  case Nil
  then show ?case by (simp add: changed_events_def)
next
  case (Cons i "is")
  show ?case
  proof (cases "hm_get objects i")
    case None
    with Cons show ?thesis by (simp add: changed_events_def)
  next
    case (Some ob)
    obtain ok p1 where s: "send_all c (update_events i ob) p = (ok, p1)" by fastforce
    have e: "changed_events (i # is) objects = update_events i ob @ changed_events is objects"
      by (simp add: changed_events_def Some)
    have "ok" "send_all c (changed_events is objects) p1 = (True, p')"
      using Cons.prems(2) s by (simp_all add: e send_all_append split: bool.splits)
    moreover have "try_each (\<lambda>key. peer_object_update c i key (props_get (lo_props ob) key))
        (lo_changed ob) p = (ok, p1)"
      using s by (subst try_each_sends_map [where ev =
            "\<lambda>key. ObjectUpdate (ObjectUpdateBody i key (props_get (lo_props ob) key))"])
        (simp_all add: peer_object_update_def update_events_def)
    ultimately show ?thesis
      using Cons.IH [of "hm_insert i (ob\<lparr>lo_changed := []\<rparr>) objects" p1] Cons.prems(1) Some
      by (simp add: changed_events_other)
  qed
qed

lemma hm_get_clean:
  "hm_get (clean is objects) i =
     map_option (\<lambda>ob. if i \<in> set is then ob\<lparr>lo_changed := []\<rparr> else ob) (hm_get objects i)"
proof (induction "is" objects rule: clean.induct)
  case (1 objects)
  then show ?case by (simp add: option.map_ident)
next
  case (2 j "is" objects)
  then show ?case
    by (cases "hm_get objects j"; cases "hm_get objects i") (auto simp: hm_get_insert)
qed

lemma create_event_clean: "create_event (clean is objects) = create_event objects"
  by (rule ext) (auto simp: create_event_def hm_get_clean option.map_comp intro: option.map_cong0)

lemma send_all_appendD:
  "send_all c (es @ fs) p = (True, p') \<Longrightarrow>
     \<exists>p1. send_all c es p = (True, p1) \<and> send_all c fs p1 = (True, p')"
  by (auto simp: send_all_append split: prod.splits bool.splits)

lemma client_flush_sends:
  assumes "distinct (bk_objects_changed b)" "send_all c (flush_events b) p = (True, p')"
  shows "client_flush c p b = (True, p', flushed b)"
proof -
  let ?obs = "clean (bk_objects_changed b) (bk_objects b)"
  obtain p1 p2 p3 p4 p5 where s:
    "send_all c (map (\<lambda>key. PeerUpdate (PeerUpdateBody key (props_get (bk_props b) key)))
       (bk_props_changed b)) p = (True, p1)"
    "send_all c (changed_events (bk_objects_changed b) (bk_objects b)) p1 = (True, p2)"
    "send_all c (List.map_filter (create_event (bk_objects b)) (bk_objects_added b)) p2 = (True, p3)"
    "send_all c (map (\<lambda>i. ObjectRemove (ObjectRemoveBody i)) (bk_objects_removed b)) p3 = (True, p4)"
    "send_all c (List.map_filter (image_event (bk_images b)) (bk_images_added b)) p4 = (True, p5)"
    "send_all c (map (\<lambda>i. ImageRemove (ImageRemoveBody i)) (bk_images_removed b)) p5 = (True, p')"
    using assms(2) unfolding flush_events_def by (blast dest: send_all_appendD)
  have t1: "try_each (\<lambda>key. peer_update c key (props_get (bk_props b) key)) (bk_props_changed b) p =
      (True, p1)"
    by (subst try_each_sends_map [OF peer_update_def [THEN fun_cong]]) (rule s(1))
  have t2: "flush_changed c (bk_objects_changed b) (bk_objects b) p1 = (True, ?obs, p2)"
    by (rule flush_changed_sends [OF assms(1) s(2)])
  have "flush_added c (bk_objects_added b) ?obs p2 =
      send_all c (List.map_filter (create_event (bk_objects b)) (bk_objects_added b)) p2"
    unfolding flush_added_def
    by (rule try_each_sends)
      (auto simp: create_event_def peer_object_create_def hm_get_clean split: option.split)
  then have t3: "flush_added c (bk_objects_added b) ?obs p2 = (True, p3)" by (simp add: s(3))
  have t4: "try_each (peer_object_remove c) (bk_objects_removed b) p3 = (True, p4)"
    by (subst try_each_sends_map [OF peer_object_remove_def [THEN fun_cong]]) (rule s(4))
  have "flush_images c (bk_images_added b) (bk_images b) p4 =
      send_all c (List.map_filter (image_event (bk_images b)) (bk_images_added b)) p4"
    unfolding flush_images_def
    by (rule try_each_sends) (auto simp: image_event_def peer_image_create_def split: option.split)
  then have t5: "flush_images c (bk_images_added b) (bk_images b) p4 = (True, p5)" by (simp add: s(5))
  have t6: "try_each (peer_image_remove c) (bk_images_removed b) p5 = (True, p')"
    by (subst try_each_sends_map [OF peer_image_remove_def [THEN fun_cong]]) (rule s(6))
  show ?thesis
    by (simp add: client_flush_def t1 t2 t3 t4 t5 t6 flushed_def)
qed

subsection \<open>What the server makes of them\<close>

text \<open>The loop of the server on decoded messages, with the guard of its arms.\<close>

fun server_events ::
    "Env \<Rightarrow> nat \<Rightarrow> Event list \<Rightarrow> ServerPeer \<Rightarrow> State \<Rightarrow> ServerError option \<times> ServerPeer \<times> State"
where
  "server_events env now [] sp st = (None, sp, st)"
| "server_events env now (e # es) sp st =
     (if event_kind e \<in> set guarded_kinds \<and> pk_is_zero (sps_public_key (sp_state sp))
      then (Some (Unsupported (Some (event_kind e))), sp, st)
      else case handle_event env now e sp st of
             (Some err, sp, st) \<Rightarrow> (Some err, sp, st)
           | (None, sp, st) \<Rightarrow> server_events env now es sp st)"

definition update_copy :: "Id \<Rightarrow> Key \<Rightarrow> Value \<Rightarrow> (Id, RemoteObject) hashmap \<Rightarrow> (Id, RemoteObject) hashmap" where
  "update_copy i key v objects =
     (case hm_get objects i of None \<Rightarrow> objects
      | Some ob \<Rightarrow> hm_insert i (ob\<lparr>ro_props := props_put key v (ro_props ob)\<rparr>) objects)"

fun copy_effect :: "Event \<Rightarrow> ServerPeerState \<Rightarrow> ServerPeerState" where
  "copy_effect (PeerUpdate body) t =
     t\<lparr>sps_props := props_put (pub_key body) (pub_value body) (sps_props t)\<rparr>"
| "copy_effect (ObjectUpdate body) t =
     t\<lparr>sps_objects := update_copy (oub_object_id body) (oub_key body) (oub_value body) (sps_objects t)\<rparr>"
| "copy_effect (ObjectCreate body) t =
     t\<lparr>sps_objects := hm_insert (ro_id (ocb_object body)) (ocb_object body) (sps_objects t)\<rparr>"
| "copy_effect (ObjectRemove body) t =
     t\<lparr>sps_objects := hm_remove (orb_object_id body) (sps_objects t)\<rparr>"
| "copy_effect (ImageCreate body) t =
     t\<lparr>sps_images := hm_insert (ri_id (icb_image body)) (icb_image body) (sps_images t)\<rparr>"
| "copy_effect (ImageRemove body) t =
     t\<lparr>sps_images := hm_remove (irb_image_id body) (sps_images t)\<rparr>"
| "copy_effect _ t = t"

lemma view_peer_only: "t' = t\<lparr>sps_peer := sps_peer t'\<rparr> \<Longrightarrow> view t' = view t"
  by (metis view_simps(9))

lemma leave_members_peer_only:
  "leave_members c l is this ps poll = (this', ps', poll') \<Longrightarrow> this' = this\<lparr>sps_peer := sps_peer this'\<rparr>"
  by (induction c l "is" this ps poll arbitrary: this' ps' poll' rule: leave_members.induct)
    (auto split: option.splits prod.splits)

lemma leave_room_peer_only:
  "leave_room c room l this st = (this', st') \<Longrightarrow> this' = this\<lparr>sps_peer := sps_peer this'\<rparr>"
  by (auto simp: leave_room_def Let_def dest: leave_members_peer_only split: option.splits prod.splits)

lemma view_update_copy:
  "view (t\<lparr>sps_props := ps\<rparr>) = (view t)\<lparr>sps_props := ps\<rparr>"
  "view (t\<lparr>sps_objects := os\<rparr>) = (view t)\<lparr>sps_objects := os\<rparr>"
  "view (t\<lparr>sps_images := is\<rparr>) = (view t)\<lparr>sps_images := is\<rparr>"
  by (simp_all add: view_def)

lemma view_on_peer_update:
  assumes "on_peer_update env body this st = (e, this', st')"
  shows "e = None \<and> view this' = copy_effect (PeerUpdate body) (view this)"
proof -
  obtain old ps where i: "props_insert (pub_key body) (pub_value body) (sps_props this) = (old, ps)"
    by fastforce
  let ?t = "this\<lparr>sps_props := ps\<rparr>"
  have "e = None \<and> view this' = view ?t"
    using assms i
    by (auto simp: on_peer_update_def Let_def split: prod.splits if_splits
        dest!: leave_room_peer_only join_room_peer_only dest!: view_peer_only)
  then show ?thesis using i by (simp add: view_update_copy props_put_def)
qed

lemma flush_event_effect:
  assumes "event_kind e \<in> set guarded_kinds" "handle_event env now e sp st = (err, sp', st')"
  shows "err = None \<and> view (sp_state sp') = copy_effect e (view (sp_state sp))"
proof (cases e)
  case (PeerUpdate body)
  obtain e1 t1 st1 where "on_peer_update env body (sp_state sp) st = (e1, t1, st1)" by (metis surj_pair)
  with assms(2) PeerUpdate view_on_peer_update show ?thesis
    by (fastforce simp: handle_event_def with_state_def)
next
  case (ObjectCreate body)
  with assms(2) show ?thesis
    by (auto simp: handle_event_def with_state_def on_object_create_def Let_def view_update_copy
        split: if_splits)
next
  case (ObjectUpdate body)
  with assms(2) show ?thesis
    by (auto simp: handle_event_def with_state_def on_object_update_def Let_def update_copy_def
        view_update_copy split: if_splits option.splits)
next
  case (ObjectRemove body)
  with assms(2) show ?thesis
    by (auto simp: handle_event_def with_state_def on_object_remove_def Let_def view_update_copy
        hm_remove_absent split: if_splits option.splits)
next
  case (ImageCreate body)
  with assms(2) show ?thesis
    by (auto simp: handle_event_def with_state_def on_image_create_def Let_def view_update_copy)
next
  case (ImageRemove body)
  with assms(2) show ?thesis
    by (auto simp: handle_event_def with_state_def on_image_remove_def Let_def view_update_copy)
qed (use assms(1) in \<open>simp_all add: guarded_kinds_def\<close>)

lemma copy_effect_key [simp]: "sps_public_key (copy_effect e t) = sps_public_key t"
  by (cases e) simp_all

lemma server_events_effect:
  "\<forall>e\<in>set es. event_kind e \<in> set guarded_kinds \<Longrightarrow> \<not> pk_is_zero (sps_public_key (sp_state sp)) \<Longrightarrow>
     \<exists>sp' st'. server_events env now es sp st = (None, sp', st') \<and>
       view (sp_state sp') = fold copy_effect es (view (sp_state sp))"
proof (induction es arbitrary: sp st)
  case (Cons e es)
  obtain err sp1 st1 where h: "handle_event env now e sp st = (err, sp1, st1)"
    by (metis surj_pair)
  have e: "err = None" "view (sp_state sp1) = copy_effect e (view (sp_state sp))"
    using flush_event_effect [OF _ h] Cons.prems(1) by auto
  then have "sps_public_key (sp_state sp1) = sps_public_key (sp_state sp)"
    by (metis copy_effect_key view_simps(2))
  with Cons.IH [of sp1 st1] Cons.prems h e show ?case by simp
qed simp

lemma flush_events_guarded: "e \<in> set (flush_events b) \<Longrightarrow> event_kind e \<in> set guarded_kinds"
  by (auto simp: flush_events_def guarded_kinds_def changed_events_def update_events_def
      create_event_def image_event_def map_filter_def split: option.splits)

text \<open>The effect of a flush on the parts of the copy.\<close>

definition copy_props :: "Properties \<Rightarrow> Key list \<Rightarrow> Properties \<Rightarrow> Properties" where
  "copy_props ps keys copy = fold (\<lambda>key. props_put key (props_get ps key)) keys copy"

definition copy_changed :: "(Id, LocalObject) hashmap \<Rightarrow> Id \<Rightarrow> (Id, RemoteObject) hashmap \<Rightarrow> (Id, RemoteObject) hashmap" where
  "copy_changed objects i copy =
     (case hm_get objects i of None \<Rightarrow> copy
      | Some ob \<Rightarrow> fold (\<lambda>key. update_copy i key (props_get (lo_props ob) key)) (lo_changed ob) copy)"

definition copy_added :: "(Id, LocalObject) hashmap \<Rightarrow> Id \<Rightarrow> (Id, RemoteObject) hashmap \<Rightarrow> (Id, RemoteObject) hashmap" where
  "copy_added objects i copy =
     (case hm_get objects i of None \<Rightarrow> copy
      | Some ob \<Rightarrow> hm_insert i \<lparr>ro_ty = lo_ty ob, ro_id = i, ro_props = lo_props ob\<rparr> copy)"

definition copy_image :: "(Id, LocalImage) hashmap \<Rightarrow> Id \<Rightarrow> (Id, RemoteImage) hashmap \<Rightarrow> (Id, RemoteImage) hashmap" where
  "copy_image images i copy =
     (case hm_get images i of None \<Rightarrow> copy
      | Some img \<Rightarrow> hm_insert (li_id img) (local_image_wire img) copy)"

lemma effect_props:
  "fold copy_effect (map (\<lambda>key. PeerUpdate (PeerUpdateBody key (props_get ps key))) keys) t =
     t\<lparr>sps_props := copy_props ps keys (sps_props t)\<rparr>"
  by (induction keys arbitrary: t) (simp_all add: copy_props_def)

lemma effect_update:
  "fold copy_effect (map (\<lambda>key. ObjectUpdate (ObjectUpdateBody i key (f key))) keys) t =
     t\<lparr>sps_objects := fold (\<lambda>key. update_copy i key (f key)) keys (sps_objects t)\<rparr>"
  by (induction keys arbitrary: t) simp_all

lemma effect_changed:
  "fold copy_effect (changed_events is objects) t =
     t\<lparr>sps_objects := fold (copy_changed objects) is (sps_objects t)\<rparr>"
  by (induction "is" arbitrary: t)
    (auto simp: changed_events_def copy_changed_def update_events_def effect_update split: option.split)

lemma effect_added:
  "fold copy_effect (List.map_filter (create_event objects) is) t =
     t\<lparr>sps_objects := fold (copy_added objects) is (sps_objects t)\<rparr>"
  by (induction "is" arbitrary: t)
    (auto simp: map_filter_simps copy_added_def create_event_def split: option.split)

lemma effect_removed:
  "fold copy_effect (map (\<lambda>i. ObjectRemove (ObjectRemoveBody i)) is) t =
     t\<lparr>sps_objects := fold hm_remove is (sps_objects t)\<rparr>"
  by (induction "is" arbitrary: t) simp_all

lemma effect_images_added:
  "fold copy_effect (List.map_filter (image_event images) is) t =
     t\<lparr>sps_images := fold (copy_image images) is (sps_images t)\<rparr>"
  by (induction "is" arbitrary: t)
    (auto simp: map_filter_simps copy_image_def image_event_def local_image_wire_def split: option.split)

lemma effect_images_removed:
  "fold copy_effect (map (\<lambda>i. ImageRemove (ImageRemoveBody i)) is) t =
     t\<lparr>sps_images := fold hm_remove is (sps_images t)\<rparr>"
  by (induction "is" arbitrary: t) simp_all

lemmas flush_effects = effect_props effect_changed effect_added effect_removed effect_images_added
  effect_images_removed

lemma get_copy_props:
  "props_get (copy_props ps keys copy) key =
     (if key \<in> set keys then value_norm (props_get ps key) else props_get copy key)"
  by (induction keys arbitrary: copy) (auto simp: copy_props_def props_get_put)

lemma get_update_copy:
  "hm_get (fold (\<lambda>key. update_copy i key (props_get ps key)) keys copy) j =
     (if j = i then map_option (\<lambda>sob. sob\<lparr>ro_props := copy_props ps keys (ro_props sob)\<rparr>) (hm_get copy i)
      else hm_get copy j)"
proof (induction keys arbitrary: copy)
  case Nil
  then show ?case by (simp add: copy_props_def option.map_ident)
next
  case (Cons key keys)
  from Cons.IH [of "update_copy i key (props_get ps key) copy"] show ?case
    by (cases "hm_get copy i") (simp_all add: update_copy_def hm_get_insert copy_props_def)
qed

lemma value_norm_get: "props_ok ps \<Longrightarrow> value_norm (props_get ps key) = props_get ps key"
  by (auto simp: props_ok_def props_get_def value_norm_def split: option.split)

subsection \<open>A flush brings the copy up to date\<close>

lemma get_copy_changed:
  "hm_get (copy_changed objects i copy) j =
     (if j = i then case hm_get objects i of None \<Rightarrow> hm_get copy i
        | Some ob \<Rightarrow> map_option (\<lambda>sob. sob\<lparr>ro_props :=
            copy_props (lo_props ob) (lo_changed ob) (ro_props sob)\<rparr>) (hm_get copy i)
      else hm_get copy j)"
  by (auto simp: copy_changed_def get_update_copy split: option.split)

lemma phase_changed_step:
  assumes "i \<notin> set is" "\<And>ob. hm_get objects i = Some ob \<Longrightarrow> props_ok (lo_props ob)"
    and "tracks_objects objects (i # is) added removed copy"
  shows "tracks_objects objects is added removed (copy_changed objects i copy)"
  unfolding tracks_objects_def
proof
  fix j
  have old: "j \<in> set added \<or> j \<in> set removed \<or>
      rel_option (object_rel (i # is) j) (hm_get objects j) (hm_get copy j)"
    using assms(3) by (simp add: tracks_objects_def)
  show "j \<in> set added \<or> j \<in> set removed \<or>
      rel_option (object_rel is j) (hm_get objects j) (hm_get (copy_changed objects i copy) j)"
  proof (cases "j = i")
    case True
    with old assms(1, 2) show ?thesis
      by (cases "hm_get objects i"; cases "hm_get copy i")
        (auto simp: get_copy_changed object_rel_def behind_def get_copy_props value_norm_get)
  next
    case False
    then have "object_rel (i # is) j = object_rel is j" by (auto simp: object_rel_def fun_eq_iff)
    with old False show ?thesis by (simp add: get_copy_changed)
  qed
qed

lemma phase_changed:
  "distinct is \<Longrightarrow> \<forall>i ob. hm_get objects i = Some ob \<longrightarrow> props_ok (lo_props ob) \<Longrightarrow>
     tracks_objects objects is added removed copy \<Longrightarrow>
     tracks_objects objects [] added removed (fold (copy_changed objects) is copy)"
proof (induction "is" arbitrary: copy)
  case (Cons i "is")
  then show ?case using phase_changed_step [of i "is" objects added removed copy] by auto
qed simp

lemma phase_added:
  "\<forall>i ob. hm_get objects i = Some ob \<longrightarrow> lo_id ob = i \<Longrightarrow>
     \<forall>i\<in>set is. hm_get objects i \<noteq> None \<Longrightarrow> tracks_objects objects [] is removed copy \<Longrightarrow>
     tracks_objects objects [] [] removed (fold (copy_added objects) is copy)"
proof (induction "is" arbitrary: copy)
  case (Cons i "is")
  have "tracks_objects objects [] is removed (copy_added objects i copy)"
    using Cons.prems
    by (auto simp: tracks_objects_def copy_added_def hm_get_insert object_rel_def behind_def
        split: if_splits)
  then show ?case using Cons by simp
qed simp

lemma phase_removed:
  "\<forall>i\<in>set is. hm_get objects i = None \<Longrightarrow> tracks_objects objects [] [] is copy \<Longrightarrow>
     tracks_objects objects [] [] [] (fold hm_remove is copy)"
proof (induction "is" arbitrary: copy)
  case (Cons i "is")
  have "tracks_objects objects [] [] is (hm_remove i copy)"
    using Cons.prems by (auto simp: tracks_objects_def hm_get_remove)
  then show ?case using Cons by simp
qed simp

lemma phase_images_added:
  "\<forall>i img. hm_get images i = Some img \<longrightarrow> li_id img = i \<Longrightarrow>
     \<forall>i\<in>set is. hm_get images i \<noteq> None \<Longrightarrow> tracks_images images is removed copy \<Longrightarrow>
     tracks_images images [] removed (fold (copy_image images) is copy)"
proof (induction "is" arbitrary: copy)
  case (Cons i "is")
  have "tracks_images images is removed (copy_image images i copy)"
    using Cons.prems by (auto simp: tracks_images_def copy_image_def hm_get_insert split: if_splits)
  then show ?case using Cons by simp
qed simp

lemma phase_images_removed:
  "\<forall>i\<in>set is. hm_get images i = None \<Longrightarrow> tracks_images images [] is copy \<Longrightarrow>
     tracks_images images [] [] (fold hm_remove is copy)"
proof (induction "is" arbitrary: copy)
  case (Cons i "is")
  have "tracks_images images [] is (hm_remove i copy)"
    using Cons.prems by (auto simp: tracks_images_def hm_get_remove)
  then show ?case using Cons by simp
qed simp

lemma flush_copies:
  assumes "backend_ok b" "tracks b t"
  shows "same_shared (flushed b) (fold copy_effect (flush_events b) t)"
proof -
  let ?obs = "bk_objects b" and ?imgs = "bk_images b"
  have ok: "distinct (bk_objects_changed b)"
    "\<forall>i ob. hm_get ?obs i = Some ob \<longrightarrow> props_ok (lo_props ob)"
    "\<forall>i ob. hm_get ?obs i = Some ob \<longrightarrow> lo_id ob = i"
    "\<forall>i\<in>set (bk_objects_added b). hm_get ?obs i \<noteq> None"
    "\<forall>i\<in>set (bk_objects_removed b). hm_get ?obs i = None"
    "\<forall>i img. hm_get ?imgs i = Some img \<longrightarrow> li_id img = i"
    "\<forall>i\<in>set (bk_images_added b). hm_get ?imgs i \<noteq> None"
    "\<forall>i\<in>set (bk_images_removed b). hm_get ?imgs i = None"
    "props_ok (bk_props b)" "\<forall>key\<in>set (bk_props_changed b). key_is_remote key"
    using assms(1) by (auto simp: backend_ok_def objects_ok_def images_ok_def own_props_ok_def)
  let ?copy = "fold hm_remove (bk_objects_removed b) (fold (copy_added ?obs) (bk_objects_added b)
        (fold (copy_changed ?obs) (bk_objects_changed b) (sps_objects t)))"
  have "tracks_objects ?obs [] [] [] ?copy"
    using assms(2) by (intro phase_removed [OF ok(5)] phase_added [OF ok(3, 4)]
        phase_changed [OF ok(1, 2)]) (simp add: tracks_def)
  then have "rel_option same_object (hm_get (clean (bk_objects_changed b) ?obs) i) (hm_get ?copy i)" for i
    by (cases "hm_get ?obs i"; cases "hm_get ?copy i")
      (auto simp: tracks_objects_def hm_get_clean same_object_def object_rel_def behind_def fun_eq_iff
        dest!: spec [of _ i])
  moreover have "tracks_images ?imgs [] [] (fold hm_remove (bk_images_removed b)
      (fold (copy_image ?imgs) (bk_images_added b) (sps_images t)))"
    using assms(2) by (intro phase_images_removed [OF ok(8)] phase_images_added [OF ok(6, 7)])
      (simp add: tracks_def)
  moreover have "props_get (copy_props (bk_props b) (bk_props_changed b) (sps_props t)) key =
      (if key_is_remote key then props_get (bk_props b) key else VEmpty)" for key
    using assms(2) ok(9, 10) by (auto simp: tracks_def tracks_props_def get_copy_props value_norm_get)
  ultimately show ?thesis
    by (simp add: same_shared_def flushed_def flush_events_def flush_effects tracks_images_def)
qed

subsection \<open>Client and server step by step\<close>

lemma copies_same: "copies b t \<Longrightarrow> same_shared b t"
  by (auto simp: copies_def same_shared_def same_object_def local_object_wire_def fun_eq_iff
      option.rel_map intro!: option.rel_refl)

lemma same_tracks:
  assumes "same_shared b t"
  shows "tracks b t"
proof -
  have "rel_option (object_rel is i) (hm_get (bk_objects b) i) (hm_get (sps_objects t) i)" for "is" i
    using assms [unfolded same_shared_def, THEN conjunct1, rule_format, of i]
    by (rule option.rel_mono_strong) (simp add: same_object_def object_rel_def behind_def)
  with assms show ?thesis by (simp add: tracks_def tracks_parts same_shared_def)
qed

lemma backend_ok_flushed:
  assumes "backend_ok b"
  shows "backend_ok (flushed b)"
proof -
  have "hm_wf (clean is objects)" if "hm_wf objects" for "is" objects
    using that by (induction "is" objects rule: clean.induct) (auto split: option.split)
  with assms show ?thesis
    by (auto simp: backend_ok_def objects_ok_def images_ok_def own_props_ok_def flushed_def
        hm_get_clean allocated_def hm_keys_iff split: if_splits)
qed

lemma client_event_steps: "client_event cr d c now e s b = (err, s', b') \<Longrightarrow> local_step\<^sup>*\<^sup>* b b'"
proof -
  assume run: "client_event cr d c now e s b = (err, s', b')"
  have room: "local_step\<^sup>*\<^sup>* b b''" if o: "on_object_removed cr d body b = (err', b'')" for body err' b''
  proof -
    obtain removed b1 where r: "(case hm_get (bk_peers b) (ordb_peer_id body) of
        None \<Rightarrow> (False, b)
      | Some peer \<Rightarrow> (hm_get (pi_objects peer) (ordb_object_id body) \<noteq> None,
          set_peer (ordb_peer_id body)
            (peer\<lparr>pi_objects := hm_remove (ordb_object_id body) (pi_objects peer)\<rparr>) b)) = (removed, b1)"
      by fastforce
    define b2 where "b2 = (if removed then broadcast (BRemoteUpdate (RObjectRemoved CHANNEL_NONE
        (RemoteId_new (ordb_peer_id body) (ordb_object_id body)))) b1 else b1)"
    have b2: "shared b2 = shared b"
      using r by (auto simp: b2_def sharing set_peer_def split: option.splits)
    obtain e' b3 where w: "with_db (db_set_property d Id_ZERO KEY_ROOM VEmpty)
        (updates cr CHANNEL_NONE [(KEY_ROOM, VEmpty)] b2) = (e', b3)" by fastforce
    have "b'' = b2 \<or> b'' = b3"
      using o w r
      by (cases removed) (auto simp: on_object_removed_def b2_def Let_def split: if_splits)
    then show ?thesis
      using steps_quiet [OF b2] steps_then_quiet [OF updates_steps shared_with_db [OF w]]
      by (meson rtranclp_trans)
  qed
  show ?thesis
  proof (cases e)
    case (ObjectRemoved body)
    obtain err' b'' where "on_object_removed cr d body b = (err', b'')" by fastforce
    with run ObjectRemoved room show ?thesis by (simp add: client_event_def)
  qed (use run in \<open>auto simp: client_event_def on_peer_connected_def on_peer_join_def
      on_peer_disconnect_def on_peer_leave_def on_peer_updated_def on_object_updated_def
      on_object_created_def on_image_created_def on_image_removed_def set_peer_def sharing Let_def
      intro!: steps_quiet split: prod.splits option.splits\<close>)
qed

text \<open>
  A backend with its session and the peer that stands for it at the server: local operations,
  messages of the server, flushes that the server handles, and whatever else the server does,
  which only queues messages for this peer.
\<close>

inductive sync_step ::
    "Crypto \<Rightarrow> Descriptive \<Rightarrow> Codec \<Rightarrow> Env \<Rightarrow> Backend \<times> ServerPeer \<times> State \<Rightarrow>
     Backend \<times> ServerPeer \<times> State \<Rightarrow> bool" for cr d c env where
  local_op: "backend_op cr d b b' \<Longrightarrow> sync_step cr d c env (b, sp, st) (b', sp, st)"
| message: "client_event cr d c now e s b = (err, s', b') \<Longrightarrow>
    sync_step cr d c env (b, sp, st) (b', sp, st)"
| flush: "server_events env now (flush_events b) sp st = (None, sp', st') \<Longrightarrow>
    sync_step cr d c env (b, sp, st) (flushed b, sp', st')"
| server: "view (sp_state sp') = view (sp_state sp) \<Longrightarrow> sync_step cr d c env (b, sp, st) (b, sp', st')"

definition sync_ok :: "Backend \<times> ServerPeer \<times> State \<Rightarrow> bool" where
  "sync_ok x = (case x of (b, sp, st) \<Rightarrow>
     backend_ok b \<and> tracks b (sp_state sp) \<and> \<not> pk_is_zero (sps_public_key (sp_state sp)))"

lemma tracks_steps: "local_step\<^sup>*\<^sup>* b b' \<Longrightarrow> backend_ok b \<Longrightarrow> tracks b t \<Longrightarrow> tracks b' t"
proof (induction rule: rtranclp_induct)
  case (step b1 b2)
  then show ?case using steps_ok tracks_step by blast
qed simp

lemma same_shared_view: "same_shared b (view t) = same_shared b t"
  by (simp add: same_shared_def)

lemma tracks_view: "tracks b (view t) = tracks b t"
  by (simp add: tracks_def)

lemma flush_handled:
  assumes "backend_ok b" "tracks b (sp_state sp)" "\<not> pk_is_zero (sps_public_key (sp_state sp))"
  shows "\<exists>sp' st'. server_events env now (flush_events b) sp st = (None, sp', st') \<and>
    same_shared (flushed b) (sp_state sp') \<and>
    sps_public_key (sp_state sp') = sps_public_key (sp_state sp)"
proof -
  obtain sp' st' where run: "server_events env now (flush_events b) sp st = (None, sp', st')"
    and v: "view (sp_state sp') = fold copy_effect (flush_events b) (view (sp_state sp))"
    using server_events_effect [of "flush_events b" sp env now st] flush_events_guarded assms(3) by blast
  have "sps_public_key (fold copy_effect es t) = sps_public_key t" for es t
    by (induction es arbitrary: t) simp_all
  then have "sps_public_key (sp_state sp') = sps_public_key (sp_state sp)"
    using v by (metis view_simps(2))
  moreover have "same_shared (flushed b) (view (sp_state sp'))"
    unfolding v using assms(1, 2) by (intro flush_copies) (simp_all add: tracks_view)
  ultimately show ?thesis using run by (auto simp: same_shared_view)
qed

lemma sync_step_ok: "sync_step cr d c env x y \<Longrightarrow> sync_ok x \<Longrightarrow> sync_ok y"
proof (induction rule: sync_step.induct)
  case (local_op b b' sp st)
  then show ?case
    using backend_op_steps steps_ok tracks_steps by (simp add: sync_ok_def) blast
next
  case (message now e s b err s' b' sp st)
  then show ?case
    using client_event_steps steps_ok tracks_steps by (simp add: sync_ok_def) blast
next
  case (flush now b sp st sp' st')
  then show ?case
    using flush_handled [of b sp env now st]
    by (auto simp: sync_ok_def backend_ok_flushed same_tracks)
next
  case (server sp' sp b st st')
  then show ?case by (simp add: sync_ok_def) (metis tracks_view view_simps(2))
qed

interpretation sync: inv_system
    "\<lambda>(b, sp, st). backend_ok b \<and> copies b (sp_state sp) \<and> \<not> pk_is_zero (sps_public_key (sp_state sp))"
    "sync_step cr d c env" sync_ok for cr d c env
proof unfold_locales
  fix x :: "Backend \<times> ServerPeer \<times> State"
  assume "case x of (b, sp, st) \<Rightarrow>
    backend_ok b \<and> copies b (sp_state sp) \<and> \<not> pk_is_zero (sps_public_key (sp_state sp))"
  then show "sync_ok x" by (auto simp: sync_ok_def copies_same same_tracks)
qed (rule sync_step_ok)

end
