(* ===== verification/SyncLive.thy ===== *)
theory SyncLive
  imports Sync
begin

section \<open>Pending changes are flushed\<close>

text \<open>
  An operation that does not fail and leaves something pending also leaves the permit of
  \<open>client_notify\<close>, so that the next turn of an authenticated session flushes it. An operation
  that fails half way is not covered: a creation that fails while its properties are saved leaves
  the object pending without a permit.
\<close>

definition pending :: "Backend \<Rightarrow> bool" where
  "pending b \<longleftrightarrow> bk_props_changed b \<noteq> [] \<or> bk_objects_changed b \<noteq> [] \<or> bk_objects_added b \<noteq> [] \<or>
     bk_objects_removed b \<noteq> [] \<or> bk_images_added b \<noteq> [] \<or> bk_images_removed b \<noteq> []"

definition notified :: "Backend \<Rightarrow> bool" where
  "notified b \<longleftrightarrow> (pending b \<longrightarrow> bk_client_notify b)"

inductive done_op :: "Crypto \<Rightarrow> Descriptive \<Rightarrow> Backend \<Rightarrow> Backend \<Rightarrow> bool" for cr d where
  done_object_update: "done_op cr d b (object_update i kvs b)"
| done_updates: "done_op cr d b (updates cr channel kvs b)"
| done_create_object: "props_ok props \<Longrightarrow> create_object d ty props b = (Inr ob, b') \<Longrightarrow> done_op cr d b b'"
| done_remove_object: "allocated b i \<Longrightarrow> remove_object cr i b = (None, b') \<Longrightarrow> done_op cr d b b'"
| done_insert_image: "insert_image content_type role width height bytes b = (Inr i, b') \<Longrightarrow>
    done_op cr d b b'"
| done_remove_image: "allocated b i \<Longrightarrow> remove_image i b = (None, b') \<Longrightarrow> done_op cr d b b'"
| done_flush: "done_op cr d b (flushed (b\<lparr>bk_client_notify := False\<rparr>))"

text \<open>Nothing becomes pending without a permit.\<close>

definition calls :: "Backend \<Rightarrow> Backend \<Rightarrow> bool" where
  "calls b b' \<longleftrightarrow> bk_client_notify b' \<or> \<not> bk_client_notify b \<and> (pending b' \<longrightarrow> pending b)"

lemma calls_refl [simp]: "calls b b"
  by (simp add: calls_def)

lemma calls_trans: "calls b b1 \<Longrightarrow> calls b1 b2 \<Longrightarrow> calls b b2"
  by (auto simp: calls_def)

lemma calls_notified: "calls b b' \<Longrightarrow> notified b \<Longrightarrow> notified b'"
  by (auto simp: calls_def notified_def)

lemma pending_shared: "shared b = shared b' \<Longrightarrow> pending b = pending b'"
  by (simp add: pending_def sharedD [of b b'])

lemma calls_same: "shared b' = shared b \<Longrightarrow> bk_client_notify b' = bk_client_notify b \<Longrightarrow> calls b b'"
  using pending_shared [of b' b] by (auto simp: calls_def)

lemma notify_object_update_link [simp]:
  "bk_client_notify (object_update_link i kvs b) = bk_client_notify b"
proof (induction i kvs b rule: object_update_link.induct)
  case (2 i key v kvs b)
  then show ?case by (simp add: Let_def split: option.split)
qed simp

lemma calls_object_update: "calls b (object_update i kvs b)"
proof -
  let ?b = "object_update_link i kvs b"
  have "calls b ?b" by (rule calls_same) (simp_all add: shared_object_update_link)
  moreover have "calls ?b (object_update i kvs b)"
    by (auto simp: object_update_def Let_def calls_def hm_insert_same split: option.split)
  ultimately show ?thesis by (rule calls_trans)
qed

lemma calls_update_prop: "calls b (update_prop key v b)"
  by (auto simp: update_prop_def Let_def calls_def pending_def)

lemma calls_updates_loop: "updates_loop cr kvs fl b = (fl', b') \<Longrightarrow> calls b b'"
proof (induction kvs arbitrary: fl b)
  case (Cons x kvs)
  obtain key v where x: "x = (key, v)" by (cases x)
  from updates_loop_Cons [of b cr key v kvs fl] Cons.prems x
  obtain fl1 b1 where b1: "shared b1 = shared b" "bk_client_notify b1 = bk_client_notify b" and
    "updates_loop cr kvs fl1 b1 = (fl', b') \<or> updates_loop cr kvs fl1 (update_prop key v b1) = (fl', b')"
    by metis
  then have "calls b1 b' \<or> calls (update_prop key v b1) b'" using Cons.IH by blast
  with calls_update_prop calls_same [OF b1] show ?case by (meson calls_trans)
qed simp

lemma calls_fold_broadcast: "calls b (fold (\<lambda>(key, v). broadcast (ev key v)) kvs b)"
proof (rule calls_same [OF shared_fold_broadcast])
  show "bk_client_notify (fold (\<lambda>(key, v). broadcast (ev key v)) kvs b) = bk_client_notify b"
  proof (induction kvs arbitrary: b)
    case (Cons x kvs)
    then show ?case by (cases x) simp
  qed simp
qed

lemma calls_updates: "calls b (updates cr channel kvs b)"
proof -
  obtain fl b1 where l: "updates_loop cr kvs
      \<lparr>uf_mumblelink = False, uf_client = False, uf_public_key = None\<rparr> b = (fl, b1)" by fastforce
  let ?b2 = "fold (\<lambda>(key, v). broadcast (BUpdate (UConfig channel key v))) kvs b1"
  have last: "calls ?b2 (updates cr channel kvs b)"
    by (rule calls_same) (simp_all add: updates_def l Let_def sharing split: option.split)
  show ?thesis
    by (rule calls_trans [OF calls_trans [OF calls_updates_loop [OF l] calls_fold_broadcast] last])
qed

lemma notify_create_object:
  "create_object d ty props b = (Inr ob, b') \<Longrightarrow> bk_client_notify b'"
  by (clarsimp simp: create_object_def Let_def split: prod.splits option.splits)

lemma notify_remove_object: "remove_object cr i b = (None, b') \<Longrightarrow> bk_client_notify b'"
  by (clarsimp simp: remove_object_def Let_def split: prod.splits option.splits)

lemma notify_insert_image:
  "insert_image content_type role width height bytes b = (Inr i, b') \<Longrightarrow> bk_client_notify b'"
  by (auto simp: insert_image_def Let_def split: prod.splits option.splits)

lemma notify_with_db: "with_db f b = (e, b') \<Longrightarrow> bk_client_notify b' = bk_client_notify b"
  by (auto simp: with_db_def split: prod.splits)

lemma notify_clear_image_keys:
  "clear_image_keys img i keys any b = (r, b') \<Longrightarrow> bk_client_notify b' = bk_client_notify b"
proof (induction keys arbitrary: any b)
  case (Cons key keys)
  show ?case
  proof (cases "hm_get (bk_objects b) i")
    case (Some ob)
    show ?thesis
    proof (cases "as_id (props_get (lo_props ob) key) = img")
      case True
      let ?b1 = "b\<lparr>bk_objects := hm_insert i (ob\<lparr>lo_props := snd (props_remove key (lo_props ob)),
          lo_changed := hs_insert key (lo_changed ob)\<rparr>) (bk_objects b),
        bk_objects_changed := hs_insert (lo_id ob) (bk_objects_changed b)\<rparr>"
      obtain e b2 where w: "with_db (db_remove_property (lo_id ob) key) ?b1 = (e, b2)" by fastforce
      with Cons Some True notify_with_db [OF w] show ?thesis
        by (cases e) (fastforce simp: Let_def)+
    qed (use Cons Some in simp)
  qed (use Cons in simp)
qed simp

lemma notify_clear_image_refs:
  "clear_image_refs img is any b = (r, b') \<Longrightarrow> bk_client_notify b' = bk_client_notify b"
proof (induction "is" arbitrary: any b)
  case (Cons i "is")
  obtain r1 b1 where k: "clear_image_keys img i [KEY_IMAGE_ID, KEY_ROOM_BACKGROUND] any b = (r1, b1)"
    by fastforce
  with Cons notify_clear_image_keys [OF k] show ?case by (cases r1) auto
qed simp

lemma notify_remove_image: "remove_image i b = (None, b') \<Longrightarrow> bk_client_notify b'"
  by (auto simp: remove_image_def Let_def dest!: notify_clear_image_refs
      split: prod.splits option.splits sum.splits if_splits)

lemma not_pending_flushed [simp]: "\<not> pending (flushed b)"
  by (simp add: pending_def flushed_def)

lemma done_op_notified: "done_op cr d b b' \<Longrightarrow> notified b \<Longrightarrow> notified b'"
proof (induction rule: done_op.induct)
  case (done_object_update b i kvs)
  then show ?case using calls_notified [OF calls_object_update] by blast
next
  case (done_updates b channel kvs)
  then show ?case using calls_notified [OF calls_updates] by blast
qed (auto simp: notified_def dest: notify_create_object notify_remove_object notify_insert_image
    notify_remove_image)

lemma done_op_ok: "done_op cr d b b' \<Longrightarrow> backend_ok b \<Longrightarrow> backend_ok b'"
proof (induction rule: done_op.induct)
  case (done_flush b)
  then show ?case
    using backend_ok_flushed backend_ok_shared [of "b\<lparr>bk_client_notify := False\<rparr>" b]
    by (simp add: shared_simps)
qed (metis backend_op.intros backend_op_steps snd_conv steps_ok)+

lemma backend_new_pending:
  "backend_new cr d secret seed db = Inr b \<Longrightarrow>
     bk_props_changed b = [] \<and> bk_objects_changed b = [] \<and> bk_objects_added b = [] \<and>
     bk_objects_removed b = [] \<and> bk_images_added b = [] \<and> bk_images_removed b = []"
  by (auto simp: backend_new_def Let_def split: prod.splits option.splits if_splits)

interpretation live: inv_system
    "\<lambda>b. \<exists>secret seed db. backend_new cr d secret seed db = Inr b" "done_op cr d"
    "\<lambda>b. backend_ok b \<and> notified b" for cr d
proof unfold_locales
  fix b
  assume "\<exists>secret seed db. backend_new cr d secret seed db = Inr b"
  then obtain secret seed db where b: "backend_new cr d secret seed db = Inr b" by blast
  then have "\<not> pending b" using backend_new_pending [OF b] by (simp add: pending_def)
  with backend_new_ok [OF b] show "backend_ok b \<and> notified b" by (simp add: notified_def)
qed (use done_op_ok done_op_notified in blast)

text \<open>
  C12. In every state reached by operations that do not fail and by flushes, what is pending
  is sent by the next turn of an authenticated session: the queue of the connection is
  extended by exactly the pending changes, and nothing is pending afterwards.
\<close>

theorem changes_are_flushed:
  assumes "backend_new cr d secret seed db = Inr b0" "(done_op cr d)\<^sup>*\<^sup>* b0 b" "pending b"
    and "cs_authenticated s" "peer_ok (cs_peer s)" "p_scratch (cs_peer s) = []"
    and "\<forall>e\<in>set (flush_events b). encodable c e"
  shows "\<exists>s' b'. session_flush c s b = (True, s', b') \<and> b' = flushed (b\<lparr>bk_client_notify := False\<rparr>) \<and>
    \<not> pending b' \<and> read_buf (p_write (cs_peer s')) =
      read_buf (p_write (cs_peer s)) @ concat (map (frame c) (flush_events b))"
proof -
  have ok: "backend_ok b" "bk_client_notify b"
    using live.inv_reachable [OF _ assms(2)] assms(1, 3) by (auto simp: notified_def)
  let ?b = "b\<lparr>bk_client_notify := False\<rparr>"
  have e: "flush_events ?b = flush_events b" by (simp add: flush_events_def)
  obtain ok p where s: "send_all c (flush_events b) (cs_peer s) = (ok, p)" by fastforce
  then have "ok" using send_all_ready [OF assms(5-7) s] by simp
  moreover have "distinct (bk_objects_changed ?b)"
    using ok(1) by (simp add: backend_ok_def objects_ok_def)
  ultimately have "client_flush c (cs_peer s) ?b = (True, p, flushed ?b)"
    using s by (intro client_flush_sends) (simp_all add: e)
  moreover have "read_buf (p_write p) =
      read_buf (p_write (cs_peer s)) @ concat (map (frame c) (flush_events b))"
    using send_all_frames [OF assms(5-7)] s by simp
  ultimately show ?thesis using assms(4) ok(2) by (simp add: session_flush_def)
qed

text \<open>The demonstration backend, after it was given a name.\<close>

definition demo_named :: Backend where
  "demo_named = updates demo_crypto CHANNEL_NONE [(KEY_PEER_NAME, VString ''me'')] demo_backend"

lemma demo_named_events:
  "flush_events demo_named = [PeerUpdate (PeerUpdateBody KEY_PEER_NAME (VString ''me''))]"
  "pending demo_named"
proof -
  note backend_new_pending [OF demo_backend_new]
  then show "flush_events demo_named = [PeerUpdate (PeerUpdateBody KEY_PEER_NAME (VString ''me''))]"
    "pending demo_named"
    by (simp_all add: demo_named_def updates_def update_prop_def Let_def key_is_remote_def
        hs_insert_def notify_client_def broadcast_def pending_def flush_events_def changed_events_def
        map_filter_def props_get_put value_norm_def)
qed

theorem changes_are_flushed_witness:
  "\<exists>s' b'. session_flush (e_codec demo_env) (demo_session\<lparr>cs_authenticated := True\<rparr>) demo_named =
      (True, s', b') \<and> b' = flushed (demo_named\<lparr>bk_client_notify := False\<rparr>) \<and> \<not> pending b' \<and>
    read_buf (p_write (cs_peer s')) = read_buf (p_write (cs_peer demo_session)) @
      frame (e_codec demo_env) (PeerUpdate (PeerUpdateBody KEY_PEER_NAME (VString ''me'')))"
proof -
  have r: "(done_op demo_crypto demo_descriptive)\<^sup>*\<^sup>* demo_backend demo_named"
    unfolding demo_named_def by (intro r_into_rtranclp done_updates)
  have s: "cs_authenticated (demo_session\<lparr>cs_authenticated := True\<rparr>)"
    "peer_ok (cs_peer (demo_session\<lparr>cs_authenticated := True\<rparr>))"
    "p_scratch (cs_peer (demo_session\<lparr>cs_authenticated := True\<rparr>)) = []"
    using demo_session_ready by simp_all
  have e: "\<forall>e\<in>set (flush_events demo_named). encodable (e_codec demo_env) e"
    by (simp add: demo_encodable)
  show ?thesis
    using changes_are_flushed [OF demo_backend_new r demo_named_events(2) s e]
    by (simp add: demo_named_events)
qed

text \<open>
  C1. From a connection that the server has accepted on, whatever the local operations, the
  messages of the server, the flushes, and the failures of database statements: the pending
  changes of the client, handled by the server, are accepted and make the server's
  copy of its objects, images and properties equal to the client's.
\<close>

theorem server_copy_is_refined:
  assumes "backend_ok b0" "copies b0 (sp_state sp0)" "\<not> pk_is_zero (sps_public_key (sp_state sp0))"
    and "(sync_step cr d c env)\<^sup>*\<^sup>* (b0, sp0, st0) (b, sp, st)"
  shows "\<exists>sp' st'. server_events env now (flush_events b) sp st = (None, sp', st') \<and>
    same_shared (flushed b) (sp_state sp')"
proof -
  have "sync_ok (b, sp, st)"
    using sync.inv_reachable [OF _ assms(4)] assms(1-3) by simp
  then show ?thesis using flush_handled by (fastforce simp: sync_ok_def)
qed

text \<open>A peer at the server that has what \<open>demo_backend\<close> shares.\<close>

definition demo_copy :: ServerPeer where
  "demo_copy = (server_peer_new 0 2 (peer_new client_plain) (PeerId_new 2))\<lparr>sp_state :=
     (sp_state (server_peer_new 0 2 (peer_new client_plain) (PeerId_new 2)))\<lparr>sps_public_key := demo_key\<rparr>\<rparr>"

theorem server_copy_is_refined_witness:
  "\<exists>sp' st'. server_events demo_env 0 [PeerUpdate (PeerUpdateBody KEY_PEER_NAME (VString ''me''))]
      demo_copy (state_new 7) = (None, sp', st') \<and> same_shared (flushed demo_named) (sp_state sp')"
proof -
  have c: "copies demo_backend (sp_state demo_copy)"
    by (auto simp: copies_def demo_copy_def server_peer_new_def fun_eq_iff key_is_remote_def
        props_get_def hm_get_def props_new_def)
  have k: "\<not> pk_is_zero (sps_public_key (sp_state demo_copy))"
    by (simp add: demo_copy_def demo_key_def pk_is_zero_def PublicKey_ZERO_def
        replicate_eq_replicate)
  have "(sync_step demo_crypto demo_descriptive (e_codec demo_env) demo_env)\<^sup>*\<^sup>*
      (demo_backend, demo_copy, state_new 7) (demo_named, demo_copy, state_new 7)"
    unfolding demo_named_def by (intro r_into_rtranclp local_op op_updates)
  from server_copy_is_refined [OF backend_new_ok [OF demo_backend_new] c k this, of 0]
  show ?thesis by (simp add: demo_named_events)
qed

end
