(* ===== verification/BackendProps.thy ===== *)
theory BackendProps
  imports BackendInv
begin

section \<open>Creating, removing and loading\<close>

text \<open>
  What a creation gives, in memory and, after a restart, from the database.
\<close>

lemma max_fold: "(x :: 'a :: linorder) \<le> fold max xs x \<and> (\<forall>y\<in>set xs. y \<le> fold max xs x)"
proof (induction xs arbitrary: x)
  case (Cons y xs)
  from Cons.IH [of "max y x"] show ?case by (auto intro: order_trans)
qed simp

lemma last_sort_max:
  assumes "hm_get objects j = Some ob"
  shows "\<exists>s. last_sort objects = Some s \<and> as_bytes (props_get (lo_props ob) KEY_SORT) \<le> s"
proof -
  let ?sorts = "map (\<lambda>ob. as_bytes (props_get (lo_props ob) KEY_SORT)) (hm_values objects)"
  have m: "as_bytes (props_get (lo_props ob) KEY_SORT) \<in> set ?sorts"
    using hm_get_mem [OF assms] by (force simp: hm_values_def)
  then obtain x xs where xs: "?sorts = x # xs" by (cases ?sorts) auto
  with m max_fold [of x xs] show ?thesis by (auto simp: last_sort_def)
qed

definition new_sort :: "Backend \<Rightarrow> Id \<Rightarrow> bytes" where
  "new_sort b i = (case last_sort (bk_objects b) of Some s \<Rightarrow> after s | None \<Rightarrow> id_to_vec i)"

lemma create_object_cases:
  assumes "create_object d ty props b = (Inr ob, b')"
  obtains b1 b2 b3 where
    "new_id b = (Some (ro_id ob), b1)" "with_db (db_insert_object (ro_id ob) ty) b1 = (None, b2)"
    "ro_ty ob = ty"
    "ro_props ob = (if is_global ty then props
       else props_put KEY_SORT (VBytes (new_sort b (ro_id ob))) props)"
    "save_props d (ro_id ob) (ro_props ob) (b2\<lparr>bk_objects := hm_insert (ro_id ob)
        \<lparr>lo_ty = ty, lo_id = ro_id ob, lo_props = ro_props ob, lo_changed = []\<rparr> (bk_objects b2),
       bk_objects_added := hs_insert (ro_id ob) (bk_objects_added b2)\<rparr>) = (None, b3)"
    "b' = notify_client b3" "bk_objects b2 = bk_objects b" "bk_database b1 = bk_database b"
proof -
  obtain r b1 where n: "new_id b = (r, b1)" by fastforce
  with assms obtain i where i: "r = Some i" by (cases r) (auto simp: create_object_def)
  obtain e b2 where w: "with_db (db_insert_object i ty) b1 = (e, b2)" by fastforce
  with assms n i have e: "e = None" by (cases e) (auto simp: create_object_def)
  have same: "bk_objects b2 = bk_objects b" "bk_database b1 = bk_database b"
    using n w i by (auto simp: new_id_def with_db_def split: prod.splits option.splits)
  define ps where "ps = (if is_global ty then props else props_put KEY_SORT (VBytes
      (case last_sort (bk_objects b2) of Some s \<Rightarrow> after s | None \<Rightarrow> id_to_vec i)) props)"
  let ?b = "b2\<lparr>bk_objects := hm_insert i \<lparr>lo_ty = ty, lo_id = i, lo_props = ps, lo_changed = []\<rparr>
      (bk_objects b2), bk_objects_added := hs_insert i (bk_objects_added b2)\<rparr>"
  obtain e' b3 where s: "save_props d i ps ?b = (e', b3)" by fastforce
  have "e' = None" "ob = \<lparr>ro_ty = ty, ro_id = i, ro_props = ps\<rparr>" "b' = notify_client b3"
    using assms n i w e s
    by (auto simp: create_object_def Let_def split: option.splits simp flip: ps_def)
  with n w i e s same show thesis by (intro that [of b1 b2 b3]) (simp_all add: ps_def new_sort_def)
qed

lemma objects_save_props: "save_props d i kvs b = (e, b') \<Longrightarrow> bk_objects b' = bk_objects b"
  using sharedD(1) [OF shared_save_props] by blast

text \<open>
  C27. A creation that succeeds gives the object an identifier that was never handed out before,
  stores it in memory with the properties it returns, and, unless its type is global, gives it
  a sort key behind those of all other objects.
\<close>

theorem created_object_is_last:
  assumes "create_object d ty props b = (Inr ob, b')"
  shows "ro_ty ob = ty \<and> \<not> allocated b (ro_id ob) \<and>
    bk_objects b' = hm_insert (ro_id ob)
      \<lparr>lo_ty = ty, lo_id = ro_id ob, lo_props = ro_props ob, lo_changed = []\<rparr> (bk_objects b) \<and>
    (\<forall>j other. hm_get (bk_objects b) j = Some other \<longrightarrow> \<not> is_global ty \<longrightarrow>
       as_bytes (props_get (lo_props other) KEY_SORT) < as_bytes (props_get (ro_props ob) KEY_SORT))"
  using assms
proof (cases rule: create_object_cases)
  case (1 b1 b2 b3)
  let ?i = "ro_id ob"
  have obs: "bk_objects b' = hm_insert ?i
      \<lparr>lo_ty = ty, lo_id = ?i, lo_props = ro_props ob, lo_changed = []\<rparr> (bk_objects b)"
    using objects_save_props [OF 1(5)] 1(6, 7) by (simp add: notify_client_def)
  have last: "as_bytes (props_get (lo_props other) KEY_SORT) < as_bytes (props_get (ro_props ob) KEY_SORT)"
    if other: "hm_get (bk_objects b) j = Some other" and local: "\<not> is_global ty" for j other
  proof -
    obtain s where s: "last_sort (bk_objects b) = Some s"
      "as_bytes (props_get (lo_props other) KEY_SORT) \<le> s" using last_sort_max [OF other] by blast
    have "s < after s" using after_spec [of s] by simp
    moreover from this have "after s \<noteq> []" by auto
    ultimately show ?thesis
      using s 1(4) local by (simp add: new_sort_def props_get_put value_norm_def)
  qed
  show ?thesis
    using new_id_shared [OF 1(1)] 1(3) last by (simp add: obs)
qed

subsection \<open>Restarting\<close>

lemma save_props_db:
  "save_props d i kvs b = (e, b') \<Longrightarrow>
     bk_database b' = snd (db_set_properties d (map (\<lambda>(key, v). (i, key, v)) kvs) (bk_database b))"
proof (induction kvs arbitrary: b)
  case (Cons x kvs)
  obtain key v where x: "x = (key, v)" by (cases x)
  obtain e1 db1 where s: "db_set_property d i key v (bk_database b) = (e1, db1)" by fastforce
  then have w: "with_db (db_set_property d i key v) b = (map_option DbFailed e1, b\<lparr>bk_database := db1\<rparr>)"
    by (simp add: with_db_def)
  show ?case
  proof (cases e1)
    case None
    with Cons.prems x w have "save_props d i kvs (b\<lparr>bk_database := db1\<rparr>) = (e, b')" by simp
    from Cons.IH [OF this] s None x show ?thesis by simp
  next
    case (Some err)
    with Cons.prems s w x show ?thesis by auto
  qed
qed simp

lemma db_objects_set_properties:
  "db_objects (snd (db_set_properties d kvs db)) = db_objects db"
proof (induction d kvs db rule: db_set_properties.induct)
  case (2 d i key v kvs db)
  have "db_objects (snd (db_set_property d i key v db)) = db_objects db"
    by (auto simp: db_set_property_def db_exec_def split: sum.splits Outcome.splits list.splits prod.splits bool.splits)
  with 2 show ?case by (auto split: prod.split option.split)
qed simp

lemma last_written_one:
  assumes "distinct (map fst kvs)"
  shows "last_written (map (\<lambda>(key, v). (i, key, v)) kvs) (i, key) = map_of kvs key"
proof -
  have "map (\<lambda>(i, key, v). ((i, key), v)) (map (\<lambda>(key, v). (i, key, v)) kvs) = map (\<lambda>(key, v). ((i, key), v)) kvs"
    by auto
  moreover have "map_of (rev (map (\<lambda>(key, v). ((i, key), v)) kvs)) (i, key) = map_of (rev kvs) key"
  proof (induction kvs)
    case (Cons x kvs)
    then show ?case by (cases x) (auto simp: map_add_def split: option.split)
  qed simp
  ultimately show ?thesis
    unfolding last_written_def by (simp only: map_of_rev_distinct [OF assms])
qed

text \<open>What loading makes of the properties of an object: a missing sort key is made up.\<close>

definition loaded :: "Id \<Rightarrow> (Key \<Rightarrow> Value) \<Rightarrow> Key \<Rightarrow> Value" where
  "loaded i f key =
     (if key = KEY_SORT \<and> f KEY_SORT = VEmpty then value_norm (VBytes (id_to_vec i)) else f key)"

lemma get_load_object:
  assumes "hm_wf (db_props db)"
  shows "props_get (lo_props (load_object d db i ty)) key = loaded i (\<lambda>key. db_read d db (i, key)) key"
proof -
  let ?ps = "props_from_iter (db_properties d i db)"
  have "props_ok ?ps" by (simp add: props_from_iter_def props.wf_put_all)
  then have "hm_get ?ps KEY_SORT \<noteq> Some VEmpty"
    using value_is_empty.simps(1) unfolding props_ok_def by blast
  then have "props_contains ?ps KEY_SORT \<longleftrightarrow> props_get ?ps KEY_SORT \<noteq> VEmpty"
    by (auto simp: props_contains_def props_get_def split: option.split)
  then show ?thesis
    by (simp add: load_object_def Let_def loaded_def db_read_def props_get_put)
qed

text \<open>
  C28. An object that was created is loaded again after a restart, with its type and with the
  properties it was created with; a property it was not created with is the one the database
  has for the identifier, which may stem from an object removed before, since
  removing an object leaves its properties.
\<close>

theorem created_object_is_loaded:
  assumes "descriptive_ok d" "db_ok (bk_database b)" "create_object d ty props b = (Inr ob, b')"
    and "props_ok props" "list_all (\<lambda>(key, v). storable key v) (ro_props ob)"
    and "backend_new cr d secret seed (bk_database b') = Inr b2"
  shows "\<exists>lo. hm_get (bk_objects b2) (ro_id ob) = Some lo \<and> lo_ty lo = ty \<and>
    props_get (lo_props lo) = loaded (ro_id ob) (\<lambda>key.
      if props_contains (ro_props ob) key then stored (props_get (ro_props ob) key)
      else db_read d (bk_database b) (ro_id ob, key))"
  using assms(3)
proof (cases rule: create_object_cases)
  case (1 b1 b2' b3)
  let ?i = "ro_id ob" and ?ps = "ro_props ob"
  let ?kvs = "map (\<lambda>(key, v). (?i, key, v)) ?ps"
  have db2: "db_objects (bk_database b2') = db_objects (bk_database b) @ [(?i, ty)]"
    "db_props (bk_database b2') = db_props (bk_database b)" "db_ok (bk_database b2')"
    using 1(2, 8) assms(2)
    by (auto simp: with_db_def db_insert_object_def db_exec_def db_ok_def split: prod.splits if_splits)
  have "list_all entry_ok ?kvs"
    using assms(5) by (auto simp: list_all_iff entry_ok_def)
  from set_properties_reads [OF assms(1) this db2(3)] obtain db' where db': "db_ok db'"
    "db_set_properties d ?kvs (bk_database b2') = (None, db')"
    "\<forall>ik. db_read d db' ik = (case last_written ?kvs ik of Some v \<Rightarrow> stored v
       | None \<Rightarrow> db_read d (bk_database b2') ik)"
    by (metis append_Nil2 db_set_properties.simps(1))
  have new: "bk_database b' = db'"
    using save_props_db [OF 1(5)] db'(2) 1(6) by (simp add: notify_client_def)
  have rows: "db_objects db' = db_objects (bk_database b) @ [(?i, ty)]"
    using db_objects_set_properties [of d ?kvs "bk_database b2'"] db'(2) db2(1) by simp
  have "bk_objects b2 = fold (\<lambda>(i, ty). hm_insert i (load_object d db' i ty)) (db_objects db') []"
    using assms(6) by (auto simp: new backend_new_def Let_def split: prod.splits option.splits)
  then have lo: "hm_get (bk_objects b2) ?i = Some (load_object d db' ?i ty)"
    by (simp add: rows hm_get_insert)
  have d: "distinct (map fst ?ps)"
    using assms(4) props.wf_put [OF assms(4)] unfolding 1(4) props_ok_def hm_wf_def by simp
  have same: "db_read d (bk_database b2') ik = db_read d (bk_database b) ik" for ik
    using db2(2) by (simp add: db_read_def db_properties_def)
  have "db_read d db' (?i, key) = (if props_contains ?ps key then stored (props_get ?ps key)
      else db_read d (bk_database b) (?i, key))" for key
    using db'(3) last_written_one [OF d, of ?i key] same
    by (auto simp: props_contains_def props_get_def hm_get_def simp del: split_paired_All split: option.split)
  then show ?thesis
    using lo get_load_object [of db' d ?i ty] db'(1)
    by (intro exI [of _ "load_object d db' ?i ty"])
      (simp add: fun_eq_iff db_ok_def load_object_def Let_def)
qed

subsection \<open>When a creation succeeds\<close>

lemma save_props_succeeds:
  "db_set_properties d (map (\<lambda>(key, v). (i, key, v)) kvs) (bk_database b) = (None, db') \<Longrightarrow>
     \<exists>b'. save_props d i kvs b = (None, b')"
proof (induction kvs arbitrary: b)
  case (Cons x kvs)
  obtain key v where x: "x = (key, v)" by (cases x)
  obtain e1 db1 where s: "db_set_property d i key v (bk_database b) = (e1, db1)" by fastforce
  with Cons.prems x have e: "e1 = None"
    "db_set_properties d (map (\<lambda>(key, v). (i, key, v)) kvs) db1 = (None, db')"
    by (cases e1; simp)+
  from Cons.IH [of "b\<lparr>bk_database := db1\<rparr>"] s e x show ?case by (simp add: with_db_def)
qed simp

lemma storable_sort: "storable KEY_SORT (VBytes bs)"
  by (simp add: storable_def value_type_def key_ty_def key_types_def)

lemma create_object_succeeds:
  assumes "descriptive_ok d" "db_ok (bk_database b)" "new_id b = (Some i, b1)"
    and "(i, ty) \<notin> set (db_objects (bk_database b))" "\<And>s. list_all (\<lambda>(key, v). storable key v)
      (if is_global ty then props else props_put KEY_SORT (VBytes s) props)"
  shows "\<exists>ob b'. create_object d ty props b = (Inr ob, b') \<and> db_ok (bk_database b') \<and>
    list_all (\<lambda>(key, v). storable key v) (ro_props ob)"
proof -
  have db1: "bk_database b1 = bk_database b"
    using assms(3) by (auto simp: new_id_def split: prod.splits option.splits)
  obtain b2 where w: "with_db (db_insert_object i ty) b1 = (None, b2)" "db_ok (bk_database b2)"
    using assms(2, 4) db1 by (auto simp: with_db_def db_insert_object_def db_exec_def db_ok_def)
  define ps where "ps = (if is_global ty then props else props_put KEY_SORT (VBytes
      (case last_sort (bk_objects b2) of Some s \<Rightarrow> after s | None \<Rightarrow> id_to_vec i)) props)"
  have ok: "list_all (\<lambda>(key, v). storable key v) ps"
    using assms(5) unfolding ps_def .
  then have "list_all entry_ok (map (\<lambda>(key, v). (i, key, v)) ps)"
    by (auto simp: list_all_iff entry_ok_def)
  from set_properties_reads [OF assms(1) this w(2)] obtain db' where
    db': "db_set_properties d (map (\<lambda>(key, v). (i, key, v)) ps) (bk_database b2) = (None, db')" "db_ok db'"
    by (metis append_Nil2 db_set_properties.simps(1))
  let ?b = "b2\<lparr>bk_objects := hm_insert i \<lparr>lo_ty = ty, lo_id = i, lo_props = ps, lo_changed = []\<rparr>
      (bk_objects b2), bk_objects_added := hs_insert i (bk_objects_added b2)\<rparr>"
  obtain b3 where s: "save_props d i ps ?b = (None, b3)"
    using save_props_succeeds [of d i ps ?b db'] db' by auto
  then have "db_ok (bk_database b3)" using save_props_db [OF s] db' by simp
  with s show ?thesis
    using assms(3) w(1) ok by (simp add: create_object_def Let_def notify_client_def flip: ps_def)
qed

lemma backend_new_succeeds:
  assumes "descriptive_ok d" "db_ok db"
  shows "\<exists>b. backend_new cr d secret seed db = Inr b"
proof -
  have "storable KEY_PEER_SECRET (VString secret)"
    by (simp add: storable_def value_type_def key_ty_def key_types_def)
  from set_property_reads [OF assms(1) this assms(2)] obtain db' where
    "db_set_property d Id_ZERO KEY_PEER_SECRET (VString secret) db = (None, db')" by blast
  then show ?thesis by (simp add: backend_new_def Let_def)
qed

text \<open>The demonstration backend with one token.\<close>

definition demo_token :: LocalObject where
  "demo_token = \<lparr>lo_ty = TYPE_TOKEN, lo_id = Id_new 3, lo_props = [(KEY_SORT, VBytes [0])], lo_changed = []\<rparr>"

definition demo_props :: Properties where
  "demo_props = [(KEY_NAME, VString ''a'')]"

lemma demo_creates:
  assumes "bk_ids b = aids_new 7" "bk_used_ids b = []" "db_ok (bk_database b)"
    and "db_objects (bk_database b) = []"
  shows "\<exists>ob b'. create_object demo_descriptive TYPE_TOKEN demo_props b = (Inr ob, b') \<and>
    db_ok (bk_database b') \<and> list_all (\<lambda>(key, v). storable key v) (ro_props ob)"
proof -
  have "new_id b = (Some (Id_new (map_id 1 7)), b\<lparr>bk_ids := snd (aids_next (aids_new 7)),
      bk_used_ids := [map_id 1 7]\<rparr>)"
    using assms(1, 2)
    by (simp add: new_id_def new_id_loop.simps [of "[]"] aids_next_def aids_new_def non_zero_def
        Let_def hs_insert_def)
  then show ?thesis
  proof (rule create_object_succeeds [OF demo_descriptive_ok assms(3)])
    show "list_all (\<lambda>(key, v). storable key v) (if is_global TYPE_TOKEN then demo_props
        else props_put KEY_SORT (VBytes s) demo_props)" for s
      using storable_sort [of s]
      by (auto simp: demo_props_def props_put_eq hm_remove_def hm_insert_def storable_def value_type_def
          key_ty_def key_types_def)
  qed (simp add: assms(4))
qed

text \<open>The witnesses: a token is created beside another one, and loaded again.\<close>

definition demo_crowded :: Backend where
  "demo_crowded = demo_backend\<lparr>bk_objects := [(Id_new 3, demo_token)], bk_database := empty_db\<rparr>"

theorem created_object_is_last_witness:
  "\<exists>ob b'. create_object demo_descriptive TYPE_TOKEN demo_props demo_crowded = (Inr ob, b') \<and>
     ro_ty ob = TYPE_TOKEN \<and>
     bk_objects b' = hm_insert (ro_id ob) \<lparr>lo_ty = TYPE_TOKEN, lo_id = ro_id ob,
       lo_props = ro_props ob, lo_changed = []\<rparr> [(Id_new 3, demo_token)] \<and>
     [0] < as_bytes (props_get (ro_props ob) KEY_SORT)"
proof -
  obtain ob b' where c: "create_object demo_descriptive TYPE_TOKEN demo_props demo_crowded = (Inr ob, b')"
    using demo_creates [of demo_crowded] by (auto simp: demo_crowded_def empty_db_def db_ok_def)
  have "hm_get (bk_objects demo_crowded) (Id_new 3) = Some demo_token" "\<not> is_global TYPE_TOKEN"
    by (simp_all add: demo_crowded_def hm_get_def is_global_def)
  with created_object_is_last [OF c] c show ?thesis
    by (fastforce simp: demo_crowded_def demo_token_def props_get_def hm_get_def)
qed

theorem created_object_is_loaded_witness:
  "\<exists>ob b' b2 lo. create_object demo_descriptive TYPE_TOKEN demo_props
       (demo_backend\<lparr>bk_database := empty_db\<rparr>) = (Inr ob, b') \<and>
     backend_new demo_crypto demo_descriptive ''words'' 8 (bk_database b') = Inr b2 \<and>
     hm_get (bk_objects b2) (ro_id ob) = Some lo \<and> lo_ty lo = TYPE_TOKEN \<and>
     props_get (lo_props lo) KEY_NAME = stored (props_get (ro_props ob) KEY_NAME)"
proof -
  let ?b = "demo_backend\<lparr>bk_database := empty_db\<rparr>"
  have db: "db_ok (bk_database ?b)" by simp
  obtain ob b' where c: "create_object demo_descriptive TYPE_TOKEN demo_props ?b = (Inr ob, b')"
    and st: "list_all (\<lambda>(key, v). storable key v) (ro_props ob)" and db': "db_ok (bk_database b')"
    using demo_creates [of ?b] by (auto simp: empty_db_def db_ok_def)
  have p: "props_ok demo_props"
    by (simp add: demo_props_def props_ok_def hm_wf_def hm_get_def)
  have "\<exists>b2. backend_new demo_crypto demo_descriptive ''words'' 8 (bk_database b') = Inr b2"
    by (rule backend_new_succeeds [OF demo_descriptive_ok db'])
  then obtain b2 where n: "backend_new demo_crypto demo_descriptive ''words'' 8 (bk_database b') = Inr b2"
    by blast
  from c have "props_contains (ro_props ob) KEY_NAME"
    by (cases rule: create_object_cases)
      (simp add: props_contains_def props_put_eq demo_props_def hm_get_def hm_remove_def hm_insert_def)
  with created_object_is_loaded [OF demo_descriptive_ok db c p st n] c n show ?thesis
    by (auto simp: loaded_def)
qed

end
