(* ===== verification/Imaging.thy ===== *)
theory Imaging
  imports Values
begin

section \<open>Uploaded images: \<^verbatim>\<open>crates/mumbler/src/web/imaging.rs\<close>\<close>

text \<open>
  Cropping, scaling and padding of an uploaded image. Decoding, resampling and encoding are
  those of the image crate, the parameter \<open>ImageLib\<close> over its type of images. Arithmetic is
  that of a release build, so that \<open>u32\<close> operations wrap; a division by zero panics.
\<close>

type_synonym Pixel = "u8 \<times> u8 \<times> u8 \<times> u8"

datatype ImageSizing = Sizing_Crop | Sizing_Square

definition sizing_is_square :: "ImageSizing \<Rightarrow> bool" where
  "sizing_is_square s \<longleftrightarrow> s = Sizing_Square"

datatype ImagingError = Undecodable | ZeroSized | TooLarge | Unencodable | DivisionByZero

record 'img ImageLib =
  il_decode :: "bytes \<Rightarrow> 'img option"
  il_dims :: "'img \<Rightarrow> u32 \<times> u32"
  il_crop :: "u32 \<Rightarrow> u32 \<Rightarrow> u32 \<Rightarrow> u32 \<Rightarrow> 'img \<Rightarrow> 'img"
  il_resize :: "u32 \<Rightarrow> u32 \<Rightarrow> 'img \<Rightarrow> 'img"
  il_pixels :: "'img \<Rightarrow> Pixel list"
  il_filled :: "u32 \<Rightarrow> u32 \<Rightarrow> Pixel \<Rightarrow> 'img"
  il_overlay :: "i64 \<Rightarrow> i64 \<Rightarrow> 'img \<Rightarrow> 'img \<Rightarrow> 'img"
  il_encode :: "'img \<Rightarrow> bytes option"

definition saturating_sub :: "u32 \<Rightarrow> u32 \<Rightarrow> u32" where
  "saturating_sub a b = (if b \<le> a then a - b else 0)"

definition crop_rect :: "CropRegion \<Rightarrow> u32 \<Rightarrow> u32 \<Rightarrow> u32 \<times> u32 \<times> u32 \<times> u32" where
  "crop_rect crop img_w img_h =
     (let x = min (crop_x1 crop) (saturating_sub img_w 1);
          y = min (crop_y1 crop) (saturating_sub img_h 1);
          w = max (min (saturating_sub (crop_x2 crop) (crop_x1 crop)) (img_w - x)) 1;
          h = max (min (saturating_sub (crop_y2 crop) (crop_y1 crop)) (img_h - y)) 1
      in (x, y, w, h))"

definition crop_image :: "'img ImageLib \<Rightarrow> CropRegion \<Rightarrow> 'img \<Rightarrow> 'img" where
  "crop_image il crop img =
     (case il_dims il img of
        (img_w, img_h) \<Rightarrow>
          if \<not> is_whole_image crop img_w img_h then
            (case crop_rect crop img_w img_h of (x, y, w, h) \<Rightarrow> il_crop il x y w h img)
          else img)"

text \<open>The size of the scaled image; the caller has checked that neither side is 0.\<close>

definition scaled_size :: "u32 \<Rightarrow> u32 \<Rightarrow> u32 \<Rightarrow> u32 \<times> u32" where
  "scaled_size sz w h =
     (if w \<ge> h then (sz, max (sz * h div w) 1) else (max (sz * w div h) 1, sz))"

definition checked_add :: "u64 \<Rightarrow> u64 \<Rightarrow> u64 option" where
  "checked_add a b = (if unat a + unat b < 2 ^ 64 then Some (a + b) else None)"

fun sum_pixels :: "Pixel list \<Rightarrow> u64 \<times> u64 \<times> u64 \<times> u64 \<Rightarrow> (u64 \<times> u64 \<times> u64 \<times> u64) option" where
  "sum_pixels [] acc = Some acc"
| "sum_pixels ((r1, g1, b1, a1) # ps) (r0, g0, b0, a0) =
     (case (checked_add r0 (ucast r1), checked_add g0 (ucast g1), checked_add b0 (ucast b1),
            checked_add a0 (ucast a1)) of
        (Some r, Some g, Some b, Some a) \<Rightarrow> sum_pixels ps (r, g, b, a)
      | _ \<Rightarrow> None)"

definition u8_or_max :: "u64 \<Rightarrow> u8" where
  "u8_or_max x = (if x \<le> 255 then ucast x else 255)"

definition average :: "Pixel list \<Rightarrow> u32 \<Rightarrow> u32 \<Rightarrow> ImagingError + Pixel" where
  "average pixels new_w new_h =
     (case sum_pixels pixels (0, 0, 0, 0) of
        None \<Rightarrow> Inl TooLarge
      | Some (r, g, b, a) \<Rightarrow>
          let count = ucast (new_w * new_h) :: u64
          in if count = 0 then Inl DivisionByZero
             else Inr (u8_or_max (r div count), u8_or_max (g div count), u8_or_max (b div count),
                       u8_or_max (a div count)))"

definition pad_offset :: "u32 \<Rightarrow> u32 \<Rightarrow> i64" where
  "pad_offset sz len = ucast ((sz - len) div 2)"

definition process ::
    "'img ImageLib \<Rightarrow> bytes \<Rightarrow> CropRegion \<Rightarrow> ImageSizing \<Rightarrow> u32 \<Rightarrow>
     ImagingError + (ContentType \<times> u32 \<times> u32 \<times> bytes)" where
  "process il data crop sizing sz =
     (case il_decode il data of
        None \<Rightarrow> Inl Undecodable
      | Some img \<Rightarrow>
          let rgba = crop_image il crop img
          in case il_dims il rgba of
               (w, h) \<Rightarrow>
                 if \<not> (w > 0 \<and> h > 0) then Inl ZeroSized
                 else case scaled_size sz w h of
                   (new_w, new_h) \<Rightarrow>
                     let small = il_resize il new_w new_h rgba
                     in case average (il_pixels il small) new_w new_h of
                          Inl e \<Rightarrow> Inl e
                        | Inr avg \<Rightarrow>
                            let (out_w, out_h) =
                                  (if sizing_is_square sizing then (sz, sz) else (new_w, new_h));
                                output =
                                  (if sizing_is_square sizing then
                                     il_overlay il (pad_offset sz new_w) (pad_offset sz new_h) small
                                       (il_filled il sz sz avg)
                                   else small)
                            in case il_encode il output of
                                 None \<Rightarrow> Inl Unencodable
                               | Some bytes \<Rightarrow> Inr (CONTENT_PNG, out_w, out_h, bytes))"

subsection \<open>Bounds\<close>

lemma crop_rect_inside:
  assumes "0 < img_w" "0 < img_h" "crop_rect crop img_w img_h = (x, y, w, h)"
  shows "unat x + unat w \<le> unat img_w \<and> unat y + unat h \<le> unat img_h \<and> 0 < w \<and> 0 < h"
proof -
  have dim: "unat (min a (saturating_sub len 1)) +
      unat (max (min l (len - min a (saturating_sub len 1))) 1) \<le> unat len"
    if "0 < len" for a l len :: u32
  proof -
    have one: "1 \<le> len" using that by (simp add: word_le_nat_alt word_less_nat_alt)
    have x: "min a (saturating_sub len 1) \<le> len - 1" using one by (simp add: saturating_sub_def)
    then have x': "unat (min a (saturating_sub len 1)) < unat len"
      using one that by (simp add: word_le_nat_alt word_less_nat_alt unat_sub)
    then have "unat (len - min a (saturating_sub len 1)) = unat len - unat (min a (saturating_sub len 1))"
      by (intro unat_sub) (simp add: word_le_nat_alt)
    then have "unat (max (min l (len - min a (saturating_sub len 1))) 1) \<le>
        unat len - unat (min a (saturating_sub len 1))"
      using x' by (auto simp: max_def min_def word_le_nat_alt)
    with x' show ?thesis by linarith
  qed
  have pos: "0 < max a (1 :: u32)" for a by (simp add: less_max_iff_disj)
  show ?thesis
    using assms(3) dim [OF assms(1)] dim [OF assms(2)] pos by (auto simp: crop_rect_def Let_def)
qed

lemma scaled_side:
  fixes sz w h :: u32
  assumes "0 < sz" "0 < w" "h \<le> w" "unat sz < 2 ^ 16" "unat h < 2 ^ 16"
  shows "0 < max (sz * h div w) 1" "max (sz * h div w) 1 \<le> sz"
proof -
  have "unat sz * unat h < 2 ^ 16 * 2 ^ 16"
    using assms(4, 5) by (intro mult_strict_mono) simp_all
  then have m: "unat (sz * h) = unat sz * unat h" by (subst unat_mult_lem [symmetric]) simp
  have "unat sz * unat h div unat w \<le> unat sz * unat w div unat w"
    using assms(3) by (intro div_le_mono mult_le_mono2) (simp add: word_le_nat_alt)
  also have "\<dots> = unat sz" using assms(2) by (simp add: word_less_nat_alt)
  finally have "unat (sz * h div w) \<le> unat sz" using m by (simp add: unat_div)
  then have "sz * h div w \<le> sz" by (simp add: word_le_nat_alt)
  then show "max (sz * h div w) 1 \<le> sz"
    using assms(1) by (auto simp: max_def word_le_nat_alt word_less_nat_alt)
  show "0 < max (sz * h div w) 1" by (simp add: less_max_iff_disj)
qed

text \<open>
  What \<open>process\<close> relies on: a crop is cut off where the image ends (the image crate clamps the
  corner to the image and the size to what is left of it), a resized image has the size asked
  for, and an image has one pixel per coordinate.
\<close>

definition clamped :: "u32 \<Rightarrow> u32 \<Rightarrow> u32 \<Rightarrow> u32" where
  "clamped len x l = min l (len - min x len)"

definition il_ok :: "'img ImageLib \<Rightarrow> bool" where
  "il_ok il \<longleftrightarrow>
     (\<forall>x y w h img. il_dims il (il_crop il x y w h img) =
        (clamped (fst (il_dims il img)) x w, clamped (snd (il_dims il img)) y h)) \<and>
     (\<forall>w h img. il_dims il (il_resize il w h img) = (w, h)) \<and>
     (\<forall>img. length (il_pixels il img) = unat (fst (il_dims il img)) * unat (snd (il_dims il img)))"

lemma checked_add_small:
  assumes "unat a + 255 * Suc n < 2 ^ 64"
  shows "\<exists>r. checked_add a (ucast (p :: u8)) = Some r \<and> unat r + 255 * n < 2 ^ 64"
proof -
  have p: "unat (ucast p :: u64) = unat p" by (simp add: unsigned_ucast_eq take_bit_nat_eq_self_iff order_less_le_trans [OF unsigned_less])
  have le: "unat p \<le> 255" using unsigned_less [of p, where 'a = nat] by simp
  have "unat a + unat (ucast p :: u64) < 2 ^ 64" using assms le p by simp
  moreover from this have "unat (a + ucast p) = unat a + unat p"
    using p by (simp add: unat_add_lem [THEN iffD1])
  ultimately show ?thesis using assms le by (simp add: checked_add_def)
qed

lemma unat_ucast_u64: "unat (ucast (x :: u32) :: u64) = unat x"
  by (simp add: unsigned_ucast_eq take_bit_nat_eq_self_iff order_less_le_trans [OF unsigned_less])

lemma sum_pixels_some:
  assumes "unat r0 + 255 * length ps < 2 ^ 64" "unat g0 + 255 * length ps < 2 ^ 64"
    "unat b0 + 255 * length ps < 2 ^ 64" "unat a0 + 255 * length ps < 2 ^ 64"
  shows "\<exists>acc. sum_pixels ps (r0, g0, b0, a0) = Some acc"
  using assms
proof (induction ps arbitrary: r0 g0 b0 a0)
  case (Cons p ps)
  obtain r1 g1 b1 a1 where p: "p = (r1, g1, b1, a1)" by (cases p)
  have step: "\<exists>r. checked_add x (ucast q) = Some r \<and> unat r + 255 * length ps < 2 ^ 64"
    if "unat x + 255 * length (p # ps) < 2 ^ 64" for x and q :: u8
    using that by (intro checked_add_small) simp
  obtain r g b a where
    acc: "checked_add r0 (ucast r1) = Some r" "checked_add g0 (ucast g1) = Some g"
      "checked_add b0 (ucast b1) = Some b" "checked_add a0 (ucast a1) = Some a" and
    small: "unat r + 255 * length ps < 2 ^ 64" "unat g + 255 * length ps < 2 ^ 64"
      "unat b + 255 * length ps < 2 ^ 64" "unat a + 255 * length ps < 2 ^ 64"
    using step [OF Cons.prems(1)] step [OF Cons.prems(2)] step [OF Cons.prems(3)]
      step [OF Cons.prems(4)] by blast
  show ?case using Cons.IH [OF small] by (simp add: p acc)
qed simp

lemma average_ok:
  assumes "length ps \<le> 2 ^ 32"
  shows "w * h = 0 \<Longrightarrow> average ps w h = Inl DivisionByZero"
    "w * h \<noteq> 0 \<Longrightarrow> \<exists>avg. average ps w h = Inr avg"
proof -
  obtain r g b a where sum: "sum_pixels ps (0, 0, 0, 0) = Some (r, g, b, a)"
    using sum_pixels_some [of 0 ps 0 0 0] assms by auto
  have "(ucast (w * h) :: u64) = 0 \<longleftrightarrow> w * h = 0"
    using unat_ucast_u64 [of "w * h"] by (metis unat_0 unat_eq_zero)
  then show "w * h = 0 \<Longrightarrow> average ps w h = Inl DivisionByZero"
    "w * h \<noteq> 0 \<Longrightarrow> \<exists>avg. average ps w h = Inr avg"
    by (simp_all add: average_def sum Let_def)
qed

lemma scaled_size_bounds:
  assumes "0 < sz" "0 < w" "0 < h" "unat sz < 2 ^ 16" "unat w < 2 ^ 16" "unat h < 2 ^ 16"
    "scaled_size sz w h = (w', h')"
  shows "0 < w' \<and> 0 < h' \<and> w' \<le> sz \<and> h' \<le> sz \<and> max w' h' = sz"
proof (cases "h \<le> w")
  case True
  then have "w' = sz" "h' = max (sz * h div w) 1" using assms(7) by (auto simp: scaled_size_def)
  then show ?thesis using scaled_side [OF assms(1,2) True assms(4,6)] assms(1) by (simp add: max_absorb1)
next
  case False
  then have "h' = sz" "w' = max (sz * w div h) 1" using assms(7) by (auto simp: scaled_size_def)
  moreover have "w \<le> h" using False by simp
  ultimately show ?thesis
    using scaled_side [OF assms(1,3) \<open>w \<le> h\<close> assms(4,5)] assms(1) by (simp add: max_absorb2)
qed

lemma small_area:
  fixes w h :: u32
  assumes "0 < w" "0 < h" "unat w < 2 ^ 16" "unat h < 2 ^ 16"
  shows "unat (w * h) = unat w * unat h" "w * h \<noteq> 0"
proof -
  have "unat w * unat h < 2 ^ 16 * 2 ^ 16" using assms(3, 4) by (intro mult_strict_mono) simp_all
  then show u: "unat (w * h) = unat w * unat h" by (subst unat_mult_lem [symmetric]) simp
  have "0 < unat w * unat h" using assms(1, 2) by (simp add: word_less_nat_alt)
  then show "w * h \<noteq> 0" using u by auto
qed

lemma clamped_inside: "unat x + unat l \<le> unat len \<Longrightarrow> clamped len x l = l"
proof -
  assume a: "unat x + unat l \<le> unat len"
  then have x: "x \<le> len" by (simp add: word_le_nat_alt)
  then have "unat (len - x) = unat len - unat x" by (simp add: unat_sub word_le_nat_alt)
  moreover from this a have "unat l \<le> unat len - unat x" by simp
  moreover have "min x len = x" using x by (simp add: min_def)
  ultimately show ?thesis by (simp add: clamped_def min_def word_le_nat_alt)
qed

text \<open>The rectangle that is cut out, in the sides and corners of the image.\<close>

definition cut_out :: "CropRegion \<Rightarrow> u32 \<Rightarrow> u32 \<Rightarrow> u32 \<times> u32 \<times> u32 \<times> u32" where
  "cut_out crop iw ih =
     (if is_whole_image crop iw ih then (0, 0, iw, ih) else crop_rect crop iw ih)"

lemma crop_image_cut:
  assumes "il_ok il" "il_dims il img = (iw, ih)" "0 < iw" "0 < ih" "cut_out crop iw ih = (x, y, w, h)"
  shows "il_dims il (crop_image il crop img) = (w, h)"
    and "unat x + unat w \<le> unat iw \<and> unat y + unat h \<le> unat ih \<and> 0 < w \<and> 0 < h"
proof -
  show inside: "unat x + unat w \<le> unat iw \<and> unat y + unat h \<le> unat ih \<and> 0 < w \<and> 0 < h"
    using crop_rect_inside [OF assms(3,4), of crop x y w h] assms(3-5)
    by (auto simp: cut_out_def split: if_splits)
  show "il_dims il (crop_image il crop img) = (w, h)"
  proof (cases "is_whole_image crop iw ih")
    case True
    then show ?thesis using assms by (simp add: crop_image_def cut_out_def)
  next
    case False
    then have "crop_rect crop iw ih = (x, y, w, h)" using assms(5) by (simp add: cut_out_def)
    with False assms(1,2) inside show ?thesis
      by (simp add: crop_image_def il_ok_def clamped_inside)
  qed
qed

lemma crop_image_dims:
  assumes "il_ok il" "il_dims il img = (iw, ih)" "0 < iw" "0 < ih"
  obtains w h where "il_dims il (crop_image il crop img) = (w, h)" "0 < w" "0 < h" "w \<le> iw" "h \<le> ih"
proof -
  obtain x y w h where r: "cut_out crop iw ih = (x, y, w, h)" by (cases "cut_out crop iw ih")
  from crop_image_cut [OF assms r] that [of w h] show ?thesis by (auto simp: word_le_nat_alt)
qed

text \<open>What \<open>process\<close> answers once the average has been computed.\<close>

definition composed :: "'img ImageLib \<Rightarrow> ImageSizing \<Rightarrow> u32 \<Rightarrow> 'img \<Rightarrow> Pixel \<Rightarrow> 'img" where
  "composed il sizing sz small avg =
     (case il_dims il small of
        (w, h) \<Rightarrow> if sizing_is_square sizing
          then il_overlay il (pad_offset sz w) (pad_offset sz h) small (il_filled il sz sz avg)
          else small)"

lemma process_works:
  assumes ok: "il_ok il" and dec: "il_decode il data = Some img" and dims: "il_dims il img = (iw, ih)"
    and img: "0 < iw" "0 < ih" "unat iw < 2 ^ 16" "unat ih < 2 ^ 16"
    and sz: "0 < sz" "unat sz < 2 ^ 16" and cut: "cut_out crop iw ih = (x, y, cw, ch)"
  shows "il_dims il (crop_image il crop img) = (cw, ch) \<and> 0 < cw \<and> 0 < ch \<and>
    unat x + unat cw \<le> unat iw \<and> unat y + unat ch \<le> unat ih \<and>
    (\<exists>w h avg. 0 < w \<and> 0 < h \<and> w \<le> sz \<and> h \<le> sz \<and> max w h = sz \<and>
    process il data crop sizing sz =
      (case il_encode il (composed il sizing sz (il_resize il w h (crop_image il crop img)) avg) of
         None \<Rightarrow> Inl Unencodable
       | Some bytes \<Rightarrow>
           Inr (CONTENT_PNG, if sizing_is_square sizing then sz else w,
                if sizing_is_square sizing then sz else h, bytes)))"
proof -
  note inside = crop_image_cut [OF ok dims img(1,2) cut]
  then have c: "il_dims il (crop_image il crop img) = (cw, ch)" "0 < cw" "0 < ch"
    "cw \<le> iw" "ch \<le> ih" by (auto simp: word_le_nat_alt)
  have cs: "unat cw < 2 ^ 16" "unat ch < 2 ^ 16" using c(4,5) img(3,4) by (auto simp: word_le_nat_alt)
  obtain w h where wh: "scaled_size sz cw ch = (w, h)" by (cases "scaled_size sz cw ch")
  note b = scaled_size_bounds [OF sz(1) c(2,3) sz(2) cs wh]
  have small: "unat w < 2 ^ 16" "unat h < 2 ^ 16" using b sz(2) by (auto simp: word_le_nat_alt)
  let ?small = "il_resize il w h (crop_image il crop img)"
  have px: "length (il_pixels il ?small) = unat w * unat h" using ok by (simp add: il_ok_def)
  have le: "length (il_pixels il ?small) \<le> 2 ^ 32"
    unfolding px using mult_mono [of "unat w" "2 ^ 16" "unat h" "2 ^ 16"] small by simp
  obtain avg where avg: "average (il_pixels il ?small) w h = Inr avg"
    using average_ok(2) [OF le small_area(2) [OF _ _ small]] b by blast
  have d: "il_dims il ?small = (w, h)" using ok by (simp add: il_ok_def)
  have pos: "cw > 0 \<and> ch > 0" using c by simp
  have "process il data crop sizing sz =
      (case il_encode il (composed il sizing sz ?small avg) of
         None \<Rightarrow> Inl Unencodable
       | Some bytes \<Rightarrow>
           Inr (CONTENT_PNG, if sizing_is_square sizing then sz else w,
                if sizing_is_square sizing then sz else h, bytes))"
    by (simp add: process_def dec c(1) pos wh avg composed_def d Let_def)
  with b inside show ?thesis by blast
qed

lemma process_divides_by_zero:
  assumes ok: "il_ok il" and dec: "il_decode il data = Some img" and dims: "il_dims il img = (iw, ih)"
    and img: "0 < iw" "0 < ih"
    and sz: "sz = 0 \<or> sz = 65536 \<and> iw = ih \<and> unat iw < 2 ^ 16 \<and> is_whole_image crop iw ih"
  shows "process il data crop sizing sz = Inl DivisionByZero"
proof -
  obtain cw ch where c: "il_dims il (crop_image il crop img) = (cw, ch)" "0 < cw" "0 < ch"
    "cw \<le> iw" "ch \<le> ih"
    using crop_image_dims [OF ok dims img] .
  obtain w h where wh: "scaled_size sz cw ch = (w, h)" by (cases "scaled_size sz cw ch")
  have z: "w * h = 0 \<and> unat w * unat h \<le> 2 ^ 32"
    using sz
  proof
    assume "sz = 0"
    then have "w = 0 \<or> h = 0" using wh by (auto simp: scaled_size_def split: if_splits)
    then show ?thesis by auto
  next
    assume a: "sz = 65536 \<and> iw = ih \<and> unat iw < 2 ^ 16 \<and> is_whole_image crop iw ih"
    then have "cw = ch" "unat cw < 2 ^ 16" using c(1) dims by (auto simp: crop_image_def)
    moreover have "unat (65536 * ch) = 65536 * unat ch"
      using calculation by (subst unat_mult_lem [THEN iffD1]) simp_all
    ultimately have "65536 * ch div cw = (65536 :: u32)"
      using c(3) by (simp add: word_less_nat_alt word_unat_eq_iff unat_div del: word_neq_0_conv)
    then have "w = 65536 \<and> h = 65536"
      using wh a \<open>cw = ch\<close> by (auto simp: scaled_size_def max_def word_le_nat_alt)
    then show ?thesis by simp
  qed
  let ?small = "il_resize il w h (crop_image il crop img)"
  have "length (il_pixels il ?small) \<le> 2 ^ 32" using ok z by (simp add: il_ok_def)
  note avg = average_ok(1) [OF this conjunct1 [OF z]]
  have pos: "cw > 0 \<and> ch > 0" using c by simp
  show ?thesis by (simp add: process_def dec c(1) pos wh avg Let_def)
qed

subsection \<open>Properties\<close>

text \<open>A library of images that are only their sizes, black throughout.\<close>

definition demo_images :: "(u32 \<times> u32) ImageLib" where
  "demo_images =
     \<lparr>il_decode = (\<lambda>bs. if bs = [] then None else Some (of_nat (length bs), 4)),
      il_dims = (\<lambda>img. img),
      il_crop = (\<lambda>x y w h img. (clamped (fst img) x w, clamped (snd img) y h)),
      il_resize = (\<lambda>w h img. (w, h)),
      il_pixels = (\<lambda>(w, h). replicate (unat w * unat h) (0, 0, 0, 255)),
      il_filled = (\<lambda>w h p. (w, h)),
      il_overlay = (\<lambda>x y small canvas. canvas),
      il_encode = (\<lambda>img. Some [ucast (fst img), ucast (snd img)])\<rparr>"

lemma demo_images_ok: "il_ok demo_images"
  by (simp add: il_ok_def demo_images_def split: prod.split)

definition demo_crop :: CropRegion where
  "demo_crop = \<lparr>crop_x1 = 0, crop_y1 = 0, crop_x2 = 4, crop_y2 = 4\<rparr>"

text \<open>
  C37. Every decodable image whose sides are between 1 and 65535 is processed for every
  requested size between 1 and 65535, whatever the crop region, even an inverted one or one
  outside the image: no arithmetic overflows and nothing is divided by zero. What is cut out is
  a rectangle of at least one pixel that lies within the image, so that the image library, which
  cuts a crop off where the image ends, has nothing to cut off. What is encoded is that
  rectangle, resized so that its longer side is the size asked for and the shorter one
  is at least 1, and placed on a square of that size when a square is asked for; the answer
  reports the sides of what was encoded.
\<close>

theorem uploads_are_processed:
  assumes "il_ok il" "il_decode il data = Some img" "il_dims il img = (iw, ih)"
    "0 < iw" "0 < ih" "unat iw < 2 ^ 16" "unat ih < 2 ^ 16" "0 < sz" "unat sz < 2 ^ 16"
    "cut_out crop iw ih = (x, y, cw, ch)"
  shows "il_dims il (crop_image il crop img) = (cw, ch) \<and> 0 < cw \<and> 0 < ch \<and>
    unat x + unat cw \<le> unat iw \<and> unat y + unat ch \<le> unat ih \<and>
    (\<exists>w h avg. 0 < w \<and> 0 < h \<and> w \<le> sz \<and> h \<le> sz \<and> max w h = sz \<and>
    process il data crop sizing sz =
      (case il_encode il (composed il sizing sz (il_resize il w h (crop_image il crop img)) avg) of
         None \<Rightarrow> Inl Unencodable
       | Some bytes \<Rightarrow>
           Inr (CONTENT_PNG, if sizing_is_square sizing then sz else w,
                if sizing_is_square sizing then sz else h, bytes)))"
  by (rule process_works [OF assms])

lemma uploads_are_processed_witness:
  "process demo_images [1, 2, 3] demo_crop Sizing_Square 32 =
     Inr (CONTENT_PNG, 32, 32, [32, 32])"
proof -
  have d: "il_decode demo_images [1, 2, 3] = Some (3, 4)" by (simp add: demo_images_def)
  have cut: "cut_out demo_crop 3 4 = (0, 0, 3, 4)" by code_simp
  have "il_dims demo_images (3, 4) = (3, 4)" by (simp add: demo_images_def)
  from uploads_are_processed [OF demo_images_ok d this, of 32 demo_crop 0 0 3 4 Sizing_Square]
  show ?thesis
    by (force simp: cut composed_def sizing_is_square_def demo_images_def)
qed

text \<open>
  A requested size of 0 makes \<open>process\<close> divide by zero, whatever the image and the crop
  region; so does a requested size of 65536 for a square image that is not cropped, since the
  number of pixels wraps to 0. Neither size is checked before.
\<close>

theorem size_can_panic:
  assumes "il_ok il" "il_decode il data = Some img" "il_dims il img = (iw, ih)" "0 < iw" "0 < ih"
    "sz = 0 \<or> sz = 65536 \<and> iw = ih \<and> unat iw < 2 ^ 16 \<and> is_whole_image crop iw ih"
  shows "process il data crop sizing sz = Inl DivisionByZero"
  by (rule process_divides_by_zero [OF assms])

lemma size_can_panic_witness:
  "process demo_images [1, 2, 3, 4] demo_crop Sizing_Crop 0 = Inl DivisionByZero \<and>
   process demo_images [1, 2, 3, 4] demo_crop Sizing_Crop 65536 = Inl DivisionByZero"
proof -
  have d: "il_decode demo_images [1, 2, 3, 4] = Some (4, 4)" by (simp add: demo_images_def)
  have e: "il_dims demo_images (4, 4) = (4, 4)" by (simp add: demo_images_def)
  have "is_whole_image demo_crop 4 4" by (simp add: is_whole_image_def demo_crop_def)
  then show ?thesis
    using size_can_panic [OF demo_images_ok d e, of 0 demo_crop Sizing_Crop]
      size_can_panic [OF demo_images_ok d e, of 65536 demo_crop Sizing_Crop] by simp
qed

end
