(* ===== verification/WebApi.thy ===== *)
theory WebApi
  imports BackendProps Imaging
begin

section \<open>The web interface: \<^verbatim>\<open>web/mod.rs\<close> and \<^verbatim>\<open>web/ws.rs\<close>\<close>

text \<open>
  The requests of the web interface and what they do to the backend and to the updates that are
  to be saved. Every request is handled as a whole: the lock of the state is held during each
  operation of the backend. The routes, CORS headers and the listening socket are those of axum
  and left out, as is the encoding of requests and responses; a request whose body cannot be
  decoded is \<open>Missing\<close>. A \<open>HashMap\<close> is iterated in the order of its list.
\<close>

subsection \<open>Addresses\<close>

definition DEFAULT_PORT :: u16 where "DEFAULT_PORT = 44114"
definition DEV_PORT :: u16 where "DEV_PORT = 44614"
definition TRUNK_PORT :: u16 where "TRUNK_PORT = 8080"

definition rsplit_once :: "char \<Rightarrow> string \<Rightarrow> (string \<times> string) option" where
  "rsplit_once c s =
     (if c \<notin> set s then None
      else let after = rev (takeWhile (\<lambda>d. d \<noteq> c) (rev s))
           in Some (take (length s - length after - 1) s, after))"

fun parse_digits :: "nat \<Rightarrow> string \<Rightarrow> nat option" where
  "parse_digits n [] = Some n"
| "parse_digits n (c # cs) =
     (let d = of_char c :: nat
      in if 48 \<le> d \<and> d \<le> 57 then
           (if 10 * n + (d - 48) < 2 ^ 16 then parse_digits (10 * n + (d - 48)) cs else None)
         else None)"

definition parse_u16 :: "string \<Rightarrow> u16 option" where
  "parse_u16 s =
     (let s = (case s of c # cs \<Rightarrow> if c = CHR ''+'' then cs else s | [] \<Rightarrow> [])
      in if s = [] then None else map_option of_nat (parse_digits 0 s))"

definition default_bind :: "bool \<Rightarrow> string \<Rightarrow> (string \<times> u16 \<times> u16) option" where
  "default_bind dev address =
     (case (case rsplit_once CHR '':'' address of
              Some (host, port) \<Rightarrow>
                map_option (\<lambda>port. (host, port, if dev then TRUNK_PORT else port)) (parse_u16 port)
            | None \<Rightarrow>
                Some (address, if dev then DEV_PORT else DEFAULT_PORT,
                      if dev then TRUNK_PORT else (if dev then DEV_PORT else DEFAULT_PORT))) of
        None \<Rightarrow> None
      | Some (host, port, open_port) \<Rightarrow>
          Some (if dev then ''127.0.0.1'' else host, port, open_port))"

subsection \<open>Requests\<close>

record UploadImageRequest =
  uir_content_type :: string
  uir_role :: Role
  uir_crop :: CropRegion
  uir_sizing :: ImageSizing
  uir_size :: u32
  uir_data :: bytes

datatype Request =
    InitializeMap
  | InitializeRooms
  | Updates "(Key \<times> Value) list"
  | ObjectUpdate Id "(Key \<times> Value) list"
  | GetConfig
  | GetObjectSettings Id
  | InitializeImageUpload
  | CreateObject Type Properties
  | RemoveObject Id
  | UploadImage UploadImageRequest
  | RemoveImage Id
  | MumbleRestart
  | RemoteRestart
  | Missing
  | Unknown u16

record InitializeMapResponse =
  imr_public_key :: PublicKey
  imr_props :: Properties
  imr_objects :: "RemoteObject list"
  imr_images :: "RemoteId list"
  imr_peers :: "RemotePeer list"
  imr_peer_objects :: "(PeerId \<times> RemoteObject) list"

record InitializeRoomsResponse =
  irr_public_key :: PublicKey
  irr_props :: Properties
  irr_local :: "RemoteObject list"
  irr_peers :: "RemotePeer list"
  irr_peer_objects :: "(PeerId \<times> RemoteObject) list"

datatype Response =
    R_Empty
  | R_Map InitializeMapResponse
  | R_Rooms InitializeRoomsResponse
  | R_Config Properties
  | R_ObjectSettings RemoteObject PublicKey
  | R_ImageUpload "Image list"
  | R_CreateObject RemoteObject
  | R_UploadImage Image

datatype WebError =
  MissingRequest | UnknownRequest u16 | NoSuchObject | Failed BackendError | Unprocessed ImagingError

subsection \<open>Reading the state\<close>

definition remote_object :: "Id \<Rightarrow> LocalObject \<Rightarrow> RemoteObject" where
  "remote_object i object = \<lparr>ro_ty = lo_ty object, ro_id = i, ro_props = lo_props object\<rparr>"

definition remote_peer :: "PeerId \<Rightarrow> PeerInfo \<Rightarrow> RemotePeer" where
  "remote_peer p peer =
     \<lparr>rp_id = p, rp_public_key = pi_public_key peer, rp_props = pi_props peer\<rparr>"

definition initialize_map :: "Crypto \<Rightarrow> Backend \<Rightarrow> InitializeMapResponse" where
  "initialize_map cr b =
     \<lparr>imr_public_key = keypair_public_key cr (bk_keypair b),
      imr_props = bk_props b,
      imr_objects = map (\<lambda>(i, object). remote_object i object) (bk_objects b),
      imr_images = map rid_local (hm_keys (bk_images b)) @
        concat (map (\<lambda>(p, peer). map (RemoteId_new p) (pi_images peer)) (bk_peers b)),
      imr_peers = map (\<lambda>(p, peer). remote_peer p peer) (bk_peers b),
      imr_peer_objects =
        concat (map (\<lambda>(p, peer). map (Pair p) (hm_values (pi_objects peer))) (bk_peers b))\<rparr>"

definition initialize_rooms :: "Crypto \<Rightarrow> Backend \<Rightarrow> InitializeRoomsResponse" where
  "initialize_rooms cr b =
     \<lparr>irr_public_key = keypair_public_key cr (bk_keypair b),
      irr_props = bk_props b,
      irr_local = map (\<lambda>(i, object). remote_object i object)
        (filter (\<lambda>(i, object). lo_ty object = TYPE_ROOM) (bk_objects b)),
      irr_peers = map (\<lambda>(p, peer). remote_peer p peer) (bk_peers b),
      irr_peer_objects =
        concat (map (\<lambda>(p, peer). map (Pair p)
            (filter (\<lambda>object. ro_ty object = TYPE_ROOM) (hm_values (pi_objects peer)))) (bk_peers b))\<rparr>"

definition get_config :: "Descriptive \<Rightarrow> Backend \<Rightarrow> Properties" where
  "get_config d b =
     fold (\<lambda>(key, v). props_put key v) (db_properties d Id_ZERO (bk_database b)) props_new"

definition get_object_settings :: "Crypto \<Rightarrow> Id \<Rightarrow> Backend \<Rightarrow> WebError + (RemoteObject \<times> PublicKey)" where
  "get_object_settings cr i b =
     (case hm_get (bk_objects b) i of
        None \<Rightarrow> Inl NoSuchObject
      | Some object \<Rightarrow>
          Inr (remote_object (lo_id object) object, keypair_public_key cr (bk_keypair b)))"

definition initialize_image_upload :: "Backend \<Rightarrow> Image list" where
  "initialize_image_upload b =
     map (\<lambda>img. \<lparr>img_id = rid_local (li_id img), img_content_type = li_content_type img,
        img_role = li_role img, img_width = li_width img, img_height = li_height img\<rparr>)
       (hm_values (bk_images b))"

text \<open>The route that serves an image: the bytes, or \<open>NotFound\<close>.\<close>

definition image :: "PeerId \<Rightarrow> Id \<Rightarrow> Backend \<Rightarrow> bytes option" where
  "image p i b = cache_get (RemoteId_new p i) b"

definition upload_image ::
    "'img ImageLib \<Rightarrow> UploadImageRequest \<Rightarrow> Backend \<Rightarrow> (WebError + Image) \<times> Backend" where
  "upload_image il request b =
     (case process il (uir_data request) (uir_crop request) (uir_sizing request) (uir_size request) of
        Inl e \<Rightarrow> (Inl (Unprocessed e), b)
      | Inr (content_type, width, height, bytes) \<Rightarrow>
          (case insert_image content_type (uir_role request) width height bytes b of
             (Inl e, b) \<Rightarrow> (Inl (Failed e), b)
           | (Inr i, b) \<Rightarrow>
               (Inr \<lparr>img_id = rid_local i, img_content_type = content_type,
                     img_role = uir_role request, img_width = width, img_height = height\<rparr>, b)))"

subsection \<open>One connection\<close>

text \<open>
  What a connection keeps beside the backend: the updates that its requests have made and that
  the connection has not yet picked up, the permit of their notification, the updates that are
  to be saved when the timer of one second ends, and whether the timer runs.
\<close>

type_synonym Pending = "(Id \<times> Key, Value) hashmap"

record WebSession =
  ws_database_updates :: Pending
  ws_notify :: bool
  ws_local_updates :: Pending
  ws_timer :: bool
  ws_sent :: "Broadcast list"
  ws_open :: bool

definition ws_new :: WebSession where
  "ws_new = \<lparr>ws_database_updates = [], ws_notify = False, ws_local_updates = [], ws_timer = False,
     ws_sent = [], ws_open = True\<rparr>"

definition add_updates :: "Id \<Rightarrow> (Key \<times> Value) list \<Rightarrow> WebSession \<Rightarrow> WebSession" where
  "add_updates i kvs s =
     s\<lparr>ws_database_updates :=
         fold (\<lambda>(key, v). hm_insert (i, key) v) kvs (ws_database_updates s),
       ws_notify := True\<rparr>"

text \<open>
  \<open>Handler::handle\<close>: the answer to one request that arrived on \<open>channel\<close>.
\<close>

fun ws_handle ::
    "Crypto \<Rightarrow> Descriptive \<Rightarrow> 'img ImageLib \<Rightarrow> ChannelId \<Rightarrow> Request \<Rightarrow> WebSession \<times> Backend \<Rightarrow>
     (WebError + Response) \<times> WebSession \<times> Backend" where
  "ws_handle cr d il channel InitializeMap (s, b) = (Inr (R_Map (initialize_map cr b)), s, b)"
| "ws_handle cr d il channel InitializeRooms (s, b) = (Inr (R_Rooms (initialize_rooms cr b)), s, b)"
| "ws_handle cr d il channel (Updates kvs) (s, b) =
     (if kvs = [] then (Inr R_Empty, s, b)
      else (Inr R_Empty, add_updates Id_ZERO kvs s, updates cr channel kvs b))"
| "ws_handle cr d il channel (ObjectUpdate i kvs) (s, b) =
     (if kvs = [] then (Inr R_Empty, s, b)
      else (Inr R_Empty, add_updates i kvs s,
            fold (\<lambda>(key, v). broadcast (BRemoteUpdate (RObjectUpdated channel (rid_local i) key v)))
              kvs (object_update i kvs b)))"
| "ws_handle cr d il channel GetConfig (s, b) = (Inr (R_Config (get_config d b)), s, b)"
| "ws_handle cr d il channel (GetObjectSettings i) (s, b) =
     (case get_object_settings cr i b of
        Inl e \<Rightarrow> (Inl e, s, b)
      | Inr (object, public_key) \<Rightarrow> (Inr (R_ObjectSettings object public_key), s, b))"
| "ws_handle cr d il channel InitializeImageUpload (s, b) =
     (Inr (R_ImageUpload (initialize_image_upload b)), s, b)"
| "ws_handle cr d il channel (CreateObject ty props) (s, b) =
     (case create_object d ty props b of
        (Inl e, b) \<Rightarrow> (Inl (Failed e), s, b)
      | (Inr object, b) \<Rightarrow>
          (Inr (R_CreateObject object), s,
           broadcast (BRemoteUpdate (RObjectCreated channel (rid_local (ro_id object)) object)) b))"
| "ws_handle cr d il channel (RemoveObject i) (s, b) =
     (case remove_object cr i b of
        (Some e, b) \<Rightarrow> (Inl (Failed e), s, b)
      | (None, b) \<Rightarrow>
          (Inr R_Empty, s, broadcast (BRemoteUpdate (RObjectRemoved channel (rid_local i))) b))"
| "ws_handle cr d il channel (UploadImage request) (s, b) =
     (case upload_image il request b of
        (Inl e, b) \<Rightarrow> (Inl e, s, b)
      | (Inr img, b) \<Rightarrow>
          (Inr (R_UploadImage img), s, broadcast (BRemoteUpdate (RImageCreated img)) b))"
| "ws_handle cr d il channel (RemoveImage i) (s, b) =
     (case remove_image i b of
        (Some e, b) \<Rightarrow> (Inl (Failed e), s, b)
      | (None, b) \<Rightarrow>
          (Inr R_Empty, s, broadcast (BRemoteUpdate (RImageRemoved (rid_local i))) b))"
| "ws_handle cr d il channel MumbleRestart (s, b) = (Inr R_Empty, s, restart_mumblelink b)"
| "ws_handle cr d il channel RemoteRestart (s, b) = (Inr R_Empty, s, restart_client b)"
| "ws_handle cr d il channel Missing (s, b) = (Inl MissingRequest, s, b)"
| "ws_handle cr d il channel (Unknown n) (s, b) = (Inl (UnknownRequest n), s, b)"

text \<open>The other branches of the loop in \<open>entry\<close>: the notification, the timer, a broadcast.\<close>

definition ws_notified :: "WebSession \<Rightarrow> WebSession" where
  "ws_notified s =
     s\<lparr>ws_notify := False,
       ws_timer := ws_timer s \<or> ws_local_updates s = [],
       ws_local_updates :=
         fold (\<lambda>(key, v). hm_insert key v) (ws_database_updates s) (ws_local_updates s),
       ws_database_updates := []\<rparr>"

text \<open>\<open>values\<close> are the drained updates in the order in which the map is iterated.\<close>

definition ws_save ::
    "Descriptive \<Rightarrow> (Id \<times> Key \<times> Value) list \<Rightarrow> WebSession \<times> Backend \<Rightarrow> WebSession \<times> Backend" where
  "ws_save d kvs = (\<lambda>(s, b).
     case db_set_properties d kvs (bk_database b) of
       (e, db) \<Rightarrow>
         (s\<lparr>ws_timer := False, ws_local_updates := [], ws_open := ws_open s \<and> e = None\<rparr>,
          b\<lparr>bk_database := db\<rparr>))"

text \<open>\<open>None\<close> stands for a receiver that has fallen behind the log of broadcasts.\<close>

definition ws_event :: "Broadcast option \<Rightarrow> bool \<Rightarrow> WebSession \<Rightarrow> WebSession" where
  "ws_event event sent s =
     (case event of
        None \<Rightarrow> s\<lparr>ws_open := False\<rparr>
      | Some e \<Rightarrow> if sent then s\<lparr>ws_sent := ws_sent s @ [e]\<rparr> else s\<lparr>ws_open := False\<rparr>)"

definition ws_done :: "WebSession \<Rightarrow> WebSession" where
  "ws_done s = s\<lparr>ws_open := False\<rparr>"

end
