(* ===== verification/WebSync.thy ===== *)
theory WebSync
  imports WebApi
begin

section \<open>Memory and database\<close>

text \<open>
  The requests of a connection change the memory at once and the database only when its timer
  ends. Read through the updates that are still to be saved, the database is the memory: this
  section shows it for every sequence of requests, notifications and timers of one connection,
  and where it fails.
\<close>

subsection \<open>What memory and database hold\<close>

text \<open>The value in memory under an identifier and a key; the identifier 0 is the peer itself.\<close>

definition mem :: "Backend \<Rightarrow> Id \<times> Key \<Rightarrow> Value" where
  "mem b = (\<lambda>(i, key).
     if i = Id_ZERO then props_get (bk_props b) key
     else case hm_get (bk_objects b) i of
            None \<Rightarrow> VEmpty | Some object \<Rightarrow> props_get (lo_props object) key)"

text \<open>Identifiers of the peer, of objects that exist, and those not handed out yet.\<close>

definition live :: "Backend \<Rightarrow> Id \<Rightarrow> bool" where
  "live b i \<longleftrightarrow> i = Id_ZERO \<or> hm_get (bk_objects b) i \<noteq> None \<or> \<not> allocated b i"

text \<open>An update not yet saved, and the database seen through these updates.\<close>

definition unsaved :: "WebSession \<Rightarrow> Id \<times> Key \<Rightarrow> Value option" where
  "unsaved s ik =
     (case hm_get (ws_database_updates s) ik of
        None \<Rightarrow> hm_get (ws_local_updates s) ik | Some v \<Rightarrow> Some v)"

definition seen :: "Descriptive \<Rightarrow> WebSession \<Rightarrow> Backend \<Rightarrow> Id \<times> Key \<Rightarrow> Value" where
  "seen d s b ik =
     (case unsaved s ik of None \<Rightarrow> db_read d (bk_database b) ik | Some v \<Rightarrow> stored v)"

definition coherent :: "Descriptive \<Rightarrow> WebSession \<Rightarrow> Backend \<Rightarrow> bool" where
  "coherent d s b \<longleftrightarrow> (\<forall>ik. live b (fst ik) \<longrightarrow> stored (mem b ik) = seen d s b ik)"

lemma stored_norm [simp]: "stored (value_norm v) = stored v"
  by (cases v) (auto simp: stored_def value_norm_def sid_is_zero_def)

lemma stored_VEmpty [simp]: "stored VEmpty = VEmpty"
  by (simp add: stored_def value_norm_def)

lemma live_fold: "live b Id_ZERO"
  by (simp add: live_def)

lemma mem_same:
  "bk_objects b' = bk_objects b \<Longrightarrow> bk_props b' = bk_props b \<Longrightarrow> mem b' = mem b"
  by (simp add: mem_def fun_eq_iff)

lemma live_same:
  "bk_objects b' = bk_objects b \<Longrightarrow> bk_used_ids b' = bk_used_ids b \<Longrightarrow> live b' = live b"
  by (simp add: live_def allocated_def fun_eq_iff)

text \<open>The same writes to memory and to what is seen of the database keep them equal.\<close>

lemma coherent_writes:
  assumes "coherent d s b" "\<And>i. live b' i \<Longrightarrow> live b i"
    and "\<And>ik. live b' (fst ik) \<Longrightarrow>
      stored (mem b' ik) = (case w ik of None \<Rightarrow> stored (mem b ik) | Some v \<Rightarrow> stored v)"
    and "\<And>ik. live b' (fst ik) \<Longrightarrow>
      seen d s' b' ik = (case w ik of None \<Rightarrow> seen d s b ik | Some v \<Rightarrow> stored v)"
  shows "coherent d s' b'"
  using assms by (simp add: coherent_def split: option.split)

lemma coherent_same:
  "coherent d s b \<Longrightarrow> mem b' = mem b \<Longrightarrow> (\<And>i. live b' i \<Longrightarrow> live b i) \<Longrightarrow>
     (\<And>ik. seen d s' b' ik = seen d s b ik) \<Longrightarrow> coherent d s' b'"
  by (simp add: coherent_def)

subsection \<open>Updates of the own properties and of objects\<close>

definition own_writes :: "Id \<Rightarrow> (Key \<times> Value) list \<Rightarrow> Id \<times> Key \<Rightarrow> Value option" where
  "own_writes i kvs ik = (if fst ik = i then map_of (rev kvs) (snd ik) else None)"

lemma fold_updates_get:
  "hm_get (fold (\<lambda>(key, v). hm_insert (i, key) v) kvs m) ik =
     (case own_writes i kvs ik of None \<Rightarrow> hm_get m ik | Some v \<Rightarrow> Some v)"
proof (induction kvs arbitrary: m)
  case (Cons x kvs)
  then show ?case
    by (cases x; cases ik) (auto simp: own_writes_def hm_get_insert map_add_def split: option.split)
qed (simp add: own_writes_def)

lemma hm_wf_fold_updates:
  "hm_wf m \<Longrightarrow> hm_wf (fold (\<lambda>(key, v). hm_insert (f key) v) kvs m)"
  by (induction kvs arbitrary: m) auto

lemma seen_add_updates:
  assumes "bk_database b' = bk_database b"
  shows "seen d (add_updates i kvs s) b' ik =
     (case own_writes i kvs ik of None \<Rightarrow> seen d s b ik | Some v \<Rightarrow> stored v)"
  using assms by (auto simp: seen_def unsaved_def add_updates_def fold_updates_get split: option.split)

lemma set_object_props_get:
  "props_get (lo_props (set_object_props kvs ob)) key =
     (case map_of (rev kvs) key of None \<Rightarrow> props_get (lo_props ob) key | Some v \<Rightarrow> value_norm v)"
proof (induction kvs arbitrary: ob)
  case (Cons x kvs)
  then show ?case by (cases x) (auto simp: props_get_put map_add_def split: option.split)
qed simp

lemma object_update_link_db: "bk_database (object_update_link i kvs b) = bk_database b"
proof (induction i kvs b rule: object_update_link.induct)
  case (2 i key v kvs b)
  then show ?case
    by (simp add: Let_def set_mumblelink_transform_def set_hidden_def split: option.split)
qed simp

lemma object_update_effect:
  assumes "hm_get (bk_objects b) i = Some ob" "i \<noteq> Id_ZERO"
  shows "bk_database (object_update i kvs b) = bk_database b"
    "live (object_update i kvs b) = live b"
    "mem (object_update i kvs b) ik =
       (case own_writes i kvs ik of None \<Rightarrow> mem b ik | Some v \<Rightarrow> value_norm v)"
proof -
  note f = sharedD [OF shared_object_update_link [of i kvs b]]
  have o: "bk_objects (object_update i kvs b) = hm_insert i (set_object_props kvs ob) (bk_objects b)"
    "bk_props (object_update i kvs b) = bk_props b"
    "bk_used_ids (object_update i kvs b) = bk_used_ids b"
    "bk_database (object_update i kvs b) = bk_database b"
    using assms(1)
    by (simp_all add: object_update_def Let_def f object_update_link_db notify_client_def)
  show "bk_database (object_update i kvs b) = bk_database b" by (rule o(4))
  show "live (object_update i kvs b) = live b"
    using assms(1) by (auto simp: live_def allocated_def o hm_get_insert fun_eq_iff)
  show "mem (object_update i kvs b) ik =
       (case own_writes i kvs ik of None \<Rightarrow> mem b ik | Some v \<Rightarrow> value_norm v)"
    using assms
    by (cases ik) (simp add: mem_def own_writes_def o hm_get_insert set_object_props_get split: option.split)
qed

definition secrets_given :: "(Key \<times> Value) list \<Rightarrow> bool" where
  "secrets_given kvs \<longleftrightarrow> list_all (\<lambda>(key, v). key = KEY_PEER_SECRET \<longrightarrow> as_str v \<noteq> []) kvs"

lemma update_prop_fields:
  "bk_objects (update_prop key v b) = bk_objects b" "bk_used_ids (update_prop key v b) = bk_used_ids b"
  "bk_database (update_prop key v b) = bk_database b"
  "bk_props (update_prop key v b) = props_put key v (bk_props b)"
  by (simp_all add: update_prop_def Let_def notify_client_def)

lemma updates_loop_first:
  assumes "updates_loop cr ((key, v) # kvs) fl b = (fl', b')"
    and "key = KEY_PEER_SECRET \<longrightarrow> as_str v \<noteq> []"
  obtains fl1 b1 where "updates_loop cr kvs fl1 (update_prop key v b1) = (fl', b')"
    "bk_objects b1 = bk_objects b" "bk_used_ids b1 = bk_used_ids b"
    "bk_database b1 = bk_database b" "bk_props b1 = bk_props b"
proof -
  consider "key = KEY_MUMBLE_OBJECT" | "key = KEY_PEER_SECRET"
    | "key \<noteq> KEY_MUMBLE_OBJECT" "key \<noteq> KEY_PEER_SECRET" by blast
  then show thesis
  proof cases
    case 1
    let ?b = "store_mumble_object (as_id v) b"
    show thesis
      by (rule that [of fl "set_mumblelink_transform (updates_transform (as_id v) ?b) ?b"])
        (use 1 assms(1) in \<open>simp_all add: Let_def store_mumble_object_def set_mumblelink_transform_def\<close>)
  next
    case 2
    show thesis
      by (rule that [of "fl\<lparr>uf_client := True,
            uf_public_key := Some (keypair_public_key cr (derive_keypair cr (str_bytes (as_str v))))\<rparr>"
            "b\<lparr>bk_keypair := derive_keypair cr (str_bytes (as_str v))\<rparr>"])
        (use 2 assms in \<open>simp_all add: Let_def\<close>)
  next
    case 3
    obtain fl1 where "updates_loop cr kvs fl1 (update_prop key v b) = (fl', b')"
      using 3 assms(1) by (simp split: if_splits)
    then show thesis by (rule that) simp_all
  qed
qed

lemma updates_loop_effect:
  "updates_loop cr kvs fl b = (fl', b') \<Longrightarrow> secrets_given kvs \<Longrightarrow>
     bk_objects b' = bk_objects b \<and> bk_used_ids b' = bk_used_ids b \<and> bk_database b' = bk_database b \<and>
     (\<forall>key. props_get (bk_props b') key =
       (case map_of (rev kvs) key of None \<Rightarrow> props_get (bk_props b) key | Some v \<Rightarrow> value_norm v))"
proof (induction kvs arbitrary: fl b)
  case (Cons x kvs)
  obtain key v where x: "x = (key, v)" by (cases x)
  have given: "key = KEY_PEER_SECRET \<longrightarrow> as_str v \<noteq> []" "secrets_given kvs"
    using Cons.prems(2) by (simp_all add: secrets_given_def x)
  obtain fl1 b1 where run: "updates_loop cr kvs fl1 (update_prop key v b1) = (fl', b')"
    and b1: "bk_objects b1 = bk_objects b" "bk_used_ids b1 = bk_used_ids b"
      "bk_database b1 = bk_database b" "bk_props b1 = bk_props b"
    by (rule updates_loop_first [OF Cons.prems(1) [unfolded x] given(1)])
  from Cons.IH [OF run given(2)] show ?case
    by (auto simp: x b1 update_prop_fields props_get_put map_add_def split: option.split)
qed simp

lemma fold_broadcast_fields [simp]:
  "bk_database (fold (\<lambda>(key, v). broadcast (ev key v)) kvs b) = bk_database b"
  "bk_objects (fold (\<lambda>(key, v). broadcast (ev key v)) kvs b) = bk_objects b"
  "bk_props (fold (\<lambda>(key, v). broadcast (ev key v)) kvs b) = bk_props b"
  "bk_used_ids (fold (\<lambda>(key, v). broadcast (ev key v)) kvs b) = bk_used_ids b"
  by (induction kvs arbitrary: b) (auto simp: broadcast_def)

lemma updates_effect:
  assumes "secrets_given kvs"
  shows "bk_database (updates cr channel kvs b) = bk_database b"
    "live (updates cr channel kvs b) = live b"
    "mem (updates cr channel kvs b) ik =
       (case own_writes Id_ZERO kvs ik of None \<Rightarrow> mem b ik | Some v \<Rightarrow> value_norm v)"
proof -
  obtain fl b1 where l: "updates_loop cr kvs
      \<lparr>uf_mumblelink = False, uf_client = False, uf_public_key = None\<rparr> b = (fl, b1)" by fastforce
  note e = updates_loop_effect [OF l assms]
  have o: "bk_objects (updates cr channel kvs b) = bk_objects b1"
    "bk_props (updates cr channel kvs b) = bk_props b1"
    "bk_used_ids (updates cr channel kvs b) = bk_used_ids b1"
    "bk_database (updates cr channel kvs b) = bk_database b1"
    by (auto simp: updates_def l Let_def restart_mumblelink_def restart_client_def broadcast_def
        split: option.split)
  show "bk_database (updates cr channel kvs b) = bk_database b"
    "live (updates cr channel kvs b) = live b"
    using e o by (auto intro: live_same)
  show "mem (updates cr channel kvs b) ik =
       (case own_writes Id_ZERO kvs ik of None \<Rightarrow> mem b ik | Some v \<Rightarrow> value_norm v)"
    using e by (cases ik) (simp add: mem_def own_writes_def o split: option.split)
qed

subsection \<open>Operations on the database\<close>

text \<open>Statements on the tables of objects and images leave the properties as they are.\<close>

definition leaves_props :: "(Database \<Rightarrow> DbError option \<times> Database) \<Rightarrow> bool" where
  "leaves_props f \<longleftrightarrow>
     (\<forall>db. db_ok db \<longrightarrow> db_ok (snd (f db)) \<and> db_props (snd (f db)) = db_props db)"

lemma leaves_props_tables:
  "leaves_props (db_insert_object i ty)" "leaves_props (db_remove_object i)"
  "leaves_props (db_save_image i content_type role width height data)" "leaves_props (db_remove_image i)"
  by (auto simp: leaves_props_def db_insert_object_def db_remove_object_def db_save_image_def
      db_remove_image_def db_exec_def db_ok_def split: prod.splits bool.splits)

lemma db_read_props: "db_props db' = db_props db \<Longrightarrow> db_read d db' = db_read d db"
  by (simp add: db_read_def db_properties_def fun_eq_iff)

lemma with_db_leaves:
  assumes "leaves_props f" "with_db f b = (e, b')" "db_ok (bk_database b)"
  shows "db_ok (bk_database b') \<and> db_read d (bk_database b') = db_read d (bk_database b) \<and>
    bk_objects b' = bk_objects b \<and> bk_props b' = bk_props b \<and> bk_used_ids b' = bk_used_ids b \<and>
    bk_keypair b' = bk_keypair b"
  using assms unfolding leaves_props_def
  by (auto simp: with_db_def intro!: db_read_props split: prod.splits)

lemma remove_property_effect:
  assumes "db_ok (bk_database b)"
  obtains b' where "with_db (db_remove_property i key) b = (None, b')" "db_ok (bk_database b')"
    "\<And>d ik. db_read d (bk_database b') ik = (if ik = (i, key) then VEmpty else db_read d (bk_database b) ik)"
    "bk_objects b' = bk_objects b" "bk_props b' = bk_props b" "bk_used_ids b' = bk_used_ids b"
proof -
  have db: "hm_wf (db_props (bk_database b))" "db_faults (bk_database b) = []" "db_scratch (bk_database b) = []"
    using assms by (simp_all add: db_ok_def)
  let ?db = "(bk_database b)\<lparr>db_props := hm_remove (i, key) (db_props (bk_database b))\<rparr>"
  show thesis
  proof (rule that [of "b\<lparr>bk_database := ?db\<rparr>"])
    show "with_db (db_remove_property i key) b = (None, b\<lparr>bk_database := ?db\<rparr>)"
      using db by (simp add: with_db_def db_remove_property_def db_exec_def)
    show "db_ok (bk_database (b\<lparr>bk_database := ?db\<rparr>))" using db by (simp add: db_ok_def)
    fix d ik
    show "db_read d (bk_database (b\<lparr>bk_database := ?db\<rparr>)) ik =
        (if ik = (i, key) then VEmpty else db_read d (bk_database b) ik)"
      using db by (cases ik) (simp add: db_read_column hm_get_remove read_column_def)
  qed simp_all
qed

lemma new_id_fields:
  assumes "new_id b = (r, b1)"
  shows "bk_database b1 = bk_database b" "bk_objects b1 = bk_objects b" "bk_props b1 = bk_props b"
    "bk_keypair b1 = bk_keypair b"
    "bk_used_ids b1 = (case r of None \<Rightarrow> bk_used_ids b | Some i \<Rightarrow> hs_insert (id_get i) (bk_used_ids b))"
  using assms by (auto simp: new_id_def split: prod.splits option.splits)

lemma live_used:
  assumes "bk_objects b' = bk_objects b" "set (bk_used_ids b) \<subseteq> set (bk_used_ids b')" "live b' i"
  shows "live b i"
  using assms by (auto simp: live_def allocated_def)

lemma reserved_effect:
  assumes "new_id b = (r, b1)"
  shows "bk_database b1 = bk_database b" "mem b1 = mem b" "live b1 i \<Longrightarrow> live b i"
    "allocated b i \<Longrightarrow> allocated b1 i"
  using new_id_fields [OF assms] live_used [of b1 b i]
  by (auto simp: allocated_def split: option.splits intro!: mem_same)

subsection \<open>The invariant of a connection\<close>

definition entries_ok :: "Backend \<Rightarrow> Pending \<Rightarrow> bool" where
  "entries_ok b m \<longleftrightarrow> hm_wf m \<and>
     (\<forall>i key v. hm_get m (i, key) = Some v \<longrightarrow> storable key v \<and> allocated b i)"

definition web_ok :: "Descriptive \<Rightarrow> WebSession \<Rightarrow> Backend \<Rightarrow> bool" where
  "web_ok d s b \<longleftrightarrow>
     backend_ok b \<and> db_ok (bk_database b) \<and> entries_ok b (ws_database_updates s) \<and>
     entries_ok b (ws_local_updates s) \<and> (ws_database_updates s \<noteq> [] \<longrightarrow> ws_notify s) \<and>
     (ws_local_updates s \<noteq> [] \<longrightarrow> ws_timer s) \<and> coherent d s b"

lemma entries_ok_mono:
  "entries_ok b m \<Longrightarrow> (\<And>i. allocated b i \<Longrightarrow> allocated b' i) \<Longrightarrow> entries_ok b' m"
  by (fastforce simp: entries_ok_def)

lemma entries_ok_insert:
  "entries_ok b m \<Longrightarrow> allocated b i \<Longrightarrow> list_all (\<lambda>(key, v). storable key v) kvs \<Longrightarrow>
     entries_ok b (fold (\<lambda>(key, v). hm_insert (i, key) v) kvs m)"
proof (induction kvs arbitrary: m)
  case (Cons x kvs)
  obtain key v where x: "x = (key, v)" by (cases x)
  have "entries_ok b (hm_insert (i, key) v m)"
    using Cons.prems x by (auto simp: entries_ok_def hm_get_insert)
  with Cons x show ?case by simp
qed simp

lemma unsaved_allocated:
  assumes "web_ok d s b" "unsaved s ik = Some v"
  shows "allocated b (fst ik)"
  using assms by (cases ik) (auto simp: unsaved_def web_ok_def entries_ok_def split: option.splits)

text \<open>A change of the backend that neither schedules nor saves anything.\<close>

lemma web_ok_backend:
  assumes "web_ok d s b" "local_step\<^sup>*\<^sup>* b b'" "db_ok (bk_database b')" "coherent d s b'"
  shows "web_ok d s b'"
proof -
  have "allocated b' i" if "allocated b i" for i
    using assms(2) that by (induction rule: rtranclp_induct) (auto intro: local_allocated)
  then show ?thesis
    using assms steps_ok [OF assms(2)] unfolding web_ok_def by (meson entries_ok_mono)
qed

lemma web_ok_updates:
  assumes "web_ok d s b" "local_step\<^sup>*\<^sup>* b b'" "bk_database b' = bk_database b" "live b' = live b"
    and "\<And>ik. mem b' ik = (case own_writes i kvs ik of None \<Rightarrow> mem b ik | Some v \<Rightarrow> value_norm v)"
    and "allocated b i" "list_all (\<lambda>(key, v). storable key v) kvs"
  shows "web_ok d (add_updates i kvs s) b'"
proof -
  have c: "coherent d (add_updates i kvs s) b'"
    using assms(1) unfolding web_ok_def
    by (intro coherent_writes [of d s b b' "own_writes i kvs"])
      (auto simp: assms(4, 5) seen_add_updates [OF assms(3)] split: option.split)
  have a: "allocated b' i" if "allocated b i" for i
    using assms(2) that by (induction rule: rtranclp_induct) (auto intro: local_allocated)
  then show ?thesis
    using assms(1, 3, 6, 7) steps_ok [OF assms(2)] c entries_ok_mono [OF _ a]
    by (auto simp: web_ok_def add_updates_def intro!: entries_ok_insert)
qed

subsection \<open>Requests\<close>

lemma coherent_db:
  assumes "coherent d s b" "mem b' = mem b" "\<And>i. live b' i \<Longrightarrow> live b i"
    and "db_read d (bk_database b') = db_read d (bk_database b)"
  shows "coherent d s b'"
  using assms by (intro coherent_same [OF assms(1-3)]) (simp_all add: seen_def split: option.split)

lemma handle_object_update:
  assumes "web_ok d s b" "hm_get (bk_objects b) i = Some ob" "i \<noteq> Id_ZERO"
    "list_all (\<lambda>(key, v). storable key v) kvs"
  shows "web_ok d (add_updates i kvs s) (fold (\<lambda>(key, v). broadcast
    (BRemoteUpdate (RObjectUpdated channel (rid_local i) key v))) kvs (object_update i kvs b))"
    (is "web_ok d _ ?b")
proof -
  have i: "allocated b i"
    using assms(1, 2) by (auto simp: web_ok_def backend_ok_def objects_ok_def hm_keys_iff)
  note e = object_update_effect [OF assms(2,3), of kvs]
  have s: "local_step\<^sup>*\<^sup>* b ?b"
    using object_update_steps by (rule steps_then_quiet) (rule shared_fold_broadcast)
  have "mem ?b = mem (object_update i kvs b)" "live ?b = live (object_update i kvs b)"
    by (auto intro: mem_same live_same)
  then show ?thesis
    using e by (intro web_ok_updates [OF assms(1) s _ _ _ i assms(4)]) simp_all
qed

lemma handle_updates:
  assumes "web_ok d s b" "secrets_given kvs" "list_all (\<lambda>(key, v). storable key v) kvs"
  shows "web_ok d (add_updates Id_ZERO kvs s) (updates cr channel kvs b)"
  by (rule web_ok_updates [OF assms(1) updates_steps _ _ _ _ assms(3)])
    (simp_all add: updates_effect [OF assms(2)] allocated_def id_is_zero_def Id_ZERO_def)

lemma handle_insert_image:
  assumes "web_ok d s b"
  shows "web_ok d s (snd (insert_image content_type role width height bytes b))"
    (is "web_ok d s ?b")
proof -
  obtain r b1 where n: "new_id b = (r, b1)" by fastforce
  note e1 = reserved_effect [OF n]
  have ok: "db_ok (bk_database b1)" using assms e1(1) by (simp add: web_ok_def)
  have "db_ok (bk_database ?b) \<and> coherent d s ?b"
  proof (cases r)
    case None
    then have "?b = b1" using n by (simp add: insert_image_def)
    then show ?thesis
      using assms ok coherent_db [of d s b b1] e1 by (auto simp: web_ok_def)
  next
    case (Some i)
    obtain e b2 where w: "with_db (db_save_image i content_type role width height bytes) b1 = (e, b2)"
      by fastforce
    note k = with_db_leaves [OF leaves_props_tables(3) w ok]
    have f: "bk_objects ?b = bk_objects b2" "bk_props ?b = bk_props b2"
      "bk_used_ids ?b = bk_used_ids b2" "bk_database ?b = bk_database b2"
      using n Some w
      by (auto simp: insert_image_def Let_def notify_client_def cache_store_def split: option.split)
    have m: "mem ?b = mem b" using f k e1(2) mem_same [of ?b b1] by simp
    have l: "live b i" if "live ?b i" for i using that f k e1(3) live_same [of ?b b1] by simp
    have "db_read d (bk_database ?b) = db_read d (bk_database b)" using f(4) k e1(1) by simp
    with m l have "coherent d s ?b"
      using assms coherent_db [of d s b ?b] unfolding web_ok_def by blast
    then show ?thesis using f(4) k by simp
  qed
  then show ?thesis
    using assms by (intro web_ok_backend [OF assms insert_image_steps]) (auto simp: web_ok_def)
qed

lemma saved_props_read:
  assumes "descriptive_ok d" "db_ok (bk_database b)" "props_ok ps"
    and "list_all (\<lambda>(key, v). storable key v) ps"
  obtains b' where "save_props d i ps b = (None, b')" "db_ok (bk_database b')"
    "\<And>ik. db_read d (bk_database b') ik =
       (if fst ik = i \<and> props_contains ps (snd ik) then stored (props_get ps (snd ik))
        else db_read d (bk_database b) ik)"
    "bk_objects b' = bk_objects b" "bk_props b' = bk_props b" "bk_used_ids b' = bk_used_ids b"
proof -
  let ?kvs = "map (\<lambda>(key, v). (i, key, v)) ps"
  have "list_all entry_ok ?kvs" using assms(4) by (auto simp: list_all_iff entry_ok_def)
  from set_properties_reads [OF assms(1) this assms(2)] obtain db' where db': "db_ok db'"
    "db_set_properties d ?kvs (bk_database b) = (None, db')"
    "\<forall>ik. db_read d db' ik = (case last_written ?kvs ik of Some v \<Rightarrow> stored v
       | None \<Rightarrow> db_read d (bk_database b) ik)"
    by (metis append_Nil2 db_set_properties.simps(1))
  obtain b' where s: "save_props d i ps b = (None, b')"
    using save_props_succeeds [OF db'(2)] by blast
  have b': "bk_database b' = db'" using save_props_db [OF s] db'(2) by simp
  have dist: "distinct (map fst ps)" using assms(3) by (simp add: props_ok_def hm_wf_def)
  have other: "last_written ?kvs (j, key) = None" if "j \<noteq> i" for j key
    using that by (auto simp: last_written_def map_of_eq_None_iff)
  have "db_read d db' ik = (if fst ik = i \<and> props_contains ps (snd ik) then stored (props_get ps (snd ik))
      else db_read d (bk_database b) ik)" for ik
    using db'(3) last_written_one [OF dist, of i "snd ik"] other [of "fst ik" "snd ik"]
    by (cases "fst ik = i")
      (auto simp: props_contains_def props_get_def hm_get_def simp del: split_paired_All split: option.split)
  with s db'(1) b' sharedD [OF shared_save_props [OF s]] show thesis
    by (intro that [of b']) simp_all
qed

lemma coherent_fresh:
  assumes "web_ok d s b" "\<not> allocated b i"
  shows "unsaved s (i, key) = None" "db_read d (bk_database b) (i, key) = VEmpty"
proof -
  show u: "unsaved s (i, key) = None"
    using unsaved_allocated [OF assms(1), of "(i, key)"] assms(2) by (cases "unsaved s (i, key)") auto
  have ok: "backend_ok b" "coherent d s b" using assms(1) by (simp_all add: web_ok_def)
  have "live b i" "i \<noteq> Id_ZERO"
    using assms(2) by (auto simp: live_def allocated_def id_is_zero_def Id_ZERO_def)
  moreover from this have "mem b (i, key) = VEmpty"
    using unallocated(1) [OF ok(1) assms(2)] by (simp add: mem_def)
  ultimately show "db_read d (bk_database b) (i, key) = VEmpty"
    using ok(2) [unfolded coherent_def, rule_format, of "(i, key)"] u by (simp add: seen_def)
qed

lemma list_all_get: "hm_wf p \<Longrightarrow> list_all (\<lambda>(k, v). f k v) p \<longleftrightarrow> (\<forall>k v. hm_get p k = Some v \<longrightarrow> f k v)"
  by (auto simp: list_all_iff hm_mem_get)

lemma storable_put:
  assumes "props_ok p" "list_all (\<lambda>(key, v). storable key v) p" "storable key v"
  shows "list_all (\<lambda>(key, v). storable key v) (props_put key v p)"
proof -
  have "hm_wf p" "hm_wf (props_put key v p)" using assms(1) by (simp_all add: props_ok_def hm_wf_props_put)
  then show ?thesis
    using assms(2, 3) by (auto simp: list_all_get props_put_eq hm_simps split: if_splits)
qed

lemma handle_create_object:
  assumes "descriptive_ok d" "web_ok d s b" "props_ok props" "list_all (\<lambda>(key, v). storable key v) props"
  shows "web_ok d s (snd (create_object d ty props b))" (is "web_ok d s ?b")
proof -
  obtain r b1 where n: "new_id b = (r, b1)" by fastforce
  note e1 = reserved_effect [OF n]
  have ok: "db_ok (bk_database b1)" using assms(2) e1(1) by (simp add: web_ok_def)
  have co: "coherent d s b" using assms(2) by (simp add: web_ok_def)
  have "db_ok (bk_database ?b) \<and> coherent d s ?b"
  proof (cases r)
    case None
    then have "?b = b1" using n by (simp add: create_object_def)
    then show ?thesis using ok coherent_db [OF co] e1 by auto
  next
    case (Some i)
    obtain e b2 where w: "with_db (db_insert_object i ty) b1 = (e, b2)" by fastforce
    note k = with_db_leaves [OF leaves_props_tables(1) w ok]
    have i: "\<not> allocated b i" using new_id_shared [OF n] Some by simp
    have m2: "mem b2 = mem b" using k e1(2) mem_same [of b2 b1] by simp
    have l2: "live b j" if "live b2 j" for j using that k e1(3) live_same [of b2 b1] by simp
    have r2: "db_read d (bk_database b2) = db_read d (bk_database b)" using k e1(1) by simp
    show ?thesis
    proof (cases e)
      case (Some err)
      then have "?b = b2" using n w \<open>r = Some i\<close> by (simp add: create_object_def)
      then show ?thesis using k coherent_db [OF co m2 l2 r2] by simp
    next
      case None
      define ps where "ps = (if is_global ty then props else props_put KEY_SORT (VBytes
          (case last_sort (bk_objects b2) of Some s \<Rightarrow> after s | None \<Rightarrow> id_to_vec i)) props)"
      define ob where "ob = \<lparr>lo_ty = ty, lo_id = i, lo_props = ps, lo_changed = []\<rparr>"
      define b3 where "b3 = b2\<lparr>bk_objects := hm_insert i ob (bk_objects b2),
          bk_objects_added := hs_insert i (bk_objects_added b2)\<rparr>"
      have ps: "props_ok ps" using assms(3) by (simp add: ps_def props.wf_put)
      have st: "list_all (\<lambda>(key, v). storable key v) ps"
        using assms(3, 4) by (simp add: ps_def storable_put storable_sort)
      have "db_ok (bk_database b3)" using k by (simp add: b3_def)
      from saved_props_read [OF assms(1) this ps st, of i] obtain b4 where
        b4: "save_props d i ps b3 = (None, b4)" "db_ok (bk_database b4)"
          "\<And>ik. db_read d (bk_database b4) ik =
            (if fst ik = i \<and> props_contains ps (snd ik) then stored (props_get ps (snd ik))
             else db_read d (bk_database b3) ik)"
          "bk_objects b4 = bk_objects b3" "bk_props b4 = bk_props b3" "bk_used_ids b4 = bk_used_ids b3"
        by blast
      have out: "?b = notify_client b4"
        using n w Some None b4(1) by (simp add: create_object_def Let_def flip: ps_def ob_def b3_def)
      have f: "bk_objects ?b = hm_insert i ob (bk_objects b2)" "bk_props ?b = bk_props b2"
        "bk_used_ids ?b = bk_used_ids b2" "bk_database ?b = bk_database b4"
        using b4 by (simp_all add: out notify_client_def b3_def)
      have "i \<noteq> Id_ZERO" using i by (auto simp: allocated_def id_is_zero_def Id_ZERO_def)
      then have m: "mem ?b ik = (if fst ik = i then props_get ps (snd ik) else mem b ik)" for ik
        using fun_cong [OF m2, of ik] by (cases ik) (auto simp: mem_def f hm_get_insert ob_def)
      have l: "live b j" if "live ?b j" for j
        using that l2 [of j] i by (auto simp: live_def f hm_get_insert allocated_def split: if_splits)
      have rd: "db_read d (bk_database ?b) ik =
          (if fst ik = i then stored (props_get ps (snd ik)) else db_read d (bk_database b) ik)" for ik
        using coherent_fresh(2) [OF assms(2) i] b4(3) r2
        by (cases ik) (auto simp: f b3_def props_contains_def props_get_def split: option.splits)
      have "coherent d s ?b"
        using coherent_fresh(1) [OF assms(2) i] l co
        by (auto simp: coherent_def m seen_def rd split: option.split)
      then show ?thesis using f(4) b4(2) by simp
    qed
  qed
  then show ?thesis
    using assms by (intro web_ok_backend [OF assms(2) create_object_steps]) (auto simp: web_ok_def)
qed

text \<open>
  Removals reach the database directly. They are safe when no update of what they clear is still
  to be saved.
\<close>

definition in_own_room :: "Crypto \<Rightarrow> Backend \<Rightarrow> Id \<Rightarrow> bool" where
  "in_own_room cr b i \<longleftrightarrow>
     as_stable_id (props_get (bk_props b) KEY_ROOM) = StableId_new (keypair_public_key cr (bk_keypair b)) i"

lemma handle_remove_object:
  assumes "web_ok d s b" "allocated b i" "in_own_room cr b i \<Longrightarrow> unsaved s (Id_ZERO, KEY_ROOM) = None"
  shows "web_ok d s (snd (remove_object cr i b))" (is "web_ok d s ?b")
proof -
  define b1 where "b1 = (if bk_mumble_object b = i
      then set_mumblelink_transform None (store_mumble_object Id_ZERO b) else b)"
  have f1: "bk_objects b1 = bk_objects b" "bk_props b1 = bk_props b" "bk_used_ids b1 = bk_used_ids b"
    "bk_database b1 = bk_database b" "bk_keypair b1 = bk_keypair b"
    by (simp_all add: b1_def set_mumblelink_transform_def store_mumble_object_def)
  have ok: "db_ok (bk_database b1)" and co: "coherent d s b"
    using assms(1) by (simp_all add: web_ok_def f1)
  obtain e b2 where w: "with_db (db_remove_object i) b1 = (e, b2)" by fastforce
  note k = with_db_leaves [OF leaves_props_tables(2) w ok]
  have r2: "db_read d (bk_database b2) = db_read d (bk_database b)" using k f1 by simp
  have "db_ok (bk_database ?b) \<and> coherent d s ?b"
  proof (cases e)
    case (Some err)
    then have "?b = b2" using w by (simp add: remove_object_def flip: b1_def)
    moreover have "coherent d s b2"
      by (rule coherent_db [OF co _ _ r2]) (use k f1 mem_same [of b2 b] live_same [of b2 b] in auto)
    ultimately show ?thesis using k by simp
  next
    case None
    let ?own = "in_own_room cr b i"
    have own: "(as_stable_id (props_get (bk_props b2) KEY_ROOM) =
        StableId_new (keypair_public_key cr (bk_keypair b2)) i) = ?own"
      using k f1 by (simp add: in_own_room_def)
    obtain b3 where b3: "with_db (db_remove_property Id_ZERO KEY_ROOM) b2 = (None, b3)"
      "db_ok (bk_database b3)"
      "\<And>d ik. db_read d (bk_database b3) ik =
         (if ik = (Id_ZERO, KEY_ROOM) then VEmpty else db_read d (bk_database b2) ik)"
      "bk_objects b3 = bk_objects b2" "bk_props b3 = bk_props b2" "bk_used_ids b3 = bk_used_ids b2"
      using k remove_property_effect [of b2 Id_ZERO KEY_ROOM] by metis
    define b4 where "b4 = (if ?own then b3 else b2)"
    have f: "bk_objects ?b = hm_remove i (bk_objects b)" "bk_used_ids ?b = bk_used_ids b"
      "bk_props ?b = (if ?own then props_put KEY_ROOM VEmpty (bk_props b) else bk_props b)"
      "bk_database ?b = bk_database b4"
      using w None own b3(1, 4-6) k f1
      by (auto simp: remove_object_def Let_def notify_client_def b4_def props_remove_put simp flip: b1_def)
    have m: "mem ?b ik = (if ?own \<and> ik = (Id_ZERO, KEY_ROOM) then VEmpty else mem b ik)"
      if "live ?b (fst ik)" for ik
      using that assms(2)
      by (cases ik) (auto simp: mem_def f props_get_put value_norm_def hm_get_remove live_def allocated_def)
    have l: "live b j" if "live ?b j" for j
      using that by (auto simp: live_def f hm_get_remove allocated_def split: if_splits)
    have rd: "db_read d (bk_database ?b) ik =
        (if ?own \<and> ik = (Id_ZERO, KEY_ROOM) then VEmpty else db_read d (bk_database b) ik)" for ik
      by (simp add: f b4_def b3(3) r2)
    have "coherent d s ?b"
      using co l assms(3) by (auto simp: coherent_def m seen_def rd split: option.split)
    then show ?thesis using f(4) b3(2) k by (simp add: b4_def)
  qed
  then show ?thesis
    using assms by (intro web_ok_backend [OF assms(1) remove_object_steps]) (auto simp: web_ok_def)
qed

text \<open>The values that removing an image clears.\<close>

definition refers :: "Backend \<Rightarrow> Id \<Rightarrow> Id list \<Rightarrow> Key list \<Rightarrow> Id \<times> Key \<Rightarrow> bool" where
  "refers b img is keys = (\<lambda>(i, key).
     i \<in> set is \<and> key \<in> set keys \<and>
     (case hm_get (bk_objects b) i of
        None \<Rightarrow> False | Some object \<Rightarrow> as_id (props_get (lo_props object) key) = img))"

definition filed_objects :: "Backend \<Rightarrow> bool" where
  "filed_objects b \<longleftrightarrow>
     (\<forall>i ob. hm_get (bk_objects b) i = Some ob \<longrightarrow> lo_id ob = i \<and> i \<noteq> Id_ZERO)"

text \<open>What clearing a set of values does to a backend.\<close>

definition cleared :: "(Id \<times> Key \<Rightarrow> bool) \<Rightarrow> Backend \<Rightarrow> Backend \<Rightarrow> bool" where
  "cleared p b b' \<longleftrightarrow>
     db_ok (bk_database b') \<and> filed_objects b' \<and> live b' = live b \<and>
     mem b' = (\<lambda>ik. if p ik then VEmpty else mem b ik) \<and>
     (\<forall>d. db_read d (bk_database b') = (\<lambda>ik. if p ik then VEmpty else db_read d (bk_database b) ik)) \<and>
     (\<forall>i. hm_get (bk_objects b) i = None \<longleftrightarrow> hm_get (bk_objects b') i = None)"

lemma cleared_trans:
  assumes "cleared p b b1" "cleared q b1 b2"
  shows "cleared (\<lambda>ik. p ik \<or> q ik) b b2"
  using assms by (auto simp: cleared_def fun_eq_iff)

lemma refers_mem:
  "filed_objects b \<Longrightarrow>
     refers b img is keys ik \<longleftrightarrow>
       fst ik \<in> set is \<and> snd ik \<in> set keys \<and> hm_get (bk_objects b) (fst ik) \<noteq> None \<and>
       as_id (mem b ik) = img"
  by (cases ik) (auto simp: refers_def mem_def filed_objects_def split: option.split)

lemma as_id_VEmpty [simp]: "as_id VEmpty = Id_ZERO"
  by simp

text \<open>Clearing again what is cleared changes nothing.\<close>

lemma cleared_weaken:
  assumes "cleared p b b'" "\<And>ik. p ik \<longleftrightarrow> q ik"
  shows "cleared q b b'"
proof -
  have "p = q" using assms(2) by blast
  with assms(1) show ?thesis by simp
qed

lemma clear_one:
  assumes "filed_objects b" "db_ok (bk_database b)" "hm_get (bk_objects b) i = Some ob"
    "with_db (db_remove_property i key)
      (b\<lparr>bk_objects := hm_insert i (ob\<lparr>lo_props := snd (props_remove key (lo_props ob)),
           lo_changed := hs_insert key (lo_changed ob)\<rparr>) (bk_objects b),
         bk_objects_changed := hs_insert i (bk_objects_changed b)\<rparr>) = (e, b1)"
  shows "e = None \<and> cleared (\<lambda>ik. ik = (i, key)) b (broadcast ev b1)"
proof -
  let ?b = "b\<lparr>bk_objects := hm_insert i (ob\<lparr>lo_props := snd (props_remove key (lo_props ob)),
           lo_changed := hs_insert key (lo_changed ob)\<rparr>) (bk_objects b),
         bk_objects_changed := hs_insert i (bk_objects_changed b)\<rparr>"
  have "db_ok (bk_database ?b)" using assms(2) by simp
  from remove_property_effect [OF this, of i key] obtain b2 where
    b2: "with_db (db_remove_property i key) ?b = (None, b2)" "db_ok (bk_database b2)"
      "\<And>d ik. db_read d (bk_database b2) ik =
         (if ik = (i, key) then VEmpty else db_read d (bk_database ?b) ik)"
      "bk_objects b2 = bk_objects ?b" "bk_props b2 = bk_props ?b" "bk_used_ids b2 = bk_used_ids ?b"
    by metis
  have e: "e = None" "b1 = b2" using assms(4) b2(1) by simp_all
  have i: "i \<noteq> Id_ZERO" using assms(1, 3) by (auto simp: filed_objects_def)
  have "mem (broadcast ev b2) ik = (if ik = (i, key) then VEmpty else mem b ik)" for ik
    using assms(3) i b2(4, 5)
    by (cases ik) (auto simp: mem_def broadcast_def hm_get_insert props_remove_put props_get_put
        value_norm_def split: option.split)
  moreover have "live (broadcast ev b2) = live b"
    using assms(3) b2(4-6) by (auto simp: live_def allocated_def broadcast_def hm_get_insert fun_eq_iff)
  ultimately show ?thesis
    using e assms(1, 3) b2(2-5)
    by (auto simp: cleared_def broadcast_def filed_objects_def hm_get_insert fun_eq_iff)
qed

lemma clear_image_keys_effect:
  "clear_image_keys img i keys any b = (r, b') \<Longrightarrow> filed_objects b \<Longrightarrow> db_ok (bk_database b) \<Longrightarrow>
     (\<exists>any'. r = Inr any') \<and> cleared (refers b img [i] keys) b b'"
proof (induction keys arbitrary: any b)
  case Nil
  then show ?case by (auto simp: cleared_def refers_def fun_eq_iff)
next
  case (Cons key ks)
  show ?case
  proof (cases "hm_get (bk_objects b) i")
    case None
    then have "\<not> refers b img [i] (key # ks) ik" for ik by (cases ik) (auto simp: refers_def)
    then show ?thesis using Cons.prems None by (auto simp: cleared_def fun_eq_iff)
  next
    case (Some ob)
    show ?thesis
    proof (cases "as_id (props_get (lo_props ob) key) = img")
      case False
      then have "refers b img [i] (key # ks) ik \<longleftrightarrow> refers b img [i] ks ik" for ik
        using Some by (cases ik) (auto simp: refers_def)
      then have "refers b img [i] (key # ks) = refers b img [i] ks" by blast
      with Cons False Some show ?thesis by simp
    next
      case True
      have i: "lo_id ob = i" using Some Cons.prems(2) by (simp add: filed_objects_def)
      let ?ev = "BRemoteUpdate (RObjectUpdated CHANNEL_NONE (rid_local i) key VEmpty)"
      let ?b = "b\<lparr>bk_objects := hm_insert i (ob\<lparr>lo_props := snd (props_remove key (lo_props ob)),
           lo_changed := hs_insert key (lo_changed ob)\<rparr>) (bk_objects b),
         bk_objects_changed := hs_insert i (bk_objects_changed b)\<rparr>"
      obtain e b1 where w: "with_db (db_remove_property i key) ?b = (e, b1)" by fastforce
      from clear_one [OF Cons.prems(2,3) Some w, of ?ev]
      have e: "e = None" and c: "cleared (\<lambda>ik. ik = (i, key)) b (broadcast ?ev b1)" by simp_all
      have run: "clear_image_keys img i ks True (broadcast ?ev b1) = (r, b')"
        using Cons.prems(1) Some True i w e by (simp add: Let_def)
      have ok: "filed_objects (broadcast ?ev b1)" "db_ok (bk_database (broadcast ?ev b1))"
        using c by (simp_all add: cleared_def)
      from Cons.IH [OF run ok]
      have r: "\<exists>any'. r = Inr any'"
        and c2: "cleared (refers (broadcast ?ev b1) img [i] ks) (broadcast ?ev b1) b'" by simp_all
      have m: "mem (broadcast ?ev b1) = (\<lambda>ik. if ik = (i, key) then VEmpty else mem b ik)"
        and o: "\<And>j. hm_get (bk_objects b) j = None \<longleftrightarrow> hm_get (bk_objects (broadcast ?ev b1)) j = None"
        using c by (simp_all add: cleared_def)
      have hit: "as_id (mem b (i, key)) = img"
        using True Some Cons.prems(2) by (auto simp: mem_def filed_objects_def)
      have "hm_get (bk_objects (broadcast ?ev b1)) i \<noteq> None" using o [of i] Some by simp
      then obtain ob1 where "hm_get (bk_objects (broadcast ?ev b1)) i = Some ob1" by blast
      then have "(ik = (i, key) \<or> refers (broadcast ?ev b1) img [i] ks ik) \<longleftrightarrow>
          refers b img [i] (key # ks) ik" for ik
        using Some hit
        by (cases ik) (auto simp: refers_mem [OF ok(1)] refers_mem [OF Cons.prems(2)] m)
      with cleared_trans [OF c c2] r show ?thesis using cleared_weaken by presburger
    qed
  qed
qed

lemma clear_image_refs_effect:
  "clear_image_refs img is any b = (r, b') \<Longrightarrow> filed_objects b \<Longrightarrow> db_ok (bk_database b) \<Longrightarrow>
     (\<exists>any'. r = Inr any') \<and> cleared (refers b img is [KEY_IMAGE_ID, KEY_ROOM_BACKGROUND]) b b'"
proof (induction "is" arbitrary: any b)
  case Nil
  then show ?case by (auto simp: cleared_def refers_def fun_eq_iff)
next
  case (Cons i "is")
  let ?ks = "[KEY_IMAGE_ID, KEY_ROOM_BACKGROUND]"
  obtain r1 b1 where k: "clear_image_keys img i ?ks any b = (r1, b1)" by fastforce
  from clear_image_keys_effect [OF this Cons.prems(2,3)] obtain any1
    where r1: "r1 = Inr any1" and c: "cleared (refers b img [i] ?ks) b b1" by blast
  have run: "clear_image_refs img is any1 b1 = (r, b')" using Cons.prems(1) k r1 by simp
  have ok: "filed_objects b1" "db_ok (bk_database b1)" using c by (simp_all add: cleared_def)
  from Cons.IH [OF run ok] have r: "\<exists>any'. r = Inr any'" and c2: "cleared (refers b1 img is ?ks) b1 b'"
    by simp_all
  have m: "mem b1 = (\<lambda>ik. if refers b img [i] ?ks ik then VEmpty else mem b ik)"
    and o: "\<And>j. hm_get (bk_objects b) j = None \<longleftrightarrow> hm_get (bk_objects b1) j = None"
    using c by (simp_all add: cleared_def)
  have "(refers b img [i] ?ks ik \<or> refers b1 img is ?ks ik) \<longleftrightarrow> refers b img (i # is) ?ks ik" for ik
    unfolding refers_mem [OF ok(1)] refers_mem [OF Cons.prems(2)] m
    by (auto simp: o simp del: not_None_eq)
  with cleared_trans [OF c c2] r show ?case using cleared_weaken by presburger
qed

lemma remove_image_effect:
  assumes "filed_objects b" "db_ok (bk_database b)"
  shows "fst (remove_image i b) = None \<or> snd (remove_image i b) = snd (with_db (db_remove_image i) b)"
    "fst (remove_image i b) = None \<Longrightarrow>
       cleared (refers b i (hm_keys (bk_objects b)) [KEY_IMAGE_ID, KEY_ROOM_BACKGROUND])
         b (snd (remove_image i b))"
proof -
  obtain e b1 where w: "with_db (db_remove_image i) b = (e, b1)" by fastforce
  note k = with_db_leaves [OF leaves_props_tables(4) w assms(2)]
  define b2 where "b2 = notify_client (b1\<lparr>bk_images := hm_remove i (bk_images b1),
                bk_images_added := hs_remove i (bk_images_added b1),
                bk_images_removed := hs_insert i (bk_images_removed b1)\<rparr>)"
  have f2: "bk_objects b2 = bk_objects b" "bk_props b2 = bk_props b" "bk_used_ids b2 = bk_used_ids b"
    "bk_database b2 = bk_database b1"
    using k by (simp_all add: b2_def notify_client_def)
  have ok: "filed_objects b2" "db_ok (bk_database b2)"
    using assms(1) k f2 by (simp_all add: filed_objects_def)
  obtain r b3 where c: "clear_image_refs i (hm_keys (bk_objects b2)) False b2 = (r, b3)" by fastforce
  from clear_image_refs_effect [OF c ok] obtain any where r: "r = Inr any"
    and c3: "cleared (refers b2 i (hm_keys (bk_objects b2)) [KEY_IMAGE_ID, KEY_ROOM_BACKGROUND]) b2 b3"
    by blast
  have run: "remove_image i b = (case e of Some e \<Rightarrow> (Some e, b1)
      | None \<Rightarrow> (None, if any then notify_client b3 else b3))"
    using w c r by (simp add: remove_image_def Let_def flip: b2_def split: option.split)
  show "fst (remove_image i b) = None \<or> snd (remove_image i b) = snd (with_db (db_remove_image i) b)"
    using run w by (auto split: option.split)
  assume none: "fst (remove_image i b) = None"
  have "cleared p b (snd (remove_image i b))" if "cleared p b2 b3" for p
  proof -
    have "mem (notify_client b3) = mem b3" "live (notify_client b3) = live b3"
      by (auto intro: mem_same live_same simp: notify_client_def)
    moreover have "mem b2 = mem b" "live b2 = live b" using f2 by (auto intro: mem_same live_same)
    moreover have "db_read d (bk_database b2) = db_read d (bk_database b)" for d
      using k f2 with_db_leaves [OF leaves_props_tables(4) w assms(2), of d] by simp
    ultimately show ?thesis
      using that none run f2(1)
      by (auto simp: cleared_def filed_objects_def notify_client_def split: option.splits)
  qed
  moreover have "refers b2 i (hm_keys (bk_objects b2)) = refers b i (hm_keys (bk_objects b))"
    by (simp add: refers_def f2 fun_eq_iff)
  ultimately show "cleared (refers b i (hm_keys (bk_objects b)) [KEY_IMAGE_ID, KEY_ROOM_BACKGROUND])
         b (snd (remove_image i b))"
    using c3 by simp
qed

lemma handle_remove_image:
  assumes "web_ok d s b" "allocated b i" "hm_get (bk_objects b) Id_ZERO = None"
    and "\<And>ik. refers b i (hm_keys (bk_objects b)) [KEY_IMAGE_ID, KEY_ROOM_BACKGROUND] ik \<Longrightarrow>
      unsaved s ik = None"
  shows "web_ok d s (snd (remove_image i b))" (is "web_ok d s ?b")
proof -
  have ok: "filed_objects b" "db_ok (bk_database b)" and co: "coherent d s b"
    using assms(1, 3) by (auto simp: web_ok_def backend_ok_def objects_ok_def filed_objects_def)
  obtain e b1 where w: "with_db (db_remove_image i) b = (e, b1)" by fastforce
  note k = with_db_leaves [OF leaves_props_tables(4) w ok(2)]
  have "db_ok (bk_database ?b) \<and> coherent d s ?b"
  proof (cases "fst (remove_image i b) = None")
    case True
    from remove_image_effect(2) [OF ok this] show ?thesis
      using co assms(4) by (auto simp: cleared_def coherent_def seen_def split: option.split)
  next
    case False
    then have "?b = b1" using remove_image_effect(1) [OF ok, of i] w by (metis snd_conv)
    moreover have "coherent d s b1"
      by (rule coherent_db [OF co]) (use k mem_same [of b1 b] live_same [of b1 b] in auto)
    ultimately show ?thesis using k by simp
  qed
  then show ?thesis
    using assms by (intro web_ok_backend [OF assms(1) remove_image_steps]) (auto simp: web_ok_def)
qed

end
