(* ===== verification/WebRun.thy ===== *)
theory WebRun
  imports WebSync
begin

section \<open>A connection of the web interface\<close>

text \<open>
  The loop of \<open>ws.rs\<close> as a step relation, and what it guarantees of the database. A connection
  handles one request, notification, timer or broadcast at a time; in between, the client of
  the server and the Mumble link may change the rest of the backend. There is one connection:
  with two, each has updates of its own to save, in an order that memory does not tell.
\<close>

subsection \<open>Steps\<close>

definition flat :: "(Id \<times> Key) \<times> Value \<Rightarrow> Id \<times> Key \<times> Value" where
  "flat = (\<lambda>((i, key), v). (i, key, v))"

text \<open>The updates in some order, as a map is drained.\<close>

definition drained :: "Pending \<Rightarrow> (Id \<times> Key \<times> Value) list \<Rightarrow> bool" where
  "drained m kvs \<longleftrightarrow> distinct kvs \<and> set kvs = set (map flat m)"

inductive ws_step ::
    "Crypto \<Rightarrow> Descriptive \<Rightarrow> 'img ImageLib \<Rightarrow> (WebSession \<times> Backend \<Rightarrow> Request \<Rightarrow> bool) \<Rightarrow>
     WebSession \<times> Backend \<Rightarrow> WebSession \<times> Backend \<Rightarrow> bool" for cr d il ok where
  request: "ws_open s \<Longrightarrow> ok (s, b) r \<Longrightarrow> ws_step cr d il ok (s, b) (snd (ws_handle cr d il channel r (s, b)))"
| notified: "ws_open s \<Longrightarrow> ws_notify s \<Longrightarrow> ws_step cr d il ok (s, b) (ws_notified s, b)"
| timer: "ws_open s \<Longrightarrow> ws_timer s \<Longrightarrow> drained (ws_local_updates s) kvs \<Longrightarrow>
    ws_step cr d il ok (s, b) (ws_save d kvs (s, b))"
| event: "ws_open s \<Longrightarrow> ws_step cr d il ok (s, b) (ws_event e sent s, b)"
| finished: "ws_open s \<Longrightarrow> ws_step cr d il ok (s, b) (ws_done s, b)"
| remote: "shared b' = shared b \<Longrightarrow> bk_database b' = bk_database b \<Longrightarrow> ws_step cr d il ok (s, b) (s, b')"

text \<open>
  Requests after which memory and database still agree: the values are of the types of their
  keys, an updated object exists, a secret is not empty, and what a removal clears is not among
  the updates that are still to be saved.
\<close>

definition well_typed :: "(Key \<times> Value) list \<Rightarrow> bool" where
  "well_typed kvs \<longleftrightarrow> list_all (\<lambda>(key, v). storable key v) kvs"

definition no_unsaved_refs :: "WebSession \<Rightarrow> Backend \<Rightarrow> Id \<Rightarrow> bool" where
  "no_unsaved_refs s b i \<longleftrightarrow>
     list_all (\<lambda>(j, object). list_all (\<lambda>key.
         as_id (props_get (lo_props object) key) = i \<longrightarrow> unsaved s (j, key) = None)
       [KEY_IMAGE_ID, KEY_ROOM_BACKGROUND]) (bk_objects b)"

fun safe_request :: "Crypto \<Rightarrow> WebSession \<times> Backend \<Rightarrow> Request \<Rightarrow> bool" where
  "safe_request cr (s, b) (Updates kvs) = (well_typed kvs \<and> secrets_given kvs)"
| "safe_request cr (s, b) (ObjectUpdate i kvs) =
     (hm_get (bk_objects b) i \<noteq> None \<and> i \<noteq> Id_ZERO \<and> well_typed kvs)"
| "safe_request cr (s, b) (CreateObject ty props) = (props_ok props \<and> well_typed props)"
| "safe_request cr (s, b) (RemoveObject i) =
     (allocated b i \<and> (in_own_room cr b i \<longrightarrow> unsaved s (Id_ZERO, KEY_ROOM) = None))"
| "safe_request cr (s, b) (RemoveImage i) =
     (allocated b i \<and> hm_get (bk_objects b) Id_ZERO = None \<and> no_unsaved_refs s b i)"
| "safe_request cr (s, b) _ = True"

subsection \<open>The steps keep memory and database in agreement\<close>

lemma web_ok_quiet:
  assumes "web_ok d s b" "shared b' = shared b" "bk_database b' = bk_database b"
  shows "web_ok d s b'"
proof (rule web_ok_backend [OF assms(1) steps_quiet [OF assms(2)]])
  note f = sharedD [OF assms(2)]
  show "db_ok (bk_database b')" using assms(1, 3) by (simp add: web_ok_def)
  show "coherent d s b'"
    by (rule coherent_db [of d s b])
      (use assms(1, 3) f mem_same [of b' b] live_same [of b' b] in \<open>auto simp: web_ok_def\<close>)
qed

lemma web_ok_broadcast: "web_ok d s b \<Longrightarrow> web_ok d s (broadcast e b)"
  by (erule web_ok_quiet) (simp add: sharing, simp add: broadcast_def)

lemma web_ok_request:
  assumes "descriptive_ok d" "web_ok d s b" "safe_request cr (s, b) r"
    "snd (ws_handle cr d il channel r (s, b)) = (s', b')"
  shows "web_ok d s' b' \<and> ws_open s' = ws_open s"
proof (cases r)
  case (Updates kvs)
  then show ?thesis
    using assms handle_updates [OF assms(2), of kvs cr channel]
    by (auto simp: well_typed_def add_updates_def split: if_splits)
next
  case (ObjectUpdate i kvs)
  then show ?thesis
    using assms handle_object_update [OF assms(2), of i _ kvs channel]
    by (auto simp: well_typed_def add_updates_def split: if_splits)
next
  case (CreateObject ty props)
  then have "web_ok d s (snd (create_object d ty props b))"
    using assms handle_create_object [OF assms(1,2), of props ty] by (simp add: well_typed_def)
  then show ?thesis
    using assms(4) CreateObject by (auto intro: web_ok_broadcast split: prod.splits sum.splits)
next
  case (RemoveObject i)
  then have "web_ok d s (snd (remove_object cr i b))"
    using assms handle_remove_object [OF assms(2), of i cr] by simp
  then show ?thesis
    using assms(4) RemoveObject by (auto intro: web_ok_broadcast split: prod.splits option.splits)
next
  case (UploadImage request)
  have "web_ok d s (snd (insert_image ct role w h bs b))" for ct role w h bs
    by (rule handle_insert_image [OF assms(2)])
  then have "web_ok d s (snd (upload_image il request b))"
    using assms(2) by (auto simp: upload_image_def split: prod.splits sum.splits) (metis snd_conv)+
  then show ?thesis
    using assms(4) UploadImage by (auto intro: web_ok_broadcast split: prod.splits sum.splits)
next
  case (RemoveImage i)
  have "unsaved s ik = None"
    if "refers b i (hm_keys (bk_objects b)) [KEY_IMAGE_ID, KEY_ROOM_BACKGROUND] ik" for ik
    using that assms(3) RemoveImage
    by (cases ik) (force simp: refers_def no_unsaved_refs_def list_all_iff split: option.splits dest: hm_get_mem)
  then have "web_ok d s (snd (remove_image i b))"
    using assms RemoveImage handle_remove_image [OF assms(2), of i] by simp
  then show ?thesis
    using assms(4) RemoveImage by (auto intro: web_ok_broadcast split: prod.splits option.splits)
next
  case MumbleRestart
  then show ?thesis
    using assms(4) web_ok_quiet [OF assms(2), of "restart_mumblelink b"]
    by (auto simp: sharing) (simp add: restart_mumblelink_def)
next
  case RemoteRestart
  then show ?thesis
    using assms(4) web_ok_quiet [OF assms(2), of "restart_client b"]
    by (auto simp: sharing) (simp add: restart_client_def)
qed (use assms in \<open>auto split: sum.splits\<close>)

lemma merged_get:
  assumes "hm_wf m"
  shows "hm_get (fold (\<lambda>(k, v). hm_insert k v) m n) k =
    (case hm_get m k of None \<Rightarrow> hm_get n k | Some v \<Rightarrow> Some v)"
proof -
  have "hm_get (fold (\<lambda>(k, v). hm_insert k v) m n) k =
      (case map_of (rev m) k of None \<Rightarrow> hm_get n k | Some v \<Rightarrow> Some v)"
  proof (induction m arbitrary: n)
    case (Cons x m)
    then show ?case by (cases x) (auto simp: hm_get_insert map_add_def split: option.split)
  qed simp
  then show ?thesis using assms by (simp add: hm_wf_def hm_get_def map_of_rev_distinct)
qed

lemma hm_wf_merged: "hm_wf n \<Longrightarrow> hm_wf (fold (\<lambda>(k, v). hm_insert k v) m n)"
  by (induction m arbitrary: n) auto

lemma unsaved_notified:
  assumes "web_ok d s b"
  shows "unsaved (ws_notified s) = unsaved s"
    "hm_get (ws_local_updates (ws_notified s)) = unsaved s"
  using assms
  by (auto simp: unsaved_def ws_notified_def web_ok_def entries_ok_def merged_get fun_eq_iff)

lemma web_ok_notified:
  assumes "web_ok d s b"
  shows "web_ok d (ws_notified s) b"
proof -
  have "entries_ok b (ws_local_updates (ws_notified s))"
    using assms unfolding entries_ok_def unsaved_notified(2) [OF assms]
    by (auto simp: web_ok_def entries_ok_def unsaved_def ws_notified_def split: option.splits
        intro!: hm_wf_merged)
  moreover have "coherent d (ws_notified s) b"
    using assms by (simp add: web_ok_def coherent_def seen_def unsaved_notified [OF assms])
  ultimately show ?thesis
    using assms by (auto simp: web_ok_def) (auto simp: ws_notified_def entries_ok_def)
qed

lemma last_written_drained:
  assumes "hm_wf m" "drained m kvs"
  shows "last_written kvs = hm_get m"
proof -
  let ?g = "\<lambda>(i, key, v). ((i, key), v) :: (Id \<times> Key) \<times> Value"
  have g: "?g (flat x) = x" for x by (cases x) (auto simp: flat_def)
  have s: "set (map ?g kvs) = set m"
    using assms(2) by (force simp: drained_def g image_image)
  have "distinct (map ?g kvs)"
    using assms(2) by (auto simp: drained_def distinct_map inj_on_def flat_def)
  moreover have "inj_on fst (set (map ?g kvs))"
    using assms(1) unfolding s by (simp add: hm_wf_def distinct_map)
  ultimately have d: "distinct (map fst (map ?g kvs))"
    by (subst distinct_map [of fst]) (rule conjI)
  then have "map_of (map ?g kvs) = map_of m"
    using map_of_inject_set [OF d, of m] assms(1) s by (simp add: hm_wf_def)
  then show ?thesis
    using map_of_rev_distinct [OF d] by (simp add: last_written_def hm_get_def fun_eq_iff)
qed

lemma save_reads:
  assumes "descriptive_ok d" "entries_ok b0 (ws_local_updates s)" "db_ok (bk_database b)"
    "drained (ws_local_updates s) kvs" "ws_save d kvs (s, b) = (s', b')"
  shows "s' = s\<lparr>ws_timer := False, ws_local_updates := []\<rparr>" "shared b' = shared b"
    "db_ok (bk_database b')" "mem b' = mem b" "live b' = live b"
    "db_read d (bk_database b') ik =
       (case hm_get (ws_local_updates s) ik of
          None \<Rightarrow> db_read d (bk_database b) ik | Some v \<Rightarrow> stored v)"
proof -
  have "list_all entry_ok kvs"
    using assms(2, 4)
    by (fastforce simp: entries_ok_def drained_def list_all_iff entry_ok_def flat_def hm_mem_get)
  from set_properties_reads [OF assms(1) this assms(3)] obtain db' where db': "db_ok db'"
    "db_set_properties d kvs (bk_database b) = (None, db')"
    "\<And>ik. db_read d db' ik = (case last_written kvs ik of Some v \<Rightarrow> stored v
       | None \<Rightarrow> db_read d (bk_database b) ik)"
    by (metis append_Nil2 db_set_properties.simps(1))
  have lw: "last_written kvs = hm_get (ws_local_updates s)"
    using last_written_drained assms(2, 4) by (simp add: entries_ok_def)
  have s': "s' = s\<lparr>ws_timer := False, ws_local_updates := []\<rparr>" "b' = b\<lparr>bk_database := db'\<rparr>"
    using assms(5) db'(2) by (auto simp: ws_save_def)
  show "s' = s\<lparr>ws_timer := False, ws_local_updates := []\<rparr>" by (rule s'(1))
  show "db_ok (bk_database b')" using db'(1) by (simp add: s')
  show "db_read d (bk_database b') ik =
       (case hm_get (ws_local_updates s) ik of
          None \<Rightarrow> db_read d (bk_database b) ik | Some v \<Rightarrow> stored v)"
    using db'(3) [of ik] by (simp add: s' lw split: option.split)
  show "shared b' = shared b" by (simp add: s' sharing)
  show "mem b' = mem b" "live b' = live b" by (auto simp: s' intro: mem_same live_same)
qed

lemma web_ok_save:
  assumes "descriptive_ok d" "web_ok d s b" "drained (ws_local_updates s) kvs"
    "ws_save d kvs (s, b) = (s', b')"
  shows "web_ok d s' b'"
proof -
  have l: "entries_ok b (ws_local_updates s)" and db: "db_ok (bk_database b)"
    using assms(2) by (simp_all add: web_ok_def)
  note sv = save_reads [OF assms(1) l db assms(3,4)]
  have "coherent d s' b'"
    using assms(2)
    by (auto simp: web_ok_def coherent_def seen_def unsaved_def sv split: option.splits)
  moreover have "entries_ok b' m = entries_ok b m" for m
    using sharedD(10) [OF sv(2)] by (simp add: entries_ok_def allocated_def)
  ultimately show ?thesis
    using assms(2) sv(3) backend_ok_shared [OF sv(2)]
    by (simp add: web_ok_def) (simp add: sv(1) entries_ok_def)
qed

lemma web_ok_session:
  "web_ok d s b \<Longrightarrow> web_ok d (ws_event e sent s) b" "web_ok d s b \<Longrightarrow> web_ok d (ws_done s) b"
  by (auto simp: web_ok_def coherent_def seen_def unsaved_def ws_event_def ws_done_def split: option.split)

lemma web_ok_step:
  assumes "descriptive_ok d" "ws_step cr d il (safe_request cr) (s, b) (s', b')" "web_ok d s b"
  shows "web_ok d s' b'"
  using assms(2)
proof cases
  case (request r channel)
  then show ?thesis
    using web_ok_request [OF assms(1,3), of cr r il channel s' b'] by simp
next
  case (timer kvs)
  then show ?thesis using web_ok_save [OF assms(1,3), of kvs s' b'] by simp
qed (use assms(3) in \<open>auto intro: web_ok_notified web_ok_session web_ok_quiet\<close>)

lemma web_ok_steps:
  assumes "descriptive_ok d" "(ws_step cr d il (safe_request cr))\<^sup>*\<^sup>* (s, b) (s', b')" "web_ok d s b"
  shows "web_ok d s' b'"
  using assms(2, 3)
proof (induction "(s', b')" arbitrary: s' b' rule: rtranclp_induct)
  case (step y)
  then show ?case by (cases y) (auto intro: web_ok_step [OF assms(1)])
qed simp

text \<open>A backend of which memory and database agree.\<close>

definition synced :: "Descriptive \<Rightarrow> Backend \<Rightarrow> bool" where
  "synced d b \<longleftrightarrow>
     backend_ok b \<and> db_ok (bk_database b) \<and>
     (\<forall>ik. live b (fst ik) \<longrightarrow> stored (mem b ik) = db_read d (bk_database b) ik)"

lemma synced_web_ok: "synced d b \<longleftrightarrow> web_ok d ws_new b"
  by (auto simp: synced_def web_ok_def ws_new_def coherent_def seen_def unsaved_def entries_ok_def)

lemma synced_settled:
  assumes "web_ok d s b" "ws_database_updates s = []" "ws_local_updates s = []"
  shows "synced d b"
  using assms by (simp add: synced_def web_ok_def coherent_def seen_def unsaved_def)

lemma settled_run:
  assumes "descriptive_ok d" "web_ok d s b" "drained (ws_local_updates (ws_notified s)) kvs"
  shows "case ws_save d kvs (ws_notified s, b) of (s', b') \<Rightarrow>
    ws_open s' = ws_open s \<and> mem b' = mem b \<and> shared b' = shared b \<and> synced d b' \<and>
    (\<forall>ik. db_read d (bk_database b') ik = seen d s b ik)"
proof -
  obtain s' b' where run: "ws_save d kvs (ws_notified s, b) = (s', b')" by fastforce
  note ok = web_ok_notified [OF assms(2)]
  have "entries_ok b (ws_local_updates (ws_notified s))" "db_ok (bk_database b)"
    using ok by (simp_all add: web_ok_def)
  note sv = save_reads [OF assms(1) this assms(3) run]
  have "db_read d (bk_database b') ik = seen d s b ik" for ik
    using sv(6) [of ik] by (simp add: seen_def unsaved_notified(2) [OF assms(2)])
  moreover have "synced d b'"
    using synced_settled [OF web_ok_save [OF assms(1) ok assms(3) run]] sv(1)
    by (simp add: ws_notified_def)
  moreover have "ws_open s' = ws_open s" using sv(1) by (simp add: ws_notified_def)
  ultimately show ?thesis using sv(2, 4) run by simp
qed

text \<open>What removing an image leaves of memory and database.\<close>

lemma clear_image_keys_images:
  "clear_image_keys img i keys any b = (r, b') \<Longrightarrow> bk_images b' = bk_images b"
  by (induction keys arbitrary: any b)
    (auto simp: Let_def with_db_def broadcast_def split: option.splits if_splits prod.splits)

lemma clear_image_refs_images:
  "clear_image_refs img is any b = (r, b') \<Longrightarrow> bk_images b' = bk_images b"
  by (induction "is" arbitrary: any b)
    (auto dest: clear_image_keys_images simp del: clear_image_keys.simps split: prod.splits sum.splits)

lemma remove_image_images:
  "remove_image i b = (None, b') \<Longrightarrow> hm_get (bk_images b') i = None"
  by (auto simp: remove_image_def Let_def notify_client_def hm_get_remove
      dest!: clear_image_refs_images split: prod.splits option.splits sum.splits if_splits)

lemma stored_VId: "stored v = VId i \<Longrightarrow> v = VId i"
  by (cases v) (auto simp: stored_def value_norm_def split: if_splits)

lemma image_returns:
  assumes "descriptive_ok d" "web_ok d s b" "hm_get (bk_objects b) Id_ZERO = None"
    and "hm_get (bk_objects b) j \<noteq> None" "unsaved s (j, KEY_IMAGE_ID) = Some (VId i)" "i \<noteq> Id_ZERO"
    and "remove_image i b = (None, b1)" "drained (ws_local_updates (ws_notified s)) kvs"
    and "shared b2 = shared b1" "bk_database b2 = bk_database b1"
  shows "hm_get (bk_images b2) i = None \<and> mem b2 (j, KEY_IMAGE_ID) = VEmpty \<and>
    db_read d (bk_database b2) (j, KEY_IMAGE_ID) = VEmpty \<and>
    (case ws_save d kvs (ws_notified s, b2) of (s3, b3) \<Rightarrow>
       hm_get (bk_images b3) i = None \<and> mem b3 (j, KEY_IMAGE_ID) = VEmpty \<and>
       db_read d (bk_database b3) (j, KEY_IMAGE_ID) = VId i)"
proof -
  let ?k = "(j, KEY_IMAGE_ID)"
  have ok: "filed_objects b" "db_ok (bk_database b)"
    using assms(2, 3) by (auto simp: web_ok_def backend_ok_def objects_ok_def filed_objects_def)
  have vid: "stored (VId i) = VId i"
    using assms(6) by (cases i) (simp add: stored_def value_norm_def id_is_zero_def Id_ZERO_def)
  have "stored (mem b ?k) = VId i"
    using assms(2, 4, 5) vid by (simp add: web_ok_def coherent_def seen_def live_def)
  then have "mem b ?k = VId i" by (rule stored_VId)
  then have hit: "refers b i (hm_keys (bk_objects b)) [KEY_IMAGE_ID, KEY_ROOM_BACKGROUND] ?k"
    using assms(4) by (auto simp: refers_mem [OF ok(1)] hm_keys_iff)
  have "cleared (refers b i (hm_keys (bk_objects b)) [KEY_IMAGE_ID, KEY_ROOM_BACKGROUND]) b b1"
    using remove_image_effect(2) [OF ok, of i] assms(7) by simp
  with hit have c: "mem b1 ?k = VEmpty" "db_read d (bk_database b1) ?k = VEmpty"
    "db_ok (bk_database b1)" by (simp_all add: cleared_def)
  note f = sharedD [OF assms(9)]
  have b2: "mem b2 ?k = VEmpty" "db_read d (bk_database b2) ?k = VEmpty" "db_ok (bk_database b2)"
    "hm_get (bk_images b2) i = None"
    using c mem_same [of b2 b1] f assms(10) remove_image_images [OF assms(7)] by simp_all
  obtain s3 b3 where run: "ws_save d kvs (ws_notified s, b2) = (s3, b3)" by fastforce
  have "entries_ok b (ws_local_updates (ws_notified s))"
    using web_ok_notified [OF assms(2)] by (simp add: web_ok_def)
  note sv = save_reads [OF assms(1) this b2(3) assms(8) run]
  have "db_read d (bk_database b3) ?k = VId i"
    using sv(6) [of ?k] assms(5) vid by (simp add: unsaved_notified(2) [OF assms(2)])
  then show ?thesis
    using run b2 sv(4) sharedD(5) [OF sv(2)] by simp
qed

lemma unsaved_done: "unsaved (ws_done s) = unsaved s"
  by (simp add: unsaved_def ws_done_def fun_eq_iff split: option.split)

lemma unsaved_memory:
  assumes "web_ok d s b" "unsaved s ik = Some v" "live b (fst ik)"
  shows "stored (mem b ik) = stored v"
proof -
  have "coherent d s b" using assms(1) by (simp add: web_ok_def)
  from this [unfolded coherent_def, rule_format, OF assms(3)] show ?thesis
    using assms(2) by (simp add: seen_def)
qed

subsection \<open>Properties\<close>

text \<open>
  C2. Start a connection when memory and database agree. After any sequence of requests that
  are safe, of notifications, timers and broadcasts, and of changes by the client and the Mumble
  link: read through the updates still to be saved, the database has for the peer and for every object
  exactly what memory has; an update still to be saved has its notification or its timer
  outstanding; and once both have happened, in whatever order the map is drained, memory and database
  agree again.
\<close>

theorem database_follows_memory:
  assumes "descriptive_ok d" "synced d b0"
    and "(ws_step cr d il (safe_request cr))\<^sup>*\<^sup>* (ws_new, b0) (s, b)"
    and "drained (ws_local_updates (ws_notified s)) kvs"
  shows "(\<forall>ik. live b (fst ik) \<longrightarrow> stored (mem b ik) = seen d s b ik) \<and>
    (\<not> ws_notify s \<and> \<not> ws_timer s \<longrightarrow> synced d b) \<and>
    (case ws_save d kvs (ws_notified s, b) of (s', b') \<Rightarrow>
       ws_open s' = ws_open s \<and> mem b' = mem b \<and> synced d b')"
proof -
  have ok: "web_ok d s b"
    using web_ok_steps [OF assms(1,3)] assms(2) by (simp add: synced_web_ok)
  then have "\<not> ws_notify s \<and> \<not> ws_timer s \<longrightarrow> synced d b"
    using synced_settled [OF ok] by (auto simp: web_ok_def)
  with ok settled_run [OF assms(1) ok assms(4)] show ?thesis
    by (auto simp: web_ok_def coherent_def split: prod.split)
qed

text \<open>
  C36. Removing an image is undone in the database when an update that refers to the image is
  still to be saved: memory and table of properties lose the reference at once, but the timer
  writes it back, so that the database refers to an image that is gone, and after a restart memory does too.
\<close>

theorem removed_image_returns:
  assumes "descriptive_ok d" "web_ok d s b" "hm_get (bk_objects b) Id_ZERO = None"
    and "hm_get (bk_objects b) j \<noteq> None" "unsaved s (j, KEY_IMAGE_ID) = Some (VId i)" "i \<noteq> Id_ZERO"
    and "ws_handle cr d il channel (RemoveImage i) (s, b) = (Inr R_Empty, s1, b1)"
    and "drained (ws_local_updates (ws_notified s1)) kvs"
  shows "hm_get (bk_images b1) i = None \<and> mem b1 (j, KEY_IMAGE_ID) = VEmpty \<and>
    db_read d (bk_database b1) (j, KEY_IMAGE_ID) = VEmpty \<and>
    (case ws_save d kvs (ws_notified s1, b1) of (s2, b2) \<Rightarrow>
       hm_get (bk_images b2) i = None \<and> mem b2 (j, KEY_IMAGE_ID) = VEmpty \<and>
       db_read d (bk_database b2) (j, KEY_IMAGE_ID) = VId i)"
proof -
  obtain e b' where r: "remove_image i b = (e, b')" by fastforce
  then have e: "remove_image i b = (None, b')" "s1 = s"
    and "b1 = broadcast (BRemoteUpdate (RImageRemoved (rid_local i))) b'"
    using assms(7) by (auto split: option.splits)
  then have b1: "bk_database b1 = bk_database b'" "shared b1 = shared b'"
    by (simp_all add: sharing) (simp add: broadcast_def)
  show ?thesis
    using image_returns [OF assms(1-6) e(1) _ b1(2,1), of kvs] assms(8) e(2) by simp
qed

text \<open>
  What is still to be saved when a connection ends is lost: memory keeps the values, and
  no later step of the connection writes them to the database.
\<close>

theorem closed_connection_loses:
  assumes "web_ok d s b" "unsaved s ik = Some v" "live b (fst ik)"
    and "(ws_step cr d il (safe_request cr))\<^sup>*\<^sup>* (ws_done s, b) (s', b')"
  shows "stored (mem b' ik) = stored v \<and> bk_database b' = bk_database b \<and> unsaved s' ik = Some v"
proof -
  have "s' = ws_done s \<and> shared b' = shared b \<and> bk_database b' = bk_database b"
    using assms(4)
  proof (induction "(s', b')" arbitrary: s' b' rule: rtranclp_induct)
    case (step y)
    obtain s1 b1 where y: "y = (s1, b1)" by (cases y)
    with step(3) have "s1 = ws_done s" "shared b1 = shared b" "bk_database b1 = bk_database b" by simp_all
    with step(2) y show ?case by (auto simp: ws_done_def elim: ws_step.cases)
  qed simp
  moreover from this have "mem b' = mem b" using sharedD [of b' b] by (intro mem_same) simp_all
  ultimately show ?thesis
    using assms(2) unsaved_memory [OF assms(1-3)] by (simp add: unsaved_done)
qed

subsection \<open>Witnesses\<close>

lemma demo_synced: "synced demo_descriptive demo_backend"
proof -
  have "storable KEY_PEER_SECRET (VString ''words'')"
    by (simp add: storable_def value_type_def key_ty_def key_types_def)
  from set_property_reads [OF demo_descriptive_ok this empty_db_ok] obtain db' where db':
    "db_set_property demo_descriptive Id_ZERO KEY_PEER_SECRET (VString ''words'') empty_db = (None, db')"
    "db_ok db'" "\<And>ik. db_read demo_descriptive db' ik =
       (if ik = (Id_ZERO, KEY_PEER_SECRET) then stored (VString ''words'')
        else db_read demo_descriptive empty_db ik)" by blast
  have "bk_database demo_backend = db'"
    using db'(1)
    by (simp add: demo_backend_def backend_new_def empty_db_def db_properties_def props_from_iter_def
        List.map_filter_def props_get_def props_new_def Let_def)
  moreover have "db_read demo_descriptive empty_db ik = VEmpty" for ik
    by (simp add: db_read_def db_properties_def empty_db_def List.map_filter_def props_from_iter_def)
  ultimately show ?thesis
    using db'(2, 3) backend_new_ok [OF demo_backend_new]
    by (auto simp: synced_def mem_def props_get_def hm_get_def)
qed

text \<open>A peer that has been given a name that is still to be saved.\<close>

definition demo_named :: "WebSession \<times> Backend" where
  "demo_named = snd (ws_handle demo_crypto demo_descriptive demo_images 1
     (Updates [(KEY_PEER_NAME, VString ''a'')]) (ws_new, demo_backend))"

lemma demo_named_step:
  "(ws_step demo_crypto demo_descriptive demo_images (safe_request demo_crypto))\<^sup>*\<^sup>*
     (ws_new, demo_backend) demo_named"
proof -
  have "safe_request demo_crypto (ws_new, demo_backend) (Updates [(KEY_PEER_NAME, VString ''a'')])"
    by (simp add: well_typed_def storable_def value_type_def key_ty_def key_types_def secrets_given_def)
  moreover have "ws_open ws_new" by (simp add: ws_new_def)
  ultimately show ?thesis
    unfolding demo_named_def
    using ws_step.request [where ok = "safe_request demo_crypto"] by (meson r_into_rtranclp)
qed

lemma demo_named_session:
  "fst demo_named = ws_new\<lparr>ws_database_updates := [((Id_ZERO, KEY_PEER_NAME), VString ''a'')],
     ws_notify := True\<rparr>"
  "unsaved (fst demo_named) (Id_ZERO, KEY_PEER_NAME) = Some (VString ''a'')"
  by (simp_all add: demo_named_def add_updates_def ws_new_def hm_insert_def unsaved_def hm_get_def)

lemma demo_named_ok: "web_ok demo_descriptive (fst demo_named) (snd demo_named)"
  using web_ok_steps [OF demo_descriptive_ok, of demo_crypto demo_images ws_new demo_backend
      "fst demo_named" "snd demo_named"] demo_named_step demo_synced
  by (simp add: synced_web_ok)

lemma database_follows_memory_witness:
  "case ws_save demo_descriptive [(Id_ZERO, KEY_PEER_NAME, VString ''a'')]
      (ws_notified (fst demo_named), snd demo_named) of (s, b) \<Rightarrow>
    db_read demo_descriptive (bk_database b) (Id_ZERO, KEY_PEER_NAME) = VString ''a''"
proof -
  have d: "drained (ws_local_updates (ws_notified (fst demo_named)))
      [(Id_ZERO, KEY_PEER_NAME, VString ''a'')]"
    by (simp add: demo_named_session ws_notified_def drained_def flat_def ws_new_def hm_insert_def)
  have run: "(ws_step demo_crypto demo_descriptive demo_images (safe_request demo_crypto))\<^sup>*\<^sup>*
      (ws_new, demo_backend) (fst demo_named, snd demo_named)"
    using demo_named_step by simp
  have "stored (mem (snd demo_named) (Id_ZERO, KEY_PEER_NAME)) = stored (VString ''a'')"
    by (rule unsaved_memory [OF demo_named_ok demo_named_session(2)]) (simp add: live_def)
  moreover obtain s3 b3 where r: "ws_save demo_descriptive [(Id_ZERO, KEY_PEER_NAME, VString ''a'')]
      (ws_notified (fst demo_named), snd demo_named) = (s3, b3)" by fastforce
  moreover have "mem b3 = mem (snd demo_named)" "synced demo_descriptive b3"
    using database_follows_memory [OF demo_descriptive_ok demo_synced run d] r by simp_all
  moreover from this(2) have "stored (mem b3 (Id_ZERO, KEY_PEER_NAME)) =
      db_read demo_descriptive (bk_database b3) (Id_ZERO, KEY_PEER_NAME)"
    by (simp add: synced_def live_def)
  ultimately show ?thesis by (simp add: stored_def value_norm_def)
qed

lemma closed_connection_loses_witness:
  "stored (mem (snd demo_named) (Id_ZERO, KEY_PEER_NAME)) = VString ''a'' \<and>
   unsaved (ws_done (fst demo_named)) (Id_ZERO, KEY_PEER_NAME) = Some (VString ''a'')"
  using closed_connection_loses [OF demo_named_ok demo_named_session(2), of demo_crypto demo_images
      "ws_done (fst demo_named)" "snd demo_named"]
  by (simp add: live_def stored_def value_norm_def)

text \<open>An object that has been given an image, which is still to be saved.\<close>

definition demo_bare :: Backend where
  "demo_bare = demo_backend\<lparr>bk_objects := [(Id_new 3,
     \<lparr>lo_ty = TYPE_TOKEN, lo_id = Id_new 3, lo_props = [], lo_changed = []\<rparr>)], bk_used_ids := [3, 5]\<rparr>"

definition demo_pictured :: "WebSession \<times> Backend" where
  "demo_pictured = snd (ws_handle demo_crypto demo_descriptive demo_images 1
     (ObjectUpdate (Id_new 3) [(KEY_IMAGE_ID, VId (Id_new 5))]) (ws_new, demo_bare))"

lemma backend_new_nothing_changed:
  assumes "backend_new cr d secret seed db = Inr b"
  shows "bk_objects_added b = []" "bk_objects_removed b = []" "bk_objects_changed b = []"
    "bk_images_added b = []" "bk_images_removed b = []" "bk_props_changed b = []"
  using assms
  by (auto simp: backend_new_def Let_def case_prod_unfold split: option.splits if_splits)

lemma demo_bare_synced: "synced demo_descriptive demo_bare"
proof -
  have ok: "backend_ok demo_backend" using demo_synced by (simp add: synced_def)
  then have l: "bk_objects_added demo_backend = []" "bk_objects_removed demo_backend = []"
    "bk_objects_changed demo_backend = []" "bk_images_added demo_backend = []"
    "bk_images_removed demo_backend = []" "bk_props_changed demo_backend = []"
    using backend_new_nothing_changed [OF demo_backend_new] by simp_all
  have "backend_ok demo_bare"
    using ok
    by (auto simp: backend_ok_def objects_ok_def images_ok_def own_props_ok_def demo_bare_def l
        allocated_def hm_wf_def hm_get_def hm_keys_def props_ok_def)
  moreover have "mem demo_bare ik = mem demo_backend ik" for ik
    by (cases ik) (simp add: mem_def demo_bare_def hm_get_def props_get_def)
  moreover have "live demo_backend i" for i
    by (auto simp: live_def allocated_def id_is_zero_def Id_ZERO_def) (metis Id.collapse)
  moreover have "bk_database demo_bare = bk_database demo_backend" by (simp add: demo_bare_def)
  ultimately show ?thesis using demo_synced by (simp add: synced_def)
qed

lemma demo_pictured_ok: "web_ok demo_descriptive (fst demo_pictured) (snd demo_pictured)"
proof (rule conjunct1 [OF web_ok_request])
  show "web_ok demo_descriptive ws_new demo_bare" using demo_bare_synced by (simp add: synced_web_ok)
  show "safe_request demo_crypto (ws_new, demo_bare)
      (ObjectUpdate (Id_new 3) [(KEY_IMAGE_ID, VId (Id_new 5))])"
    by (simp add: demo_bare_def hm_get_def well_typed_def storable_def value_type_def key_ty_def
        key_types_def Id_ZERO_def)
  show "snd (ws_handle demo_crypto demo_descriptive demo_images 1
      (ObjectUpdate (Id_new 3) [(KEY_IMAGE_ID, VId (Id_new 5))]) (ws_new, demo_bare)) =
      (fst demo_pictured, snd demo_pictured)"
    by (simp add: demo_pictured_def)
qed (rule demo_descriptive_ok)

lemma demo_pictured_parts:
  "unsaved (fst demo_pictured) (Id_new 3, KEY_IMAGE_ID) = Some (VId (Id_new 5))"
  "hm_get (bk_objects (snd demo_pictured)) Id_ZERO = None"
  "hm_get (bk_objects (snd demo_pictured)) (Id_new 3) \<noteq> None"
  "ws_local_updates (ws_notified (fst demo_pictured)) = [((Id_new 3, KEY_IMAGE_ID), VId (Id_new 5))]"
proof -
  note f = sharedD [OF shared_object_update_link [of "Id_new 3" "[(KEY_IMAGE_ID, VId (Id_new 5))]" demo_bare]]
  show "unsaved (fst demo_pictured) (Id_new 3, KEY_IMAGE_ID) = Some (VId (Id_new 5))"
    "ws_local_updates (ws_notified (fst demo_pictured)) = [((Id_new 3, KEY_IMAGE_ID), VId (Id_new 5))]"
    by (simp_all add: demo_pictured_def add_updates_def ws_new_def hm_insert_def unsaved_def hm_get_def
        ws_notified_def)
  obtain ob where g: "bk_objects demo_bare = [(Id_new 3, ob)]" by (simp add: demo_bare_def)
  then have "hm_get (bk_objects demo_bare) (Id_new 3) = Some ob" by (simp add: hm_get_def)
  then obtain ob' where "bk_objects (snd demo_pictured) = hm_insert (Id_new 3) ob' (bk_objects demo_bare)"
    by (simp add: demo_pictured_def object_update_def Let_def f broadcast_def notify_client_def
        del: object_update_link.simps set_object_props.simps)
  then show "hm_get (bk_objects (snd demo_pictured)) Id_ZERO = None"
    "hm_get (bk_objects (snd demo_pictured)) (Id_new 3) \<noteq> None"
    by (simp_all add: hm_get_insert g) (simp add: hm_get_def Id_ZERO_def)
qed

lemma remove_image_succeeds:
  assumes "filed_objects b" "db_ok (bk_database b)"
  shows "fst (remove_image i b) = None"
proof -
  obtain b1 where w: "with_db (db_remove_image i) b = (None, b1)"
    using assms(2) by (simp add: with_db_def db_remove_image_def db_exec_def db_ok_def)
  note k = with_db_leaves [OF leaves_props_tables(4) w assms(2)]
  let ?b = "notify_client (b1\<lparr>bk_images := hm_remove i (bk_images b1),
                bk_images_added := hs_remove i (bk_images_added b1),
                bk_images_removed := hs_insert i (bk_images_removed b1)\<rparr>)"
  obtain r b3 where c: "clear_image_refs i (hm_keys (bk_objects ?b)) False ?b = (r, b3)" by fastforce
  have "filed_objects ?b" "db_ok (bk_database ?b)"
    using assms(1) k by (simp_all add: filed_objects_def notify_client_def)
  from clear_image_refs_effect [OF c this] obtain any where "r = Inr any" by blast
  then show ?thesis using w c by (simp add: remove_image_def Let_def)
qed

lemma removed_image_returns_witness:
  "\<exists>b. ws_handle demo_crypto demo_descriptive demo_images 1 (RemoveImage (Id_new 5)) demo_pictured =
     (Inr R_Empty, fst demo_pictured, b) \<and> mem b (Id_new 3, KEY_IMAGE_ID) = VEmpty \<and>
     (case ws_save demo_descriptive [(Id_new 3, KEY_IMAGE_ID, VId (Id_new 5))]
         (ws_notified (fst demo_pictured), b) of (s2, b2) \<Rightarrow>
       db_read demo_descriptive (bk_database b2) (Id_new 3, KEY_IMAGE_ID) = VId (Id_new 5))"
proof -
  have ok: "filed_objects (snd demo_pictured)" "db_ok (bk_database (snd demo_pictured))"
    using demo_pictured_ok demo_pictured_parts(2)
    by (auto simp: web_ok_def backend_ok_def objects_ok_def filed_objects_def)
  obtain b1 where "remove_image (Id_new 5) (snd demo_pictured) = (None, b1)"
    using remove_image_succeeds [OF ok, of "Id_new 5"] by (metis prod.collapse)
  then obtain b where h: "ws_handle demo_crypto demo_descriptive demo_images 1 (RemoveImage (Id_new 5))
      (fst demo_pictured, snd demo_pictured) = (Inr R_Empty, fst demo_pictured, b)"
    by (simp del: prod.collapse)
  have i: "Id_new 5 \<noteq> Id_ZERO" by (simp add: Id_ZERO_def)
  have d: "drained (ws_local_updates (ws_notified (fst demo_pictured)))
      [(Id_new 3, KEY_IMAGE_ID, VId (Id_new 5))]"
    unfolding demo_pictured_parts(4) by (simp add: drained_def flat_def)
  note r = removed_image_returns [OF demo_descriptive_ok demo_pictured_ok demo_pictured_parts(2,3,1) i h d]
  show ?thesis using r h by (intro exI [of _ b]) (auto split: prod.splits)
qed

end
