(* ===== verification/UiPeers.thy ===== *)
theory UiPeers
  imports Messages Floats
begin

section \<open>Tables of the browser: \<^verbatim>\<open>crates/web/src/{state,peers}.rs\<close>\<close>

text \<open>
  \<open>State\<close> is a value with assignments that tell whether it changed. It is modelled by the value
  itself; the equality of its type is an argument, since floating-point numbers have their own.
  \<open>Peers\<close> translates between remote identifiers, which hold as long as a peer is connected, and
  stable identifiers, which hold its public key.
\<close>

subsection \<open>\<open>State\<close>\<close>

definition state_update :: "('a \<Rightarrow> 'a \<Rightarrow> bool) \<Rightarrow> 'a \<Rightarrow> 'a \<Rightarrow> bool \<times> 'a" where
  "state_update eq new old = (if eq old new then (False, old) else (True, new))"

definition state_replace :: "('a \<Rightarrow> 'a \<Rightarrow> bool) \<Rightarrow> 'a \<Rightarrow> 'a \<Rightarrow> 'a option \<times> 'a" where
  "state_replace eq new old = (if eq old new then (None, old) else (Some old, new))"

definition update_str :: "string \<Rightarrow> string \<Rightarrow> bool \<times> string" where
  "update_str new old = (if old = new then (False, old) else (True, [] @ new))"

text \<open>
  \<open>(old - new).abs() <= EPSILON\<close> for \<open>f32\<close>: the units are \<open>2 ^ -149\<close>, so \<open>EPSILON\<close> is \<open>2 ^ 126\<close>;
  the rounded difference is at most \<open>EPSILON\<close> when the real one is at most the midpoint between
  \<open>EPSILON\<close> and its successor, since the tie goes to the even of the two.
\<close>

definition f32_within :: "f32 \<Rightarrow> f32 \<Rightarrow> bool" where
  "f32_within a b \<longleftrightarrow>
     f32_exp a \<noteq> 255 \<and> f32_exp b \<noteq> 255 \<and> \<bar>f32_int a - f32_int b\<bar> \<le> 2 ^ 126 + 2 ^ 102"

definition update_epsilon :: "f32 \<Rightarrow> f32 \<Rightarrow> bool \<times> f32" where
  "update_epsilon new old = (if f32_within old new then (False, old) else (True, new))"

lemma state_update_eq: "state_update (=) new old = (old \<noteq> new, new)"
  by (simp add: state_update_def)

lemma update_str_eq: "update_str new old = (old \<noteq> new, new)"
  by (simp add: update_str_def)

subsection \<open>Peers\<close>

record UiPeer =
  uip_id :: PeerId
  uip_props :: Properties
  uip_public_key :: PublicKey
  uip_in_room :: bool

record UiPeers =
  ups_peers :: "(PeerId, UiPeer) hashmap"
  ups_public_keys :: "(PublicKey, PeerId) hashmap"
  ups_public_key :: PublicKey

definition ui_peers_default :: UiPeers where
  "ui_peers_default = \<lparr>ups_peers = [], ups_public_keys = [], ups_public_key = PublicKey_ZERO\<rparr>"

definition ui_peer_update :: "Key \<Rightarrow> Value \<Rightarrow> StableId \<Rightarrow> UiPeer \<Rightarrow> UiPeer" where
  "ui_peer_update key v room peer =
     (let peer = (if key = KEY_ROOM then peer\<lparr>uip_in_room := as_stable_id v = room\<rparr> else peer)
      in peer\<lparr>uip_props := snd (props_insert key v (uip_props peer))\<rparr>)"

definition ui_peer_update_config :: "StableId \<Rightarrow> UiPeer \<Rightarrow> UiPeer" where
  "ui_peer_update_config room peer =
     peer\<lparr>uip_in_room := as_stable_id (props_get (uip_props peer) KEY_ROOM) = room\<rparr>"

definition ui_peer_display :: "(bytes \<Rightarrow> string) \<Rightarrow> UiPeer \<Rightarrow> string" where
  "ui_peer_display enc peer =
     (let name = as_str (props_get (uip_props peer) KEY_PEER_NAME)
      in if name = [] then pid_display enc (uip_id peer) else name)"

definition ui_peers_clear :: "UiPeers \<Rightarrow> UiPeers" where
  "ui_peers_clear ps = ps\<lparr>ups_peers := [], ups_public_keys := []\<rparr>"

definition ui_peers_get :: "PeerId \<Rightarrow> UiPeers \<Rightarrow> UiPeer option" where
  "ui_peers_get i ps = hm_get (ups_peers ps) i"

definition ui_by_public_key :: "PublicKey \<Rightarrow> UiPeers \<Rightarrow> UiPeer option" where
  "ui_by_public_key k ps =
     (case hm_get (ups_public_keys ps) k of
        None \<Rightarrow> None
      | Some i \<Rightarrow> hm_get (ups_peers ps) i)"

definition ui_peers_remove :: "PeerId \<Rightarrow> UiPeers \<Rightarrow> UiPeers" where
  "ui_peers_remove i ps =
     (case hm_get (ups_peers ps) i of
        None \<Rightarrow> ps
      | Some peer \<Rightarrow>
          ps\<lparr>ups_peers := hm_remove i (ups_peers ps),
             ups_public_keys := hm_remove (uip_public_key peer) (ups_public_keys ps)\<rparr>)"

text \<open>\<open>get_mut\<close> and \<open>iter_mut\<close> are the updates made through the references they return.\<close>

definition ui_peers_modify :: "PeerId \<Rightarrow> (UiPeer \<Rightarrow> UiPeer) \<Rightarrow> UiPeers \<Rightarrow> UiPeers" where
  "ui_peers_modify i f ps =
     (case hm_get (ups_peers ps) i of
        None \<Rightarrow> ps
      | Some peer \<Rightarrow> ps\<lparr>ups_peers := hm_insert i (f peer) (ups_peers ps)\<rparr>)"

definition ui_peers_modify_all :: "(UiPeer \<Rightarrow> UiPeer) \<Rightarrow> UiPeers \<Rightarrow> UiPeers" where
  "ui_peers_modify_all f ps = ps\<lparr>ups_peers := hm_map_values (\<lambda>_. f) (ups_peers ps)\<rparr>"

definition ui_peers_insert :: "RemotePeer \<Rightarrow> StableId \<Rightarrow> UiPeers \<Rightarrow> UiPeers" where
  "ui_peers_insert p room ps =
     (let keys = hm_insert (rp_public_key p) (rp_id p) (ups_public_keys ps);
          peers = (case hm_get (ups_public_keys ps) (rp_public_key p) of
                     Some old \<Rightarrow> hm_remove old (ups_peers ps)
                   | None \<Rightarrow> ups_peers ps);
          peer = \<lparr>uip_id = rp_id p, uip_props = rp_props p, uip_public_key = rp_public_key p,
                  uip_in_room = as_stable_id (props_get (rp_props p) KEY_ROOM) = room\<rparr>
      in ps\<lparr>ups_peers := hm_insert (rp_id p) peer peers,
            ups_public_keys :=
              (case hm_get peers (rp_id p) of
                 Some old \<Rightarrow> hm_remove (uip_public_key old) keys
               | None \<Rightarrow> keys)\<rparr>)"

definition ui_to_remote_id :: "StableId \<Rightarrow> UiPeers \<Rightarrow> RemoteId" where
  "ui_to_remote_id i ps =
     (if sid_public_key i = ups_public_key ps then rid_local (sid_id i)
      else case hm_get (ups_public_keys ps) (sid_public_key i) of
        None \<Rightarrow> RemoteId_ZERO
      | Some p \<Rightarrow> RemoteId_new p (sid_id i))"

definition ui_to_stable_id :: "RemoteId \<Rightarrow> UiPeers \<Rightarrow> StableId" where
  "ui_to_stable_id i ps =
     (if rid_is_local i then StableId_new (ups_public_key ps) (rid_id i)
      else case hm_get (ups_peers ps) (rid_peer_id i) of
        None \<Rightarrow> StableId_ZERO
      | Some peer \<Rightarrow> StableId_new (uip_public_key peer) (rid_id i))"

subsection \<open>The two tables agree\<close>

definition ui_peers_ok :: "UiPeers \<Rightarrow> bool" where
  "ui_peers_ok ps \<longleftrightarrow>
     hm_wf (ups_peers ps) \<and> hm_wf (ups_public_keys ps) \<and>
     (\<forall>i peer. hm_get (ups_peers ps) i = Some peer \<longrightarrow>
        uip_id peer = i \<and> hm_get (ups_public_keys ps) (uip_public_key peer) = Some i) \<and>
     (\<forall>k i. hm_get (ups_public_keys ps) k = Some i \<longrightarrow>
        (\<exists>peer. hm_get (ups_peers ps) i = Some peer \<and> uip_public_key peer = k))"

lemma ui_peers_ok_wf: "ui_peers_ok ps \<Longrightarrow> hm_wf (ups_peers ps) \<and> hm_wf (ups_public_keys ps)"
  by (simp add: ui_peers_ok_def)

lemma ui_peers_ok_peer:
  "ui_peers_ok ps \<Longrightarrow> hm_get (ups_peers ps) i = Some peer \<Longrightarrow>
     uip_id peer = i \<and> hm_get (ups_public_keys ps) (uip_public_key peer) = Some i"
  by (simp add: ui_peers_ok_def)

lemma ui_peers_ok_key:
  "ui_peers_ok ps \<Longrightarrow> hm_get (ups_public_keys ps) k = Some i \<Longrightarrow>
     \<exists>peer. hm_get (ups_peers ps) i = Some peer \<and> uip_public_key peer = k"
  by (simp add: ui_peers_ok_def)

lemma ui_peers_ok_inj:
  "ui_peers_ok ps \<Longrightarrow> hm_get (ups_public_keys ps) k = Some i \<Longrightarrow>
     hm_get (ups_public_keys ps) l = Some i \<Longrightarrow> k = l"
  by (metis ui_peers_ok_key option.inject)

lemma ui_peers_ok_default: "ui_peers_ok ui_peers_default"
  by (simp add: ui_peers_ok_def ui_peers_default_def)

lemma ui_peers_ok_clear: "ui_peers_ok (ui_peers_clear ps)"
  by (simp add: ui_peers_ok_def ui_peers_clear_def)

lemma ui_peers_ok_own: "ui_peers_ok (ps\<lparr>ups_public_key := k\<rparr>) = ui_peers_ok ps"
  by (simp add: ui_peers_ok_def)

lemma ui_peers_ok_remove:
  assumes "ui_peers_ok ps"
  shows "ui_peers_ok (ui_peers_remove i ps)"
proof (cases "hm_get (ups_peers ps) i")
  case None
  then show ?thesis using assms by (simp add: ui_peers_remove_def)
next
  case (Some peer)
  note k = ui_peers_ok_peer [OF assms]
  show ?thesis
    unfolding ui_peers_ok_def
    using ui_peers_ok_wf [OF assms] k [OF Some] Some
    by (auto simp: ui_peers_remove_def hm_get_remove dest: k ui_peers_ok_key [OF assms])
qed

lemma ui_peers_ok_insert:
  assumes "ui_peers_ok ps"
  shows "ui_peers_ok (ui_peers_insert p room ps)"
proof -
  note peer = ui_peers_ok_peer [OF assms] and key = ui_peers_ok_key [OF assms]
  show ?thesis
    unfolding ui_peers_ok_def
    using ui_peers_ok_wf [OF assms]
    by (auto simp: ui_peers_insert_def Let_def hm_get_remove hm_get_insert
        split: option.splits if_splits dest: peer key ui_peers_ok_inj [OF assms])
qed

lemma ui_peers_ok_modify:
  assumes "ui_peers_ok ps"
    and "\<And>peer. uip_id (f peer) = uip_id peer \<and> uip_public_key (f peer) = uip_public_key peer"
  shows "ui_peers_ok (ui_peers_modify i f ps)"
proof -
  note peer = ui_peers_ok_peer [OF assms(1)] and key = ui_peers_ok_key [OF assms(1)]
  show ?thesis
    unfolding ui_peers_ok_def
    using ui_peers_ok_wf [OF assms(1)]
    by (auto simp: ui_peers_modify_def hm_get_insert assms(2) split: option.splits if_splits
        dest: peer key)
qed

lemma ui_peers_ok_modify_all:
  assumes "ui_peers_ok ps"
    and "\<And>peer. uip_id (f peer) = uip_id peer \<and> uip_public_key (f peer) = uip_public_key peer"
  shows "ui_peers_ok (ui_peers_modify_all f ps)"
proof -
  note peer = ui_peers_ok_peer [OF assms(1)] and key = ui_peers_ok_key [OF assms(1)]
  show ?thesis
    unfolding ui_peers_ok_def
    using ui_peers_ok_wf [OF assms(1)]
    by (auto simp: ui_peers_modify_all_def hm_get_map_values assms(2) dest: peer key)
qed

lemma ui_peer_update_keeps [simp]:
  "uip_id (ui_peer_update key v room peer) = uip_id peer"
  "uip_public_key (ui_peer_update key v room peer) = uip_public_key peer"
  "uip_id (ui_peer_update_config room peer) = uip_id peer"
  "uip_public_key (ui_peer_update_config room peer) = uip_public_key peer"
  by (simp_all add: ui_peer_update_def ui_peer_update_config_def Let_def)

text \<open>The tables that the operations give, from the empty one.\<close>

inductive ui_peers_reach :: "UiPeers \<Rightarrow> bool" where
  reach_default: "ui_peers_reach ui_peers_default"
| reach_own: "ui_peers_reach ps \<Longrightarrow> ui_peers_reach (ps\<lparr>ups_public_key := k\<rparr>)"
| reach_clear: "ui_peers_reach ps \<Longrightarrow> ui_peers_reach (ui_peers_clear ps)"
| reach_insert: "ui_peers_reach ps \<Longrightarrow> ui_peers_reach (ui_peers_insert p room ps)"
| reach_remove: "ui_peers_reach ps \<Longrightarrow> ui_peers_reach (ui_peers_remove i ps)"
| reach_update: "ui_peers_reach ps \<Longrightarrow>
    ui_peers_reach (ui_peers_modify i (ui_peer_update key v room) ps)"
| reach_config: "ui_peers_reach ps \<Longrightarrow>
    ui_peers_reach (ui_peers_modify_all (ui_peer_update_config room) ps)"

lemma ui_peers_reach_ok: "ui_peers_reach ps \<Longrightarrow> ui_peers_ok ps"
  by (induction rule: ui_peers_reach.induct)
    (simp_all add: ui_peers_ok_default ui_peers_ok_own ui_peers_ok_clear ui_peers_ok_insert
      ui_peers_ok_remove ui_peers_ok_modify ui_peers_ok_modify_all)

text \<open>
  C21. Whatever peers connected, reconnected under another identifier or key, changed and left:
  an identifier of a connected peer translates to the stable identifier with the peer's key and
  back to itself, the key finds the peer again, and local identifiers translate back to
  themselves. Keys that belong to nobody translate to no identifier.
\<close>

theorem peer_translation:
  assumes "ui_peers_reach ps"
    and "ui_peers_get i ps = Some peer" "\<not> pid_is_zero i"
    and "uip_public_key peer \<noteq> ups_public_key ps"
    and "ui_by_public_key k ps = None" "k \<noteq> ups_public_key ps"
  shows "ui_to_stable_id (RemoteId_new i j) ps = StableId_new (uip_public_key peer) j \<and>
    ui_to_remote_id (StableId_new (uip_public_key peer) j) ps = RemoteId_new i j \<and>
    ui_by_public_key (uip_public_key peer) ps = Some peer \<and>
    ui_to_remote_id (ui_to_stable_id (rid_local j) ps) ps = rid_local j \<and>
    ui_to_remote_id (StableId_new k j) ps = RemoteId_ZERO"
proof -
  note ok = ui_peers_reach_ok [OF assms(1)]
  have "hm_get (ups_peers ps) i = Some peer" using assms(2) by (simp add: ui_peers_get_def)
  note p = this ui_peers_ok_peer [OF ok this]
  have "hm_get (ups_public_keys ps) k = None"
    using assms(5) ui_peers_ok_key [OF ok] by (fastforce simp: ui_by_public_key_def split: option.splits)
  with p assms(3, 4, 6) show ?thesis
    by (simp add: ui_to_stable_id_def ui_to_remote_id_def ui_by_public_key_def rid_is_local_def
        rid_local_def PeerId_ZERO_def pid_is_zero_def)
qed

definition example_peer :: "u32 \<Rightarrow> u8 \<Rightarrow> RemotePeer" where
  "example_peer i b =
     \<lparr>rp_id = PeerId_new i, rp_public_key = PublicKey_new (replicate 32 b), rp_props = []\<rparr>"

theorem peer_translation_witness:
  "ui_to_remote_id (StableId_new (PublicKey_new (replicate 32 7)) (Id_new 5))
     (ui_peers_insert (example_peer 3 7) StableId_ZERO
        (ui_peers_insert (example_peer 2 7) StableId_ZERO ui_peers_default)) =
   RemoteId_new (PeerId_new 3) (Id_new 5)"
proof -
  let ?ps = "ui_peers_insert (example_peer 3 7) StableId_ZERO
    (ui_peers_insert (example_peer 2 7) StableId_ZERO ui_peers_default)"
  let ?peer = "\<lparr>uip_id = PeerId_new 3, uip_props = [],
    uip_public_key = PublicKey_new (replicate 32 7), uip_in_room = True\<rparr>"
  note defs = ui_peers_insert_def ui_peers_default_def example_peer_def hm_get_def hm_insert_def
    hm_remove_def props_get_def ui_peers_get_def ui_by_public_key_def PublicKey_ZERO_def
  have get: "ui_peers_get (PeerId_new 3) ?ps = Some ?peer" by (simp add: defs)
  have "ui_peers_reach ?ps" by (intro reach_insert reach_default)
  moreover have "\<not> pid_is_zero (PeerId_new 3)" by (simp add: pid_is_zero_def)
  moreover have "uip_public_key ?peer \<noteq> ups_public_key ?ps"
    and "ui_by_public_key (PublicKey_new []) ?ps = None" "PublicKey_new [] \<noteq> ups_public_key ?ps"
    by (simp_all add: defs)
  ultimately show ?thesis
    using peer_translation [of ?ps "PeerId_new 3" ?peer "PublicKey_new []" "Id_new 5"] get by simp
qed

end
