(* ===== verification/UiObjects.thy ===== *)
theory UiObjects
  imports UiPeers Sorting
begin

section \<open>Objects of the browser: \<^verbatim>\<open>crates/web/src/objects.rs\<close>\<close>

text \<open>
  The typed copies of objects that the browser keeps, made from their properties and updated
  property by property, and the table of them. Groups are objects that refer to their own group;
  the loops that follow these links are \<open>partial_function (option)\<close>, where \<open>None\<close> is a loop that
  does not end. The geometry of clicks needs floating-point arithmetic and is left out.
\<close>

subsection \<open>Data\<close>

record TokenObject =
  tok_transform :: Transform
  tok_locked :: bool
  tok_look_at :: "Vec3 option"
  tok_image :: Id
  tok_color :: "Color option"
  tok_radius :: f32
  tok_speed :: f32
  tok_move_target :: "Vec3 option"

record StaticObject =
  sta_transform :: Transform
  sta_locked :: bool
  sta_image :: Id
  sta_color :: "Color option"
  sta_name :: string
  sta_hidden :: bool
  sta_width :: f32
  sta_height :: f32

record GroupObject =
  gro_locked :: bool
  gro_expanded :: bool

record RoomObject =
  rom_background :: Id
  rom_extent :: Extent
  rom_show_grid :: bool
  rom_color :: Color

datatype ObjectKind =
  KToken TokenObject | KStatic StaticObject | KGroup GroupObject | KRoom RoomObject

record Object =
  ob_id :: RemoteId
  ob_group :: RemoteId
  ob_name :: string
  ob_hidden :: bool
  ob_local_hidden :: bool
  ob_sort :: bytes
  ob_kind :: ObjectKind

definition DEFAULT_SPEED :: f32 where "DEFAULT_SPEED = 0x40200000"
definition DEFAULT_WIDTH :: f32 where "DEFAULT_WIDTH = 0x3f800000"
definition DEFAULT_HEIGHT :: f32 where "DEFAULT_HEIGHT = 0x3f800000"
definition DEFAULT_RADIUS :: f32 where "DEFAULT_RADIUS = 0x3e800000"

definition color_neutral :: Color where
  "color_neutral = \<lparr>col_r = 0x66, col_g = 0xc5, col_b = 0xe5, col_a = 255\<rparr>"

definition color_neutral_background :: Color where
  "color_neutral_background = \<lparr>col_r = 0x10, col_g = 0x10, col_b = 0x10, col_a = 255\<rparr>"

definition option_eq :: "('a \<Rightarrow> 'a \<Rightarrow> bool) \<Rightarrow> 'a option \<Rightarrow> 'a option \<Rightarrow> bool" where
  "option_eq eq x y =
     (case x of
        None \<Rightarrow> y = None
      | Some a \<Rightarrow> (case y of None \<Rightarrow> False | Some b \<Rightarrow> eq a b))"

text \<open>An assignment through \<open>State\<close> to a field of a record.\<close>

definition assign ::
    "('a \<Rightarrow> 'a \<Rightarrow> bool) \<Rightarrow> ('o \<Rightarrow> 'a) \<Rightarrow> (('a \<Rightarrow> 'a) \<Rightarrow> 'o \<Rightarrow> 'o) \<Rightarrow> 'a \<Rightarrow> 'o \<Rightarrow> bool \<times> 'o" where
  "assign eq field_of with_field new x =
     (let (changed, y) = state_update eq new (field_of x) in (changed, with_field (\<lambda>_. y) x))"

subsection \<open>Tokens\<close>

definition token_new :: "RemoteObject \<Rightarrow> TokenObject" where
  "token_new o1 =
     (let get = props_get (ro_props o1)
      in \<lparr>tok_transform = unwrap_or transform_origin (as_transform (get KEY_TRANSFORM)),
          tok_locked = as_bool (get KEY_LOCKED),
          tok_look_at = as_vec3 (get KEY_LOOK_AT),
          tok_image = as_id (get KEY_IMAGE_ID),
          tok_color = as_color (get KEY_COLOR),
          tok_radius = unwrap_or DEFAULT_RADIUS (as_f32 (get KEY_RADIUS)),
          tok_speed = unwrap_or DEFAULT_SPEED (as_f32 (get KEY_SPEED)),
          tok_move_target = as_vec3 (get KEY_MOVE_TARGET)\<rparr>)"

definition token_get :: "TokenObject \<Rightarrow> Key \<Rightarrow> Value" where
  "token_get t key =
     (if key = KEY_TRANSFORM then VTransform (tok_transform t)
      else if key = KEY_LOCKED then VBoolean (tok_locked t)
      else if key = KEY_LOOK_AT then value_from_option VVec3 (tok_look_at t)
      else if key = KEY_IMAGE_ID then value_from_id (tok_image t)
      else if key = KEY_COLOR then value_from_option VColor (tok_color t)
      else if key = KEY_RADIUS then value_from_f32 (tok_radius t)
      else if key = KEY_SPEED then value_from_f32 (tok_speed t)
      else if key = KEY_MOVE_TARGET then value_from_option VVec3 (tok_move_target t)
      else VEmpty)"

definition token_has_interpolation :: "TokenObject \<Rightarrow> bool" where
  "token_has_interpolation t \<longleftrightarrow> tok_move_target t \<noteq> None"

definition token_update :: "Key \<Rightarrow> Value \<Rightarrow> TokenObject \<Rightarrow> bool \<times> TokenObject" where
  "token_update key v t =
     (if key = KEY_TRANSFORM \<and> token_has_interpolation t then (False, t)
      else if key = KEY_TRANSFORM then
        (let new = unwrap_or transform_origin (as_transform v)
         in if \<not> token_has_interpolation t
            then assign transform_eq tok_transform tok_transform_update new t
            else if tok_look_at t \<noteq> None then (False, t)
            else if vec3_eq (tr_front (tok_transform t)) (tr_front new) then (False, t)
            else (True, t\<lparr>tok_transform := (tok_transform t)\<lparr>tr_front := tr_front new\<rparr>\<rparr>))
      else if key = KEY_LOCKED then assign (=) tok_locked tok_locked_update (as_bool v) t
      else if key = KEY_LOOK_AT then
        assign (option_eq vec3_eq) tok_look_at tok_look_at_update (as_vec3 v) t
      else if key = KEY_IMAGE_ID then assign (=) tok_image tok_image_update (as_id v) t
      else if key = KEY_COLOR then assign (=) tok_color tok_color_update (as_color v) t
      else if key = KEY_RADIUS then
        assign f32_eq tok_radius tok_radius_update (unwrap_or DEFAULT_RADIUS (as_f32 v)) t
      else if key = KEY_SPEED then
        assign f32_eq tok_speed tok_speed_update (unwrap_or DEFAULT_SPEED (as_f32 v)) t
      else if key = KEY_MOVE_TARGET then
        assign (option_eq vec3_eq) tok_move_target tok_move_target_update (as_vec3 v) t
      else (False, t))"

subsection \<open>Statics\<close>

definition static_new :: "RemoteObject \<Rightarrow> StaticObject" where
  "static_new o1 =
     (let get = props_get (ro_props o1)
      in \<lparr>sta_transform = unwrap_or transform_origin (as_transform (get KEY_TRANSFORM)),
          sta_locked = as_bool (get KEY_LOCKED),
          sta_image = as_id (get KEY_IMAGE_ID),
          sta_color = as_color (get KEY_COLOR),
          sta_name = as_str (get KEY_NAME),
          sta_hidden = as_bool (get KEY_HIDDEN),
          sta_width = unwrap_or DEFAULT_WIDTH (as_f32 (get KEY_WIDTH)),
          sta_height = unwrap_or DEFAULT_HEIGHT (as_f32 (get KEY_HEIGHT))\<rparr>)"

definition static_get :: "StaticObject \<Rightarrow> Key \<Rightarrow> Value" where
  "static_get t key =
     (if key = KEY_TRANSFORM then VTransform (sta_transform t)
      else if key = KEY_LOCKED then VBoolean (sta_locked t)
      else if key = KEY_IMAGE_ID then value_from_id (sta_image t)
      else if key = KEY_COLOR then value_from_option VColor (sta_color t)
      else if key = KEY_NAME then VString (sta_name t)
      else if key = KEY_HIDDEN then VBoolean (sta_hidden t)
      else if key = KEY_WIDTH then value_from_f32 (sta_width t)
      else if key = KEY_HEIGHT then value_from_f32 (sta_height t)
      else VEmpty)"

definition static_update :: "Key \<Rightarrow> Value \<Rightarrow> StaticObject \<Rightarrow> bool \<times> StaticObject" where
  "static_update key v t =
     (if key = KEY_TRANSFORM then
        assign transform_eq sta_transform sta_transform_update
          (unwrap_or transform_origin (as_transform v)) t
      else if key = KEY_LOCKED then assign (=) sta_locked sta_locked_update (as_bool v) t
      else if key = KEY_IMAGE_ID then assign (=) sta_image sta_image_update (as_id v) t
      else if key = KEY_COLOR then assign (=) sta_color sta_color_update (as_color v) t
      else if key = KEY_NAME then assign (=) sta_name sta_name_update (as_str v) t
      else if key = KEY_HIDDEN then assign (=) sta_hidden sta_hidden_update (as_bool v) t
      else if key = KEY_WIDTH then
        assign f32_eq sta_width sta_width_update (unwrap_or DEFAULT_WIDTH (as_f32 v)) t
      else if key = KEY_HEIGHT then
        assign f32_eq sta_height sta_height_update (unwrap_or DEFAULT_HEIGHT (as_f32 v)) t
      else (False, t))"

subsection \<open>Groups and rooms\<close>

definition group_new :: "RemoteObject \<Rightarrow> GroupObject" where
  "group_new o1 =
     (let get = props_get (ro_props o1)
      in \<lparr>gro_locked = as_bool (get KEY_LOCKED), gro_expanded = as_bool (get KEY_EXPANDED)\<rparr>)"

definition group_get :: "GroupObject \<Rightarrow> Key \<Rightarrow> Value" where
  "group_get t key =
     (if key = KEY_LOCKED then VBoolean (gro_locked t)
      else if key = KEY_EXPANDED then VBoolean (gro_expanded t)
      else VEmpty)"

definition group_update :: "Key \<Rightarrow> Value \<Rightarrow> GroupObject \<Rightarrow> bool \<times> GroupObject" where
  "group_update key v t =
     (if key = KEY_LOCKED then assign (=) gro_locked gro_locked_update (as_bool v) t
      else if key = KEY_EXPANDED then assign (=) gro_expanded gro_expanded_update (as_bool v) t
      else (False, t))"

definition room_new :: "RemoteObject \<Rightarrow> RoomObject" where
  "room_new o1 =
     (let get = props_get (ro_props o1)
      in \<lparr>rom_background = as_id (get KEY_ROOM_BACKGROUND),
          rom_extent = unwrap_or extent_arena (as_extent (get KEY_ROOM_EXTENT)),
          rom_show_grid = as_bool (get KEY_SHOW_GRID),
          rom_color = unwrap_or color_neutral_background (as_color (get KEY_COLOR))\<rparr>)"

definition room_get :: "RoomObject \<Rightarrow> Key \<Rightarrow> Value" where
  "room_get t key =
     (if key = KEY_ROOM_BACKGROUND then value_from_id (rom_background t)
      else if key = KEY_ROOM_EXTENT then VExtent (rom_extent t)
      else if key = KEY_SHOW_GRID then VBoolean (rom_show_grid t)
      else if key = KEY_COLOR then VColor (rom_color t)
      else VEmpty)"

definition room_update :: "Key \<Rightarrow> Value \<Rightarrow> RoomObject \<Rightarrow> bool \<times> RoomObject" where
  "room_update key v t =
     (if key = KEY_ROOM_BACKGROUND then
        assign (=) rom_background rom_background_update (as_id v) t
      else if key = KEY_ROOM_EXTENT then
        assign extent_eq rom_extent rom_extent_update (unwrap_or extent_arena (as_extent v)) t
      else if key = KEY_SHOW_GRID then
        assign (=) rom_show_grid rom_show_grid_update (as_bool v) t
      else if key = KEY_COLOR then
        assign (=) rom_color rom_color_update
          (unwrap_or color_neutral_background (as_color v)) t
      else (False, t))"

subsection \<open>Objects\<close>

definition kind_new :: "RemoteObject \<Rightarrow> ObjectKind option" where
  "kind_new o1 =
     (if ro_ty o1 = TYPE_TOKEN then Some (KToken (token_new o1))
      else if ro_ty o1 = TYPE_STATIC then Some (KStatic (static_new o1))
      else if ro_ty o1 = TYPE_GROUP then Some (KGroup (group_new o1))
      else if ro_ty o1 = TYPE_ROOM then Some (KRoom (room_new o1))
      else None)"

definition object_new :: "PeerId \<Rightarrow> RemoteObject \<Rightarrow> Object option" where
  "object_new p o1 =
     (case kind_new o1 of
        None \<Rightarrow> None
      | Some kind \<Rightarrow>
          (let get = props_get (ro_props o1)
           in Some \<lparr>ob_id = RemoteId_new p (ro_id o1),
                    ob_group = RemoteId_new p (as_id (get KEY_GROUP)),
                    ob_name = as_str (get KEY_NAME),
                    ob_hidden = as_bool (get KEY_HIDDEN),
                    ob_local_hidden = as_bool (get KEY_LOCAL_HIDDEN),
                    ob_sort = as_bytes (get KEY_SORT),
                    ob_kind = kind\<rparr>))"

definition kind_get :: "ObjectKind \<Rightarrow> Key \<Rightarrow> Value" where
  "kind_get kind key =
     (case kind of
        KToken t \<Rightarrow> token_get t key
      | KStatic t \<Rightarrow> static_get t key
      | KGroup t \<Rightarrow> group_get t key
      | KRoom t \<Rightarrow> room_get t key)"

definition object_get :: "Object \<Rightarrow> Key \<Rightarrow> Value" where
  "object_get ob key =
     (if key = KEY_NAME then VString (ob_name ob)
      else if key = KEY_HIDDEN then VBoolean (ob_hidden ob)
      else if key = KEY_LOCAL_HIDDEN then VBoolean (ob_local_hidden ob)
      else if key = KEY_GROUP then value_from_id (rid_id (ob_group ob))
      else if key = KEY_SORT then VBytes (ob_sort ob)
      else kind_get (ob_kind ob) key)"

definition object_ty :: "Object \<Rightarrow> Type" where
  "object_ty ob =
     (case ob_kind ob of
        KToken _ \<Rightarrow> TYPE_TOKEN
      | KStatic _ \<Rightarrow> TYPE_STATIC
      | KGroup _ \<Rightarrow> TYPE_GROUP
      | KRoom _ \<Rightarrow> TYPE_ROOM)"

definition kind_update :: "Key \<Rightarrow> Value \<Rightarrow> ObjectKind \<Rightarrow> bool \<times> ObjectKind" where
  "kind_update key v kind =
     (case kind of
        KToken t \<Rightarrow> map_prod id KToken (token_update key v t)
      | KStatic t \<Rightarrow> map_prod id KStatic (static_update key v t)
      | KGroup t \<Rightarrow> map_prod id KGroup (group_update key v t)
      | KRoom t \<Rightarrow> map_prod id KRoom (room_update key v t))"

definition ob_update :: "Key \<Rightarrow> Value \<Rightarrow> Object \<Rightarrow> bool \<times> Object" where
  "ob_update key v ob =
     (if key = KEY_NAME then
        (let (changed, name) = update_str (as_str v) (ob_name ob)
         in (changed, ob\<lparr>ob_name := name\<rparr>))
      else if key = KEY_HIDDEN then assign (=) ob_hidden ob_hidden_update (as_bool v) ob
      else if key = KEY_LOCAL_HIDDEN then
        assign (=) ob_local_hidden ob_local_hidden_update (as_bool v) ob
      else if key = KEY_GROUP then
        assign (=) ob_group ob_group_update
          (RemoteId_new (rid_peer_id (ob_id ob)) (as_id v)) ob
      else if key = KEY_SORT then assign (=) ob_sort ob_sort_update (as_bytes v) ob
      else
        (let (changed, kind) = kind_update key v (ob_kind ob)
         in (changed, ob\<lparr>ob_kind := kind\<rparr>)))"

definition object_is_global :: "Object \<Rightarrow> bool" where
  "object_is_global ob \<longleftrightarrow> (case ob_kind ob of KRoom _ \<Rightarrow> True | _ \<Rightarrow> False)"

definition object_is_group :: "Object \<Rightarrow> bool" where
  "object_is_group ob \<longleftrightarrow> (case ob_kind ob of KGroup _ \<Rightarrow> True | _ \<Rightarrow> False)"

definition object_is_expanded :: "Object \<Rightarrow> bool" where
  "object_is_expanded ob \<longleftrightarrow> (case ob_kind ob of KGroup g \<Rightarrow> gro_expanded g | _ \<Rightarrow> False)"

definition object_is_token :: "Object \<Rightarrow> bool" where
  "object_is_token ob \<longleftrightarrow> (case ob_kind ob of KToken _ \<Rightarrow> True | _ \<Rightarrow> False)"

definition object_is_static :: "Object \<Rightarrow> bool" where
  "object_is_static ob \<longleftrightarrow> (case ob_kind ob of KStatic _ \<Rightarrow> True | _ \<Rightarrow> False)"

definition object_is_interactive :: "Object \<Rightarrow> bool" where
  "object_is_interactive ob \<longleftrightarrow> (case ob_kind ob of KToken _ \<Rightarrow> True | _ \<Rightarrow> False)"

definition object_icon :: "Object \<Rightarrow> string" where
  "object_icon ob =
     (case ob_kind ob of
        KToken _ \<Rightarrow> ''user''
      | KStatic _ \<Rightarrow> ''squares-2x2''
      | KGroup g \<Rightarrow> if gro_expanded g then ''folder-open'' else ''folder''
      | KRoom _ \<Rightarrow> ''home'')"

definition object_as_transform :: "Object \<Rightarrow> Transform option" where
  "object_as_transform ob =
     (case ob_kind ob of
        KToken t \<Rightarrow> Some (tok_transform t)
      | KStatic t \<Rightarrow> Some (sta_transform t)
      | _ \<Rightarrow> None)"

definition object_has_interpolation :: "Object \<Rightarrow> bool" where
  "object_has_interpolation ob \<longleftrightarrow>
     (case ob_kind ob of KToken t \<Rightarrow> token_has_interpolation t | _ \<Rightarrow> False)"

definition object_is_locked :: "Object \<Rightarrow> bool" where
  "object_is_locked ob \<longleftrightarrow>
     (case ob_kind ob of
        KToken t \<Rightarrow> tok_locked t
      | KStatic t \<Rightarrow> sta_locked t
      | KGroup t \<Rightarrow> gro_locked t
      | KRoom _ \<Rightarrow> False)"

text \<open>
  The \<open>as_*_mut\<close> accessors give a reference into an object, or \<open>None\<close>; the model takes the update
  made through it and gives the object after it.
\<close>

definition modify_locked :: "(bool \<Rightarrow> bool) \<Rightarrow> Object \<Rightarrow> Object option" where
  "modify_locked f ob =
     (case ob_kind ob of
        KToken t \<Rightarrow> Some (ob\<lparr>ob_kind := KToken (tok_locked_update f t)\<rparr>)
      | KStatic t \<Rightarrow> Some (ob\<lparr>ob_kind := KStatic (sta_locked_update f t)\<rparr>)
      | KGroup t \<Rightarrow> Some (ob\<lparr>ob_kind := KGroup (gro_locked_update f t)\<rparr>)
      | KRoom _ \<Rightarrow> None)"

definition modify_expanded :: "(bool \<Rightarrow> bool) \<Rightarrow> Object \<Rightarrow> Object option" where
  "modify_expanded f ob =
     (case ob_kind ob of
        KGroup t \<Rightarrow> Some (ob\<lparr>ob_kind := KGroup (gro_expanded_update f t)\<rparr>)
      | _ \<Rightarrow> None)"

definition modify_move_target :: "(Vec3 option \<Rightarrow> Vec3 option) \<Rightarrow> Object \<Rightarrow> Object option" where
  "modify_move_target f ob =
     (case ob_kind ob of
        KToken t \<Rightarrow> Some (ob\<lparr>ob_kind := KToken (tok_move_target_update f t)\<rparr>)
      | _ \<Rightarrow> None)"

definition modify_look_at :: "(Vec3 option \<Rightarrow> Vec3 option) \<Rightarrow> Object \<Rightarrow> Object option" where
  "modify_look_at f ob =
     (case ob_kind ob of
        KToken t \<Rightarrow> Some (ob\<lparr>ob_kind := KToken (tok_look_at_update f t)\<rparr>)
      | _ \<Rightarrow> None)"

subsection \<open>Reading what was written\<close>

text \<open>
  What an object of a type reads for a key when the property has a value, as one function; the
  constructors, readers and updates above are shown to follow it.
\<close>

definition read_value :: "Type \<Rightarrow> Key \<Rightarrow> Value \<Rightarrow> Value" where
  "read_value ty key v =
     (if key = KEY_NAME then VString (as_str v)
      else if key \<in> {KEY_HIDDEN, KEY_LOCAL_HIDDEN} then VBoolean (as_bool v)
      else if key = KEY_GROUP then value_from_id (as_id v)
      else if key = KEY_SORT then VBytes (as_bytes v)
      else if key = KEY_TRANSFORM \<and> ty \<in> {TYPE_TOKEN, TYPE_STATIC} then
        VTransform (unwrap_or transform_origin (as_transform v))
      else if key = KEY_LOCKED \<and> ty \<in> {TYPE_TOKEN, TYPE_STATIC, TYPE_GROUP} then
        VBoolean (as_bool v)
      else if key = KEY_IMAGE_ID \<and> ty \<in> {TYPE_TOKEN, TYPE_STATIC} then value_from_id (as_id v)
      else if key = KEY_COLOR \<and> ty \<in> {TYPE_TOKEN, TYPE_STATIC} then
        value_from_option VColor (as_color v)
      else if key = KEY_COLOR \<and> ty = TYPE_ROOM then
        VColor (unwrap_or color_neutral_background (as_color v))
      else if key \<in> {KEY_LOOK_AT, KEY_MOVE_TARGET} \<and> ty = TYPE_TOKEN then
        value_from_option VVec3 (as_vec3 v)
      else if key = KEY_RADIUS \<and> ty = TYPE_TOKEN then
        value_from_f32 (unwrap_or DEFAULT_RADIUS (as_f32 v))
      else if key = KEY_SPEED \<and> ty = TYPE_TOKEN then
        value_from_f32 (unwrap_or DEFAULT_SPEED (as_f32 v))
      else if key = KEY_WIDTH \<and> ty = TYPE_STATIC then
        value_from_f32 (unwrap_or DEFAULT_WIDTH (as_f32 v))
      else if key = KEY_HEIGHT \<and> ty = TYPE_STATIC then
        value_from_f32 (unwrap_or DEFAULT_HEIGHT (as_f32 v))
      else if key = KEY_EXPANDED \<and> ty = TYPE_GROUP then VBoolean (as_bool v)
      else if key = KEY_ROOM_BACKGROUND \<and> ty = TYPE_ROOM then value_from_id (as_id v)
      else if key = KEY_ROOM_EXTENT \<and> ty = TYPE_ROOM then
        VExtent (unwrap_or extent_arena (as_extent v))
      else if key = KEY_SHOW_GRID \<and> ty = TYPE_ROOM then VBoolean (as_bool v)
      else VEmpty)"

text \<open>Values that an assignment takes for the same.\<close>

definition same_reading :: "Value \<Rightarrow> Value \<Rightarrow> bool" where
  "same_reading a b \<longleftrightarrow>
     a = b \<or> value_eq a b \<or> (\<exists>x y. a = value_from_f32 x \<and> b = value_from_f32 y \<and> f32_eq x y)"

lemma same_reading_refl [simp]: "same_reading a a"
  by (simp add: same_reading_def)

lemma same_reading_cases:
  "transform_eq s t \<Longrightarrow> same_reading (VTransform s) (VTransform t)"
  "extent_eq e f \<Longrightarrow> same_reading (VExtent e) (VExtent f)"
  "f32_eq x y \<Longrightarrow> same_reading (value_from_f32 x) (value_from_f32 y)"
  "option_eq vec3_eq a b \<Longrightarrow>
     same_reading (value_from_option VVec3 a) (value_from_option VVec3 b)"
  by (auto simp: same_reading_def value_eq_def option_eq_def value_from_option_def
      split: option.splits)

lemma assign_simps [simp]:
  "fst (assign eq rd wr new x) = (\<not> eq (rd x) new)"
  "snd (assign eq rd wr new x) = wr (\<lambda>_. if eq (rd x) new then rd x else new) x"
  by (simp_all add: assign_def state_update_def)

lemmas key_distinct = Key.inject Type.inject

lemma token_read:
  "key \<notin> {KEY_NAME, KEY_HIDDEN, KEY_LOCAL_HIDDEN, KEY_GROUP, KEY_SORT} \<Longrightarrow>
   token_get (token_new o1) key = read_value TYPE_TOKEN key (props_get (ro_props o1) key)"
  by (simp add: token_get_def token_new_def read_value_def Let_def)

lemma static_read:
  "key \<notin> {KEY_NAME, KEY_HIDDEN, KEY_LOCAL_HIDDEN, KEY_GROUP, KEY_SORT} \<Longrightarrow>
   static_get (static_new o1) key = read_value TYPE_STATIC key (props_get (ro_props o1) key)"
  by (simp add: static_get_def static_new_def read_value_def Let_def)

lemma group_read:
  "key \<notin> {KEY_NAME, KEY_HIDDEN, KEY_LOCAL_HIDDEN, KEY_GROUP, KEY_SORT} \<Longrightarrow>
   group_get (group_new o1) key = read_value TYPE_GROUP key (props_get (ro_props o1) key)"
  by (simp add: group_get_def group_new_def read_value_def Let_def)

lemma room_read:
  "key \<notin> {KEY_NAME, KEY_HIDDEN, KEY_LOCAL_HIDDEN, KEY_GROUP, KEY_SORT} \<Longrightarrow>
   room_get (room_new o1) key = read_value TYPE_ROOM key (props_get (ro_props o1) key)"
  by (simp add: room_get_def room_new_def read_value_def Let_def)

lemma kind_new_cases:
  assumes "kind_new o1 = Some kind"
  obtains "ro_ty o1 = TYPE_TOKEN" "kind = KToken (token_new o1)"
  | "ro_ty o1 = TYPE_STATIC" "kind = KStatic (static_new o1)"
  | "ro_ty o1 = TYPE_GROUP" "kind = KGroup (group_new o1)"
  | "ro_ty o1 = TYPE_ROOM" "kind = KRoom (room_new o1)"
  using assms by (auto simp: kind_new_def split: if_splits)

lemma object_new_kind: "object_new p o1 = Some ob \<Longrightarrow> kind_new o1 = Some (ob_kind ob)"
  by (auto simp: object_new_def Let_def split: option.splits)

lemma object_new_cases:
  assumes "object_new p o1 = Some ob"
  obtains "ro_ty o1 = TYPE_TOKEN" "ob_kind ob = KToken (token_new o1)"
  | "ro_ty o1 = TYPE_STATIC" "ob_kind ob = KStatic (static_new o1)"
  | "ro_ty o1 = TYPE_GROUP" "ob_kind ob = KGroup (group_new o1)"
  | "ro_ty o1 = TYPE_ROOM" "ob_kind ob = KRoom (room_new o1)"
  using object_new_kind [OF assms] by (rule kind_new_cases)

lemma object_new_fields:
  assumes "object_new p o1 = Some ob"
  shows "ob_id ob = RemoteId_new p (ro_id o1)"
    "ob_group ob = RemoteId_new p (as_id (props_get (ro_props o1) KEY_GROUP))"
    "ob_name ob = as_str (props_get (ro_props o1) KEY_NAME)"
    "ob_hidden ob = as_bool (props_get (ro_props o1) KEY_HIDDEN)"
    "ob_local_hidden ob = as_bool (props_get (ro_props o1) KEY_LOCAL_HIDDEN)"
    "ob_sort ob = as_bytes (props_get (ro_props o1) KEY_SORT)"
  using assms by (auto simp: object_new_def Let_def split: option.splits)

lemma object_new_ty: "object_new p o1 = Some ob \<Longrightarrow> object_ty ob = ro_ty o1"
  by (erule object_new_cases) (simp_all add: object_ty_def)

lemma object_read:
  assumes "object_new p o1 = Some ob"
  shows "object_get ob key = read_value (ro_ty o1) key (props_get (ro_props o1) key)"
proof (cases "key \<in> {KEY_NAME, KEY_HIDDEN, KEY_LOCAL_HIDDEN, KEY_GROUP, KEY_SORT}")
  case True
  then show ?thesis
    by (elim insertE emptyE) (simp_all add: object_new_fields [OF assms] object_get_def read_value_def)
next
  case False
  then have get: "object_get ob key = kind_get (ob_kind ob) key" by (simp add: object_get_def)
  from assms show ?thesis
    by (cases rule: object_new_cases)
      (simp_all only: get kind_get_def ObjectKind.case token_read [OF False] static_read [OF False]
        group_read [OF False] room_read [OF False])
qed

subsection \<open>Updates\<close>

text \<open>
  An update changes what is read for its key, to what the new value reads up to what the
  assignment takes for the same, and nothing else; one that reports no change makes none.
\<close>

lemma token_update_other:
  "key' \<noteq> key \<Longrightarrow> token_get (snd (token_update key v t)) key' = token_get t key'"
proof (cases "key \<in> {KEY_TRANSFORM, KEY_LOCKED, KEY_LOOK_AT, KEY_IMAGE_ID, KEY_COLOR, KEY_RADIUS, KEY_SPEED, KEY_MOVE_TARGET}")
  case True
  moreover assume "key' \<noteq> key"
  ultimately show ?thesis
    by (elim insertE emptyE; cases "token_has_interpolation t")
      (simp_all add: token_update_def token_get_def Let_def cong: if_cong split del: if_split)
next
  case False
  then show ?thesis by (simp add: token_update_def)
qed

lemma token_update_read:
  assumes "key \<notin> {KEY_NAME, KEY_HIDDEN, KEY_LOCAL_HIDDEN, KEY_GROUP, KEY_SORT}"
    and "key = KEY_TRANSFORM \<longrightarrow> \<not> token_has_interpolation t"
  shows "same_reading (token_get (snd (token_update key v t)) key) (read_value TYPE_TOKEN key v)"
proof (cases "key \<in> {KEY_TRANSFORM, KEY_LOCKED, KEY_LOOK_AT, KEY_IMAGE_ID, KEY_COLOR, KEY_RADIUS, KEY_SPEED, KEY_MOVE_TARGET}")
  case True
  then show ?thesis
    using assms by (elim insertE emptyE)
      (simp_all add: token_update_def token_get_def read_value_def same_reading_cases)
next
  case False
  with assms(1) show ?thesis by (simp add: token_update_def token_get_def read_value_def)
qed

lemma token_update_idle: "fst (token_update key v t) \<or> snd (token_update key v t) = t"
proof (cases "key \<in> {KEY_TRANSFORM, KEY_LOCKED, KEY_LOOK_AT, KEY_IMAGE_ID, KEY_COLOR, KEY_RADIUS, KEY_SPEED, KEY_MOVE_TARGET}")
  case True
  then show ?thesis by (elim insertE emptyE) (simp_all add: token_update_def Let_def)
next
  case False
  then show ?thesis by (simp add: token_update_def)
qed

lemma static_update_other:
  "key' \<noteq> key \<Longrightarrow> static_get (snd (static_update key v t)) key' = static_get t key'"
proof (cases "key \<in> {KEY_TRANSFORM, KEY_LOCKED, KEY_IMAGE_ID, KEY_COLOR, KEY_NAME, KEY_HIDDEN, KEY_WIDTH, KEY_HEIGHT}")
  case True
  moreover assume "key' \<noteq> key"
  ultimately show ?thesis
    by (elim insertE emptyE) (simp_all add: static_update_def static_get_def cong: if_cong split del: if_split)
next
  case False
  then show ?thesis by (simp add: static_update_def)
qed

lemma static_update_read:
  assumes "key \<notin> {KEY_NAME, KEY_HIDDEN, KEY_LOCAL_HIDDEN, KEY_GROUP, KEY_SORT}"
  shows "same_reading (static_get (snd (static_update key v t)) key) (read_value TYPE_STATIC key v)"
proof (cases "key \<in> {KEY_TRANSFORM, KEY_LOCKED, KEY_IMAGE_ID, KEY_COLOR, KEY_NAME, KEY_HIDDEN, KEY_WIDTH, KEY_HEIGHT}")
  case True
  then show ?thesis
    using assms by (elim insertE emptyE)
      (simp_all add: static_update_def static_get_def read_value_def same_reading_cases)
next
  case False
  with assms(1) show ?thesis by (simp add: static_update_def static_get_def read_value_def)
qed

lemma static_update_idle: "fst (static_update key v t) \<or> snd (static_update key v t) = t"
proof (cases "key \<in> {KEY_TRANSFORM, KEY_LOCKED, KEY_IMAGE_ID, KEY_COLOR, KEY_NAME, KEY_HIDDEN, KEY_WIDTH, KEY_HEIGHT}")
  case True
  then show ?thesis by (elim insertE emptyE) (simp_all add: static_update_def Let_def)
next
  case False
  then show ?thesis by (simp add: static_update_def)
qed

lemma group_update_other:
  "key' \<noteq> key \<Longrightarrow> group_get (snd (group_update key v t)) key' = group_get t key'"
proof (cases "key \<in> {KEY_LOCKED, KEY_EXPANDED}")
  case True
  moreover assume "key' \<noteq> key"
  ultimately show ?thesis
    by (elim insertE emptyE) (simp_all add: group_update_def group_get_def cong: if_cong split del: if_split)
next
  case False
  then show ?thesis by (simp add: group_update_def)
qed

lemma group_update_read:
  assumes "key \<notin> {KEY_NAME, KEY_HIDDEN, KEY_LOCAL_HIDDEN, KEY_GROUP, KEY_SORT}"
  shows "same_reading (group_get (snd (group_update key v t)) key) (read_value TYPE_GROUP key v)"
proof (cases "key \<in> {KEY_LOCKED, KEY_EXPANDED}")
  case True
  then show ?thesis
    using assms by (elim insertE emptyE)
      (simp_all add: group_update_def group_get_def read_value_def same_reading_cases)
next
  case False
  with assms(1) show ?thesis by (simp add: group_update_def group_get_def read_value_def)
qed

lemma group_update_idle: "fst (group_update key v t) \<or> snd (group_update key v t) = t"
proof (cases "key \<in> {KEY_LOCKED, KEY_EXPANDED}")
  case True
  then show ?thesis by (elim insertE emptyE) (simp_all add: group_update_def Let_def)
next
  case False
  then show ?thesis by (simp add: group_update_def)
qed

lemma room_update_other:
  "key' \<noteq> key \<Longrightarrow> room_get (snd (room_update key v t)) key' = room_get t key'"
proof (cases "key \<in> {KEY_ROOM_BACKGROUND, KEY_ROOM_EXTENT, KEY_SHOW_GRID, KEY_COLOR}")
  case True
  moreover assume "key' \<noteq> key"
  ultimately show ?thesis
    by (elim insertE emptyE) (simp_all add: room_update_def room_get_def cong: if_cong split del: if_split)
next
  case False
  then show ?thesis by (simp add: room_update_def)
qed

lemma room_update_read:
  assumes "key \<notin> {KEY_NAME, KEY_HIDDEN, KEY_LOCAL_HIDDEN, KEY_GROUP, KEY_SORT}"
  shows "same_reading (room_get (snd (room_update key v t)) key) (read_value TYPE_ROOM key v)"
proof (cases "key \<in> {KEY_ROOM_BACKGROUND, KEY_ROOM_EXTENT, KEY_SHOW_GRID, KEY_COLOR}")
  case True
  then show ?thesis
    using assms by (elim insertE emptyE)
      (simp_all add: room_update_def room_get_def read_value_def same_reading_cases)
next
  case False
  with assms(1) show ?thesis by (simp add: room_update_def room_get_def read_value_def)
qed

lemma room_update_idle: "fst (room_update key v t) \<or> snd (room_update key v t) = t"
proof (cases "key \<in> {KEY_ROOM_BACKGROUND, KEY_ROOM_EXTENT, KEY_SHOW_GRID, KEY_COLOR}")
  case True
  then show ?thesis by (elim insertE emptyE) (simp_all add: room_update_def Let_def)
next
  case False
  then show ?thesis by (simp add: room_update_def)
qed

lemma ob_update_frame:
  "ob_id (snd (ob_update key v ob)) = ob_id ob"
  "object_ty (snd (ob_update key v ob)) = object_ty ob"
  by (simp_all add: ob_update_def object_ty_def kind_update_def split_beta
      split: ObjectKind.splits)

abbreviation object_keys :: "Key set" where
  "object_keys \<equiv> {KEY_NAME, KEY_HIDDEN, KEY_LOCAL_HIDDEN, KEY_GROUP, KEY_SORT}"

lemma kind_update_other:
  "key' \<noteq> key \<Longrightarrow> kind_get (snd (kind_update key v kind)) key' = kind_get kind key'"
  by (cases kind) (simp_all add: kind_update_def kind_get_def token_update_other
      static_update_other group_update_other room_update_other)

lemma ob_update_other:
  assumes "key' \<noteq> key"
  shows "object_get (snd (ob_update key v ob)) key' = object_get ob key'"
proof (cases "key \<in> object_keys")
  case True
  then show ?thesis using assms
    by (elim insertE emptyE)
      (simp_all add: ob_update_def object_get_def split_beta update_str_eq
        cong: if_cong split del: if_split)
next
  case False
  then show ?thesis using kind_update_other [OF assms, of v "ob_kind ob"]
    by (simp add: ob_update_def object_get_def split_beta cong: if_cong split del: if_split)
qed

lemma ob_update_read:
  assumes "key = KEY_TRANSFORM \<longrightarrow> \<not> object_has_interpolation ob"
  shows "same_reading (object_get (snd (ob_update key v ob)) key)
    (read_value (object_ty ob) key v)"
proof (cases "key \<in> object_keys")
  case True
  then show ?thesis
    by (elim insertE emptyE)
      (simp_all add: ob_update_def object_get_def read_value_def split_beta update_str_eq)
next
  case False
  then have "object_get (snd (ob_update key v ob)) key =
      kind_get (snd (kind_update key v (ob_kind ob))) key"
    by (simp add: ob_update_def object_get_def split_beta)
  with assms show ?thesis
    by (cases "ob_kind ob") (simp_all add: kind_update_def kind_get_def object_ty_def
        object_has_interpolation_def token_update_read [OF False] static_update_read [OF False]
        group_update_read [OF False] room_update_read [OF False])
qed

lemma ob_update_idle: "fst (ob_update key v ob) \<or> snd (ob_update key v ob) = ob"
proof (cases "key \<in> object_keys")
  case True
  then show ?thesis
    by (elim insertE emptyE) (simp_all add: ob_update_def split_beta update_str_eq)
next
  case False
  have "fst (kind_update key v (ob_kind ob)) \<or> snd (kind_update key v (ob_kind ob)) = ob_kind ob"
    using token_update_idle static_update_idle group_update_idle room_update_idle
    by (cases "ob_kind ob") (simp_all add: kind_update_def)
  with False show ?thesis by (auto simp: ob_update_def split_beta)
qed

lemma read_value_norm: "read_value ty key (value_norm v) = read_value ty key v"
proof -
  have "value_is_empty v \<Longrightarrow> as_str v = [] \<and> \<not> as_bool v \<and> as_id v = Id_ZERO \<and> as_bytes v = [] \<and>
      as_transform v = None \<and> as_color v = None \<and> as_vec3 v = None \<and> as_f32 v = None \<and>
      as_extent v = None"
    by (cases v) (auto simp: as_f32_def id_is_zero_def Id_ZERO_def intro: Id.expand)
  moreover have "as_f32 VEmpty = None" by (simp add: as_f32_def)
  ultimately show ?thesis
    by (cases "value_is_empty v")
      (simp_all add: value_norm_def read_value_def cong: if_cong split del: if_split)
qed

lemma object_new_total: "object_new p o1 = None \<longleftrightarrow> ro_ty o1 \<notin> {TYPE_TOKEN, TYPE_STATIC, TYPE_GROUP, TYPE_ROOM}"
  by (auto simp: object_new_def kind_new_def Let_def split: option.splits)

text \<open>
  The state of two copies, field by field, up to what \<open>State\<close> takes for the same.
\<close>

definition same_up_to :: "('a \<Rightarrow> 'a \<Rightarrow> bool) \<Rightarrow> 'a \<Rightarrow> 'a \<Rightarrow> bool" where
  "same_up_to eq a b \<longleftrightarrow> a = b \<or> eq a b"

definition same_token :: "TokenObject \<Rightarrow> TokenObject \<Rightarrow> bool" where
  "same_token t u \<longleftrightarrow>
     same_up_to transform_eq (tok_transform t) (tok_transform u) \<and> tok_locked t = tok_locked u \<and>
     same_up_to (option_eq vec3_eq) (tok_look_at t) (tok_look_at u) \<and>
     tok_image t = tok_image u \<and> tok_color t = tok_color u \<and>
     same_up_to f32_eq (tok_radius t) (tok_radius u) \<and>
     same_up_to f32_eq (tok_speed t) (tok_speed u) \<and>
     same_up_to (option_eq vec3_eq) (tok_move_target t) (tok_move_target u)"

definition same_static :: "StaticObject \<Rightarrow> StaticObject \<Rightarrow> bool" where
  "same_static t u \<longleftrightarrow>
     same_up_to transform_eq (sta_transform t) (sta_transform u) \<and> sta_locked t = sta_locked u \<and>
     sta_image t = sta_image u \<and> sta_color t = sta_color u \<and>
     sta_name t = sta_name u \<and> sta_hidden t = sta_hidden u \<and>
     same_up_to f32_eq (sta_width t) (sta_width u) \<and>
     same_up_to f32_eq (sta_height t) (sta_height u)"

definition same_room :: "RoomObject \<Rightarrow> RoomObject \<Rightarrow> bool" where
  "same_room t u \<longleftrightarrow>
     rom_background t = rom_background u \<and> same_up_to extent_eq (rom_extent t) (rom_extent u) \<and>
     rom_show_grid t = rom_show_grid u \<and> rom_color t = rom_color u"

definition same_kind :: "ObjectKind \<Rightarrow> ObjectKind \<Rightarrow> bool" where
  "same_kind a b \<longleftrightarrow>
     (case (a, b) of
        (KToken t, KToken u) \<Rightarrow> same_token t u
      | (KStatic t, KStatic u) \<Rightarrow> same_static t u
      | (KGroup t, KGroup u) \<Rightarrow> t = u
      | (KRoom t, KRoom u) \<Rightarrow> same_room t u
      | _ \<Rightarrow> False)"

definition same_copy :: "Object \<Rightarrow> Object \<Rightarrow> bool" where
  "same_copy a b \<longleftrightarrow>
     ob_id a = ob_id b \<and> ob_group a = ob_group b \<and> ob_name a = ob_name b \<and>
     ob_hidden a = ob_hidden b \<and> ob_local_hidden a = ob_local_hidden b \<and> ob_sort a = ob_sort b \<and>
     same_kind (ob_kind a) (ob_kind b)"

text \<open>
  What an update does not reach: the place of a token that is moving, which is left to the
  animation, and the second copies that a static object has of its name and of being hidden.
\<close>

definition keeps_old :: "Key \<Rightarrow> ObjectKind \<Rightarrow> ObjectKind \<Rightarrow> ObjectKind" where
  "keeps_old key old new =
     (case (old, new) of
        (KToken t, KToken u) \<Rightarrow>
          KToken (if key = KEY_TRANSFORM \<and> token_has_interpolation t
                  then u\<lparr>tok_transform := tok_transform t\<rparr> else u)
      | (KStatic t, KStatic u) \<Rightarrow>
          KStatic (if key = KEY_NAME then u\<lparr>sta_name := sta_name t\<rparr>
                   else if key = KEY_HIDDEN then u\<lparr>sta_hidden := sta_hidden t\<rparr> else u)
      | _ \<Rightarrow> new)"

lemma same_up_to_cases [simp]:
  "same_up_to eq x x" "same_up_to eq (if eq x y then x else y) y"
  by (simp_all add: same_up_to_def)

lemma as_value_norm:
  "as_str (value_norm v) = as_str v" "as_bool (value_norm v) = as_bool v"
  "as_id (value_norm v) = as_id v" "as_bytes (value_norm v) = as_bytes v"
  "as_transform (value_norm v) = as_transform v" "as_color (value_norm v) = as_color v"
  "as_vec3 (value_norm v) = as_vec3 v" "as_f32 (value_norm v) = as_f32 v"
  "as_extent (value_norm v) = as_extent v"
  by (cases v; auto simp: value_norm_def as_f32_def id_is_zero_def Id_ZERO_def intro: Id.expand)+

text \<open>The properties after a change, as the constructors read them.\<close>

abbreviation changed_props :: "Key \<Rightarrow> Value \<Rightarrow> RemoteObject \<Rightarrow> RemoteObject" where
  "changed_props key v o1 \<equiv> o1\<lparr>ro_props := props_put key v (ro_props o1)\<rparr>"

lemma token_reload:
  "same_kind (snd (kind_update key v (KToken (token_new o1))))
     (keeps_old key (KToken (token_new o1)) (KToken (token_new (changed_props key v o1))))"
proof (cases "key \<in> {KEY_TRANSFORM, KEY_LOCKED, KEY_LOOK_AT, KEY_IMAGE_ID, KEY_COLOR, KEY_RADIUS, KEY_SPEED, KEY_MOVE_TARGET}")
  case True
  then show ?thesis
    by (elim insertE emptyE; cases "token_has_interpolation (token_new o1)")
      (simp_all add: same_kind_def same_token_def keeps_old_def kind_update_def token_update_def
        token_new_def token_has_interpolation_def Let_def props_get_put as_value_norm cong: if_cong split del: if_split)
next
  case False
  then have "\<forall>k\<in>{KEY_TRANSFORM, KEY_LOCKED, KEY_LOOK_AT, KEY_IMAGE_ID, KEY_COLOR, KEY_RADIUS, KEY_SPEED, KEY_MOVE_TARGET}. k \<noteq> key"
    by blast
  with False show ?thesis
    by (simp add: same_kind_def same_token_def keeps_old_def kind_update_def token_update_def
        token_new_def Let_def props_get_put)
qed


lemma static_reload:
  "same_kind (snd (kind_update key v (KStatic (static_new o1))))
     (keeps_old key (KStatic (static_new o1)) (KStatic (static_new (changed_props key v o1))))"
  if "key \<noteq> KEY_NAME" "key \<noteq> KEY_HIDDEN"
proof (cases "key \<in> {KEY_TRANSFORM, KEY_LOCKED, KEY_IMAGE_ID, KEY_COLOR, KEY_WIDTH, KEY_HEIGHT}")
  case True
  then show ?thesis
    by (elim insertE emptyE)
      (simp_all add: same_kind_def same_static_def keeps_old_def kind_update_def static_update_def
        static_new_def Let_def props_get_put as_value_norm cong: if_cong split del: if_split)
next
  case False
  then have "\<forall>k\<in>{KEY_TRANSFORM, KEY_LOCKED, KEY_IMAGE_ID, KEY_COLOR, KEY_WIDTH, KEY_HEIGHT}. k \<noteq> key"
    by blast
  with False that that [symmetric] show ?thesis
    by (simp add: same_kind_def same_static_def keeps_old_def kind_update_def static_update_def
        static_new_def Let_def props_get_put)
qed

lemma group_room_reload:
  "same_kind (snd (kind_update key v (KGroup (group_new o1)))) (KGroup (group_new (changed_props key v o1)))"
  "same_kind (snd (kind_update key v (KRoom (room_new o1)))) (KRoom (room_new (changed_props key v o1)))"
proof -
  show "same_kind (snd (kind_update key v (KGroup (group_new o1)))) (KGroup (group_new (changed_props key v o1)))"
    by (simp add: same_kind_def kind_update_def group_update_def group_new_def Let_def props_get_put
        as_value_norm)
  show "same_kind (snd (kind_update key v (KRoom (room_new o1)))) (KRoom (room_new (changed_props key v o1)))"
  proof (cases "key \<in> {KEY_ROOM_BACKGROUND, KEY_ROOM_EXTENT, KEY_SHOW_GRID, KEY_COLOR}")
    case True
    then show ?thesis
      by (elim insertE emptyE)
        (simp_all add: same_kind_def same_room_def kind_update_def room_update_def room_new_def Let_def
          props_get_put as_value_norm cong: if_cong split del: if_split)
  next
    case False
    then have "\<forall>k\<in>{KEY_ROOM_BACKGROUND, KEY_ROOM_EXTENT, KEY_SHOW_GRID, KEY_COLOR}. k \<noteq> key" by blast
    with False show ?thesis
      by (simp add: same_kind_def same_room_def kind_update_def room_update_def room_new_def Let_def props_get_put)
  qed
qed

text \<open>The keys that an object handles before its kind, of which the kind keeps its reading.\<close>

lemma object_key_reload:
  assumes "key \<in> object_keys" "kind_new o1 = Some kind" "kind_new (changed_props key v o1) = Some kind'"
  shows "same_kind kind (keeps_old key kind kind')"
  using assms
  by (elim insertE emptyE)
    (auto simp: kind_new_def same_kind_def same_token_def same_static_def same_room_def keeps_old_def
      token_new_def static_new_def group_new_def room_new_def Let_def props_get_put split: if_splits)

lemma kind_reload:
  assumes "key \<notin> object_keys" "kind_new o1 = Some kind" "kind_new (changed_props key v o1) = Some kind'"
  shows "same_kind (snd (kind_update key v kind)) (keeps_old key kind kind')"
  using assms(2)
proof (cases rule: kind_new_cases)
  case 1
  with assms(3) token_reload [of key v o1] show ?thesis by (auto simp: kind_new_def)
next
  case 2
  with assms(1,3) static_reload [of key v o1] show ?thesis by (auto simp: kind_new_def)
next
  case 3
  with assms(3) group_room_reload(1) [of key v o1] show ?thesis by (auto simp: kind_new_def keeps_old_def)
next
  case 4
  with assms(3) group_room_reload(2) [of key v o1] show ?thesis by (auto simp: kind_new_def keeps_old_def)
qed

text \<open>
  C13. Updating the browser's copy of an object is the same as loading it again with the changed
  property, in every field of the copy (up to what \<open>State\<close> takes for equal, such as the two
  zeros), but for what an update does not reach: a token that is moving keeps its place, and a
  static object keeps its second copies of its name and of being hidden. What is read of the two
  is the same for every key (except the place of a moving token), and an update that reports no
  change leaves the copy as it is.
\<close>

theorem update_is_reload:
  assumes "object_new p o1 = Some ob"
    and "object_new p (o1\<lparr>ro_props := props_put key v (ro_props o1)\<rparr>) = Some ob'"
  shows "same_copy (snd (ob_update key v ob))
      (ob'\<lparr>ob_kind := keeps_old key (ob_kind ob) (ob_kind ob')\<rparr>) \<and>
    (key = KEY_TRANSFORM \<and> object_has_interpolation ob \<or>
      same_reading (object_get (snd (ob_update key v ob)) k) (object_get ob' k)) \<and>
    (fst (ob_update key v ob) \<or> snd (ob_update key v ob) = ob)"
proof (intro conjI ob_update_idle)
  note kinds = object_new_kind [OF assms(1)] object_new_kind [OF assms(2)]
  note fields = object_new_fields [OF assms(1)] object_new_fields [OF assms(2)]
  show "same_copy (snd (ob_update key v ob)) (ob'\<lparr>ob_kind := keeps_old key (ob_kind ob) (ob_kind ob')\<rparr>)"
  proof (cases "key \<in> object_keys")
    case True
    with object_key_reload [OF True kinds] show ?thesis
      by (elim insertE emptyE)
        (simp_all add: same_copy_def ob_update_def split_beta update_str_eq fields props_get_put as_value_norm)
  next
    case False
    then have "\<forall>k\<in>object_keys. k \<noteq> key" by blast
    with False kind_reload [OF False kinds] show ?thesis
      by (simp add: same_copy_def ob_update_def split_beta fields props_get_put)
  qed
  show "key = KEY_TRANSFORM \<and> object_has_interpolation ob \<or>
      same_reading (object_get (snd (ob_update key v ob)) k) (object_get ob' k)"
  proof (cases "k = key")
    case True
    with ob_update_read [of key ob v] show ?thesis
      by (auto simp: object_read [OF assms(2)] object_new_ty [OF assms(1)] props_get_put read_value_norm)
  next
    case False
    then show ?thesis
      by (simp add: ob_update_other object_read [OF assms(1)] object_read [OF assms(2)] props_get_put)
  qed
qed

definition example_token :: RemoteObject where
  "example_token = \<lparr>ro_ty = TYPE_TOKEN, ro_id = Id_new 7,
     ro_props = [(KEY_NAME, VString ''ada''), (KEY_RADIUS, VFloat 0x3ff0000000000000)]\<rparr>"

theorem update_is_reload_witness:
  "same_reading
     (object_get (snd (ob_update KEY_NAME (VString []) (the (object_new PeerId_ZERO example_token))))
        KEY_NAME)
     (object_get (the (object_new PeerId_ZERO
        (example_token\<lparr>ro_props := props_put KEY_NAME (VString []) (ro_props example_token)\<rparr>))) KEY_NAME) \<and>
   object_new PeerId_ZERO example_token \<noteq> None"
proof -
  let ?o1 = "example_token\<lparr>ro_props := props_put KEY_NAME (VString []) (ro_props example_token)\<rparr>"
  have ty: "ro_ty example_token = TYPE_TOKEN" "ro_ty ?o1 = TYPE_TOKEN" by (simp_all add: example_token_def)
  obtain ob where ob: "object_new PeerId_ZERO example_token = Some ob"
    using object_new_total [of PeerId_ZERO example_token] ty by (cases "object_new PeerId_ZERO example_token") auto
  obtain ob' where ob': "object_new PeerId_ZERO ?o1 = Some ob'"
    using object_new_total [of PeerId_ZERO ?o1] ty by (cases "object_new PeerId_ZERO ?o1") auto
  from update_is_reload [OF ob ob', of KEY_NAME] show ?thesis by (simp add: ob ob' key_distinct)
qed

subsection \<open>Types\<close>

text \<open>The type of a value, in the terms of the table of keys.\<close>

fun value_ty :: "Value \<Rightarrow> ValueType option" where
  "value_ty (VBoolean _) = Some Ty_Boolean"
| "value_ty (VBytes _) = Some Ty_Bytes"
| "value_ty (VColor _) = Some Ty_Color"
| "value_ty VEmpty = None"
| "value_ty (VExtent _) = Some Ty_Extent"
| "value_ty (VFloat _) = Some Ty_Float"
| "value_ty (VId _) = Some Ty_Id"
| "value_ty (VInteger _) = Some Ty_Integer"
| "value_ty (VCanvas2 _) = Some Ty_Canvas2"
| "value_ty (VPeerId _) = Some Ty_PeerId"
| "value_ty (VStableId _) = Some Ty_StableId"
| "value_ty (VString _) = Some Ty_String"
| "value_ty (VTransform _) = Some Ty_Transform"
| "value_ty (VVec3 _) = Some Ty_Vec3"

definition value_fits :: "Key \<Rightarrow> Value \<Rightarrow> bool" where
  "value_fits key v \<longleftrightarrow> v = VEmpty \<or> key_ty key = value_ty v"

lemma value_fits_empty [simp]: "value_fits key VEmpty"
  by (simp add: value_fits_def)

lemma value_fits_from [simp]:
  "value_fits key (value_from_f32 x) = (key_ty key = Some Ty_Float)"
  "key_ty key = Some Ty_Id \<Longrightarrow> value_fits key (value_from_id i)"
  "key_ty key = Some Ty_Vec3 \<Longrightarrow> value_fits key (value_from_option VVec3 x3)"
  "key_ty key = Some Ty_Color \<Longrightarrow> value_fits key (value_from_option VColor c)"
  by (auto simp: value_fits_def value_from_f32_def value_from_id_def value_from_option_def
      split: option.splits)

lemma key_ty_table:
  "key_ty KEY_NAME = Some Ty_String" "key_ty KEY_HIDDEN = Some Ty_Boolean"
  "key_ty KEY_LOCAL_HIDDEN = Some Ty_Boolean" "key_ty KEY_GROUP = Some Ty_Id"
  "key_ty KEY_SORT = Some Ty_Bytes" "key_ty KEY_TRANSFORM = Some Ty_Transform"
  "key_ty KEY_LOCKED = Some Ty_Boolean" "key_ty KEY_LOOK_AT = Some Ty_Vec3"
  "key_ty KEY_IMAGE_ID = Some Ty_Id" "key_ty KEY_COLOR = Some Ty_Color"
  "key_ty KEY_RADIUS = Some Ty_Float" "key_ty KEY_SPEED = Some Ty_Float"
  "key_ty KEY_MOVE_TARGET = Some Ty_Vec3" "key_ty KEY_WIDTH = Some Ty_Float"
  "key_ty KEY_HEIGHT = Some Ty_Float" "key_ty KEY_EXPANDED = Some Ty_Boolean"
  "key_ty KEY_ROOM_BACKGROUND = Some Ty_Id" "key_ty KEY_ROOM_EXTENT = Some Ty_Extent"
  "key_ty KEY_SHOW_GRID = Some Ty_Boolean" "key_ty KEY_ZOOM = Some Ty_Float"
  "key_ty KEY_PAN = Some Ty_Vec3" "key_ty KEY_MUMBLE_OBJECT = Some Ty_Id"
  "key_ty KEY_MUMBLE_FOLLOW = Some Ty_Boolean" "key_ty KEY_ROOM = Some Ty_StableId"
  "key_ty KEY_PEER_NAME = Some Ty_String" "key_ty KEY_SELECTED = Some Ty_StableId"
  by (simp_all add: key_ty_def key_types_def)

lemma kind_get_fits:
  "value_fits key (token_get t key)" "value_fits key (static_get s key)"
  "value_fits key (group_get g key)" "value_fits key (room_get r key)"
  by (simp_all add: token_get_def static_get_def group_get_def room_get_def key_ty_table)
    (simp_all add: value_fits_def key_ty_table)

lemma object_get_fits: "value_fits key (object_get ob key)"
proof (cases "key \<in> object_keys")
  case True
  then show ?thesis
    by (elim insertE emptyE) (simp_all add: object_get_def key_ty_table, simp_all add: value_fits_def key_ty_table)
next
  case False
  then show ?thesis by (cases "ob_kind ob") (simp_all add: object_get_def kind_get_def kind_get_fits)
qed

end
