(* ===== verification/UiGroups.thy ===== *)
theory UiGroups
  imports UiObjects
begin

section \<open>Groups of objects: \<^verbatim>\<open>ObjectsRef\<close> of \<^verbatim>\<open>crates/web/src/objects.rs\<close>\<close>

text \<open>
  The table of objects and the two loops that follow the groups of an object upwards. Nothing in
  the table prevents a cycle of groups, on which the loops do not end: they are
  \<open>partial_function (option)\<close>, and \<open>visibility_spec\<close> says when they return and what.
\<close>

subsection \<open>The table\<close>

type_synonym Objects = "(RemoteId, Object) hashmap"

definition objects_clear :: "Objects \<Rightarrow> Objects" where
  "objects_clear os = []"

definition objects_get :: "RemoteId \<Rightarrow> Objects \<Rightarrow> Object option" where
  "objects_get i os = hm_get os i"

definition objects_is_interactive :: "RemoteId \<Rightarrow> Objects \<Rightarrow> bool" where
  "objects_is_interactive i os =
     (case hm_get os i of None \<Rightarrow> False | Some ob \<Rightarrow> object_is_interactive ob)"

definition objects_retain :: "(RemoteId \<Rightarrow> bool \<Rightarrow> bool) \<Rightarrow> Objects \<Rightarrow> Objects" where
  "objects_retain f os = hm_retain (\<lambda>i ob. f i (object_is_global ob)) os"

definition objects_remove :: "RemoteId \<Rightarrow> Objects \<Rightarrow> Object option \<times> Objects" where
  "objects_remove i os = (hm_get os i, hm_remove i os)"

definition objects_insert :: "Object \<Rightarrow> Objects \<Rightarrow> Object option \<times> Objects" where
  "objects_insert ob os = (hm_get os (ob_id ob), hm_insert (ob_id ob) ob os)"

text \<open>\<open>get_mut\<close> is the update made through its reference.\<close>

definition objects_put :: "RemoteId \<Rightarrow> Object \<Rightarrow> Objects \<Rightarrow> Objects" where
  "objects_put i ob os = hm_insert i ob os"

definition objects_from_iter :: "Object list \<Rightarrow> Objects" where
  "objects_from_iter obs = put_all hm_insert (map (\<lambda>ob. (ob_id ob, ob)) obs) []"

subsection \<open>Visibility\<close>

datatype Visibility = Vis_Remote | Vis_Local | Vis_None

fun vis_rank :: "Visibility \<Rightarrow> nat" where
  "vis_rank Vis_Remote = 0"
| "vis_rank Vis_Local = 1"
| "vis_rank Vis_None = 2"

lemma vis_rank_inject: "vis_rank a = vis_rank b \<Longrightarrow> a = b"
  by (cases a; cases b) simp_all

instantiation Visibility :: linorder
begin
definition less_eq_Visibility :: "Visibility \<Rightarrow> Visibility \<Rightarrow> bool" where
  "less_eq_Visibility a b \<longleftrightarrow> vis_rank a \<le> vis_rank b"
definition less_Visibility :: "Visibility \<Rightarrow> Visibility \<Rightarrow> bool" where
  "less_Visibility a b \<longleftrightarrow> vis_rank a < vis_rank b"
instance
  by standard (auto simp: less_eq_Visibility_def less_Visibility_def intro: vis_rank_inject)
end

definition object_visibility :: "Object \<Rightarrow> Visibility" where
  "object_visibility ob =
     (if ob_local_hidden ob then Vis_None
      else if ob_hidden ob then Vis_Local
      else Vis_Remote)"

partial_function (option) visibility_loop ::
    "Objects \<Rightarrow> Visibility \<Rightarrow> RemoteId \<Rightarrow> Visibility option" where
  "visibility_loop os hidden current =
     (if current = RemoteId_ZERO then Some hidden
      else case hm_get os current of
        None \<Rightarrow> Some hidden
      | Some ob \<Rightarrow> visibility_loop os (max hidden (object_visibility ob)) (ob_group ob))"

definition visibility :: "Objects \<Rightarrow> RemoteId \<Rightarrow> Visibility option" where
  "visibility os i = visibility_loop os Vis_Remote i"

partial_function (option) objects_is_locked :: "Objects \<Rightarrow> RemoteId \<Rightarrow> bool option" where
  "objects_is_locked os current =
     (if current = RemoteId_ZERO then Some False
      else case hm_get os current of
        None \<Rightarrow> Some False
      | Some ob \<Rightarrow>
          if object_is_locked ob then Some True
          else objects_is_locked os (ob_group ob))"

subsection \<open>What the loops compute\<close>

text \<open>The objects on the way up, within a number of steps.\<close>

fun group_walk :: "nat \<Rightarrow> Objects \<Rightarrow> RemoteId \<Rightarrow> Object list option" where
  "group_walk 0 os i = None"
| "group_walk (Suc n) os i =
     (if i = RemoteId_ZERO then Some []
      else case hm_get os i of
        None \<Rightarrow> Some []
      | Some ob \<Rightarrow> map_option (Cons ob) (group_walk n os (ob_group ob)))"

lemma group_walk_SucE:
  assumes "group_walk (Suc n) os i = Some obs"
  obtains "obs = []" "i = RemoteId_ZERO \<or> hm_get os i = None"
  | ob rest where "obs = ob # rest" "i \<noteq> RemoteId_ZERO" "hm_get os i = Some ob"
      "group_walk n os (ob_group ob) = Some rest"
  using assms by (auto split: option.splits if_splits)

lemma group_walk_more: "group_walk n os i = Some obs \<Longrightarrow> n \<le> m \<Longrightarrow> group_walk m os i = Some obs"
proof (induction n arbitrary: m i obs)
  case (Suc n)
  obtain k where m: "m = Suc k" "n \<le> k" using Suc.prems(2) by (cases m) auto
  from Suc.prems(1) show ?case
    by (cases rule: group_walk_SucE) (auto simp: m(1) Suc.IH [OF _ m(2)])
qed simp

lemma group_walk_unique:
  "group_walk n os i = Some xs \<Longrightarrow> group_walk m os i = Some ys \<Longrightarrow> xs = ys"
  using group_walk_more [of n os i xs "max n m"] group_walk_more [of m os i ys "max n m"] by simp

lemma group_walk_length: "group_walk n os i = Some obs \<Longrightarrow> length obs < n"
  by (induction n arbitrary: i obs) (auto split: option.splits if_splits)

lemma group_walk_exact:
  "group_walk n os i = Some obs \<Longrightarrow> group_walk (Suc (length obs)) os i = Some obs"
  by (induction n arbitrary: i obs) (auto split: option.splits if_splits)

text \<open>The identifiers on the way up, which do not repeat when the way ends.\<close>

fun walk_ids :: "RemoteId \<Rightarrow> Object list \<Rightarrow> RemoteId list" where
  "walk_ids i [] = []"
| "walk_ids i (ob # obs) = i # walk_ids (ob_group ob) obs"

lemma length_walk_ids [simp]: "length (walk_ids i obs) = length obs"
  by (induction obs arbitrary: i) simp_all

lemma walk_ids_keys: "group_walk n os i = Some obs \<Longrightarrow> set (walk_ids i obs) \<subseteq> set (hm_keys os)"
proof (induction n arbitrary: i obs)
  case (Suc n)
  from Suc.prems show ?case
    by (cases rule: group_walk_SucE) (use Suc.IH hm_keys_iff [of i os] in auto)
qed simp

lemma walk_ids_suffix:
  "group_walk n os i = Some obs \<Longrightarrow> j \<in> set (walk_ids i obs) \<Longrightarrow>
     \<exists>ys m. group_walk m os j = Some ys \<and> length ys \<le> length obs"
proof (induction n arbitrary: i obs)
  case (Suc n)
  show ?case
  proof (cases "j = i")
    case True
    with Suc.prems(1) show ?thesis by blast
  next
    case False
    with Suc show ?thesis by (fastforce split: option.splits if_splits)
  qed
qed simp

lemma distinct_walk_ids: "group_walk n os i = Some obs \<Longrightarrow> distinct (walk_ids i obs)"
proof (induction n arbitrary: i obs)
  case (Suc n)
  show ?case
  proof (cases obs)
    case (Cons ob rest)
    with Suc.prems have rest: "group_walk n os (ob_group ob) = Some rest"
      by (auto split: option.splits if_splits)
    have "i \<notin> set (walk_ids (ob_group ob) rest)"
    proof
      assume "i \<in> set (walk_ids (ob_group ob) rest)"
      from walk_ids_suffix [OF rest this] group_walk_unique [OF Suc.prems] Cons show False
        by fastforce
    qed
    with Suc.IH [OF rest] Cons show ?thesis by simp
  qed simp
qed simp

lemma group_walk_bound:
  assumes "group_walk n os i = Some obs"
  shows "group_walk (length os + 1) os i = Some obs"
proof -
  have "length obs = card (set (walk_ids i obs))"
    using distinct_card [OF distinct_walk_ids [OF assms]] by simp
  also have "\<dots> \<le> card (set (hm_keys os))" by (intro card_mono walk_ids_keys [OF assms]) simp
  also have "\<dots> \<le> length os" using card_length [of "hm_keys os"] by (simp add: hm_keys_def)
  finally show ?thesis by (intro group_walk_more [OF group_walk_exact [OF assms]]) simp
qed

lemma visibility_loop_walk:
  "group_walk n os i = Some obs \<Longrightarrow>
     visibility_loop os h i = Some (fold (\<lambda>ob h. max h (object_visibility ob)) obs h)"
proof (induction n arbitrary: i obs h)
  case (Suc n)
  then show ?case by (subst visibility_loop.simps) (auto split: option.splits if_splits)
qed simp

lemma visibility_loop_ends:
  assumes "visibility_loop os h i = Some v"
  shows "\<exists>n obs. group_walk n os i = Some obs"
proof (rule visibility_loop.raw_induct [where P = "\<lambda>os h i v. \<exists>n obs. group_walk n os i = Some obs", OF _ assms])
  fix loop os h i v
  assume 1: "\<And>os h i v. loop os h i = Some v \<Longrightarrow> \<exists>n obs. group_walk n os i = Some obs"
    "(if i = RemoteId_ZERO then Some h
      else case hm_get os i of
        None \<Rightarrow> Some h
      | Some ob \<Rightarrow> loop os (max h (object_visibility ob)) (ob_group ob)) = Some v"
  show "\<exists>n obs. group_walk n os i = Some obs"
  proof (cases "i = RemoteId_ZERO \<or> hm_get os i = None")
    case True
    then have "group_walk 1 os i = Some []" by auto
    then show ?thesis by blast
  next
    case False
    then obtain ob where ob: "hm_get os i = Some ob" by auto
    with 1(2) False have "loop os (max h (object_visibility ob)) (ob_group ob) = Some v" by simp
    from 1(1) [OF this] obtain n obs where "group_walk n os (ob_group ob) = Some obs" by blast
    with ob False have "group_walk (Suc n) os i = Some (ob # obs)" by simp
    then show ?thesis by blast
  qed
qed

lemma objects_is_locked_walk:
  "group_walk n os i = Some obs \<Longrightarrow> objects_is_locked os i = Some (list_ex object_is_locked obs)"
proof (induction n arbitrary: i obs)
  case (Suc n)
  then show ?case by (subst objects_is_locked.simps) (auto split: option.splits if_splits)
qed simp

text \<open>
  The test for locks stops at the first locked object, so it is a walk in the table in which the
  way up ends there.
\<close>

definition cut_locked :: "Objects \<Rightarrow> Objects" where
  "cut_locked os =
     map (\<lambda>(i, ob). (i, if object_is_locked ob then ob\<lparr>ob_group := RemoteId_ZERO\<rparr> else ob)) os"

lemma hm_get_cut_locked:
  "hm_get (cut_locked os) i =
     map_option (\<lambda>ob. if object_is_locked ob then ob\<lparr>ob_group := RemoteId_ZERO\<rparr> else ob) (hm_get os i)"
  by (induction os) (auto simp: cut_locked_def hm_get_def)

lemma length_cut_locked [simp]: "length (cut_locked os) = length os"
  by (simp add: cut_locked_def)

lemma object_is_locked_moved [simp]: "object_is_locked (ob\<lparr>ob_group := g\<rparr>) = object_is_locked ob"
  by (simp add: object_is_locked_def)

lemma objects_is_locked_cut:
  "group_walk n (cut_locked os) i = Some obs \<Longrightarrow> objects_is_locked os i = Some (list_ex object_is_locked obs)"
proof (induction n arbitrary: i obs)
  case (Suc n)
  then show ?case
    by (subst objects_is_locked.simps)
      (cases n; auto simp: hm_get_cut_locked split: option.splits if_splits)
qed simp

lemma objects_is_locked_ends:
  assumes "objects_is_locked os i = Some v"
  shows "\<exists>n obs. group_walk n (cut_locked os) i = Some obs"
proof (rule objects_is_locked.raw_induct
    [where P = "\<lambda>os i v. \<exists>n obs. group_walk n (cut_locked os) i = Some obs", OF _ assms])
  fix loop os i v
  assume 1: "\<And>os i v. loop os i = Some v \<Longrightarrow> \<exists>n obs. group_walk n (cut_locked os) i = Some obs"
    "(if i = RemoteId_ZERO then Some False
      else case hm_get os i of
        None \<Rightarrow> Some False
      | Some ob \<Rightarrow> if object_is_locked ob then Some True else loop os (ob_group ob)) = Some v"
  show "\<exists>n obs. group_walk n (cut_locked os) i = Some obs"
  proof (cases "i = RemoteId_ZERO \<or> hm_get os i = None")
    case True
    then have "group_walk 1 (cut_locked os) i = Some []" by (auto simp: hm_get_cut_locked)
    then show ?thesis by blast
  next
    case False
    then obtain ob where ob: "hm_get os i = Some ob" by auto
    show ?thesis
    proof (cases "object_is_locked ob")
      case True
      with ob False have "group_walk (Suc (Suc 0)) (cut_locked os) i = Some [ob\<lparr>ob_group := RemoteId_ZERO\<rparr>]"
        by (simp add: hm_get_cut_locked)
      then show ?thesis by blast
    next
      case unlocked: False
      with 1(2) ob False have "loop os (ob_group ob) = Some v" by simp
      from 1(1) [OF this] obtain n obs where "group_walk n (cut_locked os) (ob_group ob) = Some obs" by blast
      with ob False unlocked have "group_walk (Suc n) (cut_locked os) i = Some (ob # obs)"
        by (simp add: hm_get_cut_locked)
      then show ?thesis by blast
    qed
  qed
qed

text \<open>
  C30. The visibility of a group is computed exactly when following the links upwards reaches the
  root or a missing object, which takes at most as many steps as there are objects; it is then
  the most hidden one on the way, and the test for locks says whether some object on the way is
  locked. When the links form a cycle the computation does not end. The test for locks ends in
  one more case, with the answer that there is a lock: when a locked object comes before the
  cycle is closed. It returns exactly when the way up ends once locked objects are taken for the
  top of it, again within as many steps as there are objects.
\<close>

theorem visibility_spec:
  "visibility os i =
     map_option (\<lambda>obs. fold (\<lambda>ob h. max h (object_visibility ob)) obs Vis_Remote)
       (group_walk (length os + 1) os i) \<and>
   (visibility os i = None \<or>
    objects_is_locked os i = map_option (list_ex object_is_locked) (group_walk (length os + 1) os i)) \<and>
   objects_is_locked os i =
     map_option (list_ex object_is_locked) (group_walk (length os + 1) (cut_locked os) i)"
proof -
  have locked: "objects_is_locked os i =
      map_option (list_ex object_is_locked) (group_walk (length os + 1) (cut_locked os) i)"
  proof (cases "objects_is_locked os i")
    case None
    then show ?thesis
      using objects_is_locked_cut [of "length os + 1" os i]
      by (cases "group_walk (length os + 1) (cut_locked os) i") auto
  next
    case (Some v)
    from objects_is_locked_ends [OF this] group_walk_bound [of _ "cut_locked os" i]
    obtain obs where w: "group_walk (length os + 1) (cut_locked os) i = Some obs" by auto
    then show ?thesis by (simp only: objects_is_locked_cut [OF w] option.map)
  qed
  show ?thesis
  proof (cases "visibility os i")
    case None
    then have "group_walk (length os + 1) os i = None"
      using visibility_loop_walk [of "length os + 1" os i _ Vis_Remote]
      by (cases "group_walk (length os + 1) os i") (auto simp: visibility_def)
    with None locked show ?thesis by simp
  next
    case (Some v)
    then obtain n obs where "group_walk n os i = Some obs"
      using visibility_loop_ends unfolding visibility_def by blast
    from group_walk_bound [OF this] have w: "group_walk (length os + 1) os i = Some obs" .
    show ?thesis
      using locked by (simp only: w visibility_def visibility_loop_walk [OF w]
          objects_is_locked_walk [OF w] option.map simp_thms)
  qed
qed

end
