(* ===== verification/UiOrder.thy ===== *)
theory UiOrder
  imports UiGroups
begin

section \<open>The order of objects: \<^verbatim>\<open>crates/web/src/order.rs\<close>\<close>

text \<open>
  Every object that is not global is kept under its group, sorted by its sort key and then its
  identifier; \<open>walk\<close> visits them. A \<open>BTreeSet\<close> is a sorted list, its iterator the rest of it.
  \<open>Order\<close> itself only shares this data between components and counts versions.
\<close>

subsection \<open>Data\<close>

datatype SortKey = SortKey_new (sk_sort: bytes) (sk_id: RemoteId)

instantiation SortKey :: linorder
begin
definition less_eq_SortKey :: "SortKey \<Rightarrow> SortKey \<Rightarrow> bool" where
  "less_eq_SortKey a b \<longleftrightarrow>
     sk_sort a < sk_sort b \<or> sk_sort a = sk_sort b \<and> sk_id a \<le> sk_id b"
definition less_SortKey :: "SortKey \<Rightarrow> SortKey \<Rightarrow> bool" where
  "less_SortKey a b \<longleftrightarrow>
     sk_sort a < sk_sort b \<or> sk_sort a = sk_sort b \<and> sk_id a < sk_id b"
instance
  by standard (auto simp: less_eq_SortKey_def less_SortKey_def intro: SortKey.expand)
end

record ObjectData =
  od_group :: RemoteId
  od_sort :: bytes

type_synonym Children = "(RemoteId, SortKey list) hashmap"

record OrderRef =
  or_objects :: "(RemoteId, ObjectData) hashmap"
  or_children :: Children

definition order_default :: OrderRef where
  "order_default = \<lparr>or_objects = [], or_children = []\<rparr>"

definition as_group :: "RemoteId \<Rightarrow> RemoteId" where
  "as_group i = (if id_is_zero (rid_id i) then RemoteId_ZERO else i)"

definition children_of :: "Children \<Rightarrow> RemoteId \<Rightarrow> SortKey list" where
  "children_of ch g = (case hm_get ch g of None \<Rightarrow> [] | Some ks \<Rightarrow> ks)"

text \<open>\<open>entry(group).or_default().insert(key)\<close>.\<close>

definition entry_insert :: "RemoteId \<Rightarrow> SortKey \<Rightarrow> Children \<Rightarrow> bool \<times> Children" where
  "entry_insert g key ch =
     (let ks = children_of ch g in (key \<notin> set ks, hm_insert g (bs_insert key ks) ch))"

definition data_insert :: "Object \<Rightarrow> Children \<Rightarrow> bool \<times> Children" where
  "data_insert ob ch =
     entry_insert (as_group (ob_group ob)) (SortKey_new (ob_sort ob) (ob_id ob)) ch"

definition data_remove :: "RemoteId \<Rightarrow> RemoteId \<Rightarrow> bytes \<Rightarrow> Children \<Rightarrow> bool \<times> Children" where
  "data_remove i g s ch =
     (let key = SortKey_new s i; g = as_group g
      in case hm_get ch g of
           None \<Rightarrow> (False, ch)
         | Some ks \<Rightarrow>
             if key \<notin> set ks then (False, ch)
             else if bs_remove key ks = [] then (True, hm_remove g ch)
             else (True, hm_insert g (bs_remove key ks) ch))"

definition data_reorder ::
    "RemoteId \<Rightarrow> RemoteId \<Rightarrow> bytes \<Rightarrow> RemoteId \<Rightarrow> bytes \<Rightarrow> Children \<Rightarrow> bool \<times> Children" where
  "data_reorder i old_group old_sort new_group new_sort ch =
     (case data_remove i old_group old_sort ch of
        (False, ch) \<Rightarrow> (False, ch)
      | (True, ch) \<Rightarrow> entry_insert (as_group new_group) (SortKey_new new_sort i) ch)"

subsection \<open>Operations\<close>

definition order_put :: "RemoteId \<Rightarrow> ObjectData \<Rightarrow> OrderRef \<Rightarrow> OrderRef" where
  "order_put i od ors = ors\<lparr>or_objects := hm_insert i od (or_objects ors)\<rparr>"

definition order_update :: "RemoteId \<Rightarrow> Key \<Rightarrow> Value \<Rightarrow> OrderRef \<Rightarrow> bool \<times> OrderRef" where
  "order_update i key v ors =
     (case hm_get (or_objects ors) i of
        None \<Rightarrow> (False, ors)
      | Some od \<Rightarrow>
          if key = KEY_SORT then
            (case state_replace (=) (as_bytes v) (od_sort od) of
               (None, _) \<Rightarrow> (False, ors)
             | (Some old, s) \<Rightarrow>
                 (let (b, ch) = data_reorder i (od_group od) old (od_group od) s (or_children ors)
                  in (b, (order_put i (od\<lparr>od_sort := s\<rparr>) ors)\<lparr>or_children := ch\<rparr>)))
          else if key = KEY_GROUP then
            (case state_replace (=) (RemoteId_new (rid_peer_id i) (as_id v)) (od_group od) of
               (None, _) \<Rightarrow> (False, ors)
             | (Some old, g) \<Rightarrow>
                 (let (b, ch) = data_reorder i old (od_sort od) g (od_sort od) (or_children ors)
                  in (b, (order_put i (od\<lparr>od_group := g\<rparr>) ors)\<lparr>or_children := ch\<rparr>)))
          else (False, ors))"

definition order_reorder :: "RemoteId \<Rightarrow> RemoteId \<Rightarrow> bytes \<Rightarrow> OrderRef \<Rightarrow> bool \<times> OrderRef" where
  "order_reorder i new_group new_sort ors =
     (case hm_get (or_objects ors) i of
        None \<Rightarrow> (False, ors)
      | Some od \<Rightarrow>
          (let (g, group') = state_replace (=) new_group (od_group od);
               (s, sort') = state_replace (=) new_sort (od_sort od);
               (b, ch) = data_reorder i (unwrap_or group' g) (unwrap_or sort' s) group' sort'
                           (or_children ors)
           in (b, (order_put i (od\<lparr>od_group := group', od_sort := sort'\<rparr>) ors)
                    \<lparr>or_children := ch\<rparr>)))"

definition order_is_empty :: "RemoteId \<Rightarrow> OrderRef \<Rightarrow> bool" where
  "order_is_empty g ors =
     (case hm_get (or_children ors) (as_group g) of None \<Rightarrow> True | Some ks \<Rightarrow> ks = [])"

definition order_child_count :: "RemoteId \<Rightarrow> OrderRef \<Rightarrow> nat" where
  "order_child_count g ors =
     (case hm_get (or_children ors) (as_group g) of None \<Rightarrow> 0 | Some ks \<Rightarrow> length ks)"

definition order_iter :: "RemoteId \<Rightarrow> OrderRef \<Rightarrow> RemoteId list" where
  "order_iter g ors = map sk_id (children_of (or_children ors) (as_group g))"

definition order_remove :: "RemoteId \<Rightarrow> OrderRef \<Rightarrow> bool \<times> OrderRef" where
  "order_remove i ors =
     (case hm_get (or_objects ors) i of
        None \<Rightarrow> (False, ors)
      | Some od \<Rightarrow>
          (let (b, ch) = data_remove i (od_group od) (od_sort od) (or_children ors)
           in (b, \<lparr>or_objects = hm_remove i (or_objects ors), or_children = ch\<rparr>)))"

definition order_insert :: "Object \<Rightarrow> OrderRef \<Rightarrow> bool \<times> OrderRef" where
  "order_insert ob ors =
     (if object_is_global ob then (False, ors)
      else
        (let (update, ch) = data_insert ob (or_children ors);
             od = \<lparr>od_group = ob_group ob, od_sort = ob_sort ob\<rparr>
         in (update \<or> hm_get (or_objects ors) (ob_id ob) = None,
             \<lparr>or_objects = hm_insert (ob_id ob) od (or_objects ors), or_children = ch\<rparr>)))"

definition order_extend :: "Object list \<Rightarrow> OrderRef \<Rightarrow> OrderRef" where
  "order_extend obs ors = fold (\<lambda>ob ors. snd (order_insert ob ors)) obs ors"

definition order_retain :: "(PeerId \<Rightarrow> bool) \<Rightarrow> OrderRef \<Rightarrow> OrderRef" where
  "order_retain f ors =
     (let keep = (\<lambda>ks. filter (\<lambda>k. f (rid_peer_id (sk_id k))) ks)
      in \<lparr>or_objects = hm_retain (\<lambda>i _. f (rid_peer_id i)) (or_objects ors),
          or_children =
            hm_map_values (\<lambda>_. keep)
              (hm_retain (\<lambda>g ks. f (rid_peer_id g) \<and> keep ks \<noteq> []) (or_children ors))\<rparr>)"

subsection \<open>Walks\<close>

text \<open>
  \<open>next\<close> and \<open>next_back\<close> differ in the end of the iterators they take from; the stack is a list
  with its last element first. A walk whose stack never empties does not return.
\<close>

definition iter_take :: "bool \<Rightarrow> 'a list \<Rightarrow> ('a \<times> 'a list) option" where
  "iter_take back xs =
     (if xs = [] then None else if back then Some (last xs, butlast xs) else Some (hd xs, tl xs))"

definition walk_push :: "Children \<Rightarrow> SortKey \<Rightarrow> SortKey list list \<Rightarrow> SortKey list list" where
  "walk_push ch node stack =
     (case hm_get ch (sk_id node) of None \<Rightarrow> stack | Some ks \<Rightarrow> ks # stack)"

partial_function (option) walk_turn ::
    "bool \<Rightarrow> Children \<Rightarrow> RemoteId list \<Rightarrow> SortKey list list \<Rightarrow>
      (RemoteId option \<times> RemoteId list \<times> SortKey list list) option" where
  "walk_turn back ch visited stack =
     (if stack = [] then Some (None, visited, [])
      else case iter_take back (hd stack) of
        None \<Rightarrow> walk_turn back ch visited (tl stack)
      | Some (node, iter) \<Rightarrow>
          if sk_id node \<in> set visited
          then walk_turn back ch visited (walk_push ch node (iter # tl stack))
          else Some (Some (sk_id node), sk_id node # visited,
                     walk_push ch node (iter # tl stack)))"

definition walk_next ::
    "Children \<Rightarrow> RemoteId list \<Rightarrow> SortKey list list \<Rightarrow>
      (RemoteId option \<times> RemoteId list \<times> SortKey list list) option" where
  "walk_next = walk_turn False"

definition walk_next_back ::
    "Children \<Rightarrow> RemoteId list \<Rightarrow> SortKey list list \<Rightarrow>
      (RemoteId option \<times> RemoteId list \<times> SortKey list list) option" where
  "walk_next_back = walk_turn True"

text \<open>A \<open>for\<close> loop over the rest of a walk, as the list of what it visits.\<close>

partial_function (option) walk_rest ::
    "(Children \<Rightarrow> RemoteId list \<Rightarrow> SortKey list list \<Rightarrow>
      (RemoteId option \<times> RemoteId list \<times> SortKey list list) option) \<Rightarrow>
     Children \<Rightarrow> RemoteId list \<Rightarrow> SortKey list list \<Rightarrow> RemoteId list option" where
  "walk_rest turn ch visited stack =
     (case turn ch visited stack of
        None \<Rightarrow> None
      | Some (None, _) \<Rightarrow> Some []
      | Some (Some i, visited, stack) \<Rightarrow>
          Option.bind (walk_rest turn ch visited stack) (\<lambda>ids. Some (i # ids)))"

definition walk_start :: "RemoteId \<Rightarrow> OrderRef \<Rightarrow> SortKey list list" where
  "walk_start i ors = (case hm_get (or_children ors) i of None \<Rightarrow> [] | Some ks \<Rightarrow> [ks])"

definition walk_from :: "RemoteId \<Rightarrow> OrderRef \<Rightarrow> RemoteId list option" where
  "walk_from i ors = walk_rest walk_next (or_children ors) [] (walk_start i ors)"

definition walk :: "OrderRef \<Rightarrow> RemoteId list option" where
  "walk ors = walk_from RemoteId_ZERO ors"

definition walk_rev :: "OrderRef \<Rightarrow> RemoteId list option" where
  "walk_rev ors = walk_rest walk_next_back (or_children ors) [] (walk_start RemoteId_ZERO ors)"

end
