(* ===== verification/UiOrderInv.thy ===== *)
theory UiOrderInv
  imports UiOrder
begin

section \<open>The order is consistent\<close>

text \<open>
  Every object of the order is filed exactly once, under its group and by its sort key, and
  nothing else is: shown for every operation, with the condition under which \<open>insert\<close> keeps it.
  The two tables are compared as sets of pairs of a group and a sort key.
\<close>

definition entries :: "Children \<Rightarrow> (RemoteId \<times> SortKey) set" where
  "entries ch = {(g, k). k \<in> set (children_of ch g)}"

definition filed :: "(RemoteId, ObjectData) hashmap \<Rightarrow> (RemoteId \<times> SortKey) set" where
  "filed obs = {(g, k). \<exists>od. hm_get obs (sk_id k) = Some od \<and> as_group (od_group od) = g \<and>
     od_sort od = sk_sort k}"

definition children_ok :: "Children \<Rightarrow> bool" where
  "children_ok ch \<longleftrightarrow>
     hm_wf ch \<and> (\<forall>g ks. hm_get ch g = Some ks \<longrightarrow> bs_wf ks \<and> ks \<noteq> [])"

definition data_ok :: "RemoteId \<Rightarrow> ObjectData \<Rightarrow> bool" where
  "data_ok i od \<longleftrightarrow>
     \<not> id_is_zero (rid_id i) \<and>
     (as_group (od_group od) = RemoteId_ZERO \<or> rid_peer_id (od_group od) = rid_peer_id i)"

definition order_ok :: "OrderRef \<Rightarrow> bool" where
  "order_ok ors \<longleftrightarrow>
     hm_wf (or_objects ors) \<and> children_ok (or_children ors) \<and>
     entries (or_children ors) = filed (or_objects ors) \<and>
     (\<forall>i od. hm_get (or_objects ors) i = Some od \<longrightarrow> data_ok i od)"

subsection \<open>The sets under the operations\<close>

lemma children_of_insert:
  "children_of (hm_insert g ks ch) g' = (if g' = g then ks else children_of ch g')"
  by (simp add: children_of_def hm_get_insert)

lemma children_of_remove:
  "children_of (hm_remove g ch) g' = (if g' = g then [] else children_of ch g')"
  by (simp add: children_of_def hm_get_remove)

lemma children_ok_wf: "children_ok ch \<Longrightarrow> bs_wf (children_of ch g)"
  by (auto simp: children_ok_def children_of_def split: option.split)

lemma children_ok_insert:
  "children_ok ch \<Longrightarrow> bs_wf ks \<Longrightarrow> ks \<noteq> [] \<Longrightarrow> children_ok (hm_insert g ks ch)"
  by (auto simp: children_ok_def hm_get_insert)

lemma children_ok_remove: "children_ok ch \<Longrightarrow> children_ok (hm_remove g ch)"
  by (auto simp: children_ok_def hm_get_remove)

lemma bs_insert_not_Nil: "bs_insert x xs \<noteq> []"
  by (metis set_bs_insert insert_not_empty list.set(1))

lemma entry_insert_ok:
  "children_ok ch \<Longrightarrow> children_ok (snd (entry_insert g k ch))"
  by (simp add: entry_insert_def Let_def children_ok_insert children_ok_wf bs_insert_not_Nil)

lemma entries_entry_insert: "entries (snd (entry_insert g k ch)) = insert (g, k) (entries ch)"
  by (auto simp: entries_def entry_insert_def Let_def children_of_insert split: if_splits)

lemma data_remove_ok: "children_ok ch \<Longrightarrow> children_ok (snd (data_remove i g s ch))"
  using children_ok_wf [of ch "as_group g"]
  by (auto simp: data_remove_def Let_def children_ok_remove children_of_def
      intro!: children_ok_insert split: option.splits)

lemma entries_data_remove:
  assumes "children_ok ch"
  shows "entries (snd (data_remove i g s ch)) = entries ch - {(as_group g, SortKey_new s i)}"
    and "fst (data_remove i g s ch) = ((as_group g, SortKey_new s i) \<in> entries ch)"
proof -
  have wf: "hm_get ch (as_group g) = Some ks \<Longrightarrow> bs_wf ks" for ks
    using assms by (simp add: children_ok_def)
  have nil: "hm_get ch (as_group g) = Some ks \<Longrightarrow> bs_remove k ks = [] \<Longrightarrow> k \<in> set ks \<Longrightarrow> set ks = {k}"
    for ks k using set_bs_remove [OF wf, of ks k] by auto
  show "entries (snd (data_remove i g s ch)) = entries ch - {(as_group g, SortKey_new s i)}"
    by (auto simp: entries_def data_remove_def Let_def children_of_insert children_of_remove
        set_bs_remove [OF wf] split: option.splits if_splits dest: nil)
      (auto simp: children_of_def dest: nil)
  show "fst (data_remove i g s ch) = ((as_group g, SortKey_new s i) \<in> entries ch)"
    by (auto simp: entries_def data_remove_def Let_def children_of_def split: option.splits)
qed

lemma filed_insert:
  "filed (hm_insert i od obs) =
     insert (as_group (od_group od), SortKey_new (od_sort od) i) {(g, k). (g, k) \<in> filed obs \<and> sk_id k \<noteq> i}"
  by (auto simp: filed_def hm_get_insert split: if_splits)

lemma filed_remove: "filed (hm_remove i obs) = {(g, k). (g, k) \<in> filed obs \<and> sk_id k \<noteq> i}"
  by (auto simp: filed_def hm_get_remove split: if_splits)

lemma filed_others:
  assumes "hm_get obs i = Some od"
  shows "{(g, k). (g, k) \<in> filed obs \<and> sk_id k \<noteq> i} =
    filed obs - {(as_group (od_group od), SortKey_new (od_sort od) i)}"
  using assms by (auto simp: filed_def intro: SortKey.expand)

lemma filed_absent: "hm_get obs i = None \<Longrightarrow> {(g, k). (g, k) \<in> filed obs \<and> sk_id k \<noteq> i} = filed obs"
  by (auto simp: filed_def)

subsection \<open>The operations keep the invariant\<close>

lemma order_ok_objects: "order_ok ors \<Longrightarrow> hm_get (or_objects ors) i = Some od \<Longrightarrow> data_ok i od"
  by (simp add: order_ok_def)

lemma order_ok_put:
  assumes "order_ok ors" "data_ok i od" "children_ok ch"
    and "entries ch = filed (hm_insert i od (or_objects ors))"
  shows "order_ok ((order_put i od ors)\<lparr>or_children := ch\<rparr>)"
  using assms by (auto simp: order_ok_def order_put_def hm_get_insert split: if_splits)

text \<open>The one way an object moves: out of its old place and into its new one.\<close>

lemma order_ok_move:
  assumes ok: "order_ok ors" and od: "hm_get (or_objects ors) i = Some od" and "data_ok i od'"
  shows "fst (data_reorder i (od_group od) (od_sort od) (od_group od') (od_sort od') (or_children ors)) =
      ((as_group (od_group od'), SortKey_new (od_sort od') i) \<notin> filed (or_objects ors) -
        {(as_group (od_group od), SortKey_new (od_sort od) i)})"
    and "order_ok ((order_put i od' ors)\<lparr>or_children :=
      snd (data_reorder i (od_group od) (od_sort od) (od_group od') (od_sort od') (or_children ors))\<rparr>)"
proof -
  let ?ch = "or_children ors"
  have c: "children_ok ?ch" "entries ?ch = filed (or_objects ors)" using ok by (simp_all add: order_ok_def)
  obtain ch where r: "data_remove i (od_group od) (od_sort od) ?ch = (True, ch)"
    using entries_data_remove(2) [OF c(1), of i "od_group od" "od_sort od"] c(2) od
    by (cases "data_remove i (od_group od) (od_sort od) ?ch") (auto simp: filed_def)
  have ch: "children_ok ch" "entries ch = filed (or_objects ors) - {(as_group (od_group od), SortKey_new (od_sort od) i)}"
    using data_remove_ok [OF c(1), of i "od_group od" "od_sort od"]
      entries_data_remove(1) [OF c(1), of i "od_group od" "od_sort od"] r c(2) by simp_all
  show "fst (data_reorder i (od_group od) (od_sort od) (od_group od') (od_sort od') ?ch) =
      ((as_group (od_group od'), SortKey_new (od_sort od') i) \<notin> filed (or_objects ors) -
        {(as_group (od_group od), SortKey_new (od_sort od) i)})"
    unfolding ch(2) [symmetric] by (simp add: data_reorder_def r entry_insert_def Let_def entries_def)
  show "order_ok ((order_put i od' ors)\<lparr>or_children :=
      snd (data_reorder i (od_group od) (od_sort od) (od_group od') (od_sort od') ?ch)\<rparr>)"
    by (intro order_ok_put ok assms(3))
      (simp_all add: data_reorder_def r entry_insert_ok ch entries_entry_insert filed_insert
        filed_others [OF od])
qed

lemma order_ok_update:
  assumes "order_ok ors"
  shows "order_ok (snd (order_update i key v ors))"
proof (cases "hm_get (or_objects ors) i")
  case None
  with assms show ?thesis by (simp add: order_update_def)
next
  case (Some od)
  have ok: "data_ok i od" using order_ok_objects [OF assms Some] .
  then have "data_ok i (od\<lparr>od_sort := as_bytes v\<rparr>)"
    and "data_ok i (od\<lparr>od_group := RemoteId_new (rid_peer_id i) (as_id v)\<rparr>)"
    by (simp_all add: data_ok_def)
  from this [THEN order_ok_move(2) [OF assms Some]] assms Some show ?thesis
    by (simp add: order_update_def state_replace_def split_beta)
qed

lemma order_ok_reorder:
  assumes "order_ok ors" "rid_peer_id g = rid_peer_id i \<or> as_group g = RemoteId_ZERO"
  shows "order_ok (snd (order_reorder i g s ors))"
proof (cases "hm_get (or_objects ors) i")
  case None
  with assms show ?thesis by (simp add: order_reorder_def)
next
  case (Some od)
  have "data_ok i (od\<lparr>od_group := g, od_sort := s\<rparr>)"
    using order_ok_objects [OF assms(1) Some] assms(2) by (auto simp: data_ok_def)
  from order_ok_move(2) [OF assms(1) Some this] Some show ?thesis
    by (cases "od_group od = g"; cases "od_sort od = s")
      (simp_all add: order_reorder_def state_replace_def unwrap_or_def split_beta)
qed

lemma order_ok_remove:
  assumes "order_ok ors"
  shows "order_ok (snd (order_remove i ors))"
proof (cases "hm_get (or_objects ors) i")
  case None
  with assms show ?thesis by (simp add: order_remove_def)
next
  case (Some od)
  with assms show ?thesis
    by (auto simp: order_remove_def split_beta order_ok_def data_remove_ok entries_data_remove
        filed_remove filed_others [OF Some] hm_get_remove split: if_splits)
qed

text \<open>
  An insertion is consistent when the object is new or filed where it is inserted; otherwise its
  old entry stays behind.
\<close>

definition insertable :: "Object \<Rightarrow> OrderRef \<Rightarrow> bool" where
  "insertable ob ors \<longleftrightarrow>
     data_ok (ob_id ob) \<lparr>od_group = ob_group ob, od_sort = ob_sort ob\<rparr> \<and>
     (case hm_get (or_objects ors) (ob_id ob) of
        None \<Rightarrow> True
      | Some od \<Rightarrow> as_group (od_group od) = as_group (ob_group ob) \<and> od_sort od = ob_sort ob)"

lemma order_ok_insert:
  assumes "order_ok ors" "insertable ob ors"
  shows "order_ok (snd (order_insert ob ors))"
proof (cases "object_is_global ob")
  case True
  with assms show ?thesis by (simp add: order_insert_def)
next
  case False
  let ?od = "\<lparr>od_group = ob_group ob, od_sort = ob_sort ob\<rparr>"
  let ?ch = "snd (data_insert ob (or_children ors))"
  have eq: "snd (order_insert ob ors) = (order_put (ob_id ob) ?od ors)\<lparr>or_children := ?ch\<rparr>"
    using False by (simp add: order_insert_def order_put_def split_beta)
  have ch: "children_ok ?ch" "entries ?ch = insert (as_group (ob_group ob), SortKey_new (ob_sort ob) (ob_id ob))
      (filed (or_objects ors))"
    using assms(1) by (simp_all add: data_insert_def entry_insert_ok entries_entry_insert order_ok_def)
  show ?thesis unfolding eq
  proof (rule order_ok_put [OF assms(1) _ ch(1)])
    show "data_ok (ob_id ob) ?od" using assms(2) by (simp add: insertable_def)
    show "entries ?ch = filed (hm_insert (ob_id ob) ?od (or_objects ors))"
    proof (cases "hm_get (or_objects ors) (ob_id ob)")
      case None
      then show ?thesis by (simp add: ch(2) filed_insert filed_absent)
    next
      case (Some od)
      with assms(2) have "as_group (od_group od) = as_group (ob_group ob)" "od_sort od = ob_sort ob"
        by (simp_all add: insertable_def)
      then show ?thesis by (simp add: ch(2) filed_insert filed_others [OF Some])
    qed
  qed
qed

lemma order_ok_default: "order_ok order_default"
  by (simp add: order_ok_def order_default_def children_ok_def entries_def children_of_def filed_def)

lemma children_of_retain:
  assumes "children_ok ch"
  shows "children_of (hm_map_values (\<lambda>_. keep) (hm_retain (\<lambda>g ks. p g \<and> keep ks \<noteq> []) ch)) g =
    (if p g \<and> hm_get ch g \<noteq> None then keep (children_of ch g) else [])"
proof -
  have "hm_wf ch" using assms by (simp add: children_ok_def)
  then show ?thesis
    by (auto simp: children_of_def hm_get_map_values hm_get_retain split: option.splits)
qed

lemma children_ok_retain:
  assumes "children_ok (or_children ors)"
  shows "children_ok (or_children (order_retain f ors))"
  using assms by (auto simp: children_ok_def order_retain_def Let_def hm_get_map_values hm_get_retain
      bs_wf_def sorted_wrt_filter split: option.splits if_splits)

lemma children_of_kept:
  assumes "children_ok (or_children ors)"
  shows "children_of (or_children (order_retain f ors)) g =
    (if f (rid_peer_id g) then filter (\<lambda>k. f (rid_peer_id (sk_id k))) (children_of (or_children ors) g)
     else [])"
  using children_of_retain [OF assms, of "\<lambda>ks. filter (\<lambda>k. f (rid_peer_id (sk_id k))) ks"
      "\<lambda>g. f (rid_peer_id g)" g]
  by (auto simp: order_retain_def Let_def children_of_def split: option.splits)

lemma order_ok_retain:
  assumes "order_ok ors" "f PeerId_ZERO"
  shows "order_ok (order_retain f ors)"
proof -
  let ?keep = "\<lambda>ks. filter (\<lambda>k. f (rid_peer_id (sk_id k))) ks"
  have c: "children_ok (or_children ors)" and wf: "hm_wf (or_objects ors)" "hm_wf (or_children ors)"
    and e: "entries (or_children ors) = filed (or_objects ors)"
    using assms(1) by (simp_all add: order_ok_def children_ok_def)
  note ok = children_ok_retain [OF c, of f]
  have kept: "children_of (or_children (order_retain f ors)) g =
      (if f (rid_peer_id g) then ?keep (children_of (or_children ors) g) else [])" for g
    by (rule children_of_kept [OF c])
  have peer: "f (rid_peer_id g)" if "(g, k) \<in> filed (or_objects ors)" "f (rid_peer_id (sk_id k))" for g k
  proof -
    from that(1) obtain od where od: "hm_get (or_objects ors) (sk_id k) = Some od" "as_group (od_group od) = g"
      by (auto simp: filed_def)
    have "data_ok (sk_id k) od" using order_ok_objects [OF assms(1) od(1)] .
    then show ?thesis using od(2) that(2) assms(2)
      by (auto simp: data_ok_def as_group_def RemoteId_ZERO_def split: if_splits)
  qed
  have "entries (or_children (order_retain f ors)) =
      {(g, k). (g, k) \<in> entries (or_children ors) \<and> f (rid_peer_id g) \<and> f (rid_peer_id (sk_id k))}"
    by (auto simp: entries_def kept)
  also have "\<dots> = {(g, k). (g, k) \<in> filed (or_objects ors) \<and> f (rid_peer_id (sk_id k))}"
    unfolding e using peer by auto
  also have "\<dots> = filed (or_objects (order_retain f ors))"
    by (auto simp: filed_def order_retain_def Let_def hm_get_retain [OF wf(1)] split: option.splits if_splits)
  finally show ?thesis
    using ok assms(1) wf by (auto simp: order_ok_def order_retain_def Let_def hm_get_retain
        split: option.splits if_splits)
qed

end
