(* ===== verification/UiWalk.thy ===== *)
theory UiWalk
  imports UiOrderInv
begin

section \<open>Walks visit every object once\<close>

text \<open>
  A walk from the root is the pre-order of the tree of groups. \<open>tree\<close> is that order down to a
  depth; every object has one parent, so that what is reached from the root is a tree, no deeper
  than there are objects, and the walk returns. From an object on a cycle it does not.
\<close>

subsection \<open>Trees\<close>

fun tree :: "bool \<Rightarrow> nat \<Rightarrow> Children \<Rightarrow> RemoteId \<Rightarrow> RemoteId list" where
  "tree back 0 ch g = []"
| "tree back (Suc n) ch g =
     concat (map (\<lambda>k. sk_id k # tree back n ch (sk_id k))
       (if back then rev (children_of ch g) else children_of ch g))"

definition forest :: "bool \<Rightarrow> nat \<Rightarrow> Children \<Rightarrow> SortKey list \<Rightarrow> RemoteId list" where
  "forest back n ch ks =
     concat (map (\<lambda>k. sk_id k # tree back n ch (sk_id k)) (if back then rev ks else ks))"

lemma tree_forest: "tree back (Suc n) ch g = forest back n ch (children_of ch g)"
  by (simp add: forest_def)

lemma set_forest: "set (forest back n ch ks) = (\<Union>k\<in>set ks. insert (sk_id k) (set (tree back n ch (sk_id k))))"
  by (simp add: forest_def)

lemma forest_Nil [simp]: "forest back n ch [] = []"
  by (simp add: forest_def)

lemma forest_take:
  assumes "iter_take back ks = Some (k, ks')"
  shows "forest back n ch ks = sk_id k # tree back n ch (sk_id k) @ forest back n ch ks'"
    and "set ks = insert k (set ks')"
proof -
  have "(if back then rev ks else ks) = k # (if back then rev ks' else ks')"
    using assms by (cases ks rule: rev_cases; cases ks) (auto simp: iter_take_def split: if_splits)
  note eq = this
  then show "forest back n ch ks = sk_id k # tree back n ch (sk_id k) @ forest back n ch ks'"
    by (simp add: forest_def)
  have "set (if back then rev ks else ks) = insert k (set ks')" by (subst eq) simp
  then show "set ks = insert k (set ks')" by (simp split: if_splits)
qed

text \<open>Both directions visit the same objects; those without children in opposite orders.\<close>

lemma set_tree_back: "set (tree back n ch g) = set (tree False n ch g)"
  by (induction n arbitrary: g) simp_all

lemma leaf_tree: "children_of ch i = [] \<Longrightarrow> tree back n ch i = []"
  by (cases n) simp_all

lemma leaves_reversed:
  "filter (\<lambda>i. children_of ch i = []) (tree True n ch g) =
     rev (filter (\<lambda>i. children_of ch i = []) (tree False n ch g))"
proof (induction n arbitrary: g)
  case (Suc n)
  let ?leaf = "\<lambda>i. children_of ch i = []"
  have "filter ?leaf (sk_id k # tree True n ch (sk_id k)) =
      rev (filter ?leaf (sk_id k # tree False n ch (sk_id k)))" for k
    using Suc.IH [of "sk_id k"] by (simp add: leaf_tree)
  then show ?case
    by (simp add: filter_concat rev_concat rev_map o_def del: filter.simps)
qed simp

subsection \<open>Ways up to the root\<close>

inductive way :: "Children \<Rightarrow> RemoteId \<Rightarrow> RemoteId list \<Rightarrow> bool" for ch where
  way_root: "way ch RemoteId_ZERO []"
| way_step: "way ch g p \<Longrightarrow> k \<in> set (children_of ch g) \<Longrightarrow> way ch (sk_id k) (sk_id k # p)"

definition one_parent :: "Children \<Rightarrow> bool" where
  "one_parent ch \<longleftrightarrow>
     (\<forall>g h k l. k \<in> set (children_of ch g) \<and> l \<in> set (children_of ch h) \<and> sk_id k = sk_id l
        \<longrightarrow> g = h \<and> k = l) \<and>
     (\<forall>g k. k \<in> set (children_of ch g) \<longrightarrow> sk_id k \<noteq> RemoteId_ZERO)"

lemma one_parentD:
  "one_parent ch \<Longrightarrow> k \<in> set (children_of ch g) \<Longrightarrow> l \<in> set (children_of ch h) \<Longrightarrow>
     sk_id k = sk_id l \<Longrightarrow> g = h \<and> k = l"
  "one_parent ch \<Longrightarrow> k \<in> set (children_of ch g) \<Longrightarrow> sk_id k \<noteq> RemoteId_ZERO"
  unfolding one_parent_def by blast+

lemma order_one_parent:
  assumes "order_ok ors"
  shows "one_parent (or_children ors)"
proof -
  have e: "k \<in> set (children_of (or_children ors) g) \<longleftrightarrow> (g, k) \<in> filed (or_objects ors)" for g k
    using assms by (auto simp: order_ok_def entries_def)
  show ?thesis
    unfolding one_parent_def e
    using order_ok_objects [OF assms]
    by (fastforce simp: filed_def data_ok_def RemoteId_ZERO_def id_is_zero_def Id_ZERO_def
        intro: SortKey.expand)
qed

lemma way_unique: "way ch i p \<Longrightarrow> one_parent ch \<Longrightarrow> way ch i q \<Longrightarrow> p = q"
proof (induction arbitrary: q rule: way.induct)
  case way_root
  from way_root(2) show ?case
  proof (cases rule: way.cases)
    case (way_step h r l)
    with one_parentD(2) [OF way_root(1) way_step(4)] show ?thesis by simp
  qed simp
next
  case (way_step g p k)
  from way_step.prems(2) show ?case
  proof (cases rule: way.cases)
    case way_root
    with one_parentD(2) [OF way_step.prems(1) way_step.hyps(2)] show ?thesis by simp
  next
    case (way_step h r l)
    with one_parentD(1) [OF way_step.prems(1) way_step.hyps(2), of l h] way_step.IH way_step.prems(1)
    show ?thesis by auto
  qed
qed

lemma way_suffix: "way ch i p \<Longrightarrow> j \<in> set p \<Longrightarrow> \<exists>q. way ch j q \<and> length q \<le> length p"
proof (induction rule: way.induct)
  case (way_step g p k)
  then show ?case
  proof (cases "j = sk_id k")
    case True
    with way.way_step [OF way_step.hyps] show ?thesis by blast
  next
    case False
    with way_step show ?thesis by fastforce
  qed
qed simp

lemma distinct_way: "way ch i p \<Longrightarrow> one_parent ch \<Longrightarrow> distinct p"
proof (induction rule: way.induct)
  case (way_step g p k)
  have "sk_id k \<notin> set p"
  proof
    assume "sk_id k \<in> set p"
    with way_suffix [OF way_step.hyps(1)] obtain q where "way ch (sk_id k) q" "length q \<le> length p"
      by blast
    with way_unique [OF way.way_step [OF way_step.hyps] way_step.prems] show False by fastforce
  qed
  with way_step show ?case by simp
qed simp

lemma way_nodes: "way ch i p \<Longrightarrow> set p \<subseteq> {sk_id k | g k. k \<in> set (children_of ch g)}"
  by (induction rule: way.induct) auto

lemma order_way_bound:
  assumes "order_ok ors" "way (or_children ors) i p"
  shows "length p \<le> length (or_objects ors)"
proof -
  have "set p \<subseteq> set (hm_keys (or_objects ors))"
    using way_nodes [OF assms(2)] assms(1)
    by (fastforce simp: order_ok_def entries_def filed_def hm_keys_iff)
  then have "card (set p) \<le> card (set (hm_keys (or_objects ors)))" by (intro card_mono) simp_all
  also have "\<dots> \<le> length (or_objects ors)"
    using card_length [of "hm_keys (or_objects ors)"] by (simp add: hm_keys_def)
  finally show ?thesis
    using distinct_card [OF distinct_way [OF assms(2) order_one_parent [OF assms(1)]]] by simp
qed

lemma tree_way:
  "way ch g p \<Longrightarrow> x \<in> set (tree back n ch g) \<Longrightarrow>
     \<exists>k q. k \<in> set (children_of ch g) \<and> way ch x (q @ sk_id k # p)"
proof (induction n arbitrary: g p)
  case (Suc n)
  from Suc.prems(2) obtain k where k: "k \<in> set (children_of ch g)"
    "x = sk_id k \<or> x \<in> set (tree back n ch (sk_id k))" by (auto split: if_splits)
  note w = way_step [OF Suc.prems(1) k(1)]
  from k(2) show ?case
  proof
    assume "x = sk_id k"
    with w have "way ch x ([] @ sk_id k # p)" by simp
    with k(1) show ?thesis by blast
  next
    assume "x \<in> set (tree back n ch (sk_id k))"
    from Suc.IH [OF w this] obtain l q where "way ch x (q @ sk_id l # sk_id k # p)" by blast
    then have "way ch x ((q @ [sk_id l]) @ sk_id k # p)" by simp
    with k(1) show ?thesis by blast
  qed
qed simp

text \<open>What is below a child goes through that child.\<close>

lemma below_child:
  assumes "way ch g p" "k \<in> set (children_of ch g)" "x \<in> insert (sk_id k) (set (tree back n ch (sk_id k)))"
  obtains q where "way ch x (q @ sk_id k # p)"
proof (cases "x = sk_id k")
  case True
  with way_step [OF assms(1,2)] have "way ch x ([] @ sk_id k # p)" by simp
  then show thesis by (rule that)
next
  case False
  with assms(3) have "x \<in> set (tree back n ch (sk_id k))" by simp
  from tree_way [OF way_step [OF assms(1,2)] this] obtain l q where
    "way ch x (q @ sk_id l # sk_id k # p)" by blast
  then have "way ch x ((q @ [sk_id l]) @ sk_id k # p)" by simp
  then show thesis by (rule that)
qed

lemma distinct_tree:
  assumes one: "one_parent ch" and ok: "\<And>g. distinct (children_of ch g)"
  shows "way ch g p \<Longrightarrow> distinct (tree back n ch g)"
proof (induction n arbitrary: g p)
  case (Suc n)
  let ?f = "\<lambda>k. sk_id k # tree back n ch (sk_id k)"
  let ?ks = "if back then rev (children_of ch g) else children_of ch g"
  have dist: "distinct (?f k)" if "k \<in> set (children_of ch g)" for k
  proof -
    have "sk_id k \<notin> set (tree back n ch (sk_id k))"
    proof
      assume "sk_id k \<in> set (tree back n ch (sk_id k))"
      from tree_way [OF way_step [OF Suc.prems that] this] obtain l q where
        "way ch (sk_id k) (q @ sk_id l # sk_id k # p)" by blast
      from arg_cong [OF way_unique [OF this one way_step [OF Suc.prems that]], of length]
      show False by simp
    qed
    with Suc.IH [OF way_step [OF Suc.prems that]] show ?thesis by simp
  qed
  have disj: "set (?f k) \<inter> set (?f l) = {}"
    if "k \<in> set (children_of ch g)" "l \<in> set (children_of ch g)" "k \<noteq> l" for k l
  proof (rule ccontr)
    note kl = that(1,2)
    assume "set (?f k) \<inter> set (?f l) \<noteq> {}"
    then obtain x where x: "x \<in> insert (sk_id k) (set (tree back n ch (sk_id k)))"
      "x \<in> insert (sk_id l) (set (tree back n ch (sk_id l)))" by auto
    obtain q where q: "way ch x (q @ sk_id k # p)" using below_child [OF Suc.prems kl(1) x(1)] .
    obtain r where r: "way ch x (r @ sk_id l # p)" using below_child [OF Suc.prems kl(2) x(2)] .
    from way_unique [OF q one r] have "sk_id k = sk_id l" by simp
    with one_parentD(1) [OF one that(1,2)] that(3) show False by simp
  qed
  have "distinct (map ?f ?ks)"
    using ok [of g] one_parentD(1) [OF one, of _ g _ g] by (auto simp: distinct_map inj_on_def)
  then have "distinct (concat (map ?f ?ks))"
  proof (rule distinct_concat)
    show "distinct ys" if "ys \<in> set (map ?f ?ks)" for ys
      using that dist by (auto split: if_splits)
    show "set ys \<inter> set zs = {}"
      if "ys \<in> set (map ?f ?ks)" "zs \<in> set (map ?f ?ks)" "ys \<noteq> zs" for ys zs
    proof -
      from that(1,2) obtain k l where "ys = ?f k" "zs = ?f l"
        "k \<in> set (children_of ch g)" "l \<in> set (children_of ch g)" by (auto split: if_splits)
      with disj that(3) show ?thesis by blast
    qed
  qed
  then show ?case by simp
qed simp

lemma tree_stable:
  assumes bound: "\<And>i p. way ch i p \<Longrightarrow> length p \<le> N"
  shows "way ch g p \<Longrightarrow> N < n + length p \<Longrightarrow> tree back n ch g = tree back (Suc n) ch g"
proof (induction n arbitrary: g p)
  case 0
  with bound show ?case by fastforce
next
  case (Suc n)
  have "tree back n ch (sk_id k) = tree back (Suc n) ch (sk_id k)" if "k \<in> set (children_of ch g)" for k
    using Suc.IH [OF way_step [OF Suc.prems(1) that]] Suc.prems(2) by simp
  then show ?case
    unfolding tree.simps(2) [of "back" "Suc n"] tree.simps(2) [of "back" n ch g]
    by (intro arg_cong [where f = concat] map_cong refl) (simp split: if_splits)
qed

subsection \<open>The walk is the pre-order\<close>

lemma walk_turn_empty: "walk_turn back ch visited ([] # rest) = walk_turn back ch visited rest"
  by (subst walk_turn.simps) (simp add: iter_take_def)

lemma walk_rest_empty:
  "walk_rest (walk_turn back) ch visited ([] # rest) = walk_rest (walk_turn back) ch visited rest"
  by (subst (1 2) walk_rest.simps) (simp add: walk_turn_empty)

lemma walk_rest_node:
  assumes "iter_take back ks = Some (k, ks')" "sk_id k \<notin> set visited"
  shows "walk_rest (walk_turn back) ch visited (ks # rest) =
    map_option (Cons (sk_id k))
      (walk_rest (walk_turn back) ch (sk_id k # visited) (walk_push ch k (ks' # rest)))"
  by (subst walk_rest.simps, subst walk_turn.simps)
    (use assms in \<open>simp add: Option.map_conv_bind_option o_def\<close>)

lemma walk_rest_forest:
  assumes stable: "\<And>g p. way ch g p \<Longrightarrow> tree back n ch g = tree back (Suc n) ch g"
  shows "distinct (concat (map (forest back n ch) stack)) \<Longrightarrow>
    set (concat (map (forest back n ch) stack)) \<inter> set visited = {} \<Longrightarrow>
    (\<And>ks k. ks \<in> set stack \<Longrightarrow> k \<in> set ks \<Longrightarrow> \<exists>p. way ch (sk_id k) p) \<Longrightarrow>
    walk_rest (walk_turn back) ch visited stack = Some (concat (map (forest back n ch) stack))"
proof (induction "2 * length (concat (map (forest back n ch) stack)) + length stack"
    arbitrary: stack visited rule: less_induct)
  case (less stack visited)
  show ?case
  proof (cases stack)
    case Nil
    then show ?thesis by (subst walk_rest.simps, subst walk_turn.simps) simp
  next
    case (Cons ks rest)
    show ?thesis
    proof (cases "iter_take back ks")
      case None
      then have ks: "ks = []" by (simp add: iter_take_def split: if_splits)
      have "walk_rest (walk_turn back) ch visited rest = Some (concat (map (forest back n ch) rest))"
      proof (rule less.hyps)
        show "\<exists>p. way ch (sk_id k) p" if "ls \<in> set rest" "k \<in> set ls" for ls k
          using less.prems(3) [of ls k] that Cons by simp
      qed (use less.prems(1,2) Cons ks in auto)
      then show ?thesis by (simp add: Cons ks walk_rest_empty)
    next
      case (Some r)
      then obtain k ks' where take: "iter_take back ks = Some (k, ks')" by (cases r) auto
      note fk = forest_take [OF take]
      let ?stack = "walk_push ch k (ks' # rest)"
      obtain p where p: "way ch (sk_id k) p" using less.prems(3) Cons fk(2) by fastforce
      have below: "concat (map (forest back n ch) ?stack) =
          tree back n ch (sk_id k) @ forest back n ch ks' @ concat (map (forest back n ch) rest)"
        using stable [OF p, unfolded tree_forest]
        by (simp add: walk_push_def children_of_def split: option.splits)
      have all: "concat (map (forest back n ch) stack) =
          sk_id k # concat (map (forest back n ch) ?stack)"
        by (simp add: Cons fk(1) below)
      have len: "length ?stack \<le> Suc (length stack)"
        by (simp add: walk_push_def Cons split: option.splits)
      have "walk_rest (walk_turn back) ch (sk_id k # visited) ?stack =
          Some (concat (map (forest back n ch) ?stack))"
      proof (rule less.hyps)
        show "2 * length (concat (map (forest back n ch) ?stack)) + length ?stack <
            2 * length (concat (map (forest back n ch) stack)) + length stack"
          using len unfolding all by simp
        show "distinct (concat (map (forest back n ch) ?stack))"
          using less.prems(1) unfolding all by simp
        show "set (concat (map (forest back n ch) ?stack)) \<inter> set (sk_id k # visited) = {}"
          using less.prems(1,2) unfolding all by auto
        show "\<exists>p. way ch (sk_id l) p" if "ls \<in> set ?stack" "l \<in> set ls" for ls l
        proof (cases "ls \<in> set (ks' # rest)")
          case True
          with that(2) less.prems(3) [of _ l] Cons fk(2) show ?thesis by auto
        next
          case False
          with that have "l \<in> set (children_of ch (sk_id k))"
            by (auto simp: walk_push_def children_of_def split: option.splits)
          from way_step [OF p this] show ?thesis by blast
        qed
      qed
      moreover have "sk_id k \<notin> set visited" using less.prems(2) unfolding all by simp
      ultimately show ?thesis
        unfolding all unfolding Cons by (simp add: walk_rest_node [OF take])
    qed
  qed
qed

lemma tree_child:
  "x = g \<or> x \<in> set (tree back n ch g) \<Longrightarrow> k \<in> set (children_of ch x) \<Longrightarrow>
     sk_id k \<in> set (tree back (Suc n) ch g)"
proof (induction n arbitrary: g)
  case 0
  then show ?case by simp
next
  case (Suc n)
  show ?case
  proof (cases "x = g")
    case True
    with Suc.prems(2) show ?thesis unfolding tree_forest set_forest by blast
  next
    case False
    with Suc.prems(1) obtain l where l: "l \<in> set (children_of ch g)"
      "x = sk_id l \<or> x \<in> set (tree back n ch (sk_id l))" unfolding tree_forest set_forest by auto
    from Suc.IH [OF l(2) Suc.prems(2)] l(1) show ?thesis
      unfolding tree_forest [of _ "Suc n" _ g] set_forest by blast
  qed
qed

lemma walk_rest_tree:
  assumes ok: "order_ok ors"
  defines "n \<equiv> Suc (length (or_objects ors))"
  shows "walk_rest (walk_turn back) (or_children ors) [] (walk_start RemoteId_ZERO ors) =
    Some (tree back n (or_children ors) RemoteId_ZERO)"
    and "distinct (tree back n (or_children ors) RemoteId_ZERO)"
    and "set (tree back n (or_children ors) RemoteId_ZERO) =
      {i. i \<noteq> RemoteId_ZERO \<and> (\<exists>p. way (or_children ors) i p)}"
proof -
  let ?ch = "or_children ors"
  note one = order_one_parent [OF ok]
  have dc: "distinct (children_of ?ch g)" for g
    using children_ok_wf [of ?ch g] ok by (simp add: order_ok_def bs_wf_def)
  have stable: "tree back n ?ch g = tree back (Suc n) ?ch g" if "way ?ch g p" for g p
    by (rule tree_stable [OF order_way_bound [OF ok] that]) (simp_all add: n_def)
  show d: "distinct (tree back n ?ch RemoteId_ZERO)" by (rule distinct_tree [OF one dc way_root])
  have root: "concat (map (forest back n ?ch) (walk_start RemoteId_ZERO ors)) =
      tree back n ?ch RemoteId_ZERO"
    unfolding stable [OF way_root] tree_forest
    by (simp add: walk_start_def children_of_def split: option.split)
  show "walk_rest (walk_turn back) ?ch [] (walk_start RemoteId_ZERO ors) =
      Some (tree back n ?ch RemoteId_ZERO)"
    unfolding root [symmetric]
  proof (rule walk_rest_forest [OF stable])
    show "\<exists>p. way ?ch (sk_id k) p" if "ks \<in> set (walk_start RemoteId_ZERO ors)" "k \<in> set ks" for ks k
      using way_step [OF way_root, of k ?ch] that
      by (auto simp: walk_start_def children_of_def split: option.splits)
  qed (use d in \<open>simp_all add: root del: map_concat\<close>)
  have closed: "i = RemoteId_ZERO \<or> i \<in> set (tree back n ?ch RemoteId_ZERO)" if "way ?ch i p" for i p
    using that
  proof (induction rule: way.induct)
    case (way_step g p k)
    from tree_child [OF way_step.IH way_step.hyps(2)] show ?case
      unfolding stable [OF way_root, symmetric] ..
  qed simp
  have "i \<noteq> RemoteId_ZERO \<and> (\<exists>p. way ?ch i p)" if "i \<in> set (tree back n ?ch RemoteId_ZERO)" for i
  proof -
    from tree_way [OF way_root that] obtain k q where w: "way ?ch i (q @ [sk_id k])" by blast
    have "i \<noteq> RemoteId_ZERO"
    proof
      assume "i = RemoteId_ZERO"
      with way_unique [OF w one] way_root have "q @ [sk_id k] = []" by blast
      then show False by simp
    qed
    with w show ?thesis by blast
  qed
  with closed show "set (tree back n ?ch RemoteId_ZERO) =
      {i. i \<noteq> RemoteId_ZERO \<and> (\<exists>p. way ?ch i p)}" by blast
qed

lemma walk_trees:
  assumes "order_ok ors"
  shows "walk ors = Some (tree False (Suc (length (or_objects ors))) (or_children ors) RemoteId_ZERO)"
    and "walk_rev ors = Some (tree True (Suc (length (or_objects ors))) (or_children ors) RemoteId_ZERO)"
  using walk_rest_tree(1) [OF assms]
  by (simp_all add: walk_def walk_from_def walk_rev_def walk_next_def walk_next_back_def)

lemma order_child_as_group:
  assumes "order_ok ors" "i \<noteq> RemoteId_ZERO" "way (or_children ors) i p"
  shows "as_group i = i"
proof -
  from assms(2,3) obtain g k where "k \<in> set (children_of (or_children ors) g)" "i = sk_id k"
    by (auto elim: way.cases)
  then have "(g, k) \<in> filed (or_objects ors)" using assms(1) by (auto simp: order_ok_def entries_def)
  then obtain od where "hm_get (or_objects ors) i = Some od" using \<open>i = sk_id k\<close> by (auto simp: filed_def)
  from order_ok_objects [OF assms(1) this] show ?thesis by (simp add: data_ok_def as_group_def)
qed

lemma walk_leaves:
  assumes "order_ok ors" "walk ors = Some ids" "walk_rev ors = Some rids"
  shows "filter (\<lambda>i. order_iter i ors = []) rids = rev (filter (\<lambda>i. order_iter i ors = []) ids)"
proof -
  let ?tree = "\<lambda>back. tree back (Suc (length (or_objects ors))) (or_children ors) RemoteId_ZERO"
  have leaf: "filter (\<lambda>i. order_iter i ors = []) (?tree b) =
      filter (\<lambda>i. children_of (or_children ors) i = []) (?tree b)" for b
  proof (rule filter_cong [OF refl])
    fix i assume "i \<in> set (?tree b)"
    then obtain p where "i \<noteq> RemoteId_ZERO" "way (or_children ors) i p"
      unfolding walk_rest_tree(3) [OF assms(1)] by blast
    from order_child_as_group [OF assms(1) this]
    show "(order_iter i ors = []) = (children_of (or_children ors) i = [])"
      by (simp add: order_iter_def)
  qed
  have "ids = ?tree False" "rids = ?tree True"
    using assms(2,3) unfolding walk_trees [OF assms(1)] by (simp_all del: tree.simps)
  then show ?thesis using leaf leaves_reversed by (simp del: tree.simps)
qed

text \<open>
  C20. In a consistent order both directions of a walk return; each visits every object that is
  reached from the root through groups, exactly once, and nothing else. Objects without children
  are visited in opposite orders.
\<close>

theorem walk_visits:
  assumes "order_ok ors"
  shows "\<exists>ids rids. walk ors = Some ids \<and> walk_rev ors = Some rids \<and>
    distinct ids \<and> distinct rids \<and> set rids = set ids \<and>
    set ids = {i. i \<noteq> RemoteId_ZERO \<and> (\<exists>p. way (or_children ors) i p)} \<and>
    filter (\<lambda>i. order_iter i ors = []) rids = rev (filter (\<lambda>i. order_iter i ors = []) ids)"
proof (intro exI conjI)
  note [simp del] = tree.simps
  let ?tree = "\<lambda>back. tree back (Suc (length (or_objects ors))) (or_children ors) RemoteId_ZERO"
  show w: "walk ors = Some (?tree False)" "walk_rev ors = Some (?tree True)"
    using walk_trees [OF assms] by simp_all
  show "distinct (?tree False)" "distinct (?tree True)" "set (?tree True) = set (?tree False)"
    "set (?tree False) = {i. i \<noteq> RemoteId_ZERO \<and> (\<exists>p. way (or_children ors) i p)}"
    using walk_rest_tree(2,3) [OF assms] by simp_all
  show "filter (\<lambda>i. order_iter i ors = []) (?tree True) =
      rev (filter (\<lambda>i. order_iter i ors = []) (?tree False))"
    using walk_leaves [OF assms w] .
qed

text \<open>A group with a token in it, and a static object.\<close>

definition example_object :: "u32 \<Rightarrow> u32 \<Rightarrow> bytes \<Rightarrow> ObjectKind \<Rightarrow> Object" where
  "example_object i g s kind =
     \<lparr>ob_id = rid_local (Id_new i), ob_group = rid_local (Id_new g), ob_name = [], ob_hidden = False,
      ob_local_hidden = False, ob_sort = s, ob_kind = kind\<rparr>"

definition example_objects :: "Object list" where
  "example_objects =
     [example_object 1 0 [5] (KGroup (group_new example_token)),
      example_object 2 1 [7] (KToken (token_new example_token)),
      example_object 3 0 [4] (KStatic (static_new example_token))]"

definition example_order :: OrderRef where
  "example_order = order_extend example_objects order_default"

lemma example_order_eq:
  "example_order =
     \<lparr>or_objects = [(rid_local (Id_new 1), \<lparr>od_group = rid_local (Id_new 0), od_sort = [5]\<rparr>),
        (rid_local (Id_new 2), \<lparr>od_group = rid_local (Id_new 1), od_sort = [7]\<rparr>),
        (rid_local (Id_new 3), \<lparr>od_group = rid_local (Id_new 0), od_sort = [4]\<rparr>)],
      or_children = [(RemoteId_ZERO, [SortKey_new [4] (rid_local (Id_new 3)),
          SortKey_new [5] (rid_local (Id_new 1))]),
        (rid_local (Id_new 1), [SortKey_new [7] (rid_local (Id_new 2))])]\<rparr>"
  by (simp add: example_order_def example_objects_def example_object_def order_extend_def
      order_insert_def object_is_global_def data_insert_def entry_insert_def as_group_def
      rid_local_def id_is_zero_def children_of_def order_default_def hm_insert_def hm_get_def
      bs_insert_def insort_insert_key_def RemoteId_ZERO_def Id_ZERO_def less_eq_SortKey_def)

lemma example_order_ok: "order_ok example_order"
  unfolding example_order_def example_objects_def order_extend_def
  by (simp, intro order_ok_insert order_ok_default)
    (simp_all add: insertable_def data_ok_def order_default_def order_insert_def example_object_def
      object_is_global_def data_insert_def entry_insert_def as_group_def rid_local_def
      id_is_zero_def hm_get_insert split_beta)

theorem walk_visits_witness:
  "\<exists>ids rids. walk example_order = Some ids \<and> walk_rev example_order = Some rids \<and>
    distinct ids \<and> rid_local (Id_new 2) \<in> set ids \<and> set rids = set ids"
proof -
  have "way (or_children example_order) (rid_local (Id_new 1)) [rid_local (Id_new 1)]"
    using way_step [OF way_root, of "SortKey_new [5] (rid_local (Id_new 1))"]
    by (simp add: example_order_eq children_of_def hm_get_def)
  from way_step [OF this, of "SortKey_new [7] (rid_local (Id_new 2))"]
  have "\<exists>p. way (or_children example_order) (rid_local (Id_new 2)) p"
    by (auto simp: example_order_eq children_of_def hm_get_def rid_local_def RemoteId_ZERO_def Id_ZERO_def)
  with walk_visits [OF example_order_ok] show ?thesis
    by (fastforce simp: rid_local_def RemoteId_ZERO_def Id_ZERO_def)
qed

text \<open>
  What is drawn on top is what a click hits: drawing goes through \<open>walk().rev()\<close> and the
  search for a hit through \<open>walk()\<close>, so that the first object found, of those without children,
  is the one drawn last.
\<close>

theorem clicked_is_topmost:
  assumes "order_ok ors" "\<And>i. hit i \<Longrightarrow> order_iter i ors = []"
    and "walk ors = Some ids" "walk_rev ors = Some rids"
  shows "find hit ids = (if filter hit rids = [] then None else Some (last (filter hit rids)))"
proof -
  let ?leaf = "\<lambda>i. order_iter i ors = []"
  have leaves: "filter ?leaf rids = rev (filter ?leaf ids)"
    using walk_leaves [OF assms(1,3,4)] .
  have hits: "filter hit xs = filter hit (filter ?leaf xs)" for xs
    using assms(2) by (induction xs) auto
  have "filter hit rids = rev (filter hit ids)"
    using leaves by (subst (1 2) hits) (simp add: rev_filter [symmetric])
  moreover have "find hit ids = (if filter hit ids = [] then None else Some (hd (filter hit ids)))"
    by (induction ids) simp_all
  ultimately show ?thesis by (simp add: last_rev)
qed

theorem clicked_is_topmost_witness:
  "\<exists>ids rids. walk example_order = Some ids \<and> walk_rev example_order = Some rids \<and>
    (let hit = (\<lambda>i. i \<in> {rid_local (Id_new 2), rid_local (Id_new 3)}) in
     find hit ids = (if filter hit rids = [] then None else Some (last (filter hit rids))))"
proof -
  have leaf: "order_iter i example_order = []" if "i \<in> {rid_local (Id_new 2), rid_local (Id_new 3)}" for i
    using that by (auto simp: order_iter_def example_order_eq children_of_def hm_get_def as_group_def
        rid_local_def id_is_zero_def RemoteId_ZERO_def Id_ZERO_def)
  note w = walk_trees [OF example_order_ok]
  show ?thesis
    unfolding Let_def
    by (intro exI conjI, rule w(1), rule w(2), rule clicked_is_topmost [OF example_order_ok leaf w])
qed

end
