(* ===== verification/UiDrag.thy ===== *)
theory UiDrag
  imports UiWalk
begin

section \<open>Dropping an object: \<^verbatim>\<open>crates/web/src/drag_over.rs\<close>\<close>

text \<open>
  An object dropped above or below another gets a sort key between it and its neighbour, one
  dropped into a group a key after the last object of it. When the keys leave room for it, the
  object ends where it was dropped.
\<close>

datatype Drag = Above | Into | Below

record DragOver =
  dg_drag :: Drag
  dg_group :: RemoteId
  dg_target :: RemoteId

definition target_group :: "DragOver \<Rightarrow> RemoteId" where
  "target_group d = (if dg_drag d = Into then dg_target d else dg_group d)"

definition sort_at :: "Objects \<Rightarrow> RemoteId option \<Rightarrow> bytes option" where
  "sort_at os i = Option.bind i (\<lambda>i. map_option ob_sort (hm_get os i))"

definition drag_new_sort :: "DragOver \<Rightarrow> Objects \<Rightarrow> OrderRef \<Rightarrow> bytes option" where
  "drag_new_sort d os ors =
     (case hm_get os (dg_target d) of
        None \<Rightarrow> None
      | Some target \<Rightarrow>
          Some (case dg_drag d of
            Into \<Rightarrow>
              (let ids = order_iter (dg_target d) ors
               in case sort_at os (if ids = [] then None else Some (last ids)) of
                    Some s \<Rightarrow> after s
                  | None \<Rightarrow> id_to_vec (rid_id (ob_id target)))
          | Above \<Rightarrow>
              (case sort_at os (slice_get
                  (dropWhile (\<lambda>i. i \<noteq> dg_target d) (rev (order_iter (dg_group d) ors))) 1) of
                 Some prev \<Rightarrow> midpoint prev (ob_sort target)
               | None \<Rightarrow> before (ob_sort target))
          | Below \<Rightarrow>
              (case sort_at os (slice_get
                  (dropWhile (\<lambda>i. i \<noteq> dg_target d) (order_iter (dg_group d) ors)) 1) of
                 Some s \<Rightarrow> midpoint (ob_sort target) s
               | None \<Rightarrow> after (ob_sort target))))"

subsection \<open>Where it ends\<close>

lemma bs_insert_between:
  assumes "bs_wf (xs @ ys)" "\<And>x. x \<in> set xs \<Longrightarrow> x < n" "\<And>y. y \<in> set ys \<Longrightarrow> n < y"
  shows "bs_insert n (xs @ ys) = xs @ n # ys"
proof (rule bs_unique)
  show "bs_wf (bs_insert n (xs @ ys))" using assms(1) by simp
  show "bs_wf (xs @ n # ys)"
    using assms by (fastforce simp: bs_wf_def sorted_append less_imp_le)
qed simp

lemma order_iter_children: "order_ok ors \<Longrightarrow> bs_wf (children_of (or_children ors) g)"
  by (simp add: order_ok_def children_ok_wf)

lemma reorder_children:
  assumes ok: "order_ok ors" and od: "hm_get (or_objects ors) i = Some od"
    and peer: "rid_peer_id g = rid_peer_id i \<or> as_group g = RemoteId_ZERO"
  shows "children_of (or_children (snd (order_reorder i g s ors))) (as_group g) =
    bs_insert (SortKey_new s i) (filter (\<lambda>k. sk_id k \<noteq> i) (children_of (or_children ors) (as_group g)))"
proof (rule bs_unique)
  note ok' = order_ok_reorder [OF ok peer, of s]
  show "bs_wf (children_of (or_children (snd (order_reorder i g s ors))) (as_group g))"
    by (rule order_iter_children [OF ok'])
  show "bs_wf (bs_insert (SortKey_new s i)
      (filter (\<lambda>k. sk_id k \<noteq> i) (children_of (or_children ors) (as_group g))))"
    using order_iter_children [OF ok, of "as_group g"]
    by (intro bs_wf_insert) (simp add: bs_wf_def sorted_wrt_filter)
  have obs: "or_objects (snd (order_reorder i g s ors)) =
      hm_insert i (od\<lparr>od_group := g, od_sort := s\<rparr>) (or_objects ors)"
    using od by (simp add: order_reorder_def state_replace_def order_put_def split_beta)
  have e: "k \<in> set (children_of (or_children r) h) \<longleftrightarrow> (h, k) \<in> filed (or_objects r)"
    if "order_ok r" for r h k
    using that by (auto simp: order_ok_def entries_def)
  show "set (children_of (or_children (snd (order_reorder i g s ors))) (as_group g)) =
    set (bs_insert (SortKey_new s i)
      (filter (\<lambda>k. sk_id k \<noteq> i) (children_of (or_children ors) (as_group g))))"
    unfolding set_eq_iff e [OF ok'] obs filed_insert by (auto simp: e [OF ok])
qed

definition sorts_agree :: "Objects \<Rightarrow> OrderRef \<Rightarrow> bool" where
  "sorts_agree os ors \<longleftrightarrow>
     (\<forall>i od. hm_get (or_objects ors) i = Some od \<longrightarrow>
        (\<exists>ob. hm_get os i = Some ob \<and> ob_id ob = i \<and> ob_group ob = od_group od \<and>
          ob_sort ob = od_sort od))"

lemma sort_at_child:
  assumes "order_ok ors" "sorts_agree os ors" "k \<in> set (children_of (or_children ors) g)"
  shows "sort_at os (Some (sk_id k)) = Some (sk_sort k)"
    and "\<exists>ob. hm_get os (sk_id k) = Some ob \<and> ob_sort ob = sk_sort k"
proof -
  have "(g, k) \<in> filed (or_objects ors)" using assms(1,3) by (auto simp: order_ok_def entries_def)
  then show "\<exists>ob. hm_get os (sk_id k) = Some ob \<and> ob_sort ob = sk_sort k"
    using assms(2) by (fastforce simp: sorts_agree_def filed_def)
  then show "sort_at os (Some (sk_id k)) = Some (sk_sort k)" by (auto simp: sort_at_def)
qed

text \<open>Keys with room between them.\<close>

definition sort_room :: "bytes \<Rightarrow> bytes \<Rightarrow> bool" where
  "sort_room lo hi \<longleftrightarrow> lo < hi \<and> (length hi \<le> length lo \<or> 2 \<le> hi ! length lo)"

lemma sort_room_midpoint: "sort_room lo hi \<Longrightarrow> lo < midpoint lo hi \<and> midpoint lo hi < hi"
  using midpoint_spec by (simp add: sort_room_def)

lemma slice_get_neighbour:
  assumes "distinct (xs @ t # ys)"
  shows "slice_get (dropWhile (\<lambda>i. i \<noteq> t) (xs @ t # ys)) 1 = (if ys = [] then None else Some (hd ys))"
proof -
  have "dropWhile (\<lambda>i. i \<noteq> t) (xs @ t # ys) = t # ys"
    using assms by (subst dropWhile_append2) auto
  then show ?thesis by (cases ys) (simp_all add: slice_get_def)
qed

lemma slice_get_previous:
  assumes "distinct (xs @ t # ys)"
  shows "slice_get (dropWhile (\<lambda>i. i \<noteq> t) (rev (xs @ t # ys))) 1 =
    (if xs = [] then None else Some (last xs))"
  using slice_get_neighbour [of "rev ys" t "rev xs"] assms by (auto simp: hd_rev Int_commute)

lemma order_ids_distinct: "order_ok ors \<Longrightarrow> distinct (map sk_id (children_of (or_children ors) g))"
  using order_iter_children [of ors g] one_parentD(1) [OF order_one_parent, of ors _ g _ g]
  by (auto simp: distinct_map bs_wf_def inj_on_def)

text \<open>
  The keys leave room for the drop: before a first object whose key has a byte of at least 2,
  or between neighbours whose keys are apart. There is always room behind a last one.
\<close>

fun drop_room :: "Drag \<Rightarrow> Objects \<Rightarrow> RemoteId list \<Rightarrow> RemoteId \<Rightarrow> RemoteId list \<Rightarrow> bool" where
  "drop_room Into os xs t ys = True"
| "drop_room Above os xs t ys =
     (if xs = [] then \<exists>b\<in>set (the (sort_at os (Some t))). 2 \<le> b
      else sort_room (the (sort_at os (Some (last xs)))) (the (sort_at os (Some t))))"
| "drop_room Below os xs t ys =
     (ys = [] \<or> sort_room (the (sort_at os (Some t))) (the (sort_at os (Some (hd ys)))))"

text \<open>
  The order that the drop shows, from the objects before and behind the target, or those in it.
\<close>

fun dropped :: "Drag \<Rightarrow> RemoteId \<Rightarrow> RemoteId list \<Rightarrow> RemoteId \<Rightarrow> RemoteId list \<Rightarrow> RemoteId list" where
  "dropped Into i xs t ys = filter (\<lambda>j. j \<noteq> i) ys @ [i]"
| "dropped Above i xs t ys = filter (\<lambda>j. j \<noteq> i) xs @ i # t # filter (\<lambda>j. j \<noteq> i) ys"
| "dropped Below i xs t ys = filter (\<lambda>j. j \<noteq> i) xs @ t # i # filter (\<lambda>j. j \<noteq> i) ys"

lemma sk_less: "sk_sort a < s \<Longrightarrow> a < SortKey_new s i" "s < sk_sort a \<Longrightarrow> SortKey_new s i < a"
  by (simp_all add: less_SortKey_def)

lemma bs_wf_split:
  assumes "bs_wf (A @ k # B)"
  shows "a \<in> set A \<Longrightarrow> a < k" "b \<in> set B \<Longrightarrow> k < b"
  using assms by (auto simp: bs_wf_def sorted_append order.strict_iff_order)

lemma bs_wf_filter: "bs_wf xs \<Longrightarrow> bs_wf (filter p xs)"
  by (simp add: bs_wf_def sorted_wrt_filter)

lemma before_last:
  assumes "bs_wf (A @ B)" "A \<noteq> [] \<Longrightarrow> last A < n" "a \<in> set A"
  shows "a < n"
proof (cases A rule: rev_cases)
  case (snoc C x)
  have "bs_wf (C @ x # [])" using assms(1) snoc by (simp add: bs_wf_def sorted_append)
  from bs_wf_split(1) [OF this, of a] assms(2,3) snoc show ?thesis by auto
qed (use assms(3) in simp)

text \<open>A key below \<open>k\<close> and above everything before it, and the other way round.\<close>

lemma insert_above:
  assumes "bs_wf (A @ k # B)" "n < k" "A \<noteq> [] \<Longrightarrow> last A < n" "sk_id k \<noteq> i"
  shows "bs_insert n (filter (\<lambda>k. sk_id k \<noteq> i) (A @ k # B)) =
    filter (\<lambda>k. sk_id k \<noteq> i) A @ n # k # filter (\<lambda>k. sk_id k \<noteq> i) B"
proof -
  note before = before_last [OF assms(1,3)]
  have "bs_wf (filter (\<lambda>k. sk_id k \<noteq> i) (A @ k # B))" using bs_wf_filter [OF assms(1)] .
  with assms(4) have "bs_wf (filter (\<lambda>k. sk_id k \<noteq> i) A @ (k # filter (\<lambda>k. sk_id k \<noteq> i) B))" by simp
  from bs_insert_between [OF this, of n] before bs_wf_split(2) [OF assms(1)] assms(2,4)
  show ?thesis by (auto dest: less_trans [OF assms(2)])
qed

lemma insert_below:
  assumes "bs_wf (A @ k # B)" "k < n" "B \<noteq> [] \<Longrightarrow> n < hd B" "sk_id k \<noteq> i"
  shows "bs_insert n (filter (\<lambda>k. sk_id k \<noteq> i) (A @ k # B)) =
    filter (\<lambda>k. sk_id k \<noteq> i) A @ k # n # filter (\<lambda>k. sk_id k \<noteq> i) B"
proof -
  have behind: "n < b" if "b \<in> set B" for b
  proof (cases B)
    case (Cons c C)
    then have "bs_wf ((A @ [k]) @ c # C)" using assms(1) by simp
    from bs_wf_split(2) [OF this, of b] that Cons have "c < b \<or> c = b" by auto
    with assms(3) Cons show ?thesis by auto
  qed (use that in simp)
  have "bs_wf ((filter (\<lambda>k. sk_id k \<noteq> i) A @ [k]) @ filter (\<lambda>k. sk_id k \<noteq> i) B)"
    using bs_wf_filter [OF assms(1), of "\<lambda>k. sk_id k \<noteq> i"] assms(4) by simp
  from bs_insert_between [OF this, of n] behind bs_wf_split(1) [OF assms(1)] assms(2,4)
  show ?thesis by (auto dest: less_trans [OF _ assms(2)])
qed

lemma insert_last:
  assumes "bs_wf ks" "ks \<noteq> [] \<Longrightarrow> last ks < n"
  shows "bs_insert n (filter p ks) = filter p ks @ [n]"
proof -
  have "k < n" if k: "k \<in> set ks" for k
    using before_last [of ks "[]" n k] assms k by simp
  then show ?thesis
    using bs_insert_between [of "filter p ks" "[]" n] bs_wf_filter [OF assms(1), of p] by simp
qed

lemma map_eq_split:
  assumes "map f ks = xs @ t # ys"
  obtains A k B where "ks = A @ k # B" "map f A = xs" "f k = t" "map f B = ys"
  using assms by (auto simp: map_eq_append_conv map_eq_Cons_conv)

lemma map_filter_ids: "map sk_id (filter (\<lambda>k. sk_id k \<noteq> i) ks) = filter (\<lambda>j. j \<noteq> i) (map sk_id ks)"
  by (induction ks) simp_all

text \<open>
  C22. An object dropped above, below or into another ends exactly there in the order of the
  group, all others keeping their order, whenever the sort keys leave room for it: behind a last
  object and into a group always.
\<close>

theorem dropped_where_shown:
  assumes "order_ok ors" "sorts_agree os ors"
    and "hm_get (or_objects ors) i = Some od" "rid_is_local i" "rid_is_local (target_group d)"
    and "drag_new_sort d os ors = Some s" "dg_target d \<noteq> i"
    and "order_iter (target_group d) ors = (if dg_drag d = Into then ys else xs @ dg_target d # ys)"
    and "drop_room (dg_drag d) os xs (dg_target d) ys"
  shows "order_iter (target_group d) (snd (order_reorder i (target_group d) s ors)) =
    dropped (dg_drag d) i xs (dg_target d) ys"
proof -
  let ?ks = "children_of (or_children ors) (as_group (target_group d))"
  have "rid_peer_id (target_group d) = rid_peer_id i"
    using assms(4,5) by (auto simp: rid_is_local_def pid_is_zero_def intro: PeerId.expand)
  with reorder_children [OF assms(1,3), of "target_group d" s]
  have new: "order_iter (target_group d) (snd (order_reorder i (target_group d) s ors)) =
      map sk_id (bs_insert (SortKey_new s i) (filter (\<lambda>k. sk_id k \<noteq> i) ?ks))"
    by (simp add: order_iter_def)
  note wf = order_iter_children [OF assms(1), of "as_group (target_group d)"]
  note child = sort_at_child [OF assms(1,2), of _ "as_group (target_group d)"]
  obtain target where target: "hm_get os (dg_target d) = Some target"
    using assms(6) by (auto simp: drag_new_sort_def split: option.splits)
  show ?thesis
  proof (cases "dg_drag d = Into")
    case True
    have ys: "map sk_id ?ks = ys" using assms(8) True by (simp add: order_iter_def)
    have "last ?ks < SortKey_new s i" if "?ks \<noteq> []"
    proof -
      have "sort_at os (Some (last ys)) = Some (sk_sort (last ?ks))"
        using child(1) [of "last ?ks"] that by (simp add: ys [symmetric] last_map)
      moreover have "order_iter (dg_target d) ors = ys" "ys \<noteq> []"
        using True ys that assms(8) by (auto simp: target_group_def)
      ultimately have "s = after (sk_sort (last ?ks))"
        using assms(6) True target by (simp add: drag_new_sort_def Let_def)
      then show ?thesis using after_spec by (simp add: sk_less)
    qed
    from insert_last [OF wf this] True ys show ?thesis
      by (simp add: new map_filter_ids)
  next
    case False
    then have ids: "map sk_id ?ks = xs @ dg_target d # ys" using assms(8) by (simp add: order_iter_def)
    then obtain A k B where ks: "?ks = A @ k # B" "map sk_id A = xs" "sk_id k = dg_target d" "map sk_id B = ys"
      by (rule map_eq_split)
    have dist: "distinct (xs @ dg_target d # ys)"
      using order_ids_distinct [OF assms(1), of "as_group (target_group d)"] ids by simp
    have group: "order_iter (dg_group d) ors = xs @ dg_target d # ys"
      using assms(8) False by (simp add: target_group_def)
    have k: "sk_id k \<noteq> i" using ks(3) assms(7) by simp
    have tk: "sort_at os (Some (dg_target d)) = Some (sk_sort k)" "ob_sort target = sk_sort k"
      using child [of k] ks target by (auto simp: sort_at_def)
    show ?thesis
    proof (cases "dg_drag d")
      case Above
      have "s < sk_sort k \<and> (A \<noteq> [] \<longrightarrow> sk_sort (last A) < s)"
      proof (cases "A = []")
        case True
        then have "s = before (sk_sort k)"
          using assms(6) target Above slice_get_previous [OF dist] ks(2)
          by (simp add: drag_new_sort_def group tk sort_at_def del: rev_append)
        moreover have "\<exists>b\<in>set (sk_sort k). 2 \<le> b" using assms(9) Above True ks(2) tk by auto
        ultimately show ?thesis using before_spec [of "sk_sort k"] True by simp
      next
        case False
        have l: "sort_at os (Some (last xs)) = Some (sk_sort (last A))" "xs \<noteq> []"
          using child(1) [of "last A"] False ks(1,2) by (auto simp: last_map)
        then have "s = midpoint (sk_sort (last A)) (sk_sort k)"
          using assms(6) target Above slice_get_previous [OF dist]
          by (simp add: drag_new_sort_def group tk del: rev_append)
        with sort_room_midpoint [of "sk_sort (last A)" "sk_sort k"] assms(9) Above l tk show ?thesis by simp
      qed
      then have "bs_insert (SortKey_new s i) (filter (\<lambda>k. sk_id k \<noteq> i) ?ks) =
          filter (\<lambda>k. sk_id k \<noteq> i) A @ SortKey_new s i # k # filter (\<lambda>k. sk_id k \<noteq> i) B"
        using insert_above [of A k B "SortKey_new s i" i] wf k unfolding ks(1) by (simp add: sk_less)
      with Above ks show ?thesis by (simp add: new map_filter_ids)
    next
      case Below
      have "sk_sort k < s \<and> (B \<noteq> [] \<longrightarrow> s < sk_sort (hd B))"
      proof (cases "B = []")
        case True
        then have "s = after (sk_sort k)"
          using assms(6) target Below slice_get_neighbour [OF dist] ks(4)
          by (simp add: drag_new_sort_def group tk sort_at_def)
        then show ?thesis using after_spec [of "sk_sort k"] True by simp
      next
        case False
        have l: "sort_at os (Some (hd ys)) = Some (sk_sort (hd B))" "ys \<noteq> []"
          using child(1) [of "hd B"] False ks(1,4) by (auto simp: hd_map)
        then have "s = midpoint (sk_sort k) (sk_sort (hd B))"
          using assms(6) target Below slice_get_neighbour [OF dist]
          by (simp add: drag_new_sort_def group tk)
        with sort_room_midpoint [of "sk_sort k" "sk_sort (hd B)"] assms(9) Below l tk show ?thesis by simp
      qed
      then have "bs_insert (SortKey_new s i) (filter (\<lambda>k. sk_id k \<noteq> i) ?ks) =
          filter (\<lambda>k. sk_id k \<noteq> i) A @ k # SortKey_new s i # filter (\<lambda>k. sk_id k \<noteq> i) B"
        using insert_below [of A k B "SortKey_new s i" i] wf k unfolding ks(1) by (simp add: sk_less)
      with Below ks show ?thesis by (simp add: new map_filter_ids)
    qed (use False in simp)
  qed
qed

definition example_drag :: DragOver where
  "example_drag = \<lparr>dg_drag = Below, dg_group = RemoteId_ZERO, dg_target = rid_local (Id_new 1)\<rparr>"

lemma example_sorts_agree: "sorts_agree (objects_from_iter example_objects) example_order"
  by (auto simp: sorts_agree_def example_order_eq objects_from_iter_def example_objects_def
      example_object_def hm_get_def hm_insert_def rid_local_def split: if_splits)

theorem dropped_where_shown_witness:
  "order_iter RemoteId_ZERO example_order = [rid_local (Id_new 3), rid_local (Id_new 1)] \<and>
   order_iter RemoteId_ZERO (snd (order_reorder (rid_local (Id_new 3)) RemoteId_ZERO (after [5]) example_order)) =
     [rid_local (Id_new 1), rid_local (Id_new 3)]"
proof -
  note defs = example_order_eq example_drag_def target_group_def rid_local_def order_iter_def
    children_of_def hm_get_def as_group_def RemoteId_ZERO_def Id_ZERO_def id_is_zero_def
  have iter: "order_iter RemoteId_ZERO example_order = [rid_local (Id_new 3), rid_local (Id_new 1)]"
    by (simp add: defs)
  have "order_iter (target_group example_drag) (snd (order_reorder (rid_local (Id_new 3))
      (target_group example_drag) (after [5]) example_order)) =
    dropped (dg_drag example_drag) (rid_local (Id_new 3)) [rid_local (Id_new 3)] (dg_target example_drag) []"
  proof (rule dropped_where_shown [OF example_order_ok example_sorts_agree])
    show "hm_get (or_objects example_order) (rid_local (Id_new 3)) =
        Some \<lparr>od_group = rid_local (Id_new 0), od_sort = [4]\<rparr>" by (simp add: defs)
    show "drag_new_sort example_drag (objects_from_iter example_objects) example_order = Some (after [5])"
      by (simp add: drag_new_sort_def defs objects_from_iter_def example_objects_def example_object_def
          hm_insert_def slice_get_def sort_at_def)
  qed (simp_all add: defs iter rid_is_local_def pid_is_zero_def PeerId_ZERO_def)
  then show ?thesis by (simp add: iter example_drag_def target_group_def rid_local_def)
qed

end
