(* ===== verification/UiMap.thy ===== *)
theory UiMap
  imports WebApi UiDrag
begin

section \<open>The map: \<^verbatim>\<open>crates/web/src/components/map.rs\<close>\<close>

text \<open>
  The state of the map component and its messages: initialization, the broadcasts of the backend,
  selection, dialogs, toggles, dropping and the requests it sends, which are those of \<open>WebApi\<close>.
  \<open>MapState\<close> and \<open>Map\<close> are one record. Pointer movement, zooming, the animation of tokens and
  drawing need floating-point arithmetic and a canvas: an action of the pointer is only known to
  be in progress or not. Handlers that follow the groups of objects give \<open>None\<close> when that loop
  does not end. Log output and decoding errors leave the state as it is and are left out.
\<close>

subsection \<open>Values of the configuration\<close>

definition DEFAULT_ZOOM :: f32 where "DEFAULT_ZOOM = 0x40000000"

record MapValues =
  mv_zoom :: f32
  mv_pan :: Vec3
  mv_mumble_object :: RemoteId
  mv_mumble_follow :: bool
  mv_room :: StableId
  mv_room_id :: RemoteId
  mv_name :: string
  mv_selected :: StableId
  mv_selected_id :: RemoteId

definition values_new :: MapValues where
  "values_new =
     \<lparr>mv_zoom = DEFAULT_ZOOM, mv_pan = Vec3_ZERO, mv_mumble_object = RemoteId_ZERO,
      mv_mumble_follow = False, mv_room = StableId_ZERO, mv_room_id = RemoteId_ZERO,
      mv_name = [], mv_selected = StableId_ZERO, mv_selected_id = RemoteId_ZERO\<rparr>"

definition values_get :: "MapValues \<Rightarrow> Key \<Rightarrow> Value" where
  "values_get mv key =
     (if key = KEY_ZOOM then value_from_f32 (mv_zoom mv)
      else if key = KEY_PAN then VVec3 (mv_pan mv)
      else if key = KEY_MUMBLE_OBJECT then value_from_id (rid_id (mv_mumble_object mv))
      else if key = KEY_MUMBLE_FOLLOW then VBoolean (mv_mumble_follow mv)
      else if key = KEY_ROOM then VStableId (mv_room mv)
      else if key = KEY_PEER_NAME then VString (mv_name mv)
      else if key = KEY_SELECTED then VStableId (mv_selected mv)
      else VEmpty)"

definition values_update :: "UiPeers \<Rightarrow> Key \<Rightarrow> Value \<Rightarrow> MapValues \<Rightarrow> bool \<times> MapValues" where
  "values_update ps key v mv =
     (if key = KEY_ZOOM then
        assign f32_eq mv_zoom mv_zoom_update (unwrap_or DEFAULT_ZOOM (as_f32 v)) mv
      else if key = KEY_PAN then
        assign vec3_eq mv_pan mv_pan_update (unwrap_or Vec3_ZERO (as_vec3 v)) mv
      else if key = KEY_MUMBLE_OBJECT then
        assign (=) mv_mumble_object mv_mumble_object_update (rid_local (as_id v)) mv
      else if key = KEY_MUMBLE_FOLLOW then
        assign (=) mv_mumble_follow mv_mumble_follow_update (as_bool v) mv
      else if key = KEY_ROOM then
        (case assign (=) mv_room mv_room_update (as_stable_id v) mv of
           (True, mv) \<Rightarrow> (True, mv\<lparr>mv_room_id := ui_to_remote_id (mv_room mv) ps\<rparr>)
         | (False, mv) \<Rightarrow> (False, mv))
      else if key = KEY_PEER_NAME then assign (=) mv_name mv_name_update (as_str v) mv
      else if key = KEY_SELECTED then
        (case assign (=) mv_selected mv_selected_update (as_stable_id v) mv of
           (True, mv) \<Rightarrow> (True, mv\<lparr>mv_selected_id := ui_to_remote_id (mv_selected mv) ps\<rparr>)
         | (False, mv) \<Rightarrow> (False, mv))
      else (False, mv))"

definition values_initialize :: "UiPeers \<Rightarrow> Properties \<Rightarrow> MapValues \<Rightarrow> MapValues" where
  "values_initialize ps props mv =
     fold (\<lambda>(key, v) mv. snd (values_update ps key v mv)) props
       (mv\<lparr>mv_zoom := DEFAULT_ZOOM, mv_pan := Vec3_ZERO, mv_mumble_object := RemoteId_ZERO,
          mv_mumble_follow := False, mv_room := StableId_ZERO, mv_name := [],
          mv_selected := StableId_ZERO, mv_selected_id := RemoteId_ZERO\<rparr>)"

definition values_update_peers :: "UiPeers \<Rightarrow> MapValues \<Rightarrow> MapValues" where
  "values_update_peers ps mv =
     mv\<lparr>mv_room_id := ui_to_remote_id (mv_room mv) ps,
        mv_selected_id := ui_to_remote_id (mv_selected mv) ps\<rparr>"

subsection \<open>Dialogs and the room on display\<close>

record ObjectRef =
  ref_ty :: Type
  ref_name :: string
  ref_id :: RemoteId

definition object_as_ref :: "Object \<Rightarrow> ObjectRef" where
  "object_as_ref ob = \<lparr>ref_ty = object_ty ob, ref_name = ob_name ob, ref_id = ob_id ob\<rparr>"

definition ref_update :: "Object \<Rightarrow> ObjectRef \<Rightarrow> bool \<times> ObjectRef" where
  "ref_update ob r = assign (=) ref_name ref_name_update (ob_name ob) r"

datatype MapModal =
  MHelp | MRooms | MRemove ObjectRef | MSettings ObjectRef | MUnlock ObjectRef

definition modal_update_ref :: "Objects \<Rightarrow> ObjectRef \<Rightarrow> bool \<times> ObjectRef" where
  "modal_update_ref os r =
     (case hm_get os (ref_id r) of None \<Rightarrow> (False, r) | Some ob \<Rightarrow> ref_update ob r)"

definition modal_update :: "Objects \<Rightarrow> MapModal \<Rightarrow> bool \<times> MapModal" where
  "modal_update os modal =
     (case modal of
        MRemove r \<Rightarrow> map_prod id MRemove (modal_update_ref os r)
      | MSettings r \<Rightarrow> map_prod id MSettings (modal_update_ref os r)
      | MUnlock r \<Rightarrow> map_prod id MUnlock (modal_update_ref os r)
      | _ \<Rightarrow> (False, modal))"

definition UNKNOWN_ROOM :: string where "UNKNOWN_ROOM = ''Unknown Room''"
definition COMMON_ROOM :: string where "COMMON_ROOM = ''Foyer''"

record Cache =
  ca_room_id :: RemoteId
  ca_extent :: Extent
  ca_show_grid :: bool
  ca_background :: RemoteId
  ca_room_icon :: string
  ca_room_name :: string
  ca_room_color :: Color

definition cache_default :: Cache where
  "cache_default =
     \<lparr>ca_room_id = RemoteId_ZERO, ca_extent = extent_arena, ca_show_grid = False,
      ca_background = RemoteId_ZERO, ca_room_icon = ''question-mark-circle'',
      ca_room_name = COMMON_ROOM, ca_room_color = color_neutral\<rparr>"

definition cache_update :: "RemoteId \<Rightarrow> Objects \<Rightarrow> Cache" where
  "cache_update room_id os =
     (case hm_get os room_id of
        None \<Rightarrow> cache_default
      | Some ob \<Rightarrow>
          (case ob_kind ob of
             KRoom r \<Rightarrow>
               \<lparr>ca_room_id = room_id, ca_extent = rom_extent r, ca_show_grid = rom_show_grid r,
                ca_background = RemoteId_new (rid_peer_id room_id) (rom_background r),
                ca_room_icon =
                  (if rid_is_zero room_id then ''question-mark-circle''
                   else if rid_is_local room_id then ''home'' else ''home-modern''),
                ca_room_name = (if ob_name ob = [] then UNKNOWN_ROOM else ob_name ob),
                ca_room_color = rom_color r\<rparr>
           | _ \<Rightarrow> cache_default))"

subsection \<open>State\<close>

record UiMap =
  um_channel :: ChannelId
  um_values :: MapValues
  um_updates :: "(RemoteId \<times> Key) list"
  um_requests :: "(RemoteId \<times> Key) list"
  um_context_menu :: "RemoteId option"
  um_modal :: "MapModal option"
  um_redraw :: bool
  um_update_cache :: bool
  um_update_view :: bool
  um_active :: "RemoteId list"
  um_frame :: bool
  um_simulating :: bool
  um_drag_over :: "DragOver option"
  um_images :: "RemoteId list"
  um_objects :: Objects
  um_order :: OrderRef
  um_peers :: UiPeers
  um_cache :: Cache
  um_action :: bool
  um_sent :: "Request list"

definition map_new :: UiMap where
  "map_new =
     \<lparr>um_channel = CHANNEL_NONE, um_values = values_new, um_updates = [], um_requests = [],
      um_context_menu = None, um_modal = None, um_redraw = False, um_update_cache = False,
      um_update_view = False, um_active = [], um_frame = False, um_simulating = False,
      um_drag_over = None, um_images = [], um_objects = [], um_order = order_default,
      um_peers = ui_peers_default, um_cache = cache_default, um_action = False, um_sent = []\<rparr>"

definition note_update :: "RemoteId \<Rightarrow> Key \<Rightarrow> UiMap \<Rightarrow> UiMap" where
  "note_update i key m = m\<lparr>um_updates := hs_insert (i, key) (um_updates m)\<rparr>"

definition send :: "Request \<Rightarrow> UiMap \<Rightarrow> UiMap" where
  "send r m = m\<lparr>um_sent := um_sent m @ [r]\<rparr>"

definition image_load :: "RemoteId \<Rightarrow> RemoteId list \<Rightarrow> RemoteId list" where
  "image_load i images = (if rid_is_zero i then images else hs_insert i images)"

definition image_remove :: "RemoteId \<Rightarrow> RemoteId list \<Rightarrow> RemoteId list" where
  "image_remove i images = (if rid_is_zero i then images else hs_remove i images)"

subsection \<open>Selection\<close>

definition select_object :: "RemoteId \<Rightarrow> UiMap \<Rightarrow> bool \<times> UiMap" where
  "select_object i m =
     (let mv = um_values m in
      case state_update (=) (ui_to_stable_id i (um_peers m)) (mv_selected mv) of
        (False, _) \<Rightarrow> (False, m)
      | (True, selected) \<Rightarrow>
          (let m = m\<lparr>um_values := mv\<lparr>mv_selected := selected, mv_selected_id := i\<rparr>\<rparr>;
               m = note_update RemoteId_ZERO KEY_SELECTED m;
               m = m\<lparr>um_redraw := True, um_context_menu := None\<rparr>;
               m = (case um_modal m of
                      Some (MRemove r) \<Rightarrow> if ref_id r = i then m\<lparr>um_modal := None\<rparr> else m
                    | _ \<Rightarrow> m)
           in if \<not> mv_mumble_follow mv \<or> mv_mumble_object mv = i then (True, m)
              else if \<not> rid_is_zero i \<and> \<not> objects_is_interactive i (um_objects m) then (True, m)
              else (True, note_update RemoteId_ZERO KEY_MUMBLE_OBJECT
                           (m\<lparr>um_values := (um_values m)\<lparr>mv_mumble_object := i\<rparr>\<rparr>))))"

definition cancel_action :: "UiMap \<Rightarrow> bool \<times> UiMap" where
  "cancel_action m =
     (if um_action m then (True, m\<lparr>um_action := False, um_redraw := True\<rparr>) else (False, m))"

definition cancel :: "UiMap \<Rightarrow> bool \<times> UiMap" where
  "cancel m =
     (case cancel_action m of
        (True, m) \<Rightarrow> (False, m)
      | (False, m) \<Rightarrow>
          if um_modal m \<noteq> None then (True, m\<lparr>um_modal := None\<rparr>)
          else if um_context_menu m \<noteq> None then (True, m\<lparr>um_context_menu := None\<rparr>)
          else
            (case state_update (=) StableId_ZERO (mv_selected (um_values m)) of
               (True, selected) \<Rightarrow>
                 (True, note_update RemoteId_ZERO KEY_SELECTED
                   (m\<lparr>um_values := (um_values m)\<lparr>mv_selected := selected,
                                                  mv_selected_id := RemoteId_ZERO\<rparr>,
                      um_redraw := True\<rparr>))
             | (False, _) \<Rightarrow> (False, m)))"

subsection \<open>Initialization and broadcasts\<close>

definition add_object :: "Object \<Rightarrow> UiMap \<Rightarrow> UiMap" where
  "add_object ob m =
     m\<lparr>um_order := snd (order_insert ob (um_order m)),
       um_objects := snd (objects_insert ob (um_objects m))\<rparr>"

definition init_local :: "RemoteObject \<Rightarrow> UiMap \<Rightarrow> UiMap" where
  "init_local o1 m =
     (case object_new PeerId_ZERO o1 of
        None \<Rightarrow> m
      | Some ob \<Rightarrow>
          (let m = (if object_has_interpolation ob
                    then m\<lparr>um_active := hs_insert (ob_id ob) (um_active m)\<rparr> else m)
           in m\<lparr>um_objects := snd (objects_insert ob (um_objects m))\<rparr>))"

definition init_remote :: "PeerId \<times> RemoteObject \<Rightarrow> UiMap \<Rightarrow> UiMap" where
  "init_remote po m =
     (case object_new (fst po) (snd po) of None \<Rightarrow> m | Some ob \<Rightarrow> add_object ob m)"

definition map_initialize :: "InitializeMapResponse \<Rightarrow> UiMap \<Rightarrow> bool \<times> UiMap" where
  "map_initialize body m =
     (let ps = fold (\<lambda>p. ui_peers_insert p (mv_room (um_values m))) (imr_peers body)
                 (ui_peers_clear (um_peers m));
          ps = ps\<lparr>ups_public_key := imr_public_key body\<rparr>;
          m = m\<lparr>um_peers := ps, um_values := values_initialize ps (imr_props body) (um_values m)\<rparr>;
          m = fold init_local (imr_objects body) (m\<lparr>um_objects := objects_clear (um_objects m)\<rparr>);
          m = m\<lparr>um_order := order_extend (hm_values (um_objects m)) (um_order m)\<rparr>;
          m = fold init_remote (imr_peer_objects body) m;
          m = m\<lparr>um_images := fold image_load (imr_images body) []\<rparr>
      in (True, m\<lparr>um_update_cache := True, um_redraw := True\<rparr>))"

definition config_update :: "UpdateBody \<Rightarrow> UiMap \<Rightarrow> bool \<times> UiMap" where
  "config_update body m =
     (case body of
        UConfig channel key v \<Rightarrow>
          if um_channel m = channel then (False, m)
          else
            (let (changed, mv) = values_update (um_peers m) key v (um_values m);
                 m = m\<lparr>um_values := mv\<rparr>;
                 m = (if changed \<and> key = KEY_ROOM
                      then m\<lparr>um_peers := ui_peers_modify_all (ui_peer_update_config (mv_room mv))
                                           (um_peers m),
                             um_update_cache := True\<rparr>
                      else m);
                 m = (if changed
                      then m\<lparr>um_update_view := um_update_view m \<or> key \<in> {KEY_ZOOM, KEY_PAN}\<rparr>
                      else m)
             in (changed, m\<lparr>um_redraw := changed\<rparr>))
      | UPublicKey k \<Rightarrow> (True, m\<lparr>um_peers := (um_peers m)\<lparr>ups_public_key := k\<rparr>\<rparr>))"

definition map_create_object :: "RemoteId \<Rightarrow> RemoteObject \<Rightarrow> UiMap \<Rightarrow> bool \<times> UiMap" where
  "map_create_object i o1 m =
     (case object_new (rid_peer_id i) o1 of
        None \<Rightarrow> (False, m)
      | Some ob \<Rightarrow> (True, (add_object ob m)\<lparr>um_update_cache := True, um_redraw := True\<rparr>))"

definition map_remove_object :: "RemoteId \<Rightarrow> UiMap \<Rightarrow> bool \<times> UiMap" where
  "map_remove_object i m =
     (let m = m\<lparr>um_active := hs_remove i (um_active m),
                um_objects := snd (objects_remove i (um_objects m)),
                um_order := snd (order_remove i (um_order m))\<rparr>;
          m = (if mv_selected_id (um_values m) = i then snd (select_object RemoteId_ZERO m) else m)
      in (True, m\<lparr>um_requests := filter (\<lambda>(j, _). j \<noteq> i) (um_requests m), um_modal := None,
                   um_update_cache := True, um_redraw := True\<rparr>))"

definition map_object_updated :: "ChannelId \<Rightarrow> RemoteId \<Rightarrow> Key \<Rightarrow> Value \<Rightarrow> UiMap \<Rightarrow> bool \<times> UiMap" where
  "map_object_updated channel i key v m =
     (if um_channel m = channel then (False, m)
      else case hm_get (um_objects m) i of
        None \<Rightarrow> (False, m)
      | Some ob \<Rightarrow>
          (let (b, ob') = ob_update key v ob;
               (c, ors) = order_update (ob_id ob') key v (um_order m);
               update = b \<or> c;
               m = m\<lparr>um_objects := objects_put i ob' (um_objects m), um_order := ors,
                     um_update_cache := (object_ty ob' = TYPE_ROOM),
                     um_redraw := um_redraw m \<or> update\<rparr>;
               m = (if key = KEY_MOVE_TARGET
                    then m\<lparr>um_active := hs_insert (ob_id ob') (um_active m)\<rparr> else m);
               m = (if update
                    then m\<lparr>um_modal := map_option (\<lambda>modal. snd (modal_update (um_objects m) modal))
                                         (um_modal m)\<rparr>
                    else m)
           in (update, m)))"

definition remote_update :: "RemoteUpdateBody \<Rightarrow> UiMap \<Rightarrow> bool \<times> UiMap" where
  "remote_update body m =
     (case body of
        RRemoteLost \<Rightarrow>
          (True, m\<lparr>um_objects := objects_retain (\<lambda>i _. rid_peer_id i = PeerId_ZERO) (um_objects m),
                   um_order := order_retain (\<lambda>p. p = PeerId_ZERO) (um_order m),
                   um_images := filter (\<lambda>i. rid_peer_id i = PeerId_ZERO) (um_images m),
                   um_peers := ui_peers_clear (um_peers m),
                   um_update_cache := True, um_redraw := True\<rparr>)
      | RPeerConnected peer \<Rightarrow>
          (let ps = ui_peers_insert peer (mv_room (um_values m)) (um_peers m)
           in (True, m\<lparr>um_peers := ps, um_values := values_update_peers ps (um_values m)\<rparr>))
      | RPeerJoin p objects \<Rightarrow>
          (True, (fold (\<lambda>o1. init_remote (p, o1)) objects m)\<lparr>um_redraw := True\<rparr>)
      | RPeerLeave p \<Rightarrow>
          (True, m\<lparr>um_objects := objects_retain (\<lambda>i global. global \<or> rid_peer_id i \<noteq> p) (um_objects m),
                   um_order := order_retain (\<lambda>q. q \<noteq> p) (um_order m),
                   um_redraw := True\<rparr>)
      | RPeerDisconnect p \<Rightarrow>
          (let ps = ui_peers_remove p (um_peers m)
           in (True, m\<lparr>um_objects := objects_retain (\<lambda>i _. rid_peer_id i \<noteq> p) (um_objects m),
                        um_order := order_retain (\<lambda>q. q \<noteq> p) (um_order m),
                        um_peers := ps, um_values := values_update_peers ps (um_values m),
                        um_redraw := True\<rparr>))
      | RPeerUpdate p key v \<Rightarrow>
          (case ui_peers_get p (um_peers m) of
             None \<Rightarrow> (False, m)
           | Some _ \<Rightarrow>
               (let ps = ui_peers_modify p (ui_peer_update key v (mv_room (um_values m))) (um_peers m)
                in (True, m\<lparr>um_peers := ps, um_values := values_update_peers ps (um_values m)\<rparr>)))
      | RObjectCreated _ i object \<Rightarrow> map_create_object i object m
      | RObjectRemoved channel i \<Rightarrow>
          if um_channel m = channel then (False, m) else map_remove_object i m
      | RObjectUpdated channel i key v \<Rightarrow> map_object_updated channel i key v m
      | RImageCreated img \<Rightarrow>
          (True, m\<lparr>um_images := image_load (img_id img) (um_images m), um_redraw := True\<rparr>)
      | RImageRemoved i \<Rightarrow>
          (True, m\<lparr>um_images := image_remove i (um_images m), um_redraw := True\<rparr>))"

subsection \<open>Changing objects\<close>

definition toggle_mumble_object :: "RemoteId \<Rightarrow> UiMap \<Rightarrow> bool \<times> UiMap" where
  "toggle_mumble_object i m =
     (if rid_is_zero i \<or> \<not> rid_is_local i then (False, m)
      else
        (let m = m\<lparr>um_context_menu := None\<rparr>;
             new = (if mv_mumble_object (um_values m) = i then RemoteId_ZERO else i)
         in (True, note_update RemoteId_ZERO KEY_MUMBLE_OBJECT
                     (m\<lparr>um_values := (um_values m)\<lparr>mv_mumble_object := new\<rparr>\<rparr>))))"

definition toggle_locked :: "RemoteId \<Rightarrow> UiMap \<Rightarrow> bool \<times> UiMap" where
  "toggle_locked i m =
     (if rid_is_zero i \<or> \<not> rid_is_local i then (False, m)
      else case hm_get (um_objects m) i of
        None \<Rightarrow> (False, m)
      | Some ob \<Rightarrow>
          (case modify_locked Not ob of
             None \<Rightarrow> (False, m)
           | Some ob \<Rightarrow>
               (True, (note_update i KEY_LOCKED (m\<lparr>um_objects := objects_put i ob (um_objects m)\<rparr>))
                        \<lparr>um_redraw := True\<rparr>)))"

definition toggle_hidden :: "RemoteId \<Rightarrow> UiMap \<Rightarrow> bool \<times> UiMap" where
  "toggle_hidden i m =
     (if rid_is_zero i \<or> \<not> rid_is_local i then (False, m)
      else
        (let m = m\<lparr>um_context_menu := None\<rparr>
         in case hm_get (um_objects m) i of
              None \<Rightarrow> (False, m)
            | Some ob \<Rightarrow>
                (let ob = ob\<lparr>ob_hidden := \<not> ob_hidden ob\<rparr>
                 in (True, (note_update i KEY_HIDDEN
                       (m\<lparr>um_objects := objects_put i ob (um_objects m)\<rparr>))\<lparr>um_redraw := True\<rparr>))))"

definition toggle_local_hidden :: "RemoteId \<Rightarrow> UiMap \<Rightarrow> bool \<times> UiMap" where
  "toggle_local_hidden i m =
     (if rid_is_zero i \<or> \<not> rid_is_local i then (False, m)
      else
        (let m = m\<lparr>um_context_menu := None\<rparr>
         in case hm_get (um_objects m) i of
              None \<Rightarrow> (False, m)
            | Some ob \<Rightarrow>
                (let ob = ob\<lparr>ob_local_hidden := \<not> ob_local_hidden ob\<rparr>
                 in (True, (note_update i KEY_LOCAL_HIDDEN
                       (m\<lparr>um_objects := objects_put i ob (um_objects m)\<rparr>))\<lparr>um_redraw := True\<rparr>))))"

definition toggle_expanded :: "RemoteId \<Rightarrow> UiMap \<Rightarrow> bool \<times> UiMap" where
  "toggle_expanded i m =
     (if rid_is_zero i \<or> \<not> rid_is_local i then (False, m)
      else
        (let m = m\<lparr>um_context_menu := None\<rparr>
         in case hm_get (um_objects m) i of
              None \<Rightarrow> (False, m)
            | Some ob \<Rightarrow>
                (case modify_expanded Not ob of
                   None \<Rightarrow> (False, m)
                 | Some ob \<Rightarrow>
                     (True, note_update i KEY_EXPANDED
                        (m\<lparr>um_objects := objects_put i ob (um_objects m)\<rparr>)))))"

text \<open>
  \<open>drag_end\<close> asks first whether the object is locked, which follows its groups and may not end.
\<close>

definition drop_object :: "RemoteId \<Rightarrow> DragOver \<Rightarrow> UiMap \<Rightarrow> bool \<times> UiMap" where
  "drop_object i d m =
     (let new_group = target_group d
      in if i = new_group \<or> \<not> rid_is_local new_group then (True, m)
         else case drag_new_sort d (um_objects m) (um_order m) of
           None \<Rightarrow> (True, m)
         | Some s \<Rightarrow>
             (case hm_get (um_objects m) i of
                None \<Rightarrow> (True, m)
              | Some ob \<Rightarrow>
                  (let (b, ob) = assign (=) ob_group ob_group_update new_group ob;
                       m = (if b then note_update i KEY_GROUP m else m);
                       (c, ob) = assign (=) ob_sort ob_sort_update s ob;
                       m = (if c then note_update i KEY_SORT m else m)
                   in (True, m\<lparr>um_objects := objects_put i ob (um_objects m),
                               um_order := snd (order_reorder i (ob_group ob) (ob_sort ob) (um_order m)),
                               um_redraw := True\<rparr>))))"

definition drag_end :: "RemoteId \<Rightarrow> UiMap \<Rightarrow> (bool \<times> UiMap) option" where
  "drag_end i m =
     (case um_drag_over m of
        None \<Rightarrow> Some (False, m)
      | Some d \<Rightarrow>
          (let m = m\<lparr>um_drag_over := None\<rparr>
           in if rid_is_zero i \<or> \<not> rid_is_local i then Some (True, m)
              else case objects_is_locked (um_objects m) i of
                None \<Rightarrow> None
              | Some locked \<Rightarrow>
                  (case hm_get (um_objects m) i of
                     Some ob \<Rightarrow>
                       if locked
                       then Some (True, m\<lparr>um_modal := Some (MUnlock (object_as_ref ob))\<rparr>)
                       else Some (drop_object i d m)
                   | None \<Rightarrow> Some (drop_object i d m))))"

subsection \<open>Requests\<close>

definition create_remote_object :: "Type \<Rightarrow> (Key \<times> Value) list \<Rightarrow> UiMap \<Rightarrow> UiMap" where
  "create_remote_object ty props m = send (CreateObject ty (props_from_iter props)) m"

definition remove_object_remote :: "RemoteId \<Rightarrow> UiMap \<Rightarrow> bool \<times> UiMap" where
  "remove_object_remote i m = map_remove_object i (send (RemoveObject (rid_id i)) m)"

definition send_update :: "RemoteId \<times> Key \<Rightarrow> UiMap \<Rightarrow> UiMap" where
  "send_update ik m =
     (let (i, key) = ik
      in if \<not> rid_is_local i then m
         else if id_is_zero (rid_id i) then
           (send (Updates [(key, values_get (um_values m) key)]) m)
             \<lparr>um_requests := hs_insert (i, key) (um_requests m)\<rparr>
         else case hm_get (um_objects m) i of
           None \<Rightarrow> m
         | Some ob \<Rightarrow>
             (send (ObjectUpdate (rid_id i) [(key, object_get ob key)]) m)
               \<lparr>um_requests := hs_insert (i, key) (um_requests m)\<rparr>)"

definition send_updates :: "UiMap \<Rightarrow> UiMap" where
  "send_updates m =
     (if um_channel m = CHANNEL_NONE then m\<lparr>um_updates := []\<rparr>
      else (fold send_update (um_updates m) m)\<lparr>um_updates := []\<rparr>)"

subsection \<open>Messages\<close>

datatype KeyPress = Key_Escape | Key_Delete | Key_Help | Key_Enter | Key_T

datatype Msg =
    M_Channel ChannelId
  | M_Initialize InitializeMapResponse
  | M_ConfigUpdate UpdateBody
  | M_RemoteUpdate RemoteUpdateBody
  | M_DragOver DragOver
  | M_DragEnd RemoteId
  | M_OpenSettings RemoteId
  | M_OpenModal MapModal
  | M_OpenObject RemoteId
  | M_ConfirmRemove RemoteId
  | M_RemoveObject RemoteId
  | M_CloseModal
  | M_CloseContextMenu
  | M_SelectObject RemoteId
  | M_ToggleFollow
  | M_ToggleMumbleObject RemoteId
  | M_ToggleLocked RemoteId
  | M_ToggleHidden RemoteId
  | M_ToggleLocalHidden RemoteId
  | M_ToggleExpanded RemoteId
  | M_CreateToken
  | M_CreateStatic
  | M_CreateGroup
  | M_KeyDown KeyPress

text \<open>
  A handler gives whether to render again, the messages it sends to itself and the state. Keys
  that start an action of the pointer are left out.
\<close>

type_synonym handled = "(bool \<times> Msg list \<times> UiMap) option"

definition handled_now :: "bool \<times> UiMap \<Rightarrow> handled" where
  "handled_now r = Some (fst r, [], snd r)"

text \<open>\<open>OpenSettings\<close> and \<open>ConfirmRemove\<close>: a dialog, or the one that says the object is locked.\<close>

definition open_dialog :: "(ObjectRef \<Rightarrow> MapModal) \<Rightarrow> RemoteId \<Rightarrow> UiMap \<Rightarrow> handled" where
  "open_dialog dialog i m =
     (let m = m\<lparr>um_context_menu := None\<rparr>
      in case hm_get (um_objects m) i of
           None \<Rightarrow> handled_now (False, m)
         | Some ob \<Rightarrow>
             (case objects_is_locked (um_objects m) (ob_id ob) of
                None \<Rightarrow> None
              | Some locked \<Rightarrow>
                  handled_now (True, m\<lparr>um_modal :=
                    Some (if locked then MUnlock (object_as_ref ob) else dialog (object_as_ref ob))\<rparr>)))"

definition accept :: "UiMap \<Rightarrow> bool \<times> UiMap" where
  "accept m =
     (case um_modal m of
        None \<Rightarrow> (False, m)
      | Some modal \<Rightarrow>
          (let m = m\<lparr>um_modal := None\<rparr>
           in (True, case modal of MRemove r \<Rightarrow> snd (remove_object_remote (ref_id r) m) | _ \<Rightarrow> m)))"

definition on_key_down :: "KeyPress \<Rightarrow> UiMap \<Rightarrow> handled" where
  "on_key_down key m =
     (case key of
        Key_Escape \<Rightarrow> handled_now (cancel m)
      | Key_Delete \<Rightarrow>
          (case um_modal m of
             Some (MRemove r) \<Rightarrow>
               if ref_id r = mv_selected_id (um_values m) then Some (False, [], m)
               else Some (False, [M_ConfirmRemove (mv_selected_id (um_values m))], m)
           | _ \<Rightarrow> Some (False, [M_ConfirmRemove (mv_selected_id (um_values m))], m))
      | Key_Help \<Rightarrow>
          handled_now (True, m\<lparr>um_modal := (if um_modal m = Some MHelp then None else Some MHelp)\<rparr>)
      | Key_Enter \<Rightarrow> if um_modal m = None then handled_now (accept m) else Some (False, [], m)
      | Key_T \<Rightarrow>
          if um_modal m = None then handled_now (toggle_locked (mv_selected_id (um_values m)) m)
          else Some (False, [], m))"

definition open_object :: "RemoteId \<Rightarrow> UiMap \<Rightarrow> handled" where
  "open_object i m =
     (case hm_get (um_objects m) i of
        None \<Rightarrow> Some (False, [], m)
      | Some ob \<Rightarrow>
          (case ob_kind ob of
             KGroup _ \<Rightarrow> Some (False, [M_ToggleExpanded i], m)
           | _ \<Rightarrow> Some (False, [M_OpenSettings i], m)))"

definition on_channel :: "ChannelId \<Rightarrow> UiMap \<Rightarrow> UiMap" where
  "on_channel channel m =
     (let m = m\<lparr>um_channel := channel\<rparr>
      in if channel = CHANNEL_NONE then m else send InitializeMap m)"

definition try_update :: "Msg \<Rightarrow> UiMap \<Rightarrow> handled" where
  "try_update msg m =
     (case msg of
        M_Channel channel \<Rightarrow> Some (False, [], on_channel channel m)
      | M_Initialize body \<Rightarrow> handled_now (map_initialize body m)
      | M_ConfigUpdate body \<Rightarrow> handled_now (config_update body m)
      | M_RemoteUpdate body \<Rightarrow> handled_now (remote_update body m)
      | M_DragOver d \<Rightarrow> Some (True, [], m\<lparr>um_drag_over := Some d\<rparr>)
      | M_DragEnd i \<Rightarrow> Option.bind (drag_end i m) handled_now
      | M_OpenSettings i \<Rightarrow> open_dialog MSettings i m
      | M_OpenModal modal \<Rightarrow>
          if um_modal m \<noteq> Some modal then Some (True, [], m\<lparr>um_modal := Some modal\<rparr>)
          else Some (False, [], m)
      | M_OpenObject i \<Rightarrow> open_object i m
      | M_ConfirmRemove i \<Rightarrow> open_dialog MRemove i m
      | M_RemoveObject i \<Rightarrow> handled_now (remove_object_remote i m)
      | M_CloseModal \<Rightarrow> Some (True, [], m\<lparr>um_modal := None\<rparr>)
      | M_CloseContextMenu \<Rightarrow> Some (True, [], m\<lparr>um_context_menu := None\<rparr>)
      | M_SelectObject i \<Rightarrow> handled_now (select_object i (snd (cancel_action m)))
      | M_ToggleFollow \<Rightarrow>
          Some (True, [], note_update RemoteId_ZERO KEY_MUMBLE_FOLLOW
            (m\<lparr>um_values := (um_values m)\<lparr>mv_mumble_follow := \<not> mv_mumble_follow (um_values m)\<rparr>\<rparr>))
      | M_ToggleMumbleObject i \<Rightarrow> handled_now (toggle_mumble_object i m)
      | M_ToggleLocked i \<Rightarrow> handled_now (toggle_locked i m)
      | M_ToggleHidden i \<Rightarrow> handled_now (toggle_hidden i m)
      | M_ToggleLocalHidden i \<Rightarrow> handled_now (toggle_local_hidden i m)
      | M_ToggleExpanded i \<Rightarrow> handled_now (toggle_expanded i m)
      | M_CreateToken \<Rightarrow>
          Some (False, [], create_remote_object TYPE_TOKEN [(KEY_HIDDEN, VBoolean True)] m)
      | M_CreateStatic \<Rightarrow>
          Some (False, [], create_remote_object TYPE_STATIC
            [(KEY_HIDDEN, VBoolean True), (KEY_WIDTH, value_from_f32 0x3f800000),
             (KEY_HEIGHT, value_from_f32 0x3f800000)] m)
      | M_CreateGroup \<Rightarrow>
          Some (False, [], create_remote_object TYPE_GROUP
            [(KEY_HIDDEN, VBoolean False), (KEY_EXPANDED, VBoolean True)] m)
      | M_KeyDown key \<Rightarrow> on_key_down key m)"

text \<open>\<open>Component::update\<close>: the message, then what the flags it left ask for.\<close>

definition after_update :: "UiMap \<Rightarrow> bool \<times> UiMap" where
  "after_update m =
     (let m = (if um_updates m \<noteq> [] then send_updates m else m);
          cache = um_update_cache m;
          m = (if cache
               then m\<lparr>um_cache := cache_update (mv_room_id (um_values m)) (um_objects m),
                      um_update_view := True, um_update_cache := False\<rparr>
               else m);
          view = um_update_view m;
          m = (if view then m\<lparr>um_update_view := False, um_redraw := True\<rparr> else m);
          m = (if um_redraw m then m\<lparr>um_frame := True, um_redraw := False\<rparr> else m);
          m = (if \<not> um_simulating m \<and> um_active m \<noteq> [] then m\<lparr>um_simulating := True\<rparr> else m)
      in (cache \<or> view, m))"

definition map_update :: "Msg \<Rightarrow> UiMap \<Rightarrow> handled" where
  "map_update msg m =
     Option.bind (try_update msg m)
       (\<lambda>(changed, msgs, m). case after_update m of (b, m) \<Rightarrow> Some (changed \<or> b, msgs, m))"

end
