(* ===== verification/UiPlaces.thy ===== *)
theory UiPlaces
  imports UiMap
begin

section \<open>The objects of the map and their order\<close>

text \<open>
  Two relations between the objects of the map and their order. \<open>tables_ok\<close>: every object that
  is not global is in the order, with its group and sort key, and nothing else is. \<open>places_ok\<close>:
  every object that is not global is in the order, with its group and sort key; the order may
  hold more. The single changes keep both, which the locale \<open>order_tables\<close> states for the
  handlers of messages.
\<close>

definition order_data :: "Object \<Rightarrow> ObjectData" where
  "order_data ob = \<lparr>od_group = ob_group ob, od_sort = ob_sort ob\<rparr>"

definition tables_ok :: "Objects \<Rightarrow> OrderRef \<Rightarrow> bool" where
  "tables_ok os ors \<longleftrightarrow>
     hm_wf os \<and> order_ok ors \<and>
     (\<forall>i ob. hm_get os i = Some ob \<longrightarrow> ob_id ob = i \<and> data_ok i (order_data ob)) \<and>
     (\<forall>i. hm_get (or_objects ors) i =
        (case hm_get os i of
           None \<Rightarrow> None
         | Some ob \<Rightarrow> if object_is_global ob then None else Some (order_data ob)))"

lemma tables_okD:
  assumes "tables_ok os ors"
  shows "hm_wf os" "order_ok ors"
    "hm_get os i = Some ob \<Longrightarrow> ob_id ob = i \<and> data_ok i (order_data ob)"
    "hm_get (or_objects ors) i =
      (case hm_get os i of
         None \<Rightarrow> None
       | Some ob \<Rightarrow> if object_is_global ob then None else Some (order_data ob))"
  using assms by (simp_all add: tables_ok_def)

lemma tables_ok_agree: "tables_ok os ors \<Longrightarrow> sorts_agree os ors"
  by (fastforce simp: sorts_agree_def tables_ok_def order_data_def split: option.splits if_splits)

subsection \<open>Single changes\<close>

lemma order_insert_objects:
  "or_objects (snd (order_insert ob ors)) =
     (if object_is_global ob then or_objects ors
      else hm_insert (ob_id ob) (order_data ob) (or_objects ors))"
  by (simp add: order_insert_def order_data_def split_beta)

lemma tables_ok_add:
  assumes ok: "tables_ok os ors" and "hm_get os (ob_id ob) = None" "data_ok (ob_id ob) (order_data ob)"
  shows "tables_ok (hm_insert (ob_id ob) ob os) (snd (order_insert ob ors))"
proof -
  note D = tables_okD [OF ok]
  have "hm_get (or_objects ors) (ob_id ob) = None" using D(4) [of "ob_id ob"] assms(2) by simp
  then have "insertable ob ors" using assms(3) by (simp add: insertable_def order_data_def)
  from order_ok_insert [OF D(2) this] show ?thesis
    using D(1,3,4) assms(2,3)
    by (auto simp: tables_ok_def order_insert_objects hm_get_insert split: option.splits)
qed

text \<open>A room that replaces a room; neither is in the order.\<close>

lemma tables_ok_add_room:
  assumes ok: "tables_ok os ors" and "hm_get os (ob_id ob) = Some ob0" "object_is_global ob0"
    and "object_is_global ob" "data_ok (ob_id ob) (order_data ob)"
  shows "tables_ok (hm_insert (ob_id ob) ob os) (snd (order_insert ob ors))"
proof -
  note D = tables_okD [OF ok]
  have "snd (order_insert ob ors) = ors" using assms(4) by (simp add: order_insert_def)
  with D assms(2-5) show ?thesis by (auto simp: tables_ok_def hm_get_insert split: option.splits)
qed

lemma order_remove_objects:
  "hm_get (or_objects (snd (order_remove i ors))) j =
     (if j = i then None else hm_get (or_objects ors) j)"
  by (auto simp: order_remove_def split_beta hm_get_remove split: option.splits)

lemma tables_ok_remove:
  assumes ok: "tables_ok os ors"
  shows "tables_ok (hm_remove i os) (snd (order_remove i ors))"
  using tables_okD [OF ok] order_ok_remove
  by (auto simp: tables_ok_def order_remove_objects hm_get_remove split: option.splits)

lemma tables_ok_retain:
  assumes ok: "tables_ok os ors" and "f PeerId_ZERO"
    and g: "\<And>i ob. \<not> object_is_global ob \<Longrightarrow> g i (object_is_global ob) = f (rid_peer_id i)"
  shows "tables_ok (objects_retain g os) (order_retain f ors)"
proof -
  note D = tables_okD [OF ok]
  have wf: "hm_wf (or_objects ors)" using D(2) by (simp add: order_ok_def)
  have "hm_get (or_objects (order_retain f ors)) i =
      (case hm_get (objects_retain g os) i of
         None \<Rightarrow> None
       | Some ob \<Rightarrow> if object_is_global ob then None else Some (order_data ob))" for i
    using g by (auto simp: order_retain_def Let_def objects_retain_def hm_get_retain [OF D(1)]
        hm_get_retain [OF wf] D(4) split: option.splits if_splits)
  with D(1,3) order_ok_retain [where f = f, OF D(2) assms(2)] show ?thesis
    by (auto simp: tables_ok_def objects_retain_def hm_get_retain split: option.splits if_splits)
qed

text \<open>An object that keeps its place.\<close>

lemma tables_ok_put:
  assumes ok: "tables_ok os ors" and "hm_get os i = Some ob"
    and "ob_id ob' = ob_id ob" "order_data ob' = order_data ob"
    "object_is_global ob' = object_is_global ob"
  shows "tables_ok (objects_put i ob' os) ors"
proof -
  note D = tables_okD [OF ok]
  show ?thesis using D(1,2,4) D(3) assms(2-5)
    by (auto simp: tables_ok_def objects_put_def hm_get_insert split: option.splits)
qed

text \<open>An object that moves in the order as its fields do.\<close>

lemma tables_ok_move:
  assumes ok: "tables_ok os ors" and get: "hm_get os i = Some ob" "\<not> object_is_global ob"
    and "ob_id ob' = i" "\<not> object_is_global ob'" "data_ok i (order_data ob')"
    and "or_objects ors' = hm_insert i (order_data ob') (or_objects ors)" "order_ok ors'"
  shows "tables_ok (objects_put i ob' os) ors'"
  using tables_okD [OF ok] assms(4-8)
  by (auto simp: tables_ok_def objects_put_def hm_get_insert split: option.splits)

lemma order_reorder_objects:
  "hm_get (or_objects ors) i = Some od \<Longrightarrow>
   or_objects (snd (order_reorder i g s ors)) =
     hm_insert i (od\<lparr>od_group := g, od_sort := s\<rparr>) (or_objects ors)"
  by (simp add: order_reorder_def state_replace_def order_put_def split_beta)

lemma kind_update_global:
  "(case snd (kind_update key v kind) of KRoom _ \<Rightarrow> True | _ \<Rightarrow> False) =
   (case kind of KRoom _ \<Rightarrow> True | _ \<Rightarrow> False)"
  by (cases kind) (simp_all add: kind_update_def)

lemma ob_update_global: "object_is_global (snd (ob_update key v ob)) = object_is_global ob"
  by (simp add: object_is_global_def ob_update_def split_beta kind_update_global)

lemma ob_update_data:
  "order_data (snd (ob_update key v ob)) =
     (if key = KEY_SORT then (order_data ob)\<lparr>od_sort := as_bytes v\<rparr>
      else if key = KEY_GROUP
      then (order_data ob)\<lparr>od_group := RemoteId_new (rid_peer_id (ob_id ob)) (as_id v)\<rparr>
      else order_data ob)"
  by (simp add: order_data_def ob_update_def split_beta)

lemma order_update_objects:
  "hm_get (or_objects ors) i = Some od \<Longrightarrow>
   hm_get (or_objects (snd (order_update i key v ors))) j =
     (if j = i then
        Some (if key = KEY_SORT then od\<lparr>od_sort := as_bytes v\<rparr>
              else if key = KEY_GROUP then od\<lparr>od_group := RemoteId_new (rid_peer_id i) (as_id v)\<rparr>
              else od)
      else hm_get (or_objects ors) j)"
  "hm_get (or_objects ors) i = None \<Longrightarrow> order_update i key v ors = (False, ors)"
  by (auto simp: order_update_def state_replace_def order_put_def split_beta hm_get_insert)

lemma tables_ok_update:
  assumes ok: "tables_ok os ors" and get: "hm_get os i = Some ob"
  shows "tables_ok (objects_put i (snd (ob_update key v ob)) os) (snd (order_update i key v ors))"
proof -
  note D = tables_okD [OF ok] and i = tables_okD(3) [OF ok get]
  let ?ob = "snd (ob_update key v ob)"
  have data: "data_ok i (order_data ?ob)"
    using i by (auto simp: ob_update_data data_ok_def)
  have id: "ob_id ?ob = i" using i by (simp add: ob_update_frame)
  show ?thesis
  proof (cases "object_is_global ob")
    case True
    then have "hm_get (or_objects ors) i = None" using D(4) [of i] get by simp
    with D data id True show ?thesis
      by (auto simp: tables_ok_def order_update_objects(2) objects_put_def hm_get_insert
          ob_update_global get split: option.splits)
  next
    case False
    then have od: "hm_get (or_objects ors) i = Some (order_data ob)" using D(4) [of i] get by simp
    have "hm_get (or_objects (snd (order_update i key v ors))) j =
        (if j = i then Some (order_data ?ob) else hm_get (or_objects ors) j)" for j
      using i by (simp add: order_update_objects(1) [OF od] ob_update_data)
    with D data id False order_ok_update [OF D(2), of i key v] show ?thesis
      by (auto simp: tables_ok_def objects_put_def hm_get_insert ob_update_global split: option.splits)
  qed
qed

subsection \<open>What the order keeps of the objects\<close>

text \<open>
  The part of the agreement that no message breaks: every object that is not global is known to
  the order with its group and sort key, and stands there. The order may hold more than that.
\<close>

definition places_ok :: "Objects \<Rightarrow> OrderRef \<Rightarrow> bool" where
  "places_ok os ors \<longleftrightarrow>
     hm_wf os \<and> hm_wf (or_objects ors) \<and> children_ok (or_children ors) \<and>
     (\<forall>i ob. hm_get os i = Some ob \<longrightarrow>
        ob_id ob = i \<and> data_ok i (order_data ob) \<and>
        (object_is_global ob \<or>
         hm_get (or_objects ors) i = Some (order_data ob) \<and>
         (as_group (ob_group ob), SortKey_new (ob_sort ob) i) \<in> entries (or_children ors)))"

lemma places_okD:
  assumes "places_ok os ors"
  shows "hm_wf os" "hm_wf (or_objects ors)" "children_ok (or_children ors)"
    "hm_get os i = Some ob \<Longrightarrow> ob_id ob = i \<and> data_ok i (order_data ob) \<and>
        (object_is_global ob \<or>
         hm_get (or_objects ors) i = Some (order_data ob) \<and>
         (as_group (ob_group ob), SortKey_new (ob_sort ob) i) \<in> entries (or_children ors))"
  using assms by (simp_all add: places_ok_def)

text \<open>An operation on one object leaves the others where they are.\<close>

definition moves_only :: "RemoteId \<Rightarrow> OrderRef \<Rightarrow> OrderRef \<Rightarrow> bool" where
  "moves_only i ors ors' \<longleftrightarrow>
     hm_wf (or_objects ors') \<and> children_ok (or_children ors') \<and>
     (\<forall>j. j \<noteq> i \<longrightarrow> hm_get (or_objects ors') j = hm_get (or_objects ors) j) \<and>
     (\<forall>g k. sk_id k \<noteq> i \<longrightarrow> (g, k) \<in> entries (or_children ors) \<longrightarrow> (g, k) \<in> entries (or_children ors'))"

lemma moves_only_refl:
  "hm_wf (or_objects ors) \<Longrightarrow> children_ok (or_children ors) \<Longrightarrow> moves_only i ors ors"
  by (simp add: moves_only_def)

lemma moves_only_insert:
  assumes "hm_wf (or_objects ors)" "children_ok (or_children ors)"
  shows "moves_only (ob_id ob) ors (snd (order_insert ob ors))"
  using assms by (auto simp: moves_only_def order_insert_def split_beta data_insert_def entry_insert_ok
      entries_entry_insert hm_get_insert)

lemma moves_only_remove:
  assumes "hm_wf (or_objects ors)" "children_ok (or_children ors)"
  shows "moves_only i ors (snd (order_remove i ors))"
  using assms by (auto simp: moves_only_def order_remove_def split_beta data_remove_ok entries_data_remove
      hm_get_remove split: option.split)

lemma data_reorder_places:
  assumes "children_ok ch"
  shows "children_ok (snd (data_reorder i g s g' s' ch))"
    and "sk_id k \<noteq> i \<Longrightarrow> (h, k) \<in> entries ch \<Longrightarrow> (h, k) \<in> entries (snd (data_reorder i g s g' s' ch))"
    and "(as_group g, SortKey_new s i) \<in> entries ch \<Longrightarrow>
      (as_group g', SortKey_new s' i) \<in> entries (snd (data_reorder i g s g' s' ch))"
proof -
  note r = data_remove_ok [OF assms, of i g s] entries_data_remove [OF assms, of i g s]
  obtain b ch' where ch': "data_remove i g s ch = (b, ch')" by fastforce
  have eq: "snd (data_reorder i g s g' s' ch) =
      (if b then snd (entry_insert (as_group g') (SortKey_new s' i) ch') else ch')"
    by (simp add: data_reorder_def ch')
  show "children_ok (snd (data_reorder i g s g' s' ch))"
    using r(1) unfolding eq ch' by (simp add: entry_insert_ok)
  show "(h, k) \<in> entries (snd (data_reorder i g s g' s' ch))" if "sk_id k \<noteq> i" "(h, k) \<in> entries ch"
  proof -
    have "k \<noteq> SortKey_new s i" using that(1) by (cases k) simp
    then have "(h, k) \<in> entries ch - {(as_group g, SortKey_new s i)}" using that(2) by blast
    then have "(h, k) \<in> entries ch'" using r(2) by (simp only: ch' snd_conv)
    then show ?thesis unfolding eq by (simp add: entries_entry_insert)
  qed
  show "(as_group g', SortKey_new s' i) \<in> entries (snd (data_reorder i g s g' s' ch))"
    if "(as_group g, SortKey_new s i) \<in> entries ch"
    using r(3) that unfolding eq ch' by (simp add: entries_entry_insert)
qed

lemma moves_only_put:
  assumes "hm_wf (or_objects ors)" "children_ok (or_children ors)"
  shows "moves_only i ors ((order_put i od ors)\<lparr>or_children := snd (data_reorder i g s g' s' (or_children ors))\<rparr>)"
  using assms data_reorder_places(1,2) [OF assms(2)]
  by (auto simp: moves_only_def order_put_def hm_get_insert)

lemma moves_only_reorder:
  assumes "hm_wf (or_objects ors)" "children_ok (or_children ors)"
  shows "moves_only i ors (snd (order_reorder i g s ors))"
    and "hm_get (or_objects ors) i = Some od \<Longrightarrow>
      (as_group (od_group od), SortKey_new (od_sort od) i) \<in> entries (or_children ors) \<Longrightarrow>
      (as_group g, SortKey_new s i) \<in> entries (or_children (snd (order_reorder i g s ors)))"
proof -
  have eq: "snd (order_reorder i g s ors) =
      (order_put i (od\<lparr>od_group := g, od_sort := s\<rparr>) ors)
        \<lparr>or_children := snd (data_reorder i (od_group od) (od_sort od) g s (or_children ors))\<rparr>"
    if "hm_get (or_objects ors) i = Some od" for od
    using that by (simp add: order_reorder_def state_replace_def unwrap_or_def split_beta)
  show "moves_only i ors (snd (order_reorder i g s ors))"
  proof (cases "hm_get (or_objects ors) i")
    case None
    with moves_only_refl [OF assms] show ?thesis by (simp add: order_reorder_def)
  next
    case (Some od)
    show ?thesis unfolding eq [OF Some] by (rule moves_only_put [OF assms])
  qed
  show "(as_group g, SortKey_new s i) \<in> entries (or_children (snd (order_reorder i g s ors)))"
    if "hm_get (or_objects ors) i = Some od"
      "(as_group (od_group od), SortKey_new (od_sort od) i) \<in> entries (or_children ors)"
    using data_reorder_places(3) [OF assms(2) that(2)] by (simp add: eq [OF that(1)])
qed

lemma moves_only_update:
  assumes "hm_wf (or_objects ors)" "children_ok (or_children ors)"
  shows "moves_only i ors (snd (order_update i key v ors))"
    and "hm_get (or_objects ors) i = Some od \<Longrightarrow>
      (as_group (od_group od), SortKey_new (od_sort od) i) \<in> entries (or_children ors) \<Longrightarrow>
      (as_group (if key = KEY_GROUP then RemoteId_new (rid_peer_id i) (as_id v) else od_group od),
       SortKey_new (if key = KEY_SORT then as_bytes v else od_sort od) i)
        \<in> entries (or_children (snd (order_update i key v ors)))"
proof -
  let ?g = "\<lambda>od. if key = KEY_GROUP then RemoteId_new (rid_peer_id i) (as_id v) else od_group od"
    and ?s = "\<lambda>od. if key = KEY_SORT then as_bytes v else od_sort od"
  have eq: "snd (order_update i key v ors) = ors \<and> ?g od = od_group od \<and> ?s od = od_sort od \<or>
      snd (order_update i key v ors) = (order_put i (od\<lparr>od_group := ?g od, od_sort := ?s od\<rparr>) ors)
        \<lparr>or_children := snd (data_reorder i (od_group od) (od_sort od) (?g od) (?s od) (or_children ors))\<rparr>"
    if "hm_get (or_objects ors) i = Some od" for od
    using that by (simp add: order_update_def state_replace_def split_beta)
  show "moves_only i ors (snd (order_update i key v ors))"
  proof (cases "hm_get (or_objects ors) i")
    case None
    with moves_only_refl [OF assms] show ?thesis by (simp add: order_update_def)
  next
    case (Some od)
    from eq [OF this] show ?thesis
    proof
      assume "snd (order_update i key v ors) = ors \<and> ?g od = od_group od \<and> ?s od = od_sort od"
      then have "snd (order_update i key v ors) = ors" by blast
      then show ?thesis by (simp only: moves_only_refl [OF assms])
    next
      assume e: "snd (order_update i key v ors) = (order_put i (od\<lparr>od_group := ?g od, od_sort := ?s od\<rparr>) ors)
        \<lparr>or_children := snd (data_reorder i (od_group od) (od_sort od) (?g od) (?s od) (or_children ors))\<rparr>"
      show ?thesis unfolding e by (rule moves_only_put [OF assms])
    qed
  qed
  show "(as_group (?g od), SortKey_new (?s od) i) \<in> entries (or_children (snd (order_update i key v ors)))"
    if "hm_get (or_objects ors) i = Some od"
      "(as_group (od_group od), SortKey_new (od_sort od) i) \<in> entries (or_children ors)"
    using eq [OF that(1)]
  proof
    assume "snd (order_update i key v ors) = ors \<and> ?g od = od_group od \<and> ?s od = od_sort od"
    then have e: "snd (order_update i key v ors) = ors" "?g od = od_group od" "?s od = od_sort od" by blast+
    show ?thesis unfolding e by (rule that(2))
  next
    assume e: "snd (order_update i key v ors) = (order_put i (od\<lparr>od_group := ?g od, od_sort := ?s od\<rparr>) ors)
        \<lparr>or_children := snd (data_reorder i (od_group od) (od_sort od) (?g od) (?s od) (or_children ors))\<rparr>"
    show ?thesis unfolding e using data_reorder_places(3) [OF assms(2) that(2), of "?g od" "?s od"] by simp
  qed
qed

lemma places_others:
  assumes "places_ok os ors" "moves_only i ors ors'" "j \<noteq> i" "hm_get os j = Some ob"
  shows "ob_id ob = j \<and> data_ok j (order_data ob) \<and>
    (object_is_global ob \<or>
     hm_get (or_objects ors') j = Some (order_data ob) \<and>
     (as_group (ob_group ob), SortKey_new (ob_sort ob) j) \<in> entries (or_children ors'))"
proof -
  have "(as_group (ob_group ob), SortKey_new (ob_sort ob) j) \<in> entries (or_children ors')"
    if "(as_group (ob_group ob), SortKey_new (ob_sort ob) j) \<in> entries (or_children ors)"
    using assms(2,3) that by (simp add: moves_only_def)
  with places_okD(4) [OF assms(1,4)] assms(2,3) show ?thesis by (auto simp: moves_only_def)
qed

lemma places_ok_change:
  assumes ok: "places_ok os ors" and "moves_only i ors ors'"
    and "ob_id ob = i" "data_ok i (order_data ob)"
    and "\<not> object_is_global ob \<Longrightarrow> hm_get (or_objects ors') i = Some (order_data ob) \<and>
      (as_group (ob_group ob), SortKey_new (ob_sort ob) i) \<in> entries (or_children ors')"
  shows "places_ok (hm_insert i ob os) ors'"
  using places_okD(1) [OF ok] places_others [OF ok assms(2)] assms(2-5)
  unfolding places_ok_def moves_only_def by (auto simp: hm_get_insert)

lemma places_ok_add:
  assumes "places_ok os ors" "data_ok (ob_id ob) (order_data ob)"
  shows "places_ok (hm_insert (ob_id ob) ob os) (snd (order_insert ob ors))"
proof (rule places_ok_change [OF assms(1) _ refl assms(2)])
  note D = places_okD(2,3) [OF assms(1)]
  show "moves_only (ob_id ob) ors (snd (order_insert ob ors))" by (rule moves_only_insert [OF D])
  show "hm_get (or_objects (snd (order_insert ob ors))) (ob_id ob) = Some (order_data ob) \<and>
      (as_group (ob_group ob), SortKey_new (ob_sort ob) (ob_id ob)) \<in> entries (or_children (snd (order_insert ob ors)))"
    if "\<not> object_is_global ob"
    using that by (simp add: order_insert_objects hm_get_insert)
      (simp add: order_insert_def split_beta data_insert_def entries_entry_insert)
qed

lemma places_ok_remove:
  assumes "places_ok os ors"
  shows "places_ok (hm_remove i os) (snd (order_remove i ors))"
  using places_okD(1) [OF assms] moves_only_remove [OF places_okD(2,3) [OF assms], of i]
    places_others [OF assms moves_only_remove [OF places_okD(2,3) [OF assms], of i]]
  unfolding places_ok_def moves_only_def by (auto simp: hm_get_remove split: if_splits)

lemma places_ok_retain:
  assumes ok: "places_ok os ors" and f: "f PeerId_ZERO"
    and g: "\<And>i ob. \<not> object_is_global ob \<Longrightarrow> g i (object_is_global ob) = f (rid_peer_id i)"
  shows "places_ok (objects_retain g os) (order_retain f ors)"
  unfolding places_ok_def
proof (intro conjI allI impI)
  note D = places_okD [OF ok]
  let ?keep = "\<lambda>ks. filter (\<lambda>k. f (rid_peer_id (sk_id k))) ks"
  show "hm_wf (objects_retain g os)" using D(1) by (simp add: objects_retain_def)
  show "hm_wf (or_objects (order_retain f ors))" using D(2) by (simp add: order_retain_def Let_def)
  show "children_ok (or_children (order_retain f ors))" using D(3) by (rule children_ok_retain)
  fix i ob assume "hm_get (objects_retain g os) i = Some ob"
  then have ob: "hm_get os i = Some ob" "g i (object_is_global ob)"
    using D(1) by (auto simp: objects_retain_def hm_get_retain split: option.splits if_splits)
  note place = D(4) [OF ob(1)]
  then show "ob_id ob = i" "data_ok i (order_data ob)" by simp_all
  show "object_is_global ob \<or> hm_get (or_objects (order_retain f ors)) i = Some (order_data ob) \<and>
      (as_group (ob_group ob), SortKey_new (ob_sort ob) i) \<in> entries (or_children (order_retain f ors))"
  proof (cases "object_is_global ob")
    case False
    with g ob(2) have fi: "f (rid_peer_id i)" by metis
    have "f (rid_peer_id (as_group (ob_group ob)))"
      using place fi f by (auto simp: data_ok_def order_data_def as_group_def RemoteId_ZERO_def split: if_splits)
    moreover have "SortKey_new (ob_sort ob) i \<in> set (children_of (or_children ors) (as_group (ob_group ob)))"
      using place False by (simp add: entries_def)
    ultimately show ?thesis
      using place False fi D(2) children_of_kept [OF D(3), of f "as_group (ob_group ob)"]
      by (auto simp: entries_def) (simp add: order_retain_def Let_def hm_get_retain)
  qed simp
qed

lemma places_ok_put:
  assumes ok: "places_ok os ors" and get: "hm_get os i = Some ob"
    and "ob_id ob' = ob_id ob" "order_data ob' = order_data ob"
    "object_is_global ob' = object_is_global ob"
  shows "places_ok (objects_put i ob' os) ors"
  unfolding objects_put_def
proof (rule places_ok_change [OF ok moves_only_refl [OF places_okD(2,3) [OF ok]]])
  note D = places_okD(4) [OF ok get]
  show "ob_id ob' = i" "data_ok i (order_data ob')" using D assms(3,4) by simp_all
  have "ob_group ob' = ob_group ob" "ob_sort ob' = ob_sort ob" using assms(4) by (simp_all add: order_data_def)
  then show "hm_get (or_objects ors) i = Some (order_data ob') \<and>
      (as_group (ob_group ob'), SortKey_new (ob_sort ob') i) \<in> entries (or_children ors)"
    if "\<not> object_is_global ob'"
    using D that assms(4,5) by simp
qed

lemma order_data_fields: "od_group (order_data ob) = ob_group ob" "od_sort (order_data ob) = ob_sort ob"
  by (simp_all add: order_data_def)

lemma places_ok_update:
  assumes ok: "places_ok os ors" and get: "hm_get os i = Some ob"
  shows "places_ok (objects_put i (snd (ob_update key v ob)) os) (snd (order_update i key v ors))"
  unfolding objects_put_def
proof (rule places_ok_change [OF ok])
  note D = places_okD(4) [OF ok get] and wf = places_okD(2,3) [OF ok]
  let ?ob = "snd (ob_update key v ob)"
  show "moves_only i ors (snd (order_update i key v ors))" by (rule moves_only_update(1) [OF wf])
  show "ob_id ?ob = i" "data_ok i (order_data ?ob)"
    using D by (auto simp: ob_update_frame ob_update_data data_ok_def)
  have fields: "ob_group ?ob = (if key = KEY_GROUP then RemoteId_new (rid_peer_id i) (as_id v) else ob_group ob)"
    "ob_sort ?ob = (if key = KEY_SORT then as_bytes v else ob_sort ob)"
    using ob_update_data [of key v ob] D
    by (auto simp: order_data_def key_distinct split: if_splits)
  show "hm_get (or_objects (snd (order_update i key v ors))) i = Some (order_data ?ob) \<and>
      (as_group (ob_group ?ob), SortKey_new (ob_sort ?ob) i) \<in> entries (or_children (snd (order_update i key v ors)))"
    if "\<not> object_is_global ?ob"
  proof -
    from that D have od: "hm_get (or_objects ors) i = Some (order_data ob)"
      "(as_group (od_group (order_data ob)), SortKey_new (od_sort (order_data ob)) i) \<in> entries (or_children ors)"
      by (simp_all add: ob_update_global order_data_fields)
    from moves_only_update(2) [OF wf od, of key v] D show ?thesis
      unfolding fields by (simp add: order_update_objects(1) [OF od(1)] ob_update_data order_data_fields cong: if_cong)
  qed
qed

lemma places_ok_reorder:
  assumes ok: "places_ok os ors" and get: "hm_get os i = Some ob" and "rid_peer_id g = rid_peer_id i"
  shows "places_ok (objects_put i (ob\<lparr>ob_group := g, ob_sort := s\<rparr>) os) (snd (order_reorder i g s ors))"
  unfolding objects_put_def
proof (rule places_ok_change [OF ok])
  note D = places_okD(4) [OF ok get] and wf = places_okD(2,3) [OF ok]
  let ?ob = "ob\<lparr>ob_group := g, ob_sort := s\<rparr>"
  show "moves_only i ors (snd (order_reorder i g s ors))" by (rule moves_only_reorder(1) [OF wf])
  show "ob_id ?ob = i" "data_ok i (order_data ?ob)"
    using D assms(3) by (auto simp: data_ok_def order_data_def)
  show "hm_get (or_objects (snd (order_reorder i g s ors))) i = Some (order_data ?ob) \<and>
      (as_group (ob_group ?ob), SortKey_new (ob_sort ?ob) i) \<in> entries (or_children (snd (order_reorder i g s ors)))"
    if "\<not> object_is_global ?ob"
  proof -
    from that D have od: "hm_get (or_objects ors) i = Some (order_data ob)"
      "(as_group (od_group (order_data ob)), SortKey_new (od_sort (order_data ob)) i) \<in> entries (or_children ors)"
      by (simp_all add: object_is_global_def order_data_fields)
    from moves_only_reorder(2) [OF wf od, of g s] show ?thesis
      by (simp add: order_reorder_objects [OF od(1)] order_data_def hm_get_insert)
  qed
qed

lemma tables_ok_reorder:
  assumes ok: "tables_ok os ors" and get: "hm_get os i = Some ob" and peer: "rid_peer_id g = rid_peer_id i"
  shows "tables_ok (objects_put i (ob\<lparr>ob_group := g, ob_sort := s\<rparr>) os) (snd (order_reorder i g s ors))"
proof -
  note D = tables_okD [OF ok]
  let ?ob = "ob\<lparr>ob_group := g, ob_sort := s\<rparr>"
  have id: "ob_id ?ob = i" "data_ok i (order_data ?ob)"
    using D(3) [OF get] peer by (auto simp: data_ok_def order_data_def)
  have same: "object_is_global ?ob = object_is_global ob" by (simp add: object_is_global_def)
  show ?thesis
  proof (cases "object_is_global ob")
    case True
    then have "hm_get (or_objects ors) i = None" using D(4) [of i] get by simp
    with D(1,2) D(3,4) id get True same show ?thesis
      by (auto simp: tables_ok_def order_reorder_def objects_put_def hm_get_insert split: option.splits)
  next
    case False
    then have od: "hm_get (or_objects ors) i = Some (order_data ob)" using D(4) [of i] get by simp
    show ?thesis
      using tables_ok_move [OF ok get False, of ?ob "snd (order_reorder i g s ors)"] id same False
        order_ok_reorder [OF D(2), of g i s] peer order_reorder_objects [OF od, of g s]
      by (simp add: order_data_def)
  qed
qed

subsection \<open>What the handlers rely on\<close>

locale order_tables =
  fixes I :: "Objects \<Rightarrow> OrderRef \<Rightarrow> bool"
  assumes known: "I os ors \<Longrightarrow> hm_get os i = Some ob \<Longrightarrow> ob_id ob = i"
    and put: "I os ors \<Longrightarrow> hm_get os i = Some ob \<Longrightarrow> ob_id ob' = ob_id ob \<Longrightarrow>
      order_data ob' = order_data ob \<Longrightarrow> object_is_global ob' = object_is_global ob \<Longrightarrow>
      I (objects_put i ob' os) ors"
    and update: "I os ors \<Longrightarrow> hm_get os i = Some ob \<Longrightarrow>
      I (objects_put i (snd (ob_update key v ob)) os) (snd (order_update i key v ors))"
    and reorder: "I os ors \<Longrightarrow> hm_get os i = Some ob \<Longrightarrow> rid_peer_id g = rid_peer_id i \<Longrightarrow>
      I (objects_put i (ob\<lparr>ob_group := g, ob_sort := s\<rparr>) os) (snd (order_reorder i g s ors))"
    and remove: "I os ors \<Longrightarrow> I (hm_remove i os) (snd (order_remove i ors))"
    and retain: "I os ors \<Longrightarrow> f PeerId_ZERO \<Longrightarrow>
      (\<And>i ob. \<not> object_is_global ob \<Longrightarrow> keep i (object_is_global ob) = f (rid_peer_id i)) \<Longrightarrow>
      I (objects_retain keep os) (order_retain f ors)"

interpretation tables: order_tables tables_ok
proof
  show "ob_id ob = i" if "tables_ok os ors" "hm_get os i = Some ob" for os ors i ob
    using tables_okD(3) [OF that] by simp
  show "tables_ok (objects_retain keep os) (order_retain f ors)"
    if "tables_ok os ors" "f PeerId_ZERO"
      "\<And>i ob. \<not> object_is_global ob \<Longrightarrow> keep i (object_is_global ob) = f (rid_peer_id i)" for os ors f keep
    using that by (rule tables_ok_retain)
qed (rule tables_ok_put tables_ok_update tables_ok_reorder tables_ok_remove; assumption)+

interpretation places: order_tables places_ok
proof
  show "ob_id ob = i" if "places_ok os ors" "hm_get os i = Some ob" for os ors i ob
    using places_okD(4) [OF that] by simp
  show "places_ok (objects_retain keep os) (order_retain f ors)"
    if "places_ok os ors" "f PeerId_ZERO"
      "\<And>i ob. \<not> object_is_global ob \<Longrightarrow> keep i (object_is_global ob) = f (rid_peer_id i)" for os ors f keep
    using that by (rule places_ok_retain)
qed (rule places_ok_put places_ok_update places_ok_reorder places_ok_remove; assumption)+

end
