(* ===== verification/UiMapInv.thy ===== *)
theory UiMapInv
  imports UiPlaces
begin

section \<open>The map stays consistent\<close>

text \<open>
  The objects of the map and their order under every message: what an object's place in the
  order is, and that the order holds nothing else as long as the map is initialized once and
  objects are created under identifiers that are not in use.
\<close>

subsection \<open>Messages that leave the tables as they are\<close>

definition same_tables :: "UiMap \<Rightarrow> UiMap \<Rightarrow> bool" where
  "same_tables m m' \<longleftrightarrow> um_objects m' = um_objects m \<and> um_order m' = um_order m"

lemma same_tables_simps [simp]:
  "um_objects (note_update i key m) = um_objects m" "um_order (note_update i key m) = um_order m"
  "um_objects (send r m) = um_objects m" "um_order (send r m) = um_order m"
  by (simp_all add: note_update_def send_def)

lemma same_tables_select: "same_tables m (snd (select_object i m))"
  by (auto simp: same_tables_def select_object_def Let_def split: prod.splits bool.splits
      option.splits MapModal.splits)

lemma same_tables_cancel: "same_tables m (snd (cancel_action m))" "same_tables m (snd (cancel m))"
  by (auto simp: same_tables_def cancel_def cancel_action_def split: prod.splits bool.splits)

lemma same_tables_config: "same_tables m (snd (config_update body m))"
  by (auto simp: same_tables_def config_update_def Let_def split: UpdateBody.splits prod.splits)

lemma same_tables_mumble: "same_tables m (snd (toggle_mumble_object i m))"
  by (simp add: same_tables_def toggle_mumble_object_def Let_def)

lemma same_tables_channel: "same_tables m (on_channel channel m)"
  by (simp add: same_tables_def on_channel_def Let_def)

lemma same_tables_create: "same_tables m (create_remote_object ty props m)"
  by (simp add: same_tables_def create_remote_object_def)

lemma same_tables_send_update: "same_tables m (send_update ik m)"
  by (auto simp: same_tables_def send_update_def split: prod.splits option.splits)

lemma same_tables_fold_send: "same_tables m (fold send_update iks m)"
proof (induction iks arbitrary: m)
  case (Cons ik iks)
  from Cons [of "send_update ik m"] same_tables_send_update [of m ik] show ?case
    by (simp add: same_tables_def)
qed (simp add: same_tables_def)

lemma same_tables_after: "same_tables m (snd (after_update m))"
  using same_tables_fold_send [of m "um_updates m"]
  by (simp add: same_tables_def after_update_def send_updates_def Let_def)

lemma same_tables_dialog: "open_dialog dialog i m = Some (b, msgs, m') \<Longrightarrow> same_tables m m'"
  by (auto simp: same_tables_def open_dialog_def handled_now_def Let_def split: option.splits)

subsection \<open>Handlers\<close>

text \<open>What a message brings: the objects it names, under peers that have an identifier.\<close>

definition po_id :: "PeerId \<times> RemoteObject \<Rightarrow> RemoteId" where
  "po_id po = RemoteId_new (fst po) (ro_id (snd po))"

definition init_objects :: "InitializeMapResponse \<Rightarrow> (PeerId \<times> RemoteObject) list" where
  "init_objects body = map (Pair PeerId_ZERO) (imr_objects body) @ imr_peer_objects body"

definition peer_in_use :: "RemoteUpdateBody \<Rightarrow> bool" where
  "peer_in_use body =
     (case body of RPeerLeave p \<Rightarrow> \<not> pid_is_zero p | RPeerDisconnect p \<Rightarrow> \<not> pid_is_zero p | _ \<Rightarrow> True)"

definition new_in_broadcast :: "RemoteUpdateBody \<Rightarrow> (PeerId \<times> RemoteObject) list" where
  "new_in_broadcast body =
     (case body of
        RPeerJoin p objects \<Rightarrow> map (Pair p) objects
      | RObjectCreated _ i object \<Rightarrow> [(rid_peer_id i, object)]
      | _ \<Rightarrow> [])"

definition new_in_message :: "Msg \<Rightarrow> (PeerId \<times> RemoteObject) list" where
  "new_in_message msg =
     (case msg of
        M_Initialize body \<Rightarrow> init_objects body
      | M_RemoteUpdate body \<Rightarrow> new_in_broadcast body
      | _ \<Rightarrow> [])"

definition message_in_use :: "Msg \<Rightarrow> bool" where
  "message_in_use msg = (case msg of M_RemoteUpdate body \<Rightarrow> peer_in_use body | _ \<Rightarrow> True)"

context order_tables
begin

lemma same: "same_tables m m' \<Longrightarrow> I (um_objects m') (um_order m') = I (um_objects m) (um_order m)"
  by (simp add: same_tables_def)

lemma map_remove:
  assumes "I (um_objects m) (um_order m)"
  shows "I (um_objects (snd (map_remove_object i m))) (um_order (snd (map_remove_object i m)))"
  using remove [OF assms, of i]
    same_tables_select [of "m\<lparr>um_active := hs_remove i (um_active m),
      um_objects := snd (objects_remove i (um_objects m)), um_order := snd (order_remove i (um_order m))\<rparr>" RemoteId_ZERO]
  by (simp add: map_remove_object_def Let_def objects_remove_def same_tables_def)

lemma map_updated:
  assumes "I (um_objects m) (um_order m)"
  shows "I (um_objects (snd (map_object_updated channel i key v m)))
    (um_order (snd (map_object_updated channel i key v m)))"
proof (cases "um_channel m = channel \<or> hm_get (um_objects m) i = None")
  case True
  with assms show ?thesis by (auto simp: map_object_updated_def)
next
  case False
  then obtain ob where ob: "hm_get (um_objects m) i = Some ob" by auto
  with update [OF assms ob, of key v] known [OF assms ob] False show ?thesis
    by (auto simp: map_object_updated_def split_beta Let_def ob_update_frame)
qed

lemma map_toggle:
  assumes "I (um_objects m) (um_order m)"
  shows "I (um_objects (snd (toggle_locked i m))) (um_order (snd (toggle_locked i m)))"
    "I (um_objects (snd (toggle_hidden i m))) (um_order (snd (toggle_hidden i m)))"
    "I (um_objects (snd (toggle_local_hidden i m))) (um_order (snd (toggle_local_hidden i m)))"
    "I (um_objects (snd (toggle_expanded i m))) (um_order (snd (toggle_expanded i m)))"
proof -
  have put: "I (objects_put i ob' (um_objects m)) (um_order m)"
    if "hm_get (um_objects m) i = Some ob" "ob_id ob' = ob_id ob" "ob_group ob' = ob_group ob"
      "ob_sort ob' = ob_sort ob" "object_is_global ob' = object_is_global ob" for ob ob'
    using put [OF assms that(1)] that(2-) by (simp add: order_data_def)
  show "I (um_objects (snd (toggle_locked i m))) (um_order (snd (toggle_locked i m)))"
    using assms by (auto simp: toggle_locked_def modify_locked_def object_is_global_def
        intro!: put split: option.splits ObjectKind.splits)
  show "I (um_objects (snd (toggle_hidden i m))) (um_order (snd (toggle_hidden i m)))"
    "I (um_objects (snd (toggle_local_hidden i m))) (um_order (snd (toggle_local_hidden i m)))"
    using assms by (auto simp: toggle_hidden_def toggle_local_hidden_def Let_def
        object_is_global_def intro!: put split: option.splits)
  show "I (um_objects (snd (toggle_expanded i m))) (um_order (snd (toggle_expanded i m)))"
    using assms by (auto simp: toggle_expanded_def modify_expanded_def Let_def
        object_is_global_def intro!: put split: option.splits ObjectKind.splits)
qed

lemma map_drop:
  assumes "I (um_objects m) (um_order m)" "rid_is_local i"
  shows "I (um_objects (snd (drop_object i d m))) (um_order (snd (drop_object i d m)))"
proof (cases "i = target_group d \<or> \<not> rid_is_local (target_group d) \<or>
    drag_new_sort d (um_objects m) (um_order m) = None \<or> hm_get (um_objects m) i = None")
  case True
  with assms show ?thesis by (auto simp: drop_object_def Let_def split: option.splits)
next
  case False
  then obtain s ob where s: "drag_new_sort d (um_objects m) (um_order m) = Some s"
    "hm_get (um_objects m) i = Some ob" by auto
  have peer: "rid_peer_id (target_group d) = rid_peer_id i"
    using assms(2) False by (auto simp: rid_is_local_def pid_is_zero_def intro: PeerId.expand)
  have "um_objects (snd (drop_object i d m)) =
      objects_put i (ob\<lparr>ob_group := target_group d, ob_sort := s\<rparr>) (um_objects m)"
    "um_order (snd (drop_object i d m)) = snd (order_reorder i (target_group d) s (um_order m))"
    using False s by (auto simp: drop_object_def Let_def split_beta assign_def state_update_def)
  with reorder [OF assms(1) s(2) peer, of s] show ?thesis by simp
qed

lemma map_drag_end:
  assumes "I (um_objects m) (um_order m)" "drag_end i m = Some (b, m')"
  shows "I (um_objects m') (um_order m')"
  using assms map_drop [of "m\<lparr>um_drag_over := None\<rparr>" i]
  by (fastforce simp: drag_end_def Let_def split: option.splits if_splits
      dest: arg_cong [where f = snd])

lemma map_leave:
  assumes "I (um_objects m) (um_order m)" "f PeerId_ZERO" "\<And>i. keep i False = f (rid_peer_id i)"
  shows "I (objects_retain keep (um_objects m)) (order_retain f (um_order m))"
  using retain [where f = f, OF assms(1,2), where keep = keep] assms(3) by simp

lemma map_accept:
  "I (um_objects m) (um_order m) \<Longrightarrow> I (um_objects (snd (accept m))) (um_order (snd (accept m)))"
  using map_remove
  by (auto simp: accept_def Let_def remove_object_remote_def split: option.splits MapModal.splits)

lemma map_key:
  assumes ok: "I (um_objects m) (um_order m)" and "on_key_down key m = Some (b, msgs, m')"
  shows "I (um_objects m') (um_order m')"
  using assms(2) same [OF same_tables_cancel(2) [of m]] ok map_accept [OF ok] map_toggle(1) [OF ok]
  by (auto simp: on_key_down_def handled_now_def split: KeyPress.splits option.splits
      MapModal.splits if_splits)

text \<open>Broadcasts and messages that bring no objects.\<close>

lemma map_remote:
  assumes ok: "I (um_objects m) (um_order m)" and "peer_in_use body" "new_in_broadcast body = []"
  shows "I (um_objects (snd (remote_update body m))) (um_order (snd (remote_update body m)))"
proof (cases body)
  case (RPeerJoin p objects)
  with assms show ?thesis by (simp add: remote_update_def new_in_broadcast_def)
next
  case (RObjectCreated c i object)
  with assms(3) show ?thesis by (simp add: new_in_broadcast_def)
next
  case RRemoteLost
  with map_leave [OF ok, of "\<lambda>p. p = PeerId_ZERO" "\<lambda>i _. rid_peer_id i = PeerId_ZERO"] show ?thesis
    by (simp add: remote_update_def)
next
  case (RPeerLeave p)
  with assms(2) have "PeerId_ZERO \<noteq> p" by (auto simp: peer_in_use_def pid_is_zero_def PeerId_ZERO_def)
  with RPeerLeave map_leave [OF ok, of "\<lambda>q. q \<noteq> p" "\<lambda>i global. global \<or> rid_peer_id i \<noteq> p"] show ?thesis
    by (simp add: remote_update_def)
next
  case (RPeerDisconnect p)
  with assms(2) have "PeerId_ZERO \<noteq> p" by (auto simp: peer_in_use_def pid_is_zero_def PeerId_ZERO_def)
  with RPeerDisconnect map_leave [OF ok, of "\<lambda>q. q \<noteq> p" "\<lambda>i _. rid_peer_id i \<noteq> p"] show ?thesis
    by (simp add: remote_update_def Let_def)
qed (use ok map_remove map_updated in
    \<open>auto simp: remote_update_def Let_def split: option.splits\<close>)

lemma map_message:
  assumes ok: "I (um_objects m) (um_order m)" and "new_in_message msg = []" "message_in_use msg"
    and "\<And>body. msg \<noteq> M_Initialize body" and "try_update msg m = Some (b, msgs, m')"
  shows "I (um_objects m') (um_order m')"
proof -
  note same = same [OF same_tables_select] same [OF same_tables_cancel(1)]
    same [OF same_tables_config] same [OF same_tables_mumble]
    same [OF same_tables_channel] same [OF same_tables_create]
  show ?thesis
  proof (cases msg)
    case (M_Initialize body)
    with assms(4) show ?thesis by blast
  next
    case (M_RemoteUpdate body)
    with assms map_remote [OF ok, of body] show ?thesis
      by (auto simp: try_update_def new_in_message_def message_in_use_def handled_now_def)
  next
    case (M_DragEnd i)
    with assms(5) map_drag_end [OF ok] show ?thesis
      by (auto simp: try_update_def handled_now_def split: bind_splits)
  next
    case (M_RemoveObject i)
    with assms(1,5) map_remove [of "send (RemoveObject (rid_id i)) m" i] show ?thesis
      by (auto simp: try_update_def handled_now_def remove_object_remote_def)
  next
    case (M_KeyDown key)
    with assms(5) map_key [OF ok] show ?thesis by (auto simp: try_update_def)
  next
    case (M_OpenObject i)
    with assms(1,5) show ?thesis
      by (auto simp: try_update_def open_object_def split: option.splits ObjectKind.splits)
  next
    case (M_OpenSettings i)
    with assms(1,5) same_tables_dialog show ?thesis by (fastforce simp: try_update_def same_tables_def)
  next
    case (M_ConfirmRemove i)
    with assms(1,5) same_tables_dialog show ?thesis by (fastforce simp: try_update_def same_tables_def)
  qed (use assms(5) ok map_toggle [OF ok] same in
      \<open>auto simp: try_update_def handled_now_def split: if_splits\<close>)
qed

end

subsection \<open>Objects that arrive\<close>

definition map_ok :: "UiMap \<Rightarrow> bool" where
  "map_ok m \<longleftrightarrow> tables_ok (um_objects m) (um_order m)"

text \<open>
  Objects that arrive under identifiers that are not in use, or are rooms that are told of again,
  as those of a peer are that comes back.
\<close>

definition free_for :: "Objects \<Rightarrow> RemoteId \<Rightarrow> Type \<Rightarrow> bool" where
  "free_for os i ty \<longleftrightarrow>
     (case hm_get os i of None \<Rightarrow> True | Some ob \<Rightarrow> object_is_global ob \<and> ty = TYPE_ROOM)"

definition fresh_objects :: "Objects \<Rightarrow> (PeerId \<times> RemoteObject) list \<Rightarrow> bool" where
  "fresh_objects os pos \<longleftrightarrow>
     distinct (map po_id pos) \<and>
     list_all (\<lambda>po. free_for os (po_id po) (ro_ty (snd po)) \<and> \<not> id_is_zero (ro_id (snd po))) pos"

lemma free_for_unused: "hm_get os i = None \<Longrightarrow> free_for os i ty"
  by (simp add: free_for_def)

lemma free_for_other: "j \<noteq> i \<Longrightarrow> free_for (hm_insert j ob os) i ty = free_for os i ty"
  by (simp add: free_for_def hm_get_insert)

lemma object_ty_global: "object_ty ob = TYPE_ROOM \<longleftrightarrow> object_is_global ob"
  by (cases "ob_kind ob") (simp_all add: object_ty_def object_is_global_def key_distinct)

lemma object_new_data:
  assumes "object_new p o1 = Some ob" "\<not> id_is_zero (ro_id o1)"
  shows "ob_id ob = po_id (p, o1)" "data_ok (ob_id ob) (order_data ob)"
  using assms(2) by (simp_all add: object_new_fields [OF assms(1)] po_id_def data_ok_def order_data_def)

lemma map_ok_add:
  assumes "map_ok m" "free_for (um_objects m) (ob_id ob) (object_ty ob)" "data_ok (ob_id ob) (order_data ob)"
  shows "map_ok (add_object ob m)"
proof (cases "hm_get (um_objects m) (ob_id ob)")
  case None
  with tables_ok_add assms show ?thesis by (simp add: map_ok_def add_object_def objects_insert_def)
next
  case (Some ob0)
  with assms(2) have "object_is_global ob0" "object_is_global ob"
    by (simp_all add: free_for_def object_ty_global)
  with tables_ok_add_room Some assms(1,3) show ?thesis
    by (simp add: map_ok_def add_object_def objects_insert_def)
qed

lemma map_ok_init_remote:
  "map_ok m \<Longrightarrow> fresh_objects (um_objects m) pos \<Longrightarrow> map_ok (fold init_remote pos m)"
proof (induction pos arbitrary: m)
  case (Cons po pos)
  show ?case
  proof (cases "object_new (fst po) (snd po)")
    case None
    with Cons show ?thesis by (simp add: init_remote_def fresh_objects_def)
  next
    case (Some ob)
    from Cons.prems(2) have po: "free_for (um_objects m) (po_id po) (ro_ty (snd po))" "\<not> id_is_zero (ro_id (snd po))"
      and pos: "fresh_objects (um_objects m) pos" "po_id po \<notin> set (map po_id pos)"
      by (simp_all add: fresh_objects_def)
    note d = object_new_data [OF Some po(2)]
    have "map_ok (add_object ob m)"
      using map_ok_add [OF Cons.prems(1) _ d(2)] po(1) d(1) object_new_ty [OF Some] by simp
    moreover have "fresh_objects (um_objects (add_object ob m)) pos"
      using pos d(1) free_for_other [of "po_id po"]
      by (fastforce simp: fresh_objects_def list_all_iff add_object_def objects_insert_def)
    ultimately show ?thesis using Cons.IH by (simp add: init_remote_def Some)
  qed
qed simp

lemma map_ok_create:
  assumes "map_ok m" "fresh_objects (um_objects m) [(rid_peer_id i, o1)]"
  shows "map_ok (snd (map_create_object i o1 m))"
  using map_ok_init_remote [OF assms]
  by (auto simp: map_create_object_def init_remote_def map_ok_def split: option.splits)

subsection \<open>Initialization\<close>

lemma fold_insert_fresh:
  "distinct (map ob_id obs) \<Longrightarrow> \<forall>ob\<in>set obs. hm_get os (ob_id ob) = None \<Longrightarrow>
   fold (\<lambda>ob os. hm_insert (ob_id ob) ob os) obs os = os @ map (\<lambda>ob. (ob_id ob, ob)) obs"
proof (induction obs arbitrary: os)
  case (Cons ob obs)
  have "\<forall>o'\<in>set obs. hm_get (hm_insert (ob_id ob) ob os) (ob_id o') = None"
    using Cons.prems by (auto simp: hm_get_insert rev_image_eqI)
  with Cons show ?case by (simp add: hm_insert_absent)
qed simp

definition new_objects :: "RemoteObject list \<Rightarrow> Object list" where
  "new_objects objects = List.map_filter (object_new PeerId_ZERO) objects"

lemma init_local_objects:
  "um_objects (fold init_local objects m) =
     fold (\<lambda>ob os. hm_insert (ob_id ob) ob os) (new_objects objects) (um_objects m)"
  "um_order (fold init_local objects m) = um_order m"
  by (induction objects arbitrary: m)
    (simp_all add: new_objects_def map_filter_simps init_local_def objects_insert_def Let_def split: option.split)

lemma new_objects_fresh:
  assumes "fresh_objects [] (map (Pair PeerId_ZERO) objects)"
  shows "distinct (map ob_id (new_objects objects)) \<and>
    (\<forall>ob\<in>set (new_objects objects). data_ok (ob_id ob) (order_data ob) \<and>
      ob_id ob \<in> po_id ` set (map (Pair PeerId_ZERO) objects))"
  using assms
proof (induction objects)
  case (Cons o1 objects)
  from Cons.prems have fresh: "po_id (PeerId_ZERO, o1) \<notin> po_id ` set (map (Pair PeerId_ZERO) objects)"
    "\<not> id_is_zero (ro_id o1)" "fresh_objects [] (map (Pair PeerId_ZERO) objects)"
    by (auto simp: fresh_objects_def)
  note IH = Cons.IH [OF fresh(3)]
  show ?case
  proof (cases "object_new PeerId_ZERO o1")
    case None
    with IH show ?thesis by (auto simp: new_objects_def map_filter_simps)
  next
    case (Some ob)
    have "new_objects (o1 # objects) = ob # new_objects objects"
      by (simp add: new_objects_def map_filter_simps Some)
    with IH object_new_data [OF Some fresh(2)] fresh(1) show ?thesis by auto
  qed
qed (simp add: new_objects_def map_filter_simps)

lemma tables_ok_extend:
  "tables_ok os ors \<Longrightarrow> distinct (map ob_id obs) \<Longrightarrow>
   \<forall>ob\<in>set obs. hm_get os (ob_id ob) = None \<and> data_ok (ob_id ob) (order_data ob) \<Longrightarrow>
   tables_ok (fold (\<lambda>ob os. hm_insert (ob_id ob) ob os) obs os) (order_extend obs ors)"
proof (induction obs arbitrary: os ors)
  case (Cons ob obs)
  have "\<forall>o'\<in>set obs. hm_get (hm_insert (ob_id ob) ob os) (ob_id o') = None"
    using Cons.prems by (auto simp: hm_get_insert rev_image_eqI)
  with Cons.prems Cons.IH [OF tables_ok_add [OF Cons.prems(1)]] show ?case
    by (simp add: order_extend_def)
qed (simp add: order_extend_def)

lemma tables_ok_empty: "tables_ok [] order_default"
  by (simp add: tables_ok_def order_ok_default) (simp add: order_default_def)

lemma map_ok_initialize:
  assumes order: "um_order m = order_default" and fresh: "fresh_objects [] (init_objects body)"
  shows "map_ok (snd (map_initialize body m))"
proof -
  let ?objs = "new_objects (imr_objects body)"
  have locals: "fresh_objects [] (map (Pair PeerId_ZERO) (imr_objects body))"
    and remotes: "fresh_objects [] (imr_peer_objects body)"
    and apart: "set (map po_id (map (Pair PeerId_ZERO) (imr_objects body))) \<inter>
        set (map po_id (imr_peer_objects body)) = {}"
    using fresh by (auto simp: fresh_objects_def init_objects_def)
  note new = new_objects_fresh [OF locals]
  define os where "os = fold (\<lambda>ob os. hm_insert (ob_id ob) ob os) ?objs []"
  have os: "os = map (\<lambda>ob. (ob_id ob, ob)) ?objs"
    unfolding os_def using new fold_insert_fresh [of ?objs "[]"] by simp
  have vals: "hm_values os = ?objs" by (simp add: os hm_values_def comp_def)
  have ok: "tables_ok os (order_extend ?objs order_default)"
    unfolding os_def by (rule tables_ok_extend [OF tables_ok_empty]) (use new in simp_all)
  have "fresh_objects os (imr_peer_objects body)"
    using remotes apart new
    by (fastforce simp: fresh_objects_def list_all_iff os hm_get_def map_of_eq_None_iff
        intro!: free_for_unused)
  then have "map_ok (fold init_remote (imr_peer_objects body)
      (m'\<lparr>um_order := order_extend ?objs order_default\<rparr>))" if "um_objects m' = os" for m'
    using map_ok_init_remote ok that by (simp add: map_ok_def)
  then show ?thesis
    using order vals
    by (simp add: map_initialize_def Let_def objects_clear_def init_local_objects map_ok_def flip: os_def)
qed

subsection \<open>Objects under any identifier\<close>

definition named_objects :: "(PeerId \<times> RemoteObject) list \<Rightarrow> bool" where
  "named_objects pos \<longleftrightarrow> list_all (\<lambda>po. \<not> id_is_zero (ro_id (snd po))) pos"

lemma fresh_named: "fresh_objects os pos \<Longrightarrow> named_objects pos"
  by (simp add: fresh_objects_def named_objects_def list_all_iff)

lemma places_init_remote:
  "places_ok (um_objects m) (um_order m) \<Longrightarrow> named_objects pos \<Longrightarrow>
   places_ok (um_objects (fold init_remote pos m)) (um_order (fold init_remote pos m))"
proof (induction pos arbitrary: m)
  case (Cons po pos)
  have po: "\<not> id_is_zero (ro_id (snd po))" "named_objects pos"
    using Cons.prems(2) by (simp_all add: named_objects_def)
  show ?case
  proof (cases "object_new (fst po) (snd po)")
    case None
    with Cons.IH [OF Cons.prems(1) po(2)] show ?thesis by (simp add: init_remote_def)
  next
    case (Some ob)
    note d = object_new_data [OF Some po(1)]
    have "places_ok (um_objects (add_object ob m)) (um_order (add_object ob m))"
      using places_ok_add [OF Cons.prems(1) d(2)] by (simp add: add_object_def objects_insert_def)
    from Cons.IH [OF this po(2)] show ?thesis by (simp add: init_remote_def Some)
  qed
qed simp

lemma places_create:
  assumes "places_ok (um_objects m) (um_order m)" "named_objects [(rid_peer_id i, o1)]"
  shows "places_ok (um_objects (snd (map_create_object i o1 m))) (um_order (snd (map_create_object i o1 m)))"
  using places_init_remote [OF assms]
  by (auto simp: map_create_object_def init_remote_def split: option.splits)

lemma places_extend:
  "places_ok os ors \<Longrightarrow> \<forall>ob\<in>set obs. data_ok (ob_id ob) (order_data ob) \<Longrightarrow>
   places_ok (fold (\<lambda>ob os. hm_insert (ob_id ob) ob os) obs os) (order_extend obs ors)"
proof (induction obs arbitrary: os ors)
  case (Cons ob obs)
  from Cons.IH [OF places_ok_add [OF Cons.prems(1)]] Cons.prems(2) show ?case
    by (simp add: order_extend_def)
qed (simp add: order_extend_def)

text \<open>A table of objects under their own identifiers is made by inserting its values.\<close>

lemma insert_values:
  assumes "hm_wf os" "\<forall>(i, ob)\<in>set os. ob_id ob = i"
  shows "fold (\<lambda>ob os. hm_insert (ob_id ob) ob os) (hm_values os) [] = os"
proof -
  have os: "map (\<lambda>ob. (ob_id ob, ob)) (hm_values os) = os"
    using assms(2) by (auto simp: hm_values_def comp_def intro!: map_idI)
  have "map ob_id (hm_values os) = hm_keys os"
    using assms(2) by (auto simp: hm_values_def hm_keys_def comp_def)
  then have "distinct (map ob_id (hm_values os))" using assms(1) by (simp add: hm_wf_def hm_keys_def)
  from fold_insert_fresh [OF this, of "[]"] os show ?thesis by simp
qed

lemma insert_all_keyed:
  "hm_wf os \<Longrightarrow> (\<And>i ob. hm_get os i = Some ob \<Longrightarrow> ob_id ob = i \<and> P ob) \<Longrightarrow> \<forall>ob\<in>set obs. P ob \<Longrightarrow>
   hm_wf (fold (\<lambda>ob os. hm_insert (ob_id ob) ob os) obs os) \<and>
   (\<forall>i ob. hm_get (fold (\<lambda>ob os. hm_insert (ob_id ob) ob os) obs os) i = Some ob \<longrightarrow> ob_id ob = i \<and> P ob)"
proof (induction obs arbitrary: os)
  case (Cons ob obs)
  have keyed: "ob_id ob' = i \<and> P ob'" if "hm_get (hm_insert (ob_id ob) ob os) i = Some ob'" for i ob'
    using that Cons.prems(2,3) by (auto simp: hm_get_insert split: if_splits)
  have "hm_wf (hm_insert (ob_id ob) ob os)" "\<forall>ob\<in>set obs. P ob" using Cons.prems(1,3) by simp_all
  from Cons.IH [OF this(1) keyed this(2)] show ?case unfolding fold_simps .
qed simp

lemma new_objects_data:
  assumes "named_objects (map (Pair PeerId_ZERO) objects)"
  shows "\<forall>ob\<in>set (new_objects objects). data_ok (ob_id ob) (order_data ob)"
  using assms
  by (induction objects)
    (auto simp: new_objects_def named_objects_def map_filter_simps split: option.splits
      intro: object_new_data(2))

lemma places_initialize:
  assumes order: "hm_wf (or_objects (um_order m))" "children_ok (or_children (um_order m))"
    and named: "named_objects (init_objects body)"
  shows "places_ok (um_objects (snd (map_initialize body m))) (um_order (snd (map_initialize body m)))"
proof -
  let ?objs = "new_objects (imr_objects body)"
  have named: "named_objects (map (Pair PeerId_ZERO) (imr_objects body))" "named_objects (imr_peer_objects body)"
    using named by (simp_all add: init_objects_def named_objects_def)
  define os where "os = fold (\<lambda>ob os. hm_insert (ob_id ob) ob os) ?objs []"
  have all: "hm_wf os \<and> (\<forall>i ob. hm_get os i = Some ob \<longrightarrow> ob_id ob = i \<and> data_ok (ob_id ob) (order_data ob))"
    unfolding os_def
    by (rule insert_all_keyed [where P = "\<lambda>ob. data_ok (ob_id ob) (order_data ob)"])
      (use new_objects_data [OF named(1)] in simp_all)
  then have wf: "hm_wf os" "\<forall>(i, ob)\<in>set os. ob_id ob = i \<and> data_ok (ob_id ob) (order_data ob)"
    by (simp_all add: hm_mem_get split_beta) (metis hm_mem_get prod.collapse)
  have empty: "places_ok [] (um_order m)" using order by (simp add: places_ok_def)
  have "places_ok os (order_extend (hm_values os) (um_order m))"
    using places_extend [OF empty, of "hm_values os"] wf insert_values [of os]
    by (fastforce simp: hm_values_def)
  then have "places_ok (um_objects (fold init_remote (imr_peer_objects body) m'))
      (um_order (fold init_remote (imr_peer_objects body) m'))"
    if "um_objects m' = os" "um_order m' = order_extend (hm_values os) (um_order m)" for m'
    using places_init_remote [of m'] named(2) that by simp
  then show ?thesis
    by (simp add: map_initialize_def Let_def objects_clear_def init_local_objects flip: os_def)
qed

subsection \<open>Reachable maps\<close>

text \<open>
  What is asked of every message: peers and objects have an identifier. A message is orderly if
  it also initializes a map that has no order yet and creates objects under identifiers that are
  not in use, except for rooms that are told of again.
\<close>

definition msg_ok :: "Msg \<Rightarrow> bool" where
  "msg_ok msg \<longleftrightarrow> message_in_use msg \<and> named_objects (new_in_message msg)"

definition msg_orderly :: "UiMap \<Rightarrow> Msg \<Rightarrow> bool" where
  "msg_orderly m msg =
     (case msg of
        M_Initialize body \<Rightarrow> um_order m = order_default \<and> fresh_objects [] (init_objects body)
      | M_RemoteUpdate body \<Rightarrow> fresh_objects (um_objects m) (new_in_broadcast body)
      | _ \<Rightarrow> True)"

text \<open>The states of a map, with whether all messages so far were orderly.\<close>

inductive map_reach :: "bool \<Rightarrow> UiMap \<Rightarrow> bool" where
  map_reach_new: "map_reach True map_new"
| map_reach_update:
    "map_reach orderly m \<Longrightarrow> msg_ok msg \<Longrightarrow> map_update msg m = Some (changed, msgs, m') \<Longrightarrow>
     map_reach (orderly \<and> msg_orderly m msg) m'"

lemma tables_message:
  assumes ok: "map_ok m" and "msg_ok msg" "msg_orderly m msg" "try_update msg m = Some (b, msgs, m')"
  shows "map_ok m'"
proof (cases "new_in_message msg = [] \<and> (\<forall>body. msg \<noteq> M_Initialize body)")
  case True
  with tables.map_message [OF ok [unfolded map_ok_def] _ _ _ assms(4)] assms(2) show ?thesis
    by (simp add: map_ok_def msg_ok_def)
next
  case False
  show ?thesis
  proof (cases msg)
    case (M_Initialize body)
    with assms map_ok_initialize show ?thesis by (auto simp: try_update_def msg_orderly_def handled_now_def)
  next
    case (M_RemoteUpdate body)
    have fresh: "fresh_objects (um_objects m) (new_in_broadcast body)"
      using assms(3) by (simp add: M_RemoteUpdate msg_orderly_def)
    have m': "m' = snd (remote_update body m)" using assms(4) by (auto simp: M_RemoteUpdate try_update_def handled_now_def)
    from False have "new_in_broadcast body \<noteq> []" by (simp add: M_RemoteUpdate new_in_message_def)
    then show ?thesis
    proof (cases body)
      case (RPeerJoin p objects)
      with map_ok_init_remote [OF ok, of "map (Pair p) objects"] fresh show ?thesis
        by (simp add: m' remote_update_def new_in_broadcast_def map_ok_def fold_map comp_def)
    next
      case (RObjectCreated c i object)
      with map_ok_create [OF ok] fresh show ?thesis
        by (simp add: m' remote_update_def new_in_broadcast_def)
    qed (simp_all add: new_in_broadcast_def)
  qed (use False in \<open>simp_all add: new_in_message_def\<close>)
qed

lemma places_message:
  assumes ok: "places_ok (um_objects m) (um_order m)" and "msg_ok msg" "try_update msg m = Some (b, msgs, m')"
  shows "places_ok (um_objects m') (um_order m')"
proof (cases "new_in_message msg = [] \<and> (\<forall>body. msg \<noteq> M_Initialize body)")
  case True
  with places.map_message [OF ok _ _ _ assms(3)] assms(2) show ?thesis by (simp add: msg_ok_def)
next
  case False
  have named: "named_objects (new_in_message msg)" using assms(2) by (simp add: msg_ok_def)
  show ?thesis
  proof (cases msg)
    case (M_Initialize body)
    with assms(3) places_initialize [OF places_okD(2,3) [OF ok], of body] named show ?thesis
      by (auto simp: try_update_def handled_now_def new_in_message_def)
  next
    case (M_RemoteUpdate body)
    have m': "m' = snd (remote_update body m)" using assms(3) by (auto simp: M_RemoteUpdate try_update_def handled_now_def)
    from False have "new_in_broadcast body \<noteq> []" by (simp add: M_RemoteUpdate new_in_message_def)
    then show ?thesis
    proof (cases body)
      case (RPeerJoin p objects)
      with places_init_remote [OF ok, of "map (Pair p) objects"] named show ?thesis
        by (simp add: M_RemoteUpdate m' remote_update_def new_in_message_def new_in_broadcast_def fold_map comp_def)
    next
      case (RObjectCreated c i object)
      with places_create [OF ok] named show ?thesis
        by (simp add: M_RemoteUpdate m' remote_update_def new_in_message_def new_in_broadcast_def)
    qed (simp_all add: new_in_broadcast_def)
  qed (use False in \<open>simp_all add: new_in_message_def\<close>)
qed

lemma map_reach_ok:
  "map_reach orderly m \<Longrightarrow> places_ok (um_objects m) (um_order m) \<and> (orderly \<longrightarrow> map_ok m)"
proof (induction rule: map_reach.induct)
  case map_reach_new
  have "map_ok map_new" using tables_ok_empty by (simp add: map_ok_def map_new_def)
  moreover have "places_ok (um_objects map_new) (um_order map_new)"
    by (simp add: places_ok_def map_new_def order_default_def children_ok_def)
  ultimately show ?case by blast
next
  case (map_reach_update orderly m msg changed msgs m')
  from map_reach_update(3) obtain b m1 where m1: "try_update msg m = Some (b, msgs, m1)"
    and m': "m' = snd (after_update m1)"
    by (auto simp: map_update_def split: bind_splits prod.splits)
  have after: "um_objects m' = um_objects m1" "um_order m' = um_order m1"
    using same_tables_after [of m1] by (simp_all add: m' same_tables_def)
  from places_message [OF _ map_reach_update(2) m1] tables_message [OF _ map_reach_update(2) _ m1] map_reach_update(4)
  show ?case by (auto simp: after map_ok_def)
qed

text \<open>
  C5. The objects of the map and the tree the list panel walks: in every state the map reaches,
  whatever messages it has received - peers and objects named by identifiers other than zero -,
  also after it was disconnected and initialized again, an object that is not global is known to the order with its group and sort key and stands there
  among the children of its group. As long as the messages are orderly - the map is initialized
  over an empty order, and objects are created under identifiers that are not in use - the order
  holds nothing else: every object that is not global stands in it exactly once, and the sort key
  a drop computes is one the panel shows. After a second initialization it may hold more
  (\<open>second_initialization_keeps_order\<close>).
\<close>

theorem map_shows_its_objects:
  assumes "map_reach orderly m"
  shows "(\<forall>i ob. hm_get (um_objects m) i = Some ob \<and> \<not> object_is_global ob \<longrightarrow>
      hm_get (or_objects (um_order m)) i = Some \<lparr>od_group = ob_group ob, od_sort = ob_sort ob\<rparr> \<and>
      SortKey_new (ob_sort ob) i \<in> set (children_of (or_children (um_order m)) (as_group (ob_group ob)))) \<and>
    (orderly \<longrightarrow> order_ok (um_order m) \<and> sorts_agree (um_objects m) (um_order m) \<and>
      (\<forall>i. hm_get (or_objects (um_order m)) i =
         (case hm_get (um_objects m) i of
            None \<Rightarrow> None
          | Some ob \<Rightarrow>
              if object_is_global ob then None
              else Some \<lparr>od_group = ob_group ob, od_sort = ob_sort ob\<rparr>)))"
proof -
  have places: "places_ok (um_objects m) (um_order m)" and tables: "orderly \<longrightarrow> tables_ok (um_objects m) (um_order m)"
    using map_reach_ok [OF assms] by (simp_all add: map_ok_def)
  show ?thesis
  proof (intro conjI allI impI)
    fix i ob assume ob: "hm_get (um_objects m) i = Some ob \<and> \<not> object_is_global ob"
    with places_okD(4) [OF places, of i ob]
    show "hm_get (or_objects (um_order m)) i = Some \<lparr>od_group = ob_group ob, od_sort = ob_sort ob\<rparr>"
      "SortKey_new (ob_sort ob) i \<in> set (children_of (or_children (um_order m)) (as_group (ob_group ob)))"
      by (simp_all add: order_data_def entries_def)
  next
    assume orderly
    then have t: "tables_ok (um_objects m) (um_order m)" using tables by blast
    show "order_ok (um_order m)" by (rule tables_okD(2) [OF t])
    show "sorts_agree (um_objects m) (um_order m)" by (rule tables_ok_agree [OF t])
    fix i
    show "hm_get (or_objects (um_order m)) i =
         (case hm_get (um_objects m) i of
            None \<Rightarrow> None
          | Some ob \<Rightarrow>
              if object_is_global ob then None
              else Some \<lparr>od_group = ob_group ob, od_sort = ob_sort ob\<rparr>)"
      using tables_okD(4) [OF t, of i] by (simp add: order_data_def split: option.split)
  qed
qed

definition example_join :: Msg where
  "example_join = M_RemoteUpdate (RObjectCreated 0 (rid_local (Id_new 7)) example_token)"

theorem map_shows_its_objects_witness:
  "\<exists>m ob. map_reach True m \<and> order_ok (um_order m) \<and>
    hm_get (um_objects m) (rid_local (Id_new 7)) = Some ob \<and>
    SortKey_new (ob_sort ob) (rid_local (Id_new 7))
      \<in> set (children_of (or_children (um_order m)) (as_group (ob_group ob)))"
proof -
  obtain ob where ob: "object_new PeerId_ZERO example_token = Some ob"
    using object_new_total [of PeerId_ZERO example_token]
    by (cases "object_new PeerId_ZERO example_token") (auto simp: example_token_def)
  have id: "ob_id ob = rid_local (Id_new 7)"
    using object_new_fields(1) [OF ob] by (simp add: example_token_def rid_local_def)
  have ty: "\<not> object_is_global ob"
    using object_new_ty [OF ob] by (simp add: example_token_def key_distinct flip: object_ty_global)
  let ?m = "(add_object ob map_new)\<lparr>um_update_cache := True, um_redraw := True\<rparr>"
  have step: "try_update example_join map_new = Some (True, [], ?m)"
    by (simp add: example_join_def try_update_def handled_now_def remote_update_def map_create_object_def
        rid_local_def ob)
  have orderly: "msg_orderly map_new example_join"
    by (simp add: msg_orderly_def example_join_def fresh_objects_def new_in_broadcast_def
        free_for_def map_new_def hm_get_def example_token_def id_is_zero_def)
  have ok: "msg_ok example_join"
    by (simp add: msg_ok_def message_in_use_def new_in_message_def example_join_def peer_in_use_def
        named_objects_def new_in_broadcast_def example_token_def id_is_zero_def)
  have "map_update example_join map_new = Some (True, [], snd (after_update ?m))"
    by (simp add: map_update_def step split_beta)
  from map_reach_update [OF map_reach_new ok this] orderly
  have reach: "map_reach True (snd (after_update ?m))" by simp
  have os: "hm_get (um_objects (snd (after_update ?m))) (rid_local (Id_new 7)) = Some ob"
    using same_tables_after [of ?m] by (simp add: same_tables_def add_object_def objects_insert_def hm_get_insert id)
  show ?thesis
    using map_shows_its_objects [OF reach] reach os ty by blast
qed

end
