(* ===== verification/UiMapErr.thy ===== *)
theory UiMapErr
  imports UiMapInv
begin

section \<open>Where the map goes wrong\<close>

text \<open>
  Dropping a group into itself closes a cycle that following the groups does not leave; a second
  initialization leaves what the first has put into the order; the key that should confirm a
  dialog does not.
\<close>

subsection \<open>Groups in themselves\<close>

text \<open>Once an object is moved below itself, the way up from it comes back to it.\<close>

lemma way_up_returns:
  assumes "i \<noteq> RemoteId_ZERO" "hm_get os i \<noteq> None"
  shows "group_walk n os j = Some obs \<Longrightarrow> i \<in> set (walk_ids j obs) \<Longrightarrow>
    group_walk k (objects_put i ob os) j = Some ys \<Longrightarrow> i \<in> set (walk_ids j ys)"
proof (induction n arbitrary: j obs k ys)
  case (Suc n)
  obtain ob0 rest where walk: "obs = ob0 # rest" "j \<noteq> RemoteId_ZERO" "hm_get os j = Some ob0"
    "group_walk n os (ob_group ob0) = Some rest"
    using Suc.prems(1) by (rule group_walk_SucE) (use Suc.prems(2) in auto)
  obtain k' where k: "k = Suc k'" using Suc.prems(3) by (cases k) auto
  show ?case
  proof (cases "j = i")
    case True
    with Suc.prems(3) assms k show ?thesis
      by (auto simp: objects_put_def hm_get_insert)
  next
    case False
    then obtain ys' where "ys = ob0 # ys'" "group_walk k' (objects_put i ob os) (ob_group ob0) = Some ys'"
      using Suc.prems(3) walk(2,3) k by (auto simp: objects_put_def hm_get_insert)
    with Suc.IH [OF walk(4)] Suc.prems(2) False walk(1) show ?thesis by auto
  qed
qed simp

lemma below_itself_no_way_up:
  assumes "i \<noteq> RemoteId_ZERO" "hm_get os i \<noteq> None"
    and "group_walk n os (ob_group ob) = Some obs" "i \<in> set (walk_ids (ob_group ob) obs)"
  shows "group_walk k (objects_put i ob os) i = None"
proof (rule ccontr)
  assume "group_walk k (objects_put i ob os) i \<noteq> None"
  then obtain ys where ys: "group_walk k (objects_put i ob os) i = Some ys" by auto
  then obtain k' where k: "k = Suc k'" by (cases k) auto
  then obtain rest where rest: "ys = ob # rest" "group_walk k' (objects_put i ob os) (ob_group ob) = Some rest"
    using ys assms(1) by (auto simp: objects_put_def hm_get_insert)
  from way_up_returns [OF assms(1,2,3,4) rest(2)] distinct_walk_ids [OF ys] rest(1)
  show False by simp
qed

lemma visibility_no_way_up:
  assumes "\<And>n. group_walk n os i = None"
  shows "visibility os i = None"
  using visibility_loop_ends [of os Vis_Remote i] assms
  by (cases "visibility os i") (force simp: visibility_def)+

text \<open>
  C35. A group can be dropped into a group below itself: the drop is carried out, nothing checks
  for it, and from then on the visibility of the group, which drawing and the list ask for, is a
  loop that does not end.
\<close>

theorem dropped_below_itself_hangs:
  assumes "um_drag_over m = Some d" "rid_is_local i" "\<not> rid_is_zero i"
    and "hm_get (um_objects m) i = Some ob" "objects_is_locked (um_objects m) i = Some False"
    and "rid_is_local (target_group d)" "target_group d \<noteq> i"
    and "drag_new_sort d (um_objects m) (um_order m) = Some s"
    and "group_walk n (um_objects m) (target_group d) = Some obs"
    and "i \<in> set (walk_ids (target_group d) obs)"
  shows "\<exists>m'. drag_end i m = Some (True, m') \<and>
    hm_get (um_objects m') i = Some (ob\<lparr>ob_group := target_group d, ob_sort := s\<rparr>) \<and>
    visibility (um_objects m') i = None"
proof -
  let ?ob = "ob\<lparr>ob_group := target_group d, ob_sort := s\<rparr>"
  have "i \<noteq> RemoteId_ZERO" using assms(3) by (auto simp: rid_is_zero_def RemoteId_ZERO_def Id_ZERO_def id_is_zero_def pid_is_zero_def PeerId_ZERO_def)
  then have no_way: "group_walk k (objects_put i ?ob (um_objects m)) i = None" for k
    using below_itself_no_way_up [of i "um_objects m" n ?ob obs k] assms(4,9,10) by simp
  let ?m = "snd (drop_object i d (m\<lparr>um_drag_over := None\<rparr>))"
  have "drag_end i m = Some (True, ?m)"
    using assms(1-5) by (simp add: drag_end_def drop_object_def Let_def split_beta split: option.split)
  moreover have os: "um_objects ?m = objects_put i ?ob (um_objects m)"
    using assms(4,6-8) by (simp add: drop_object_def Let_def split_beta assign_def state_update_def)
  moreover have "visibility (um_objects ?m) i = None"
    unfolding os by (rule visibility_no_way_up) (rule no_way)
  ultimately show ?thesis by (auto simp: objects_put_def hm_get_insert)
qed

definition example_nested :: UiMap where
  "example_nested = map_new\<lparr>
     um_objects := [(rid_local (Id_new 1), example_object 1 0 [5] (KGroup (group_new example_token))),
       (rid_local (Id_new 2), example_object 2 1 [7] (KGroup (group_new example_token)))],
     um_drag_over := Some \<lparr>dg_drag = Into, dg_group = RemoteId_ZERO, dg_target = rid_local (Id_new 2)\<rparr>\<rparr>"

theorem dropped_below_itself_hangs_witness:
  "\<exists>m'. drag_end (rid_local (Id_new 1)) example_nested = Some (True, m') \<and>
    visibility (um_objects m') (rid_local (Id_new 1)) = None"
proof -
  let ?i = "rid_local (Id_new 1)" and ?j = "rid_local (Id_new 2)" and ?os = "um_objects example_nested"
  let ?d = "\<lparr>dg_drag = Into, dg_group = RemoteId_ZERO, dg_target = ?j\<rparr>"
  note defs = example_nested_def map_new_def rid_local_def hm_get_def example_object_def RemoteId_ZERO_def
    Id_ZERO_def PeerId_ZERO_def
  have walk_i: "group_walk 2 ?os ?i = Some [example_object 1 0 [5] (KGroup (group_new example_token))]"
    by (simp add: defs numeral_2_eq_2)
  have walk_j: "group_walk 3 ?os ?j = Some [example_object 2 1 [7] (KGroup (group_new example_token)),
      example_object 1 0 [5] (KGroup (group_new example_token))]"
    by (simp add: defs numeral_2_eq_2 numeral_3_eq_3)
  have unlocked: "objects_is_locked ?os ?i = Some False"
    unfolding objects_is_locked_walk [OF walk_i]
    by (simp add: example_object_def object_is_locked_def group_new_def example_token_def props_get_def hm_get_def)
  have "\<exists>m'. drag_end ?i example_nested = Some (True, m') \<and>
      hm_get (um_objects m') ?i = Some (example_object 1 0 [5] (KGroup (group_new example_token))
        \<lparr>ob_group := target_group ?d, ob_sort := id_to_vec (Id_new 2)\<rparr>) \<and>
      visibility (um_objects m') ?i = None"
  proof (rule dropped_below_itself_hangs [OF _ _ _ _ unlocked])
    show "group_walk 3 ?os (target_group ?d) = Some [example_object 2 1 [7] (KGroup (group_new example_token)),
      example_object 1 0 [5] (KGroup (group_new example_token))]" using walk_j by (simp add: target_group_def)
    show "drag_new_sort ?d ?os (um_order example_nested) = Some (id_to_vec (Id_new 2))"
      by (simp add: drag_new_sort_def defs order_iter_def order_default_def children_of_def sort_at_def)
  qed (simp_all add: defs target_group_def rid_is_local_def rid_is_zero_def id_is_zero_def pid_is_zero_def)
  then show ?thesis by blast
qed

subsection \<open>A second initialization\<close>

definition still_filed :: "RemoteId \<Rightarrow> SortKey \<Rightarrow> OrderRef \<Rightarrow> bool" where
  "still_filed g k ors \<longleftrightarrow> k \<in> set (children_of (or_children ors) g)"

lemma still_filed_insert: "still_filed g k ors \<Longrightarrow> still_filed g k (snd (order_insert ob ors))"
  by (auto simp: still_filed_def order_insert_def data_insert_def entry_insert_def split_beta Let_def
      children_of_insert)

lemma still_filed_extend: "still_filed g k ors \<Longrightarrow> still_filed g k (order_extend obs ors)"
  unfolding order_extend_def by (induction obs arbitrary: ors) (simp_all add: still_filed_insert)

lemma still_filed_init_remote:
  "still_filed g k (um_order m) \<Longrightarrow> still_filed g k (um_order (fold init_remote pos m))"
  by (induction pos arbitrary: m) (simp_all add: init_remote_def add_object_def still_filed_insert split: option.split)

lemma init_remote_objects:
  "i \<notin> po_id ` set pos \<Longrightarrow>
   hm_get (um_objects (fold init_remote pos m)) i = hm_get (um_objects m) i"
proof (induction pos arbitrary: m)
  case (Cons po pos)
  then show ?case
    by (auto simp: init_remote_def add_object_def objects_insert_def hm_get_insert po_id_def
        object_new_fields(1) split: option.split)
qed simp

lemma fold_insert_other:
  "i \<notin> ob_id ` set obs \<Longrightarrow> hm_get (fold (\<lambda>ob os. hm_insert (ob_id ob) ob os) obs os) i = hm_get os i"
  by (induction obs arbitrary: os) (auto simp: hm_get_insert)

lemma new_objects_ids: "ob_id ` set (new_objects objects) \<subseteq> po_id ` set (map (Pair PeerId_ZERO) objects)"
  by (induction objects)
    (auto simp: new_objects_def map_filter_simps po_id_def object_new_fields(1) split: option.split)

text \<open>
  A map that is initialized again, after its connection was lost, keeps what it had in the
  order: an object that no longer exists is still counted and listed under its old group, and one
  that was moved is listed twice.
\<close>

theorem second_initialization_keeps_order:
  assumes "k \<in> set (children_of (or_children (um_order m)) g)"
  shows "k \<in> set (children_of (or_children (um_order (snd (map_initialize body m)))) g) \<and>
    (sk_id k \<notin> po_id ` set (init_objects body) \<longrightarrow>
     hm_get (um_objects (snd (map_initialize body m))) (sk_id k) = None)"
proof -
  have "k \<in> set (children_of (or_children (um_order (snd (map_initialize body m)))) g)"
    using assms still_filed_init_remote still_filed_extend
    by (simp add: map_initialize_def Let_def init_local_objects flip: still_filed_def)
  moreover have "hm_get (um_objects (snd (map_initialize body m))) (sk_id k) = None"
    if "sk_id k \<notin> po_id ` set (init_objects body)"
  proof -
    have "sk_id k \<notin> ob_id ` set (new_objects (imr_objects body))"
      "sk_id k \<notin> po_id ` set (imr_peer_objects body)"
      using that new_objects_ids [of "imr_objects body"] by (auto simp: init_objects_def)
    then show ?thesis
      by (simp add: map_initialize_def Let_def init_remote_objects init_local_objects
          objects_clear_def fold_insert_other)
  qed
  ultimately show ?thesis by blast
qed

definition empty_map :: InitializeMapResponse where
  "empty_map = \<lparr>imr_public_key = PublicKey_ZERO, imr_props = [], imr_objects = [], imr_images = [],
     imr_peers = [], imr_peer_objects = []\<rparr>"

lemma child_count_children:
  "order_child_count RemoteId_ZERO ors = length (children_of (or_children ors) RemoteId_ZERO)"
proof -
  have "as_group RemoteId_ZERO = RemoteId_ZERO"
    by (simp add: as_group_def RemoteId_ZERO_def)
  then show ?thesis by (simp add: order_child_count_def children_of_def split: option.split)
qed

theorem second_initialization_keeps_order_witness:
  "order_child_count RemoteId_ZERO (um_order (snd (map_initialize empty_map (map_new\<lparr>um_order := example_order\<rparr>)))) > 0 \<and>
   hm_get (um_objects (snd (map_initialize empty_map (map_new\<lparr>um_order := example_order\<rparr>)))) (rid_local (Id_new 3)) = None"
proof -
  let ?m = "map_new\<lparr>um_order := example_order\<rparr>"
  have "SortKey_new [4] (rid_local (Id_new 3)) \<in> set (children_of (or_children (um_order ?m)) RemoteId_ZERO)"
    by (simp add: example_order_eq children_of_def hm_get_def)
  from second_initialization_keeps_order [OF this, of empty_map]
  have "SortKey_new [4] (rid_local (Id_new 3)) \<in>
      set (children_of (or_children (um_order (snd (map_initialize empty_map ?m)))) RemoteId_ZERO)"
    "hm_get (um_objects (snd (map_initialize empty_map ?m))) (rid_local (Id_new 3)) = None"
    by (simp_all add: init_objects_def empty_map_def)
  then show ?thesis by (auto simp: child_count_children)
qed

subsection \<open>Confirming a dialog\<close>

text \<open>
  The Enter key never confirms a dialog: with a dialog open it does nothing at all, and
  without one there is nothing to confirm, so that the map never changes.
\<close>

theorem enter_confirms_nothing:
  "on_key_down Key_Enter m = Some (False, [], m)"
  by (simp add: on_key_down_def handled_now_def accept_def)

end
