(* ===== verification/UiSync.thy ===== *)
theory UiSync
  imports UiMapErr WebSync
begin

section \<open>The map and the backend\<close>

text \<open>
  Every window shows a copy of the objects of the backend. It loads them when its connection
  opens and then follows the broadcasts of the backend. This section shows that the copy stays
  one, whatever the windows request, as long as a window has taken note of what was broadcast
  before it changes something itself.
\<close>

subsection \<open>Broadcasts that arrive\<close>

definition received :: "Msg \<Rightarrow> UiMap \<Rightarrow> UiMap" where
  "received msg m = (case map_update msg m of None \<Rightarrow> m | Some (_, _, m') \<Rightarrow> m')"

definition deliver :: "Broadcast \<Rightarrow> UiMap \<Rightarrow> UiMap" where
  "deliver e m =
     (case e of
        BUpdate body \<Rightarrow> received (M_ConfigUpdate body) m
      | BRemoteUpdate body \<Rightarrow> received (M_RemoteUpdate body) m
      | BNotification _ \<Rightarrow> m)"

definition shown :: "UiMap \<Rightarrow> Id \<Rightarrow> Object option" where
  "shown m i = hm_get (um_objects m) (rid_local i)"

lemma received_now:
  "try_update msg m = handled_now r \<Longrightarrow> received msg m = snd (after_update (snd r))"
  by (simp add: received_def map_update_def handled_now_def split_beta)

lemma deliver_simps:
  "deliver (BUpdate u) m = snd (after_update (snd (config_update u m)))"
  "deliver (BRemoteUpdate body) m = snd (after_update (snd (remote_update body m)))"
  "deliver (BNotification n) m = m"
  by (simp_all add: deliver_def received_now try_update_def)

lemma shown_tables: "same_tables m m' \<Longrightarrow> shown m' = shown m"
  by (simp add: same_tables_def shown_def fun_eq_iff)

lemma shown_after [simp]: "shown (snd (after_update m)) = shown m"
  by (rule shown_tables) (rule same_tables_after)

lemma rid_local_eq [simp]: "rid_local i = rid_local j \<longleftrightarrow> i = j"
  by (simp add: rid_local_def)

text \<open>The channel of a window changes only when its connection does.\<close>

lemma channel_send_updates: "um_channel (fold send_update iks m) = um_channel m"
  by (induction iks arbitrary: m) (auto simp: send_update_def send_def split: prod.split option.split)

lemma channel_after [simp]: "um_channel (snd (after_update m)) = um_channel m"
  by (simp add: after_update_def send_updates_def channel_send_updates Let_def)

lemma channel_select [simp]: "um_channel (snd (select_object i m)) = um_channel m"
  by (auto simp: select_object_def note_update_def Let_def split: prod.splits bool.splits
      option.splits MapModal.splits)

lemma channel_init_remote [simp]: "um_channel (fold init_remote pos m) = um_channel m"
  by (induction pos arbitrary: m) (simp_all add: init_remote_def add_object_def split: option.split)

lemma channel_init_local [simp]: "um_channel (fold init_local objects m) = um_channel m"
  by (induction objects arbitrary: m) (simp_all add: init_local_def Let_def split: option.split)

lemma channel_join [simp]: "um_channel (fold (\<lambda>o1. init_remote (p, o1)) objects m) = um_channel m"
  using channel_init_remote [of "map (Pair p) objects" m] by (simp add: fold_map comp_def)

lemma channel_initialize [simp]: "um_channel (snd (map_initialize body m)) = um_channel m"
  by (simp add: map_initialize_def Let_def)

lemma channel_config [simp]: "um_channel (snd (config_update u m)) = um_channel m"
  by (auto simp: config_update_def Let_def split: UpdateBody.splits prod.splits)

lemma channel_remove [simp]: "um_channel (snd (map_remove_object i m)) = um_channel m"
  by (simp add: map_remove_object_def Let_def)

lemma channel_remote [simp]: "um_channel (snd (remote_update body m)) = um_channel m"
  by (simp add: remote_update_def map_create_object_def add_object_def map_object_updated_def Let_def split_beta
      split: RemoteUpdateBody.split option.split)

lemma channel_deliver [simp]: "um_channel (deliver e m) = um_channel m"
  by (cases e) (simp_all add: deliver_simps)

lemma channel_deliver_all [simp]: "um_channel (fold deliver es m) = um_channel m"
  by (induction es arbitrary: m) simp_all

text \<open>What a broadcast does to the copies of the local objects.\<close>

definition about_objects :: "Broadcast \<Rightarrow> bool" where
  "about_objects e =
     (case e of
        BRemoteUpdate (RPeerConnected _) \<Rightarrow> False
      | BRemoteUpdate (RPeerUpdate _ _ _) \<Rightarrow> False
      | BRemoteUpdate (RImageCreated _) \<Rightarrow> False
      | BRemoteUpdate (RImageRemoved _) \<Rightarrow> False
      | BRemoteUpdate _ \<Rightarrow> True
      | _ \<Rightarrow> False)"

lemma shown_config [simp]: "shown (snd (config_update u m)) = shown m"
  by (rule shown_tables) (rule same_tables_config)

lemma shown_quiet: "\<not> about_objects e \<Longrightarrow> shown (deliver e m) = shown m"
  by (auto simp: about_objects_def deliver_simps remote_update_def Let_def
      split: Broadcast.splits RemoteUpdateBody.splits option.splits) (simp_all add: shown_def fun_eq_iff)

lemma shown_quiets: "\<not> list_ex about_objects es \<Longrightarrow> shown (fold deliver es m) = shown m"
  by (induction es arbitrary: m) (simp_all add: shown_quiet)

lemma shown_updated:
  "shown (deliver (BRemoteUpdate (RObjectUpdated c (rid_local i) key v)) m) =
     (\<lambda>j. if j = i \<and> um_channel m \<noteq> c then map_option (\<lambda>ob. snd (ob_update key v ob)) (shown m j)
          else shown m j)"
  by (auto simp: deliver_simps remote_update_def map_object_updated_def Let_def split_beta fun_eq_iff
      split: option.split) (auto simp: shown_def objects_put_def hm_get_insert)

lemma shown_created:
  "shown (deliver (BRemoteUpdate (RObjectCreated c (rid_local i) o1)) m) =
     (\<lambda>j. case object_new PeerId_ZERO o1 of
        Some ob \<Rightarrow> if j = ro_id o1 then Some ob else shown m j
      | None \<Rightarrow> shown m j)"
  by (auto simp: deliver_simps remote_update_def map_create_object_def add_object_def fun_eq_iff
      split: option.split)
    (auto simp: shown_def objects_insert_def hm_get_insert rid_local_def object_new_fields(1))

lemma shown_removed_object: "shown (snd (map_remove_object i m)) j = (if rid_local j = i then None else shown m j)"
  using same_tables_select [of "m\<lparr>um_active := hs_remove i (um_active m),
      um_objects := snd (objects_remove i (um_objects m)), um_order := snd (order_remove i (um_order m))\<rparr>" RemoteId_ZERO]
  by (auto simp: map_remove_object_def Let_def shown_def same_tables_def objects_remove_def hm_get_remove)

lemma shown_removed:
  "shown (deliver (BRemoteUpdate (RObjectRemoved c (rid_local i))) m) =
     (\<lambda>j. if j = i \<and> um_channel m \<noteq> c then None else shown m j)"
  by (auto simp: deliver_simps remote_update_def shown_removed_object fun_eq_iff)

subsection \<open>Copies of objects\<close>

text \<open>
  A copy shows an object when it reads the same for every key, apart from excused keys and the
  position of tokens, which the animation moves. Objects of unknown types have no copy.
\<close>

definition object_types :: "Type set" where
  "object_types = {TYPE_TOKEN, TYPE_STATIC, TYPE_GROUP, TYPE_ROOM}"

definition same_object :: "Key set \<Rightarrow> LocalObject option \<Rightarrow> Object option \<Rightarrow> bool" where
  "same_object ex lo copy =
     (case lo of
        None \<Rightarrow> copy = None
      | Some lo \<Rightarrow>
          (case copy of
             None \<Rightarrow> lo_ty lo \<notin> object_types
           | Some ob \<Rightarrow>
               object_ty ob = lo_ty lo \<and>
               (\<forall>key. key \<in> ex \<or> (key = KEY_TRANSFORM \<and> lo_ty lo = TYPE_TOKEN) \<or>
                  same_reading (object_get ob key)
                    (read_value (lo_ty lo) key (props_get (lo_props lo) key)))))"

text \<open>Agreement of a window with the backend, up to objects and keys it has changed itself.\<close>

definition agrees :: "Id set \<Rightarrow> (Id \<times> Key) set \<Rightarrow> Backend \<Rightarrow> UiMap \<Rightarrow> bool" where
  "agrees J K b m \<longleftrightarrow>
     (\<forall>i. i \<notin> J \<longrightarrow> same_object {key. (i, key) \<in> K} (hm_get (bk_objects b) i) (shown m i))"

lemma agreesD: "agrees J K b m \<Longrightarrow> i \<notin> J \<Longrightarrow>
   same_object {key. (i, key) \<in> K} (hm_get (bk_objects b) i) (shown m i)"
  by (simp add: agrees_def)

lemma agrees_same:
  "bk_objects b' = bk_objects b \<Longrightarrow> shown m' = shown m \<Longrightarrow> agrees J K b' m' = agrees J K b m"
  by (simp add: agrees_def)

lemma not_moving: "object_ty ob \<noteq> TYPE_TOKEN \<Longrightarrow> \<not> object_has_interpolation ob"
  by (auto simp: object_ty_def object_has_interpolation_def split: ObjectKind.splits)

lemma same_object_update:
  assumes "same_object ex (Some lo) copy"
    and "lo_ty lo' = lo_ty lo"
    "\<And>k. props_get (lo_props lo') k = (if k = key then value_norm v else props_get (lo_props lo) k)"
  shows "same_object (ex - {key}) (Some lo') (map_option (\<lambda>ob. snd (ob_update key v ob)) copy)"
proof (cases copy)
  case None
  with assms show ?thesis by (simp add: same_object_def)
next
  case (Some ob)
  have ty: "object_ty ob = lo_ty lo" using assms(1) by (simp add: same_object_def Some)
  have "same_reading (object_get (snd (ob_update key v ob)) k)
      (read_value (lo_ty lo) k (props_get (lo_props lo') k))"
    if "k \<notin> ex - {key}" "\<not> (k = KEY_TRANSFORM \<and> lo_ty lo = TYPE_TOKEN)" for k
  proof (cases "k = key")
    case True
    have "key = KEY_TRANSFORM \<longrightarrow> \<not> object_has_interpolation ob"
      using that(2) True not_moving [of ob] ty by auto
    from ob_update_read [OF this, of v] True show ?thesis
      by (simp add: assms(3) ty read_value_norm)
  next
    case False
    with that assms(1) show ?thesis by (auto simp: same_object_def Some assms(3) ob_update_other)
  qed
  with ty show ?thesis by (auto simp: same_object_def Some assms(2) ob_update_frame)
qed

lemma same_object_mono: "same_object ex lo copy \<Longrightarrow> ex \<subseteq> ex' \<Longrightarrow> same_object ex' lo copy"
  by (auto simp: same_object_def split: option.splits)

lemma same_object_updates:
  "same_object ex (Some lo) copy \<Longrightarrow>
   same_object ex (Some (set_object_props kvs lo))
     (fold (\<lambda>(key, v). map_option (\<lambda>ob. snd (ob_update key v ob))) kvs copy)"
proof (induction kvs arbitrary: lo copy)
  case (Cons x kvs)
  obtain key v where x: "x = (key, v)" by (cases x)
  let ?lo = "lo\<lparr>lo_props := props_put key v (lo_props lo), lo_changed := hs_insert key (lo_changed lo)\<rparr>"
  have "same_object (ex - {key}) (Some ?lo) (map_option (\<lambda>ob. snd (ob_update key v ob)) copy)"
    by (rule same_object_update [OF Cons.prems]) (simp_all add: props_get_put)
  then have "same_object ex (Some ?lo) (map_option (\<lambda>ob. snd (ob_update key v ob)) copy)"
    by (rule same_object_mono) blast
  from Cons.IH [OF this] show ?case by (simp add: x)
qed simp

lemma same_object_new:
  "object_new p \<lparr>ro_ty = ty, ro_id = i, ro_props = props\<rparr> = copy \<Longrightarrow>
   same_object ex (Some \<lparr>lo_ty = ty, lo_id = i, lo_props = props, lo_changed = ks\<rparr>) copy"
  by (cases copy) (auto simp: same_object_def object_types_def object_new_total object_new_ty object_read)

subsection \<open>Operations of the backend and what windows hear of them\<close>

definition conveyed :: "ChannelId \<Rightarrow> Backend \<Rightarrow> Backend \<Rightarrow> bool" where
  "conveyed c b b' \<longleftrightarrow>
     (\<exists>es. bk_broadcasts b' = bk_broadcasts b @ es \<and>
       (\<forall>J K m. um_channel m = c \<longrightarrow> agrees J K b m \<longrightarrow> agrees J K b' (fold deliver es m)))"

definition news :: "Backend \<Rightarrow> Backend \<Rightarrow> Broadcast list" where
  "news b b' = drop (length (bk_broadcasts b)) (bk_broadcasts b')"

lemma conveyed_news:
  "conveyed (um_channel m) b b' \<Longrightarrow> agrees J K b m \<Longrightarrow> agrees J K b' (fold deliver (news b b') m)"
  by (auto simp: conveyed_def news_def)

lemma conveyed_trans: "conveyed c b b1 \<Longrightarrow> conveyed c b1 b2 \<Longrightarrow> conveyed c b b2"
  unfolding conveyed_def by (elim exE conjE, rule_tac x = "es @ esa" in exI) simp

text \<open>Operations that change no object and tell nothing about objects.\<close>

definition quietly :: "Backend \<Rightarrow> Backend \<Rightarrow> bool" where
  "quietly b b' \<longleftrightarrow> bk_objects b' = bk_objects b \<and>
     (\<exists>es. bk_broadcasts b' = bk_broadcasts b @ es \<and> \<not> list_ex about_objects es)"

lemma quietly_silent:
  "bk_objects b' = bk_objects b \<Longrightarrow> bk_broadcasts b' = bk_broadcasts b \<Longrightarrow> quietly b b'"
  by (simp add: quietly_def)

lemma quietly_refl: "quietly b b"
  by (rule quietly_silent) simp_all

lemma quietly_trans: "quietly b b1 \<Longrightarrow> quietly b1 b2 \<Longrightarrow> quietly b b2"
  by (force simp: quietly_def)

lemma quietly_broadcast: "\<not> about_objects e \<Longrightarrow> quietly b (broadcast e b)"
  by (simp add: quietly_def broadcast_def)

lemma quietly_fold: "(\<And>x. \<not> about_objects (ev x)) \<Longrightarrow> quietly b (fold (\<lambda>x. broadcast (ev x)) xs b)"
proof (induction xs arbitrary: b)
  case (Cons x xs)
  show ?case using quietly_trans [OF quietly_broadcast [OF Cons.prems [of x]] Cons.IH [OF Cons.prems]] by simp
qed (simp add: quietly_refl)

lemma quietly_conveyed: "quietly b b' \<Longrightarrow> conveyed c b b'"
  by (auto simp: quietly_def conveyed_def agrees_def shown_quiets)

lemmas conveyed_silent = quietly_conveyed [OF quietly_silent]
lemmas conveyed_refl = quietly_conveyed [OF quietly_refl]

definition told_updates :: "ChannelId \<Rightarrow> Id \<Rightarrow> (Key \<times> Value) list \<Rightarrow> Broadcast list" where
  "told_updates c i kvs = map (\<lambda>(key, v). BRemoteUpdate (RObjectUpdated c (rid_local i) key v)) kvs"

lemma told_broadcasts:
  "bk_broadcasts (fold (\<lambda>(key, v). broadcast (BRemoteUpdate (RObjectUpdated c (rid_local i) key v))) kvs b) =
     bk_broadcasts b @ told_updates c i kvs"
  by (induction kvs arbitrary: b) (auto simp: told_updates_def broadcast_def)

lemma shown_told:
  "shown (fold deliver (told_updates c i kvs) m) =
     (\<lambda>j. if j = i \<and> um_channel m \<noteq> c
          then fold (\<lambda>(key, v). map_option (\<lambda>ob. snd (ob_update key v ob))) kvs (shown m j)
          else shown m j)"
proof (induction kvs arbitrary: m)
  case (Cons x kvs)
  then show ?case by (cases x) (auto simp: told_updates_def shown_updated fun_eq_iff)
qed (simp add: told_updates_def fun_eq_iff)

lemma object_update_link_broadcasts: "bk_broadcasts (object_update_link i kvs b) = bk_broadcasts b"
proof (induction i kvs b rule: object_update_link.induct)
  case (2 i key v kvs b)
  then show ?case
    by (simp add: Let_def set_mumblelink_transform_def set_hidden_def split: option.split)
qed simp

lemma object_update_fields:
  "bk_objects (object_update i kvs b) =
     (case hm_get (bk_objects b) i of
        None \<Rightarrow> bk_objects b
      | Some lo \<Rightarrow> hm_insert i (set_object_props kvs lo) (bk_objects b))"
  "bk_broadcasts (object_update i kvs b) = bk_broadcasts b"
  using sharedD(1) [OF shared_object_update_link [of i kvs b]]
  by (auto simp: object_update_def Let_def notify_client_def object_update_link_broadcasts split: option.split)

lemma conveyed_object_update:
  assumes "c \<noteq> c0"
  shows "conveyed c b (fold (\<lambda>(key, v). broadcast (BRemoteUpdate (RObjectUpdated c0 (rid_local i) key v)))
    kvs (object_update i kvs b))"
  unfolding conveyed_def
proof (intro exI [of _ "told_updates c0 i kvs"] conjI allI impI)
  let ?b = "fold (\<lambda>(key, v). broadcast (BRemoteUpdate (RObjectUpdated c0 (rid_local i) key v)))
    kvs (object_update i kvs b)"
  show "bk_broadcasts ?b = bk_broadcasts b @ told_updates c0 i kvs"
    by (simp add: told_broadcasts object_update_fields)
  fix J K m
  assume m: "um_channel m = c" "agrees J K b m"
  show "agrees J K ?b (fold deliver (told_updates c0 i kvs) m)"
    unfolding agrees_def
  proof (intro allI impI)
    fix j
    assume "j \<notin> J"
    note j = agreesD [OF m(2) this]
    show "same_object {key. (j, key) \<in> K} (hm_get (bk_objects ?b) j)
        (shown (fold deliver (told_updates c0 i kvs) m) j)"
    proof (cases "j = i \<and> hm_get (bk_objects b) i \<noteq> None")
      case True
      then obtain lo where lo: "hm_get (bk_objects b) i = Some lo" by auto
      with True j m(1) assms same_object_updates [of "{key. (j, key) \<in> K}" lo "shown m j" kvs]
      show ?thesis by (simp add: shown_told object_update_fields hm_get_insert)
    next
      case False
      moreover have "fold (\<lambda>(key, v). map_option (\<lambda>ob. snd (ob_update key v ob))) kvs None = None"
        by (induction kvs) auto
      ultimately show ?thesis
        using j by (cases "hm_get (bk_objects b) i")
          (auto simp: shown_told object_update_fields hm_get_insert same_object_def)
    qed
  qed
qed

lemma with_db_silent: "with_db f b = (e, b') \<Longrightarrow> bk_broadcasts b' = bk_broadcasts b"
  by (auto simp: with_db_def split: prod.splits)

lemma save_props_silent: "save_props d i kvs b = (e, b') \<Longrightarrow> bk_broadcasts b' = bk_broadcasts b"
proof (induction d i kvs b rule: save_props.induct)
  case (2 d i key v kvs b)
  then show ?case by (auto dest!: with_db_silent split: prod.splits option.splits)
qed simp

lemma new_id_silent: "new_id b = (r, b') \<Longrightarrow> bk_broadcasts b' = bk_broadcasts b"
  by (auto simp: new_id_def split: prod.splits option.splits)

text \<open>A creation that succeeds.\<close>

lemma create_object_fields:
  assumes "create_object d ty props b = (Inr o1, b')" "backend_ok b"
  shows "ro_ty o1 = ty" "hm_get (bk_objects b) (ro_id o1) = None" "bk_broadcasts b' = bk_broadcasts b"
    "bk_objects b' = hm_insert (ro_id o1)
       \<lparr>lo_ty = ty, lo_id = ro_id o1, lo_props = ro_props o1, lo_changed = []\<rparr> (bk_objects b)"
proof -
  obtain i b1 where n: "new_id b = (Some i, b1)"
    using assms(1) by (auto simp: create_object_def split: prod.splits option.splits)
  obtain b2 where w: "with_db (db_insert_object i ty) b1 = (None, b2)"
    using assms(1) n by (auto simp: create_object_def split: prod.splits option.splits)
  define ps where "ps = (if is_global ty then props else props_put KEY_SORT (VBytes
      (case last_sort (bk_objects b2) of Some s \<Rightarrow> after s | None \<Rightarrow> id_to_vec i)) props)"
  define b3 where "b3 = b2\<lparr>bk_objects := hm_insert i \<lparr>lo_ty = ty, lo_id = i, lo_props = ps, lo_changed = []\<rparr> (bk_objects b2),
      bk_objects_added := hs_insert i (bk_objects_added b2)\<rparr>"
  obtain b4 where sp: "save_props d i ps b3 = (None, b4)" "b' = notify_client b4"
    "o1 = \<lparr>ro_ty = ty, ro_id = i, ro_props = ps\<rparr>"
    using assms(1) n w
    by (auto simp: create_object_def Let_def split: prod.splits option.splits simp flip: ps_def b3_def)
  have b2: "bk_objects b2 = bk_objects b" "bk_broadcasts b2 = bk_broadcasts b"
    using new_id_fields(2) [OF n] sharedD(1) [OF shared_with_db [OF w]] new_id_silent [OF n] with_db_silent [OF w]
    by simp_all
  have "\<not> allocated b i" using new_id_shared [OF n] by simp
  from unallocated(1) [OF assms(2) this] sp b2
  show "ro_ty o1 = ty" "hm_get (bk_objects b) (ro_id o1) = None" "bk_broadcasts b' = bk_broadcasts b"
    "bk_objects b' = hm_insert (ro_id o1)
       \<lparr>lo_ty = ty, lo_id = ro_id o1, lo_props = ro_props o1, lo_changed = []\<rparr> (bk_objects b)"
    using sharedD(1) [OF shared_save_props [OF sp(1)]] save_props_silent [OF sp(1)]
    by (simp_all add: notify_client_def b3_def)
qed

lemma conveyed_create_object:
  assumes "create_object d ty props b = (Inr o1, b')" "backend_ok b"
  shows "conveyed c b (broadcast (BRemoteUpdate (RObjectCreated c0 (rid_local (ro_id o1)) o1)) b')"
  unfolding conveyed_def
proof (intro exI conjI allI impI)
  let ?e = "BRemoteUpdate (RObjectCreated c0 (rid_local (ro_id o1)) o1)"
  note f = create_object_fields [OF assms]
  show "bk_broadcasts (broadcast ?e b') = bk_broadcasts b @ [?e]" by (simp add: broadcast_def f)
  fix J K m
  assume m: "agrees J K b m"
  have o1: "o1 = \<lparr>ro_ty = ty, ro_id = ro_id o1, ro_props = ro_props o1\<rparr>" using f(1) by simp
  show "agrees J K (broadcast ?e b') (fold deliver [?e] m)"
    unfolding agrees_def
  proof (intro allI impI)
    fix j
    assume "j \<notin> J"
    note j = agreesD [OF m this]
    have "shown m (ro_id o1) = None" if "j = ro_id o1"
      using j that f(2) by (simp add: same_object_def)
    with same_object_new [OF refl, where p = PeerId_ZERO and ty = ty and i = "ro_id o1" and props = "ro_props o1"
        and ex = "{key. (j, key) \<in> K}" and ks = "[]"] j
    show "same_object {key. (j, key) \<in> K} (hm_get (bk_objects (broadcast ?e b')) j)
        (shown (fold deliver [?e] m) j)"
      by (subst (asm) o1 [symmetric])
        (auto simp: shown_created broadcast_def f(4) hm_get_insert split: option.split)
  qed
qed

lemma remove_object_fields:
  assumes "remove_object cr i b = (None, b')"
  shows "bk_broadcasts b' = bk_broadcasts b" "bk_objects b' = hm_remove i (bk_objects b)"
proof -
  define b1 where "b1 = (if bk_mumble_object b = i
      then set_mumblelink_transform None (store_mumble_object Id_ZERO b) else b)"
  have b1: "bk_broadcasts b1 = bk_broadcasts b" "bk_objects b1 = bk_objects b"
    by (simp_all add: b1_def set_mumblelink_transform_def store_mumble_object_def)
  obtain b2 where w: "with_db (db_remove_object i) b1 = (None, b2)"
    using assms by (auto simp: remove_object_def Let_def split: prod.splits option.splits simp flip: b1_def)
  define is_room where "is_room \<longleftrightarrow> as_stable_id (props_get (bk_props b2) KEY_ROOM) =
      StableId_new (keypair_public_key cr (bk_keypair b2)) i"
  obtain b3 where d: "(if is_room then with_db (db_remove_property Id_ZERO KEY_ROOM) b2
      else (None, b2)) = (None, b3)"
    using assms w by (auto simp: remove_object_def Let_def split: prod.splits option.splits simp flip: b1_def is_room_def)
  have "bk_broadcasts b3 = bk_broadcasts b" "bk_objects b3 = bk_objects b"
    using d b1 with_db_silent [OF w] sharedD(1) [OF shared_with_db [OF w]]
    by (auto dest: with_db_silent sharedD(1) [OF shared_with_db] split: if_splits)
  then show "bk_broadcasts b' = bk_broadcasts b" "bk_objects b' = hm_remove i (bk_objects b)"
    using assms w d
    by (auto simp: remove_object_def Let_def notify_client_def simp flip: b1_def is_room_def)
qed

lemma conveyed_remove_object:
  assumes "remove_object cr i b = (None, b')" "c \<noteq> c0"
  shows "conveyed c b (broadcast (BRemoteUpdate (RObjectRemoved c0 (rid_local i))) b')"
proof -
  let ?e = "BRemoteUpdate (RObjectRemoved c0 (rid_local i))"
  note f = remove_object_fields [OF assms(1)]
  have "bk_broadcasts (broadcast ?e b') = bk_broadcasts b @ [?e]" by (simp add: broadcast_def f)
  moreover have "agrees J K (broadcast ?e b') (fold deliver [?e] m)"
    if "um_channel m = c" "agrees J K b m" for J K m
    using that assms(2)
    by (auto simp: agrees_def broadcast_def f hm_get_remove shown_removed same_object_def)
  ultimately show ?thesis unfolding conveyed_def by blast
qed

definition own_ids :: "Backend \<Rightarrow> bool" where
  "own_ids b \<longleftrightarrow> (\<forall>i lo. hm_get (bk_objects b) i = Some lo \<longrightarrow> lo_id lo = i)"

lemma backend_ok_own_ids: "backend_ok b \<Longrightarrow> own_ids b"
  by (simp add: backend_ok_def objects_ok_def own_ids_def)

text \<open>One cleared property and its broadcast, which names no channel.\<close>

lemma conveyed_clear:
  assumes "c \<noteq> CHANNEL_NONE" "hm_get (bk_objects b) i = Some lo"
    and "bk_objects b' = hm_insert i (lo\<lparr>lo_props := snd (props_remove key (lo_props lo)), lo_changed := ks\<rparr>)
      (bk_objects b)"
    and "bk_broadcasts b' = bk_broadcasts b @ [BRemoteUpdate (RObjectUpdated CHANNEL_NONE (rid_local i) key VEmpty)]"
  shows "conveyed c b b'"
proof -
  let ?e = "BRemoteUpdate (RObjectUpdated CHANNEL_NONE (rid_local i) key VEmpty)"
  let ?lo = "lo\<lparr>lo_props := snd (props_remove key (lo_props lo)), lo_changed := ks\<rparr>"
  have props: "props_get (lo_props ?lo) k = (if k = key then value_norm VEmpty else props_get (lo_props lo) k)" for k
    by (simp add: props_remove_put props_get_put)
  have "agrees J K b' (fold deliver [?e] m)" if m: "um_channel m = c" "agrees J K b m" for J K m
    unfolding agrees_def
  proof (intro allI impI)
    fix j
    assume "j \<notin> J"
    note j = agreesD [OF m(2) this]
    show "same_object {key. (j, key) \<in> K} (hm_get (bk_objects b') j) (shown (fold deliver [?e] m) j)"
    proof (cases "j = i")
      case True
      have "same_object ({key. (i, key) \<in> K} - {key}) (Some ?lo)
          (map_option (\<lambda>ob. snd (ob_update key VEmpty ob)) (shown m i))"
        using j True assms(2) by (intro same_object_update [OF _ _ props]) simp_all
      from same_object_mono [OF this] True m(1) assms(1) show ?thesis
        by (simp add: assms(3) hm_get_insert shown_updated)
    next
      case False
      with j show ?thesis by (simp add: assms(3) hm_get_insert shown_updated)
    qed
  qed
  with assms(4) show ?thesis unfolding conveyed_def by blast
qed

lemma conveyed_clear_keys:
  "clear_image_keys img i keys any b = (Inr r, b') \<Longrightarrow> own_ids b \<Longrightarrow> c \<noteq> CHANNEL_NONE \<Longrightarrow>
   conveyed c b b' \<and> own_ids b'"
proof (induction keys arbitrary: any b)
  case (Cons key ks)
  show ?case
  proof (cases "hm_get (bk_objects b) i")
    case None
    with Cons.prems show ?thesis by (simp add: conveyed_refl)
  next
    case (Some lo)
    show ?thesis
    proof (cases "as_id (props_get (lo_props lo) key) = img")
      case False
      with Cons Some show ?thesis by simp
    next
      case True
      have i: "lo_id lo = i" using Some Cons.prems(2) by (simp add: own_ids_def)
      let ?lo = "lo\<lparr>lo_props := snd (props_remove key (lo_props lo)), lo_changed := hs_insert key (lo_changed lo)\<rparr>"
      let ?b1 = "b\<lparr>bk_objects := hm_insert i ?lo (bk_objects b),
        bk_objects_changed := hs_insert i (bk_objects_changed b)\<rparr>"
      obtain b2 where w: "with_db (db_remove_property i key) ?b1 = (None, b2)"
        using Cons.prems(1) Some True i by (auto simp: Let_def split: prod.splits option.splits)
      let ?b3 = "broadcast (BRemoteUpdate (RObjectUpdated CHANNEL_NONE (rid_local i) key VEmpty)) b2"
      have run: "clear_image_keys img i ks True ?b3 = (Inr r, b')"
        using Cons.prems(1) Some True i w by (simp add: Let_def)
      have b3: "bk_objects ?b3 = hm_insert i ?lo (bk_objects b)"
        "bk_broadcasts ?b3 = bk_broadcasts b @ [BRemoteUpdate (RObjectUpdated CHANNEL_NONE (rid_local i) key VEmpty)]"
        using sharedD(1) [OF shared_with_db [OF w]] with_db_silent [OF w] by (simp_all add: broadcast_def)
      have "own_ids ?b3"
        using Cons.prems(2) i unfolding own_ids_def b3 by (auto simp: hm_get_insert split: if_splits)
      from Cons.IH [OF run this Cons.prems(3)] conveyed_clear [OF Cons.prems(3) Some b3]
      show ?thesis using conveyed_trans by blast
    qed
  qed
qed (simp add: conveyed_refl)

lemma conveyed_clear_refs:
  "clear_image_refs img is any b = (Inr r, b') \<Longrightarrow> own_ids b \<Longrightarrow> c \<noteq> CHANNEL_NONE \<Longrightarrow> conveyed c b b'"
proof (induction "is" arbitrary: any b)
  case (Cons i "is")
  obtain any' b1 where k: "clear_image_keys img i [KEY_IMAGE_ID, KEY_ROOM_BACKGROUND] any b = (Inr any', b1)"
    and run: "clear_image_refs img is any' b1 = (Inr r, b')"
    using Cons.prems(1) by (auto split: prod.splits sum.splits)
  from conveyed_clear_keys [OF k Cons.prems(2,3)] Cons.IH [OF run _ Cons.prems(3)] show ?case
    using conveyed_trans by blast
qed (simp add: conveyed_refl)

lemma conveyed_remove_image:
  assumes "remove_image i b = (None, b')" "own_ids b" "c \<noteq> CHANNEL_NONE"
  shows "conveyed c b b'"
proof -
  obtain b1 where w: "with_db (db_remove_image i) b = (None, b1)"
    using assms(1) by (auto simp: remove_image_def split: prod.splits option.splits)
  let ?b2 = "notify_client (b1\<lparr>bk_images := hm_remove i (bk_images b1),
      bk_images_added := hs_remove i (bk_images_added b1),
      bk_images_removed := hs_insert i (bk_images_removed b1)\<rparr>)"
  obtain any b3 where c: "clear_image_refs i (hm_keys (bk_objects ?b2)) False ?b2 = (Inr any, b3)"
    "b' = (if any then notify_client b3 else b3)"
    using assms(1) w by (auto simp: remove_image_def Let_def split: prod.splits sum.splits)
  have b2: "bk_objects ?b2 = bk_objects b" "bk_broadcasts ?b2 = bk_broadcasts b"
    using sharedD(1) [OF shared_with_db [OF w]] with_db_silent [OF w] by (simp_all add: notify_client_def)
  have "own_ids ?b2" using assms(2) unfolding own_ids_def b2 .
  from conveyed_trans [OF conveyed_silent [OF b2] conveyed_clear_refs [OF c(1) this assms(3)]]
  have "conveyed c b b3" .
  moreover have "conveyed c b3 b'" by (rule conveyed_silent) (simp_all add: c(2) notify_client_def)
  ultimately show ?thesis by (rule conveyed_trans)
qed

lemma update_prop_silent:
  "bk_objects (update_prop key v b) = bk_objects b" "bk_broadcasts (update_prop key v b) = bk_broadcasts b"
  by (simp_all add: update_prop_def Let_def notify_client_def)

lemma updates_loop_silent:
  "updates_loop cr kvs fl b = (fl', b') \<Longrightarrow>
   bk_objects b' = bk_objects b \<and> bk_broadcasts b' = bk_broadcasts b"
proof (induction kvs arbitrary: fl b)
  case (Cons x kvs)
  obtain key v where x: "x = (key, v)" by (cases x)
  consider "key = KEY_MUMBLE_OBJECT" | "key = KEY_PEER_SECRET"
    | "key \<noteq> KEY_MUMBLE_OBJECT" "key \<noteq> KEY_PEER_SECRET" by blast
  then show ?case
    by cases (use Cons.prems in \<open>auto simp: x Let_def update_prop_silent set_mumblelink_transform_def
        store_mumble_object_def dest!: Cons.IH split: if_splits\<close>)
qed simp

lemma quietly_updates: "quietly b (updates cr c0 kvs b)"
proof -
  obtain fl b1 where l: "updates_loop cr kvs
      \<lparr>uf_mumblelink = False, uf_client = False, uf_public_key = None\<rparr> b = (fl, b1)" by fastforce
  let ?b2 = "fold (\<lambda>(key, v). broadcast (BUpdate (UConfig c0 key v))) kvs b1"
  let ?b3 = "case uf_public_key fl of None \<Rightarrow> ?b2 | Some k \<Rightarrow> broadcast (BUpdate (UPublicKey k)) ?b2"
  have "quietly b b1" using updates_loop_silent [OF l] by (simp add: quietly_silent)
  moreover have "quietly b1 ?b2"
    using quietly_fold [of "\<lambda>(key, v). BUpdate (UConfig c0 key v)" b1 kvs]
    by (simp add: about_objects_def split_def)
  moreover have "quietly ?b2 ?b3"
    by (auto simp: quietly_refl about_objects_def intro!: quietly_broadcast split: option.split)
  moreover have "quietly ?b3 (updates cr c0 kvs b)"
    by (rule quietly_silent) (simp_all add: updates_def l Let_def restart_mumblelink_def restart_client_def)
  ultimately show ?thesis using quietly_trans by blast
qed

lemma quietly_insert_image:
  assumes "insert_image content_type role w h bytes b = (r, b')"
  shows "quietly b b'"
proof -
  have db: "with_db f b1 = (e, b2) \<Longrightarrow> bk_objects b2 = bk_objects b1 \<and> bk_broadcasts b2 = bk_broadcasts b1"
    for f b1 e b2 using sharedD(1) [OF shared_with_db] with_db_silent by metis
  have new: "new_id b1 = (r1, b2) \<Longrightarrow> bk_objects b2 = bk_objects b1 \<and> bk_broadcasts b2 = bk_broadcasts b1"
    for b1 r1 b2 using new_id_fields(2) new_id_silent by blast
  show ?thesis
    using assms
    by (intro quietly_silent)
      (auto simp: insert_image_def Let_def notify_client_def cache_store_def dest!: new db
        split: prod.splits option.splits)
qed

lemma quietly_upload_image:
  "upload_image il request b = (r, b') \<Longrightarrow> quietly b b'"
  by (auto simp: upload_image_def quietly_refl split: prod.splits sum.splits intro: quietly_insert_image)

subsection \<open>Requests\<close>

text \<open>Requests of a window: identifiers that were handed out, properties as the library makes them.\<close>

definition request_ok :: "Backend \<Rightarrow> Request \<Rightarrow> bool" where
  "request_ok b r =
     (case r of
        CreateObject ty props \<Rightarrow> props_ok props
      | RemoveObject i \<Rightarrow> allocated b i
      | RemoveImage i \<Rightarrow> allocated b i
      | _ \<Rightarrow> True)"

lemma request_backend_ok:
  assumes "backend_ok b" "request_ok b r" "ws_handle cr d il c r (s, b) = (resp, s', b')"
  shows "backend_ok b'"
proof -
  have quiet: "backend_ok (broadcast e b1) = backend_ok b1" for e b1
    by (rule backend_ok_shared) (simp add: sharing)
  have op: "backend_op cr d b b1 \<Longrightarrow> backend_ok b1" for b1
    using backend_op_steps assms(1) steps_ok by blast
  note ops = backend_op.intros [THEN op]
  show ?thesis
  proof (cases r)
    case (ObjectUpdate i kvs)
    have "backend_ok (fold (\<lambda>(key, v). broadcast (ev key v)) kvs b1) = backend_ok b1" for ev b1
      by (rule backend_ok_shared) (rule shared_fold_broadcast)
    with assms ObjectUpdate ops(1) show ?thesis by (auto split: if_splits)
  next
    case (UploadImage request)
    have "backend_ok (snd (upload_image il request b))"
      using assms(1) ops(5) by (auto simp: upload_image_def split: prod.splits sum.splits) (metis snd_conv)+
    with assms UploadImage show ?thesis by (auto simp: quiet split: prod.splits sum.splits)
  next
    case (CreateObject ty props)
    have "backend_ok (snd (create_object d ty props b))"
      using ops(3) assms(2) CreateObject by (simp add: request_ok_def)
    with assms CreateObject show ?thesis by (auto simp: quiet split: prod.splits sum.splits)
  next
    case (RemoveObject i)
    have "backend_ok (snd (remove_object cr i b))"
      using ops(4) assms(2) RemoveObject by (simp add: request_ok_def)
    with assms RemoveObject show ?thesis by (auto simp: quiet split: prod.splits option.splits)
  next
    case (RemoveImage i)
    have "backend_ok (snd (remove_image i b))"
      using ops(6) assms(2) RemoveImage by (simp add: request_ok_def)
    with assms RemoveImage show ?thesis by (auto simp: quiet split: prod.splits option.splits)
  next
    case MumbleRestart
    with assms backend_ok_shared [of "restart_mumblelink b" b] show ?thesis by (auto simp: sharing)
  next
    case RemoteRestart
    with assms backend_ok_shared [of "restart_client b" b] show ?thesis by (auto simp: sharing)
  qed (use assms ops(2) in \<open>auto split: if_splits sum.splits prod.splits\<close>)
qed

text \<open>A request that concerns objects is conveyed to every other window, a creation to all.\<close>

lemma request_conveyed:
  assumes "ws_handle cr d il c0 r (s, b) = (Inr resp, s', b')" "backend_ok b" "c \<noteq> CHANNEL_NONE"
    and "c0 \<noteq> c \<or> (\<forall>i kvs. r \<noteq> ObjectUpdate i kvs) \<and> (\<forall>i. r \<noteq> RemoveObject i)"
  shows "conveyed c b b'"
proof (cases r)
  case (Updates kvs)
  with assms(1) quietly_conveyed [OF quietly_updates] show ?thesis
    by (auto simp: conveyed_refl split: if_splits)
next
  case (ObjectUpdate i kvs)
  with assms conveyed_object_update [of c c0 b i kvs] show ?thesis
    by (auto simp: conveyed_refl split: if_splits)
next
  case (CreateObject ty props)
  with assms conveyed_create_object [OF _ assms(2), of d ty props _ _ c c0] show ?thesis
    by (auto split: prod.splits sum.splits)
next
  case (RemoveObject i)
  with assms conveyed_remove_object [of cr i b _ c c0] show ?thesis
    by (auto split: prod.splits option.splits)
next
  case (UploadImage request)
  then obtain img b1 where u: "upload_image il request b = (Inr img, b1)"
    "b' = broadcast (BRemoteUpdate (RImageCreated img)) b1"
    using assms(1) by (auto split: prod.splits sum.splits)
  show ?thesis unfolding u(2)
    by (rule quietly_conveyed, rule quietly_trans [OF quietly_upload_image [OF u(1)]], rule quietly_broadcast)
      (simp add: about_objects_def)
next
  case (RemoveImage i)
  then obtain b1 where u: "remove_image i b = (None, b1)"
    "b' = broadcast (BRemoteUpdate (RImageRemoved (rid_local i))) b1"
    using assms(1) by (auto split: prod.splits option.splits)
  have "conveyed c b1 b'" unfolding u(2)
    by (rule quietly_conveyed, rule quietly_broadcast) (simp add: about_objects_def)
  with conveyed_remove_image [OF u(1) backend_ok_own_ids [OF assms(2)] assms(3)] show ?thesis
    by (rule conveyed_trans)
next
  case MumbleRestart
  with assms(1) show ?thesis by (auto intro!: conveyed_silent simp: restart_mumblelink_def)
next
  case RemoteRestart
  with assms(1) show ?thesis by (auto intro!: conveyed_silent simp: restart_client_def)
qed (use assms(1) in \<open>auto simp: conveyed_refl split: sum.splits prod.splits\<close>)

subsection \<open>Loading\<close>

definition peers_named :: "Backend \<Rightarrow> bool" where
  "peers_named b \<longleftrightarrow> list_all (\<lambda>(p, peer). \<not> pid_is_zero p) (bk_peers b)"

lemma hm_get_new_objects:
  "distinct (map fst al) \<Longrightarrow>
   hm_get (fold (\<lambda>ob os. hm_insert (ob_id ob) ob os)
       (new_objects (map (\<lambda>(i, lo). remote_object i lo) al)) os) (rid_local j) =
     (case Option.bind (map_of al j) (\<lambda>lo. object_new PeerId_ZERO (remote_object j lo)) of
        None \<Rightarrow> hm_get os (rid_local j) | Some ob \<Rightarrow> Some ob)"
proof (induction al arbitrary: os)
  case (Cons x al)
  obtain i lo where x: "x = (i, lo)" by (cases x)
  have al: "distinct (map fst al)" "i = j \<Longrightarrow> map_of al j = None"
    using Cons.prems by (auto simp: x map_of_eq_None_iff)
  show ?case
  proof (cases "object_new PeerId_ZERO (remote_object i lo)")
    case None
    then have "new_objects (map (\<lambda>(i, lo). remote_object i lo) (x # al)) =
        new_objects (map (\<lambda>(i, lo). remote_object i lo) al)"
      by (simp add: x new_objects_def map_filter_simps)
    with Cons.IH [OF al(1), of os] al(2) None show ?thesis by (auto simp: x)
  next
    case (Some ob)
    then have new: "new_objects (map (\<lambda>(i, lo). remote_object i lo) (x # al)) =
        ob # new_objects (map (\<lambda>(i, lo). remote_object i lo) al)"
      by (simp add: x new_objects_def map_filter_simps)
    have id: "ob_id ob = rid_local i"
      using object_new_fields(1) [OF Some] by (simp add: rid_local_def remote_object_def)
    show ?thesis
      unfolding new using Cons.IH [OF al(1), of "hm_insert (ob_id ob) ob os"] al(2) Some
      by (auto simp: x id hm_get_insert split: option.split)
  qed
qed (simp add: new_objects_def map_filter_simps)

lemma shown_loaded:
  assumes "hm_wf (bk_objects b)" "peers_named b"
  shows "shown (snd (map_initialize (initialize_map cr b) m)) j =
    Option.bind (hm_get (bk_objects b) j) (\<lambda>lo. object_new PeerId_ZERO (remote_object j lo))"
proof -
  have "rid_local j \<notin> po_id ` set (imr_peer_objects (initialize_map cr b))"
    using assms(2) by (force simp: initialize_map_def peers_named_def list_all_iff po_id_def rid_local_def
        pid_is_zero_def PeerId_ZERO_def)
  then have "shown (snd (map_initialize (initialize_map cr b) m)) j =
      hm_get (fold (\<lambda>ob os. hm_insert (ob_id ob) ob os)
        (new_objects (imr_objects (initialize_map cr b))) []) (rid_local j)"
    by (simp add: shown_def map_initialize_def Let_def init_remote_objects init_local_objects objects_clear_def)
  also have "\<dots> = Option.bind (hm_get (bk_objects b) j) (\<lambda>lo. object_new PeerId_ZERO (remote_object j lo))"
    using assms(1) hm_get_new_objects [of "bk_objects b" "[]" j]
    by (simp add: initialize_map_def hm_wf_def hm_get_def split: option.split)
  finally show ?thesis .
qed

lemma agrees_loaded:
  assumes "backend_ok b" "peers_named b"
  shows "agrees {} {} b (snd (map_initialize (initialize_map cr b) m))"
proof -
  have wf: "hm_wf (bk_objects b)" using assms(1) by (simp add: backend_ok_def objects_ok_def)
  have "same_object {} (Some lo) (object_new PeerId_ZERO (remote_object i lo))" for i lo
  proof -
    have "same_object {} (Some \<lparr>lo_ty = lo_ty lo, lo_id = i, lo_props = lo_props lo, lo_changed = []\<rparr>)
        (object_new PeerId_ZERO (remote_object i lo))"
      by (rule same_object_new) (simp add: remote_object_def)
    then show ?thesis by (simp add: same_object_def split: option.splits)
  qed
  then show ?thesis
    by (auto simp: agrees_def shown_loaded [OF wf assms(2)] same_object_def [of _ None] split: bind_split)
qed

end
