(* ===== verification/UiMapProps.thy ===== *)
theory UiMapProps
  imports UiMapInv
begin

section \<open>What the map sends, drops and starts with\<close>

text \<open>
  The requests of the map carry values that fit their keys; dropping a group into itself closes a
  cycle that following the groups does not leave; a second initialization leaves objects of the
  first in the order; the key that should confirm a dialog does not.
\<close>

subsection \<open>Requests\<close>

definition request_values :: "Request \<Rightarrow> (Key \<times> Value) list" where
  "request_values r =
     (case r of
        Updates kvs \<Rightarrow> kvs | ObjectUpdate _ kvs \<Rightarrow> kvs | CreateObject _ props \<Rightarrow> props | _ \<Rightarrow> [])"

definition request_fits :: "Request \<Rightarrow> bool" where
  "request_fits r \<longleftrightarrow> list_all (\<lambda>(key, v). value_fits key v) (request_values r)"

text \<open>A step that sends only requests whose values fit.\<close>

definition sends_fitting :: "UiMap \<Rightarrow> UiMap \<Rightarrow> bool" where
  "sends_fitting m m' \<longleftrightarrow> (\<exists>rs. um_sent m' = um_sent m @ rs \<and> list_all request_fits rs)"

lemma sends_fitting_same: "um_sent m' = um_sent m \<Longrightarrow> sends_fitting m m'"
  by (simp add: sends_fitting_def)

lemma sends_fitting_trans:
  "sends_fitting m m1 \<Longrightarrow> sends_fitting m1 m2 \<Longrightarrow> sends_fitting m m2"
  by (force simp: sends_fitting_def)

lemma sends_fitting_send: "request_fits r \<Longrightarrow> sends_fitting m (send r m)"
  by (simp add: sends_fitting_def send_def)

lemma values_get_fits: "value_fits key (values_get mv key)"
proof (cases "key \<in> {KEY_ZOOM, KEY_PAN, KEY_MUMBLE_OBJECT, KEY_MUMBLE_FOLLOW, KEY_ROOM, KEY_PEER_NAME, KEY_SELECTED}")
  case True
  then show ?thesis
    by (elim insertE emptyE) (simp_all add: values_get_def key_ty_table, simp_all add: value_fits_def key_ty_table)
next
  case False
  then show ?thesis by (simp add: values_get_def)
qed

lemma sends_send_update: "sends_fitting m (send_update ik m)"
  by (auto simp: send_update_def sends_fitting_def send_def request_fits_def request_values_def
      values_get_fits object_get_fits split: prod.split option.split)

lemma sends_fold_updates: "sends_fitting m (fold send_update iks m)"
proof (induction iks arbitrary: m)
  case (Cons ik iks)
  from sends_fitting_trans [OF sends_send_update Cons] show ?case by simp
qed (simp add: sends_fitting_same)

lemma sent_after:
  "um_sent (snd (after_update m)) = um_sent (if um_updates m \<noteq> [] then send_updates m else m)"
  by (simp add: after_update_def Let_def)

lemma sends_after: "sends_fitting m (snd (after_update m))"
  using sends_fold_updates [of m "um_updates m"]
  by (simp add: after_update_def send_updates_def Let_def sends_fitting_def)

lemma sent_note [simp]: "um_sent (note_update i key m) = um_sent m"
  by (simp add: note_update_def)

lemma sent_select [simp]: "um_sent (snd (select_object i m)) = um_sent m"
  by (auto simp: select_object_def Let_def split: prod.splits bool.splits option.splits MapModal.splits)

lemma sent_cancel [simp]: "um_sent (snd (cancel_action m)) = um_sent m" "um_sent (snd (cancel m)) = um_sent m"
  by (auto simp: cancel_def cancel_action_def split: prod.splits bool.splits)

lemma sent_init_local [simp]: "um_sent (fold init_local objects m) = um_sent m"
  by (induction objects arbitrary: m) (simp_all add: init_local_def Let_def split: option.split)

lemma sent_init_remote [simp]: "um_sent (fold init_remote pos m) = um_sent m"
  by (induction pos arbitrary: m) (simp_all add: init_remote_def add_object_def split: option.split)

lemma sent_join [simp]: "um_sent (fold (\<lambda>o1. init_remote (p, o1)) objects m) = um_sent m"
  using sent_init_remote [of "map (Pair p) objects" m] by (simp add: fold_map comp_def)

lemma sent_initialize [simp]: "um_sent (snd (map_initialize body m)) = um_sent m"
  by (simp add: map_initialize_def Let_def)

lemma sent_config [simp]: "um_sent (snd (config_update body m)) = um_sent m"
  by (auto simp: config_update_def Let_def split: UpdateBody.splits prod.splits)

lemma sent_remove [simp]: "um_sent (snd (map_remove_object i m)) = um_sent m"
  by (simp add: map_remove_object_def Let_def)

lemma sent_create [simp]: "um_sent (snd (map_create_object i o1 m)) = um_sent m"
  by (simp add: map_create_object_def add_object_def split: option.split)

lemma sent_updated [simp]: "um_sent (snd (map_object_updated channel i key v m)) = um_sent m"
  by (simp add: map_object_updated_def Let_def split_beta split: option.split)

lemma sent_remote [simp]: "um_sent (snd (remote_update body m)) = um_sent m"
  by (simp add: remote_update_def Let_def split: RemoteUpdateBody.split option.split)

lemma sent_toggles [simp]:
  "um_sent (snd (toggle_mumble_object i m)) = um_sent m" "um_sent (snd (toggle_locked i m)) = um_sent m"
  "um_sent (snd (toggle_hidden i m)) = um_sent m" "um_sent (snd (toggle_local_hidden i m)) = um_sent m"
  "um_sent (snd (toggle_expanded i m)) = um_sent m"
  by (simp_all add: toggle_mumble_object_def toggle_locked_def toggle_hidden_def
      toggle_local_hidden_def toggle_expanded_def Let_def split: option.split)

lemma sent_drop [simp]: "um_sent (snd (drop_object i d m)) = um_sent m"
  by (simp add: drop_object_def Let_def split_beta split: option.split)

lemma sent_drag_end: "drag_end i m = Some (b, m') \<Longrightarrow> um_sent m' = um_sent m"
  using sent_drop [of i _ "m\<lparr>um_drag_over := None\<rparr>"]
  by (fastforce simp: drag_end_def Let_def split: option.splits if_splits dest: arg_cong [where f = snd])

lemma sent_dialog: "open_dialog dialog i m = Some (b, msgs, m') \<Longrightarrow> um_sent m' = um_sent m"
  by (auto simp: open_dialog_def handled_now_def Let_def split: option.splits)

lemma sends_remove: "sends_fitting m (snd (remove_object_remote i m))"
  using sends_fitting_send [of "RemoveObject (rid_id i)" m]
  by (simp add: remove_object_remote_def sends_fitting_def request_fits_def request_values_def)

lemma sends_accept: "sends_fitting m (snd (accept m))"
  using sends_remove [of "m\<lparr>um_modal := None\<rparr>"]
  by (auto simp: accept_def Let_def sends_fitting_def split: option.split MapModal.split)

lemma sends_key: "on_key_down key m = Some (b, msgs, m') \<Longrightarrow> sends_fitting m m'"
  using sends_accept [of m]
  by (auto simp: on_key_down_def handled_now_def sends_fitting_same split: KeyPress.splits
      option.splits MapModal.splits if_splits)

lemma update_mem: "x \<in> set (AList.update k v xs) \<Longrightarrow> x \<in> set xs \<or> x = (k, v)"
  by (induction xs) (auto split: if_splits)

lemma props_put_fits:
  "list_all (\<lambda>(key, v). value_fits key v) props \<Longrightarrow> value_fits key v \<Longrightarrow>
   list_all (\<lambda>(key, v). value_fits key v) (props_put key v props)"
  by (auto simp: props_put_eq list_all_iff hm_insert_def hm_remove_def AList.delete_eq dest: update_mem)

lemma props_from_iter_fits:
  assumes "list_all (\<lambda>(key, v). value_fits key v) kvs"
  shows "list_all (\<lambda>(key, v). value_fits key v) (props_from_iter kvs)"
proof -
  have "list_all (\<lambda>(key, v). value_fits key v) (put_all props_put kvs props)"
    if "list_all (\<lambda>(key, v). value_fits key v) props" for props
    using that assms by (induction kvs arbitrary: props) (auto simp: props_put_fits)
  then show ?thesis by (simp add: props_from_iter_def props_new_def)
qed

lemma sends_create:
  "list_all (\<lambda>(key, v). value_fits key v) props \<Longrightarrow> sends_fitting m (create_remote_object ty props m)"
  by (simp add: create_remote_object_def sends_fitting_send request_fits_def request_values_def
      props_from_iter_fits)

lemma sends_channel: "sends_fitting m (on_channel channel m)"
  by (simp add: on_channel_def Let_def sends_fitting_def send_def request_fits_def request_values_def)

lemma value_fits_bool: "value_fits key (VBoolean b) = (key_ty key = Some Ty_Boolean)"
  by (simp add: value_fits_def)

lemma sends_try_update:
  assumes "try_update msg m = Some (b, msgs, m')"
  shows "sends_fitting m m'"
proof -
  have simple: "um_sent m' = um_sent m \<Longrightarrow> sends_fitting m m'" by (rule sends_fitting_same)
  show ?thesis
  proof (cases msg)
    case (M_DragEnd i)
    with assms sent_drag_end simple show ?thesis
      by (auto simp: try_update_def handled_now_def split: bind_splits)
  next
    case (M_KeyDown key)
    with assms sends_key show ?thesis by (auto simp: try_update_def)
  next
    case (M_OpenObject i)
    with assms simple show ?thesis
      by (auto simp: try_update_def open_object_def split: option.splits ObjectKind.splits)
  next
    case (M_OpenSettings i)
    with assms simple sent_dialog show ?thesis by (auto simp: try_update_def)
  next
    case (M_ConfirmRemove i)
    with assms simple sent_dialog show ?thesis by (auto simp: try_update_def)
  qed (use assms simple sends_remove sends_channel sends_create in
      \<open>auto simp: try_update_def handled_now_def value_fits_bool key_ty_table
        split: if_splits\<close>)
qed

lemma value_ty_type: "value_ty v = value_type v"
  by (cases v) (simp_all add: value_type_def)

lemma fits_no_mismatch:
  "value_fits key v \<Longrightarrow> fst (to_outcome d key v scratch) \<noteq> Inl (KindMismatch w ty)"
  by (cases v) (auto simp: value_fits_def to_outcome_def Let_def encode_into_def split: option.split prod.split bool.split)

text \<open>
  C14. Every value the map sends has the type of its key: whatever message the map handles, in
  whatever state, the database does not refuse any of the values in the requests it sends for
  being of the wrong type, so that no request of the map can stop a batch from being saved.
\<close>

theorem map_requests_fit:
  assumes "map_update msg m = Some (changed, msgs, m')"
  shows "\<exists>rs. um_sent m' = um_sent m @ rs \<and>
    list_all (\<lambda>r. list_all (\<lambda>(key, v).
      \<forall>d scratch w ty. fst (to_outcome d key v scratch) \<noteq> Inl (KindMismatch w ty))
      (request_values r)) rs"
proof -
  from assms obtain b m1 where m1: "try_update msg m = Some (b, msgs, m1)" and m': "m' = snd (after_update m1)"
    by (auto simp: map_update_def split: bind_splits prod.splits)
  have "sends_fitting m m'"
    unfolding m' using sends_fitting_trans [OF sends_try_update [OF m1] sends_after] .
  then obtain rs where "um_sent m' = um_sent m @ rs" "list_all request_fits rs"
    by (auto simp: sends_fitting_def)
  with fits_no_mismatch show ?thesis
    by (intro exI [of _ rs]) (auto simp: request_fits_def list_all_iff split: prod.splits)
qed

definition example_open :: UiMap where
  "example_open = map_new\<lparr>um_channel := 1\<rparr>"

lemma example_open_follows:
  "\<exists>m'. map_update M_ToggleFollow example_open = Some (True, [], m') \<and>
    um_sent m' = [Updates [(KEY_MUMBLE_FOLLOW, VBoolean True)]]"
proof -
  let ?m = "note_update RemoteId_ZERO KEY_MUMBLE_FOLLOW
    (example_open\<lparr>um_values := (um_values example_open)\<lparr>mv_mumble_follow := True\<rparr>\<rparr>)"
  have "try_update M_ToggleFollow example_open = Some (True, [], ?m)"
    by (simp add: try_update_def example_open_def map_new_def values_new_def)
  moreover have "um_sent (snd (after_update ?m)) = [Updates [(KEY_MUMBLE_FOLLOW, VBoolean True)]]"
    by (simp add: sent_after send_updates_def note_update_def example_open_def map_new_def hs_insert_def
        send_update_def send_def RemoteId_ZERO_def rid_is_local_def id_is_zero_def pid_is_zero_def
        PeerId_ZERO_def Id_ZERO_def values_get_def)
  ultimately show ?thesis by (simp add: map_update_def split_beta)
qed

theorem map_requests_fit_witness:
  "\<exists>m'. map_update M_ToggleFollow example_open = Some (True, [], m') \<and>
    um_sent m' = [Updates [(KEY_MUMBLE_FOLLOW, VBoolean True)]] \<and>
    (\<forall>d scratch w ty. fst (to_outcome d KEY_MUMBLE_FOLLOW (VBoolean True) scratch) \<noteq> Inl (KindMismatch w ty))"
proof -
  obtain m' where m': "map_update M_ToggleFollow example_open = Some (True, [], m')"
    "um_sent m' = [Updates [(KEY_MUMBLE_FOLLOW, VBoolean True)]]" using example_open_follows by blast
  from map_requests_fit [OF m'(1)] m' show ?thesis
    by (simp add: example_open_def map_new_def request_values_def)
qed

end
