(* ===== verification/UiFollow.thy ===== *)
theory UiFollow
  imports UiSync UiMapProps
begin

section \<open>Windows follow the backend\<close>

text \<open>
  A window that loads the objects and receives every broadcast, with the requests of other
  windows and its own: as long as its requests are answered and it hears the answers before it
  goes on, what it shows is what the backend holds.
\<close>

subsection \<open>What a window changes itself\<close>

text \<open>The keys a window writes to its own copy before it asks the backend to.\<close>

definition own_keys :: "Key set" where
  "own_keys = {KEY_LOCKED, KEY_HIDDEN, KEY_LOCAL_HIDDEN, KEY_EXPANDED, KEY_GROUP, KEY_SORT}"

lemma read_own_key:
  assumes "key \<in> own_keys"
  shows "read_value (object_ty ob) key (object_get ob key) = object_get ob key"
proof -
  have id: "as_id (value_from_id i) = i" for i
    by (auto simp: value_from_id_def id_is_zero_def Id_ZERO_def intro: Id.expand)
  from assms show ?thesis
    unfolding own_keys_def
    by (elim insertE emptyE) (cases "ob_kind ob"; simp add: object_get_def read_value_def object_ty_def
        kind_get_def token_get_def static_get_def group_get_def room_get_def id)+
qed

text \<open>A copy that differs in some keys only.\<close>

definition same_but :: "Key set \<Rightarrow> Object option \<Rightarrow> Object option \<Rightarrow> bool" where
  "same_but ex old new =
     (case old of
        None \<Rightarrow> new = None
      | Some ob \<Rightarrow>
          (case new of
             None \<Rightarrow> False
           | Some ob' \<Rightarrow> object_ty ob' = object_ty ob \<and>
               (\<forall>key. key \<in> ex \<or> object_get ob' key = object_get ob key)))"

lemma same_but_refl [simp]: "same_but ex old old"
  by (simp add: same_but_def split: option.split)

lemma same_object_but:
  "same_object {} lo old \<Longrightarrow> same_but ex old new \<Longrightarrow> same_object ex lo new"
  by (cases lo; cases old; cases new) (auto simp: same_object_def same_but_def, metis+)

definition noted :: "UiMap \<Rightarrow> Id \<Rightarrow> Key set" where
  "noted m i = {key. (rid_local i, key) \<in> set (um_updates m) \<and> \<not> id_is_zero i}"

text \<open>
  A message that leaves the objects to the broadcasts, except for keys it notes to be sent, and
  that asks for nothing else but the creation of an object.
\<close>

definition changes_own :: "UiMap \<Rightarrow> UiMap \<Rightarrow> bool" where
  "changes_own m m' \<longleftrightarrow>
     um_channel m' = um_channel m \<and>
     (um_sent m' = um_sent m \<or> (\<exists>ty props. um_sent m' = um_sent m @ [CreateObject ty props] \<and> um_updates m' = [])) \<and>
     (\<forall>(i, key)\<in>set (um_updates m'). rid_is_local i \<and> (id_is_zero (rid_id i) \<or> key \<in> own_keys)) \<and>
     (\<forall>i. same_but (noted m' i) (shown m i) (shown m' i))"

lemma changes_own_nothing:
  assumes "um_channel m' = um_channel m" "um_sent m' = um_sent m" "um_updates m' = um_updates m"
    "um_objects m' = um_objects m" "um_updates m = []"
  shows "changes_own m m'"
  using assms by (simp add: changes_own_def shown_def)

lemma local_is: "rid_is_local i \<longleftrightarrow> i = rid_local (rid_id i)"
  by (cases i) (auto simp: rid_is_local_def rid_local_def pid_is_zero_def PeerId_ZERO_def intro: PeerId.expand)

text \<open>Notes about the window itself, such as the selection.\<close>

lemma changes_own_notes:
  assumes "um_channel m' = um_channel m" "um_sent m' = um_sent m" "um_objects m' = um_objects m"
    "fst ` set (um_updates m') \<subseteq> {RemoteId_ZERO}"
  shows "changes_own m m'"
  using assms by (fastforce simp: changes_own_def shown_def RemoteId_ZERO_def Id_ZERO_def
      id_is_zero_def rid_is_local_def pid_is_zero_def PeerId_ZERO_def)

lemma select_notes:
  "um_sent (snd (select_object i m)) = um_sent m" "um_objects (snd (select_object i m)) = um_objects m"
  "fst ` set (um_updates m) \<subseteq> {RemoteId_ZERO} \<Longrightarrow> fst ` set (um_updates (snd (select_object i m))) \<subseteq> {RemoteId_ZERO}"
  by (auto simp: select_object_def note_update_def hs_insert_def Let_def split: prod.splits bool.splits
      option.splits MapModal.splits)

text \<open>A changed object of the own room, its changed keys noted.\<close>

lemma changes_own_put:
  assumes "hm_get (um_objects m) i = Some ob" "rid_is_local i" "\<not> rid_is_zero i"
    and "um_channel m' = um_channel m" "um_sent m' = um_sent m"
    and "um_objects m' = objects_put i ob' (um_objects m)"
    and "\<forall>(j, key)\<in>set (um_updates m'). j = i \<and> key \<in> own_keys"
    and "object_ty ob' = object_ty ob"
    and "\<And>key. (i, key) \<notin> set (um_updates m') \<Longrightarrow> object_get ob' key = object_get ob key"
  shows "changes_own m m'"
proof -
  have i: "i = rid_local (rid_id i)" "\<not> id_is_zero (rid_id i)"
    using assms(2) assms(2,3) by (simp add: local_is, auto simp: rid_is_zero_def rid_is_local_def)
  have "same_but (noted m' j) (shown m j) (shown m' j)" for j
  proof (cases "j = rid_id i")
    case True
    then have "rid_local j = i" using i(1) by simp
    then show ?thesis
      using assms(1,8,9) i(2) True
      by (auto simp: same_but_def noted_def shown_def assms(6) objects_put_def hm_get_insert)
  next
    case False
    then have "rid_local j \<noteq> i" using i(1) by (metis rid_local_eq)
    then show ?thesis by (simp add: shown_def assms(6) objects_put_def hm_get_insert)
  qed
  with assms(2,4,5,7) show ?thesis by (auto simp: changes_own_def)
qed

lemma noted_updates:
  "um_updates m = [] \<Longrightarrow> um_updates (note_update i key m) = [(i, key)]"
  by (simp add: note_update_def hs_insert_def)

lemma note_fields [simp]:
  "um_channel (note_update i key m) = um_channel m" "um_sent (note_update i key m) = um_sent m"
  "um_objects (note_update i key m) = um_objects m" "um_order (note_update i key m) = um_order m"
  by (simp_all add: note_update_def)

lemma get_modified:
  "modify_locked f ob = Some ob' \<Longrightarrow> object_ty ob' = object_ty ob \<and>
     (key \<noteq> KEY_LOCKED \<longrightarrow> object_get ob' key = object_get ob key)"
  "modify_expanded f ob = Some ob' \<Longrightarrow> object_ty ob' = object_ty ob \<and>
     (key \<noteq> KEY_EXPANDED \<longrightarrow> object_get ob' key = object_get ob key)"
  by (auto simp: modify_locked_def modify_expanded_def object_ty_def object_get_def kind_get_def
      token_get_def static_get_def group_get_def cong: if_cong split: ObjectKind.splits)

lemma changes_own_modified:
  assumes "um_updates m = []" "hm_get (um_objects m) i = Some ob" "rid_is_local i" "\<not> rid_is_zero i" "k \<in> own_keys"
    and "object_ty ob' = object_ty ob" "\<And>key. key \<noteq> k \<Longrightarrow> object_get ob' key = object_get ob key"
    and "um_channel m' = um_channel m" "um_sent m' = um_sent m" "um_updates m' = [(i, k)]"
    and "um_objects m' = objects_put i ob' (um_objects m)"
  shows "changes_own m m'"
  by (rule changes_own_put [OF assms(2-4,8,9,11)]) (use assms(5-7,10) in auto)

lemma changes_own_refl: "um_updates m = [] \<Longrightarrow> changes_own m m"
  by (rule changes_own_nothing) simp_all

lemma changes_own_toggle_locked:
  assumes "um_updates m = []"
  shows "changes_own m (snd (toggle_locked i m))"
proof (cases "rid_is_zero i \<or> \<not> rid_is_local i \<or> hm_get (um_objects m) i = None \<or>
    modify_locked Not (the (hm_get (um_objects m) i)) = None")
  case True
  with assms show ?thesis by (auto simp: toggle_locked_def changes_own_refl split: option.split)
next
  case False
  then obtain ob ob' where ob: "hm_get (um_objects m) i = Some ob" "modify_locked Not ob = Some ob'" by auto
  from get_modified(1) [OF ob(2)] show ?thesis
    by (intro changes_own_modified [OF assms ob(1), of KEY_LOCKED ob'])
      (use False ob assms in \<open>auto simp: toggle_locked_def own_keys_def noted_updates\<close>)
qed

lemma changes_own_toggle_expanded:
  assumes "um_updates m = []"
  shows "changes_own m (snd (toggle_expanded i m))"
proof (cases "rid_is_zero i \<or> \<not> rid_is_local i \<or> hm_get (um_objects m) i = None \<or>
    modify_expanded Not (the (hm_get (um_objects m) i)) = None")
  case True
  with assms show ?thesis
    by (auto simp: toggle_expanded_def Let_def changes_own_refl changes_own_nothing split: option.split)
next
  case False
  then obtain ob ob' where ob: "hm_get (um_objects m) i = Some ob" "modify_expanded Not ob = Some ob'" by auto
  from get_modified(2) [OF ob(2)] show ?thesis
    by (intro changes_own_modified [OF assms ob(1), of KEY_EXPANDED ob'])
      (use False ob assms in \<open>auto simp: toggle_expanded_def Let_def own_keys_def noted_updates\<close>)
qed

lemma changes_own_toggle_hidden:
  assumes "um_updates m = []"
  shows "changes_own m (snd (toggle_hidden i m)) \<and> changes_own m (snd (toggle_local_hidden i m))"
proof -
  have get: "object_ty (ob\<lparr>ob_hidden := h\<rparr>) = object_ty ob" "object_ty (ob\<lparr>ob_local_hidden := h\<rparr>) = object_ty ob"
    "key \<noteq> KEY_HIDDEN \<Longrightarrow> object_get (ob\<lparr>ob_hidden := h\<rparr>) key = object_get ob key"
    "key \<noteq> KEY_LOCAL_HIDDEN \<Longrightarrow> object_get (ob\<lparr>ob_local_hidden := h\<rparr>) key = object_get ob key" for ob h key
    by (simp_all add: object_ty_def object_get_def)
  have none: ?thesis if "rid_is_zero i \<or> \<not> rid_is_local i \<or> hm_get (um_objects m) i = None"
    using that assms by (auto simp: toggle_hidden_def toggle_local_hidden_def Let_def changes_own_refl
        intro!: changes_own_nothing split: option.split)
  have some: ?thesis if "\<not> rid_is_zero i" "rid_is_local i" "hm_get (um_objects m) i = Some ob" for ob
  proof
    show "changes_own m (snd (toggle_hidden i m))"
      by (rule changes_own_modified [OF assms that(3,2,1), of KEY_HIDDEN "ob\<lparr>ob_hidden := \<not> ob_hidden ob\<rparr>"])
        (use that assms get in \<open>auto simp: toggle_hidden_def Let_def own_keys_def noted_updates\<close>)
    show "changes_own m (snd (toggle_local_hidden i m))"
      by (rule changes_own_modified [OF assms that(3,2,1), of KEY_LOCAL_HIDDEN "ob\<lparr>ob_local_hidden := \<not> ob_local_hidden ob\<rparr>"])
        (use that assms get in \<open>auto simp: toggle_local_hidden_def Let_def own_keys_def noted_updates\<close>)
  qed
  show ?thesis using none some by (cases "hm_get (um_objects m) i"; blast)
qed

lemma changes_own_drop:
  assumes none: "um_updates m = []" and i: "rid_is_local i" "\<not> rid_is_zero i"
  shows "changes_own m (snd (drop_object i d m))"
proof (cases "i = target_group d \<or> \<not> rid_is_local (target_group d) \<or>
    drag_new_sort d (um_objects m) (um_order m) = None \<or> hm_get (um_objects m) i = None")
  case True
  with none show ?thesis by (auto simp: drop_object_def Let_def changes_own_refl split: option.splits)
next
  case False
  then obtain s ob where s: "drag_new_sort d (um_objects m) (um_order m) = Some s"
    and ob: "hm_get (um_objects m) i = Some ob" by auto
  let ?ob = "ob\<lparr>ob_group := target_group d, ob_sort := s\<rparr>" and ?m = "snd (drop_object i d m)"
  have updates: "set (um_updates ?m) = (if target_group d = ob_group ob then {} else {(i, KEY_GROUP)}) \<union>
      (if s = ob_sort ob then {} else {(i, KEY_SORT)})"
    using False s ob none
    by (auto simp: drop_object_def Let_def split_beta assign_def state_update_def note_update_def hs_insert_def)
  have get: "object_get ?ob key = object_get ob key"
    if "key = KEY_GROUP \<longrightarrow> target_group d = ob_group ob" "key = KEY_SORT \<longrightarrow> s = ob_sort ob" for key
    using that by (simp add: object_get_def)
  show ?thesis
  proof (rule changes_own_put [OF ob i, where ob' = ?ob])
    show "um_objects ?m = objects_put i ?ob (um_objects m)" "um_channel ?m = um_channel m" "um_sent ?m = um_sent m"
      using False s ob by (auto simp: drop_object_def Let_def split_beta assign_def state_update_def)
    show "\<forall>(j, key)\<in>set (um_updates ?m). j = i \<and> key \<in> own_keys"
      unfolding updates own_keys_def by auto
    show "object_ty ?ob = object_ty ob" by (simp add: object_ty_def)
    show "object_get ?ob key = object_get ob key" if "(i, key) \<notin> set (um_updates ?m)" for key
      using that unfolding updates by (intro get) (auto split: if_splits)
  qed
qed

lemma changes_own_drag_over:
  "changes_own (m\<lparr>um_drag_over := x\<rparr>) m' \<Longrightarrow> changes_own m m'"
  by (simp add: changes_own_def shown_def)

lemma changes_own_drag_end:
  assumes "um_updates m = []" "drag_end i m = Some (b, m')"
  shows "changes_own m m'"
proof (cases "um_drag_over m")
  case None
  with assms show ?thesis by (simp add: drag_end_def changes_own_refl)
next
  case (Some d)
  let ?m = "m\<lparr>um_drag_over := None\<rparr>"
  have "changes_own ?m m'"
    using assms Some changes_own_drop [of ?m i d]
    by (auto simp: drag_end_def Let_def intro!: changes_own_nothing split: option.splits if_splits
        dest: arg_cong [where f = snd])
  then show ?thesis by (rule changes_own_drag_over)
qed

text \<open>
  The messages of a window itself. It may remove objects of its own room, and those of others
  unless it shows an object of its own with the same number: what is asked of the backend then is
  to remove that one (\<open>foreign_removal_hits_own\<close>).
\<close>

definition own_msg :: "UiMap \<Rightarrow> Msg \<Rightarrow> bool" where
  "own_msg m msg =
     (case msg of
        M_Channel _ \<Rightarrow> False
      | M_Initialize _ \<Rightarrow> False
      | M_ConfigUpdate _ \<Rightarrow> False
      | M_RemoteUpdate _ \<Rightarrow> False
      | M_RemoveObject i \<Rightarrow>
          rid_is_local i \<or> hm_get (um_objects m) (rid_local (rid_id i)) = None
      | _ \<Rightarrow> True)"

definition removes :: "Id \<Rightarrow> UiMap \<Rightarrow> UiMap \<Rightarrow> bool" where
  "removes i m m' \<longleftrightarrow>
     um_channel m' = um_channel m \<and> um_sent m' = um_sent m @ [RemoveObject i] \<and>
     fst ` set (um_updates m') \<subseteq> {RemoteId_ZERO} \<and>
     shown m' = (\<lambda>j. if j = i then None else shown m j)"

lemma removes_own:
  assumes "um_updates m = []" "rid_is_local i \<or> shown m (rid_id i) = None"
  shows "removes (rid_id i) m (snd (remove_object_remote i m))"
proof -
  let ?m = "(send (RemoveObject (rid_id i)) m)\<lparr>um_active := hs_remove i (um_active m),
    um_objects := snd (objects_remove i (um_objects m)), um_order := snd (order_remove i (um_order m))\<rparr>"
  have "fst ` set (um_updates (snd (select_object RemoteId_ZERO ?m))) \<subseteq> {RemoteId_ZERO}"
    by (rule select_notes) (simp add: send_def assms(1))
  then have "fst ` set (um_updates (snd (remove_object_remote i m))) \<subseteq> {RemoteId_ZERO}"
    using assms(1) by (auto simp: remove_object_remote_def map_remove_object_def Let_def send_def)
  moreover have "um_sent (snd (remove_object_remote i m)) = um_sent m @ [RemoveObject (rid_id i)]"
    by (simp add: remove_object_remote_def map_remove_object_def Let_def send_def select_notes)
  moreover have "um_channel (snd (remove_object_remote i m)) = um_channel m"
    by (simp add: remove_object_remote_def send_def)
  moreover have "shown (snd (remove_object_remote i m)) j = (if j = rid_id i then None else shown m j)" for j
  proof -
    have "shown (send (RemoveObject (rid_id i)) m) = shown m" by (simp add: shown_def send_def fun_eq_iff)
    then have "shown (snd (remove_object_remote i m)) j = (if rid_local j = i then None else shown m j)"
      by (simp add: remove_object_remote_def shown_removed_object)
    moreover have "rid_local j = i \<Longrightarrow> j = rid_id i" by (auto simp: rid_local_def)
    moreover have "rid_local j = i \<or> shown m j = None" if "j = rid_id i"
      using that assms(2) by (auto simp: local_is)
    ultimately show ?thesis by auto
  qed
  ultimately show ?thesis by (auto simp: removes_def fun_eq_iff)
qed

lemma changes_own_created:
  "um_updates m = [] \<Longrightarrow> changes_own m (create_remote_object ty props m)"
  by (simp add: changes_own_def create_remote_object_def send_def shown_def)

lemma changes_own_key:
  assumes none: "um_updates m = []" and "on_key_down key m = Some (b, msgs, m')"
  shows "changes_own m m'"
proof (cases key)
  case Key_Escape
  have "changes_own m (snd (cancel m))"
    using none by (auto simp: cancel_def cancel_action_def state_update_def note_update_def hs_insert_def
        intro!: changes_own_notes split: prod.splits bool.splits)
  with assms Key_Escape show ?thesis by (auto simp: on_key_down_def handled_now_def)
next
  case Key_Enter
  with assms show ?thesis
    by (auto simp: on_key_down_def handled_now_def accept_def changes_own_refl split: if_splits)
next
  case Key_T
  with assms changes_own_toggle_locked [OF none] show ?thesis
    by (auto simp: on_key_down_def handled_now_def changes_own_refl split: if_splits)
qed (use assms in \<open>auto simp: on_key_down_def handled_now_def changes_own_refl intro!: changes_own_nothing
      split: option.splits MapModal.splits if_splits\<close>)

lemma changes_own_dialog:
  assumes "um_updates m = []" "open_dialog dialog i m = Some (b, msgs, m')"
  shows "changes_own m m'"
  using assms by (auto simp: open_dialog_def handled_now_def Let_def intro!: changes_own_nothing split: option.splits)

lemma own_message:
  assumes none: "um_updates m = []" and own: "own_msg m msg" and "try_update msg m = Some (b, msgs, m')"
  shows "changes_own m m' \<or> (\<exists>i. removes i m m')"
proof -
  note simps = try_update_def handled_now_def
  show ?thesis
  proof (cases msg)
    case (M_DragEnd i)
    with assms changes_own_drag_end [OF none] show ?thesis by (auto simp: simps split: bind_splits)
  next
    case (M_OpenSettings i)
    with assms changes_own_dialog [OF none] show ?thesis by (auto simp: simps)
  next
    case (M_ConfirmRemove i)
    with assms changes_own_dialog [OF none] show ?thesis by (auto simp: simps)
  next
    case (M_OpenObject i)
    with assms changes_own_refl [OF none] show ?thesis
      by (auto simp: simps open_object_def split: option.splits ObjectKind.splits)
  next
    case (M_RemoveObject i)
    with assms removes_own [OF none, of i] show ?thesis by (auto simp: simps own_msg_def shown_def)
  next
    case (M_SelectObject i)
    let ?m = "snd (cancel_action m)"
    have c: "um_channel ?m = um_channel m" "um_sent ?m = um_sent m" "um_objects ?m = um_objects m"
      "um_updates ?m = []" using none by (auto simp: cancel_action_def)
    have "changes_own m (snd (select_object i ?m))"
      by (rule changes_own_notes) (use c select_notes [where m = ?m and i = i] in auto)
    with assms M_SelectObject show ?thesis by (auto simp: simps)
  next
    case (M_ToggleMumbleObject i)
    have "changes_own m (snd (toggle_mumble_object i m))"
      using none by (auto simp: toggle_mumble_object_def Let_def noted_updates intro!: changes_own_notes)
    with assms M_ToggleMumbleObject show ?thesis by (auto simp: simps)
  next
    case (M_KeyDown key)
    with assms changes_own_key [OF none] show ?thesis by (auto simp: simps)
  next
    case M_ToggleFollow
    with assms show ?thesis by (auto simp: simps noted_updates intro!: changes_own_notes)
  next
    case (M_ToggleHidden i)
    with assms changes_own_toggle_hidden [OF none] show ?thesis by (auto simp: simps)
  next
    case (M_ToggleLocalHidden i)
    with assms changes_own_toggle_hidden [OF none] show ?thesis by (auto simp: simps)
  next
    case (M_ToggleLocked i)
    with assms changes_own_toggle_locked [OF none] show ?thesis by (auto simp: simps)
  next
    case (M_ToggleExpanded i)
    with assms changes_own_toggle_expanded [OF none] show ?thesis by (auto simp: simps)
  next
    case M_CreateToken
    with assms changes_own_created [OF none] show ?thesis by (auto simp: simps)
  next
    case M_CreateStatic
    with assms changes_own_created [OF none] show ?thesis by (auto simp: simps)
  next
    case M_CreateGroup
    with assms changes_own_created [OF none] show ?thesis by (auto simp: simps)
  qed (use assms in \<open>auto simp: simps own_msg_def intro!: changes_own_nothing split: if_splits\<close>)
qed

subsection \<open>The requests of a window\<close>

text \<open>
  What a window sends after it has changed an object: the value it shows for a key.
\<close>

definition own_request :: "UiMap \<Rightarrow> Request \<Rightarrow> bool" where
  "own_request m r \<longleftrightarrow>
     (\<exists>kvs. r = Updates kvs) \<or>
     (\<exists>i key ob. r = ObjectUpdate i [(key, object_get ob key)] \<and> shown m i = Some ob \<and> key \<in> own_keys)"

definition sends_own :: "(Id \<times> Key) set \<Rightarrow> UiMap \<Rightarrow> Request list \<Rightarrow> bool" where
  "sends_own K m rs \<longleftrightarrow>
     list_all (own_request m) rs \<and>
     (\<forall>(i, key)\<in>K. \<forall>ob. shown m i = Some ob \<longrightarrow> ObjectUpdate i [(key, object_get ob key)] \<in> set rs)"

text \<open>All requests of a turn are answered, none with an error.\<close>

fun answered ::
    "Crypto \<Rightarrow> Descriptive \<Rightarrow> 'img ImageLib \<Rightarrow> ChannelId \<Rightarrow> Request list \<Rightarrow> WebSession \<times> Backend \<Rightarrow>
     (WebSession \<times> Backend) option" where
  "answered cr d il c [] sb = Some sb"
| "answered cr d il c (r # rs) sb =
     (case ws_handle cr d il c r sb of
        (Inl _, _) \<Rightarrow> None
      | (Inr _, sb') \<Rightarrow> if request_ok (snd sb) r then answered cr d il c rs sb' else None)"

lemma answered_Cons:
  assumes "answered cr d il c (r # rs) (s, b) = Some (s', b')"
  obtains resp s1 b1 where "ws_handle cr d il c r (s, b) = (Inr resp, s1, b1)" "request_ok b r"
    "answered cr d il c rs (s1, b1) = Some (s', b')"
  using assms by (auto split: prod.splits sum.splits if_splits)

text \<open>An answered update of its own is not news for the window, and the backend then has it.\<close>

lemma own_update_answered:
  assumes "ws_handle cr d il c (ObjectUpdate i [(key, object_get ob key)]) (s, b) = (Inr resp, s', b')"
    and "um_channel m = c" "shown m i = Some ob" "key \<in> own_keys" "agrees {} K b m"
  obtains es where "bk_broadcasts b' = bk_broadcasts b @ es" "shown (fold deliver es m) = shown m"
    "agrees {} (K - {(i, key)}) b' (fold deliver es m)"
proof -
  let ?kvs = "[(key, object_get ob key)]"
  let ?b = "fold (\<lambda>(key, v). broadcast (BRemoteUpdate (RObjectUpdated c (rid_local i) key v))) ?kvs
    (object_update i ?kvs b)"
  have b': "b' = ?b" using assms(1) by simp
  have es: "bk_broadcasts b' = bk_broadcasts b @ told_updates c i ?kvs"
    unfolding b' told_broadcasts object_update_fields ..
  have shown: "shown (fold deliver (told_updates c i ?kvs) m) = shown m"
    using assms(2) by (simp add: shown_told fun_eq_iff)
  obtain lo where lo: "hm_get (bk_objects b) i = Some lo" "object_ty ob = lo_ty lo"
    using agreesD [OF assms(5), of i] assms(3) by (auto simp: same_object_def split: option.splits)
  have objects: "hm_get (bk_objects b') j = (if j = i then Some (set_object_props ?kvs lo) else hm_get (bk_objects b) j)" for j
    unfolding b' fold_broadcast_fields object_update_fields by (simp add: lo hm_get_insert)
  have "same_object ({key. (i, key) \<in> K} - {key}) (Some (set_object_props ?kvs lo)) (Some ob)"
    using agreesD [OF assms(5), of i] lo assms(3) read_own_key [OF assms(4), of ob]
    by (auto simp: same_object_def props_get_put read_value_norm)
  then have "same_object {k. (j, k) \<in> K - {(i, key)}} (hm_get (bk_objects b') j) (shown m j)" for j
    using agreesD [OF assms(5), of j] assms(3)
    by (cases "j = i") (auto simp: objects set_diff_eq elim!: same_object_mono)
  then have "agrees {} (K - {(i, key)}) b' (fold deliver (told_updates c i ?kvs) m)"
    by (simp add: agrees_def shown)
  with es shown that show thesis by blast
qed

lemma own_request_answered:
  assumes "ws_handle cr d il c r (s, b) = (Inr resp, s', b')" "um_channel m = c" "own_request m r"
    "agrees {} K b m"
  obtains es where "bk_broadcasts b' = bk_broadcasts b @ es" "shown (fold deliver es m) = shown m"
    "agrees {} {(i, key) \<in> K. \<forall>ob. shown m i = Some ob \<longrightarrow> r \<noteq> ObjectUpdate i [(key, object_get ob key)]} b'
       (fold deliver es m)"
proof -
  consider kvs where "r = Updates kvs"
    | i key ob where "r = ObjectUpdate i [(key, object_get ob key)]" "shown m i = Some ob" "key \<in> own_keys"
    using assms(3) by (auto simp: own_request_def)
  then show thesis
  proof cases
    case 1
    have "quietly b b'"
      using assms(1) 1 quietly_updates quietly_refl by (auto split: if_splits)
    then obtain es where es: "bk_broadcasts b' = bk_broadcasts b @ es" "\<not> list_ex about_objects es"
      "bk_objects b' = bk_objects b" by (auto simp: quietly_def)
    have "{(i, key) \<in> K. \<forall>ob. shown m i = Some ob \<longrightarrow> r \<noteq> ObjectUpdate i [(key, object_get ob key)]} = K"
      using 1 by auto
    with that [OF es(1) shown_quiets [OF es(2)]] assms(4) agrees_same [OF es(3) shown_quiets [OF es(2)]]
    show thesis by simp
  next
    case 2
    obtain es where es: "bk_broadcasts b' = bk_broadcasts b @ es" "shown (fold deliver es m) = shown m"
      "agrees {} (K - {(i, key)}) b' (fold deliver es m)"
      by (rule own_update_answered [OF assms(1) [unfolded 2(1)] assms(2) 2(2,3) assms(4)])
    have "K - {(i, key)} = {(j, k) \<in> K. \<forall>ob. shown m j = Some ob \<longrightarrow> r \<noteq> ObjectUpdate j [(k, object_get ob k)]}"
      using 2 by auto
    with es that show thesis by simp
  qed
qed

lemma same_object_no_copy: "same_object ex lo None \<longleftrightarrow> same_object {} lo None"
  by (cases lo) (simp_all add: same_object_def)

lemma sends_own_shown: "shown m' = shown m \<Longrightarrow> sends_own K m' rs = sends_own K m rs"
proof -
  assume shown: "shown m' = shown m"
  then have "own_request m' = own_request m" by (simp add: own_request_def fun_eq_iff)
  with shown show ?thesis by (simp add: sends_own_def)
qed

lemma sends_own_rest:
  assumes "sends_own K m (r # rs)"
  shows "sends_own {(i, key) \<in> K. \<forall>ob. shown m i = Some ob \<longrightarrow> r \<noteq> ObjectUpdate i [(key, object_get ob key)]} m rs"
proof -
  have "ObjectUpdate i [(key, object_get ob key)] \<in> set rs"
    if "(i, key) \<in> K" "shown m i = Some ob" "r \<noteq> ObjectUpdate i [(key, object_get ob key)]" for i key ob
    using assms that by (auto simp: sends_own_def)
  with assms show ?thesis by (auto simp: sends_own_def)
qed

lemma own_requests_answered:
  "answered cr d il (um_channel m) rs (s, b) = Some (s', b') \<Longrightarrow> sends_own K m rs \<Longrightarrow> agrees {} K b m \<Longrightarrow>
   backend_ok b \<Longrightarrow>
   \<exists>es. bk_broadcasts b' = bk_broadcasts b @ es \<and> agrees {} {} b' (fold deliver es m) \<and> backend_ok b'"
proof (induction rs arbitrary: s b m K)
  case Nil
  have "same_object {key. (i, key) \<in> {}} (hm_get (bk_objects b) i) (shown m i)" for i
  proof (cases "shown m i")
    case None
    with agreesD [OF Nil.prems(3), of i] show ?thesis by (simp add: same_object_no_copy [of "{key. (i, key) \<in> K}"])
  next
    case (Some ob)
    with Nil.prems(2) have "{key. (i, key) \<in> K} = {}" by (auto simp: sends_own_def)
    with agreesD [OF Nil.prems(3), of i] show ?thesis by simp
  qed
  then have "agrees {} {} b m" by (simp add: agrees_def)
  with Nil.prems show ?case by (intro exI [of _ "[]"]) simp
next
  case (Cons r rs)
  obtain resp s1 b1 where h: "ws_handle cr d il (um_channel m) r (s, b) = (Inr resp, s1, b1)" "request_ok b r"
    "answered cr d il (um_channel m) rs (s1, b1) = Some (s', b')"
    using answered_Cons [OF Cons.prems(1)] .
  have own: "own_request m r" using Cons.prems(2) by (simp add: sends_own_def)
  let ?K = "{(i, key) \<in> K. \<forall>ob. shown m i = Some ob \<longrightarrow> r \<noteq> ObjectUpdate i [(key, object_get ob key)]}"
  obtain es where es: "bk_broadcasts b1 = bk_broadcasts b @ es" "shown (fold deliver es m) = shown m"
    "agrees {} ?K b1 (fold deliver es m)"
    by (rule own_request_answered [OF h(1) refl own Cons.prems(3)])
  have "sends_own ?K (fold deliver es m) rs"
    using sends_own_rest [OF Cons.prems(2)] by (simp add: sends_own_shown [OF es(2)])
  with Cons.IH [of "fold deliver es m" s1 b1 ?K] h(3) es(3) request_backend_ok [OF Cons.prems(4) h(2,1)]
  obtain es' where "bk_broadcasts b' = bk_broadcasts b1 @ es'"
    "agrees {} {} b' (fold deliver es' (fold deliver es m))" "backend_ok b'" by auto
  with es(1) show ?case by (intro exI [of _ "es @ es'"]) simp
qed

subsection \<open>A turn of a window\<close>

text \<open>The requests for what a window has noted.\<close>

lemma send_update_objects: "um_objects (send_update ik m) = um_objects m"
  by (auto simp: send_update_def send_def split: prod.split option.split)

lemma send_update_sent:
  assumes "rid_is_local i" "id_is_zero (rid_id i) \<or> key \<in> own_keys"
  shows "\<exists>rs. um_sent (send_update (i, key) m) = um_sent m @ rs \<and>
    sends_own {(j, k). (rid_local j, k) = (i, key) \<and> \<not> id_is_zero j} m rs"
proof -
  have i: "rid_local j = i \<longleftrightarrow> j = rid_id i" for j using assms(1) by (auto simp: local_is)
  have K: "{(j, k). (rid_local j, k) = (i, key) \<and> \<not> id_is_zero j} =
      (if id_is_zero (rid_id i) then {} else {(rid_id i, key)})" by (auto simp: i)
  show ?thesis
  proof (cases "id_is_zero (rid_id i)")
    case True
    then show ?thesis
      unfolding K using assms(1) by (simp add: send_update_def send_def sends_own_def own_request_def)
  next
    case False
    have get: "shown m (rid_id i) = hm_get (um_objects m) i" using i [of "rid_id i"] by (simp add: shown_def)
    show ?thesis
    proof (cases "hm_get (um_objects m) i")
      case None
      with False assms(1) get show ?thesis unfolding K by (simp add: send_update_def sends_own_def)
    next
      case (Some ob)
      then have "own_request m (ObjectUpdate (rid_id i) [(key, object_get ob key)])"
        using get assms(2) False unfolding own_request_def by auto
      with False assms(1) Some get show ?thesis
        unfolding K by (simp add: send_update_def send_def sends_own_def)
    qed
  qed
qed

lemma sends_own_append: "sends_own K m rs \<Longrightarrow> sends_own L m rs' \<Longrightarrow> sends_own (K \<union> L) m (rs @ rs')"
  by (auto simp: sends_own_def)

lemma send_updates_sent:
  "\<forall>(i, key)\<in>set iks. rid_is_local i \<and> (id_is_zero (rid_id i) \<or> key \<in> own_keys) \<Longrightarrow>
   \<exists>rs. um_sent (fold send_update iks m) = um_sent m @ rs \<and>
     sends_own {(j, k). (rid_local j, k) \<in> set iks \<and> \<not> id_is_zero j} m rs"
proof (induction iks arbitrary: m)
  case (Cons ik iks)
  obtain i key where ik: "ik = (i, key)" by (cases ik)
  obtain rs where rs: "um_sent (send_update ik m) = um_sent m @ rs"
    "sends_own {(j, k). (rid_local j, k) = ik \<and> \<not> id_is_zero j} m rs"
    using send_update_sent [of i key m] Cons.prems by (auto simp: ik)
  have prems: "\<forall>(i, key)\<in>set iks. rid_is_local i \<and> (id_is_zero (rid_id i) \<or> key \<in> own_keys)"
    using Cons.prems by simp
  obtain rs' where rs': "um_sent (fold send_update iks (send_update ik m)) = um_sent (send_update ik m) @ rs'"
    "sends_own {(j, k). (rid_local j, k) \<in> set iks \<and> \<not> id_is_zero j} (send_update ik m) rs'"
    using Cons.IH [OF prems, of "send_update ik m"] by (elim exE conjE) (rule that)
  have same: "shown (send_update ik m) = shown m" by (simp add: shown_def send_update_objects fun_eq_iff)
  have "sends_own ({(j, k). (rid_local j, k) = ik \<and> \<not> id_is_zero j} \<union>
      {(j, k). (rid_local j, k) \<in> set iks \<and> \<not> id_is_zero j}) m (rs @ rs')"
    using sends_own_append [OF rs(2) rs'(2) [unfolded sends_own_shown [OF same]]] .
  moreover have "{(j, k). (rid_local j, k) = ik \<and> \<not> id_is_zero j} \<union>
      {(j, k). (rid_local j, k) \<in> set iks \<and> \<not> id_is_zero j} =
      {(j, k). (rid_local j, k) \<in> set (ik # iks) \<and> \<not> id_is_zero j}" by auto
  ultimately show ?case using rs(1) rs'(1) by (intro exI [of _ "rs @ rs'"]) simp
qed (simp add: sends_own_def)

lemma after_update_sent:
  assumes "um_channel m \<noteq> CHANNEL_NONE"
    and "\<forall>(i, key)\<in>set (um_updates m). rid_is_local i \<and> (id_is_zero (rid_id i) \<or> key \<in> own_keys)"
  shows "\<exists>rs. um_sent (snd (after_update m)) = um_sent m @ rs \<and>
    sends_own {(j, k). k \<in> noted m j} m rs \<and> um_updates (snd (after_update m)) = []"
proof -
  have "{(j, k). (rid_local j, k) \<in> set (um_updates m) \<and> \<not> id_is_zero j} = {(j, k). k \<in> noted m j}"
    by (auto simp: noted_def)
  with send_updates_sent [OF assms(2), of m] assms(1) show ?thesis
    by (auto simp: after_update_def send_updates_def Let_def sends_own_def)
qed

lemma updates_after [simp]: "um_updates (snd (after_update m)) = []"
  by (simp add: after_update_def send_updates_def Let_def)

lemma map_update_cases:
  assumes "map_update msg m = Some (changed, msgs, m1)"
  obtains b m0 where "try_update msg m = Some (b, msgs, m0)" "m1 = snd (after_update m0)"
  using assms by (auto simp: map_update_def split: bind_splits prod.splits)

definition new_requests :: "UiMap \<Rightarrow> UiMap \<Rightarrow> Request list" where
  "new_requests m m' = drop (length (um_sent m)) (um_sent m')"

lemma agrees_changed:
  assumes "agrees {} {} b m" "changes_own m m0" "shown m1 = shown m0"
  shows "agrees {} {(j, k). k \<in> noted m0 j} b m1"
  using assms same_object_but by (fastforce simp: agrees_def changes_own_def)

lemma turn_changes:
  assumes a: "agrees {} {} b m" "backend_ok b" "um_channel m \<noteq> CHANNEL_NONE" and own: "changes_own m m0"
    and "answered cr d il (um_channel m) (new_requests m (snd (after_update m0))) (s, b) = Some (s', b')"
  shows "\<exists>es. bk_broadcasts b' = bk_broadcasts b @ es \<and>
    agrees {} {} b' (fold deliver es (snd (after_update m0))) \<and> backend_ok b'"
proof -
  let ?m1 = "snd (after_update m0)" and ?K = "{(j, k). k \<in> noted m0 j}"
  have c: "um_channel m0 = um_channel m" using own by (simp add: changes_own_def)
  obtain rs where rs: "um_sent ?m1 = um_sent m0 @ rs" "sends_own ?K m0 rs"
    using after_update_sent [of m0] own a(3) c by (auto simp: changes_own_def)
  have ag: "agrees {} ?K b ?m1" by (rule agrees_changed [OF a(1) own]) simp
  consider "um_sent m0 = um_sent m"
    | ty props where "um_sent m0 = um_sent m @ [CreateObject ty props]" "um_updates m0 = []"
    using own by (auto simp: changes_own_def)
  then show ?thesis
  proof cases
    case 1
    have "new_requests m ?m1 = rs" using rs(1) 1 by (simp add: new_requests_def)
    with assms(5) c own_requests_answered [of cr d il ?m1 rs s b s' b' ?K] rs(2) ag a(2) show ?thesis
      by (simp add: sends_own_shown [of ?m1 m0])
  next
    case 2
    have "rs = []" using rs(1) 2(2) by (simp add: sent_after)
    then have "answered cr d il (um_channel m) [CreateObject ty props] (s, b) = Some (s', b')"
      using assms(5) rs(1) 2(1) by (simp add: new_requests_def)
    then obtain resp s1 b1 where h: "ws_handle cr d il (um_channel m) (CreateObject ty props) (s, b) = (Inr resp, s1, b1)"
      "request_ok b (CreateObject ty props)" "answered cr d il (um_channel m) [] (s1, b1) = Some (s', b')"
      by (rule answered_Cons)
    have "?K = {}" using 2(2) by (auto simp: noted_def)
    with ag have "agrees {} {} b ?m1" by simp
    moreover have "conveyed (um_channel ?m1) b b1"
      using request_conveyed [OF h(1) a(2)] a(3) c by simp
    moreover have "b1 = b'" using h(3) by simp
    ultimately show ?thesis
      using request_backend_ok [OF a(2) h(2,1)] unfolding conveyed_def by auto
  qed
qed

lemma turn_removes:
  assumes a: "agrees {} {} b m" "backend_ok b" "um_channel m \<noteq> CHANNEL_NONE" and own: "removes i m m0"
    and "answered cr d il (um_channel m) (new_requests m (snd (after_update m0))) (s, b) = Some (s', b')"
  shows "\<exists>es. bk_broadcasts b' = bk_broadcasts b @ es \<and>
    agrees {} {} b' (fold deliver es (snd (after_update m0))) \<and> backend_ok b'"
proof -
  let ?m1 = "snd (after_update m0)"
  have c: "um_channel m0 = um_channel m" using own by (simp add: removes_def)
  have zero: "\<forall>(j, key)\<in>set (um_updates m0). rid_is_local j \<and> (id_is_zero (rid_id j) \<or> key \<in> own_keys)"
    "{(j, k). k \<in> noted m0 j} = {}"
    using own by (force simp: removes_def noted_def RemoteId_ZERO_def Id_ZERO_def id_is_zero_def rid_local_def
        rid_is_local_def pid_is_zero_def PeerId_ZERO_def)+
  obtain rs where rs: "um_sent ?m1 = um_sent m0 @ rs" "sends_own {} m0 rs"
    using after_update_sent [of m0] zero a(3) c by auto
  have "new_requests m ?m1 = RemoveObject i # rs"
    using rs(1) own by (simp add: new_requests_def removes_def)
  then obtain resp s1 b1 where h: "ws_handle cr d il (um_channel m) (RemoveObject i) (s, b) = (Inr resp, s1, b1)"
    "request_ok b (RemoveObject i)" "answered cr d il (um_channel m) rs (s1, b1) = Some (s', b')"
    using assms(5) by (simp only:) (rule answered_Cons)
  obtain b0 where b0: "remove_object cr i b = (None, b0)"
    "b1 = broadcast (BRemoteUpdate (RObjectRemoved (um_channel m) (rid_local i))) b0"
    using h(1) by (auto split: prod.splits option.splits)
  let ?e = "BRemoteUpdate (RObjectRemoved (um_channel m) (rid_local i))"
  note f = remove_object_fields [OF b0(1)]
  have same: "shown (deliver ?e ?m1) = shown m0" using c by (simp add: shown_removed fun_eq_iff)
  have "agrees {} {} b1 (deliver ?e ?m1)"
    using a(1) own unfolding agrees_def same
    by (auto simp: b0(2) broadcast_def f hm_get_remove removes_def same_object_def)
  from own_requests_answered [OF _ _ this, of cr d il rs s1 s' b'] h(3) c rs(2)
  obtain es where "bk_broadcasts b' = bk_broadcasts b1 @ es"
    "agrees {} {} b' (fold deliver es (deliver ?e ?m1))" "backend_ok b'"
    using request_backend_ok [OF a(2) h(2,1)] by (auto simp: sends_own_shown [OF same])
  then show ?thesis
    by (intro exI [of _ "?e # es"]) (simp add: b0(2) broadcast_def f)
qed

subsection \<open>Every window shows what the backend holds\<close>

text \<open>News of other peers: their objects, and that they come and go.\<close>

definition from_peers :: "Broadcast \<Rightarrow> bool" where
  "from_peers e =
     (case e of
        BRemoteUpdate body \<Rightarrow>
          (case body of
             RPeerJoin p _ \<Rightarrow> \<not> pid_is_zero p
           | RPeerLeave p \<Rightarrow> \<not> pid_is_zero p
           | RPeerDisconnect p \<Rightarrow> \<not> pid_is_zero p
           | RObjectCreated _ i _ \<Rightarrow> \<not> rid_is_local i
           | RObjectUpdated _ i _ _ \<Rightarrow> \<not> rid_is_local i
           | RObjectRemoved _ i \<Rightarrow> \<not> rid_is_local i
           | _ \<Rightarrow> True)
      | _ \<Rightarrow> True)"

inductive follows :: "Crypto \<Rightarrow> Descriptive \<Rightarrow> 'img ImageLib \<Rightarrow> Backend \<Rightarrow> UiMap \<Rightarrow> bool" for cr d il where
  follows_load: "backend_ok b \<Longrightarrow> peers_named b \<Longrightarrow> um_channel m \<noteq> CHANNEL_NONE \<Longrightarrow>
    map_update (M_Initialize (initialize_map cr b)) m = Some (changed, msgs, m') \<Longrightarrow>
    follows cr d il b m'"
| follows_other: "follows cr d il b m \<Longrightarrow> c \<noteq> um_channel m \<Longrightarrow> request_ok b r \<Longrightarrow>
    ws_handle cr d il c r (s, b) = (Inr resp, s', b') \<Longrightarrow>
    follows cr d il b' (fold deliver (news b b') m)"
| follows_own: "follows cr d il b m \<Longrightarrow> own_msg m msg \<Longrightarrow> map_update msg m = Some (changed, msgs, m1) \<Longrightarrow>
    answered cr d il (um_channel m) (new_requests m m1) (s, b) = Some (s', b') \<Longrightarrow>
    follows cr d il b' (fold deliver (news b b') m1)"
| follows_peers: "follows cr d il b m \<Longrightarrow> backend_ok b' \<Longrightarrow> bk_objects b' = bk_objects b \<Longrightarrow>
    bk_broadcasts b' = bk_broadcasts b @ es \<Longrightarrow> list_all from_peers es \<Longrightarrow>
    follows cr d il b' (fold deliver es m)"

lemma shown_init_remote:
  "\<not> pid_is_zero p \<Longrightarrow> shown (fold (\<lambda>o1. init_remote (p, o1)) objects m) = shown m"
proof -
  assume p: "\<not> pid_is_zero p"
  have "rid_local j \<notin> po_id ` set (map (Pair p) objects)" for j
    using p by (auto simp: po_id_def rid_local_def pid_is_zero_def PeerId_ZERO_def)
  from init_remote_objects [OF this, of m] show ?thesis
    by (simp add: shown_def fun_eq_iff fold_map comp_def)
qed

lemma shown_retain:
  assumes "\<And>i b. rid_peer_id i = PeerId_ZERO \<Longrightarrow> f i b" "hm_wf (um_objects m)"
  shows "hm_get (objects_retain f (um_objects m)) (rid_local j) = shown m j"
  using assms by (auto simp: objects_retain_def hm_get_retain shown_def rid_local_def split: option.split)

lemma local_not_remote: "\<not> rid_is_local i \<Longrightarrow> i \<noteq> rid_local j"
  by (auto simp: rid_is_local_def rid_local_def pid_is_zero_def PeerId_ZERO_def)

lemma shown_from_peers:
  assumes "from_peers e" "hm_wf (um_objects m)"
  shows "shown (deliver e m) = shown m"
proof (cases "\<exists>body. e = BRemoteUpdate body")
  case False
  then show ?thesis by (intro shown_quiet) (auto simp: about_objects_def split: Broadcast.splits)
next
  case True
  then obtain body where e: "e = BRemoteUpdate body" by blast
  have p: "\<not> pid_is_zero p \<Longrightarrow> p \<noteq> PeerId_ZERO" for p by (auto simp: pid_is_zero_def PeerId_ZERO_def)
  show ?thesis
  proof (cases body)
    case (RPeerJoin p objects)
    have "shown (x\<lparr>um_redraw := r\<rparr>) = shown x" for x r by (simp add: shown_def fun_eq_iff)
    with assms(1) show ?thesis
      by (simp add: e RPeerJoin from_peers_def deliver_simps remote_update_def shown_init_remote)
  next
    case RRemoteLost
    show ?thesis
      using shown_retain [OF _ assms(2), of "\<lambda>i _. rid_peer_id i = PeerId_ZERO"]
      by (simp add: e RRemoteLost deliver_simps remote_update_def) (simp add: shown_def fun_eq_iff)
  next
    case (RPeerLeave p')
    with assms(1) p have "p' \<noteq> PeerId_ZERO" by (simp add: e from_peers_def)
    with shown_retain [OF _ assms(2), of "\<lambda>i global. global \<or> rid_peer_id i \<noteq> p'"] show ?thesis
      by (auto simp: e RPeerLeave deliver_simps remote_update_def shown_def fun_eq_iff)
  next
    case (RPeerDisconnect p')
    with assms(1) p have "p' \<noteq> PeerId_ZERO" by (simp add: e from_peers_def)
    with shown_retain [OF _ assms(2), of "\<lambda>i _. rid_peer_id i \<noteq> p'"] show ?thesis
      by (auto simp: e RPeerDisconnect deliver_simps remote_update_def shown_def fun_eq_iff Let_def)
  next
    case (RObjectCreated c i object)
    with assms(1) p have "rid_peer_id i \<noteq> PeerId_ZERO" by (simp add: e from_peers_def rid_is_local_def)
    then have "hm_get (um_objects (snd (map_create_object i object m))) (rid_local j) = shown m j" for j
      by (auto simp: map_create_object_def add_object_def objects_insert_def hm_get_insert shown_def
          rid_local_def object_new_fields(1) split: option.split)
    then show ?thesis
      by (simp add: e RObjectCreated deliver_simps remote_update_def) (simp add: shown_def fun_eq_iff)
  next
    case (RObjectUpdated c i key v)
    with assms(1) have "i \<noteq> rid_local j" for j using local_not_remote by (simp add: e from_peers_def)
    then have "hm_get (um_objects (snd (map_object_updated c i key v m))) (rid_local j) = shown m j" for j
      by (auto simp: map_object_updated_def Let_def split_beta objects_put_def hm_get_insert shown_def split: option.split)
    then show ?thesis
      by (simp add: e RObjectUpdated deliver_simps remote_update_def) (simp add: shown_def fun_eq_iff)
  next
    case (RObjectRemoved c i)
    with assms(1) have "i \<noteq> rid_local j" for j using local_not_remote by (simp add: e from_peers_def)
    then show ?thesis
      by (auto simp: e RObjectRemoved deliver_simps remote_update_def shown_removed_object fun_eq_iff)
  qed (simp_all add: e shown_quiet about_objects_def)
qed

text \<open>The table of objects is a map throughout.\<close>

definition objects_wf :: "UiMap \<Rightarrow> bool" where
  "objects_wf m \<longleftrightarrow> hm_wf (um_objects m)"

lemma objects_wf_same: "same_tables m m' \<Longrightarrow> objects_wf m' = objects_wf m"
  by (simp add: objects_wf_def same_tables_def)

lemma objects_wf_init_remote: "objects_wf m \<Longrightarrow> objects_wf (fold init_remote pos m)"
  by (induction pos arbitrary: m)
    (simp_all add: objects_wf_def init_remote_def add_object_def objects_insert_def split: option.split)

lemma objects_wf_initialize: "objects_wf (snd (map_initialize body m))"
proof -
  have wf: "hm_wf os \<Longrightarrow> hm_wf (fold (\<lambda>ob os. hm_insert (ob_id ob) ob os) obs os)" for obs os
    by (induction obs arbitrary: os) simp_all
  have "hm_wf (fold (\<lambda>ob os. hm_insert (ob_id ob) ob os) obs [])" for obs
    by (rule wf) (simp add: hm_wf_def)
  then show ?thesis
    by (simp add: map_initialize_def Let_def objects_wf_def)
      (rule objects_wf_init_remote [unfolded objects_wf_def], simp add: init_local_objects objects_clear_def)
qed

lemma objects_wf_put: "objects_wf m \<Longrightarrow> hm_wf (objects_put i ob (um_objects m))"
  by (simp add: objects_wf_def objects_put_def)

lemma objects_wf_remove: "objects_wf m \<Longrightarrow> objects_wf (snd (map_remove_object i m))"
  using same_tables_select [of "m\<lparr>um_active := hs_remove i (um_active m),
      um_objects := snd (objects_remove i (um_objects m)), um_order := snd (order_remove i (um_order m))\<rparr>" RemoteId_ZERO]
  by (simp add: map_remove_object_def Let_def objects_wf_def same_tables_def objects_remove_def)

lemma objects_wf_remote:
  assumes "objects_wf m"
  shows "objects_wf (snd (remote_update body m))"
proof -
  have join: "objects_wf (fold (\<lambda>o1. init_remote (p, o1)) objects m)" for p objects
    using objects_wf_init_remote [OF assms, of "map (Pair p) objects"] by (simp add: fold_map comp_def)
  have create: "objects_wf (snd (map_create_object i o1 m))" for i o1
    using assms by (simp add: map_create_object_def add_object_def objects_insert_def objects_wf_def split: option.split)
  have update: "objects_wf (snd (map_object_updated c i key v m))" for c i key v
    using assms by (simp add: map_object_updated_def Let_def split_beta objects_wf_def objects_put_def split: option.split)
  show ?thesis
    using assms join create update objects_wf_remove [OF assms]
    by (cases body) (simp_all add: remote_update_def Let_def objects_retain_def objects_wf_def split: option.split)
qed

lemma objects_wf_deliver: "objects_wf m \<Longrightarrow> objects_wf (deliver e m)"
  using objects_wf_remote
  by (cases e) (simp_all add: deliver_simps objects_wf_same [OF same_tables_after] objects_wf_same [OF same_tables_config])

lemma objects_wf_delivers: "objects_wf m \<Longrightarrow> objects_wf (fold deliver es m)"
  by (induction es arbitrary: m) (simp_all add: objects_wf_deliver)

lemma objects_wf_toggles:
  assumes "objects_wf m"
  shows "objects_wf (snd (toggle_locked i m))" "objects_wf (snd (toggle_hidden i m))"
    "objects_wf (snd (toggle_local_hidden i m))" "objects_wf (snd (toggle_expanded i m))"
    "objects_wf (snd (drop_object i d m))"
  using assms by (simp_all add: toggle_locked_def toggle_hidden_def toggle_local_hidden_def toggle_expanded_def
      drop_object_def Let_def split_beta objects_wf_def objects_put_def split: option.split)

lemma objects_wf_drag_end: "objects_wf m \<Longrightarrow> drag_end i m = Some (b, m') \<Longrightarrow> objects_wf m'"
  using objects_wf_toggles(5) [of "m\<lparr>um_drag_over := None\<rparr>" i]
  by (fastforce simp: drag_end_def Let_def objects_wf_def split: option.splits if_splits
      dest: arg_cong [where f = snd])

lemma objects_wf_try_update:
  assumes wf: "objects_wf m" and "try_update msg m = Some (b, msgs, m')"
  shows "objects_wf m'"
proof -
  have accept: "objects_wf (snd (accept m))"
    using wf objects_wf_remove by (auto simp: accept_def Let_def remove_object_remote_def objects_wf_def send_def
        split: option.splits MapModal.splits)
  note same = objects_wf_same [OF same_tables_select] objects_wf_same [OF same_tables_cancel(1)]
    objects_wf_same [OF same_tables_cancel(2)] objects_wf_same [OF same_tables_config]
    objects_wf_same [OF same_tables_mumble] objects_wf_same [OF same_tables_channel]
    objects_wf_same [OF same_tables_create]
  show ?thesis
  proof (cases msg)
    case (M_DragEnd i)
    with assms objects_wf_drag_end [OF wf] show ?thesis by (auto simp: try_update_def handled_now_def split: bind_splits)
  next
    case (M_RemoveObject i)
    with assms objects_wf_remove [of "send (RemoveObject (rid_id i)) m" i] show ?thesis
      by (auto simp: try_update_def handled_now_def remove_object_remote_def objects_wf_def)
  next
    case (M_KeyDown key)
    with assms accept same(3) [of m] objects_wf_toggles(1) [OF wf] show ?thesis
      by (auto simp: try_update_def on_key_down_def handled_now_def objects_wf_def split: KeyPress.splits
          option.splits MapModal.splits if_splits)
  next
    case (M_OpenObject i)
    with assms show ?thesis by (auto simp: try_update_def open_object_def split: option.splits ObjectKind.splits)
  next
    case (M_OpenSettings i)
    with assms objects_wf_same [OF same_tables_dialog] show ?thesis by (auto simp: try_update_def)
  next
    case (M_ConfirmRemove i)
    with assms objects_wf_same [OF same_tables_dialog] show ?thesis by (auto simp: try_update_def)
  qed (use assms(2) wf objects_wf_toggles [OF wf] objects_wf_remote [OF wf] objects_wf_initialize same in
      \<open>auto simp: try_update_def handled_now_def objects_wf_def split: if_splits\<close>)
qed

lemma objects_wf_update: "objects_wf m \<Longrightarrow> map_update msg m = Some (changed, msgs, m') \<Longrightarrow> objects_wf m'"
  by (erule map_update_cases) (simp add: objects_wf_same [OF same_tables_after] objects_wf_try_update)

text \<open>What holds of a window that follows.\<close>

lemma updates_delivers: "um_updates m = [] \<Longrightarrow> um_updates (fold deliver es m) = []"
proof (induction es arbitrary: m)
  case (Cons e es)
  have "um_updates (deliver e m) = []" using Cons.prems by (cases e) (simp_all add: deliver_simps)
  with Cons.IH show ?case by simp
qed simp

lemma shown_delivers_peers:
  "list_all from_peers es \<Longrightarrow> objects_wf m \<Longrightarrow> shown (fold deliver es m) = shown m"
  by (induction es arbitrary: m) (simp_all add: shown_from_peers objects_wf_deliver [unfolded objects_wf_def] objects_wf_def)

definition in_step :: "Backend \<Rightarrow> UiMap \<Rightarrow> bool" where
  "in_step b m \<longleftrightarrow> agrees {} {} b m \<and> backend_ok b \<and> um_channel m \<noteq> CHANNEL_NONE \<and>
     um_updates m = [] \<and> objects_wf m"

lemma in_step_other:
  assumes "in_step b m" "c \<noteq> um_channel m" "request_ok b r"
    "ws_handle cr d il c r (s, b) = (Inr resp, s', b')"
  shows "in_step b' (fold deliver (news b b') m)"
proof -
  have "conveyed (um_channel m) b b'"
    using request_conveyed [OF assms(4)] assms(1,2) by (simp add: in_step_def)
  from conveyed_news [OF this] assms(1) request_backend_ok [OF _ assms(3,4)] show ?thesis
    by (simp add: in_step_def updates_delivers objects_wf_delivers)
qed

lemma in_step_own:
  assumes "in_step b m" "own_msg m msg" "map_update msg m = Some (changed, msgs, m1)"
    "answered cr d il (um_channel m) (new_requests m m1) (s, b) = Some (s', b')"
  shows "in_step b' (fold deliver (news b b') m1)"
proof -
  obtain x m0 where m0: "try_update msg m = Some (x, msgs, m0)" "m1 = snd (after_update m0)"
    using assms(3) by (auto elim: map_update_cases)
  have a: "agrees {} {} b m" "backend_ok b" "um_channel m \<noteq> CHANNEL_NONE" "um_updates m = []" "objects_wf m"
    using assms(1) by (simp_all add: in_step_def)
  have own: "changes_own m m0 \<or> (\<exists>i. removes i m m0)" by (rule own_message [OF a(4) assms(2) m0(1)])
  then have "um_channel m1 = um_channel m" by (auto simp: m0(2) changes_own_def removes_def)
  moreover obtain es where "bk_broadcasts b' = bk_broadcasts b @ es"
    "agrees {} {} b' (fold deliver es m1)" "backend_ok b'"
    using own turn_changes [OF a(1-3)] turn_removes [OF a(1-3)] assms(4) unfolding m0(2) by blast
  moreover have "objects_wf m1" by (rule objects_wf_update [OF a(5) assms(3)])
  ultimately show ?thesis
    using a(3) by (simp add: in_step_def news_def updates_delivers objects_wf_delivers m0(2))
qed

lemma follows_in_step: "follows cr d il b m \<Longrightarrow> in_step b m"
proof (induction rule: follows.induct)
  case (follows_load b m changed msgs m')
  from follows_load(4) have m': "m' = snd (after_update (snd (map_initialize (initialize_map cr b) m)))"
    by (auto simp: map_update_def try_update_def handled_now_def split: prod.splits)
  have "agrees {} {} b m'"
    using agrees_loaded [OF follows_load(1,2), of cr m] unfolding m' by (simp add: agrees_def)
  with follows_load(1,3) show ?case
    by (simp add: in_step_def m' objects_wf_same [OF same_tables_after] objects_wf_initialize)
next
  case (follows_other b m c r s resp s' b')
  then show ?case using in_step_other by blast
next
  case (follows_own b m msg changed msgs m1 s s' b')
  then show ?case using in_step_own by blast
next
  case (follows_peers b m b' es)
  then show ?case
    using shown_delivers_peers [of es m] agrees_same [of b' b "fold deliver es m" m]
    by (simp add: in_step_def updates_delivers objects_wf_delivers)
qed

end
