(* ===== verification/UiFollowProps.thy ===== *)
theory UiFollowProps
  imports UiFollow BackendProps
begin

section \<open>What windows show, and where they disagree\<close>

text \<open>
  The copy of a window is one of what the backend holds; choices of two windows at the same time
  leave one of them with the wrong one, and removing the object of another peer removes an own
  one.
\<close>

text \<open>A window on an empty backend, and another one that creates a token.\<close>

definition demo_start :: Backend where
  "demo_start = demo_backend\<lparr>bk_database := empty_db\<rparr>"

definition demo_window :: UiMap where
  "demo_window = map_new\<lparr>um_channel := 1\<rparr>"

lemma demo_start_ok: "backend_ok demo_start" "peers_named demo_start"
proof -
  show "backend_ok demo_start"
    using backend_new_ok [OF demo_backend_new] backend_ok_shared [of demo_start demo_backend]
    by (simp add: demo_start_def sharing)
  show "peers_named demo_start"
    using demo_backend_new by (auto simp: peers_named_def demo_start_def backend_new_def Let_def split: prod.splits option.splits)
qed

lemma demo_follows:
  "\<exists>b m i lo. follows demo_crypto demo_descriptive demo_images b m \<and> um_channel m = 1 \<and>
     hm_get (bk_objects b) i = Some lo \<and> lo_ty lo = TYPE_TOKEN \<and> \<not> id_is_zero i \<and> db_ok (bk_database b)"
proof -
  have "\<exists>changed msgs m. map_update (M_Initialize (initialize_map demo_crypto demo_start)) demo_window =
      Some (changed, msgs, m)"
    by (simp add: map_update_def try_update_def handled_now_def split_beta)
  then obtain changed msgs m where m: "map_update (M_Initialize (initialize_map demo_crypto demo_start)) demo_window =
      Some (changed, msgs, m)" by blast
  have f: "follows demo_crypto demo_descriptive demo_images demo_start m"
    by (rule follows_load [OF demo_start_ok _ m]) (simp add: demo_window_def)
  have c: "um_channel m = 1"
  proof -
    have "m = snd (after_update (snd (map_initialize (initialize_map demo_crypto demo_start) demo_window)))"
      using m by (auto simp: map_update_def try_update_def handled_now_def split: prod.splits)
    then show ?thesis by (simp add: demo_window_def)
  qed
  obtain o1 b' where o1: "create_object demo_descriptive TYPE_TOKEN demo_props demo_start = (Inr o1, b')"
    "db_ok (bk_database b')"
    using demo_creates [of demo_start] empty_db_ok by (auto simp: demo_start_def empty_db_def)
  let ?b = "broadcast (BRemoteUpdate (RObjectCreated 2 (rid_local (ro_id o1)) o1)) b'"
  have h: "ws_handle demo_crypto demo_descriptive demo_images 2 (CreateObject TYPE_TOKEN demo_props) (ws_new, demo_start) =
      (Inr (R_CreateObject o1), ws_new, ?b)" by (simp add: o1)
  have ok: "request_ok demo_start (CreateObject TYPE_TOKEN demo_props)"
    by (simp add: request_ok_def demo_props_def props_ok_def hm_wf_def hm_get_def)
  have "follows demo_crypto demo_descriptive demo_images ?b (fold deliver (news demo_start ?b) m)"
    by (rule follows_other [OF f _ ok h]) (simp add: c)
  moreover have "um_channel (fold deliver (news demo_start ?b) m) = 1" by (simp add: c)
  moreover have "hm_get (bk_objects ?b) (ro_id o1) =
      Some \<lparr>lo_ty = TYPE_TOKEN, lo_id = ro_id o1, lo_props = ro_props o1, lo_changed = []\<rparr>"
    using create_object_fields(4) [OF o1(1) demo_start_ok(1)] by (simp add: broadcast_def hm_get_insert)
  moreover have "\<not> id_is_zero (ro_id o1)"
  proof -
    obtain i b1 where "new_id demo_start = (Some i, b1)" "ro_id o1 = i"
      using o1(1) by (auto simp: create_object_def Let_def split: prod.splits option.splits)
    with new_id_shared show ?thesis by (fastforce simp: allocated_def)
  qed
  moreover have "db_ok (bk_database ?b)" using o1(2) by (simp add: broadcast_def)
  ultimately show ?thesis by (metis LocalObject.select_convs(1))
qed



subsection \<open>Two changes at the same time\<close>

lemma values_send_updates [simp]: "um_values (fold send_update iks m) = um_values m"
  by (induction iks arbitrary: m) (auto simp: send_update_def send_def split: prod.split option.split)

lemma values_after [simp]: "um_values (snd (after_update m)) = um_values m"
  by (simp add: after_update_def send_updates_def Let_def)

text \<open>A window chooses the object that follows the game.\<close>

lemma choose_turn:
  assumes "um_updates m = []" "um_channel m \<noteq> CHANNEL_NONE" "\<not> id_is_zero i"
    and "mv_mumble_object (um_values m) \<noteq> rid_local i"
  obtains msgs m1 where "map_update (M_ToggleMumbleObject (rid_local i)) m = Some (True, msgs, m1)"
    "new_requests m m1 = [Updates [(KEY_MUMBLE_OBJECT, value_from_id i)]]"
    "mv_mumble_object (um_values m1) = rid_local i" "um_channel m1 = um_channel m"
proof -
  let ?m0 = "snd (toggle_mumble_object (rid_local i) m)"
  have i: "\<not> rid_is_zero (rid_local i)" "rid_is_local (rid_local i)"
    using assms(3) by (simp_all add: rid_is_zero_def rid_is_local_def rid_local_def pid_is_zero_def PeerId_ZERO_def)
  have m0: "fst (toggle_mumble_object (rid_local i) m)" "um_updates ?m0 = [(RemoteId_ZERO, KEY_MUMBLE_OBJECT)]"
    "um_sent ?m0 = um_sent m" "um_channel ?m0 = um_channel m" "mv_mumble_object (um_values ?m0) = rid_local i"
    using assms i by (simp_all add: toggle_mumble_object_def Let_def noted_updates) (simp_all add: note_update_def)
  have "um_sent (snd (after_update ?m0)) = um_sent m @ [Updates [(KEY_MUMBLE_OBJECT, value_from_id i)]]"
    using assms(2) m0
    by (simp add: sent_after send_updates_def send_update_def send_def values_get_def RemoteId_ZERO_def
        rid_is_local_def pid_is_zero_def PeerId_ZERO_def Id_ZERO_def id_is_zero_def)
      (simp add: rid_local_def)
  moreover have "map_update (M_ToggleMumbleObject (rid_local i)) m = Some (True, [], snd (after_update ?m0))"
    using m0(1) by (simp add: map_update_def try_update_def handled_now_def split_beta)
  ultimately show thesis using that [of "[]" "snd (after_update ?m0)"] m0(4,5) by (simp add: new_requests_def)
qed

lemma chosen_object:
  fixes b :: Backend and cr c i
  defines "b' \<equiv> updates cr c [(KEY_MUMBLE_OBJECT, value_from_id i)] b"
  shows "bk_mumble_object b' = i" "as_id (props_get (bk_props b') KEY_MUMBLE_OBJECT) = i"
    "bk_broadcasts b' = bk_broadcasts b @ [BUpdate (UConfig c KEY_MUMBLE_OBJECT (value_from_id i))]"
proof -
  have id: "as_id (value_from_id i) = i" "as_id (value_norm (value_from_id i)) = i"
    by (auto simp: value_from_id_def id_is_zero_def Id_ZERO_def value_norm_def intro: Id.expand)
  show "bk_mumble_object b' = i" "as_id (props_get (bk_props b') KEY_MUMBLE_OBJECT) = i"
    "bk_broadcasts b' = bk_broadcasts b @ [BUpdate (UConfig c KEY_MUMBLE_OBJECT (value_from_id i))]"
    by (simp_all add: b'_def updates_def Let_def update_prop_def notify_client_def store_mumble_object_def
        set_mumblelink_transform_def broadcast_def props_get_put id)
qed

lemma told_choice:
  "mv_mumble_object (um_values (deliver (BUpdate (UConfig c KEY_MUMBLE_OBJECT (value_from_id i))) m)) =
     (if um_channel m = c then mv_mumble_object (um_values m) else rid_local i)"
proof -
  have "as_id (value_from_id i) = i"
    by (auto simp: value_from_id_def id_is_zero_def Id_ZERO_def intro: Id.expand)
  then show ?thesis
    by (simp add: deliver_simps config_update_def values_update_def assign_def state_update_def Let_def)
qed

text \<open>
  C31. Two windows choose different objects for the game to move at the same time. Each changes its
  own copy and asks the backend, which handles one request after the other and keeps the later
  choice. The window that made the later one ignores the broadcast of its own request, but takes
  over the earlier choice, which arrives after it changed its copy: it then shows an object that is
  not the one the backend holds, while the other window shows the right one.
\<close>

theorem concurrent_changes_diverge:
  assumes "follows cr d il b m" "follows cr d il b n" "um_channel m \<noteq> um_channel n"
    and "i \<noteq> j" "\<not> id_is_zero i" "\<not> id_is_zero j"
    and "mv_mumble_object (um_values m) \<noteq> rid_local i" "mv_mumble_object (um_values n) \<noteq> rid_local j"
  shows "\<exists>msgs m1 r msgs' n1 q t1 b1 s1 b2.
    map_update (M_ToggleMumbleObject (rid_local i)) m = Some (True, msgs, m1) \<and> new_requests m m1 = [r] \<and>
    map_update (M_ToggleMumbleObject (rid_local j)) n = Some (True, msgs', n1) \<and> new_requests n n1 = [q] \<and>
    ws_handle cr d il (um_channel n) q (t, b) = (Inr R_Empty, t1, b1) \<and>
    ws_handle cr d il (um_channel m) r (s, b1) = (Inr R_Empty, s1, b2) \<and>
    bk_mumble_object b2 = i \<and> as_id (props_get (bk_props b2) KEY_MUMBLE_OBJECT) = i \<and>
    mv_mumble_object (um_values (fold deliver (news b b2) m1)) = rid_local j \<and>
    mv_mumble_object (um_values (fold deliver (news b b2) n1)) = rid_local i"
proof -
  have m: "um_updates m = []" "um_channel m \<noteq> CHANNEL_NONE"
    and n: "um_updates n = []" "um_channel n \<noteq> CHANNEL_NONE"
    using assms(1,2) [THEN follows_in_step] by (simp_all add: in_step_def)
  let ?r = "[(KEY_MUMBLE_OBJECT, value_from_id i)]" and ?q = "[(KEY_MUMBLE_OBJECT, value_from_id j)]"
  obtain msgs m1 where m1: "map_update (M_ToggleMumbleObject (rid_local i)) m = Some (True, msgs, m1)"
    "new_requests m m1 = [Updates ?r]" "um_channel m1 = um_channel m"
    using choose_turn [OF m assms(5,7)] .
  obtain msgs' n1 where n1: "map_update (M_ToggleMumbleObject (rid_local j)) n = Some (True, msgs', n1)"
    "new_requests n n1 = [Updates ?q]" "um_channel n1 = um_channel n"
    using choose_turn [OF n assms(6,8)] .
  define b1 where "b1 = updates cr (um_channel n) ?q b"
  define b2 where "b2 = updates cr (um_channel m) ?r b1"
  have news: "news b b2 = [BUpdate (UConfig (um_channel n) KEY_MUMBLE_OBJECT (value_from_id j)),
      BUpdate (UConfig (um_channel m) KEY_MUMBLE_OBJECT (value_from_id i))]"
    by (simp add: news_def b2_def b1_def chosen_object)
  have "mv_mumble_object (um_values (fold deliver (news b b2) m1)) = rid_local j"
    "mv_mumble_object (um_values (fold deliver (news b b2) n1)) = rid_local i"
    using assms(3) by (simp_all add: news told_choice m1(3) n1(3))
  moreover have "ws_handle cr d il (um_channel n) (Updates ?q) (t, b) = (Inr R_Empty, add_updates Id_ZERO ?q t, b1)"
    "ws_handle cr d il (um_channel m) (Updates ?r) (s, b1) = (Inr R_Empty, add_updates Id_ZERO ?r s, b2)"
    by (simp_all add: b1_def b2_def)
  moreover have "bk_mumble_object b2 = i" "as_id (props_get (bk_props b2) KEY_MUMBLE_OBJECT) = i"
    by (simp_all add: b2_def chosen_object)
  ultimately show ?thesis using m1(1,2) n1(1,2) by blast
qed

text \<open>Two windows on a backend with two tokens.\<close>

definition demo_pair :: Backend where
  "demo_pair = demo_start\<lparr>bk_props := [], bk_used_ids := 3 # 4 # bk_used_ids demo_start,
     bk_objects_changed := [], bk_objects_added := [], bk_objects_removed := [],
     bk_objects := [(Id_new 3, demo_token), (Id_new 4, demo_token\<lparr>lo_id := Id_new 4\<rparr>)]\<rparr>"

lemma demo_pair_ok: "backend_ok demo_pair" "peers_named demo_pair"
  using demo_start_ok
  by (auto simp: demo_pair_def backend_ok_def objects_ok_def images_ok_def own_props_ok_def allocated_def
      hm_wf_def hm_get_def hm_keys_def demo_token_def props_ok_def peers_named_def split: if_splits)

lemma demo_opened:
  assumes "c \<noteq> CHANNEL_NONE"
  shows "\<exists>m. follows demo_crypto demo_descriptive demo_images demo_pair m \<and> um_channel m = c \<and>
    mv_mumble_object (um_values m) = RemoteId_ZERO"
proof -
  let ?m = "map_new\<lparr>um_channel := c\<rparr>" and ?load = "initialize_map demo_crypto demo_pair"
  let ?m' = "snd (after_update (snd (map_initialize ?load ?m)))"
  have m: "map_update (M_Initialize ?load) ?m = Some (fst (map_initialize ?load ?m) \<or>
      fst (after_update (snd (map_initialize ?load ?m))), [], ?m')"
    by (simp add: map_update_def try_update_def handled_now_def split_beta)
  have remote: "um_values (fold init_remote pos m) = um_values m" for pos m
    by (induction pos arbitrary: m) (simp_all add: init_remote_def add_object_def split: option.split)
  have local: "um_values (init_local ob m) = um_values m" for ob m
    by (simp add: init_local_def Let_def split: option.split)
  have "mv_mumble_object (um_values ?m') = RemoteId_ZERO"
    by (simp add: map_initialize_def Let_def remote local values_initialize_def initialize_map_def demo_pair_def)
  moreover have "um_channel ?m' = c" by simp
  moreover have "follows demo_crypto demo_descriptive demo_images demo_pair ?m'"
    by (rule follows_load [OF demo_pair_ok _ m]) (simp add: assms)
  ultimately show ?thesis by blast
qed

theorem concurrent_changes_diverge_witness:
  "\<exists>m b2 m1. follows demo_crypto demo_descriptive demo_images demo_pair m \<and>
     hm_get (bk_objects demo_pair) (Id_new 3) \<noteq> None \<and> hm_get (bk_objects demo_pair) (Id_new 4) \<noteq> None \<and>
     (\<exists>msgs. map_update (M_ToggleMumbleObject (rid_local (Id_new 3))) m = Some (True, msgs, m1)) \<and>
     bk_mumble_object b2 = Id_new 3 \<and>
     mv_mumble_object (um_values (fold deliver (news demo_pair b2) m1)) = rid_local (Id_new 4)"
proof -
  obtain m n where m: "follows demo_crypto demo_descriptive demo_images demo_pair m" "um_channel m = 1"
      "mv_mumble_object (um_values m) = RemoteId_ZERO"
    and n: "follows demo_crypto demo_descriptive demo_images demo_pair n" "um_channel n = 2"
      "mv_mumble_object (um_values n) = RemoteId_ZERO"
    using demo_opened [of 1] demo_opened [of 2] by auto
  have "um_channel m \<noteq> um_channel n" "Id_new 3 \<noteq> Id_new 4" "\<not> id_is_zero (Id_new 3)" "\<not> id_is_zero (Id_new 4)"
    "mv_mumble_object (um_values m) \<noteq> rid_local (Id_new 3)" "mv_mumble_object (um_values n) \<noteq> rid_local (Id_new 4)"
    by (simp_all add: m n id_is_zero_def rid_local_def RemoteId_ZERO_def Id_ZERO_def)
  from concurrent_changes_diverge [OF m(1) n(1) this, of ws_new ws_new] m(1) show ?thesis
    by (force simp: demo_pair_def hm_get_def)
qed

subsection \<open>Removing what belongs to others\<close>

lemma remote_removal_turn:
  assumes "\<not> rid_is_local i"
  obtains msgs m1 rs where "map_update (M_RemoveObject i) m = Some (True, msgs, m1)"
    "um_sent m1 = um_sent m @ RemoveObject (rid_id i) # rs" "shown m1 = shown m" "um_channel m1 = um_channel m"
proof -
  let ?m0 = "snd (remove_object_remote i m)"
  have m0: "fst (remove_object_remote i m)" "um_sent ?m0 = um_sent m @ [RemoveObject (rid_id i)]"
    "um_channel ?m0 = um_channel m"
    by (simp_all add: remove_object_remote_def map_remove_object_def Let_def send_def select_notes)
  have shown: "shown ?m0 = shown m"
    using local_not_remote [OF assms] shown_tables [of m "send (RemoveObject (rid_id i)) m"]
    by (auto simp: remove_object_remote_def shown_removed_object same_tables_def fun_eq_iff)
  obtain rs where "um_sent (snd (after_update ?m0)) = um_sent ?m0 @ rs"
    using sends_after [of ?m0] by (auto simp: sends_fitting_def)
  moreover have "map_update (M_RemoveObject i) m = Some (True, [], snd (after_update ?m0))"
    using m0(1) by (simp add: map_update_def try_update_def handled_now_def split_beta)
  ultimately show thesis using that [of "[]" "snd (after_update ?m0)" rs] m0 shown by simp
qed

text \<open>
  C32. Removing the object of another peer, which nothing forbids, asks the backend to remove the
  own object with the same number: the backend drops it, for good, while the window that asked
  still shows it.
\<close>

theorem foreign_removal_hits_own:
  assumes "follows cr d il b m" "\<not> rid_is_local i"
    and "hm_get (bk_objects b) (rid_id i) = Some lo" "lo_ty lo \<in> object_types"
    and "ws_handle cr d il (um_channel m) (RemoveObject (rid_id i)) (s, b) = (Inr resp, s', b')"
  shows "\<exists>msgs m1 rs. map_update (M_RemoveObject i) m = Some (True, msgs, m1) \<and>
    new_requests m m1 = RemoveObject (rid_id i) # rs \<and>
    hm_get (bk_objects b') (rid_id i) = None \<and>
    hm_get (um_objects (fold deliver (news b b') m1)) (rid_local (rid_id i)) \<noteq> None"
proof -
  obtain msgs m1 rs where m1: "map_update (M_RemoveObject i) m = Some (True, msgs, m1)"
    "um_sent m1 = um_sent m @ RemoveObject (rid_id i) # rs" "shown m1 = shown m" "um_channel m1 = um_channel m"
    by (rule remote_removal_turn [OF assms(2)])
  obtain b0 where b0: "remove_object cr (rid_id i) b = (None, b0)"
    "b' = broadcast (BRemoteUpdate (RObjectRemoved (um_channel m) (rid_local (rid_id i)))) b0"
    using assms(5) by (auto split: prod.splits option.splits)
  note f = remove_object_fields [OF b0(1)]
  have news: "news b b' = [BRemoteUpdate (RObjectRemoved (um_channel m) (rid_local (rid_id i)))]"
    by (simp add: news_def b0(2) broadcast_def f)
  have "same_object {} (hm_get (bk_objects b) (rid_id i)) (shown m (rid_id i))"
    using follows_in_step [OF assms(1)] by (simp add: in_step_def agrees_def)
  then have "shown m (rid_id i) \<noteq> None"
    using assms(3,4) by (cases "shown m (rid_id i)") (simp_all add: same_object_def)
  then have "shown (fold deliver (news b b') m1) (rid_id i) \<noteq> None"
    by (simp add: news shown_removed m1(3,4))
  moreover have "hm_get (bk_objects b') (rid_id i) = None" by (simp add: b0(2) broadcast_def f hm_get_remove)
  ultimately show ?thesis using m1 by (auto simp: new_requests_def shown_def)
qed

lemma remove_object_succeeds:
  assumes "db_ok (bk_database b)"
  shows "\<exists>b'. remove_object cr i b = (None, b')"
proof -
  define b1 where "b1 = (if bk_mumble_object b = i
      then set_mumblelink_transform None (store_mumble_object Id_ZERO b) else b)"
  have "db_ok (bk_database b1)"
    using assms by (simp add: b1_def set_mumblelink_transform_def store_mumble_object_def)
  moreover from this have "fst (db_remove_object i (bk_database b1)) = None"
    by (simp add: db_remove_object_def db_exec_def db_ok_def)
  moreover obtain e b2 where w: "with_db (db_remove_object i) b1 = (e, b2)" by fastforce
  ultimately have w: "with_db (db_remove_object i) b1 = (None, b2)" "db_ok (bk_database b2)"
    using with_db_leaves [OF leaves_props_tables(2) w] by (auto simp: with_db_def split: prod.splits)
  obtain b3 where "with_db (db_remove_property Id_ZERO KEY_ROOM) b2 = (None, b3)"
    using remove_property_effect [OF w(2)] by metis
  with w(1) show ?thesis by (auto simp: remove_object_def Let_def simp flip: b1_def)
qed

theorem foreign_removal_hits_own_witness:
  "\<exists>b m i b' m1. follows demo_crypto demo_descriptive demo_images b m \<and> \<not> rid_is_local i \<and>
     hm_get (bk_objects b) (rid_id i) \<noteq> None \<and> hm_get (bk_objects b') (rid_id i) = None \<and>
     hm_get (um_objects (fold deliver (news b b') m1)) (rid_local (rid_id i)) \<noteq> None"
proof -
  obtain b m i lo where d: "follows demo_crypto demo_descriptive demo_images b m"
    "hm_get (bk_objects b) i = Some lo" "lo_ty lo = TYPE_TOKEN" "db_ok (bk_database b)" using demo_follows by blast
  let ?i = "RemoteId_new (PeerId_new 5) i"
  obtain b0 where r: "remove_object demo_crypto i b = (None, b0)"
    using remove_object_succeeds [OF d(4)] by blast
  let ?b' = "broadcast (BRemoteUpdate (RObjectRemoved (um_channel m) (rid_local i))) b0"
  have foreign: "\<not> rid_is_local ?i" by (simp add: rid_is_local_def pid_is_zero_def)
  have own: "hm_get (bk_objects b) (rid_id ?i) = Some lo" "lo_ty lo \<in> object_types"
    using d(2,3) by (simp_all add: object_types_def)
  have h: "ws_handle demo_crypto demo_descriptive demo_images (um_channel m) (RemoveObject (rid_id ?i)) (ws_new, b) =
      (Inr R_Empty, ws_new, ?b')" by (simp add: r)
  from foreign_removal_hits_own [OF d(1) foreign own h] obtain m1 where
    "hm_get (bk_objects ?b') (rid_id ?i) = None"
    "hm_get (um_objects (fold deliver (news b ?b') m1)) (rid_local (rid_id ?i)) \<noteq> None" by blast
  with d(1) foreign own(1) show ?thesis by blast
qed

end
