(* ===== verification/MumbleLink.thy ===== *)
theory MumbleLink
  imports Backend
begin

section \<open>Positional audio: \<^verbatim>\<open>crates/mumblelink/src\<close>\<close>

text \<open>
  The link to Mumble: a local copy of what is to be shared, a byte of flags for the fields that
  changed, and the memory that Mumble reads. An array \<open>[f32; 3]\<close> is a \<open>Vec3\<close>, which \<open>as_array\<close>
  leaves as it is. The type of wide characters depends on the platform: it is a type variable, and
  the units of a string are an argument \<open>enc\<close>, one of \<open>unix_units\<close> and \<open>windows_units\<close>. The
  operating system that opens the memory is the content it finds there, or nothing.
\<close>

subsection \<open>Strings\<close>

text \<open>A string is the list of its characters. \<open>encode_utf16\<close> is that of the standard library.\<close>

definition encode_utf16_char :: "u32 \<Rightarrow> u16 list" where
  "encode_utf16_char c =
     (if c < 0x10000 then [ucast c]
      else [0xD800 OR ucast (drop_bit 10 (c - 0x10000)), 0xDC00 OR (ucast (c - 0x10000) AND 0x3FF)])"

definition unix_units :: "u32 list \<Rightarrow> u32 list" where
  "unix_units s = s"

definition windows_units :: "u32 list \<Rightarrow> u16 list" where
  "windows_units s = concat (map encode_utf16_char s)"

text \<open>The buffers are never empty, so the index stays in range (\<open>copy_in_range\<close>).\<close>

fun copy_loop :: "'a list \<Rightarrow> nat \<Rightarrow> 'a list \<Rightarrow> 'a list \<times> nat" where
  "copy_loop dest i [] = (dest, i)"
| "copy_loop dest i (ch # src) = copy_loop (dest[i := ch]) (Suc i) src"

definition copy_units :: "'a::zero list \<Rightarrow> 'a list \<Rightarrow> 'a list" where
  "copy_units dest units =
     (case copy_loop dest 0 (take (length dest - 1) units) of (dest, i) \<Rightarrow> dest[i := 0])"

definition unix_copy :: "u32 list \<Rightarrow> u32 list \<Rightarrow> u32 list" where
  "unix_copy dest src = copy_units dest (unix_units src)"

definition windows_copy :: "u16 list \<Rightarrow> u32 list \<Rightarrow> u16 list" where
  "windows_copy dest src = copy_units dest (windows_units src)"

lemma copy_loop_eq:
  assumes "i + length src \<le> length dest"
  shows "copy_loop dest i src = (take i dest @ src @ drop (i + length src) dest, i + length src)"
  using assms
proof (induction dest i src rule: copy_loop.induct)
  case (2 dest i ch src)
  then have "i < length dest" by simp
  then have "take (Suc i) (dest[i := ch]) = take i dest @ [ch]"
    by (simp add: take_Suc_conv_app_nth)
  with 2 show ?case by simp
qed simp

lemma copy_in_range:
  assumes "dest \<noteq> []"
  shows "snd (copy_loop dest 0 (take (length dest - 1) units)) < length dest"
proof -
  have "length dest - 1 < length dest" using assms by (cases dest) simp_all
  then show ?thesis by (subst copy_loop_eq) (auto simp: min_def)
qed

lemma copy_units_eq:
  assumes "dest \<noteq> []"
  shows "copy_units dest units =
    take (length dest - 1) units @ 0 # drop (Suc (min (length units) (length dest - 1))) dest"
proof -
  let ?n = "min (length units) (length dest - 1)" and ?us = "take (length dest - 1) units"
  have n: "?n < length dest" "length ?us = ?n" using assms by (auto simp: min_def neq_Nil_conv)
  have "copy_loop dest 0 ?us = (?us @ drop ?n dest, ?n)"
    using n by (subst copy_loop_eq) (simp_all add: ac_simps)
  moreover have "(?us @ drop ?n dest)[?n := 0] = ?us @ 0 # drop (Suc ?n) dest"
    using n by (simp add: list_update_append Cons_nth_drop_Suc [symmetric])
  ultimately show ?thesis by (simp add: copy_units_def)
qed

lemma length_copy_units: "dest \<noteq> [] \<Longrightarrow> length (copy_units dest units) = length dest"
  by (auto simp: copy_units_eq min_def neq_Nil_conv)

text \<open>What a reader of the buffer finds before the first zero: the units that fit.\<close>

lemma copied_string:
  assumes "dest \<noteq> []" "0 \<notin> set units"
  shows "takeWhile (\<lambda>u. u \<noteq> 0) (copy_units dest units) = take (length dest - 1) units"
proof -
  have "\<forall>u\<in>set (take (length dest - 1) units). u \<noteq> 0"
    using assms(2) by (auto dest: in_set_takeD)
  then show ?thesis using assms(1) by (simp add: copy_units_eq takeWhile_append2)
qed

text \<open>Windows buffers are cut by units, also in the middle of a character.\<close>

lemma windows_copy_splits: "windows_copy [0, 0] [0x1F600] = [0xD83D, 0]"
  by (simp add: windows_copy_def windows_units_def encode_utf16_char_def copy_units_def)

subsection \<open>Memory\<close>

record Position =
  po_position :: Vec3
  po_front :: Vec3
  po_top :: Vec3

definition position_eq :: "Position \<Rightarrow> Position \<Rightarrow> bool" where
  "position_eq a b \<longleftrightarrow>
     vec3_eq (po_position a) (po_position b) \<and> vec3_eq (po_front a) (po_front b) \<and>
     vec3_eq (po_top a) (po_top b)"

definition zero3 :: Vec3 where "zero3 = \<lparr>vec_x = 0, vec_y = 0, vec_z = 0\<rparr>"

definition position_ZERO :: Position where
  "position_ZERO = \<lparr>po_position = zero3, po_front = zero3, po_top = zero3\<rparr>"

definition position_new :: "Vec3 \<Rightarrow> Position" where
  "position_new position =
     \<lparr>po_position = position, po_front = \<lparr>vec_x = 0, vec_y = 0, vec_z = 0x3f800000\<rparr>,
      po_top = \<lparr>vec_x = 0, vec_y = 0x3f800000, vec_z = 0\<rparr>\<rparr>"

definition position_FORWARD :: Position where
  "position_FORWARD = position_new zero3"

record 'w Body =
  bo_avatar :: Position
  bo_name :: "'w list"
  bo_camera :: Position
  bo_identity :: "'w list"
  bo_context_len :: u32
  bo_context :: bytes
  bo_description :: "'w list"

definition body_zero :: "'w::zero Body" where
  "body_zero =
     \<lparr>bo_avatar = position_ZERO, bo_name = replicate 256 0, bo_camera = position_ZERO,
      bo_identity = replicate 256 0, bo_context_len = 0, bo_context = replicate 256 0,
      bo_description = replicate 2048 0\<rparr>"

definition body_zero_non_atomic :: "'w::zero Body \<Rightarrow> 'w Body" where
  "body_zero_non_atomic body =
     body\<lparr>bo_avatar := position_ZERO, bo_name := replicate 256 0, bo_camera := position_ZERO,
          bo_identity := replicate 256 0, bo_context_len := 0, bo_context := replicate 256 0,
          bo_description := replicate 2048 0\<rparr>"

definition body_context :: "'w Body \<Rightarrow> bytes" where
  "body_context body = take (unat (bo_context_len body)) (bo_context body)"

definition body_set_context :: "bytes \<Rightarrow> 'w Body \<Rightarrow> 'w Body" where
  "body_set_context context body =
     (let len = min (length context) (length (bo_context body))
      in body\<lparr>bo_context := take len context @ replicate (length (bo_context body) - len) 0,
              bo_context_len := of_nat len\<rparr>)"

definition body_set_name :: "'w::zero list \<Rightarrow> 'w Body \<Rightarrow> 'w Body" where
  "body_set_name name body = body\<lparr>bo_name := copy_units (bo_name body) name\<rparr>"

definition body_set_identity :: "'w::zero list \<Rightarrow> 'w Body \<Rightarrow> 'w Body" where
  "body_set_identity identity body = body\<lparr>bo_identity := copy_units (bo_identity body) identity\<rparr>"

definition body_set_description :: "'w::zero list \<Rightarrow> 'w Body \<Rightarrow> 'w Body" where
  "body_set_description description body =
     body\<lparr>bo_description := copy_units (bo_description body) description\<rparr>"

text \<open>\<open>Header\<close> and \<open>Memory\<close> are one record.\<close>

record 'w Memory =
  me_version :: u32
  me_tick :: u32
  me_body :: "'w Body"

subsection \<open>The link\<close>

definition VERSION_FLAG :: u8 where "VERSION_FLAG = 0x01"
definition NAME_FLAG :: u8 where "NAME_FLAG = 0x02"
definition DESCRIPTION_FLAG :: u8 where "DESCRIPTION_FLAG = 0x04"
definition CONTEXT_FLAG :: u8 where "CONTEXT_FLAG = 0x08"
definition IDENTITY_FLAG :: u8 where "IDENTITY_FLAG = 0x10"
definition AVATAR_FLAG :: u8 where "AVATAR_FLAG = 0x20"
definition CAMERA_FLAG :: u8 where "CAMERA_FLAG = 0x40"

record 'w Link =
  lk_map :: "'w Memory"
  lk_local :: "'w Body"
  lk_changes :: u8
  lk_enabled :: bool

definition set_ui_version :: "u32 \<Rightarrow> 'w Link \<Rightarrow> 'w Link" where
  "set_ui_version version l = l\<lparr>lk_map := (lk_map l)\<lparr>me_version := version\<rparr>\<rparr>"

definition link_new :: "'w::zero Memory option \<Rightarrow> 'w Link option" where
  "link_new opened =
     (case opened of
        None \<Rightarrow> None
      | Some mem \<Rightarrow>
          Some \<lparr>lk_map = mem\<lparr>me_body := body_zero_non_atomic (me_body mem), me_version := 0, me_tick := 0\<rparr>,
                lk_local = body_zero, lk_changes = VERSION_FLAG, lk_enabled = True\<rparr>)"

definition link_reconnect :: "'w Memory option \<Rightarrow> 'w Link \<Rightarrow> 'w Link option" where
  "link_reconnect opened l =
     (case opened of None \<Rightarrow> None | Some mem \<Rightarrow> Some (l\<lparr>lk_map := mem, lk_changes := 0xff\<rparr>))"

definition link_set_avatar :: "Position \<Rightarrow> 'w Link \<Rightarrow> 'w Link" where
  "link_set_avatar avatar l =
     (if \<not> position_eq (bo_avatar (lk_local l)) avatar
      then l\<lparr>lk_local := (lk_local l)\<lparr>bo_avatar := avatar\<rparr>, lk_changes := lk_changes l OR AVATAR_FLAG\<rparr>
      else l)"

definition link_set_camera :: "Position \<Rightarrow> 'w Link \<Rightarrow> 'w Link" where
  "link_set_camera camera l =
     (if \<not> position_eq (bo_camera (lk_local l)) camera
      then l\<lparr>lk_local := (lk_local l)\<lparr>bo_camera := camera\<rparr>, lk_changes := lk_changes l OR CAMERA_FLAG\<rparr>
      else l)"

definition link_set_name :: "'w::zero list \<Rightarrow> 'w Link \<Rightarrow> 'w Link" where
  "link_set_name identity l =
     l\<lparr>lk_local := body_set_name identity (lk_local l), lk_changes := lk_changes l OR NAME_FLAG\<rparr>"

definition link_set_identity :: "'w::zero list \<Rightarrow> 'w Link \<Rightarrow> 'w Link" where
  "link_set_identity identity l =
     l\<lparr>lk_local := body_set_identity identity (lk_local l),
       lk_changes := lk_changes l OR IDENTITY_FLAG\<rparr>"

definition link_set_context :: "bytes \<Rightarrow> 'w Link \<Rightarrow> 'w Link" where
  "link_set_context context l =
     (if body_context (lk_local l) \<noteq> context
      then l\<lparr>lk_local := body_set_context context (lk_local l),
             lk_changes := lk_changes l OR CONTEXT_FLAG\<rparr>
      else l)"

definition link_set_description :: "'w::zero list \<Rightarrow> 'w Link \<Rightarrow> 'w Link" where
  "link_set_description description l =
     l\<lparr>lk_local := body_set_description description (lk_local l),
       lk_changes := lk_changes l OR DESCRIPTION_FLAG\<rparr>"

definition write_changes :: "u8 \<Rightarrow> 'w Body \<Rightarrow> 'w Body \<Rightarrow> 'w Body" where
  "write_changes changes local body =
     (if changes = 0 then body
      else if changes = 0xff then local
      else
        let body = (if changes AND AVATAR_FLAG \<noteq> 0 then body\<lparr>bo_avatar := bo_avatar local\<rparr> else body);
            body = (if changes AND NAME_FLAG \<noteq> 0 then body\<lparr>bo_name := bo_name local\<rparr> else body);
            body = (if changes AND CAMERA_FLAG \<noteq> 0 then body\<lparr>bo_camera := bo_camera local\<rparr> else body);
            body = (if changes AND IDENTITY_FLAG \<noteq> 0
                    then body\<lparr>bo_identity := bo_identity local\<rparr> else body);
            body = (if changes AND CONTEXT_FLAG \<noteq> 0
                    then body\<lparr>bo_context := bo_context local, bo_context_len := bo_context_len local\<rparr>
                    else body)
        in if changes AND DESCRIPTION_FLAG \<noteq> 0
           then body\<lparr>bo_description := bo_description local\<rparr> else body)"

definition link_update :: "'w Link \<Rightarrow> 'w Link" where
  "link_update l =
     (if \<not> lk_enabled l then l
      else
        let changes = lk_changes l;
            l = l\<lparr>lk_changes := 0\<rparr>;
            mem = lk_map l;
            l = l\<lparr>lk_map := mem\<lparr>me_body := write_changes changes (lk_local l) (me_body mem)\<rparr>\<rparr>;
            l = (if changes AND VERSION_FLAG \<noteq> 0 then set_ui_version 2 l else l)
        in l\<lparr>lk_map := (lk_map l)\<lparr>me_tick := me_tick (lk_map l) + 1\<rparr>\<rparr>)"

definition link_update_all :: "'w Link \<Rightarrow> 'w Link" where
  "link_update_all l = link_update (l\<lparr>lk_changes := 0xff\<rparr>)"

definition link_disable :: "'w Link \<Rightarrow> 'w Link" where
  "link_disable l = (if lk_enabled l then set_ui_version 0 l else l)\<lparr>lk_enabled := False\<rparr>"

definition link_enable :: "'w Link \<Rightarrow> 'w Link" where
  "link_enable l = l\<lparr>lk_enabled := True, lk_changes := lk_changes l OR VERSION_FLAG\<rparr>"

definition link_drop :: "'w Link \<Rightarrow> 'w Memory" where
  "link_drop l = lk_map (link_disable l)"

subsection \<open>What the flags mean\<close>

definition flagged :: "u8 \<Rightarrow> nat \<Rightarrow> bool" where
  "flagged c n \<longleftrightarrow> bit c n"

named_theorems flags \<open>tests and changes of the flags\<close>

lemma flag_power:
  "VERSION_FLAG = 2 ^ 0" "NAME_FLAG = 2 ^ 1" "DESCRIPTION_FLAG = 2 ^ 2" "CONTEXT_FLAG = 2 ^ 3"
  "IDENTITY_FLAG = 2 ^ 4" "AVATAR_FLAG = 2 ^ 5" "CAMERA_FLAG = 2 ^ 6"
  by (simp_all add: VERSION_FLAG_def NAME_FLAG_def DESCRIPTION_FLAG_def CONTEXT_FLAG_def
      IDENTITY_FLAG_def AVATAR_FLAG_def CAMERA_FLAG_def)

lemma flag_test [flags]:
  "c AND VERSION_FLAG = 0 \<longleftrightarrow> \<not> flagged c 0" "c AND NAME_FLAG = 0 \<longleftrightarrow> \<not> flagged c 1"
  "c AND DESCRIPTION_FLAG = 0 \<longleftrightarrow> \<not> flagged c 2" "c AND CONTEXT_FLAG = 0 \<longleftrightarrow> \<not> flagged c 3"
  "c AND IDENTITY_FLAG = 0 \<longleftrightarrow> \<not> flagged c 4" "c AND AVATAR_FLAG = 0 \<longleftrightarrow> \<not> flagged c 5"
  "c AND CAMERA_FLAG = 0 \<longleftrightarrow> \<not> flagged c 6"
  unfolding flag_power flagged_def by (simp_all only: and_exp_eq_0_iff_not_bit)

lemma flag_or: "flagged (c OR 2 ^ i) n \<longleftrightarrow> flagged c n \<or> n = i \<and> n < 8"
  by (auto simp: flagged_def bit_or_iff bit_exp_iff)

lemma flag_set [flags]:
  "flagged (c OR VERSION_FLAG) n \<longleftrightarrow> flagged c n \<or> n = 0"
  "flagged (c OR NAME_FLAG) n \<longleftrightarrow> flagged c n \<or> n = 1"
  "flagged (c OR DESCRIPTION_FLAG) n \<longleftrightarrow> flagged c n \<or> n = 2"
  "flagged (c OR CONTEXT_FLAG) n \<longleftrightarrow> flagged c n \<or> n = 3"
  "flagged (c OR IDENTITY_FLAG) n \<longleftrightarrow> flagged c n \<or> n = 4"
  "flagged (c OR AVATAR_FLAG) n \<longleftrightarrow> flagged c n \<or> n = 5"
  "flagged (c OR CAMERA_FLAG) n \<longleftrightarrow> flagged c n \<or> n = 6"
  unfolding flag_power flag_or by auto

lemma no_flags [flags]: "\<not> flagged 0 n"
  by (simp add: flagged_def)

lemma all_flags [flags]: "flagged 0xff n \<longleftrightarrow> n < 8"
  using bit_mask_iff [of 8 n, where 'a = "8 word"] by (simp add: flagged_def mask_eq_exp_minus_1)

text \<open>Writing everything is writing the fields of all flags: the branches of \<open>update\<close> agree.\<close>

lemma write_changes_eq:
  "write_changes c local body =
     body\<lparr>bo_avatar := (if flagged c 5 then bo_avatar local else bo_avatar body),
          bo_name := (if flagged c 1 then bo_name local else bo_name body),
          bo_camera := (if flagged c 6 then bo_camera local else bo_camera body),
          bo_identity := (if flagged c 4 then bo_identity local else bo_identity body),
          bo_context_len := (if flagged c 3 then bo_context_len local else bo_context_len body),
          bo_context := (if flagged c 3 then bo_context local else bo_context body),
          bo_description := (if flagged c 2 then bo_description local else bo_description body)\<rparr>"
proof -
  consider (none) "c = 0" | (all) "c = 0xff" | (some) "c \<noteq> 0" "c \<noteq> 0xff" by blast
  then show ?thesis
  proof cases
    case none
    then show ?thesis by (simp add: write_changes_def flags)
  next
    case all
    then show ?thesis by (simp add: write_changes_def flags)
  next
    case some
    then show ?thesis unfolding write_changes_def by (cases body) (simp add: Let_def flags)
  qed
qed

text \<open>A field that is not flagged is the same in the memory, and the version follows the state.\<close>

definition mirrored :: "u8 \<Rightarrow> 'w Body \<Rightarrow> 'w Body \<Rightarrow> bool" where
  "mirrored c local body \<longleftrightarrow>
     (flagged c 5 \<or> bo_avatar body = bo_avatar local) \<and>
     (flagged c 1 \<or> bo_name body = bo_name local) \<and>
     (flagged c 6 \<or> bo_camera body = bo_camera local) \<and>
     (flagged c 4 \<or> bo_identity body = bo_identity local) \<and>
     (flagged c 3 \<or> bo_context_len body = bo_context_len local \<and> bo_context body = bo_context local) \<and>
     (flagged c 2 \<or> bo_description body = bo_description local)"

lemma write_mirrored: "mirrored c local body \<Longrightarrow> write_changes c local body = local"
  by (cases local; cases body) (auto simp: write_changes_eq mirrored_def)

definition link_ok :: "'w Link \<Rightarrow> bool" where
  "link_ok l \<longleftrightarrow>
     mirrored (lk_changes l) (lk_local l) (me_body (lk_map l)) \<and>
     (flagged (lk_changes l) 0 \<or> me_version (lk_map l) = (if lk_enabled l then 2 else 0)) \<and>
     length (bo_context (lk_local l)) = 256 \<and> unat (bo_context_len (lk_local l)) \<le> 256"

subsection \<open>Operations of a link\<close>

text \<open>Every public operation; a failed \<open>reconnect\<close> leaves the link as it is.\<close>

datatype LinkOp =
    LReconnect | LAvatar Position | LCamera Position | LName "u32 list" | LIdentity "u32 list"
  | LContext bytes | LDescription "u32 list" | LUpdate | LUpdateAll | LDisable | LEnable

text \<open>The first argument is what the memory holds when it is opened again.\<close>

definition link_op ::
    "'w Memory option \<Rightarrow> (u32 list \<Rightarrow> 'w::zero list) \<Rightarrow> LinkOp \<Rightarrow> 'w Link \<Rightarrow> 'w Link" where
  "link_op opened enc op l =
     (case op of
        LReconnect \<Rightarrow> (case link_reconnect opened l of None \<Rightarrow> l | Some l \<Rightarrow> l)
      | LAvatar p \<Rightarrow> link_set_avatar p l
      | LCamera p \<Rightarrow> link_set_camera p l
      | LName s \<Rightarrow> link_set_name (enc s) l
      | LIdentity s \<Rightarrow> link_set_identity (enc s) l
      | LContext c \<Rightarrow> link_set_context c l
      | LDescription s \<Rightarrow> link_set_description (enc s) l
      | LUpdate \<Rightarrow> link_update l
      | LUpdateAll \<Rightarrow> link_update_all l
      | LDisable \<Rightarrow> link_disable l
      | LEnable \<Rightarrow> link_enable l)"

lemma link_update_enabled:
  assumes "link_ok l" "lk_enabled l"
  shows "link_update l = l\<lparr>lk_changes := 0,
    lk_map := \<lparr>me_version = 2, me_tick = me_tick (lk_map l) + 1, me_body = lk_local l\<rparr>\<rparr>"
  using assms write_mirrored [of "lk_changes l" "lk_local l" "me_body (lk_map l)"]
  by (cases l; cases "lk_map l") (auto simp: link_ok_def link_update_def Let_def set_ui_version_def flags)

lemma version_flagged [flags]: "flagged VERSION_FLAG 0"
  by (simp add: flagged_def VERSION_FLAG_def)

lemma link_ok_new: "link_new opened = Some l \<Longrightarrow> link_ok l"
  by (auto simp: link_new_def link_ok_def mirrored_def body_zero_def body_zero_non_atomic_def flags
      split: option.splits)

lemma link_ok_update:
  assumes "link_ok l"
  shows "link_ok (link_update l)"
proof (cases "lk_enabled l")
  case True
  from link_update_enabled [OF assms True] show ?thesis
    using assms True by (simp add: link_ok_def mirrored_def)
next
  case False
  then show ?thesis using assms by (simp add: link_update_def)
qed

lemma link_ok_all: "link_ok l \<Longrightarrow> link_ok (l\<lparr>lk_changes := 0xff\<rparr>)"
  by (simp add: link_ok_def mirrored_def flags)

lemma link_ok_sets:
  assumes "link_ok l"
  shows "link_ok (link_set_avatar p l)" "link_ok (link_set_camera p l)"
    "link_ok (link_set_name s l)" "link_ok (link_set_identity s l)"
    "link_ok (link_set_description s l)" "link_ok (link_set_context c l)"
    "link_ok (link_update_all l)" "link_ok (link_disable l)" "link_ok (link_enable l)"
proof -
  note defs = link_ok_def mirrored_def flags
  show "link_ok (link_set_avatar p l)" using assms by (auto simp: defs link_set_avatar_def)
  show "link_ok (link_set_camera p l)" using assms by (auto simp: defs link_set_camera_def)
  show "link_ok (link_set_name s l)"
    using assms by (auto simp: defs link_set_name_def body_set_name_def)
  show "link_ok (link_set_identity s l)"
    using assms by (auto simp: defs link_set_identity_def body_set_identity_def)
  show "link_ok (link_set_description s l)"
    using assms by (auto simp: defs link_set_description_def body_set_description_def)
  have "unat (word_of_nat (min (length c) 256) :: u32) \<le> 256"
    by (simp add: unat_of_nat take_bit_eq_mod min_def)
  then show "link_ok (link_set_context c l)"
    using assms by (auto simp: defs link_set_context_def body_set_context_def Let_def)
  show "link_ok (link_update_all l)"
    unfolding link_update_all_def by (rule link_ok_update [OF link_ok_all [OF assms]])
  show "link_ok (link_disable l)"
    using assms by (auto simp: defs link_disable_def set_ui_version_def)
  show "link_ok (link_enable l)" using assms by (auto simp: defs link_enable_def)
qed

lemma link_ok_op:
  assumes "link_ok l"
  shows "link_ok (link_op opened enc op l)"
proof (cases op)
  case LReconnect
  with assms show ?thesis
    by (auto simp: link_op_def link_reconnect_def link_ok_def mirrored_def flags split: option.splits)
qed (use assms in \<open>simp_all add: link_op_def link_ok_update link_ok_sets\<close>)

lemma link_ok_ops: "link_ok l \<Longrightarrow> link_ok (fold (\<lambda>(opened, op). link_op opened enc op) ops l)"
  by (induction ops arbitrary: l) (auto simp: link_ok_op)

text \<open>
  Whatever was set, and however often the memory was lost and opened again: an update of an
  enabled link makes the whole memory equal to the local copy, announces the version and counts
  one tick. A disabled link leaves the memory alone.
\<close>

lemma update_mirrors:
  assumes "link_new (Some mem) = Some l0"
    and "l = fold (\<lambda>(opened, op). link_op opened enc op) ops l0"
  shows "lk_map (link_update l) =
    (if lk_enabled l
     then \<lparr>me_version = 2, me_tick = me_tick (lk_map l) + 1, me_body = lk_local l\<rparr>
     else lk_map l)"
proof (cases "lk_enabled l")
  case True
  have "link_ok l" unfolding assms(2) by (rule link_ok_ops [OF link_ok_new [OF assms(1)]])
  from link_update_enabled [OF this True] True show ?thesis by simp
next
  case False
  then show ?thesis by (simp add: link_update_def)
qed

subsection \<open>The loop: \<^verbatim>\<open>crates/mumbler/src/mumblelink.rs\<close>\<close>

record 'w LinkRun =
  lr_link :: "'w Link"
  lr_pos :: Position

definition link_transform :: "Backend \<Rightarrow> Transform option" where
  "link_transform b =
     (let i = bk_mumble_object b
      in if id_is_zero i then None
         else case hm_get (bk_objects b) i of
           None \<Rightarrow> None
         | Some object \<Rightarrow>
             (let hidden = as_bool (props_get (lo_props object) KEY_HIDDEN);
                  local_hidden = as_bool (props_get (lo_props object) KEY_LOCAL_HIDDEN)
              in if hidden \<or> local_hidden then None
                 else as_transform (props_get (lo_props object) KEY_TRANSFORM)))"

definition position_at :: "Transform \<Rightarrow> Position \<Rightarrow> Position" where
  "position_at t pos = pos\<lparr>po_position := tr_position t, po_front := tr_front t\<rparr>"

definition run_name :: "string \<Rightarrow> u32 list" where
  "run_name s = map of_char s"

definition run_start ::
    "(u32 list \<Rightarrow> 'w::zero list) \<Rightarrow> Transform option \<Rightarrow> 'w Memory option \<Rightarrow> 'w LinkRun option" where
  "run_start enc transform opened =
     (case link_new opened of
        None \<Rightarrow> None
      | Some l \<Rightarrow>
          (let pos = position_FORWARD\<lparr>po_position := zero3\<rparr>;
               l = link_set_identity (enc (run_name ''mumbler'')) l;
               l = link_set_context [] l;
               l = link_set_name (enc (run_name ''Mumbler'')) l;
               l = link_set_description (enc (run_name ''Test link from mumbler'')) l
           in case transform of
                Some t \<Rightarrow>
                  (let pos = position_at t pos
                   in Some \<lparr>lr_link = link_set_camera pos (link_set_avatar pos l), lr_pos = pos\<rparr>)
              | None \<Rightarrow> Some \<lparr>lr_link = link_disable l, lr_pos = pos\<rparr>))"

datatype RunEvent = RTick | RTickAll | RMoved "Transform option"

definition run_step :: "RunEvent \<Rightarrow> 'w LinkRun \<Rightarrow> 'w LinkRun" where
  "run_step event r =
     (case event of
        RTick \<Rightarrow> r\<lparr>lr_link := link_update (lr_link r)\<rparr>
      | RTickAll \<Rightarrow> r\<lparr>lr_link := link_update_all (lr_link r)\<rparr>
      | RMoved (Some t) \<Rightarrow>
          (let pos = position_at t (lr_pos r)
           in r\<lparr>lr_pos := pos,
                lr_link := link_enable (link_set_camera pos (link_set_avatar pos (lr_link r)))\<rparr>)
      | RMoved None \<Rightarrow> r\<lparr>lr_link := link_disable (lr_link r)\<rparr>)"

text \<open>What the link was last told, and the position that stands for it.\<close>

definition told :: "RunEvent list \<Rightarrow> Transform option \<Rightarrow> Transform option" where
  "told events t = fold (\<lambda>event t. case event of RMoved u \<Rightarrow> u | _ \<Rightarrow> t) events t"

definition position_of :: "Transform \<Rightarrow> Position" where
  "position_of t = position_at t position_FORWARD"

text \<open>Equal numbers are not written again, so that a zero keeps its sign.\<close>

definition same_position :: "Position \<Rightarrow> Position \<Rightarrow> bool" where
  "same_position a b \<longleftrightarrow> a = b \<or> position_eq a b"

definition run_ok :: "'w::zero list \<Rightarrow> Transform option \<Rightarrow> 'w LinkRun \<Rightarrow> bool" where
  "run_ok name t r \<longleftrightarrow>
     link_ok (lr_link r) \<and> lk_enabled (lr_link r) = (t \<noteq> None) \<and>
     bo_name (lk_local (lr_link r)) = name \<and> bo_context_len (lk_local (lr_link r)) = 0 \<and>
     (t = None \<longrightarrow> me_version (lk_map (lr_link r)) = 0) \<and>
     po_top (lr_pos r) = po_top position_FORWARD \<and>
     (\<forall>u. t = Some u \<longrightarrow>
        same_position (bo_avatar (lk_local (lr_link r))) (position_of u) \<and>
        same_position (bo_camera (lk_local (lr_link r))) (position_of u))"

definition link_name :: "(u32 list \<Rightarrow> 'w::zero list) \<Rightarrow> 'w list" where
  "link_name enc = copy_units (replicate 256 0) (enc (run_name ''Mumbler''))"

lemma link_sets [simp]:
  "lk_enabled (link_set_avatar p l) = lk_enabled l" "lk_enabled (link_set_camera p l) = lk_enabled l"
  "lk_map (link_set_avatar p l) = lk_map l" "lk_map (link_set_camera p l) = lk_map l"
  "bo_name (lk_local (link_set_avatar p l)) = bo_name (lk_local l)"
  "bo_name (lk_local (link_set_camera p l)) = bo_name (lk_local l)"
  "bo_context_len (lk_local (link_set_avatar p l)) = bo_context_len (lk_local l)"
  "bo_context_len (lk_local (link_set_camera p l)) = bo_context_len (lk_local l)"
  "bo_avatar (lk_local (link_set_camera p l)) = bo_avatar (lk_local l)"
  by (simp_all add: link_set_avatar_def link_set_camera_def)

lemma link_set_same:
  "same_position (bo_avatar (lk_local (link_set_avatar p l))) p"
  "same_position (bo_camera (lk_local (link_set_camera p l))) p"
  by (simp_all add: link_set_avatar_def link_set_camera_def same_position_def)

lemma link_switch [simp]:
  "lk_local (link_enable l) = lk_local l" "lk_local (link_disable l) = lk_local l"
  "lk_enabled (link_enable l)" "\<not> lk_enabled (link_disable l)"
  by (simp_all add: link_enable_def link_disable_def set_ui_version_def)

lemma link_update_keeps [simp]:
  "lk_local (link_update l) = lk_local l" "lk_enabled (link_update l) = lk_enabled l"
  "\<not> lk_enabled l \<Longrightarrow> link_update l = l"
  by (simp_all add: link_update_def Let_def set_ui_version_def)

lemma position_at_of:
  "po_top pos = po_top position_FORWARD \<Longrightarrow> position_at t pos = position_of t"
  by (simp add: position_at_def position_of_def)

lemma run_ok_start:
  assumes "run_start enc t (Some mem) = Some r"
  shows "run_ok (link_name enc) t r"
proof -
  obtain l0 where l0: "link_new (Some mem) = Some l0" by (simp add: link_new_def)
  let ?l = "link_set_description (enc (run_name ''Test link from mumbler''))
    (link_set_name (enc (run_name ''Mumbler'')) (link_set_context []
      (link_set_identity (enc (run_name ''mumbler'')) l0)))"
  have ok: "link_ok ?l" by (intro link_ok_sets link_ok_new [OF l0])
  have l: "lk_enabled ?l" "me_version (lk_map ?l) = 0" "bo_name (lk_local ?l) = link_name enc"
    "bo_context_len (lk_local ?l) = 0"
    using l0 by (auto simp: link_new_def link_set_description_def link_set_name_def link_name_def
        link_set_context_def link_set_identity_def body_set_name_def body_set_identity_def
        body_set_description_def body_zero_def body_context_def)
  have top: "po_top (position_FORWARD\<lparr>po_position := zero3\<rparr>) = po_top position_FORWARD" by simp
  show ?thesis
  proof (cases t)
    case None
    have "me_version (lk_map (link_disable ?l)) = 0"
      using l(1) by (simp add: link_disable_def set_ui_version_def)
    moreover have "r = \<lparr>lr_link = link_disable ?l, lr_pos = position_FORWARD\<lparr>po_position := zero3\<rparr>\<rparr>"
      using assms None l0 by (simp add: run_start_def Let_def)
    ultimately show ?thesis using None ok l by (simp add: run_ok_def link_ok_sets)
  next
    case (Some u)
    have "r = \<lparr>lr_link = link_set_camera (position_of u) (link_set_avatar (position_of u) ?l),
        lr_pos = position_of u\<rparr>"
      using assms Some l0 position_at_of [OF top, of u] by (simp add: run_start_def Let_def)
    moreover have "po_top (position_of u) = po_top position_FORWARD"
      by (simp add: position_of_def position_at_def)
    ultimately show ?thesis using Some ok l by (simp add: run_ok_def link_ok_sets link_set_same)
  qed
qed

lemma run_ok_step:
  assumes "run_ok name t r"
  shows "run_ok name (told [event] t) (run_step event r)"
proof (cases event)
  case (RMoved u)
  show ?thesis
  proof (cases u)
    case None
    have "lk_enabled (lr_link r) \<or> me_version (lk_map (lr_link r)) = 0"
      using assms by (auto simp: run_ok_def)
    then have "me_version (lk_map (link_disable (lr_link r))) = 0"
      by (auto simp: link_disable_def set_ui_version_def)
    then show ?thesis using assms RMoved None by (simp add: run_ok_def run_step_def told_def link_ok_sets)
  next
    case (Some v)
    have "position_at v (lr_pos r) = position_of v"
      using assms by (simp add: run_ok_def position_at_of)
    moreover have "po_top (position_of v) = po_top position_FORWARD"
      by (simp add: position_of_def position_at_def)
    ultimately show ?thesis using assms RMoved Some
      by (simp add: run_ok_def run_step_def told_def Let_def link_ok_sets link_set_same)
  qed
qed (use assms in \<open>auto simp: run_ok_def run_step_def told_def link_ok_update link_ok_all
  link_update_all_def\<close>)

lemma run_ok_steps:
  "run_ok name t r \<Longrightarrow> run_ok name (told events t) (fold run_step events r)"
proof (induction events arbitrary: t r)
  case (Cons event events)
  from Cons.IH [OF run_ok_step [OF Cons.prems, of event]] show ?case by (simp add: told_def)
qed (simp add: told_def)

text \<open>What Mumble makes of the memory: no link, or one with a place for avatar and camera.\<close>

definition mumble_sees :: "'w list \<Rightarrow> Transform option \<Rightarrow> 'w Memory \<Rightarrow> bool" where
  "mumble_sees name t mem =
     (case t of
        None \<Rightarrow> me_version mem = 0
      | Some u \<Rightarrow>
          me_version mem = 2 \<and> bo_name (me_body mem) = name \<and> bo_context_len (me_body mem) = 0 \<and>
          same_position (bo_avatar (me_body mem)) (position_of u) \<and>
          same_position (bo_camera (me_body mem)) (position_of u))"

lemma run_tick:
  assumes "run_ok name t r"
  shows "mumble_sees name t (lk_map (lr_link (run_step RTick r)))"
    and "t \<noteq> None \<Longrightarrow>
      me_tick (lk_map (lr_link (run_step RTick r))) = me_tick (lk_map (lr_link r)) + 1"
proof -
  have "t = None \<or> lk_enabled (lr_link r) \<and> link_ok (lr_link r)" using assms by (auto simp: run_ok_def)
  then show "mumble_sees name t (lk_map (lr_link (run_step RTick r)))"
    and "t \<noteq> None \<Longrightarrow>
      me_tick (lk_map (lr_link (run_step RTick r))) = me_tick (lk_map (lr_link r)) + 1"
    using assms by (auto simp: mumble_sees_def run_ok_def run_step_def link_update_enabled
        split: option.splits)
qed

text \<open>
  C6. Whatever the memory held when it was opened and whatever the link was told since, in
  whatever order with its timers: after the next tick Mumble sees no link when the object was last
  said to be hidden or gone; otherwise it sees a link with the name of the program, no context, a
  tick more than before, and the position and direction last told for both avatar and camera.
\<close>

theorem link_tells_position:
  assumes "run_start enc t (Some mem) = Some r0"
    and "r = fold run_step events r0"
  shows "mumble_sees (link_name enc) (told events t) (lk_map (lr_link (run_step RTick r))) \<and>
    (told events t \<noteq> None \<longrightarrow>
       me_tick (lk_map (lr_link (run_step RTick r))) = me_tick (lk_map (lr_link r)) + 1)"
proof -
  have "run_ok (link_name enc) (told events t) r"
    unfolding assms(2) by (rule run_ok_steps [OF run_ok_start [OF assms(1)]])
  from run_tick [OF this] show ?thesis by blast
qed

definition example_transform :: Transform where
  "example_transform = \<lparr>tr_position = \<lparr>vec_x = 0x3f800000, vec_y = 0, vec_z = 0x40000000\<rparr>,
     tr_front = \<lparr>vec_x = 0x3f800000, vec_y = 0, vec_z = 0\<rparr>\<rparr>"

definition example_memory :: "'w::zero Memory" where
  "example_memory = \<lparr>me_version = 2, me_tick = 7, me_body = body_zero\<rparr>"

theorem link_tells_position_witness:
  "\<exists>r0. run_start unix_units None (Some example_memory) = Some r0 \<and>
     mumble_sees (link_name unix_units) (Some example_transform)
       (lk_map (lr_link (run_step RTick
          (fold run_step [RTick, RMoved None, RTickAll, RMoved (Some example_transform)] r0))))"
proof -
  obtain r0 where r0: "run_start unix_units None (Some (example_memory :: u32 Memory)) = Some r0"
    by (simp add: run_start_def link_new_def Let_def)
  from link_tells_position [OF r0 refl, of "[RTick, RMoved None, RTickAll, RMoved (Some example_transform)]"] r0
  show ?thesis by (simp add: told_def)
qed

subsection \<open>Starting and stopping: \<open>managed\<close>\<close>

text \<open>
  The future that runs the link is empty, built and not yet polled, or running; the other future
  is the wait of five seconds. Dropping a link leaves the memory behind, which the next one finds.
\<close>

datatype 'w RunFuture = FutEmpty | FutFresh | FutRunning "'w LinkRun"

record 'w Managed =
  mg_enabled :: bool
  mg_future :: "'w RunFuture"
  mg_reconnect :: bool
  mg_shared :: "'w Memory option"

definition link_setting :: "Backend \<Rightarrow> bool" where
  "link_setting b = as_bool (props_get (bk_props b) KEY_MUMBLE_ENABLED)"

definition build_future :: "bool \<Rightarrow> 'w RunFuture" where
  "build_future enabled = (if enabled then FutFresh else FutEmpty)"

definition set_future :: "'w RunFuture \<Rightarrow> 'w Managed \<Rightarrow> 'w Managed" where
  "set_future future m =
     m\<lparr>mg_future := future,
       mg_shared := (case mg_future m of FutRunning r \<Rightarrow> Some (link_drop (lr_link r)) | _ \<Rightarrow> mg_shared m)\<rparr>"

definition managed_start :: "Backend \<Rightarrow> 'w Memory option \<Rightarrow> 'w Managed" where
  "managed_start b shared =
     (let enabled = link_setting b
      in \<lparr>mg_enabled = enabled, mg_future = build_future enabled, mg_reconnect = False,
          mg_shared = shared\<rparr>)"

text \<open>
  \<open>MgPoll\<close> polls the new future for the first time, which fails when there is no memory;
  \<open>MgShared\<close> is Mumble starting or stopping while no link is open.
\<close>

datatype 'w ManagedEvent =
    MgPoll Backend | MgRun RunEvent | MgTimer Backend | MgRestart Backend | MgShared "'w Memory option"

definition managed_step ::
    "(u32 list \<Rightarrow> 'w::zero list) \<Rightarrow> 'w ManagedEvent \<Rightarrow> 'w Managed \<Rightarrow> 'w Managed" where
  "managed_step enc event m =
     (case event of
        MgPoll b \<Rightarrow>
          (case mg_future m of
             FutFresh \<Rightarrow>
               (case run_start enc (link_transform b) (mg_shared m) of
                  None \<Rightarrow> m\<lparr>mg_future := FutEmpty, mg_reconnect := True\<rparr>
                | Some r \<Rightarrow> m\<lparr>mg_future := FutRunning r\<rparr>)
           | _ \<Rightarrow> m)
      | MgRun event \<Rightarrow>
          (case mg_future m of
             FutRunning r \<Rightarrow> m\<lparr>mg_future := FutRunning (run_step event r)\<rparr>
           | _ \<Rightarrow> m)
      | MgTimer b \<Rightarrow>
          if mg_reconnect m
          then (let enabled = link_setting b
                in set_future (build_future enabled) (m\<lparr>mg_reconnect := False, mg_enabled := enabled\<rparr>))
          else m
      | MgRestart b \<Rightarrow>
          (let enabled = link_setting b
           in set_future (build_future enabled) (m\<lparr>mg_enabled := enabled, mg_reconnect := False\<rparr>))
      | MgShared shared \<Rightarrow>
          (case mg_future m of FutRunning r \<Rightarrow> m | _ \<Rightarrow> m\<lparr>mg_shared := shared\<rparr>))"

text \<open>The memory as Mumble reads it.\<close>

definition managed_memory :: "'w Managed \<Rightarrow> 'w Memory option" where
  "managed_memory m =
     (case mg_future m of FutRunning r \<Rightarrow> Some (lk_map (lr_link r)) | _ \<Rightarrow> mg_shared m)"

definition managed_ok :: "'w Managed \<Rightarrow> bool" where
  "managed_ok m \<longleftrightarrow>
     (mg_enabled m \<longleftrightarrow> mg_future m \<noteq> FutEmpty \<or> mg_reconnect m) \<and>
     (mg_reconnect m \<longrightarrow> mg_future m = FutEmpty)"

fun run_ok_future :: "'w::zero list \<Rightarrow> 'w RunFuture \<Rightarrow> bool" where
  "run_ok_future name (FutRunning r) = (\<exists>t. run_ok name t r)"
| "run_ok_future name f = True"

lemma managed_ok_step:
  "managed_ok m \<Longrightarrow> managed_ok (managed_step enc event m)"
  by (cases event; cases "mg_future m")
    (auto simp: managed_step_def managed_ok_def set_future_def build_future_def Let_def
      split: option.splits)

lemma run_future_step:
  assumes "run_ok_future (link_name enc) (mg_future m)"
  shows "run_ok_future (link_name enc) (mg_future (managed_step enc event m))"
proof (cases event)
  case (MgPoll b)
  show ?thesis
  proof (cases "mg_shared m")
    case None
    then have "run_start enc (link_transform b) (mg_shared m) = None"
      by (simp add: run_start_def link_new_def)
    with assms MgPoll show ?thesis by (cases "mg_future m") (auto simp: managed_step_def)
  next
    case (Some mem)
    then have "run_start enc (link_transform b) (mg_shared m) = Some r \<Longrightarrow> \<exists>t. run_ok (link_name enc) t r" for r
      using run_ok_start by metis
    with assms MgPoll show ?thesis
      by (cases "mg_future m") (auto simp: managed_step_def split: option.splits)
  qed
next
  case (MgRun e)
  with assms show ?thesis by (cases "mg_future m") (auto simp: managed_step_def intro: run_ok_step)
qed (use assms in \<open>cases "mg_future m"; auto simp: managed_step_def set_future_def build_future_def
  Let_def\<close>)+

lemma managed_run:
  assumes "m = fold (managed_step enc) events (managed_start b shared)"
  shows "managed_ok m \<and> run_ok_future (link_name enc) (mg_future m)"
proof -
  have "managed_ok m \<and> run_ok_future (link_name enc) (mg_future m) \<Longrightarrow>
      managed_ok (fold (managed_step enc) events m) \<and>
      run_ok_future (link_name enc) (mg_future (fold (managed_step enc) events m))" for m
    by (induction events arbitrary: m) (auto simp: managed_ok_step run_future_step)
  moreover have "managed_ok (managed_start b shared)"
    "run_ok_future (link_name enc) (mg_future (managed_start b shared))"
    by (auto simp: managed_ok_def managed_start_def build_future_def Let_def)
  ultimately show ?thesis unfolding assms by blast
qed

lemma run_started:
  assumes "mg_future m = FutFresh" "mg_shared m = Some mem"
  shows "\<exists>mem'. managed_memory (fold (managed_step enc) [MgPoll b, MgRun RTick] m) = Some mem' \<and>
    mumble_sees (link_name enc) (link_transform b) mem'"
proof -
  obtain r where r: "run_start enc (link_transform b) (Some mem) = Some r"
    by (cases "link_transform b") (simp_all add: run_start_def link_new_def Let_def)
  from run_tick(1) [OF run_ok_start [OF r]] r assms show ?thesis
    by (simp add: managed_step_def managed_memory_def)
qed

text \<open>
  C18. Whatever happened to the link: it is open, about to be opened or waits to be tried again
  exactly as long as the setting last read is on. When the setting is turned off, the link is
  closed for good and Mumble no longer sees it. When it is turned on while there is memory to
  open, or when the wait ends after Mumble has been started, the next poll and tick show Mumble
  the object as the backend has it then.
\<close>

theorem link_follows_setting:
  assumes "m = fold (managed_step enc) events (managed_start b shared)"
    and "\<not> link_setting off" "link_setting on"
  shows "(mg_enabled m \<longleftrightarrow> mg_future m \<noteq> FutEmpty \<or> mg_reconnect m) \<and>
    mg_future (managed_step enc (MgRestart off) m) = FutEmpty \<and>
    \<not> mg_reconnect (managed_step enc (MgRestart off) m) \<and>
    (\<forall>r. mg_future m = FutRunning r \<longrightarrow>
       (\<exists>mem. managed_memory (managed_step enc (MgRestart off) m) = Some mem \<and> me_version mem = 0)) \<and>
    (managed_memory m \<noteq> None \<longrightarrow>
       (\<exists>mem. managed_memory (fold (managed_step enc) [MgRestart on, MgPoll now, MgRun RTick] m) = Some mem \<and>
          mumble_sees (link_name enc) (link_transform now) mem)) \<and>
    (mg_reconnect m \<longrightarrow>
       (\<exists>mem. managed_memory (fold (managed_step enc)
            [MgTimer on, MgShared (Some fresh), MgPoll now, MgRun RTick] m) = Some mem \<and>
          mumble_sees (link_name enc) (link_transform now) mem))"
proof -
  note ok = managed_run [OF assms(1)]
  have off: "mg_future (managed_step enc (MgRestart off) m) = FutEmpty"
    "\<not> mg_reconnect (managed_step enc (MgRestart off) m)"
    using assms(2) by (simp_all add: managed_step_def build_future_def set_future_def)
  have closed: "\<exists>mem. managed_memory (managed_step enc (MgRestart off) m) = Some mem \<and> me_version mem = 0"
    if "mg_future m = FutRunning r" for r
  proof -
    have "run_ok_future (link_name enc) (FutRunning r)" using ok that by metis
    then have "lk_enabled (lr_link r) \<or> me_version (lk_map (lr_link r)) = 0"
      by (auto simp: run_ok_def)
    then show ?thesis using that assms(2)
      by (auto simp: managed_step_def managed_memory_def set_future_def build_future_def link_drop_def
          link_disable_def set_ui_version_def)
  qed
  have restarted: "\<exists>mem. managed_memory (fold (managed_step enc) [MgRestart on, MgPoll now, MgRun RTick] m) =
      Some mem \<and> mumble_sees (link_name enc) (link_transform now) mem" if "managed_memory m \<noteq> None"
  proof -
    let ?m = "managed_step enc (MgRestart on) m"
    have "mg_future ?m = FutFresh" "mg_shared ?m \<noteq> None"
      using assms(3) that by (cases "mg_future m";
        simp add: managed_step_def set_future_def build_future_def managed_memory_def)+
    then show ?thesis using run_started [of ?m] by fastforce
  qed
  have retried: "\<exists>mem. managed_memory (fold (managed_step enc)
      [MgTimer on, MgShared (Some fresh), MgPoll now, MgRun RTick] m) = Some mem \<and>
      mumble_sees (link_name enc) (link_transform now) mem" if "mg_reconnect m"
  proof -
    let ?m = "managed_step enc (MgShared (Some fresh)) (managed_step enc (MgTimer on) m)"
    have "mg_future ?m = FutFresh" "mg_shared ?m = Some fresh"
      using assms(3) that by (simp_all add: managed_step_def set_future_def build_future_def)
    from run_started [OF this, of enc now] show ?thesis by simp
  qed
  show ?thesis using ok off closed restarted retried by (simp add: managed_ok_def)
qed

subsection \<open>What the backend tells the link\<close>

text \<open>A shared object that moves in sight is told to the link, which is notified.\<close>

lemma moved_object_is_told:
  assumes "bk_mumble_object b = i" "\<not> is_hidden i b"
  shows "bk_transform (object_update i [(KEY_TRANSFORM, VTransform t)] b) = Some t \<and>
    bk_mumblelink_notify (object_update i [(KEY_TRANSFORM, VTransform t)] b)"
  using assms
  by (simp add: object_update_def set_mumblelink_transform_def notify_client_def Let_def
      split: option.splits)

text \<open>
  A batch that moves the object and then shows it tells the link the place where it was before:
  the transform is read from properties that the batch changes only afterwards.
\<close>

lemma shown_object_is_told_stale:
  assumes "bk_mumble_object b = i" "hm_get (bk_objects b) i = Some object"
  shows "bk_transform (object_update i [(KEY_TRANSFORM, VTransform t), (KEY_HIDDEN, VBoolean False)] b) =
    as_transform (props_get (lo_props object) KEY_TRANSFORM)"
  using assms
  by (simp add: object_update_def set_mumblelink_transform_def notify_client_def set_hidden_def Let_def)

text \<open>
  An object that only this user does not see is not shown to Mumble when the link starts, but is
  told to it when it is selected while the link runs.
\<close>

lemma local_hidden_is_told:
  assumes "bk_mumble_object b = i" "\<not> id_is_zero i" "hm_get (bk_objects b) i = Some object"
    and "\<not> as_bool (props_get (lo_props object) KEY_HIDDEN)"
    and "as_bool (props_get (lo_props object) KEY_LOCAL_HIDDEN)"
  shows "link_transform b = None \<and>
    updates_transform i b = as_transform (props_get (lo_props object) KEY_TRANSFORM)"
  using assms by (simp add: link_transform_def updates_transform_def Let_def)

definition link_backend :: "bool \<Rightarrow> Backend" where
  "link_backend on =
     demo_backend\<lparr>bk_props := props_put KEY_MUMBLE_ENABLED (VBoolean on) props_new,
       bk_mumble_object := Id_new 3,
       bk_objects := [(Id_new 3, \<lparr>lo_ty = TYPE_TOKEN, lo_id = Id_new 3,
         lo_props = props_put KEY_TRANSFORM (VTransform example_transform) props_new,
         lo_changed = []\<rparr>)]\<rparr>"

lemma link_backend_setting: "link_setting (link_backend on) = on"
  by (simp add: link_setting_def link_backend_def props_get_put value_norm_def)

lemma link_backend_transform: "link_transform (link_backend on) = Some example_transform"
  by (simp add: link_transform_def link_backend_def props_get_put value_norm_def Let_def hm_get_def
      id_is_zero_def)

theorem link_follows_setting_witness:
  "\<exists>mem. managed_memory (fold (managed_step unix_units)
      [MgPoll (link_backend True), MgTimer (link_backend True), MgShared (Some example_memory),
       MgPoll (link_backend True), MgRun RTick] (managed_start (link_backend True) None)) = Some mem \<and>
    mumble_sees (link_name unix_units) (Some example_transform) mem"
proof -
  let ?events = "[MgPoll (link_backend True)]"
  let ?m = "fold (managed_step unix_units) ?events (managed_start (link_backend True) None)"
  have "mg_reconnect ?m"
    by (simp add: managed_start_def managed_step_def build_future_def link_backend_setting
        run_start_def link_new_def)
  with link_follows_setting [OF refl, of "link_backend False" "link_backend True" unix_units ?events
      "link_backend True" None "link_backend True" example_memory]
  show ?thesis by (simp add: link_backend_setting link_backend_transform)
qed

end
