(* ===== verification/UiRooms.thy ===== *)
theory UiRooms
  imports WebApi UiPeers
begin

section \<open>The list of rooms: \<^verbatim>\<open>crates/web/src/components/rooms.rs\<close>\<close>

text \<open>
  The component that lists the rooms of everybody, with its messages, the requests it sends and
  what it displays of each room. It follows the same broadcasts as the map. Log output and
  decoding errors leave the state as it is and are left out, as is the markup around the values
  on display.
\<close>

subsection \<open>Rooms\<close>

datatype Room = Room (room_id: StableId) (room_name: string)

text \<open>\<open>Room::cmp\<close> orders by name, then by identifier; strings compare by their bytes.\<close>

definition room_cmp :: "Room \<Rightarrow> Room \<Rightarrow> bool" where
  "room_cmp a b \<longleftrightarrow>
     (if str_bytes (room_name a) = str_bytes (room_name b) then room_id a \<le> room_id b
      else str_bytes (room_name a) < str_bytes (room_name b))"

lemma str_bytes_inj: "str_bytes s = str_bytes t \<Longrightarrow> s = t"
proof -
  have "inj (of_char :: char \<Rightarrow> u8)"
  proof (rule injI)
    fix c d
    assume "(of_char c :: u8) = of_char d"
    then have "unat (of_nat (of_char c) :: u8) = unat (of_nat (of_char d) :: u8)"
      by (simp add: of_nat_of_char)
    then show "c = d" by (simp add: unat_of_nat take_bit_eq_mod)
  qed
  then show "str_bytes s = str_bytes t \<Longrightarrow> s = t"
    by (simp add: str_bytes_def inj_map_eq_map)
qed

instantiation Room :: linorder
begin
definition less_eq_Room :: "Room \<Rightarrow> Room \<Rightarrow> bool" where
  "less_eq_Room a b \<longleftrightarrow> room_cmp a b"
definition less_Room :: "Room \<Rightarrow> Room \<Rightarrow> bool" where
  "less_Room a b \<longleftrightarrow> room_cmp a b \<and> a \<noteq> b"
instance
  by standard
    (auto simp: less_eq_Room_def less_Room_def room_cmp_def split: if_splits
      intro: Room.expand dest: str_bytes_inj)
end

definition room_from_remote :: "StableId \<Rightarrow> RemoteObject \<Rightarrow> Room option" where
  "room_from_remote i object =
     (if ro_ty object \<noteq> TYPE_ROOM then None
      else Some (Room i (as_str (props_get (ro_props object) KEY_NAME))))"

definition room_update :: "Key \<Rightarrow> Value \<Rightarrow> Room \<Rightarrow> bool \<times> Room" where
  "room_update key v room =
     (if key = KEY_NAME then (True, Room (room_id room) (as_str v)) else (False, room))"

subsection \<open>State and messages\<close>

record Rooms =
  rs_peers :: UiPeers
  rs_rooms :: "Room list"
  rs_active :: StableId
  rs_channel :: ChannelId
  rs_sent :: "Request list"

datatype RoomsMsg =
    RM_Channel ChannelId
  | RM_Initialized InitializeRoomsResponse
  | RM_RemoteUpdate RemoteUpdateBody
  | RM_ConfigUpdate UpdateBody
  | RM_Disconnect
  | RM_Connect StableId
  | RM_UpdatesResult
  | RM_CreateRoom
  | RM_CreateRoomResult

definition rooms_new :: Rooms where
  "rooms_new =
     \<lparr>rs_peers = ui_peers_default, rs_rooms = [], rs_active = StableId_ZERO,
      rs_channel = CHANNEL_NONE, rs_sent = []\<rparr>"

definition rooms_send :: "Request \<Rightarrow> Rooms \<Rightarrow> Rooms" where
  "rooms_send r rs = rs\<lparr>rs_sent := rs_sent rs @ [r]\<rparr>"

definition rooms_push :: "StableId \<Rightarrow> RemoteObject \<Rightarrow> Rooms \<Rightarrow> Rooms" where
  "rooms_push i object rs =
     (case room_from_remote i object of
        None \<Rightarrow> rs | Some room \<Rightarrow> rs\<lparr>rs_rooms := rs_rooms rs @ [room]\<rparr>)"

definition rooms_channel :: "ChannelId \<Rightarrow> Rooms \<Rightarrow> bool \<times> Rooms" where
  "rooms_channel channel rs =
     (let rs = rs\<lparr>rs_channel := channel, rs_peers := ui_peers_default, rs_active := StableId_ZERO,
                 rs_rooms := []\<rparr>
      in if channel = CHANNEL_NONE then (True, rs) else (True, rooms_send InitializeRooms rs))"

definition rooms_initialized :: "InitializeRoomsResponse \<Rightarrow> Rooms \<Rightarrow> bool \<times> Rooms" where
  "rooms_initialized body rs =
     (let ps = (rs_peers rs)\<lparr>ups_public_key := irr_public_key body\<rparr>;
          active = as_stable_id (props_get (irr_props body) KEY_ROOM);
          rs = rs\<lparr>rs_peers := ui_peers_clear ps, rs_active := active, rs_rooms := []\<rparr>;
          rs = fold (\<lambda>object. rooms_push (StableId_new (irr_public_key body) (ro_id object)) object)
                 (irr_local body) rs;
          rs = rs\<lparr>rs_peers := fold (\<lambda>p. ui_peers_insert p active) (irr_peers body) (rs_peers rs)\<rparr>;
          rs = fold (\<lambda>(p, object) rs.
                   rooms_push (ui_to_stable_id (RemoteId_new p (ro_id object)) (rs_peers rs)) object rs)
                 (irr_peer_objects body) rs
      in (True, rs\<lparr>rs_rooms := sort (rs_rooms rs)\<rparr>))"

definition rooms_remove_peer :: "PeerId \<Rightarrow> Rooms \<Rightarrow> bool \<times> Rooms" where
  "rooms_remove_peer p rs =
     (case ui_peers_get p (rs_peers rs) of
        None \<Rightarrow> (False, rs)
      | Some peer \<Rightarrow>
          (True, rs\<lparr>rs_peers := ui_peers_remove p (rs_peers rs),
                    rs_rooms := filter (\<lambda>r. sid_public_key (room_id r) \<noteq> uip_public_key peer)
                      (rs_rooms rs)\<rparr>))"

text \<open>\<open>iter_mut().find\<close> changes the first room that has the identifier.\<close>

fun update_first :: "('a \<Rightarrow> bool) \<Rightarrow> ('a \<Rightarrow> 'a) \<Rightarrow> 'a list \<Rightarrow> 'a list" where
  "update_first p f [] = []"
| "update_first p f (x # xs) = (if p x then f x # xs else x # update_first p f xs)"

definition rooms_object_updated ::
    "ChannelId \<Rightarrow> RemoteId \<Rightarrow> Key \<Rightarrow> Value \<Rightarrow> Rooms \<Rightarrow> bool \<times> Rooms" where
  "rooms_object_updated channel i key v rs =
     (if rs_channel rs = channel then (False, rs)
      else
        let i = ui_to_stable_id i (rs_peers rs)
        in case find (\<lambda>r. room_id r = i) (rs_rooms rs) of
             None \<Rightarrow> (False, rs)
           | Some entry \<Rightarrow>
               (let update = fst (room_update key v entry);
                    rooms = update_first (\<lambda>r. room_id r = i) (\<lambda>r. snd (room_update key v r)) (rs_rooms rs)
                in (update, rs\<lparr>rs_rooms := if update then sort rooms else rooms\<rparr>)))"

definition rooms_remote_update :: "RemoteUpdateBody \<Rightarrow> Rooms \<Rightarrow> bool \<times> Rooms" where
  "rooms_remote_update body rs =
     (case body of
        RRemoteLost \<Rightarrow>
          (True, rs\<lparr>rs_rooms :=
             filter (\<lambda>r. sid_public_key (room_id r) \<noteq> ups_public_key (rs_peers rs)) (rs_rooms rs)\<rparr>)
      | RPeerConnected peer \<Rightarrow> (True, rs\<lparr>rs_peers := ui_peers_insert peer (rs_active rs) (rs_peers rs)\<rparr>)
      | RPeerDisconnect p \<Rightarrow> rooms_remove_peer p rs
      | RObjectCreated _ i object \<Rightarrow>
          (case room_from_remote (ui_to_stable_id i (rs_peers rs)) object of
             Some room \<Rightarrow> (True, rs\<lparr>rs_rooms := sort (rs_rooms rs @ [room])\<rparr>)
           | None \<Rightarrow> (False, rs))
      | RObjectRemoved channel i \<Rightarrow>
          if rs_channel rs = channel then (False, rs)
          else
            (let i = ui_to_stable_id i (rs_peers rs);
                 rooms = filter (\<lambda>r. room_id r \<noteq> i) (rs_rooms rs)
             in (length rooms \<noteq> length (rs_rooms rs), rs\<lparr>rs_rooms := rooms\<rparr>))
      | RObjectUpdated channel i key v \<Rightarrow> rooms_object_updated channel i key v rs
      | RPeerUpdate p key v \<Rightarrow>
          (case ui_peers_get p (rs_peers rs) of
             None \<Rightarrow> (False, rs)
           | Some _ \<Rightarrow>
               (key = KEY_ROOM \<or> key = KEY_PEER_NAME,
                rs\<lparr>rs_peers := ui_peers_modify p (ui_peer_update key v (rs_active rs)) (rs_peers rs)\<rparr>))
      | _ \<Rightarrow> (False, rs))"

definition rooms_config_update :: "UpdateBody \<Rightarrow> Rooms \<Rightarrow> bool \<times> Rooms" where
  "rooms_config_update body rs =
     (case body of
        UConfig channel key v \<Rightarrow>
          if rs_channel rs = channel then (False, rs)
          else if key = KEY_ROOM then (True, rs\<lparr>rs_active := as_stable_id v\<rparr>)
          else (False, rs)
      | UPublicKey k \<Rightarrow> (True, rs\<lparr>rs_peers := (rs_peers rs)\<lparr>ups_public_key := k\<rparr>\<rparr>))"

definition rooms_update :: "RoomsMsg \<Rightarrow> Rooms \<Rightarrow> bool \<times> Rooms" where
  "rooms_update msg rs =
     (case msg of
        RM_Channel channel \<Rightarrow> rooms_channel channel rs
      | RM_Initialized body \<Rightarrow> rooms_initialized body rs
      | RM_RemoteUpdate body \<Rightarrow> rooms_remote_update body rs
      | RM_ConfigUpdate body \<Rightarrow> rooms_config_update body rs
      | RM_Disconnect \<Rightarrow>
          if rs_channel rs = CHANNEL_NONE then (True, rs)
          else (True, rooms_send (Updates [(KEY_ROOM, VEmpty)]) (rs\<lparr>rs_active := StableId_ZERO\<rparr>))
      | RM_Connect room \<Rightarrow>
          if rs_channel rs = CHANNEL_NONE then (True, rs)
          else (True, rooms_send (Updates [(KEY_ROOM, VStableId room)]) (rs\<lparr>rs_active := room\<rparr>))
      | RM_UpdatesResult \<Rightarrow> (False, rs)
      | RM_CreateRoom \<Rightarrow>
          (False, rooms_send
             (CreateObject TYPE_ROOM (props_from_iter [(KEY_NAME, VString ''New Room'')])) rs)
      | RM_CreateRoomResult \<Rightarrow> (True, rs))"

subsection \<open>What is displayed\<close>

definition peers_in :: "StableId \<Rightarrow> Rooms \<Rightarrow> nat" where
  "peers_in room rs =
     length (filter (\<lambda>p. as_stable_id (props_get (uip_props p) KEY_ROOM) = room)
       (hm_values (ups_peers (rs_peers rs)))) + (if rs_active rs = room then 1 else 0)"

record RoomView =
  rv_name :: string
  rv_active :: bool
  rv_local :: bool
  rv_owner :: "string option"
  rv_title :: string
  rv_peer_count :: nat
  rv_settings :: "RemoteId option"

definition view_room :: "(bytes \<Rightarrow> string) \<Rightarrow> Rooms \<Rightarrow> Room \<Rightarrow> RoomView" where
  "view_room enc rs room =
     (let is_local = sid_public_key (room_id room) = ups_public_key (rs_peers rs);
          peer = ui_by_public_key (sid_public_key (room_id room)) (rs_peers rs)
      in \<lparr>rv_name = room_name room,
          rv_active = (rs_active rs = room_id room),
          rv_local = is_local,
          rv_owner = (if is_local then Some ''you'' else map_option (ui_peer_display enc) peer),
          rv_title =
            (if is_local then ''Room owned by you''
             else case peer of
               Some peer \<Rightarrow> ''Room owned by '' @ [CHR 0x27] @ ui_peer_display enc peer @ [CHR 0x27]
             | None \<Rightarrow> ''Remote room''),
          rv_peer_count = peers_in (room_id room) rs,
          rv_settings =
            (if is_local then Some (ui_to_remote_id (room_id room) (rs_peers rs)) else None)\<rparr>)"

definition no_room_count :: "Rooms \<Rightarrow> nat" where
  "no_room_count rs = peers_in StableId_ZERO rs"

subsection \<open>What the list should hold\<close>

text \<open>
  The objects that a window has been told of, by the identifier it was told, and the list of
  rooms they make: those of the type of rooms, under their stable identifier, in order. When the
  connection to the server is lost, what the window strikes out is what the code does, its own
  objects (\<open>remote_lost_keeps_foreign\<close>).
\<close>

type_synonym Known = "(RemoteId, RemoteObject) hashmap"

definition rooms_view :: "UiPeers \<Rightarrow> Known \<Rightarrow> Room list" where
  "rooms_view ps tbl =
     sort (List.map_filter (\<lambda>(i, object). room_from_remote (ui_to_stable_id i ps) object) tbl)"

definition known_step :: "RemoteUpdateBody \<Rightarrow> Known \<Rightarrow> Known" where
  "known_step body tbl =
     (case body of
        RObjectCreated _ i object \<Rightarrow> hm_insert i object tbl
      | RObjectRemoved _ i \<Rightarrow> hm_remove i tbl
      | RObjectUpdated _ i key v \<Rightarrow>
          (case hm_get tbl i of
             None \<Rightarrow> tbl
           | Some object \<Rightarrow> hm_insert i (object\<lparr>ro_props := props_put key v (ro_props object)\<rparr>) tbl)
      | RPeerDisconnect p \<Rightarrow> hm_retain (\<lambda>i _. rid_peer_id i \<noteq> p) tbl
      | RRemoteLost \<Rightarrow> hm_retain (\<lambda>i _. \<not> rid_is_local i) tbl
      | _ \<Rightarrow> tbl)"

definition peer_known :: "UiPeers \<Rightarrow> RemoteId \<Rightarrow> bool" where
  "peer_known ps i \<longleftrightarrow> rid_is_local i \<or> hm_get (ups_peers ps) (rid_peer_id i) \<noteq> None"

text \<open>
  What the backend sends: objects appear once, under peers that are connected; peers connect once,
  with a key of their own; the changes come from other windows.
\<close>

definition news_fits :: "Rooms \<Rightarrow> Known \<Rightarrow> RemoteUpdateBody \<Rightarrow> bool" where
  "news_fits rs tbl body =
     (let ps = rs_peers rs
      in case body of
        RObjectCreated _ i object \<Rightarrow> hm_get tbl i = None \<and> peer_known ps i
      | RObjectRemoved channel i \<Rightarrow> channel \<noteq> rs_channel rs \<and> peer_known ps i
      | RObjectUpdated channel i key v \<Rightarrow> channel \<noteq> rs_channel rs \<and> peer_known ps i
      | RPeerConnected peer \<Rightarrow>
          hm_get (ups_peers ps) (rp_id peer) = None \<and>
          hm_get (ups_public_keys ps) (rp_public_key peer) = None \<and>
          rp_public_key peer \<noteq> ups_public_key ps
      | RPeerDisconnect p \<Rightarrow> \<not> pid_is_zero p
      | _ \<Rightarrow> True)"

definition peers_apart :: "UiPeers \<Rightarrow> bool" where
  "peers_apart ps \<longleftrightarrow> ui_peers_ok ps \<and> hm_get (ups_public_keys ps) (ups_public_key ps) = None"

definition room_of :: "UiPeers \<Rightarrow> Known \<Rightarrow> Room \<Rightarrow> bool" where
  "room_of ps tbl r \<longleftrightarrow>
     (\<exists>i object. hm_get tbl i = Some object \<and> room_from_remote (ui_to_stable_id i ps) object = Some r)"

definition rooms_ok :: "Rooms \<Rightarrow> Known \<Rightarrow> bool" where
  "rooms_ok rs tbl \<longleftrightarrow>
     peers_apart (rs_peers rs) \<and> hm_wf tbl \<and>
     (\<forall>i object. hm_get tbl i = Some object \<longrightarrow> peer_known (rs_peers rs) i) \<and>
     sorted (rs_rooms rs) \<and> distinct (map room_id (rs_rooms rs)) \<and>
     (\<forall>r. r \<in> set (rs_rooms rs) \<longleftrightarrow> room_of (rs_peers rs) tbl r)"

lemma local_rid: "rid_is_local i \<Longrightarrow> rid_peer_id i = PeerId_ZERO"
  by (auto simp: rid_is_local_def pid_is_zero_def PeerId_ZERO_def intro: PeerId.expand)

lemma stable_known:
  assumes "peers_apart ps" "peer_known ps i"
  shows "\<exists>k. ui_to_stable_id i ps = StableId_new k (rid_id i) \<and>
    (if rid_is_local i then k = ups_public_key ps
     else hm_get (ups_public_keys ps) k = Some (rid_peer_id i))"
proof (cases "rid_is_local i")
  case False
  then obtain peer where "hm_get (ups_peers ps) (rid_peer_id i) = Some peer"
    using assms(2) by (auto simp: peer_known_def)
  with False ui_peers_ok_peer [OF _ this] assms(1) show ?thesis
    by (simp add: ui_to_stable_id_def peers_apart_def)
qed (simp add: ui_to_stable_id_def)

lemma stable_inj:
  assumes "peers_apart ps" "peer_known ps i" "peer_known ps j"
    and "ui_to_stable_id i ps = ui_to_stable_id j ps"
  shows "i = j"
proof -
  have own: "hm_get (ups_public_keys ps) (ups_public_key ps) = None"
    using assms(1) by (simp add: peers_apart_def)
  have "rid_id i = rid_id j \<and> rid_peer_id i = rid_peer_id j"
    using stable_known [OF assms(1,2)] stable_known [OF assms(1,3)] assms(4) own
    by (auto split: if_splits simp: local_rid)
  then show ?thesis by (auto intro: RemoteId.expand)
qed

lemma from_remote_id: "room_from_remote i object = Some r \<Longrightarrow> room_id r = i"
  by (auto simp: room_from_remote_def split: if_splits)

definition view_of :: "UiPeers \<Rightarrow> Known \<Rightarrow> Room list" where
  "view_of ps tbl = List.map_filter (\<lambda>(i, object). room_from_remote (ui_to_stable_id i ps) object) tbl"

lemma view_sorted: "rooms_view ps tbl = sort (view_of ps tbl)"
  by (simp add: rooms_view_def view_of_def)

lemma map_filter_set: "r \<in> set (List.map_filter f xs) \<longleftrightarrow> (\<exists>x\<in>set xs. f x = Some r)"
  by (induction xs) (auto split: option.splits)

lemma map_filter_app: "List.map_filter f (xs @ ys) = List.map_filter f xs @ List.map_filter f ys"
  by (induction xs) (auto split: option.splits)

lemma map_filter_of_map: "List.map_filter f (map g xs) = List.map_filter (\<lambda>x. f (g x)) xs"
  by (induction xs) (auto split: option.splits)

lemma view_members: "hm_wf tbl \<Longrightarrow> r \<in> set (view_of ps tbl) \<longleftrightarrow> room_of ps tbl r"
  by (auto simp: view_of_def map_filter_set room_of_def hm_mem_get [symmetric]; force)

lemma view_distinct:
  assumes "peers_apart ps" "hm_wf tbl" "\<forall>i object. hm_get tbl i = Some object \<longrightarrow> peer_known ps i"
  shows "distinct (map room_id (view_of ps tbl))"
  using assms(2,3)
proof (induction tbl)
  case (Cons x tbl)
  obtain i object where x: "x = (i, object)" by (cases x)
  have wf: "hm_wf tbl" "hm_get tbl i = None" using Cons.prems(1) x
    by (auto simp: hm_wf_def hm_get_def map_of_eq_None_iff)
  have k: "peer_known ps i" "\<forall>j o1. hm_get tbl j = Some o1 \<longrightarrow> peer_known ps j"
    using Cons.prems(2) wf(2) by (auto simp: x hm_get_def split: if_splits)
  have "ui_to_stable_id i ps \<notin> room_id ` set (view_of ps tbl)"
  proof
    assume "ui_to_stable_id i ps \<in> room_id ` set (view_of ps tbl)"
    then obtain j o1 where j: "hm_get tbl j = Some o1" "ui_to_stable_id j ps = ui_to_stable_id i ps"
      using from_remote_id by (force simp: view_members [OF wf(1)] room_of_def)
    then have "j = i" using stable_inj [OF assms(1)] k by blast
    with j(1) wf(2) show False by simp
  qed
  then show ?case using Cons.IH [OF wf(1) k(2)]
    by (auto simp: x view_of_def List.map_filter_simps from_remote_id split: option.split)
qed (simp add: view_of_def List.map_filter_simps)

text \<open>The invariant says that the list is the one it should be.\<close>

lemma rooms_ok_view:
  assumes "rooms_ok rs tbl"
  shows "rs_rooms rs = rooms_view (rs_peers rs) tbl"
proof -
  note ok = assms [unfolded rooms_ok_def]
  have "distinct (map room_id (view_of (rs_peers rs) tbl))" using view_distinct ok by blast
  then have d: "distinct (rooms_view (rs_peers rs) tbl)"
    by (simp add: view_sorted distinct_map)
  have "set (rs_rooms rs) = set (rooms_view (rs_peers rs) tbl)"
    using ok by (auto simp: view_sorted view_members)
  moreover have "distinct (rs_rooms rs)" using ok by (simp add: distinct_map)
  ultimately show ?thesis using sorted_distinct_set_unique [OF _ _ _ d] ok
    by (simp add: view_sorted)
qed

lemma distinct_map_sort: "distinct (map g (sort xs)) = distinct (map g xs)"
  by (simp add: distinct_map)

lemma rooms_ok_start:
  assumes "peers_apart (rs_peers rs)" "hm_wf tbl"
    and "\<forall>i object. hm_get tbl i = Some object \<longrightarrow> peer_known (rs_peers rs) i"
    and "rs_rooms rs = rooms_view (rs_peers rs) tbl"
  shows "rooms_ok rs tbl"
  using assms view_distinct [OF assms(1-3)]
  by (simp add: rooms_ok_def view_sorted view_members distinct_map_sort)

subsection \<open>Objects that come, change and go\<close>

lemma rooms_okD:
  assumes "rooms_ok rs tbl"
  shows "peers_apart (rs_peers rs)" "hm_wf tbl" "sorted (rs_rooms rs)"
    "distinct (map room_id (rs_rooms rs))"
    "hm_get tbl i = Some object \<Longrightarrow> peer_known (rs_peers rs) i"
    "r \<in> set (rs_rooms rs) \<longleftrightarrow> room_of (rs_peers rs) tbl r"
  using assms by (auto simp: rooms_ok_def)

lemma room_of_id:
  assumes "rooms_ok rs tbl" "peer_known (rs_peers rs) i"
  shows "r \<in> set (rs_rooms rs) \<and> room_id r = ui_to_stable_id i (rs_peers rs) \<longleftrightarrow>
    (\<exists>object. hm_get tbl i = Some object \<and>
       room_from_remote (ui_to_stable_id i (rs_peers rs)) object = Some r)"
proof
  note ok = rooms_okD [OF assms(1)]
  assume "r \<in> set (rs_rooms rs) \<and> room_id r = ui_to_stable_id i (rs_peers rs)"
  then obtain j object where j: "hm_get tbl j = Some object"
    "room_from_remote (ui_to_stable_id j (rs_peers rs)) object = Some r" "room_id r = ui_to_stable_id i (rs_peers rs)"
    by (auto simp: ok(6) room_of_def)
  have "j = i" using stable_inj [OF ok(1) ok(5) [OF j(1)] assms(2)] from_remote_id [OF j(2)] j(3) by simp
  with j show "\<exists>object. hm_get tbl i = Some object \<and>
      room_from_remote (ui_to_stable_id i (rs_peers rs)) object = Some r" by auto
qed (auto simp: rooms_okD(6) [OF assms(1)] room_of_def dest: from_remote_id)

lemma room_of_insert:
  "room_of ps (hm_insert i object tbl) r \<longleftrightarrow>
     room_from_remote (ui_to_stable_id i ps) object = Some r \<or> room_of ps (hm_remove i tbl) r"
  by (auto simp: room_of_def hm_get_insert hm_get_remove)

lemma room_of_remove:
  assumes "rooms_ok rs tbl" "peer_known (rs_peers rs) i"
  shows "room_of (rs_peers rs) (hm_remove i tbl) r \<longleftrightarrow>
    r \<in> set (rs_rooms rs) \<and> room_id r \<noteq> ui_to_stable_id i (rs_peers rs)"
proof -
  note ok = rooms_okD [OF assms(1)]
  have "room_id r \<noteq> ui_to_stable_id i (rs_peers rs)"
    if "hm_get (hm_remove i tbl) j = Some object"
      "room_from_remote (ui_to_stable_id j (rs_peers rs)) object = Some r" for j object
  proof
    assume "room_id r = ui_to_stable_id i (rs_peers rs)"
    then have "j = i" using that ok(5) stable_inj [OF ok(1) _ assms(2)] from_remote_id [OF that(2)]
      by (auto simp: hm_get_remove split: if_splits)
    with that(1) show False by (simp add: hm_get_remove)
  qed
  moreover have "r \<in> set (rs_rooms rs)" if "room_of (rs_peers rs) (hm_remove i tbl) r"
    using that by (auto simp: ok(6) room_of_def hm_get_remove split: if_splits)
  moreover have "room_of (rs_peers rs) (hm_remove i tbl) r"
    if "r \<in> set (rs_rooms rs)" "room_id r \<noteq> ui_to_stable_id i (rs_peers rs)"
  proof -
    obtain j object where j: "hm_get tbl j = Some object"
      "room_from_remote (ui_to_stable_id j (rs_peers rs)) object = Some r"
      using \<open>r \<in> set _\<close> by (auto simp: ok(6) room_of_def)
    then have "j \<noteq> i" using \<open>room_id r \<noteq> _\<close> by (auto dest: from_remote_id)
    with j show ?thesis by (auto simp: room_of_def hm_get_remove)
  qed
  ultimately show ?thesis by (auto simp: room_of_def)
qed

lemma rooms_ok_created:
  assumes "rooms_ok rs tbl" "news_fits rs tbl (RObjectCreated channel i object)"
  shows "rooms_ok (snd (rooms_remote_update (RObjectCreated channel i object) rs)) (hm_insert i object tbl)"
proof -
  note ok = rooms_okD [OF assms(1)]
  let ?ps = "rs_peers rs"
  have i: "hm_get tbl i = None" "peer_known ?ps i" using assms(2) by (simp_all add: news_fits_def)
  have new: "room_of ?ps (hm_insert i object tbl) r \<longleftrightarrow>
      room_from_remote (ui_to_stable_id i ?ps) object = Some r \<or> r \<in> set (rs_rooms rs)" for r
    unfolding room_of_insert room_of_remove [OF assms(1) i(2)]
    using room_of_id [OF assms(1) i(2), of r] i(1) by auto
  have fresh: "ui_to_stable_id i ?ps \<notin> set (map room_id (rs_rooms rs))"
    using room_of_id [OF assms(1) i(2)] i(1) by fastforce
  have known: "peer_known ?ps j" if "hm_get (hm_insert i object tbl) j = Some o1" for j o1
    using that i(2) ok(5) by (auto simp: hm_get_insert split: if_splits)
  show ?thesis
  proof (cases "room_from_remote (ui_to_stable_id i ?ps) object")
    case None
    then show ?thesis using ok known
      by (auto simp: rooms_ok_def rooms_remote_update_def new)
  next
    case (Some room)
    let ?rooms = "sort (rs_rooms rs @ [room])"
    have "distinct (map room_id (rs_rooms rs @ [room]))"
      using ok(4) fresh from_remote_id [OF Some] by auto
    then have "distinct (map room_id ?rooms)" by (simp only: distinct_map_sort)
    then show ?thesis using ok known Some
      by (auto simp: rooms_ok_def rooms_remote_update_def new)
  qed
qed

lemma rooms_ok_removed:
  assumes "rooms_ok rs tbl" "news_fits rs tbl (RObjectRemoved channel i)"
  shows "rooms_ok (snd (rooms_remote_update (RObjectRemoved channel i) rs)) (hm_remove i tbl)"
proof -
  note ok = rooms_okD [OF assms(1)]
  have i: "channel \<noteq> rs_channel rs" "peer_known (rs_peers rs) i"
    using assms(2) by (simp_all add: news_fits_def)
  then show ?thesis using ok room_of_remove [OF assms(1) i(2)]
    by (auto simp: rooms_ok_def rooms_remote_update_def Let_def sorted_filter [of id, simplified] distinct_map_filter
        hm_get_remove split: if_splits)
qed

lemma update_first_map:
  assumes "distinct (map g xs)"
  shows "update_first (\<lambda>x. g x = k) f xs = map (\<lambda>x. if g x = k then f x else x) xs"
  using assms
proof (induction xs)
  case (Cons x xs)
  have "map (\<lambda>y. if g y = k then f y else y) xs = xs" if "g x = k"
    using Cons.prems that by (intro map_idI) (auto, metis image_eqI)
  with Cons show ?case by auto
qed simp

lemma as_str_norm: "as_str (value_norm v) = as_str v"
  by (cases v) (auto simp: value_norm_def)

lemma room_of_changed:
  "room_from_remote i (object\<lparr>ro_props := props_put key v (ro_props object)\<rparr>) =
     map_option (\<lambda>r. snd (room_update key v r)) (room_from_remote i object)"
  by (simp add: room_from_remote_def room_update_def props_get_put as_str_norm)

lemma rooms_ok_updated:
  assumes "rooms_ok rs tbl" "news_fits rs tbl (RObjectUpdated channel i key v)"
  shows "rooms_ok (snd (rooms_remote_update (RObjectUpdated channel i key v) rs))
    (known_step (RObjectUpdated channel i key v) tbl)"
proof -
  note ok = rooms_okD [OF assms(1)]
  let ?ps = "rs_peers rs" and ?s = "ui_to_stable_id i (rs_peers rs)"
  let ?f = "\<lambda>r. if room_id r = ?s then snd (room_update key v r) else r"
  have i: "channel \<noteq> rs_channel rs" "peer_known ?ps i" using assms(2) by (simp_all add: news_fits_def)
  let ?tbl = "known_step (RObjectUpdated channel i key v) tbl"
  have tbl: "room_of ?ps ?tbl r \<longleftrightarrow> r \<in> set (map ?f (rs_rooms rs))" for r
  proof -
    have id: "room_id (?f r) = room_id r" for r by (simp add: room_update_def)
    have "room_of ?ps ?tbl r \<longleftrightarrow>
        (\<exists>q\<in>set (rs_rooms rs). room_id q = ?s \<and> r = ?f q) \<or> r \<in> set (rs_rooms rs) \<and> room_id r \<noteq> ?s"
    proof (cases "hm_get tbl i")
      case None
      then have "room_id q \<noteq> ?s" if "q \<in> set (rs_rooms rs)" for q
        using room_of_id [OF assms(1) i(2), of q] that by auto
      then show ?thesis using None ok(6) by (auto simp: known_step_def)
    next
      case (Some object)
      have "room_from_remote ?s (object\<lparr>ro_props := props_put key v (ro_props object)\<rparr>) = Some r \<longleftrightarrow>
          (\<exists>q\<in>set (rs_rooms rs). room_id q = ?s \<and> r = ?f q)"
        using room_of_id [OF assms(1) i(2)] Some unfolding room_of_changed by fastforce
      then show ?thesis
        using Some by (simp add: known_step_def room_of_insert room_of_remove [OF assms(1) i(2)])
    qed
    then show ?thesis by (auto simp: image_iff)
  qed
  have wf: "hm_wf ?tbl" "hm_get ?tbl j = Some o1 \<Longrightarrow> peer_known ?ps j" for j o1
    using ok(2,5) i(2) by (auto simp: known_step_def hm_get_insert split: option.splits if_splits)
  have ids: "map room_id (map ?f (rs_rooms rs)) = map room_id (rs_rooms rs)"
    by (simp add: room_update_def)
  let ?rs = "snd (rooms_remote_update (RObjectUpdated channel i key v) rs)"
  have frame: "rs_peers ?rs = ?ps"
    by (auto simp: rooms_remote_update_def rooms_object_updated_def Let_def split: option.splits)
  have rooms: "rs_rooms ?rs =
      (if key = KEY_NAME \<and> find (\<lambda>r. room_id r = ?s) (rs_rooms rs) \<noteq> None
       then sort (map ?f (rs_rooms rs)) else map ?f (rs_rooms rs))"
  proof (cases "find (\<lambda>r. room_id r = ?s) (rs_rooms rs)")
    case None
    then have "map ?f (rs_rooms rs) = rs_rooms rs" by (intro map_idI) (auto simp: find_None_iff)
    with None i(1) show ?thesis by (simp add: rooms_remote_update_def rooms_object_updated_def)
  next
    case (Some entry)
    with i(1) show ?thesis
      by (simp add: rooms_remote_update_def rooms_object_updated_def Let_def
          update_first_map [OF ok(4)] room_update_def cong: if_cong)
  qed
  have same: "map ?f (rs_rooms rs) = rs_rooms rs"
    if "\<not> (key = KEY_NAME \<and> find (\<lambda>r. room_id r = ?s) (rs_rooms rs) \<noteq> None)"
    using that by (intro map_idI) (auto simp: find_None_iff room_update_def)
  have "distinct (map room_id (map ?f (rs_rooms rs)))" unfolding ids by (rule ok(4))
  then have d: "distinct (map room_id (rs_rooms ?rs))"
    by (simp only: rooms distinct_map_sort split: if_split) simp
  have "sorted (rs_rooms ?rs)" using ok(3) same unfolding rooms by auto
  moreover have "set (rs_rooms ?rs) = set (map ?f (rs_rooms rs))" unfolding rooms by simp
  ultimately show ?thesis using d ok(1) wf tbl by (simp only: rooms_ok_def frame) blast
qed

subsection \<open>Peers that come, change and go\<close>

lemma rooms_ok_same:
  assumes "rooms_ok rs tbl" "peers_apart (rs_peers rs')" "rs_rooms rs' = rs_rooms rs"
    and "\<And>i. peer_known (rs_peers rs) i \<Longrightarrow> peer_known (rs_peers rs') i \<and>
      ui_to_stable_id i (rs_peers rs') = ui_to_stable_id i (rs_peers rs)"
  shows "rooms_ok rs' tbl"
proof -
  note ok = rooms_okD [OF assms(1)]
  have "room_of (rs_peers rs') tbl r = room_of (rs_peers rs) tbl r" for r
    using ok(5) assms(4) unfolding room_of_def by metis
  then show ?thesis using assms ok by (auto simp: rooms_ok_def)
qed

lemma rooms_ok_connected:
  assumes "rooms_ok rs tbl" "news_fits rs tbl (RPeerConnected peer)"
  shows "rooms_ok (snd (rooms_remote_update (RPeerConnected peer) rs)) tbl"
proof (rule rooms_ok_same [OF assms(1)])
  let ?ps = "rs_peers rs" and ?rs = "snd (rooms_remote_update (RPeerConnected peer) rs)"
  have new: "hm_get (ups_peers ?ps) (rp_id peer) = None"
    "hm_get (ups_public_keys ?ps) (rp_public_key peer) = None" "rp_public_key peer \<noteq> ups_public_key ?ps"
    using assms(2) by (simp_all add: news_fits_def Let_def)
  have ps: "rs_peers ?rs = ui_peers_insert peer (rs_active rs) ?ps"
    by (simp add: rooms_remote_update_def)
  show "peers_apart (rs_peers ?rs)"
    using rooms_okD(1) [OF assms(1)] new unfolding ps
    by (simp add: peers_apart_def ui_peers_ok_insert)
      (simp add: ui_peers_insert_def Let_def hm_get_insert)
  show "rs_rooms ?rs = rs_rooms rs" by (simp add: rooms_remote_update_def)
  show "peer_known (rs_peers ?rs) i \<and> ui_to_stable_id i (rs_peers ?rs) = ui_to_stable_id i ?ps"
    if "peer_known ?ps i" for i
    using that new unfolding ps
    by (auto simp: peer_known_def ui_to_stable_id_def ui_peers_insert_def Let_def hm_get_insert
        split: option.splits)
qed

lemma rooms_ok_peer_update:
  assumes "rooms_ok rs tbl"
  shows "rooms_ok (snd (rooms_remote_update (RPeerUpdate p key v) rs)) tbl"
proof (rule rooms_ok_same [OF assms])
  let ?ps = "rs_peers rs" and ?rs = "snd (rooms_remote_update (RPeerUpdate p key v) rs)"
  have ps: "rs_peers ?rs = ui_peers_modify p (ui_peer_update key v (rs_active rs)) ?ps"
    by (auto simp: rooms_remote_update_def ui_peers_get_def ui_peers_modify_def split: option.splits)
  show "peers_apart (rs_peers ?rs)"
    using rooms_okD(1) [OF assms] unfolding ps
    by (auto simp: peers_apart_def ui_peers_ok_modify) (simp add: ui_peers_modify_def split: option.splits)
  show "rs_rooms ?rs = rs_rooms rs" by (simp add: rooms_remote_update_def split: option.splits)
  show "peer_known (rs_peers ?rs) i \<and> ui_to_stable_id i (rs_peers ?rs) = ui_to_stable_id i ?ps"
    if "peer_known ?ps i" for i
    using that unfolding ps
    by (auto simp: peer_known_def ui_to_stable_id_def ui_peers_modify_def hm_get_insert
        split: option.splits)
qed

lemma rooms_ok_disconnected:
  assumes "rooms_ok rs tbl" "news_fits rs tbl (RPeerDisconnect p)"
  shows "rooms_ok (snd (rooms_remote_update (RPeerDisconnect p) rs))
    (known_step (RPeerDisconnect p) tbl)"
proof -
  note ok = rooms_okD [OF assms(1)]
  let ?ps = "rs_peers rs" and ?tbl = "hm_retain (\<lambda>i _. rid_peer_id i \<noteq> p) tbl"
  have p: "\<not> pid_is_zero p" using assms(2) by (simp add: news_fits_def)
  have tbl: "known_step (RPeerDisconnect p) tbl = ?tbl" by (simp add: known_step_def)
  have get: "hm_get ?tbl i = (if rid_peer_id i = p then None else hm_get tbl i)" for i
    using ok(2) by (auto simp: hm_get_retain split: option.splits)
  show ?thesis
  proof (cases "hm_get (ups_peers ?ps) p")
    case None
    have "hm_get ?tbl i = hm_get tbl i" for i
    proof (cases "hm_get tbl i")
      case (Some object)
      then have "rid_peer_id i \<noteq> p" using ok(5) [OF Some] None p by (auto simp: peer_known_def rid_is_local_def)
      then show ?thesis by (simp add: get)
    qed (simp add: get)
    then have "rooms_ok rs ?tbl" using assms(1) by (simp add: rooms_ok_def room_of_def)
    then show ?thesis using None unfolding tbl
      by (simp add: rooms_remote_update_def rooms_remove_peer_def ui_peers_get_def)
  next
    case (Some peer)
    let ?ps' = "ui_peers_remove p ?ps"
    let ?rooms = "filter (\<lambda>r. sid_public_key (room_id r) \<noteq> uip_public_key peer) (rs_rooms rs)"
    have okp: "ui_peers_ok ?ps" using ok(1) by (simp add: peers_apart_def)
    note peer = ui_peers_ok_peer [OF okp Some]
    have apart: "peers_apart ?ps'"
      using ok(1) ui_peers_ok_remove [OF okp, of p] Some
      by (auto simp: peers_apart_def ui_peers_remove_def hm_get_remove split: option.splits)
    have same: "peer_known ?ps' i" "ui_to_stable_id i ?ps' = ui_to_stable_id i ?ps"
      if "peer_known ?ps i" "rid_peer_id i \<noteq> p" for i
      using that Some by (auto simp: peer_known_def ui_to_stable_id_def ui_peers_remove_def hm_get_remove)
    have key: "sid_public_key (ui_to_stable_id i ?ps) = uip_public_key peer \<longleftrightarrow> rid_peer_id i = p"
      if "peer_known ?ps i" for i
      using stable_known [OF ok(1) that] peer ok(1) p Some
      by (auto simp: peers_apart_def rid_is_local_def ui_to_stable_id_def split: if_splits)
    have rooms: "r \<in> set ?rooms \<longleftrightarrow> room_of ?ps' ?tbl r" for r
    proof -
      have "r \<in> set ?rooms \<longleftrightarrow> (\<exists>i object. hm_get tbl i = Some object \<and> rid_peer_id i \<noteq> p \<and>
          room_from_remote (ui_to_stable_id i ?ps) object = Some r)"
        using key ok(5) by (auto simp: ok(6) room_of_def dest: from_remote_id) (metis from_remote_id)+
      also have "\<dots> \<longleftrightarrow> room_of ?ps' ?tbl r"
        using same(2) ok(5) unfolding room_of_def get by (metis option.distinct(1))
      finally show ?thesis .
    qed
    have "peer_known ?ps' i" if "hm_get ?tbl i = Some object" for i object
      using that same(1) ok(5) by (auto simp: get split: if_splits)
    moreover have "sorted ?rooms" "distinct (map room_id ?rooms)"
      using ok(3,4) by (simp_all add: sorted_filter [of id, simplified] distinct_map_filter)
    ultimately show ?thesis using Some apart ok(2) rooms unfolding tbl
      by (simp add: rooms_remote_update_def rooms_remove_peer_def ui_peers_get_def rooms_ok_def)
  qed
qed

lemma rooms_ok_lost:
  assumes "rooms_ok rs tbl"
  shows "rooms_ok (snd (rooms_remote_update RRemoteLost rs)) (known_step RRemoteLost tbl)"
proof -
  note ok = rooms_okD [OF assms]
  let ?ps = "rs_peers rs" and ?tbl = "hm_retain (\<lambda>i _. \<not> rid_is_local i) tbl"
  let ?rooms = "filter (\<lambda>r. sid_public_key (room_id r) \<noteq> ups_public_key ?ps) (rs_rooms rs)"
  have get: "hm_get ?tbl i = (if rid_is_local i then None else hm_get tbl i)" for i
    using ok(2) by (auto simp: hm_get_retain split: option.splits)
  have key: "sid_public_key (ui_to_stable_id i ?ps) = ups_public_key ?ps \<longleftrightarrow> rid_is_local i"
    if "hm_get tbl i = Some object" for i object
    using stable_known [OF ok(1) ok(5) [OF that]] ok(1) by (auto simp: peers_apart_def split: if_splits)
  have "r \<in> set ?rooms \<longleftrightarrow> room_of ?ps ?tbl r" for r
  proof -
    have "r \<in> set ?rooms \<longleftrightarrow> (\<exists>i object. hm_get tbl i = Some object \<and> \<not> rid_is_local i \<and>
        room_from_remote (ui_to_stable_id i ?ps) object = Some r)"
      using key by (auto simp: ok(6) room_of_def dest: from_remote_id) (metis from_remote_id)+
    then show ?thesis unfolding room_of_def get by (metis option.distinct(1))
  qed
  moreover have "peer_known ?ps i" if "hm_get ?tbl i = Some object" for i object
    using that ok(5) by (auto simp: get split: if_splits)
  moreover have "sorted ?rooms" "distinct (map room_id ?rooms)"
    using ok(3,4) by (simp_all add: sorted_filter [of id, simplified] distinct_map_filter)
  ultimately show ?thesis
    using ok(1,2) by (simp add: rooms_remote_update_def known_step_def rooms_ok_def)
qed

lemma rooms_ok_step:
  assumes "rooms_ok rs tbl" "news_fits rs tbl body"
  shows "rooms_ok (snd (rooms_remote_update body rs)) (known_step body tbl)"
proof (cases body)
  case RRemoteLost
  with assms show ?thesis using rooms_ok_lost by simp
next
  case (RPeerConnected peer)
  with assms show ?thesis using rooms_ok_connected by (simp add: known_step_def)
next
  case (RPeerUpdate p key v)
  with assms show ?thesis using rooms_ok_peer_update by (simp add: known_step_def)
next
  case (RPeerDisconnect p)
  with assms show ?thesis using rooms_ok_disconnected by simp
next
  case (RObjectUpdated channel i key v)
  with assms show ?thesis using rooms_ok_updated by simp
next
  case (RObjectCreated channel i object)
  with assms show ?thesis using rooms_ok_created by (simp add: known_step_def)
next
  case (RObjectRemoved channel i)
  with assms show ?thesis using rooms_ok_removed by (simp add: known_step_def)
qed (use assms in \<open>simp_all add: rooms_remote_update_def known_step_def\<close>)

subsection \<open>Initialization\<close>

definition known_of :: "InitializeRoomsResponse \<Rightarrow> Known" where
  "known_of body =
     map (\<lambda>object. (rid_local (ro_id object), object)) (irr_local body) @
     map (\<lambda>(p, object). (RemoteId_new p (ro_id object), object)) (irr_peer_objects body)"

definition response_fits :: "InitializeRoomsResponse \<Rightarrow> bool" where
  "response_fits body \<longleftrightarrow>
     hm_wf (known_of body) \<and> distinct (map rp_id (irr_peers body)) \<and>
     distinct (map rp_public_key (irr_peers body)) \<and>
     irr_public_key body \<notin> set (map rp_public_key (irr_peers body)) \<and>
     list_all (\<lambda>(p, _). p \<in> set (map rp_id (irr_peers body))) (irr_peer_objects body)"

lemma rooms_push_frame [simp]: "rs_peers (rooms_push i object rs) = rs_peers rs"
  by (simp add: rooms_push_def split: option.split)

lemma rooms_push_all:
  "rs_peers (fold (\<lambda>x rs. rooms_push (g x (rs_peers rs)) (h x) rs) xs rs) = rs_peers rs \<and>
   rs_rooms (fold (\<lambda>x rs. rooms_push (g x (rs_peers rs)) (h x) rs) xs rs) =
     rs_rooms rs @ List.map_filter (\<lambda>x. room_from_remote (g x (rs_peers rs)) (h x)) xs"
proof (induction xs arbitrary: rs)
  case (Cons x xs)
  show ?case using Cons.IH [of "rooms_push (g x (rs_peers rs)) (h x) rs"]
    by (simp add: rooms_push_def List.map_filter_simps split: option.split)
qed (simp add: List.map_filter_simps)

lemma peers_inserted:
  assumes "peers_apart ps" "distinct (map rp_id peers)" "distinct (map rp_public_key peers)"
    and "\<forall>p\<in>set peers. hm_get (ups_peers ps) (rp_id p) = None \<and>
      hm_get (ups_public_keys ps) (rp_public_key p) = None \<and> rp_public_key p \<noteq> ups_public_key ps"
  shows "peers_apart (fold (\<lambda>p. ui_peers_insert p room) peers ps) \<and>
    ups_public_key (fold (\<lambda>p. ui_peers_insert p room) peers ps) = ups_public_key ps \<and>
    (\<forall>i. hm_get (ups_peers (fold (\<lambda>p. ui_peers_insert p room) peers ps)) i \<noteq> None \<longleftrightarrow>
       hm_get (ups_peers ps) i \<noteq> None \<or> i \<in> set (map rp_id peers))"
  using assms
proof (induction peers arbitrary: ps)
  case (Cons p peers)
  let ?ps = "ui_peers_insert p room ps"
  have new: "hm_get (ups_peers ps) (rp_id p) = None" "hm_get (ups_public_keys ps) (rp_public_key p) = None"
    "rp_public_key p \<noteq> ups_public_key ps" using Cons.prems(4) by auto
  then have ps: "ups_public_key ?ps = ups_public_key ps"
    "hm_get (ups_peers ?ps) i = None \<longleftrightarrow> i \<noteq> rp_id p \<and> hm_get (ups_peers ps) i = None"
    "hm_get (ups_public_keys ?ps) k = (if k = rp_public_key p then Some (rp_id p) else hm_get (ups_public_keys ps) k)" for i k
    by (simp_all add: ui_peers_insert_def Let_def hm_get_insert)
  have "peers_apart ?ps" using Cons.prems(1) new ps by (simp add: peers_apart_def ui_peers_ok_insert)
  moreover have "\<forall>q\<in>set peers. hm_get (ups_peers ?ps) (rp_id q) = None \<and>
      hm_get (ups_public_keys ?ps) (rp_public_key q) = None \<and> rp_public_key q \<noteq> ups_public_key ?ps"
    using Cons.prems(2-4) by (auto simp: ps image_iff)
  ultimately show ?case using Cons.IH [of ?ps] Cons.prems(2,3) by (auto simp: ps)
qed simp

lemma rooms_ok_initialized:
  assumes "response_fits body"
  shows "rooms_ok (snd (rooms_initialized body rs)) (known_of body)"
proof (rule rooms_ok_start)
  let ?active = "as_stable_id (props_get (irr_props body) KEY_ROOM)"
  let ?cleared = "ui_peers_clear ((rs_peers rs)\<lparr>ups_public_key := irr_public_key body\<rparr>)"
  let ?ps = "fold (\<lambda>p. ui_peers_insert p ?active) (irr_peers body) ?cleared"
  let ?rs = "snd (rooms_initialized body rs)"
  note fits = assms [unfolded response_fits_def]
  have "peers_apart ?cleared" by (simp add: peers_apart_def ui_peers_ok_clear) (simp add: ui_peers_clear_def)
  moreover have "\<forall>p\<in>set (irr_peers body). hm_get (ups_peers ?cleared) (rp_id p) = None \<and>
      hm_get (ups_public_keys ?cleared) (rp_public_key p) = None \<and> rp_public_key p \<noteq> ups_public_key ?cleared"
    using fits by (auto simp: ui_peers_clear_def image_iff)
  moreover have own: "ups_public_key ?cleared = irr_public_key body" by (simp add: ui_peers_clear_def)
  ultimately have ps: "peers_apart ?ps" "ups_public_key ?ps = irr_public_key body"
    "\<And>i. i \<in> set (map rp_id (irr_peers body)) \<Longrightarrow> hm_get (ups_peers ?ps) i \<noteq> None"
    using peers_inserted [of ?cleared "irr_peers body" ?active] fits own by auto
  note push1 = rooms_push_all [where h = "\<lambda>x. x" and
      g = "\<lambda>object _. StableId_new (irr_public_key body) (ro_id object)"]
  note push2 = rooms_push_all [where h = snd and
      g = "\<lambda>po ps. ui_to_stable_id (RemoteId_new (fst po) (ro_id (snd po))) ps"]
  have rs: "rs_peers ?rs = ?ps" by (simp add: rooms_initialized_def Let_def push1 push2 case_prod_unfold)
  show "peers_apart (rs_peers ?rs)" unfolding rs by (rule ps(1))
  show "hm_wf (known_of body)" using fits by simp
  show "\<forall>i object. hm_get (known_of body) i = Some object \<longrightarrow> peer_known (rs_peers ?rs) i"
  proof (intro allI impI)
    fix i object
    assume "hm_get (known_of body) i = Some object"
    then have "(i, object) \<in> set (known_of body)" by (rule hm_get_mem)
    then show "peer_known (rs_peers ?rs) i"
      using fits ps(3) unfolding rs
      by (fastforce simp: known_of_def peer_known_def rid_is_local_def rid_local_def pid_is_zero_def
          PeerId_ZERO_def list_all_iff)
  qed
  have local: "ui_to_stable_id (rid_local i) ?ps = StableId_new (irr_public_key body) i" for i
    by (simp add: ui_to_stable_id_def rid_local_def rid_is_local_def pid_is_zero_def PeerId_ZERO_def ps(2))
  show "rs_rooms ?rs = rooms_view (rs_peers ?rs) (known_of body)"
    by (simp add: rs view_sorted view_of_def known_of_def local rooms_initialized_def Let_def push1 push2
        case_prod_unfold map_filter_app map_filter_of_map)
qed

subsection \<open>The list follows\<close>

text \<open>
  The messages of a window: those of the user, news that fit, answers that fit to its question for
  the rooms, and a new connection, at any time. The key of this user may change to one that is no
  peer's as long as the user has no rooms (\<open>own_rooms_are_orphaned\<close>).
\<close>

definition owns_room :: "Known \<Rightarrow> bool" where
  "owns_room tbl \<longleftrightarrow> list_ex (\<lambda>(i, object). rid_is_local i \<and> ro_ty object = TYPE_ROOM) tbl"

definition msg_fits :: "Rooms \<Rightarrow> Known \<Rightarrow> RoomsMsg \<Rightarrow> bool" where
  "msg_fits rs tbl msg =
     (case msg of
        RM_RemoteUpdate body \<Rightarrow> news_fits rs tbl body
      | RM_ConfigUpdate (UPublicKey k) \<Rightarrow>
          k = ups_public_key (rs_peers rs) \<or>
          hm_get (ups_public_keys (rs_peers rs)) k = None \<and> \<not> owns_room tbl
      | RM_Initialized body \<Rightarrow> response_fits body
      | _ \<Rightarrow> True)"

definition known_msg :: "RoomsMsg \<Rightarrow> Known \<Rightarrow> Known" where
  "known_msg msg tbl =
     (case msg of
        RM_RemoteUpdate body \<Rightarrow> known_step body tbl
      | RM_Channel _ \<Rightarrow> []
      | RM_Initialized body \<Rightarrow> known_of body
      | _ \<Rightarrow> tbl)"

fun msgs_fit :: "RoomsMsg list \<Rightarrow> Rooms \<Rightarrow> Known \<Rightarrow> bool" where
  "msgs_fit [] rs tbl \<longleftrightarrow> True"
| "msgs_fit (msg # msgs) rs tbl \<longleftrightarrow>
     msg_fits rs tbl msg \<and> msgs_fit msgs (snd (rooms_update msg rs)) (known_msg msg tbl)"

lemma rooms_ok_channel: "rooms_ok (snd (rooms_channel channel rs)) []"
proof -
  have "rs_peers (snd (rooms_channel channel rs)) = ui_peers_default" "rs_rooms (snd (rooms_channel channel rs)) = []"
    by (simp_all add: rooms_channel_def Let_def rooms_send_def)
  moreover have "peers_apart ui_peers_default"
    by (simp add: peers_apart_def ui_peers_ok_def ui_peers_default_def hm_wf_def hm_get_def)
  ultimately show ?thesis by (simp add: rooms_ok_def room_of_def hm_wf_def hm_get_def)
qed

lemma rooms_ok_key:
  assumes "rooms_ok rs tbl" "msg_fits rs tbl (RM_ConfigUpdate (UPublicKey k))"
  shows "rooms_ok (rs\<lparr>rs_peers := (rs_peers rs)\<lparr>ups_public_key := k\<rparr>\<rparr>) tbl"
proof (cases "k = ups_public_key (rs_peers rs)")
  case True
  with assms(1) show ?thesis by (simp add: rooms_ok_def)
next
  case False
  note ok = rooms_okD [OF assms(1)]
  let ?ps = "(rs_peers rs)\<lparr>ups_public_key := k\<rparr>"
  have k: "hm_get (ups_public_keys (rs_peers rs)) k = None" "\<not> owns_room tbl"
    using assms(2) False by (simp_all add: msg_fits_def)
  have known: "peer_known ?ps i = peer_known (rs_peers rs) i" for i by (simp add: peer_known_def)
  have "room_from_remote (ui_to_stable_id i ?ps) object = room_from_remote (ui_to_stable_id i (rs_peers rs)) object"
    if "hm_get tbl i = Some object" for i object
  proof (cases "rid_is_local i")
    case True
    with k(2) hm_get_mem [OF that] have "ro_ty object \<noteq> TYPE_ROOM" by (auto simp: owns_room_def list_ex_iff)
    then show ?thesis by (simp add: room_from_remote_def)
  qed (simp add: ui_to_stable_id_def)
  then have "room_of ?ps tbl r = room_of (rs_peers rs) tbl r" for r unfolding room_of_def by metis
  moreover have "peers_apart ?ps"
    using ok(1) k(1) by (simp add: peers_apart_def ui_peers_ok_def)
  ultimately show ?thesis using ok by (simp add: rooms_ok_def known)
qed

lemma rooms_ok_msg:
  assumes "rooms_ok rs tbl" "msg_fits rs tbl msg"
  shows "rooms_ok (snd (rooms_update msg rs)) (known_msg msg tbl)"
proof (cases msg)
  case (RM_RemoteUpdate body)
  with assms rooms_ok_step show ?thesis by (simp add: msg_fits_def known_msg_def rooms_update_def)
next
  case (RM_Channel channel)
  with rooms_ok_channel show ?thesis by (simp add: known_msg_def rooms_update_def)
next
  case (RM_Initialized body)
  with assms(2) rooms_ok_initialized show ?thesis by (simp add: msg_fits_def known_msg_def rooms_update_def)
next
  case (RM_ConfigUpdate body)
  have "rooms_ok (snd (rooms_config_update body rs)) tbl"
  proof (cases body)
    case (UPublicKey k)
    with rooms_ok_key [OF assms(1)] assms(2) RM_ConfigUpdate show ?thesis by (simp add: rooms_config_update_def)
  qed (use assms(1) in \<open>simp add: rooms_config_update_def rooms_ok_def\<close>)
  with RM_ConfigUpdate show ?thesis by (simp add: known_msg_def rooms_update_def)
qed (use assms in \<open>auto simp: known_msg_def rooms_update_def rooms_send_def rooms_ok_def\<close>)

lemma rooms_ok_msgs:
  "rooms_ok rs tbl \<Longrightarrow> msgs_fit msgs rs tbl \<Longrightarrow>
     rooms_ok (fold (\<lambda>msg rs. snd (rooms_update msg rs)) msgs rs) (fold known_msg msgs tbl)"
  by (induction msgs arbitrary: rs tbl) (auto simp: rooms_ok_msg)

text \<open>
  C4. A window that was initialized, and then handles messages of the user, news, new connections
  and further answers in any order, shows exactly the rooms of the objects it was told of and has
  not struck out, its own and those of every connected peer, each once under its stable identifier,
  ordered by name and identifier. The news are those of a backend on one connection to the server:
  an object is created once, under a connected peer, a peer connects once and with a key of its
  own, and changes come from other windows. The loss of the server strikes out the objects of this
  user (C34). The own key changes only while the user has no rooms; otherwise they keep the old one
  (\<open>own_rooms_are_orphaned\<close>).
\<close>

theorem rooms_follow:
  assumes "response_fits body"
    and "start = snd (rooms_update (RM_Initialized body) rs)" "msgs_fit msgs start (known_of body)"
    and "now = fold (\<lambda>msg rs. snd (rooms_update msg rs)) msgs start"
  shows "rs_rooms now = rooms_view (rs_peers now) (fold known_msg msgs (known_of body)) \<and>
    distinct (map room_id (rs_rooms now))"
proof -
  have "rooms_ok start (known_of body)"
    using rooms_ok_initialized [OF assms(1)] by (simp add: assms(2) rooms_update_def)
  from rooms_ok_msgs [OF this assms(3)] have "rooms_ok now (fold known_msg msgs (known_of body))"
    by (simp add: assms(4))
  from rooms_ok_view [OF this] rooms_okD(4) [OF this] show ?thesis by blast
qed

definition room_object :: "u32 \<Rightarrow> string \<Rightarrow> RemoteObject" where
  "room_object i name =
     \<lparr>ro_ty = TYPE_ROOM, ro_id = Id_new i, ro_props = props_put KEY_NAME (VString name) props_new\<rparr>"

definition example_rooms :: InitializeRoomsResponse where
  "example_rooms =
     \<lparr>irr_public_key = PublicKey_new (replicate 32 1), irr_props = [], irr_local = [room_object 5 ''Hall''],
      irr_peers = [example_peer 2 7], irr_peer_objects = [(PeerId_new 2, room_object 5 ''Attic'')]\<rparr>"

definition example_news :: "RoomsMsg list" where
  "example_news =
     [RM_RemoteUpdate (RPeerConnected (example_peer 3 8)),
      RM_RemoteUpdate (RObjectCreated 0 (RemoteId_new (PeerId_new 3) (Id_new 1)) (room_object 1 ''Cave'')),
      RM_Connect (StableId_new (PublicKey_new (replicate 32 8)) (Id_new 1)),
      RM_RemoteUpdate (RObjectUpdated 4 (rid_local (Id_new 5)) KEY_NAME (VString ''Zoo'')),
      RM_RemoteUpdate (RPeerDisconnect (PeerId_new 2)), RM_RemoteUpdate RRemoteLost,
      RM_ConfigUpdate (UPublicKey (PublicKey_new (replicate 32 9)))]"

theorem rooms_follow_witness:
  "map room_name (rs_rooms (fold (\<lambda>msg rs. snd (rooms_update msg rs)) example_news
     (snd (rooms_update (RM_Initialized example_rooms) rooms_new)))) = [''Cave'']"
proof -
  let ?start = "snd (rooms_update (RM_Initialized example_rooms) rooms_new)"
  let ?now = "fold (\<lambda>msg rs. snd (rooms_update msg rs)) example_news ?start"
  have fits: "response_fits example_rooms" by code_simp
  have "msgs_fit example_news ?start (known_of example_rooms)" by code_simp
  from rooms_follow [OF fits refl this refl]
  have "rs_rooms ?now = rooms_view (rs_peers ?now) (fold known_msg example_news (known_of example_rooms))"
    by blast
  moreover have "map room_name (rooms_view (rs_peers ?now)
      (fold known_msg example_news (known_of example_rooms))) = [''Cave'']"
    by code_simp
  ultimately show ?thesis by metis
qed

text \<open>The answer of the backend fits, when its peers have identifiers and keys of their own.\<close>

definition peers_distinct :: "Crypto \<Rightarrow> Backend \<Rightarrow> bool" where
  "peers_distinct cr b \<longleftrightarrow>
     hm_wf (bk_peers b) \<and>
     distinct (keypair_public_key cr (bk_keypair b) # map (\<lambda>(_, peer). pi_public_key peer) (bk_peers b)) \<and>
     list_all (\<lambda>(p, peer). \<not> pid_is_zero p \<and> hm_wf (pi_objects peer) \<and>
       list_all (\<lambda>(i, object). ro_id object = i) (pi_objects peer)) (bk_peers b)"

lemma distinct_filtered: "distinct (map f xs) \<Longrightarrow> distinct (map f (filter p xs))"
  by (induction xs) auto

lemma peer_objects_distinct:
  assumes "distinct (map fst peers)"
    and "list_all (\<lambda>(p, peer). hm_wf (pi_objects peer) \<and>
      list_all (\<lambda>(i, object). ro_id object = i) (pi_objects peer)) peers"
  shows "distinct (map (\<lambda>(p, object). RemoteId_new p (ro_id object))
    (concat (map (\<lambda>(p, peer). map (Pair p) (filter q (hm_values (pi_objects peer)))) peers)))"
  using assms
proof (induction peers)
  case (Cons x peers)
  obtain p peer where x: "x = (p, peer)" by (cases x)
  have "map ro_id (hm_values (pi_objects peer)) = hm_keys (pi_objects peer)"
    using Cons.prems(2) by (auto simp: x hm_values_def hm_keys_def list_all_iff)
  then have "distinct (map ro_id (filter q (hm_values (pi_objects peer))))"
    using Cons.prems(2) by (intro distinct_filtered) (simp add: x hm_wf_def hm_keys_def)
  then have "distinct (map (\<lambda>object. RemoteId_new p (ro_id object)) (filter q (hm_values (pi_objects peer))))"
    by (simp add: distinct_map inj_on_def)
  moreover have "p \<notin> fst ` set peers" using Cons.prems(1) by (simp add: x)
  moreover note Cons.IH
  ultimately show ?case using Cons.prems
    by (simp add: x comp_def) (force simp: image_iff)
qed simp

lemma initialize_rooms_fits:
  assumes "hm_wf (bk_objects b)" "peers_distinct cr b"
  shows "response_fits (initialize_rooms cr b)"
proof -
  let ?body = "initialize_rooms cr b"
  note p = assms(2) [unfolded peers_distinct_def]
  have "distinct (map fst (filter (\<lambda>(i, object). lo_ty object = TYPE_ROOM) (bk_objects b)))"
    by (rule distinct_filtered) (use assms(1) in \<open>simp add: hm_wf_def\<close>)
  then have l: "distinct (map (\<lambda>object. rid_local (ro_id object)) (irr_local ?body))"
    by (auto simp: initialize_rooms_def remote_object_def comp_def case_prod_unfold distinct_map
        inj_on_def rid_local_def)
  have r: "distinct (map (\<lambda>(p, object). RemoteId_new p (ro_id object)) (irr_peer_objects ?body))"
    using peer_objects_distinct [of "bk_peers b"] p
    by (simp add: initialize_rooms_def hm_wf_def list_all_iff case_prod_unfold)
  have peers: "map rp_id (irr_peers ?body) = hm_keys (bk_peers b)"
    "map rp_public_key (irr_peers ?body) = map (\<lambda>(_, peer). pi_public_key peer) (bk_peers b)"
    "irr_public_key ?body = keypair_public_key cr (bk_keypair b)"
    by (simp_all add: initialize_rooms_def remote_peer_def hm_keys_def case_prod_unfold)
  have known: "fst po \<in> set (hm_keys (bk_peers b))" if "po \<in> set (irr_peer_objects ?body)" for po
    using that by (auto simp: initialize_rooms_def hm_keys_def image_iff) force
  have nonzero: "PeerId_new 0 \<notin> set (hm_keys (bk_peers b))"
    using p by (force simp: hm_keys_def list_all_iff pid_is_zero_def)
  have "hm_wf (known_of ?body)"
    using l r nonzero
    by (auto simp: known_of_def hm_wf_def comp_def case_prod_unfold rid_local_def PeerId_ZERO_def
        dest: known)
  then show ?thesis
    unfolding response_fits_def peers using p known
    by (simp add: hm_wf_def hm_keys_def list_all_iff case_prod_unfold)
qed

subsection \<open>Where the list goes wrong\<close>

text \<open>
  C34. When the connection to the server is lost, the list drops the rooms of this user, who still
  has them, and keeps those of the peers that are gone.
\<close>

theorem remote_lost_keeps_foreign:
  assumes "rooms_ok rs tbl"
  shows "r \<in> set (rs_rooms (snd (rooms_update (RM_RemoteUpdate RRemoteLost) rs))) \<longleftrightarrow>
    (\<exists>i object. hm_get tbl i = Some object \<and> \<not> rid_is_local i \<and>
       room_from_remote (ui_to_stable_id i (rs_peers rs)) object = Some r)"
proof -
  note ok = rooms_okD [OF assms]
  have own: "hm_get (ups_public_keys (rs_peers rs)) (ups_public_key (rs_peers rs)) = None"
    using ok(1) by (simp add: peers_apart_def)
  have "sid_public_key (ui_to_stable_id i (rs_peers rs)) = ups_public_key (rs_peers rs) \<longleftrightarrow> rid_is_local i"
    if "hm_get tbl i = Some object" for i object
    using stable_known [OF ok(1) ok(5) [OF that]] own by (auto split: if_splits)
  then show ?thesis
    by (auto simp: rooms_update_def rooms_remote_update_def ok(6) room_of_def dest: from_remote_id)
      (metis from_remote_id)+
qed

theorem remote_lost_keeps_foreign_witness:
  "Room (StableId_new (PublicKey_new (replicate 32 7)) (Id_new 5)) ''Attic'' \<in>
     set (rs_rooms (snd (rooms_update (RM_RemoteUpdate RRemoteLost)
       (snd (rooms_initialized example_rooms rooms_new)))))"
proof -
  let ?rs = "snd (rooms_initialized example_rooms rooms_new)" and ?i = "RemoteId_new (PeerId_new 2) (Id_new 5)"
  have "response_fits example_rooms" by code_simp
  note lost = remote_lost_keeps_foreign [OF rooms_ok_initialized [OF this]]
  have "hm_get (known_of example_rooms) ?i = Some (room_object 5 ''Attic'')" "\<not> rid_is_local ?i"
    "room_from_remote (ui_to_stable_id ?i (rs_peers ?rs)) (room_object 5 ''Attic'') =
       Some (Room (StableId_new (PublicKey_new (replicate 32 7)) (Id_new 5)) ''Attic'')"
    by code_simp+
  then show ?thesis unfolding lost by blast
qed

text \<open>
  After a change of the secret the rooms of this user keep the old key: they are displayed as those
  of somebody unknown, and neither a new name nor their removal reaches the list.
\<close>

lemma own_rooms_are_orphaned:
  assumes "\<forall>r\<in>set (rs_rooms rs). sid_public_key (room_id r) \<noteq> k" "rid_is_local i"
    and "rs1 = snd (rooms_update (RM_ConfigUpdate (UPublicKey k)) rs)" "r \<in> set (rs_rooms rs)"
  shows "r \<in> set (rs_rooms rs1) \<and> \<not> rv_local (view_room enc rs1 r) \<and>
    rs_rooms (snd (rooms_update (RM_RemoteUpdate (RObjectRemoved channel i)) rs1)) = rs_rooms rs1 \<and>
    rs_rooms (snd (rooms_update (RM_RemoteUpdate (RObjectUpdated channel i key v)) rs1)) = rs_rooms rs1"
proof -
  have rs1: "rs_rooms rs1 = rs_rooms rs" "ups_public_key (rs_peers rs1) = k"
    by (simp_all add: assms(3) rooms_update_def rooms_config_update_def)
  have id: "room_id q \<noteq> ui_to_stable_id i (rs_peers rs1)" if "q \<in> set (rs_rooms rs)" for q
    using assms(1,2) that rs1(2) by (auto simp: ui_to_stable_id_def)
  then have "find (\<lambda>r. room_id r = ui_to_stable_id i (rs_peers rs1)) (rs_rooms rs) = None"
    by (simp add: find_None_iff)
  with id show ?thesis using assms(1,4) rs1
    by (auto simp: view_room_def Let_def rooms_update_def rooms_remote_update_def
        rooms_object_updated_def filter_id_conv)
qed

text \<open>The buttons of a room of this user act on the object of that room.\<close>

lemma settings_open_own:
  "rv_settings (view_room enc rs room) = Some i \<Longrightarrow>
     rid_is_local i \<and> ui_to_stable_id i (rs_peers rs) = room_id room"
  by (auto simp: view_room_def Let_def ui_to_remote_id_def ui_to_stable_id_def rid_local_def
      rid_is_local_def pid_is_zero_def PeerId_ZERO_def split: if_splits intro: StableId.expand)

end
