(* ===== verification/UiForms.thy ===== *)
theory UiForms
  imports UiRooms WebSync
begin

section \<open>Forms and panels: \<^verbatim>\<open>crates/web/src/components\<close>\<close>

text \<open>
  The settings, the panels of the Mumble link and of the server, the settings of an object, the
  choice and the upload of images. A message that carries an event of the browser carries the text
  or state of its input here. A handler gives whether to render again and the state; an error is
  logged and renders again or not. Requests are collected; what is drawn and the fields of numbers
  of an object, which need floating-point arithmetic, are left out.
\<close>

subsection \<open>Text\<close>

text \<open>\<open>str::trim\<close>: white space of Unicode in UTF-8.\<close>

definition white_space :: "string list" where
  "white_space =
     map (\<lambda>n. [char_of (n :: nat)]) [9, 10, 11, 12, 13, 32] @
     map (map (char_of :: nat \<Rightarrow> char)) ([[0xC2, 0x85], [0xC2, 0xA0], [0xE1, 0x9A, 0x80]] @
       map (\<lambda>n. [0xE2, 0x80, n]) ([0x80 ..< 0x8B] @ [0xA8, 0xA9, 0xAF]) @
       [[0xE2, 0x81, 0x9F], [0xE3, 0x80, 0x80]])"

definition strip_one :: "string list \<Rightarrow> string \<Rightarrow> string option" where
  "strip_one ws s =
     map_option (\<lambda>w. drop (length w) s) (find (\<lambda>w. w \<noteq> [] \<and> take (length w) s = w) ws)"

lemma strip_one_shorter: "strip_one ws s = Some t \<Longrightarrow> length t < length s"
  by (auto simp: strip_one_def find_Some_iff) (metis diff_less length_greater_0_conv take_Nil)

function strip_all :: "string list \<Rightarrow> string \<Rightarrow> string" where
  "strip_all ws s = (case strip_one ws s of None \<Rightarrow> s | Some t \<Rightarrow> strip_all ws t)"
  by pat_completeness auto
termination by (relation "measure (length \<circ> snd)") (auto simp: strip_one_shorter)

declare strip_all.simps [simp del]

definition trim :: "string \<Rightarrow> string" where
  "trim s = rev (strip_all (map rev white_space) (rev (strip_all white_space s)))"

subsection \<open>Requests\<close>

definition channel_updates :: "ChannelId \<Rightarrow> (Key \<times> Value) list \<Rightarrow> Request list" where
  "channel_updates channel kvs =
     (if channel = CHANNEL_NONE then []
      else if length kvs > 1 then [Updates kvs]
      else case kvs of [] \<Rightarrow> [] | kv # _ \<Rightarrow> [Updates [kv]])"

definition channel_object_updates :: "ChannelId \<Rightarrow> Id \<Rightarrow> (Key \<times> Value) list \<Rightarrow> Request list" where
  "channel_object_updates channel i kvs =
     (if channel = CHANNEL_NONE then []
      else if length kvs > 1 then [ObjectUpdate i kvs]
      else case kvs of [] \<Rightarrow> [] | kv # _ \<Rightarrow> [ObjectUpdate i [kv]])"

lemma channel_updates_one [simp]:
  "channel_updates c [kv] = (if c = CHANNEL_NONE then [] else [Updates [kv]])"
  "channel_object_updates c i [kv] = (if c = CHANNEL_NONE then [] else [ObjectUpdate i [kv]])"
  by (simp_all add: channel_updates_def channel_object_updates_def)

subsection \<open>Settings: \<^verbatim>\<open>settings.rs\<close>\<close>

record Settings =
  se_channel :: ChannelId
  se_name :: string
  se_peer_secret :: string
  se_remote_server :: string
  se_remote_server_tls :: bool
  se_sent :: "Request list"

datatype SettingsMsg =
    SM_Channel ChannelId | SM_NameChanged string | SM_PeerSecretChanged string
  | SM_ServerChanged string | SM_TlsToggled bool | SM_UpdateConfig | SM_GetConfig Properties
  | SM_ConfigUpdate UpdateBody

definition settings_new :: Settings where
  "settings_new =
     \<lparr>se_channel = CHANNEL_NONE, se_name = [], se_peer_secret = [], se_remote_server = [],
      se_remote_server_tls = False, se_sent = []\<rparr>"

definition settings_send :: "Request list \<Rightarrow> Settings \<Rightarrow> Settings" where
  "settings_send rs s = s\<lparr>se_sent := se_sent s @ rs\<rparr>"

definition settings_update_config :: "Key \<Rightarrow> Value \<Rightarrow> Settings \<Rightarrow> bool \<times> Settings" where
  "settings_update_config key v s =
     (if key = KEY_PEER_NAME then
        (case state_update (=) (as_str v) (se_name s) of (b, x) \<Rightarrow> (b, s\<lparr>se_name := x\<rparr>))
      else if key = KEY_PEER_SECRET then
        (case state_update (=) (as_str v) (se_peer_secret s) of (b, x) \<Rightarrow> (b, s\<lparr>se_peer_secret := x\<rparr>))
      else if key = KEY_REMOTE_SERVER then
        (case state_update (=) (as_str v) (se_remote_server s) of (b, x) \<Rightarrow> (b, s\<lparr>se_remote_server := x\<rparr>))
      else if key = KEY_REMOTE_TLS then
        (case state_update (=) (as_bool v) (se_remote_server_tls s) of
           (b, x) \<Rightarrow> (b, s\<lparr>se_remote_server_tls := x\<rparr>))
      else (False, s))"

definition settings_update :: "SettingsMsg \<Rightarrow> Settings \<Rightarrow> bool \<times> Settings" where
  "settings_update msg s =
     (case msg of
        SM_Channel channel \<Rightarrow>
          (let s = s\<lparr>se_channel := channel\<rparr>
           in if channel = CHANNEL_NONE then (True, s) else (True, settings_send [GetConfig] s))
      | SM_NameChanged value \<Rightarrow>
          (case update_str (trim value) (se_name s) of
             (False, _) \<Rightarrow> (False, s)
           | (True, x) \<Rightarrow>
               (let s = s\<lparr>se_name := x\<rparr>
                in if se_channel s = CHANNEL_NONE then (False, s)
                   else (False, settings_send
                     (channel_updates (se_channel s) [(KEY_PEER_NAME, VString (se_name s))]) s)))
      | SM_PeerSecretChanged value \<Rightarrow>
          (case update_str (trim value) (se_peer_secret s) of
             (False, _) \<Rightarrow> (False, s)
           | (True, x) \<Rightarrow>
               (let s = s\<lparr>se_peer_secret := x\<rparr>
                in if se_channel s = CHANNEL_NONE then (False, s)
                   else (False, settings_send
                     (channel_updates (se_channel s) [(KEY_PEER_SECRET, VString (se_peer_secret s))]) s)))
      | SM_ServerChanged value \<Rightarrow>
          (case update_str (trim value) (se_remote_server s) of
             (False, _) \<Rightarrow> (False, s)
           | (True, x) \<Rightarrow>
               (let s = s\<lparr>se_remote_server := x\<rparr>
                in if se_channel s = CHANNEL_NONE then (False, s)
                   else (False, settings_send
                     (channel_updates (se_channel s) [(KEY_REMOTE_SERVER, VString (se_remote_server s))]) s)))
      | SM_TlsToggled checked \<Rightarrow>
          (let s = s\<lparr>se_remote_server_tls := checked\<rparr>
           in if se_channel s = CHANNEL_NONE then (False, s)
              else (False, settings_send
                (channel_updates (se_channel s) [(KEY_REMOTE_TLS, VBoolean (se_remote_server_tls s))]) s))
      | SM_UpdateConfig \<Rightarrow> (True, s)
      | SM_GetConfig body \<Rightarrow>
          fold (\<lambda>(key, v) (changed, s).
              case settings_update_config key v s of (b, s) \<Rightarrow> (changed \<or> b, s)) body (False, s)
      | SM_ConfigUpdate body \<Rightarrow>
          (case body of
             UConfig _ key v \<Rightarrow> settings_update_config key v s
           | _ \<Rightarrow> (False, s)))"

subsection \<open>Panels: \<^verbatim>\<open>mumble_status.rs\<close> and \<^verbatim>\<open>remote_status.rs\<close>\<close>

record Status =
  st_channel :: ChannelId
  st_enabled :: bool
  st_sent :: "Request list"

datatype StatusMsg =
    PM_Channel ChannelId | PM_Restart | PM_RestartResponse | PM_Toggle | PM_UpdatesResult
  | PM_GetConfig Properties | PM_ConfigUpdate UpdateBody

definition mumble_status_new :: Status where
  "mumble_status_new = \<lparr>st_channel = CHANNEL_NONE, st_enabled = False, st_sent = []\<rparr>"

definition remote_status_new :: Status where
  "remote_status_new = \<lparr>st_channel = CHANNEL_NONE, st_enabled = True, st_sent = []\<rparr>"

definition status_send :: "Request list \<Rightarrow> Status \<Rightarrow> Status" where
  "status_send rs s = s\<lparr>st_sent := st_sent s @ rs\<rparr>"

definition status_update_config :: "Key \<Rightarrow> Key \<Rightarrow> Value \<Rightarrow> Status \<Rightarrow> bool \<times> Status" where
  "status_update_config own key v s =
     (if key = own then
        (case state_update (=) (as_bool v) (st_enabled s) of (b, x) \<Rightarrow> (b, s\<lparr>st_enabled := x\<rparr>))
      else (False, s))"

definition status_get_config :: "Key \<Rightarrow> Properties \<Rightarrow> Status \<Rightarrow> bool \<times> Status" where
  "status_get_config own body s =
     fold (\<lambda>(key, v) (changed, s).
         case status_update_config own key v s of (b, s) \<Rightarrow> (changed \<or> b, s)) body (False, s)"

definition mumble_status_update :: "StatusMsg \<Rightarrow> Status \<Rightarrow> bool \<times> Status" where
  "mumble_status_update msg s =
     (case msg of
        PM_Restart \<Rightarrow>
          if st_channel s = CHANNEL_NONE then (False, s) else (False, status_send [MumbleRestart] s)
      | PM_Toggle \<Rightarrow>
          if st_channel s = CHANNEL_NONE then (False, s)
          else
            (let new_enabled = \<not> st_enabled s
             in (True, status_send
                  (channel_updates (st_channel s) [(KEY_MUMBLE_ENABLED, VBoolean new_enabled)])
                  (s\<lparr>st_enabled := new_enabled\<rparr>)))
      | PM_Channel channel \<Rightarrow>
          (let s = s\<lparr>st_channel := channel\<rparr>
           in if channel = CHANNEL_NONE then (True, s) else (True, status_send [GetConfig] s))
      | PM_GetConfig body \<Rightarrow> status_get_config KEY_MUMBLE_ENABLED body s
      | PM_ConfigUpdate (UConfig _ key v) \<Rightarrow> status_update_config KEY_MUMBLE_ENABLED key v s
      | _ \<Rightarrow> (False, s))"

text \<open>A restart of the server is requested also without a connection.\<close>

definition remote_status_update :: "StatusMsg \<Rightarrow> Status \<Rightarrow> bool \<times> Status" where
  "remote_status_update msg s =
     (case msg of
        PM_Restart \<Rightarrow> (False, status_send [RemoteRestart] s)
      | PM_Toggle \<Rightarrow>
          (let new_enabled = \<not> st_enabled s
           in (True, status_send
                (channel_updates (st_channel s) [(KEY_REMOTE_ENABLED, VBoolean new_enabled)])
                (s\<lparr>st_enabled := new_enabled\<rparr>)))
      | PM_Channel channel \<Rightarrow>
          (let s = s\<lparr>st_channel := channel\<rparr>
           in if channel = CHANNEL_NONE then (True, s) else (True, status_send [GetConfig] s))
      | PM_GetConfig body \<Rightarrow> status_get_config KEY_REMOTE_ENABLED body s
      | PM_ConfigUpdate (UConfig _ key v) \<Rightarrow> status_update_config KEY_REMOTE_ENABLED key v s
      | _ \<Rightarrow> (False, s))"

subsection \<open>Settings of an object: \<^verbatim>\<open>object_settings.rs\<close>\<close>

datatype ExtentAxis = StartX | EndX | StartZ | EndZ

fun axis_get :: "ExtentAxis \<Rightarrow> Extent \<Rightarrow> f32" where
  "axis_get StartX e = span_start (ext_x e)"
| "axis_get EndX e = span_end (ext_x e)"
| "axis_get StartZ e = span_start (ext_z e)"
| "axis_get EndZ e = span_end (ext_z e)"

fun axis_put :: "ExtentAxis \<Rightarrow> f32 \<Rightarrow> Extent \<Rightarrow> Extent" where
  "axis_put StartX v e = e\<lparr>ext_x := (ext_x e)\<lparr>span_start := v\<rparr>\<rparr>"
| "axis_put EndX v e = e\<lparr>ext_x := (ext_x e)\<lparr>span_end := v\<rparr>\<rparr>"
| "axis_put StartZ v e = e\<lparr>ext_z := (ext_z e)\<lparr>span_start := v\<rparr>\<rparr>"
| "axis_put EndZ v e = e\<lparr>ext_z := (ext_z e)\<lparr>span_end := v\<rparr>\<rparr>"

text \<open>\<open>parse::<i32>\<close> and \<open>as f32\<close>, which rounds to the nearest number, to the even one of two.\<close>

definition parse_i32 :: "string \<Rightarrow> int option" where
  "parse_i32 s =
     (let (negative, digits) =
        (case s of c # cs \<Rightarrow> if c = CHR ''-'' then (True, cs) else if c = CHR ''+'' then (False, cs)
                   else (False, s) | [] \<Rightarrow> (False, []));
          ds = map (\<lambda>c. int (of_char c) - 48) digits;
          n = fold (\<lambda>d n. 10 * n + d) ds 0;
          n = (if negative then - n else n)
      in if digits = [] \<or> list_ex (\<lambda>d. d < 0 \<or> 9 < d) ds \<or> n < - (2 ^ 31) \<or> 2 ^ 31 \<le> n then None
         else Some n)"

definition f32_of_int :: "int \<Rightarrow> f32" where
  "f32_of_int n =
     (let m = nat \<bar>n\<bar>; b = nbits m;
          bits = (if m = 0 then 0
                  else if b \<le> 24 then (126 + b) * 2 ^ 23 + (m * 2 ^ (24 - b) - 2 ^ 23)
                  else (126 + b) * 2 ^ 23 + (round_half_even m (b - 24) - 2 ^ 23))
      in of_nat ((if n < 0 then 2 ^ 31 else 0) + bits))"

record ObjectSettings =
  ose_channel :: ChannelId
  ose_properties :: Properties
  ose_requests :: "Key list"
  ose_images :: "RemoteId list"
  ose_sent :: "Request list"

datatype ObjectSettingsMsg =
    OM_Error | OM_Channel ChannelId | OM_GetObjectSettings RemoteObject
  | OM_RemoteIdChanged Key RemoteId | OM_ImageChanged Key RemoteId | OM_StringChanged Key string
  | OM_BooleanChanged Key bool | OM_ExtentChanged Key ExtentAxis string | OM_ColorChanged Key string
  | OM_RemoteUpdate RemoteUpdateBody | OM_ObjectUpdate | OM_ImageLoaded

definition osettings_new :: ObjectSettings where
  "osettings_new =
     \<lparr>ose_channel = CHANNEL_NONE, ose_properties = props_new, ose_requests = [], ose_images = [],
      ose_sent = []\<rparr>"

definition form_image_load :: "RemoteId \<Rightarrow> RemoteId list \<Rightarrow> RemoteId list" where
  "form_image_load i images = (if rid_is_zero i then images else hs_insert i images)"

definition form_image_remove :: "RemoteId \<Rightarrow> RemoteId list \<Rightarrow> RemoteId list" where
  "form_image_remove i images = (if rid_is_zero i then images else hs_remove i images)"

definition osettings_send :: "RemoteId \<Rightarrow> Key \<Rightarrow> Value \<Rightarrow> ObjectSettings \<Rightarrow> ObjectSettings" where
  "osettings_send i key v s =
     s\<lparr>ose_requests := hs_insert key (ose_requests s),
       ose_sent := ose_sent s @ channel_object_updates (ose_channel s) (rid_id i) [(key, v)]\<rparr>"

text \<open>The handlers that change one property, send it and render again, if it changed.\<close>

definition osettings_change :: "RemoteId \<Rightarrow> Key \<Rightarrow> Value \<Rightarrow> ObjectSettings \<Rightarrow> bool \<times> ObjectSettings" where
  "osettings_change i key v s =
     (case props_update key v (ose_properties s) of
        (False, _) \<Rightarrow> (False, s)
      | (True, ps) \<Rightarrow> (True, osettings_send i key v (s\<lparr>ose_properties := ps\<rparr>)))"

definition osettings_image_changed :: "RemoteId \<Rightarrow> Key \<Rightarrow> RemoteId \<Rightarrow> ObjectSettings \<Rightarrow> bool \<times> ObjectSettings" where
  "osettings_image_changed i key new s =
     (case props_insert key (value_from_id (rid_id new)) (ose_properties s) of
        (v, ps) \<Rightarrow>
          (let old = as_id v;
               s = s\<lparr>ose_properties := ps\<rparr>
           in if old \<noteq> rid_id new then (False, s)
              else
                (let s = s\<lparr>ose_images := form_image_load new (form_image_remove (rid_local old) (ose_images s))\<rparr>
                 in (True, osettings_send i key (value_from_id (rid_id new)) s))))"

definition osettings_extent_changed ::
    "RemoteId \<Rightarrow> Key \<Rightarrow> ExtentAxis \<Rightarrow> string \<Rightarrow> ObjectSettings \<Rightarrow> bool \<times> ObjectSettings" where
  "osettings_extent_changed i key axis text s =
     (case parse_i32 text of
        None \<Rightarrow> (True, s)
      | Some n \<Rightarrow>
          (let v = f32_of_int n;
               ps = props_modify key (modify_extent id) (ose_properties s);
               extent = unwrap_or extent_arena (as_extent (props_get ps key));
               s = s\<lparr>ose_properties := ps\<rparr>
           in if f32_eq (axis_get axis extent) v then (False, s)
              else
                (let extent = axis_put axis v extent
                 in (True, osettings_send i key (VExtent extent)
                      (s\<lparr>ose_properties := props_modify key (modify_extent (\<lambda>_. extent)) ps\<rparr>)))))"

definition update_property :: "Key \<Rightarrow> Value \<Rightarrow> ObjectSettings \<Rightarrow> bool \<times> ObjectSettings" where
  "update_property key v s =
     (if key = KEY_IMAGE_ID then
        (let new = rid_local (as_id v);
             (old, ps) = props_insert key v (ose_properties s);
             old = rid_local (as_id old);
             s = s\<lparr>ose_properties := ps\<rparr>
         in if new \<noteq> old
            then (True, s\<lparr>ose_images := form_image_remove old (form_image_load new (ose_images s))\<rparr>)
            else (False, s))
      else (True, s\<lparr>ose_properties := snd (props_insert key v (ose_properties s))\<rparr>))"

definition osettings_update :: "RemoteId \<Rightarrow> ObjectSettingsMsg \<Rightarrow> ObjectSettings \<Rightarrow> bool \<times> ObjectSettings" where
  "osettings_update i msg s =
     (case msg of
        OM_Error \<Rightarrow> (True, s)
      | OM_Channel channel \<Rightarrow>
          (let s = s\<lparr>ose_channel := channel\<rparr>
           in if channel = CHANNEL_NONE then (True, s)
              else (True, s\<lparr>ose_sent := ose_sent s @ [GetObjectSettings (rid_id i)]\<rparr>))
      | OM_GetObjectSettings object \<Rightarrow>
          fold (\<lambda>(key, v) (update, s). case update_property key v s of (b, s) \<Rightarrow> (update \<or> b, s))
            (ro_props object) (False, s)
      | OM_RemoteIdChanged key j \<Rightarrow> osettings_change i key (value_from_id (rid_id j)) s
      | OM_ImageChanged key j \<Rightarrow> osettings_image_changed i key j s
      | OM_StringChanged key value \<Rightarrow> osettings_change i key (VString value) s
      | OM_BooleanChanged key value \<Rightarrow> osettings_change i key (VBoolean value) s
      | OM_ExtentChanged key axis value \<Rightarrow> osettings_extent_changed i key axis value s
      | OM_ColorChanged key value \<Rightarrow>
          (case color_from_hex value of
             None \<Rightarrow> (False, s) | Some c \<Rightarrow> osettings_change i key (VColor c) s)
      | OM_RemoteUpdate body \<Rightarrow>
          (case body of
             RObjectUpdated _ j key v \<Rightarrow> if j \<noteq> i then (False, s) else update_property key v s
           | _ \<Rightarrow> (False, s))
      | OM_ObjectUpdate \<Rightarrow> (False, s)
      | OM_ImageLoaded \<Rightarrow> (False, s))"

subsection \<open>Choosing and uploading images: \<^verbatim>\<open>image_gallery.rs\<close> and \<^verbatim>\<open>image_upload.rs\<close>\<close>

abbreviation ROLE_NONE :: Role where "ROLE_NONE \<equiv> Role_new 0"

record Gallery =
  ga_channel :: ChannelId
  ga_filter :: Role
  ga_images :: "Image list"
  ga_sent :: "Request list"

datatype GalleryMsg =
    GM_Channel ChannelId | GM_Select RemoteId | GM_Role Role | GM_Log | GM_Initialize "Image list"
  | GM_RemoteUpdate RemoteUpdateBody

definition gallery_new :: "Role \<Rightarrow> Gallery" where
  "gallery_new role = \<lparr>ga_channel = CHANNEL_NONE, ga_filter = role, ga_images = [], ga_sent = []\<rparr>"

definition gallery_initialize :: "Image list \<Rightarrow> Gallery \<Rightarrow> Gallery" where
  "gallery_initialize images g =
     g\<lparr>ga_images := filter (\<lambda>img. ga_filter g = ROLE_NONE \<or> img_role img = ga_filter g) images\<rparr>"

definition gallery_remote_update :: "RemoteUpdateBody \<Rightarrow> Gallery \<Rightarrow> bool \<times> Gallery" where
  "gallery_remote_update body g =
     (case body of
        RImageCreated img \<Rightarrow> (True, g\<lparr>ga_images := ga_images g @ [img]\<rparr>)
      | RImageRemoved i \<Rightarrow> (True, g\<lparr>ga_images := filter (\<lambda>img. img_id img \<noteq> i) (ga_images g)\<rparr>)
      | _ \<Rightarrow> (False, g))"

text \<open>The callbacks of the properties are the calls they emit.\<close>

definition gallery_update :: "GalleryMsg \<Rightarrow> Gallery \<Rightarrow> bool \<times> RemoteId list \<times> Gallery" where
  "gallery_update msg g =
     (case msg of
        GM_Select i \<Rightarrow> (False, [i], g)
      | GM_Role role \<Rightarrow>
          (let g = g\<lparr>ga_filter := role\<rparr>
           in if ga_channel g = CHANNEL_NONE then (True, [], g)
              else (True, [], g\<lparr>ga_sent := ga_sent g @ [InitializeImageUpload]\<rparr>))
      | GM_Log \<Rightarrow> (True, [], g)
      | GM_Channel channel \<Rightarrow>
          (let g = g\<lparr>ga_channel := channel\<rparr>
           in if channel = CHANNEL_NONE then (False, [], g)
              else (False, [], g\<lparr>ga_sent := ga_sent g @ [InitializeImageUpload]\<rparr>))
      | GM_Initialize images \<Rightarrow> (True, [], gallery_initialize images g)
      | GM_RemoteUpdate body \<Rightarrow> (case gallery_remote_update body g of (b, g) \<Rightarrow> (b, [], g)))"

record Upload =
  up_channel :: ChannelId
  up_source_data :: "(string \<times> bytes) option"
  up_source_url :: bool
  up_gallery_open :: bool
  up_uploading :: bool
  up_sent :: "Request list"

record UploadProps =
  upp_selected :: RemoteId
  upp_sizing :: ImageSizing
  upp_size :: u32
  upp_role :: Role

text \<open>
  \<open>UM_FileSelected\<close> tells whether there is a file; results are \<open>None\<close> when the request or the
  reader failed. The extent that is dragged is that of the dialog on display and left out.
\<close>

datatype UploadMsg =
    UM_Error | UM_Channel ChannelId | UM_FileSelected bool | UM_FileRead string "bytes option"
  | UM_CropDrag | UM_CropConfirmed CropRegion | UM_CropCancelled | UM_Uploaded "Image option"
  | UM_OpenGallery | UM_CloseGallery | UM_SelectImage RemoteId | UM_RemoveImage RemoteId
  | UM_RemoveResult RemoteId bool

definition upload_new :: Upload where
  "upload_new =
     \<lparr>up_channel = CHANNEL_NONE, up_source_data = None, up_source_url = False,
      up_gallery_open = False, up_uploading = False, up_sent = []\<rparr>"

definition upload_update :: "UploadProps \<Rightarrow> UploadMsg \<Rightarrow> Upload \<Rightarrow> bool \<times> RemoteId list \<times> Upload" where
  "upload_update props msg u =
     (case msg of
        UM_Error \<Rightarrow> (True, [], u)
      | UM_Channel channel \<Rightarrow> (False, [], u\<lparr>up_channel := channel\<rparr>)
      | UM_FileSelected found \<Rightarrow> (True, [], u\<lparr>up_source_data := None, up_source_url := found\<rparr>)
      | UM_FileRead content_type result \<Rightarrow>
          (case result of
             None \<Rightarrow> (True, [], u)
           | Some data \<Rightarrow> (False, [], u\<lparr>up_source_data := Some (content_type, data)\<rparr>))
      | UM_CropDrag \<Rightarrow> (True, [], u)
      | UM_CropConfirmed crop \<Rightarrow>
          (case up_source_data u of
             None \<Rightarrow> (True, [], u)
           | Some (content_type, data) \<Rightarrow>
               (True, [], u\<lparr>up_source_data := None, up_source_url := False, up_uploading := True,
                  up_sent := up_sent u @ [UploadImage
                    \<lparr>uir_content_type = content_type, uir_role = upp_role props, uir_crop = crop,
                     uir_sizing = upp_sizing props, uir_size = upp_size props, uir_data = data\<rparr>]\<rparr>))
      | UM_CropCancelled \<Rightarrow> (True, [], u\<lparr>up_source_url := False, up_source_data := None\<rparr>)
      | UM_Uploaded result \<Rightarrow>
          (case result of
             None \<Rightarrow> (True, [], u)
           | Some img \<Rightarrow> (True, [img_id img], u\<lparr>up_source_url := False, up_uploading := False\<rparr>))
      | UM_SelectImage i \<Rightarrow> (True, [i], u\<lparr>up_gallery_open := False\<rparr>)
      | UM_RemoveImage i \<Rightarrow> (False, [], u\<lparr>up_sent := up_sent u @ [RemoveImage (rid_id i)]\<rparr>)
      | UM_RemoveResult i removed \<Rightarrow>
          if \<not> removed then (True, [], u)
          else (False, if i = upp_selected props then [RemoteId_ZERO] else [], u)
      | UM_OpenGallery \<Rightarrow> (True, [], u\<lparr>up_gallery_open := True\<rparr>)
      | UM_CloseGallery \<Rightarrow> (True, [], u\<lparr>up_gallery_open := False\<rparr>))"

subsection \<open>What the forms show\<close>

lemma strip_all_stops: "strip_one ws (strip_all ws s) = None"
proof (induction ws s rule: strip_all.induct)
  case (1 ws s)
  then show ?case by (cases "strip_one ws s") (simp_all add: strip_all.simps [of ws s])
qed

definition settings_show :: "Settings \<Rightarrow> Properties \<Rightarrow> bool" where
  "settings_show s p \<longleftrightarrow>
     se_name s = as_str (props_get p KEY_PEER_NAME) \<and>
     se_peer_secret s = as_str (props_get p KEY_PEER_SECRET) \<and>
     se_remote_server s = as_str (props_get p KEY_REMOTE_SERVER) \<and>
     se_remote_server_tls s = as_bool (props_get p KEY_REMOTE_TLS)"

lemma as_bool_norm: "as_bool (value_norm v) = as_bool v"
  by (cases v) (auto simp: value_norm_def)

lemma settings_show_config:
  "settings_show s p \<Longrightarrow> settings_show (snd (settings_update_config key v s)) (props_put key v p)"
  by (auto simp: settings_show_def settings_update_config_def state_update_eq props_get_put as_str_norm
      as_bool_norm)

lemma settings_config_folds:
  "snd (fold (\<lambda>(key, v) (changed, s).
        case settings_update_config key v s of (b, s) \<Rightarrow> (changed \<or> b, s)) kvs (c, s)) =
     fold (\<lambda>(key, v) s. snd (settings_update_config key v s)) kvs s"
  by (induction kvs arbitrary: c s) (auto simp: split_beta)

lemma settings_show_configs:
  "settings_show s p \<Longrightarrow>
     settings_show (fold (\<lambda>(key, v) s. snd (settings_update_config key v s)) kvs s)
       (fold (\<lambda>(key, v). props_put key v) kvs p)"
  by (induction kvs arbitrary: s p) (auto simp: settings_show_config)

text \<open>
  The form shows the configuration it loaded with what changed since, whatever else was in it, and
  a field that the user changes is sent as it is then shown.
\<close>

lemma settings_follow:
  assumes "s = snd (settings_update (SM_GetConfig body) settings_new)"
    and "now = fold (\<lambda>(channel, key, v) s. snd (settings_update (SM_ConfigUpdate (UConfig channel key v)) s)) news s"
  shows "settings_show now (fold (\<lambda>(channel, key, v). props_put key v) news
    (fold (\<lambda>(key, v). props_put key v) body props_new))"
proof -
  have "settings_show settings_new props_new" by (simp add: settings_show_def settings_new_def)
  from settings_show_configs [OF this, of body]
  have "settings_show s (fold (\<lambda>(key, v). props_put key v) body props_new)"
    by (simp add: assms(1) settings_update_def settings_config_folds)
  moreover have "settings_show s p \<Longrightarrow> settings_show
      (fold (\<lambda>(channel, key, v) s. snd (settings_update (SM_ConfigUpdate (UConfig channel key v)) s)) news s)
      (fold (\<lambda>(channel, key, v). props_put key v) news p)" for s p
    by (induction news arbitrary: s p) (auto simp: settings_update_def settings_show_config)
  ultimately show ?thesis unfolding assms(2) by blast
qed

text \<open>
  The form loads what the database holds, which is behind: a change that waits to be saved is not
  in it, although the backend has it.
\<close>

lemma config_is_read_late:
  "secrets_given kvs \<Longrightarrow> ws_handle cr d il channel GetConfig (s, updates cr channel kvs b) =
     (Inr (R_Config (get_config d b)), s, updates cr channel kvs b)"
  by (simp add: get_config_def updates_effect(1))

subsection \<open>What the settings of an object send\<close>

text \<open>
  A change of a name, a switch, a color or a reference is reported exactly when the property is
  another one; then the property reads as the new value and the request holds it, otherwise nothing
  is sent and the form stays as it is.
\<close>

lemma osettings_change_spec:
  assumes "props_ok (ose_properties s)" "ose_channel s \<noteq> CHANNEL_NONE"
    and "osettings_change i key v s = (changed, s')"
  shows "(changed \<longleftrightarrow> \<not> value_same (props_get (ose_properties s) key) (value_norm v)) \<and>
    props_ok (ose_properties s') \<and>
    (if changed
     then (\<forall>k. props_get (ose_properties s') k =
             (if k = key then value_norm v else props_get (ose_properties s) k)) \<and>
       ose_sent s' = ose_sent s @ [ObjectUpdate (rid_id i) [(key, v)]]
     else s' = s)"
proof -
  obtain b ps where u: "props_update key v (ose_properties s) = (b, ps)"
    by (cases "props_update key v (ose_properties s)")
  note spec = props_update_spec [OF assms(1), of key v, unfolded u, simplified]
  show ?thesis using assms(2,3) spec
    by (cases b) (auto simp: osettings_change_def u osettings_send_def)
qed

text \<open>
  C33. An image that is chosen in the settings of an object is shown there but never sent when it
  is another one than before; it is sent when it is the one the form already shows.
\<close>

theorem chosen_image_is_not_sent:
  assumes "osettings_update i (OM_ImageChanged key new) s = (changed, s')"
    and "ose_channel s \<noteq> CHANNEL_NONE"
  shows "as_id (props_get (ose_properties s') key) = rid_id new \<and>
    (changed \<longleftrightarrow> as_id (props_get (ose_properties s) key) = rid_id new) \<and>
    ose_sent s' =
      (if as_id (props_get (ose_properties s) key) \<noteq> rid_id new then ose_sent s
       else ose_sent s @ [ObjectUpdate (rid_id i) [(key, value_from_id (rid_id new))]])"
proof -
  let ?v = "value_from_id (rid_id new)"
  obtain old ps where ins: "props_insert key ?v (ose_properties s) = (old, ps)"
    by (cases "props_insert key ?v (ose_properties s)")
  then have old: "old = props_get (ose_properties s) key"
    using props_insert_old [of key ?v "ose_properties s"] by simp
  have "props_get ps key = value_norm ?v"
    using props_get_put [of key ?v "ose_properties s" key] ins by (simp add: props_put_def)
  moreover have "as_id (value_norm ?v) = rid_id new"
    by (cases "rid_id new") (simp add: value_from_id_def value_norm_def id_is_zero_def Id_ZERO_def)
  ultimately show ?thesis using assms ins
    by (auto simp: osettings_update_def osettings_image_changed_def Let_def osettings_send_def old
        split: if_splits)
qed

definition example_form :: ObjectSettings where
  "example_form = osettings_new\<lparr>ose_channel := 3\<rparr>"

theorem chosen_image_is_not_sent_witness:
  "ose_sent (snd (osettings_update (rid_local (Id_new 4))
     (OM_ImageChanged KEY_IMAGE_ID (rid_local (Id_new 9))) example_form)) = []"
proof -
  let ?i = "rid_local (Id_new 4)" and ?new = "rid_local (Id_new 9)"
  obtain b s' where u: "osettings_update ?i (OM_ImageChanged KEY_IMAGE_ID ?new) example_form = (b, s')"
    by (cases "osettings_update ?i (OM_ImageChanged KEY_IMAGE_ID ?new) example_form")
  have "ose_channel example_form \<noteq> CHANNEL_NONE" by (simp add: example_form_def osettings_new_def)
  from chosen_image_is_not_sent [OF u this] have "ose_sent s' = []"
    by (simp add: example_form_def osettings_new_def rid_local_def Id_ZERO_def)
  then show ?thesis unfolding u by simp
qed

text \<open>What other windows change arrives in the form; for images also, unlike the choice above.\<close>

lemma object_form_follows:
  assumes "osettings_update i (OM_RemoteUpdate (RObjectUpdated channel i key v)) s = (changed, s')"
  shows "ose_properties s' = props_put key v (ose_properties s)"
  using assms
  by (auto simp: osettings_update_def update_property_def Let_def props_put_def split: if_splits prod.splits)

subsection \<open>What images are offered\<close>

text \<open>A gallery that shows images of one role is given every new image, of any role and peer.\<close>

lemma gallery_ignores_filter:
  "img \<in> set (ga_images (snd (snd (gallery_update (GM_RemoteUpdate (RImageCreated img)) g))))"
  by (simp add: gallery_update_def gallery_remote_update_def)

lemma gallery_is_filtered:
  "ga_filter g \<noteq> ROLE_NONE \<Longrightarrow>
     \<forall>img\<in>set (ga_images (snd (snd (gallery_update (GM_Initialize images) g)))). img_role img = ga_filter g"
  by (simp add: gallery_update_def gallery_initialize_def)

text \<open>Only an upload that succeeds ends: after one that failed the form waits on.\<close>

lemma failed_upload_waits:
  assumes "up_uploading u" "\<forall>msg\<in>set msgs. \<forall>img. msg \<noteq> UM_Uploaded (Some img)"
  shows "up_uploading (fold (\<lambda>msg u. snd (snd (upload_update props msg u))) msgs u)"
  using assms
proof (induction msgs arbitrary: u)
  case (Cons msg msgs)
  then have "up_uploading (snd (snd (upload_update props msg u)))"
    by (auto simp: upload_update_def split: UploadMsg.splits option.splits)
  with Cons show ?case by simp
qed simp

end
