(* ===== verification/UiList.thy ===== *)
theory UiList
  imports UiMapErr "HOL-Library.Sublist"
begin

section \<open>The list of objects: \<^verbatim>\<open>crates/web/src/components/object_list.rs\<close>\<close>

text \<open>
  What the list displays: for every group in view the rows of its objects, each with the zones that
  take a dragged object. The list of an expanded group is a component inside the list of its
  parent; the depth of components is bounded by an argument, which never cuts anything off when
  it exceeds the number of objects.
\<close>

subsection \<open>Rows and zones\<close>

definition drag_above :: "RemoteId \<Rightarrow> RemoteId \<Rightarrow> DragOver" where
  "drag_above g target = \<lparr>dg_drag = Above, dg_group = g, dg_target = target\<rparr>"

definition drag_below :: "RemoteId \<Rightarrow> RemoteId \<Rightarrow> DragOver" where
  "drag_below g target = \<lparr>dg_drag = Below, dg_group = g, dg_target = target\<rparr>"

definition drag_into :: "RemoteId \<Rightarrow> RemoteId \<Rightarrow> DragOver" where
  "drag_into g target = \<lparr>dg_drag = Into, dg_group = g, dg_target = target\<rparr>"

record ListProps =
  lp_drag_over :: "DragOver option"
  lp_mumble_object :: "RemoteId option"
  lp_selected :: "RemoteId option"

record ListButtons =
  bt_mumble :: "bool option"
  bt_expand :: "bool option"
  bt_hidden :: bool
  bt_local_hidden :: bool
  bt_locked :: bool

text \<open>
  A row: \<open>rw_id\<close> is what clicking, opening, the end of dragging and each of its buttons give, the
  last two fields what the start of dragging it and dragging over it give. A button is present
  (\<open>Some\<close>) or not, and active or not.
\<close>

record ListRow =
  rw_id :: RemoteId
  rw_selected :: bool
  rw_icon :: string
  rw_name :: string
  rw_count :: "nat option"
  rw_buttons :: "ListButtons option"
  rw_drag_start :: DragOver
  rw_drag_over :: DragOver

datatype ListItem =
    LAbove DragOver bool
  | LRow ListRow
  | LChildren RemoteId "ListItem list"
  | LBelow DragOver bool
  | LLast DragOver

definition list_buttons :: "ListProps \<Rightarrow> Object \<Rightarrow> ListButtons option" where
  "list_buttons props ob =
     (if \<not> rid_is_local (ob_id ob) then None
      else Some
        \<lparr>bt_mumble = (if object_is_interactive ob
                      then Some (lp_mumble_object props = Some (ob_id ob)) else None),
         bt_expand = (if object_is_group ob then Some (object_is_expanded ob) else None),
         bt_hidden = ob_hidden ob, bt_local_hidden = ob_local_hidden ob,
         bt_locked = object_is_locked ob\<rparr>)"

definition list_row :: "ListProps \<Rightarrow> OrderRef \<Rightarrow> RemoteId \<Rightarrow> Object \<Rightarrow> ListRow" where
  "list_row props ors g ob =
     \<lparr>rw_id = ob_id ob, rw_selected = (lp_selected props = Some (ob_id ob)),
      rw_icon = object_icon ob, rw_name = ref_name (object_as_ref ob),
      rw_count = (if object_is_group ob \<and> \<not> object_is_expanded ob
                  then Some (order_child_count (ob_id ob) ors) else None),
      rw_buttons = list_buttons props ob,
      rw_drag_start = drag_below g (ob_id ob),
      rw_drag_over =
        (if object_is_group ob then drag_into else drag_below) g (ob_id ob)\<rparr>"

definition listed :: "Objects \<Rightarrow> OrderRef \<Rightarrow> RemoteId \<Rightarrow> Object list" where
  "listed os ors g =
     filter (\<lambda>ob. rid_is_local (ob_id ob) \<or> object_visibility ob = Vis_Remote)
       (List.map_filter (\<lambda>i. objects_get i os) (order_iter g ors))"

definition drop_into_last :: "ListProps \<Rightarrow> RemoteId \<Rightarrow> Object \<Rightarrow> RemoteId option" where
  "drop_into_last props g ob =
     (if lp_drag_over props = Some (drag_into g (ob_id ob)) then Some g else None)"

definition list_opened :: "ListProps \<Rightarrow> OrderRef \<Rightarrow> RemoteId \<Rightarrow> Object \<Rightarrow> bool" where
  "list_opened props ors g ob \<longleftrightarrow>
     (case ob_kind ob of
        KGroup o' \<Rightarrow> gro_expanded o' \<and>
          (drop_into_last props g ob \<noteq> None \<or> \<not> order_is_empty (ob_id ob) ors)
      | _ \<Rightarrow> False)"

text \<open>What one turn of the loop adds after the zone above; \<open>below\<close> is the list of the group.\<close>

definition list_object ::
    "ListProps \<Rightarrow> OrderRef \<Rightarrow> RemoteId \<Rightarrow> RemoteId option \<Rightarrow> ListItem list \<Rightarrow> bool \<Rightarrow> Object
       \<Rightarrow> ListItem list" where
  "list_object props ors g into_last below is_last ob =
     LRow (list_row props ors g ob) #
     (if list_opened props ors g ob then [LChildren (ob_id ob) below] else []) @
     [LBelow (drag_below g (ob_id ob))
        (is_last \<and> into_last \<noteq> None \<or> lp_drag_over props = Some (drag_below g (ob_id ob)))]"

definition list_above :: "ListProps \<Rightarrow> RemoteId \<Rightarrow> Object \<Rightarrow> ListItem" where
  "list_above props g ob =
     LAbove (drag_above g (ob_id ob)) (lp_drag_over props = Some (drag_above g (ob_id ob)))"

definition last_flags :: "nat \<Rightarrow> bool list" where
  "last_flags n = replicate (n - 1) False @ [True]"

fun object_list ::
    "nat \<Rightarrow> ListProps \<Rightarrow> Objects \<Rightarrow> OrderRef \<Rightarrow> RemoteId \<Rightarrow> RemoteId option \<Rightarrow> ListItem list" where
  "object_list 0 props os ors g into_last = []"
| "object_list (Suc n) props os ors g into_last =
     (let obs = listed os ors g
      in case obs of
           [] \<Rightarrow>
             (case into_last of None \<Rightarrow> [] | Some target \<Rightarrow> [LLast (drag_into g target)])
         | ob # _ \<Rightarrow>
             list_above props g ob #
             concat (map (\<lambda>(is_last, ob).
               list_object props ors g into_last
                 (object_list n props os ors (ob_id ob) (drop_into_last props g ob)) is_last ob)
               (zip (last_flags (length obs)) obs)))"

fun item_ids :: "ListItem \<Rightarrow> RemoteId list" where
  "item_ids (LRow r) = [rw_id r]"
| "item_ids (LChildren g items) = concat (map item_ids items)"
| "item_ids _ = []"

definition list_ids :: "ListItem list \<Rightarrow> RemoteId list" where
  "list_ids items = concat (map item_ids items)"

subsection \<open>What is listed\<close>

lemma list_ids_simps [simp]:
  "list_ids [] = []"
  "list_ids (LAbove d b # items) = list_ids items"
  "list_ids (LBelow d b # items) = list_ids items"
  "list_ids (LLast d # items) = list_ids items"
  "list_ids (LRow r # items) = rw_id r # list_ids items"
  "list_ids (LChildren g xs # items) = list_ids xs @ list_ids items"
  "list_ids (list_above props g ob # items) = list_ids items"
  "list_ids (xs @ ys) = list_ids xs @ list_ids ys"
  by (simp_all add: list_ids_def list_above_def)

lemma list_ids_concat: "list_ids (concat xss) = concat (map list_ids xss)"
  by (induction xss) simp_all

lemma list_object_ids:
  "list_ids (list_object props ors g into_last below is_last ob) =
     ob_id ob # (if list_opened props ors g ob then list_ids below else [])"
  by (simp add: list_object_def list_row_def)

lemma map_zip_snd: "length xs = length ys \<Longrightarrow> map (\<lambda>p. h (snd p)) (zip xs ys) = map h ys"
  by (induction xs ys rule: list_induct2) simp_all

lemma last_flags_length: "0 < n \<Longrightarrow> length (last_flags n) = n"
  by (simp add: last_flags_def)

lemma object_list_ids:
  "list_ids (object_list (Suc n) props os ors g into_last) =
     concat (map (\<lambda>ob. ob_id ob #
       (if list_opened props ors g ob
        then list_ids (object_list n props os ors (ob_id ob) (drop_into_last props g ob)) else []))
       (listed os ors g))"
proof (cases "listed os ors g")
  case Nil
  then show ?thesis by (simp split: option.split)
next
  case (Cons ob obs)
  let ?h = "\<lambda>ob. ob_id ob # (if list_opened props ors g ob
    then list_ids (object_list n props os ors (ob_id ob) (drop_into_last props g ob)) else [])"
  have "map (\<lambda>x. ?h (snd x)) (zip (last_flags (length (ob # obs))) (ob # obs)) = map ?h (ob # obs)"
    using map_zip_snd [of "last_flags (length (ob # obs))" "ob # obs" ?h]
    by (simp only: last_flags_length length_Cons zero_less_Suc)
  then show ?thesis
    unfolding Cons object_list.simps
    by (simp only: Let_def list.case list_ids_simps list_ids_concat map_map comp_def split_beta
        list_object_ids)
qed

text \<open>Each listed object is a child of the group, in the order of the children.\<close>

lemma listed_children:
  assumes "tables_ok os ors"
  shows "subseq (map ob_id (listed os ors g)) (order_iter g ors)"
proof -
  have "subseq (map ob_id (List.map_filter (\<lambda>i. objects_get i os) is)) is" for "is"
    by (induction "is")
      (auto simp: objects_get_def tables_okD(3) [OF assms] split: option.splits)
  moreover have "subseq (map ob_id (filter P xs)) (map ob_id xs)" for P and xs :: "Object list"
    by (rule subseq_map) simp
  ultimately show ?thesis unfolding listed_def by (metis subseq_order.order_trans)
qed

lemma subseq_distinct: "subseq xs ys \<Longrightarrow> distinct ys \<Longrightarrow> distinct xs"
  by (auto simp: subseq_conv_nths intro: distinct_nthsI)

lemma subseq_members: "subseq xs ys \<Longrightarrow> set xs \<subseteq> set ys"
  using set_nths_subset by (fastforce simp: subseq_conv_nths)

lemma subseq_concat_map:
  assumes "subseq (map f xs) (map f' ys)"
    and "\<And>x y. x \<in> set xs \<Longrightarrow> y \<in> set ys \<Longrightarrow> f x = f' y \<Longrightarrow> subseq (h x) (h' y)"
  shows "subseq (concat (map h xs)) (concat (map h' ys))"
  using assms
proof (induction ys arbitrary: xs)
  case (Cons y ys)
  show ?case
  proof (cases xs)
    case (Cons x xs')
    show ?thesis
    proof (cases "f x = f' y")
      case True
      with Cons Cons.prems(1) have "subseq (map f xs') (map f' ys)" by simp
      from Cons.IH [OF this] Cons.prems(2) Cons True show ?thesis
        by (simp add: list_emb_append_mono)
    next
      case False
      with Cons Cons.prems(1) have "subseq (map f xs) (map f' ys)" by simp
      from Cons.IH [OF this] Cons.prems(2) show ?thesis
        by (simp add: list_emb_append2)
    qed
  qed simp
qed (auto dest: list_emb_Nil2)

lemma listed_groups:
  assumes "order_ok ors" "way (or_children ors) g p"
  shows "order_iter g ors = map sk_id (children_of (or_children ors) g)"
proof (cases "g = RemoteId_ZERO")
  case True
  then show ?thesis by (simp add: order_iter_def as_group_def RemoteId_ZERO_def)
next
  case False
  from order_child_as_group [OF assms(1) False assms(2)] show ?thesis by (simp add: order_iter_def)
qed

lemma object_list_below:
  assumes "tables_ok os ors" "way (or_children ors) g p"
  shows "subseq (list_ids (object_list n props os ors g into_last))
    (tree False n (or_children ors) g)"
  using assms(2)
proof (induction n arbitrary: g p into_last)
  case (Suc n)
  have sub: "subseq (map ob_id (listed os ors g)) (map sk_id (children_of (or_children ors) g))"
    using listed_children [OF assms(1), of g]
    unfolding listed_groups [OF tables_okD(2) [OF assms(1)] Suc.prems] .
  show ?case
    unfolding object_list_ids tree_forest forest_def if_False
  proof (rule subseq_concat_map [OF sub])
    fix ob :: Object and k assume "k \<in> set (children_of (or_children ors) g)" "ob_id ob = sk_id k"
    with Suc.IH [OF way_step [OF Suc.prems this(1)]]
    show "subseq (ob_id ob # (if list_opened props ors g ob
        then list_ids (object_list n props os ors (ob_id ob) (drop_into_last props g ob)) else []))
      (sk_id k # tree False n (or_children ors) (sk_id k))" by simp
  qed
qed simp

text \<open>Components deeper than the number of objects would add nothing.\<close>

lemma object_list_stable:
  assumes ok: "tables_ok os ors"
  shows "way (or_children ors) g p \<Longrightarrow> length (or_objects ors) < n + length p \<Longrightarrow>
    object_list n props os ors g into_last = object_list (Suc n) props os ors g into_last"
proof (induction n arbitrary: g p into_last)
  case 0
  with order_way_bound [OF tables_okD(2) [OF ok]] show ?case by fastforce
next
  case (Suc n)
  have below: "object_list n props os ors (ob_id ob) into = object_list (Suc n) props os ors (ob_id ob) into"
    if "ob \<in> set (listed os ors g)" for ob into
  proof -
    from that have "ob_id ob \<in> set (map ob_id (listed os ors g))" by simp
    with listed_children [OF ok, of g] have "ob_id ob \<in> set (order_iter g ors)"
      by (blast dest: subseq_members)
    then obtain k where k: "k \<in> set (children_of (or_children ors) g)" "ob_id ob = sk_id k"
      unfolding listed_groups [OF tables_okD(2) [OF ok] Suc.prems(1)] by auto
    from Suc.IH [OF way_step [OF Suc.prems(1) k(1)]] Suc.prems(2) k(2) show ?thesis
      by (simp del: object_list.simps)
  qed
  have "map (\<lambda>(l, ob). list_object props ors g into_last
          (object_list n props os ors (ob_id ob) (drop_into_last props g ob)) l ob) (zip bs (listed os ors g)) =
        map (\<lambda>(l, ob). list_object props ors g into_last
          (object_list (Suc n) props os ors (ob_id ob) (drop_into_last props g ob)) l ob) (zip bs (listed os ors g))"
    for bs
  proof (rule map_cong [OF refl])
    fix x assume "x \<in> set (zip bs (listed os ors g))"
    moreover obtain l ob where "x = (l, ob)" by (cases x)
    ultimately have x: "x = (l, ob)" "ob \<in> set (listed os ors g)" by (auto dest: set_zip_rightD)
    show "(case x of (l, ob) \<Rightarrow> list_object props ors g into_last
          (object_list n props os ors (ob_id ob) (drop_into_last props g ob)) l ob) =
        (case x of (l, ob) \<Rightarrow> list_object props ors g into_last
          (object_list (Suc n) props os ors (ob_id ob) (drop_into_last props g ob)) l ob)"
      unfolding x(1) prod.case below [OF x(2)] ..
  qed
  note same = this
  show ?case
    unfolding object_list.simps(2) [of "Suc n" props os ors g into_last]
      object_list.simps(2) [of n props os ors g into_last]
    unfolding Let_def same ..
qed

text \<open>
  The list never shows an object twice, and shows the objects in the order in which a walk visits
  them.
\<close>

theorem list_follows_walk:
  assumes "tables_ok os ors"
  defines "n \<equiv> Suc (length (or_objects ors))"
  shows "\<exists>ids. walk ors = Some ids \<and>
    subseq (list_ids (object_list n props os ors RemoteId_ZERO into_last)) ids \<and>
    distinct (list_ids (object_list n props os ors RemoteId_ZERO into_last)) \<and>
    object_list (Suc n) props os ors RemoteId_ZERO into_last =
      object_list n props os ors RemoteId_ZERO into_last"
proof (intro exI conjI)
  note ok = tables_okD(2) [OF assms(1)]
  show "walk ors = Some (tree False n (or_children ors) RemoteId_ZERO)"
    unfolding n_def by (rule walk_trees(1) [OF ok])
  show sub: "subseq (list_ids (object_list n props os ors RemoteId_ZERO into_last))
      (tree False n (or_children ors) RemoteId_ZERO)"
    by (rule object_list_below [OF assms(1) way_root])
  from walk_rest_tree(2) [OF ok] sub
  show "distinct (list_ids (object_list n props os ors RemoteId_ZERO into_last))"
    unfolding n_def by (rule subseq_distinct [rotated])
  show "object_list (Suc n) props os ors RemoteId_ZERO into_last =
      object_list n props os ors RemoteId_ZERO into_last"
    by (rule object_list_stable [OF assms(1) way_root, symmetric]) (simp add: n_def)
qed

text \<open>
  The zone inside an empty group that is dragged over: it is shown, and what it gives is a drop into
  the group around it, because the property carries that group instead of the empty one.
\<close>

lemma empty_group_zone_is_outside:
  assumes "drop_into_last props g ob \<noteq> None" "listed os ors (ob_id ob) = []"
  shows "\<exists>d. object_list (Suc n) props os ors (ob_id ob) (drop_into_last props g ob) = [LLast d] \<and>
    dg_group d = ob_id ob \<and> target_group d = g"
  using assms
  by (auto simp: drop_into_last_def target_group_def drag_into_def split: if_splits)

lemma root_zone_gives_nothing:
  assumes "objects_get RemoteId_ZERO os = None"
  shows "drag_new_sort (drag_into g RemoteId_ZERO) os ors = None"
  using assms by (simp add: objects_get_def drag_new_sort_def drag_into_def)

end
