(* ===== verification/Spec2Isabelle.thy ===== *)
theory Spec2Isabelle
  imports Ids Sorting Floats ServerProps ServerGreet SyncLive WebRun UiFollowProps MumbleLink UiForms UiList
begin

section \<open>A model of mumbler\<close>

text \<open>
  Mumbler is a shared tabletop: every participant runs a local process with a web interface,
  and the processes exchange objects, images and properties through a server. This library
  models the Rust code under \<^verbatim>\<open>src/crates\<close> and proves what makes its parts correct.

  \<^bold>\<open>The program.\<close> A browser talks to the local process over a websocket
  (\<^verbatim>\<open>mumbler/src/web\<close>). Each request is an operation of the backend
  (\<^verbatim>\<open>mumbler/src/backend.rs\<close>), which holds properties, objects and images in memory, marks what
  is to be sent to the server, and broadcasts the change to every browser; the connection saves
  updates to the database (\<^verbatim>\<open>mumbler/src/database.rs\<close>) after a delay. The client
  (\<^verbatim>\<open>mumbler/src/client.rs\<close>) flushes marked changes to the server and keeps a table of the other
  peers from the events it receives. The server (\<^verbatim>\<open>mumbler/src/remote/server.rs\<close>)
  authenticates peers by a challenge, keeps what each shares and forwards it: global objects and
  images to everyone, the rest to the members of the peer's room. Both speak the framed protocol
  of \<^verbatim>\<open>mumbler/src/remote/{api,client,peer}.rs\<close>. Identifiers and sort keys come from
  \<^verbatim>\<open>api/src/ids.rs\<close>, \<^verbatim>\<open>api/src/hash.rs\<close> and \<^verbatim>\<open>sorting/src/lib.rs\<close>. The browser
  (\<^verbatim>\<open>web/src\<close>) keeps its own tables of objects, their order and the peers.

  \<^bold>\<open>Theories and sources.\<close>
  \<^item> \<open>Prelude\<close>: machine integers, hash maps as association lists, ordered sets as sorted lists;
    the interfaces \<open>kv_store\<close> (things read and written by key) and \<open>inv_system\<close> (state machines
    with an invariant), both interpreted on the model's own definitions.
  \<^item> \<open>Hash\<close>, \<open>Ids\<close>, \<open>Sorting\<close>: the mixing function and its inverse, the two allocators, the
    sort keys (\<open>midpoint\<close>, \<open>before\<close>, \<open>after\<close>).
  \<^item> \<open>ApiTypes\<close>, \<open>Values\<close>, \<open>Floats\<close>, \<open>Messages\<close>: identifiers with their orders, printing and
    parsing; keys, values, property sets and plain data; the casts between the float widths;
    the bodies of the protocol's messages (\<^verbatim>\<open>api/src/*.rs\<close>, \<^verbatim>\<open>mumbler/src/remote/api.rs\<close>).
  \<^item> \<open>Wire\<close>: \<open>Buf\<close>, scratch buffers, polling of sockets, framing, reading and every sender
    (\<^verbatim>\<open>remote/client.rs\<close>, \<^verbatim>\<open>remote/peer.rs\<close>).
  \<^item> \<open>Server\<close>: the state of the server, every handler and the turns of its main loop as the
    relation \<open>server_step\<close>. \<open>ServerInv\<close>, \<open>ServerBufs\<close>: its invariant, the interface \<open>sending\<close>.
    \<open>ServerRun\<close>, \<open>ServerProps\<close>, \<open>ServerGreet\<close>: a concrete run and the properties.
  \<^item> \<open>Database\<close>, \<open>Backend\<close>, \<open>BackendInv\<close>, \<open>BackendProps\<close>: tables with failing statements, the
    operations of the backend, their invariant and what a creation gives.
  \<^item> \<open>RemoteClient\<close>, \<open>Handshake\<close>, \<open>Sync\<close>, \<open>SyncLive\<close>: the client's handlers and flush, its table
    of peers against the server's state, the server's copy against the client's state.
  \<^item> \<open>Imaging\<close>, \<open>WebApi\<close>, \<open>WebSync\<close>, \<open>WebRun\<close>: the processing of uploads, the requests of the
    web interface, the loop of a connection and the database against the memory.
  \<^item> \<open>UiPeers\<close>, \<open>UiObjects\<close>, \<open>UiGroups\<close>: the browser's cells (\<^verbatim>\<open>web/src/state.rs\<close>), its table of
    peers with the translation of identifiers (\<^verbatim>\<open>peers.rs\<close>), its objects of four kinds with
    reading, loading and updating, and what follows their groups (\<^verbatim>\<open>objects.rs\<close>).
  \<^item> \<open>UiOrder\<close>, \<open>UiOrderInv\<close>, \<open>UiWalk\<close>, \<open>UiDrag\<close>: the order of objects within groups, its
    consistency, its two walks (\<^verbatim>\<open>order.rs\<close>) and where a dropped object ends (\<^verbatim>\<open>drag_over.rs\<close>).
  \<^item> \<open>UiMap\<close>, \<open>UiPlaces\<close>, \<open>UiMapInv\<close>, \<open>UiMapProps\<close>, \<open>UiMapErr\<close>: the map component
    (\<^verbatim>\<open>components/map.rs\<close>) with its messages and requests, the two agreements of its tables with
    the order and their interface \<open>order_tables\<close>, the handlers that keep them, the types of what
    it sends and where it goes wrong.
  \<^item> \<open>UiSync\<close>, \<open>UiFollow\<close>, \<open>UiFollowProps\<close>: a window against the backend: what each operation
    of the backend tells the windows, the turns of a window with the requests it sends, and the
    relation \<open>follows\<close> of a window that hears every broadcast.
  \<^item> \<open>UiRooms\<close>, \<open>UiForms\<close>: the list of rooms against the objects a window was told of
    (\<^verbatim>\<open>components/rooms.rs\<close>), the settings, the panels, the settings of an object and the choice
    and upload of images with the requests they send (\<^verbatim>\<open>settings.rs\<close>, \<^verbatim>\<open>object_settings.rs\<close> and others).
  \<^item> \<open>UiList\<close>: what the list of objects displays (\<^verbatim>\<open>components/object_list.rs\<close>): a part of the walk
    over the order, no object twice, whatever the depth of its components.
  \<^item> \<open>MumbleLink\<close>: the memory shared with Mumble, its link (\<^verbatim>\<open>mumblelink/src\<close>), the loop that writes
    the position of an object and the one that starts and stops it (\<^verbatim>\<open>mumbler/src/mumblelink.rs\<close>).

  \<^bold>\<open>State and effects.\<close> A struct is a record or a datatype with the source's fields, a handler
  is a function from state to state that returns its error as a value; \<open>Result\<close> is a sum or a
  pair of an error option and the state, so that what an operation did before it failed stays
  visible. A lock held for an operation makes it one step. A \<open>Notify\<close> is its permit, a broadcast
  channel a log. A \<open>HashMap\<close> iterates in the order of its list, which no property fixes.

  \<^bold>\<open>What is shown.\<close> The groups of lemmas follow the components: allocation and mixing are
  injective; keys made by \<open>after\<close>, \<open>before\<close> and \<open>midpoint\<close> are ordered under stated conditions
  and where the conditions fail the code does not do what it says; the parsers invert the
  printers, or provably do not; bytes written on one side are read on the other for every
  chunking of the stream, as long as the reader's buffer runs dry in time; reachable server states have unique keys, consistent identifiers and
  memberships, and before authentication a peer changes nothing shared; a client's table mirrors
  what the server holds, and the server's copy refines the client's state with its pending
  changes; the database equals memory up to the updates waiting to be saved; image processing
  stays within its bounds. In the browser, updating an object is
  loading it again but for what an update does not reach, the order knows the place of every
  object in every reachable map, and holds nothing else while the map is initialized once, walks
  visit every object once and in opposite directions, requests carry values of the right type,
  a window that hears every broadcast in turn shows what the backend holds, and one that chooses
  at the same time as another does not, and following groups returns exactly when the groups form
  no cycle, which dropping a group below itself makes; the list of rooms is that of the objects a
  window was told of, of which the loss of the server takes the wrong ones, and forms send what
  they show but for a chosen image. What Mumble reads is what the link was told last, once its timer has ticked, and
  the link is open or retried exactly while its setting is on.

  \<^bold>\<open>Bounds and fuel.\<close> Capacities and limits are those of the source. Two loops carry fuel. The
  loop over received messages (\<open>handle_loop\<close>) has one unit per byte that is pending, and each
  turn consumes at least four; \<open>server_never_stalls\<close> shows that it does not run out. The
  comparison of sort keys (\<open>midpoint_loop\<close>) counts positions: it has the length of the longer
  key, as the iteration of the source. Links that may form a cycle are followed by
  \<open>partial_function (option)\<close>, where \<open>None\<close> is a loop that does not end.

  \<^bold>\<open>Parameters.\<close> Code outside the repository is an argument of the definitions: the encoding of
  messages (\<open>Codec\<close>), signatures and key derivation (\<open>Crypto\<close>), the encoding of database columns
  (\<open>Descriptive\<close>) and of images (\<open>ImageLib\<close>), base64, the clock, nonces and the answers of
  sockets and of SQLite. What a property relies on is a hypothesis of it, and its witness
  instantiates it.

  \<^bold>\<open>Not modelled.\<close> Rendering, styling and the event plumbing of the browser components; of
  the map the actions of the pointer and the animation, of the settings of an object the numbers;
  floating-point arithmetic (movement, shading, hit tests), of which only comparisons and
  conversions are needed here; opening the memory that Mumble shares; command lines, logging,
  signals, TLS, routes and static files; opening and migrating the database; reconnecting; the
  word list for key phrases. These are I/O, libraries or data.
\<close>

end
